(* ===== verification/KbPrelude.thy ===== *)
theory KbPrelude
  imports Main "HOL-Library.Log_Nat"
begin

text \<open>
  Shared vocabulary of the development.

  The services under src/src are TypeScript classes over a PostgreSQL database
  reached through Prisma. Three things recur in every method, and this theory fixes how each
  is written:

  \<^item> \<^emph>\<open>throwing\<close>: \<open>if (c) throw E\<close> is \<open>throw_if c E k\<close> with \<open>k\<close> the rest of the method, and
    \<open>if (!x) throw E\<close> on a looked-up row is \<open>or_throw x E (\<lambda>x. k)\<close>; a result is a sum whose
    left side is the exception;
  \<^item> \<^emph>\<open>statements on the surrounding world\<close>, some of which survive a later exception
    (a failed password attempt is counted although the request fails): a result paired with
    the world after it, sequenced by \<open>andThen\<close>;
  \<^item> \<^emph>\<open>tables\<close>: a table is the list of its rows; \<open>findUnique\<close>, \<open>updateMany\<close>,
    \<open>updateOne\<close> and \<open>create\<close> are the Prisma client calls of the same names.

  The second half proves what the rest of the library needs of tables: unique keys survive
  every call, lookups commute with updates, and a sum over a table changes by exactly the
  change of the one row an update touches.
\<close>

named_theorems kb_simps "equations that unfold the control-flow combinators of the model"

subsection \<open>Exceptions\<close>

definition throw_if :: "bool \<Rightarrow> 'e \<Rightarrow> 'e + 'a \<Rightarrow> 'e + 'a" where
  "throw_if c e k = (if c then Inl e else k)"

definition or_throw :: "'a option \<Rightarrow> 'e \<Rightarrow> ('a \<Rightarrow> 'e + 'b) \<Rightarrow> 'e + 'b" where
  "or_throw x e k = (case x of None \<Rightarrow> Inl e | Some a \<Rightarrow> k a)"

definition bindE :: "'e + 'a \<Rightarrow> ('a \<Rightarrow> 'e + 'b) \<Rightarrow> 'e + 'b" where
  "bindE m k = (case m of Inl e \<Rightarrow> Inl e | Inr a \<Rightarrow> k a)"

definition andThen :: "('e + 'a) \<times> 'w \<Rightarrow> ('a \<Rightarrow> 'w \<Rightarrow> ('e + 'b) \<times> 'w) \<Rightarrow> ('e + 'b) \<times> 'w" where
  "andThen m k = (case m of (Inl e, w) \<Rightarrow> (Inl e, w) | (Inr a, w) \<Rightarrow> k a w)"

lemma throw_if_simps [simp, kb_simps]:
  "throw_if True e k = Inl e"
  "throw_if False e k = k"
  by (simp_all add: throw_if_def)

lemma throw_if_Inr [simp, kb_simps]: "throw_if c e k = Inr y \<longleftrightarrow> \<not> c \<and> k = Inr y"
  by (simp add: throw_if_def)

lemma throw_if_Inl [kb_simps]: "throw_if c e k = Inl d \<longleftrightarrow> (c \<and> d = e) \<or> (\<not> c \<and> k = Inl d)"
  by (auto simp: throw_if_def)

lemma or_throw_simps [simp, kb_simps]:
  "or_throw None e k = Inl e"
  "or_throw (Some a) e k = k a"
  by (simp_all add: or_throw_def)

lemma or_throw_Inr [simp, kb_simps]: "or_throw x e k = Inr y \<longleftrightarrow> (\<exists>a. x = Some a \<and> k a = Inr y)"
  by (cases x) simp_all

lemma or_throw_Inl [kb_simps]:
  "or_throw x e k = Inl d \<longleftrightarrow> (x = None \<and> d = e) \<or> (\<exists>a. x = Some a \<and> k a = Inl d)"
  by (cases x) auto

lemma bindE_simps [simp, kb_simps]:
  "bindE (Inl e) k = Inl e"
  "bindE (Inr a) k = k a"
  by (simp_all add: bindE_def)

lemma bindE_Inr [simp, kb_simps]: "bindE m k = Inr y \<longleftrightarrow> (\<exists>a. m = Inr a \<and> k a = Inr y)"
  by (cases m) simp_all

lemma bindE_Inl [kb_simps]:
  "bindE m k = Inl d \<longleftrightarrow> m = Inl d \<or> (\<exists>a. m = Inr a \<and> k a = Inl d)"
  by (cases m) auto

lemma andThen_simps [simp, kb_simps]:
  "andThen (Inl e, w) k = (Inl e, w)"
  "andThen (Inr a, w) k = k a w"
  by (simp_all add: andThen_def)

lemma andThen_Inr [simp, kb_simps]:
  "andThen m k = (Inr y, w'') \<longleftrightarrow> (\<exists>a w'. m = (Inr a, w') \<and> k a w' = (Inr y, w''))"
  by (auto simp: andThen_def split: prod.split sum.split)

text \<open>From a run that was seen not to throw, the result and what it leaves.\<close>

lemma not_isl_fst: "isl (fst m) = False \<Longrightarrow> \<exists>a w. m = (Inr a, w)"
  by (cases m; cases "fst m") auto

lemma not_isl_pair: "isl m = False \<Longrightarrow> \<exists>a d. m = Inr (a, d)"
  by (cases m) auto

text \<open>
  A property of the world that the first part keeps, and the second part keeps from there, holds
  after both, whether or not one of them threw. This is how every invariant is carried through
  a service method.
\<close>

lemma andThen_preserves:
  assumes "P (snd m)" and "\<And>a w'. m = (Inr a, w') \<Longrightarrow> P w' \<Longrightarrow> P (snd (k a w'))"
  shows "P (snd (andThen m k))"
proof (cases m)
  case (Pair r w)
  with assms show ?thesis by (cases r) auto
qed

subsection \<open>Tables\<close>

definition findUnique :: "('r \<Rightarrow> bool) \<Rightarrow> 'r list \<Rightarrow> 'r option" where
  "findUnique P t = List.find P t"

definition updateRows :: "('r \<Rightarrow> bool) \<Rightarrow> ('r \<Rightarrow> 'r) \<Rightarrow> 'r list \<Rightarrow> 'r list" where
  "updateRows P f t = map (\<lambda>r. if P r then f r else r) t"

text \<open>
  \<open>updateMany({ where: P, data: f })\<close>: every row that satisfies the condition is rewritten by one
  atomic statement and the number of such rows is returned. \<open>ok\<close> says which rows the columns
  can hold; a row outside makes the database refuse the statement.
\<close>

definition updateMany ::
  "'e \<Rightarrow> ('r \<Rightarrow> bool) \<Rightarrow> ('r \<Rightarrow> bool) \<Rightarrow> ('r \<Rightarrow> 'r) \<Rightarrow> 'r list \<Rightarrow> 'e + (nat \<times> 'r list)" where
  "updateMany e ok P f t =
     (if list_ex (\<lambda>r. P r \<and> \<not> ok (f r)) t then Inl e
      else Inr (length (filter P t), updateRows P f t))"

text \<open>
  \<open>update({ where: P, data: f })\<close> returns the row after the update; without such a row
  the client throws (P2025).
\<close>

definition updateOne ::
  "'e \<Rightarrow> 'e \<Rightarrow> ('r \<Rightarrow> bool) \<Rightarrow> ('r \<Rightarrow> bool) \<Rightarrow> ('r \<Rightarrow> 'r) \<Rightarrow> 'r list \<Rightarrow> 'e + ('r \<times> 'r list)" where
  "updateOne missing e ok P f t =
     (case findUnique P t of
        None \<Rightarrow> Inl missing
      | Some r \<Rightarrow> if ok (f r) then Inr (f r, updateRows P f t) else Inl e)"

text \<open>\<open>create\<close> appends a row unless a unique index already holds one of its keys (P2002).\<close>

definition create :: "'e \<Rightarrow> ('r \<Rightarrow> 'r \<Rightarrow> bool) \<Rightarrow> 'r \<Rightarrow> 'r list \<Rightarrow> 'e + 'r list" where
  "create e conflict r t = (if list_ex (conflict r) t then Inl e else Inr (t @ [r]))"

lemma findUnique_SomeD: "findUnique P t = Some r \<Longrightarrow> r \<in> set t \<and> P r"
  by (auto simp: findUnique_def find_Some_iff)

lemma findUnique_in: "findUnique P t = Some r \<Longrightarrow> r \<in> set t"
  by (simp add: findUnique_SomeD)

lemma findUnique_None: "findUnique P t = None \<longleftrightarrow> (\<forall>r \<in> set t. \<not> P r)"
  by (auto simp: findUnique_def find_None_iff)

lemma findUnique_simps [simp]:
  "findUnique P [] = None"
  "findUnique P (r # t) = (if P r then Some r else findUnique P t)"
  by (simp_all add: findUnique_def)

lemma findUnique_append:
  "findUnique P (t @ u) = (case findUnique P t of None \<Rightarrow> findUnique P u | Some r \<Rightarrow> Some r)"
  by (induction t) auto

lemma findUnique_key_eq:
  assumes "distinct (map key t)" and "r \<in> set t" and "key r = k"
  shows "findUnique (\<lambda>r. key r = k) t = Some r"
  using assms
proof (induction t)
  case (Cons x t)
  then show ?case
    by (cases "x = r") (auto simp: image_iff)
qed simp

lemma distinct_key_unique:
  "distinct (map key t) \<Longrightarrow> r \<in> set t \<Longrightarrow> s \<in> set t \<Longrightarrow> key r = key s \<Longrightarrow> r = s"
  by (auto simp: distinct_map inj_on_def)

lemma updateRows_simps [simp]:
  "updateRows P f [] = []"
  "updateRows P f (r # t) = (if P r then f r else r) # updateRows P f t"
  by (simp_all add: updateRows_def)

lemma set_updateRows: "set (updateRows P f t) = (\<lambda>r. if P r then f r else r) ` set t"
  by (simp add: updateRows_def)

lemma in_updateRowsE:
  assumes "r' \<in> set (updateRows P f t)"
  obtains (changed) r where "r \<in> set t" "P r" "r' = f r"
    | (same) "r' \<in> set t" "\<not> P r'"
  using assms by (auto simp: set_updateRows split: if_splits)

lemma length_updateRows [simp]: "length (updateRows P f t) = length t"
  by (simp add: updateRows_def)

lemma map_updateRows_frame:
  "(\<And>r. P r \<Longrightarrow> g (f r) = g r) \<Longrightarrow> map g (updateRows P f t) = map g t"
  by (induction t) auto

lemma updateRows_cong_on:
  "(\<And>r. r \<in> set t \<Longrightarrow> P r \<longleftrightarrow> Q r) \<Longrightarrow> updateRows P f t = updateRows Q f t"
  by (induction t) auto

lemma updateRows_none: "filter P t = [] \<Longrightarrow> updateRows P f t = t"
  by (induction t) (auto split: if_splits)

lemma findUnique_updateRows:
  assumes "\<And>r. P r \<Longrightarrow> key (f r) = key r"
  shows "findUnique (\<lambda>r. key r = k) (updateRows P f t) =
    map_option (\<lambda>r. if P r then f r else r) (findUnique (\<lambda>r. key r = k) t)"
  using assms by (induction t) auto

lemma count_key_le_one:
  "distinct (map key t) \<Longrightarrow> length (filter (\<lambda>r. key r = k) t) \<le> 1"
proof (induction t)
  case (Cons x t)
  show ?case
  proof (cases "key x = k")
    case True
    with Cons.prems have "\<forall>r \<in> set t. key r \<noteq> k" by (auto simp: image_iff)
    then have "filter (\<lambda>r. key r = k) t = []" by (simp add: filter_empty_conv)
    with True show ?thesis by simp
  qed (use Cons in simp)
qed simp

lemma count_nonzero_iff: "length (filter P t) \<noteq> 0 \<longleftrightarrow> (\<exists>r \<in> set t. P r)"
  by (induction t) auto

text \<open>
  The accounting lemma: with unique keys, an update of the row with key \<open>k\<close> changes a sum over the
  table by the change of that row only.
\<close>

lemma sum_updateRows_key:
  fixes g :: "'r \<Rightarrow> int"
  assumes "distinct (map key t)" and "r \<in> set t" and "key r = k" and "Q r"
  shows "sum_list (map g (updateRows (\<lambda>r. key r = k \<and> Q r) f t)) =
    sum_list (map g t) + (g (f r) - g r)"
  using assms
proof (induction t)
  case (Cons x t)
  show ?case
  proof (cases "x = r")
    case True
    with Cons.prems have "\<forall>y \<in> set t. key y \<noteq> k" by (auto simp: image_iff)
    then have "updateRows (\<lambda>r. key r = k \<and> Q r) f t = t"
      by (induction t) auto
    with True Cons.prems show ?thesis by simp
  next
    case False
    with Cons.prems have "r \<in> set t" and "key x \<noteq> k" by auto
    with Cons show ?thesis by simp
  qed
qed simp

lemma sum_updateRows_key':
  fixes g :: "'r \<Rightarrow> int"
  assumes "distinct (map key t)" and "r \<in> set t" and "key r = k"
  shows "sum_list (map g (updateRows (\<lambda>r. key r = k) f t)) = sum_list (map g t) + (g (f r) - g r)"
  using sum_updateRows_key [OF assms, of "\<lambda>_. True" g f] by simp

lemma sum_list_member_le:
  fixes g :: "'r \<Rightarrow> int"
  assumes "\<And>r. r \<in> set t \<Longrightarrow> 0 \<le> g r" and "r \<in> set t"
  shows "g r \<le> sum_list (map g t)"
  using assms
proof (induction t)
  case (Cons x t)
  then have "0 \<le> sum_list (map g t)" by (auto intro!: sum_list_nonneg)
  moreover have "0 \<le> g x" using Cons.prems by simp
  moreover have "r = x \<or> g r \<le> sum_list (map g t)" using Cons by auto
  ultimately show ?case by auto
qed simp

lemma updateMany_Inr [simp]:
  "updateMany e ok P f t = Inr (n, t') \<longleftrightarrow>
     (\<forall>r \<in> set t. P r \<longrightarrow> ok (f r)) \<and> n = length (filter P t) \<and> t' = updateRows P f t"
  by (auto simp: updateMany_def list_ex_iff)

lemma updateOne_Inr [simp]:
  "updateOne m e ok P f t = Inr (r', t') \<longleftrightarrow>
     (\<exists>r. findUnique P t = Some r \<and> ok (f r) \<and> r' = f r \<and> t' = updateRows P f t)"
  by (auto simp: updateOne_def split: option.splits)

lemma create_Inr [simp]:
  "create e conflict r t = Inr t' \<longleftrightarrow> (\<forall>s \<in> set t. \<not> conflict r s) \<and> t' = t @ [r]"
  by (auto simp: create_def list_ex_iff)

subsection \<open>Unique keys\<close>

text \<open>
  The interface between a table and the services: a unique index over \<open>key\<close> promises that two
  rows with the same key conflict. Under that promise \<open>create\<close> keeps the keys distinct, and so
  does every update that leaves the key column alone.
\<close>

locale unique_index =
  fixes key :: "'r \<Rightarrow> 'k" and conflict :: "'r \<Rightarrow> 'r \<Rightarrow> bool"
  assumes index: "key r = key s \<Longrightarrow> conflict r s"
begin

lemma create_distinct:
  assumes "create e conflict r t = Inr t'" and "distinct (map key t)"
  shows "distinct (map key t')"
  using assms index by (auto simp: image_iff)

lemma create_fresh: "create e conflict r t = Inr t' \<Longrightarrow> key r \<notin> key ` set t"
  using index by (auto simp: image_iff)

lemma create_find:
  assumes "create e conflict r t = Inr t'"
  shows "findUnique (\<lambda>x. key x = key r) t' = Some r"
proof -
  from assms index have "findUnique (\<lambda>x. key x = key r) t = None"
    by (auto simp: findUnique_None)
  with assms show ?thesis by (auto simp: findUnique_append)
qed

lemma create_find_other:
  "create e conflict r t = Inr t' \<Longrightarrow> key r \<noteq> k \<Longrightarrow>
     findUnique (\<lambda>x. key x = k) t' = findUnique (\<lambda>x. key x = k) t"
  by (auto simp: findUnique_append split: option.split)

lemma update_distinct:
  "distinct (map key t) \<Longrightarrow> (\<And>r. P r \<Longrightarrow> key (f r) = key r) \<Longrightarrow>
     distinct (map key (updateRows P f t))"
  by (simp add: map_updateRows_frame)

end

end
