(* ===== verification/JsNum.thy ===== *)
theory JsNum
  imports KbPrelude Complex_Main
begin

text \<open>
  JavaScript numbers as the services use them, and the money helpers of common/helpers.ts.

  A finite number of the language is a double; every double is a rational, so \<open>Num x\<close> holds the
  exact value, and \<open>fl\<close> is the rounding to the nearest double (53 significant bits, ties to even)
  that \<open>*\<close>, \<open>/\<close> and \<open>Number(text)\<close> end with. The model is exact for results between
  \<open>2 ^ -1022\<close> and \<open>2 ^ 1024\<close>; amounts of money and fee rates are far inside. Whole numbers below
  \<open>2 ^ 53\<close> are themselves (\<open>fl_of_int\<close>), which is why sums and differences of amounts in fen are plain
  integer arithmetic in the other theories.

  The lemmas: \<open>fl\<close> is off by at most \<open>2 ^ -53\<close> of its argument; printing and reading decimal
  digits are inverse; and the conversions between yuan and fen round to the nearest fen and
  undo each other, for every amount the helper accepts.
\<close>

datatype jsnum = Num rat | NaN | PosInf | NegInf

subsection \<open>Doubles\<close>

definition ilog2 :: "rat \<Rightarrow> int" where
  "ilog2 x = (let (p, q) = quotient_of x; k = bitlen p - bitlen q
              in if 2 powi k \<le> x then k else k - 1)"

definition round_half_even :: "rat \<Rightarrow> int" where
  "round_half_even y =
     (let f = \<lfloor>y\<rfloor>; d = y - of_int f
      in if d < 1 / 2 then f else if 1 / 2 < d then f + 1 else if even f then f else f + 1)"

definition fl_pos :: "rat \<Rightarrow> rat" where
  "fl_pos x = (let e = ilog2 x - 52 in of_int (round_half_even (x * 2 powi (- e))) * 2 powi e)"

definition fl :: "rat \<Rightarrow> rat" where
  "fl x = (if x = 0 then 0 else if 0 < x then fl_pos x else - fl_pos (- x))"

definition js_mul :: "rat \<Rightarrow> rat \<Rightarrow> rat" where "js_mul a b = fl (a * b)"

definition js_div :: "rat \<Rightarrow> rat \<Rightarrow> rat" where "js_div a b = fl (a / b)"

text \<open>\<open>Math.round\<close> takes ties upwards.\<close>

definition js_round :: "rat \<Rightarrow> int" where "js_round x = \<lfloor>x + 1 / 2\<rfloor>"

lemma round_half_even_err: "\<bar>of_int (round_half_even y) - y\<bar> \<le> 1 / 2"
proof -
  have "of_int \<lfloor>y\<rfloor> \<le> y" and "y < of_int \<lfloor>y\<rfloor> + 1" by (simp_all add: floor_less_cancel)
  then show ?thesis by (simp add: round_half_even_def Let_def abs_if) linarith
qed

lemma round_half_even_of_int [simp]: "round_half_even (of_int n) = n"
  by (simp add: round_half_even_def)

lemma powi_two_pos [simp]: "(0::rat) < 2 powi k"
  by (simp add: zero_less_power_int)

lemma bitlen_lower: "0 < p \<Longrightarrow> (2::rat) powi (bitlen p - 1) \<le> of_int p"
proof -
  assume p: "0 < p"
  then have "1 \<le> bitlen p" by (simp add: bitlen_ge_iff_power)
  then have "(2::rat) powi (bitlen p - 1) = 2 ^ nat (bitlen p - 1)"
    by (simp add: power_int_def)
  also have "\<dots> = of_int (2 ^ nat (bitlen p - 1))" by simp
  also have "\<dots> \<le> of_int p" using bitlen_bounds [OF p] by (simp only: of_int_le_iff)
  finally show ?thesis .
qed

lemma bitlen_upper: "0 < p \<Longrightarrow> of_int p < (2::rat) powi (bitlen p)"
proof -
  assume p: "0 < p"
  then have "0 \<le> bitlen p" by (simp add: bitlen_nonneg)
  then have "(2::rat) powi (bitlen p) = 2 ^ nat (bitlen p)" by (simp add: power_int_def)
  also have "\<dots> = of_int (2 ^ nat (bitlen p))" by simp
  finally show ?thesis using bitlen_bounds [OF p] by (simp only: of_int_less_iff)
qed

text \<open>\<open>ilog2\<close> is the exponent of the leading bit.\<close>

lemma ilog2_bounds:
  assumes "0 < x"
  shows "2 powi ilog2 x \<le> x" and "x < 2 powi (ilog2 x + 1)"
proof -
  obtain p q where pq: "quotient_of x = (p, q)" by (cases "quotient_of x") auto
  then have q: "0 < q" by (rule quotient_of_denom_pos)
  have x: "x = of_int p / of_int q" using pq by (rule quotient_of_div)
  have p: "0 < p" using assms q by (simp add: x zero_less_divide_iff)
  let ?k = "bitlen p - bitlen q"
  have lo: "2 powi (?k - 1) \<le> x"
  proof -
    have "(2::rat) powi (?k - 1) = 2 powi (bitlen p - 1) / 2 powi (bitlen q)"
      by (simp add: power_int_diff)
    also have "\<dots> \<le> of_int p / of_int q"
      using bitlen_lower [OF p] bitlen_upper [OF q] q p by (intro frac_le) (auto intro: less_imp_le)
    finally show ?thesis by (simp add: x)
  qed
  have hi: "x < 2 powi (?k + 1)"
  proof -
    have "x < 2 powi (bitlen p) / 2 powi (bitlen q - 1)"
      using bitlen_lower [OF q] bitlen_upper [OF p] q p unfolding x
      by (intro frac_less) (auto intro: less_imp_le)
    also have "\<dots> = 2 powi (?k + 1)" by (simp add: power_int_diff power_int_add)
    finally show ?thesis .
  qed
  have split: "ilog2 x = (if 2 powi ?k \<le> x then ?k else ?k - 1)"
    by (simp add: ilog2_def pq)
  show "2 powi ilog2 x \<le> x" using lo by (simp add: split)
  show "x < 2 powi (ilog2 x + 1)" using hi by (simp add: split not_le)
qed

lemma fl_pos_err:
  assumes "0 < x"
  shows "\<bar>fl_pos x - x\<bar> \<le> x / 2 ^ 53"
proof -
  define e where "e = ilog2 x - 52"
  define y where "y = x * 2 powi (- e)"
  have ex: "y * 2 powi e = x" by (simp add: y_def power_int_minus)
  have "fl_pos x - x = (of_int (round_half_even y) - y) * 2 powi e"
    by (simp add: fl_pos_def Let_def flip: e_def y_def) (simp add: algebra_simps ex)
  then have "\<bar>fl_pos x - x\<bar> \<le> 1 / 2 * 2 powi e"
    using round_half_even_err [of y] by (simp add: abs_mult mult_right_mono)
  also have "(2::rat) powi e = 2 powi ilog2 x / 2 ^ 52"
    by (simp add: e_def power_int_diff)
  also have "1 / 2 * (2 powi ilog2 x / 2 ^ 52) \<le> x / 2 ^ 53"
    using ilog2_bounds(1) [OF assms] by (simp add: field_simps)
  finally show ?thesis .
qed

lemma fl_err: "\<bar>fl x - x\<bar> \<le> \<bar>x\<bar> / 2 ^ 53"
  using fl_pos_err [of x] fl_pos_err [of "- x"] by (auto simp: fl_def abs_if split: if_splits)

lemma fl_pos_of_int:
  assumes "0 < n" and "n < 2 ^ 53"
  shows "fl_pos (of_int n) = of_int n"
proof -
  define e where "e = ilog2 (of_int n) - 52"
  have "(2::rat) powi ilog2 (of_int n) \<le> of_int n" using assms by (intro ilog2_bounds) simp
  also have "of_int n < (2::rat) ^ 53"
    using assms(2) by (metis of_int_less_iff of_int_numeral of_int_power)
  finally have "(2::rat) powi ilog2 (of_int n) < 2 powi 53" by simp
  then have "ilog2 (of_int n) < 53"
    by (rule power_int_le_imp_less_exp [rotated]) simp_all
  then have e: "e \<le> 0" by (simp add: e_def)
  have "(of_int n :: rat) * 2 powi (- e) = of_int (n * 2 ^ nat (- e))"
    using e by (simp add: power_int_def)
  then have "round_half_even (of_int n * 2 powi (- e)) = n * 2 ^ nat (- e)"
    by (simp only: round_half_even_of_int)
  then have "fl_pos (of_int n) = of_int (n * 2 ^ nat (- e)) * 2 powi e"
    by (simp add: fl_pos_def Let_def flip: e_def)
  also have "\<dots> = of_int n * (2 powi (- e) * 2 powi e)" using e by (simp add: power_int_def)
  also have "\<dots> = of_int n" by (simp add: power_int_minus)
  finally show ?thesis .
qed

lemma fl_of_int: "\<bar>n\<bar> < 2 ^ 53 \<Longrightarrow> fl (of_int n) = of_int n"
  using fl_pos_of_int [of n] fl_pos_of_int [of "- n"] by (auto simp: fl_def)

lemma fl_nonneg: "0 \<le> x \<Longrightarrow> 0 \<le> fl x"
  using fl_err [of x] by (auto simp: abs_if field_simps split: if_splits)

lemma ilog2_unique:
  assumes "2 powi k \<le> x" and "x < 2 powi (k + 1)"
  shows "ilog2 x = k"
proof -
  have x: "0 < x" using assms(1) powi_two_pos [of k] by (rule less_le_trans [rotated])
  note b = ilog2_bounds [OF x]
  have "\<not> ilog2 x < k" "\<not> k < ilog2 x"
    using b assms power_int_increasing [of "ilog2 x + 1" k "2 :: rat"] power_int_increasing [of "k + 1" "ilog2 x" "2 :: rat"]
    by auto
  then show ?thesis by simp
qed

lemma fl_half: "fl (x / 2) = fl x / 2"
proof -
  have pos: "fl_pos (y / 2) = fl_pos y / 2" if "0 < y" for y
  proof -
    obtain e where e: "ilog2 y = e + 1" by (metis diff_add_cancel)
    have "ilog2 (y / 2) = e"
      using ilog2_bounds [OF that] by (intro ilog2_unique) (auto simp: e power_int_add)
    then show ?thesis
      by (simp add: fl_pos_def Let_def e power_int_diff power_int_minus power_int_add field_simps)
  qed
  show ?thesis using pos [of x] pos [of "- x"] by (simp add: fl_def)
qed

text \<open>
  A quotient of integers, rounded twice: to a double by the division and to an integer by
  \<open>Math.round\<close>. The first rounding never changes the outcome of the second.
\<close>

lemma js_round_quotient:
  assumes k: "0 \<le> k" "k < 2 ^ 52" and m: "0 < m"
  shows "js_round (fl (of_int k / of_int m)) = (2 * k + m) div (2 * m)"
proof -
  define q where "q = (2 * k + m) div (2 * m)"
  define x :: rat where "x = of_int k / of_int m"
  have kx: "of_int k = x * of_int m" using m by (simp add: x_def)
  have m0: "(0 :: rat) < of_int m" using m by simp
  have x0: "0 \<le> x" using k m by (simp add: x_def)
  have q: "2 * m * q \<le> 2 * k + m" "2 * k + m < 2 * m * (q + 1)"
    using m by (auto simp: q_def div_mult_mod_eq [of "2 * k + m" "2 * m", symmetric] minus_mod_eq_mult_div [symmetric] algebra_simps)
  have "of_int (2 * m * q) \<le> (of_int (2 * k + m) :: rat)" "of_int (2 * k + m + 1) \<le> (of_int (2 * m * (q + 1)) :: rat)"
    using q by (simp_all only: of_int_le_iff)
  then have "of_int m * (2 * of_int q) \<le> of_int m * (1 + 2 * x)" and hi: "x \<le> of_int q + 1 / 2 - 1 / (2 * of_int m)"
    using m0 by (simp_all add: kx field_simps)
  then have lo: "of_int q - 1 / 2 \<le> x" using m0 by simp
  have "of_int k < (2 ^ 52 :: rat)" using k(2) by (metis of_int_less_iff of_int_numeral of_int_power)
  then have "\<bar>x\<bar> / 2 ^ 53 < 1 / (2 * of_int m)" using x0 m0 by (simp add: kx field_simps)
  with fl_err [of x] have err: "\<bar>fl x - x\<bar> < 1 / (2 * of_int m)" by (rule le_less_trans)
  have "of_int q - 1 / 2 \<le> fl x"
  proof (cases "2 * k + m = 2 * m * q")
    case True
    then have "(of_int (2 * k + m) :: rat) = of_int (2 * m * q)" by simp
    then have "of_int m * (1 + 2 * x) = of_int m * (2 * of_int q)" by (simp add: kx algebra_simps)
    then have x: "x = of_int (2 * q - 1) / 2" using m0 by simp
    have "m * (2 * q - 1) = 2 * k" using True by (simp add: algebra_simps)
    with k m have p: "0 \<le> 2 * q - 1" by (metis mult_pos_neg not_less mult_nonneg_nonneg zero_le_numeral)
    then have "1 * (2 * q - 1) \<le> m * (2 * q - 1)" using m by (intro mult_right_mono) auto
    with \<open>m * (2 * q - 1) = 2 * k\<close> p have "0 \<le> 2 * q - 1 \<and> 2 * q - 1 \<le> 2 * k" by simp
    then have "fl x = x" using k unfolding x by (subst fl_half, subst fl_of_int) auto
    with lo show ?thesis by simp
  next
    case False
    with q(1) have "2 * m * q + 1 \<le> 2 * k + m" by simp
    then have "(of_int (2 * m * q + 1) :: rat) \<le> of_int (2 * k + m)" by (simp only: of_int_le_iff)
    then have "of_int q - 1 / 2 + 1 / (2 * of_int m) \<le> x" using m0 by (simp add: kx field_simps)
    with err show ?thesis by linarith
  qed
  moreover have "fl x < of_int q + 1 / 2" using hi err by linarith
  ultimately show ?thesis unfolding js_round_def x_def [symmetric] q_def [symmetric]
    by (intro floor_unique) simp_all
qed

subsection \<open>Decimal text\<close>

text \<open>\<open>String(n)\<close> for a natural number, and the digits read back by \<open>parseInt(_, 10)\<close>.\<close>

definition digit :: "nat \<Rightarrow> char" where "digit d = char_of (48 + d)"

definition digit_val :: "char \<Rightarrow> nat" where "digit_val c = of_char c - 48"

definition is_digit :: "char \<Rightarrow> bool" where
  "is_digit c = (48 \<le> (of_char c :: nat) \<and> (of_char c :: nat) \<le> 57)"

fun show_nat :: "nat \<Rightarrow> string" where
  "show_nat n = (if n < 10 then [digit n] else show_nat (n div 10) @ [digit (n mod 10)])"

declare show_nat.simps [simp del]

definition parse_digits :: "string \<Rightarrow> nat" where
  "parse_digits s = foldl (\<lambda>acc c. acc * 10 + digit_val c) 0 s"

lemma of_char_digit [simp]: "d < 10 \<Longrightarrow> of_char (digit d) = (48 + d :: nat)"
  by (simp add: digit_def)

lemma digit_val_digit [simp]: "d < 10 \<Longrightarrow> digit_val (digit d) = d"
  by (simp add: digit_val_def)

lemma is_digit_digit [simp]: "d < 10 \<Longrightarrow> is_digit (digit d)"
  by (simp add: is_digit_def)

lemma is_digit_not_dot: "is_digit c \<Longrightarrow> c \<noteq> CHR ''.''"
  by (auto simp: is_digit_def)

lemma parse_digits_snoc [simp]: "parse_digits (s @ [c]) = parse_digits s * 10 + digit_val c"
  by (simp add: parse_digits_def)

lemma parse_digits_single [simp]: "parse_digits [c] = digit_val c"
  by (simp add: parse_digits_def)

lemma show_nat_digits: "c \<in> set (show_nat n) \<Longrightarrow> is_digit c"
proof (induction n rule: show_nat.induct)
  case (1 n)
  then show ?case by (subst (asm) show_nat.simps) (auto split: if_splits)
qed

lemma parse_show_nat [simp]: "parse_digits (show_nat n) = n"
proof (induction n rule: show_nat.induct)
  case (1 n)
  then show ?case by (subst show_nat.simps) auto
qed

lemma show_nat_nonempty [simp]: "show_nat n \<noteq> []"
  by (subst show_nat.simps) simp

text \<open>
  \<open>x.toFixed(2)\<close>: the integer \<open>n\<close> for which \<open>n / 100\<close> is nearest to \<open>x\<close> (the larger one of two),
  printed with two decimals; a negative number is the minus sign and the text of its negation.
\<close>

definition hundredths :: "rat \<Rightarrow> nat" where "hundredths x = nat \<lfloor>x * 100 + 1 / 2\<rfloor>"

definition two_digits :: "nat \<Rightarrow> string" where
  "two_digits n = [digit (n div 10 mod 10), digit (n mod 10)]"

definition to_fixed2 :: "rat \<Rightarrow> string" where
  "to_fixed2 x =
     (let n = hundredths \<bar>x\<bar> in (if x < 0 then ''-'' else []) @ show_nat (n div 100) @ ''.'' @ two_digits n)"

definition split_dot :: "string \<Rightarrow> string \<times> string" where
  "split_dot s = (takeWhile (\<lambda>c. c \<noteq> CHR ''.'') s, tl (dropWhile (\<lambda>c. c \<noteq> CHR ''.'') s))"

lemma parse_two_digits [simp]: "parse_digits (two_digits n) = n mod 100"
proof -
  have "n mod 100 = 10 * (n div 10 mod 10) + n mod 10"
    using mod_mult2_eq [of n 10 10] by simp
  then show ?thesis by (simp add: two_digits_def parse_digits_def)
qed

lemma split_dot_digits: "(\<And>c. c \<in> set a \<Longrightarrow> is_digit c) \<Longrightarrow> split_dot (a @ ''.'' @ b) = (a, b)"
  by (auto simp: split_dot_def takeWhile_append dropWhile_append dest: is_digit_not_dot)

subsection \<open>Yuan and fen (common/helpers.ts)\<close>

text \<open>
  \<open>yuanToFen\<close> throws on a negative, non-finite or too large amount; otherwise it prints the amount
  with two decimals, splits the text at the point and reads both halves.
\<close>

datatype amount_error = AmountNegativeOrNotFinite | AmountTooLarge

definition yuanToFen :: "jsnum \<Rightarrow> amount_error + int" where
  "yuanToFen yuan =
     (case yuan of
        Num x \<Rightarrow>
          throw_if (x < 0) AmountNegativeOrNotFinite
          (throw_if (1000000000 < x) AmountTooLarge
          (case split_dot (to_fixed2 x) of
             (integer, decimal) \<Rightarrow> Inr (int (parse_digits integer * 100 + parse_digits decimal))))
      | NaN \<Rightarrow> Inl AmountNegativeOrNotFinite
      | PosInf \<Rightarrow> Inl AmountNegativeOrNotFinite
      | NegInf \<Rightarrow> Inl AmountNegativeOrNotFinite)"

definition fenToYuan :: "int \<Rightarrow> string" where
  "fenToYuan fen = to_fixed2 (js_div (of_int fen) 100)"

text \<open>
  \<open>Number(text)\<close> for decimal literals without exponent; other texts count as not a number
  (exponents, hexadecimal and blanks do not occur in the amounts and rates the code stores).
\<close>

definition js_unsigned :: "string \<Rightarrow> jsnum" where
  "js_unsigned s =
     (let (a, b) = split_dot s
      in if (a = [] \<and> b = []) \<or> \<not> list_all is_digit a \<or> \<not> list_all is_digit b then NaN
         else Num (fl (of_nat (parse_digits (a @ b)) / 10 ^ length b)))"

definition js_number :: "string \<Rightarrow> jsnum" where
  "js_number s =
     (if s = [] then Num 0
      else if hd s = CHR ''-'' then (case js_unsigned (tl s) of Num x \<Rightarrow> Num (- x) | y \<Rightarrow> y)
      else js_unsigned s)"

lemma yuanToFen_Num:
  assumes "0 \<le> x" and "x \<le> 1000000000"
  shows "yuanToFen (Num x) = Inr \<lfloor>x * 100 + 1 / 2\<rfloor>"
proof -
  let ?n = "hundredths x"
  have n: "int ?n = \<lfloor>x * 100 + 1 / 2\<rfloor>"
    using assms by (simp add: hundredths_def)
  have "split_dot (to_fixed2 x) = (show_nat (?n div 100), two_digits ?n)"
    using assms split_dot_digits [of "show_nat (?n div 100)" "two_digits ?n"] show_nat_digits
    by (simp add: to_fixed2_def Let_def)
  moreover have "?n div 100 * 100 + ?n mod 100 = ?n" by simp
  ultimately show ?thesis using assms n
    by (simp add: yuanToFen_def del: of_nat_add of_nat_mult)
qed

lemma yuanToFen_Inr:
  "yuanToFen a = Inr n \<longleftrightarrow>
     (\<exists>x. a = Num x \<and> 0 \<le> x \<and> x \<le> 1000000000 \<and> n = \<lfloor>x * 100 + 1 / 2\<rfloor>)"
proof (cases a)
  case (Num x)
  show ?thesis
  proof (cases "0 \<le> x \<and> x \<le> 1000000000")
    case True
    then show ?thesis by (auto simp: Num yuanToFen_Num)
  next
    case False
    then show ?thesis by (auto simp: Num yuanToFen_def throw_if_def)
  qed
qed (simp_all add: yuanToFen_def)

lemma yuanToFen_nonneg: "yuanToFen a = Inr n \<Longrightarrow> 0 \<le> n"
  by (auto simp: yuanToFen_Inr)

lemma yuanToFen_bound: "yuanToFen a = Inr n \<Longrightarrow> n \<le> 100000000000"
  by (auto simp: yuanToFen_Inr floor_le_iff)

text \<open>A fen amount divided by 100 in double arithmetic is still nearest to that many hundredths.\<close>

lemma hundredths_js_div:
  assumes "0 \<le> n" and "n \<le> 100000000000"
  shows "\<lfloor>fl (of_int n / 100) * 100 + 1 / 2\<rfloor> = n"
proof -
  let ?x = "of_int n / 100 :: rat"
  have n: "(of_int n :: rat) \<le> 100000000000"
    using assms(2) by (metis of_int_le_iff of_int_numeral)
  have "\<bar>fl ?x - ?x\<bar> \<le> \<bar>?x\<bar> / 2 ^ 53" by (rule fl_err)
  also have "\<dots> = ?x / 2 ^ 53" using assms(1) by simp
  also have "\<dots> < 1 / 400" using n by simp
  finally have "\<bar>fl ?x - ?x\<bar> < 1 / 400" .
  then have "of_int n - 1 / 4 < fl ?x * 100" and "fl ?x * 100 < of_int n + 1 / 4"
    by (simp_all add: abs_if field_simps split: if_splits)
  then have "of_int n \<le> fl ?x * 100 + 1 / 2" and "fl ?x * 100 + 1 / 2 < of_int n + 1"
    by linarith+
  then show ?thesis by (simp add: floor_unique)
qed

text \<open>The text the API shows for an amount is read back as the same amount.\<close>

lemma parse_digits_append: "parse_digits (a @ b) = parse_digits a * 10 ^ length b + parse_digits b"
proof (induction b rule: rev_induct)
  case (snoc c b)
  have "parse_digits (a @ b @ [c]) = parse_digits ((a @ b) @ [c])" by simp
  also have "\<dots> = parse_digits (a @ b) * 10 + digit_val c" by (rule parse_digits_snoc)
  finally show ?case by (simp add: snoc algebra_simps)
qed (simp add: parse_digits_def)

lemma two_digits_digits: "c \<in> set (two_digits n) \<Longrightarrow> is_digit c"
  by (auto simp: two_digits_def)

lemma hd_show_nat: "hd (show_nat n @ s) \<noteq> CHR ''-''"
proof -
  have "hd (show_nat n) \<in> set (show_nat n)" by simp
  then have "is_digit (hd (show_nat n))" by (rule show_nat_digits)
  then show ?thesis by (auto simp: is_digit_def)
qed

lemma fenToYuan_text:
  assumes "0 \<le> n" and "n \<le> 100000000000"
  shows "fenToYuan n = show_nat (nat n div 100) @ ''.'' @ two_digits (nat n)"
proof -
  have x: "0 \<le> fl (of_int n / 100 :: rat)" using assms(1) by (intro fl_nonneg) simp
  then have "hundredths \<bar>fl (of_int n / 100)\<bar> = nat n"
    using hundredths_js_div [OF assms] by (simp add: hundredths_def)
  then show ?thesis using x by (simp add: fenToYuan_def to_fixed2_def js_div_def Let_def)
qed

lemma js_number_fenToYuan:
  assumes "0 \<le> n" and "n \<le> 100000000000"
  shows "js_number (fenToYuan n) = Num (fl (of_int n / 100))"
proof -
  let ?a = "show_nat (nat n div 100)" and ?b = "two_digits (nat n)"
  have sd: "split_dot (?a @ ''.'' @ ?b) = (?a, ?b)" by (rule split_dot_digits) (rule show_nat_digits)
  have "parse_digits (?a @ ?b) = nat n div 100 * 100 + nat n mod 100"
    by (simp add: parse_digits_append) (simp add: two_digits_def)
  then have p: "parse_digits (?a @ ?b) = nat n" by (simp only: div_mult_mod_eq)
  have "list_all is_digit ?a" "list_all is_digit ?b"
    using show_nat_digits two_digits_digits by (auto simp: list_all_iff)
  moreover have "length ?b = 2" by (simp add: two_digits_def)
  moreover have "(of_nat (nat n) :: rat) = of_int n" using assms(1) by simp
  ultimately have "js_unsigned (?a @ ''.'' @ ?b) = Num (fl (of_int n / 100))"
    by (simp only: js_unsigned_def sd p Let_def case_prod_conv) simp
  then show ?thesis using hd_show_nat [of "nat n div 100" "''.'' @ ?b"]
    by (simp add: js_number_def fenToYuan_text [OF assms])
qed

lemma fl_hundredth_le:
  assumes "0 \<le> n" and "n \<le> 100000000000"
  shows "fl (of_int n / 100 :: rat) \<le> 1000000000"
proof (cases "n = 100000000000")
  case True
  then have "(of_int n / 100 :: rat) = of_int 1000000000" by simp
  moreover have "fl (of_int 1000000000 :: rat) = of_int 1000000000" by (rule fl_of_int) simp_all
  ultimately show ?thesis by simp
next
  case False
  let ?x = "of_int n / 100 :: rat"
  have "n \<le> 99999999999" using assms(2) False by simp
  then have "(of_int n :: rat) \<le> 99999999999" by (metis of_int_le_iff of_int_numeral)
  then have "?x \<le> 999999999 + 99 / 100" by simp
  moreover have "\<bar>fl ?x - ?x\<bar> \<le> ?x / 2 ^ 53" using fl_err [of ?x] assms(1) by simp
  ultimately show ?thesis by (simp add: abs_if split: if_splits)
qed

text \<open>
  C15. Round trip of money: the text the API shows for an amount of up to a thousand million yuan, read
  as a number and converted back, is the same number of fen, through every rounding to doubles.
\<close>

theorem yuan_fen_roundtrip:
  assumes "0 \<le> n" and "n \<le> 100000000000"
  shows "yuanToFen (js_number (fenToYuan n)) = Inr n"
  using fl_hundredth_le [OF assms] hundredths_js_div [OF assms] assms(1)
  by (simp add: js_number_fenToYuan [OF assms] yuanToFen_Num fl_nonneg)

theorem yuan_fen_roundtrip_witness: "yuanToFen (js_number (fenToYuan 1999)) = Inr 1999"
  by (rule yuan_fen_roundtrip) simp_all

end
