(* ===== verification/Schema.thy ===== *)
theory Schema
  imports JsNum
begin

text \<open>
  The data of the platform: the enumerations of common/enums.ts, the error values services throw,
  the rows of the tables the services read and write (prisma/schema.prisma), the database, and
  the world around a request (database, Redis, the caches and counters of the service objects).

  Status columns are text in the database and enumerations in the code; a row here holds the
  enumeration. Each enumeration keeps its TypeScript name and members, so a member is written with
  its type, e.g. \<open>EscrowStatus.PAID\<close>. Columns that no code reads back (avatars, display texts, the
  surrogate keys of append-only tables, \<open>updatedAt\<close>) are left out; the ledger type \<open>SETTLEMENT\<close> and direction \<open>IN\<close> are
  literals of the settlement service outside the enumerations; the remark of an order is kept as
  the template it was built from (\<open>Remark\<close>), because recovery looks orders up by it. Amounts
  are integers in fen. Integer columns are 32 bits wide (\<open>int32\<close>): the database refuses a
  statement that would store more.
\<close>

subsection \<open>Enumerations\<close>

datatype UserStatus =
    ACTIVE | EXPENSE_RESTRICTED | INCOME_RESTRICTED | FROZEN

datatype RiskLevel =
    LOW | MEDIUM | HIGH

datatype RealNameStatus =
    UNVERIFIED | PENDING | VERIFIED | REJECTED

datatype AccountStatus =
    ACTIVE | FROZEN

datatype LedgerType =
    RECHARGE | WITHDRAW | TRANSFER | PAYMENT | REFUND | RED_PACKET | FEE | ADJUSTMENT
  | ESCROW | ESCROW_RELEASE | ESCROW_REFUND | BATCH_TRANSFER | SUBSCRIPTION
  | REFERRAL_REWARD | SETTLEMENT

datatype Direction =
    DEBIT | CREDIT | IN

datatype TransactionType =
    RECHARGE | WITHDRAW | TRANSFER | PAYMENT | REFUND | RED_PACKET

datatype TransactionStatus =
    PENDING | PROCESSING | SUCCESS | FAILED | CANCELLED

datatype BillType =
    RECHARGE | WITHDRAW | TRANSFER | RECEIPT | PAYMENT | REFUND | RED_PACKET | ESCROW
  | ESCROW_INCOME | ESCROW_REFUND | SUBSCRIPTION | SUBSCRIPTION_INCOME | REFERRAL_REWARD
  | REFERRAL_INCOME

datatype BillDirection =
    INCOME | EXPENSE

datatype WithdrawalStatus =
    PENDING | PROCESSING | SUCCESS | FAILED | REJECTED

datatype RedPacketStatus =
    PENDING | PARTIALLY_RECEIVED | RECEIVED | EXPIRED

datatype RedPacketType =
    LUCKY | ORDINARY | EXCLUSIVE | PASSWORD

datatype RedPacketRecordType =
    RECEIVE | RETURN

datatype RiskEventType =
    LARGE_TRANSFER | LARGE_WITHDRAWAL | LARGE_PAYMENT | SUSPICIOUS_RED_PACKET
  | FREQUENT_TRANSACTION | FREQUENT_LOGIN | SUSPICIOUS_DEVICE | ACCOUNT_FROZEN
  | STATUS_CHANGED

datatype EscrowStatus =
    CREATED | PAID | SHIPPED | RECEIVED | REFUND_REQUESTED | REFUNDED | DISPUTE | CANCELLED
  | EXPIRED

datatype BatchTransferStatus =
    PENDING | PROCESSING | COMPLETED | CANCELLED

datatype BatchItemStatus =
    PENDING | SUCCESS | FAILED

datatype SplitStatus =
    PENDING | PROCESSING | COMPLETED | FAILED | CANCELLED

datatype SplitItemStatus =
    PENDING | SUCCESS | FAILED

datatype MerchantType =
    PERSONAL | ENTERPRISE

datatype MerchantStatus =
    PENDING | APPROVED | REJECTED | CLOSED

datatype AppStatus =
    ACTIVE | DISABLED

datatype QrCodeType =
    PERSONAL | FIXED_AMOUNT | MERCHANT

datatype QrCodeStatus =
    ACTIVE | DISABLED

datatype PaymentOrderStatus =
    PENDING | PAID | CLOSED | REFUNDED

datatype NotifyStatus =
    PENDING | SUCCESS | FAILED

datatype SubscriptionPeriod =
    DAILY | WEEKLY | MONTHLY | YEARLY

datatype SubscriptionStatus =
    ACTIVE | SUSPENDED | CANCELLED | EXPIRED

datatype SubscriptionChargeStatus =
    PENDING | SUCCESS | FAILED

datatype SubscriptionPlanStatus =
    ACTIVE | DISABLED

datatype CouponType =
    FIXED | PERCENT

datatype CouponStatus =
    ACTIVE | DISABLED

datatype UserCouponStatus =
    AVAILABLE | USED | EXPIRED

datatype ReferralStatus =
    PENDING | COMPLETED | CANCELLED

subsection \<open>Errors\<close>

text \<open>
  The business error codes that the modelled services throw, with the wire text of
  common/error-codes.ts. An exception is a NestJS HTTP exception around a code, a Prisma error
  (a unique index, a missing row, a value the column type refuses), a plain \<open>Error\<close>, or the
  \<open>TypeError\<close> of reading a property of a missing value.
\<close>

type_synonym KBErrorCodes = string

definition UNKNOWN_ERROR :: KBErrorCodes where "UNKNOWN_ERROR = ''KB001''"
definition DAILY_LIMIT_EXCEEDED :: KBErrorCodes where "DAILY_LIMIT_EXCEEDED = ''KB003''"
definition ACCOUNT_NOT_FOUND :: KBErrorCodes where "ACCOUNT_NOT_FOUND = ''KB004''"
definition INSUFFICIENT_BALANCE :: KBErrorCodes where "INSUFFICIENT_BALANCE = ''KB005''"
definition REJECT_REASON_REQUIRED :: KBErrorCodes where "REJECT_REASON_REQUIRED = ''KB008''"
definition USER_NOT_FOUND :: KBErrorCodes where "USER_NOT_FOUND = ''KB201''"
definition ALREADY_VERIFIED :: KBErrorCodes where "ALREADY_VERIFIED = ''KB202''"
definition VERIFICATION_PENDING :: KBErrorCodes where "VERIFICATION_PENDING = ''KB203''"
definition PAY_PASSWORD_LOCKED :: KBErrorCodes where "PAY_PASSWORD_LOCKED = ''KB205''"
definition PAY_PASSWORD_NOT_SET :: KBErrorCodes where "PAY_PASSWORD_NOT_SET = ''KB206''"
definition PAY_PASSWORD_LOCKED_OUT :: KBErrorCodes where "PAY_PASSWORD_LOCKED_OUT = ''KB207''"
definition PAY_PASSWORD_INCORRECT :: KBErrorCodes where "PAY_PASSWORD_INCORRECT = ''KB208''"
definition IDENTITY_NOT_FOUND :: KBErrorCodes where "IDENTITY_NOT_FOUND = ''KB209''"
definition IDENTITY_MISMATCH :: KBErrorCodes where "IDENTITY_MISMATCH = ''KB210''"
definition REAL_NAME_REQUIRED :: KBErrorCodes where "REAL_NAME_REQUIRED = ''KB212''"
definition PAYEE_NOT_FOUND :: KBErrorCodes where "PAYEE_NOT_FOUND = ''KB213''"
definition PAYEE_NOT_VERIFIED :: KBErrorCodes where "PAYEE_NOT_VERIFIED = ''KB214''"
definition IDENTITY_IDCARD_USED :: KBErrorCodes where "IDENTITY_IDCARD_USED = ''KB216''"
definition MERCHANT_ALREADY_APPLIED :: KBErrorCodes where "MERCHANT_ALREADY_APPLIED = ''KB301''"
definition MERCHANT_INFO_NOT_FOUND :: KBErrorCodes where "MERCHANT_INFO_NOT_FOUND = ''KB302''"
definition MERCHANT_NOT_MODIFIABLE :: KBErrorCodes where "MERCHANT_NOT_MODIFIABLE = ''KB303''"
definition MERCHANT_NOT_FOUND :: KBErrorCodes where "MERCHANT_NOT_FOUND = ''KB304''"
definition MERCHANT_AUDIT_PENDING_ONLY :: KBErrorCodes where "MERCHANT_AUDIT_PENDING_ONLY = ''KB305''"
definition MERCHANT_PAY_RATE_INVALID :: KBErrorCodes where "MERCHANT_PAY_RATE_INVALID = ''KB306''"
definition MERCHANT_WITHDRAW_RATE_INVALID :: KBErrorCodes where "MERCHANT_WITHDRAW_RATE_INVALID = ''KB307''"
definition MERCHANT_DAILY_LIMIT_INVALID :: KBErrorCodes where "MERCHANT_DAILY_LIMIT_INVALID = ''KB308''"
definition MERCHANT_CONFIG_NO_CHANGE :: KBErrorCodes where "MERCHANT_CONFIG_NO_CHANGE = ''KB309''"
definition MERCHANT_NOT_APPROVED :: KBErrorCodes where "MERCHANT_NOT_APPROVED = ''KB310''"
definition MERCHANT_APP_NOT_FOUND :: KBErrorCodes where "MERCHANT_APP_NOT_FOUND = ''KB311''"
definition QR_CODE_NOT_FOUND :: KBErrorCodes where "QR_CODE_NOT_FOUND = ''KB312''"
definition INVALID_PARAMETER :: KBErrorCodes where "INVALID_PARAMETER = ''KB400''"
definition FORBIDDEN :: KBErrorCodes where "FORBIDDEN = ''KB403''"
definition RESOURCE_NOT_FOUND :: KBErrorCodes where "RESOURCE_NOT_FOUND = ''KB404''"
definition TRANSFER_AMOUNT_INVALID :: KBErrorCodes where "TRANSFER_AMOUNT_INVALID = ''KB501''"
definition TRANSFER_TO_SELF :: KBErrorCodes where "TRANSFER_TO_SELF = ''KB502''"
definition RECHARGE_AMOUNT_INVALID :: KBErrorCodes where "RECHARGE_AMOUNT_INVALID = ''KB503''"
definition NO_RECHARGE_CHANNEL :: KBErrorCodes where "NO_RECHARGE_CHANNEL = ''KB504''"
definition RECHARGE_CHANNEL_FAILED :: KBErrorCodes where "RECHARGE_CHANNEL_FAILED = ''KB505''"
definition WITHDRAWAL_AMOUNT_INVALID :: KBErrorCodes where "WITHDRAWAL_AMOUNT_INVALID = ''KB506''"
definition WITHDRAWAL_ORDER_NOT_FOUND :: KBErrorCodes where "WITHDRAWAL_ORDER_NOT_FOUND = ''KB507''"
definition WITHDRAWAL_ORDER_STATUS_INVALID :: KBErrorCodes where "WITHDRAWAL_ORDER_STATUS_INVALID = ''KB508''"
definition NO_PAYOUT_CHANNEL :: KBErrorCodes where "NO_PAYOUT_CHANNEL = ''KB509''"
definition ORDER_ALREADY_HANDLED :: KBErrorCodes where "ORDER_ALREADY_HANDLED = ''KB510''"
definition FROZEN_BALANCE_INSUFFICIENT :: KBErrorCodes where "FROZEN_BALANCE_INSUFFICIENT = ''KB511''"
definition PAYOUT_CHANNEL_FAILED :: KBErrorCodes where "PAYOUT_CHANNEL_FAILED = ''KB512''"
definition CALLBACK_STATUS_INVALID :: KBErrorCodes where "CALLBACK_STATUS_INVALID = ''KB513''"
definition MERCHANT_ORDER_NO_EXISTS :: KBErrorCodes where "MERCHANT_ORDER_NO_EXISTS = ''KB601''"
definition EXPIRED_TIME_INVALID :: KBErrorCodes where "EXPIRED_TIME_INVALID = ''KB602''"
definition ORDER_NOT_FOUND :: KBErrorCodes where "ORDER_NOT_FOUND = ''KB603''"
definition MERCHANT_CANNOT_RECEIVE :: KBErrorCodes where "MERCHANT_CANNOT_RECEIVE = ''KB604''"
definition MERCHANT_USER_NOT_FOUND :: KBErrorCodes where "MERCHANT_USER_NOT_FOUND = ''KB605''"
definition ORDER_STATUS_CHANGED :: KBErrorCodes where "ORDER_STATUS_CHANGED = ''KB606''"
definition CALLBACK_URL_NOT_SET :: KBErrorCodes where "CALLBACK_URL_NOT_SET = ''KB607''"
definition CALLBACK_ALREADY_SUCCESS :: KBErrorCodes where "CALLBACK_ALREADY_SUCCESS = ''KB608''"
definition QR_CODE_NOT_MERCHANT :: KBErrorCodes where "QR_CODE_NOT_MERCHANT = ''KB609''"
definition QR_CODE_INVALID :: KBErrorCodes where "QR_CODE_INVALID = ''KB610''"
definition QR_CODE_PAY_SELF :: KBErrorCodes where "QR_CODE_PAY_SELF = ''KB611''"
definition MERCHANT_STATUS_ABNORMAL :: KBErrorCodes where "MERCHANT_STATUS_ABNORMAL = ''KB612''"
definition RED_PACKET_AMOUNT_INVALID :: KBErrorCodes where "RED_PACKET_AMOUNT_INVALID = ''KB613''"
definition RED_PACKET_NOT_FOUND :: KBErrorCodes where "RED_PACKET_NOT_FOUND = ''KB614''"
definition RED_PACKET_CLAIMED_OR_EXPIRED :: KBErrorCodes where "RED_PACKET_CLAIMED_OR_EXPIRED = ''KB615''"
definition RED_PACKET_CLAIM_SELF :: KBErrorCodes where "RED_PACKET_CLAIM_SELF = ''KB616''"
definition RED_PACKET_EXPIRED :: KBErrorCodes where "RED_PACKET_EXPIRED = ''KB617''"
definition RED_PACKET_STATUS_CHANGED :: KBErrorCodes where "RED_PACKET_STATUS_CHANGED = ''KB618''"
definition QR_CODE_EXPIRED :: KBErrorCodes where "QR_CODE_EXPIRED = ''KB619''"
definition QR_CODE_USE_CASHIER :: KBErrorCodes where "QR_CODE_USE_CASHIER = ''KB620''"
definition IDEMPOTENCY_KEY_CONFLICT :: KBErrorCodes where "IDEMPOTENCY_KEY_CONFLICT = ''KB621''"
definition RED_PACKET_TYPE_INVALID :: KBErrorCodes where "RED_PACKET_TYPE_INVALID = ''KB622''"
definition RED_PACKET_COUNT_INVALID :: KBErrorCodes where "RED_PACKET_COUNT_INVALID = ''KB623''"
definition RED_PACKET_PER_AMOUNT_INVALID :: KBErrorCodes where "RED_PACKET_PER_AMOUNT_INVALID = ''KB624''"
definition RED_PACKET_DESIGNATED_MISMATCH :: KBErrorCodes where "RED_PACKET_DESIGNATED_MISMATCH = ''KB625''"
definition RED_PACKET_PASSWORD_REQUIRED :: KBErrorCodes where "RED_PACKET_PASSWORD_REQUIRED = ''KB626''"
definition RED_PACKET_PASSWORD_INCORRECT :: KBErrorCodes where "RED_PACKET_PASSWORD_INCORRECT = ''KB627''"
definition CALLBACK_CHANNEL_MISMATCH :: KBErrorCodes where "CALLBACK_CHANNEL_MISMATCH = ''KB701''"
definition CALLBACK_CHANNEL_ORDER_NO_MISMATCH :: KBErrorCodes where "CALLBACK_CHANNEL_ORDER_NO_MISMATCH = ''KB702''"
definition CALLBACK_URL_PROTOCOL_INVALID :: KBErrorCodes where "CALLBACK_URL_PROTOCOL_INVALID = ''KB703''"
definition CALLBACK_URL_INTERNAL :: KBErrorCodes where "CALLBACK_URL_INTERNAL = ''KB704''"
definition CALLBACK_URL_FORMAT_INVALID :: KBErrorCodes where "CALLBACK_URL_FORMAT_INVALID = ''KB705''"
definition ORDER_AMOUNT_INVALID :: KBErrorCodes where "ORDER_AMOUNT_INVALID = ''KB711''"
definition ORDER_EXPIRED_TIME_TOO_LATE :: KBErrorCodes where "ORDER_EXPIRED_TIME_TOO_LATE = ''KB712''"
definition ORDER_NOT_REFUNDABLE :: KBErrorCodes where "ORDER_NOT_REFUNDABLE = ''KB713''"
definition ORDER_FULLY_REFUNDED :: KBErrorCodes where "ORDER_FULLY_REFUNDED = ''KB714''"
definition REFUND_AMOUNT_INVALID :: KBErrorCodes where "REFUND_AMOUNT_INVALID = ''KB715''"
definition REFUND_AMOUNT_EXCEEDED :: KBErrorCodes where "REFUND_AMOUNT_EXCEEDED = ''KB716''"
definition ESCROW_ORDER_NOT_FOUND :: KBErrorCodes where "ESCROW_ORDER_NOT_FOUND = ''KB630''"
definition ESCROW_STATUS_INVALID :: KBErrorCodes where "ESCROW_STATUS_INVALID = ''KB631''"
definition ESCROW_BUYER_ONLY :: KBErrorCodes where "ESCROW_BUYER_ONLY = ''KB632''"
definition ESCROW_SELLER_ONLY :: KBErrorCodes where "ESCROW_SELLER_ONLY = ''KB633''"
definition ESCROW_CANNOT_SELF :: KBErrorCodes where "ESCROW_CANNOT_SELF = ''KB634''"
definition ESCROW_ALREADY_HANDLED :: KBErrorCodes where "ESCROW_ALREADY_HANDLED = ''KB636''"
definition ESCROW_EXPIRED :: KBErrorCodes where "ESCROW_EXPIRED = ''KB637''"
definition ESCROW_STATUS_CHANGED :: KBErrorCodes where "ESCROW_STATUS_CHANGED = ''KB638''"
definition BATCH_TRANSFER_NOT_FOUND :: KBErrorCodes where "BATCH_TRANSFER_NOT_FOUND = ''KB640''"
definition BATCH_TRANSFER_EMPTY :: KBErrorCodes where "BATCH_TRANSFER_EMPTY = ''KB641''"
definition BATCH_TRANSFER_TOO_MANY :: KBErrorCodes where "BATCH_TRANSFER_TOO_MANY = ''KB642''"
definition BATCH_TRANSFER_ITEM_DUPLICATED :: KBErrorCodes where "BATCH_TRANSFER_ITEM_DUPLICATED = ''KB643''"
definition BATCH_TRANSFER_ITEM_INVALID :: KBErrorCodes where "BATCH_TRANSFER_ITEM_INVALID = ''KB644''"
definition BATCH_TRANSFER_NOT_CANCELLABLE :: KBErrorCodes where "BATCH_TRANSFER_NOT_CANCELLABLE = ''KB645''"
definition SUBSCRIPTION_PLAN_NOT_FOUND :: KBErrorCodes where "SUBSCRIPTION_PLAN_NOT_FOUND = ''KB650''"
definition SUBSCRIPTION_PLAN_DISABLED :: KBErrorCodes where "SUBSCRIPTION_PLAN_DISABLED = ''KB651''"
definition SUBSCRIPTION_NOT_FOUND :: KBErrorCodes where "SUBSCRIPTION_NOT_FOUND = ''KB652''"
definition SUBSCRIPTION_STATUS_INVALID :: KBErrorCodes where "SUBSCRIPTION_STATUS_INVALID = ''KB653''"
definition SUBSCRIPTION_ALREADY_EXISTS :: KBErrorCodes where "SUBSCRIPTION_ALREADY_EXISTS = ''KB654''"
definition SUBSCRIPTION_CANNOT_SELF_SUBSCRIBE :: KBErrorCodes where "SUBSCRIPTION_CANNOT_SELF_SUBSCRIBE = ''KB656''"
definition SUBSCRIPTION_AMOUNT_INVALID :: KBErrorCodes where "SUBSCRIPTION_AMOUNT_INVALID = ''KB658''"
definition SPLIT_ORDER_NOT_FOUND :: KBErrorCodes where "SPLIT_ORDER_NOT_FOUND = ''KB660''"
definition SPLIT_SOURCE_ORDER_NOT_FOUND :: KBErrorCodes where "SPLIT_SOURCE_ORDER_NOT_FOUND = ''KB661''"
definition SPLIT_AMOUNT_EXCEED_SOURCE :: KBErrorCodes where "SPLIT_AMOUNT_EXCEED_SOURCE = ''KB662''"
definition SPLIT_RECEIVER_DUPLICATED :: KBErrorCodes where "SPLIT_RECEIVER_DUPLICATED = ''KB663''"
definition SPLIT_STATUS_INVALID :: KBErrorCodes where "SPLIT_STATUS_INVALID = ''KB665''"
definition SPLIT_AMOUNT_INVALID :: KBErrorCodes where "SPLIT_AMOUNT_INVALID = ''KB667''"
definition SPLIT_RECEIVER_EMPTY :: KBErrorCodes where "SPLIT_RECEIVER_EMPTY = ''KB668''"
definition COUPON_NOT_FOUND :: KBErrorCodes where "COUPON_NOT_FOUND = ''KB670''"
definition COUPON_DISABLED :: KBErrorCodes where "COUPON_DISABLED = ''KB671''"
definition COUPON_EXPIRED :: KBErrorCodes where "COUPON_EXPIRED = ''KB672''"
definition COUPON_QUOTA_EXHAUSTED :: KBErrorCodes where "COUPON_QUOTA_EXHAUSTED = ''KB673''"
definition COUPON_ALREADY_CLAIMED :: KBErrorCodes where "COUPON_ALREADY_CLAIMED = ''KB674''"
definition COUPON_VALUE_INVALID :: KBErrorCodes where "COUPON_VALUE_INVALID = ''KB675''"
definition COUPON_STATUS_INVALID :: KBErrorCodes where "COUPON_STATUS_INVALID = ''KB676''"
definition USER_COUPON_NOT_FOUND :: KBErrorCodes where "USER_COUPON_NOT_FOUND = ''KB677''"
definition USER_COUPON_USED :: KBErrorCodes where "USER_COUPON_USED = ''KB678''"
definition REFERRAL_CODE_NOT_FOUND :: KBErrorCodes where "REFERRAL_CODE_NOT_FOUND = ''KB680''"
definition REFERRAL_NOT_FOUND :: KBErrorCodes where "REFERRAL_NOT_FOUND = ''KB682''"
definition REFERRAL_ALREADY_BOUND :: KBErrorCodes where "REFERRAL_ALREADY_BOUND = ''KB683''"
definition REFERRAL_CANNOT_SELF :: KBErrorCodes where "REFERRAL_CANNOT_SELF = ''KB684''"
definition REFERRAL_STATUS_INVALID :: KBErrorCodes where "REFERRAL_STATUS_INVALID = ''KB685''"
definition REFERRAL_TRIGGER_INVALID :: KBErrorCodes where "REFERRAL_TRIGGER_INVALID = ''KB687''"
definition REFERRAL_NOT_PENDING :: KBErrorCodes where "REFERRAL_NOT_PENDING = ''KB688''"
definition JOURNAL_UNBALANCED :: KBErrorCodes where "JOURNAL_UNBALANCED = ''KB902''"
definition IDENTITY_RECORD_NOT_FOUND :: KBErrorCodes where "IDENTITY_RECORD_NOT_FOUND = ''KB002''"
definition ADJUSTMENT_AMOUNT_INVALID :: KBErrorCodes where "ADJUSTMENT_AMOUNT_INVALID = ''KB006''"
definition ADJUSTMENT_REASON_REQUIRED :: KBErrorCodes where "ADJUSTMENT_REASON_REQUIRED = ''KB007''"
definition MISSING_PHONE_OR_EMAIL :: KBErrorCodes where "MISSING_PHONE_OR_EMAIL = ''KB101''"
definition INVALID_CREDENTIALS :: KBErrorCodes where "INVALID_CREDENTIALS = ''KB102''"
definition AUTH_FAILED :: KBErrorCodes where "AUTH_FAILED = ''KB103''"
definition ACCOUNT_FROZEN :: KBErrorCodes where "ACCOUNT_FROZEN = ''KB104''"
definition IDENTITY_NOT_PENDING :: KBErrorCodes where "IDENTITY_NOT_PENDING = ''KB215''"
definition BANKCARD_NOT_FOUND :: KBErrorCodes where "BANKCARD_NOT_FOUND = ''KB217''"
definition BANKCARD_ALREADY_BOUND :: KBErrorCodes where "BANKCARD_ALREADY_BOUND = ''KB218''"
definition BANKCARD_LIMIT_EXCEEDED :: KBErrorCodes where "BANKCARD_LIMIT_EXCEEDED = ''KB219''"
definition LOGIN_PASSWORD_INCORRECT :: KBErrorCodes where "LOGIN_PASSWORD_INCORRECT = ''KB221''"
definition PHONE_ALREADY_BOUND :: KBErrorCodes where "PHONE_ALREADY_BOUND = ''KB222''"
definition EMAIL_ALREADY_BOUND :: KBErrorCodes where "EMAIL_ALREADY_BOUND = ''KB223''"
definition SMS_CODE_INVALID :: KBErrorCodes where "SMS_CODE_INVALID = ''KB224''"
definition MERCHANT_APP_NAME_REQUIRED :: KBErrorCodes where "MERCHANT_APP_NAME_REQUIRED = ''KB225''"
definition AUTHENTICATION_FAILED :: KBErrorCodes where "AUTHENTICATION_FAILED = ''KB401''"
definition MERCHANT_APP_DISABLED :: KBErrorCodes where "MERCHANT_APP_DISABLED = ''KB717''"
definition MESSAGE_NOT_FOUND :: KBErrorCodes where "MESSAGE_NOT_FOUND = ''KB690''"
definition MESSAGE_CANNOT_DELETE :: KBErrorCodes where "MESSAGE_CANNOT_DELETE = ''KB692''"
definition INVOICE_NOT_FOUND :: KBErrorCodes where "INVOICE_NOT_FOUND = ''KB695''"
definition INVOICE_STATUS_INVALID :: KBErrorCodes where "INVOICE_STATUS_INVALID = ''KB696''"
definition INVOICE_AMOUNT_INVALID :: KBErrorCodes where "INVOICE_AMOUNT_INVALID = ''KB697''"
definition INVOICE_MERCHANT_MISMATCH :: KBErrorCodes where "INVOICE_MERCHANT_MISMATCH = ''KB698''"
definition CUSTOM_RULE_NOT_FOUND :: KBErrorCodes where "CUSTOM_RULE_NOT_FOUND = ''KB930''"
definition CUSTOM_RULE_DUPLICATED :: KBErrorCodes where "CUSTOM_RULE_DUPLICATED = ''KB931''"
definition CUSTOM_RULE_CONDITIONS_INVALID :: KBErrorCodes where "CUSTOM_RULE_CONDITIONS_INVALID = ''KB932''"
definition CUSTOM_RULE_FIELD_INVALID :: KBErrorCodes where "CUSTOM_RULE_FIELD_INVALID = ''KB933''"
definition CUSTOM_RULE_OPERATOR_INVALID :: KBErrorCodes where "CUSTOM_RULE_OPERATOR_INVALID = ''KB934''"
definition CHANNEL_STATEMENT_NOT_FOUND :: KBErrorCodes where "CHANNEL_STATEMENT_NOT_FOUND = ''KB940''"
definition CHANNEL_STATEMENT_ALREADY_FETCHED :: KBErrorCodes where "CHANNEL_STATEMENT_ALREADY_FETCHED = ''KB941''"
definition CHANNEL_STATEMENT_FETCH_FAILED :: KBErrorCodes where "CHANNEL_STATEMENT_FETCH_FAILED = ''KB942''"
definition CHANNEL_STATEMENT_NOT_FETCHED :: KBErrorCodes where "CHANNEL_STATEMENT_NOT_FETCHED = ''KB943''"
definition RECONCILIATION_DIFF_NOT_FOUND :: KBErrorCodes where "RECONCILIATION_DIFF_NOT_FOUND = ''KB944''"
definition RECONCILIATION_DIFF_STATUS_INVALID :: KBErrorCodes where "RECONCILIATION_DIFF_STATUS_INVALID = ''KB945''"
definition RISK_EVENT_NOT_FOUND :: KBErrorCodes where "RISK_EVENT_NOT_FOUND = ''KB901''"
definition ADMIN_USER_NOT_FOUND :: KBErrorCodes where "ADMIN_USER_NOT_FOUND = ''KB910''"
definition ADMIN_USERNAME_EXISTS :: KBErrorCodes where "ADMIN_USERNAME_EXISTS = ''KB911''"
definition ADMIN_CANNOT_DELETE_SELF :: KBErrorCodes where "ADMIN_CANNOT_DELETE_SELF = ''KB912''"
definition ADMIN_OLD_PASSWORD_INCORRECT :: KBErrorCodes where "ADMIN_OLD_PASSWORD_INCORRECT = ''KB913''"
definition ADMIN_CONFIG_KEY_EXISTS :: KBErrorCodes where "ADMIN_CONFIG_KEY_EXISTS = ''KB914''"
definition ADMIN_CONFIG_KEY_NOT_FOUND :: KBErrorCodes where "ADMIN_CONFIG_KEY_NOT_FOUND = ''KB915''"
definition ADMIN_INSUFFICIENT_PERMISSIONS :: KBErrorCodes where "ADMIN_INSUFFICIENT_PERMISSIONS = ''KB916''"

text \<open>The texts behind the codes, for where two codes are compared.\<close>

lemmas kb_codes =
  UNKNOWN_ERROR_def DAILY_LIMIT_EXCEEDED_def ACCOUNT_NOT_FOUND_def INSUFFICIENT_BALANCE_def
  REJECT_REASON_REQUIRED_def USER_NOT_FOUND_def ALREADY_VERIFIED_def VERIFICATION_PENDING_def
  PAY_PASSWORD_LOCKED_def PAY_PASSWORD_NOT_SET_def PAY_PASSWORD_LOCKED_OUT_def
  PAY_PASSWORD_INCORRECT_def IDENTITY_NOT_FOUND_def IDENTITY_MISMATCH_def REAL_NAME_REQUIRED_def
  PAYEE_NOT_FOUND_def PAYEE_NOT_VERIFIED_def IDENTITY_IDCARD_USED_def
  MERCHANT_ALREADY_APPLIED_def MERCHANT_INFO_NOT_FOUND_def MERCHANT_NOT_MODIFIABLE_def
  MERCHANT_NOT_FOUND_def MERCHANT_AUDIT_PENDING_ONLY_def MERCHANT_PAY_RATE_INVALID_def
  MERCHANT_WITHDRAW_RATE_INVALID_def MERCHANT_DAILY_LIMIT_INVALID_def
  MERCHANT_CONFIG_NO_CHANGE_def MERCHANT_NOT_APPROVED_def MERCHANT_APP_NOT_FOUND_def
  QR_CODE_NOT_FOUND_def INVALID_PARAMETER_def FORBIDDEN_def RESOURCE_NOT_FOUND_def
  TRANSFER_AMOUNT_INVALID_def TRANSFER_TO_SELF_def RECHARGE_AMOUNT_INVALID_def
  NO_RECHARGE_CHANNEL_def RECHARGE_CHANNEL_FAILED_def WITHDRAWAL_AMOUNT_INVALID_def
  WITHDRAWAL_ORDER_NOT_FOUND_def WITHDRAWAL_ORDER_STATUS_INVALID_def NO_PAYOUT_CHANNEL_def
  ORDER_ALREADY_HANDLED_def FROZEN_BALANCE_INSUFFICIENT_def PAYOUT_CHANNEL_FAILED_def
  CALLBACK_STATUS_INVALID_def MERCHANT_ORDER_NO_EXISTS_def EXPIRED_TIME_INVALID_def
  ORDER_NOT_FOUND_def MERCHANT_CANNOT_RECEIVE_def MERCHANT_USER_NOT_FOUND_def
  ORDER_STATUS_CHANGED_def CALLBACK_URL_NOT_SET_def CALLBACK_ALREADY_SUCCESS_def
  QR_CODE_NOT_MERCHANT_def QR_CODE_INVALID_def QR_CODE_PAY_SELF_def MERCHANT_STATUS_ABNORMAL_def
  RED_PACKET_AMOUNT_INVALID_def RED_PACKET_NOT_FOUND_def RED_PACKET_CLAIMED_OR_EXPIRED_def
  RED_PACKET_CLAIM_SELF_def RED_PACKET_EXPIRED_def RED_PACKET_STATUS_CHANGED_def
  QR_CODE_EXPIRED_def QR_CODE_USE_CASHIER_def IDEMPOTENCY_KEY_CONFLICT_def
  RED_PACKET_TYPE_INVALID_def RED_PACKET_COUNT_INVALID_def RED_PACKET_PER_AMOUNT_INVALID_def
  RED_PACKET_DESIGNATED_MISMATCH_def RED_PACKET_PASSWORD_REQUIRED_def
  RED_PACKET_PASSWORD_INCORRECT_def CALLBACK_CHANNEL_MISMATCH_def
  CALLBACK_CHANNEL_ORDER_NO_MISMATCH_def CALLBACK_URL_PROTOCOL_INVALID_def
  CALLBACK_URL_INTERNAL_def CALLBACK_URL_FORMAT_INVALID_def ORDER_AMOUNT_INVALID_def
  ORDER_EXPIRED_TIME_TOO_LATE_def ORDER_NOT_REFUNDABLE_def ORDER_FULLY_REFUNDED_def
  REFUND_AMOUNT_INVALID_def REFUND_AMOUNT_EXCEEDED_def ESCROW_ORDER_NOT_FOUND_def
  ESCROW_STATUS_INVALID_def ESCROW_BUYER_ONLY_def ESCROW_SELLER_ONLY_def ESCROW_CANNOT_SELF_def
  ESCROW_ALREADY_HANDLED_def ESCROW_EXPIRED_def ESCROW_STATUS_CHANGED_def
  BATCH_TRANSFER_NOT_FOUND_def BATCH_TRANSFER_EMPTY_def BATCH_TRANSFER_TOO_MANY_def
  BATCH_TRANSFER_ITEM_DUPLICATED_def BATCH_TRANSFER_ITEM_INVALID_def
  BATCH_TRANSFER_NOT_CANCELLABLE_def SUBSCRIPTION_PLAN_NOT_FOUND_def
  SUBSCRIPTION_PLAN_DISABLED_def SUBSCRIPTION_NOT_FOUND_def SUBSCRIPTION_STATUS_INVALID_def
  SUBSCRIPTION_ALREADY_EXISTS_def SUBSCRIPTION_CANNOT_SELF_SUBSCRIBE_def
  SUBSCRIPTION_AMOUNT_INVALID_def SPLIT_ORDER_NOT_FOUND_def SPLIT_SOURCE_ORDER_NOT_FOUND_def
  SPLIT_AMOUNT_EXCEED_SOURCE_def SPLIT_RECEIVER_DUPLICATED_def SPLIT_STATUS_INVALID_def
  SPLIT_AMOUNT_INVALID_def SPLIT_RECEIVER_EMPTY_def COUPON_NOT_FOUND_def COUPON_DISABLED_def
  COUPON_EXPIRED_def COUPON_QUOTA_EXHAUSTED_def COUPON_ALREADY_CLAIMED_def
  COUPON_VALUE_INVALID_def COUPON_STATUS_INVALID_def USER_COUPON_NOT_FOUND_def
  USER_COUPON_USED_def REFERRAL_CODE_NOT_FOUND_def REFERRAL_NOT_FOUND_def
  REFERRAL_ALREADY_BOUND_def REFERRAL_CANNOT_SELF_def REFERRAL_STATUS_INVALID_def
  REFERRAL_TRIGGER_INVALID_def REFERRAL_NOT_PENDING_def JOURNAL_UNBALANCED_def
  IDENTITY_RECORD_NOT_FOUND_def ADJUSTMENT_AMOUNT_INVALID_def ADJUSTMENT_REASON_REQUIRED_def
  MISSING_PHONE_OR_EMAIL_def INVALID_CREDENTIALS_def AUTH_FAILED_def ACCOUNT_FROZEN_def
  IDENTITY_NOT_PENDING_def BANKCARD_NOT_FOUND_def BANKCARD_ALREADY_BOUND_def
  BANKCARD_LIMIT_EXCEEDED_def LOGIN_PASSWORD_INCORRECT_def PHONE_ALREADY_BOUND_def
  EMAIL_ALREADY_BOUND_def SMS_CODE_INVALID_def MERCHANT_APP_NAME_REQUIRED_def
  AUTHENTICATION_FAILED_def MERCHANT_APP_DISABLED_def MESSAGE_NOT_FOUND_def
  MESSAGE_CANNOT_DELETE_def INVOICE_NOT_FOUND_def INVOICE_STATUS_INVALID_def
  INVOICE_AMOUNT_INVALID_def INVOICE_MERCHANT_MISMATCH_def CUSTOM_RULE_NOT_FOUND_def
  CUSTOM_RULE_DUPLICATED_def CUSTOM_RULE_CONDITIONS_INVALID_def CUSTOM_RULE_FIELD_INVALID_def
  CUSTOM_RULE_OPERATOR_INVALID_def CHANNEL_STATEMENT_NOT_FOUND_def
  CHANNEL_STATEMENT_ALREADY_FETCHED_def CHANNEL_STATEMENT_FETCH_FAILED_def
  CHANNEL_STATEMENT_NOT_FETCHED_def RECONCILIATION_DIFF_NOT_FOUND_def
  RECONCILIATION_DIFF_STATUS_INVALID_def RISK_EVENT_NOT_FOUND_def ADMIN_USER_NOT_FOUND_def
  ADMIN_USERNAME_EXISTS_def ADMIN_CANNOT_DELETE_SELF_def ADMIN_OLD_PASSWORD_INCORRECT_def
  ADMIN_CONFIG_KEY_EXISTS_def ADMIN_CONFIG_KEY_NOT_FOUND_def ADMIN_INSUFFICIENT_PERMISSIONS_def

datatype exn =
    BadRequest KBErrorCodes
  | NotFound KBErrorCodes
  | Forbidden KBErrorCodes
  | Unauthorized KBErrorCodes
  | Conflict KBErrorCodes
  | NotFoundPlain
  | P2002
  | P2025
  | PrismaValidation
  | IntOutOfRange
  | PlainError KBErrorCodes
  | AmountError amount_error
  | LockNotAcquired
  | RedisMissing
  | TypeError
  | ErrorText string

text \<open>
  The response of the global exception filter: status and \<open>code\<close> of the payload. A plain
  \<open>Error\<close> is a 500 with the unknown-error code, whatever its message says.
\<close>

fun resolve :: "exn \<Rightarrow> nat \<times> string" where
  "resolve (BadRequest c) = (400, c)"
| "resolve (Forbidden c) = (403, c)"
| "resolve (Unauthorized c) = (401, c)"
| "resolve (NotFound c) = (404, c)"
| "resolve (Conflict c) = (409, c)"
| "resolve NotFoundPlain = (404, RESOURCE_NOT_FOUND)"
| "resolve P2002 = (409, IDEMPOTENCY_KEY_CONFLICT)"
| "resolve P2025 = (404, RESOURCE_NOT_FOUND)"
| "resolve PrismaValidation = (400, UNKNOWN_ERROR)"
| "resolve IntOutOfRange = (500, UNKNOWN_ERROR)"
| "resolve (PlainError c) = (500, UNKNOWN_ERROR)"
| "resolve (AmountError a) = (500, UNKNOWN_ERROR)"
| "resolve LockNotAcquired = (500, UNKNOWN_ERROR)"
| "resolve RedisMissing = (500, UNKNOWN_ERROR)"
| "resolve TypeError = (500, UNKNOWN_ERROR)"
| "resolve (ErrorText msg) = (500, UNKNOWN_ERROR)"

subsection \<open>Rows\<close>

definition int32 :: "int \<Rightarrow> bool" where "int32 n = (- 2147483648 \<le> n \<and> n \<le> 2147483647)"

record User =
  usr_id :: string
  usr_nickname :: string
  usr_payPassword :: "string option"
  usr_status :: UserStatus
  usr_realName :: RealNameStatus
  usr_risk :: RiskLevel

record Account =
  acc_id :: string
  acc_user :: string
  availableBalance :: int
  frozenBalance :: int
  totalBalance :: int
  acc_status :: AccountStatus

datatype Remark =
    NoRemark
  | UserRemark string
  | DefaultRemark
  | BatchFreezeRemark string
  | BatchItemRemark
  | BatchRefundRemark string
  | BatchCancelRemark string
  | SplitRemark string
  | RefundRemark string
  | RewardRemark string
  | SubscriptionRemark

record TransactionOrder =
  tx_id :: string
  tx_orderNo :: string
  tx_type :: TransactionType
  tx_status :: TransactionStatus
  tx_amount :: int
  tx_fee :: int
  tx_from :: "string option"
  tx_to :: "string option"
  tx_remark :: Remark
  tx_related :: "string option"
  tx_idem :: "string option"
  tx_channel :: "string option"
  tx_channelOrderNo :: "string option"
  tx_createdAt :: int
  tx_completedAt :: "int option"

record AccountLedger =
  led_account :: string
  led_transaction :: string
  led_type :: LedgerType
  led_amount :: int
  led_before :: int
  led_after :: int
  led_direction :: Direction

record Bill =
  bill_user :: string
  bill_transaction :: string
  bill_type :: BillType
  bill_direction :: BillDirection
  bill_amount :: int
  bill_counterparty :: "string option"

record DailyLimitUsage =
  lim_id :: string
  lim_user :: string
  lim_type :: string
  lim_day :: int
  usedAmount :: int
  lim_version :: int

record RiskEvent =
  ev_user :: string
  ev_type :: RiskEventType
  ev_level :: RiskLevel

record EscrowOrder =
  esc_id :: string
  esc_orderNo :: string
  esc_buyer :: string
  esc_seller :: string
  esc_amount :: int
  esc_status :: EscrowStatus
  esc_idem :: "string option"
  esc_refundReason :: "string option"
  esc_expiredAt :: "int option"
  esc_paidAt :: "int option"
  esc_shippedAt :: "int option"
  esc_receivedAt :: "int option"
  esc_refundedAt :: "int option"
  esc_cancelledAt :: "int option"

record RedPacket =
  rp_id :: string
  rp_packetNo :: string
  rp_sender :: string
  rp_amount :: int
  rp_status :: RedPacketStatus
  rp_type :: RedPacketType
  rp_totalCount :: int
  rp_remainingCount :: int
  rp_perAmount :: "int option"
  rp_password :: "string option"
  rp_designated :: "string option"
  rp_receivedAmount :: int
  rp_idem :: "string option"
  rp_expiresAt :: int
  rp_receivedAt :: "int option"
  rp_returnedAt :: "int option"

record RedPacketRecord =
  rec_packet :: string
  rec_receiver :: string
  rec_amount :: int
  rec_type :: RedPacketRecordType

record WithdrawalOrder =
  wd_id :: string
  wd_orderNo :: string
  wd_user :: string
  wd_amount :: int
  wd_fee :: int
  wd_actualAmount :: int
  wd_status :: WithdrawalStatus
  wd_channel :: string
  wd_channelOrderNo :: "string option"
  wd_reviewedBy :: "string option"
  wd_reviewedAt :: "int option"
  wd_idem :: "string option"

record Merchant =
  mch_id :: string
  mch_user :: string
  mch_no :: string
  mch_type :: MerchantType
  mch_settleAccount :: "string option"
  mch_rejectReason :: "string option"
  mch_reviewedBy :: "string option"
  mch_reviewedAt :: "int option"
  mch_status :: MerchantStatus
  mch_payRate :: int
  mch_withdrawRate :: "int option"
  mch_dailyLimit :: int

record MerchantApp =
  app_id :: string
  app_appId :: string
  app_merchant :: string
  app_secret :: string
  app_name :: string
  app_callbackUrl :: "string option"
  app_status :: AppStatus
  app_createdAt :: int

record QrCode =
  qr_id :: string
  qr_code :: string
  qr_user :: string
  qr_merchant :: "string option"
  qr_type :: QrCodeType
  qr_amount :: "int option"
  qr_remark :: "string option"
  qr_status :: QrCodeStatus

record PaymentOrder =
  pay_id :: string
  pay_orderNo :: string
  pay_merchant :: string
  pay_merchantOrderNo :: string
  pay_app :: "string option"
  pay_amount :: int
  pay_fee :: int
  pay_status :: PaymentOrderStatus
  pay_payer :: "string option"
  pay_paidAt :: "int option"
  pay_expiredAt :: "int option"
  pay_callbackUrl :: "string option"
  pay_notifyStatus :: NotifyStatus
  pay_notifyCount :: int
  pay_refundAmount :: int
  pay_refundedAt :: "int option"
  pay_refundedBy :: "string option"
  pay_settledAt :: "int option"

record PaymentChannelConfig =
  pc_code :: string
  pc_type :: string
  pc_enabled :: bool
  pc_priority :: int

record PlatformAccount =
  pa_code :: string
  pa_balance :: int

record JournalEntry =
  je_journal :: string
  je_account :: string
  je_debit :: int
  je_credit :: int

record BatchTransfer =
  bt_id :: string
  bt_batchNo :: string
  bt_sender :: string
  bt_totalCount :: nat
  bt_successCount :: nat
  bt_failedCount :: nat
  bt_totalAmount :: int
  bt_status :: BatchTransferStatus
  bt_idem :: "string option"

record BatchTransferItem =
  bti_id :: string
  bti_batch :: string
  bti_toUser :: string
  bti_amount :: int
  bti_status :: BatchItemStatus
  bti_transaction :: "string option"

record SplitOrder =
  sp_id :: string
  sp_splitNo :: string
  sp_sender :: string
  sp_sourceOrderNo :: string
  sp_sourceAmount :: int
  sp_splitAmount :: int
  sp_receiverCount :: nat
  sp_successCount :: nat
  sp_failedCount :: nat
  sp_status :: SplitStatus
  sp_idem :: "string option"
  sp_completedAt :: "int option"
  sp_cancelledAt :: "int option"

record SplitItem =
  spi_id :: string
  spi_split :: string
  spi_receiver :: string
  spi_amount :: int
  spi_status :: SplitItemStatus
  spi_transaction :: "string option"

record SubscriptionPlan =
  pl_id :: string
  pl_planNo :: string
  pl_owner :: string
  pl_amount :: int
  pl_period :: SubscriptionPeriod
  pl_intervalCount :: int
  pl_trialDays :: int
  pl_totalCycles :: "int option"
  pl_status :: SubscriptionPlanStatus

record Subscription =
  sub_id :: string
  sub_no :: string
  sub_subscriber :: string
  sub_plan :: string
  sub_status :: SubscriptionStatus
  sub_startAt :: int
  sub_cycleStart :: int
  sub_cycleEnd :: int
  sub_nextChargeAt :: "int option"
  sub_endAt :: "int option"
  sub_cancelledAt :: "int option"
  sub_completedCycles :: int
  sub_lastCharge :: "string option"
  sub_idem :: "string option"

record SubscriptionCharge =
  chg_id :: string
  chg_no :: string
  chg_subscription :: string
  chg_subscriber :: string
  chg_owner :: string
  chg_amount :: int
  chg_cycleStart :: int
  chg_cycleEnd :: int
  chg_status :: SubscriptionChargeStatus
  chg_transaction :: "string option"
  chg_chargedAt :: "int option"
  chg_createdAt :: int

record Coupon =
  cp_id :: string
  cp_no :: string
  cp_owner :: string
  cp_type :: CouponType
  cp_value :: int
  cp_minAmount :: int
  cp_totalQuota :: int
  cp_issuedCount :: int
  cp_perUserLimit :: int
  cp_status :: CouponStatus
  cp_expiresAt :: "int option"

record UserCoupon =
  uc_id :: string
  uc_no :: string
  uc_coupon :: string
  uc_user :: string
  uc_status :: UserCouponStatus
  uc_usedAt :: "int option"
  uc_usedOrder :: "string option"

record ReferralCode =
  rc_code :: string
  rc_user :: string

record Referral =
  ref_id :: string
  ref_no :: string
  ref_referrer :: string
  ref_invitee :: string
  ref_status :: ReferralStatus
  ref_rewardAmount :: int
  ref_triggerTx :: "string option"
  ref_completedAt :: "int option"
  ref_cancelledAt :: "int option"

text \<open>
  A row of \<open>SystemConfig\<close>: its text value, and for the keys that hold JSON what \<open>JSON.parse\<close> makes of
  it: an error, an array, or an object with some of the fields of a risk rule.
\<close>

record RulePatch =
  patch_code :: "string option"
  patch_name :: "string option"
  patch_enabled :: "bool option"
  patch_action :: "string option"
  patch_maxAmount :: "int option"
  patch_maxDailyCount :: "int option"
  patch_maxDailyAmount :: "int option"
  patch_windowSeconds :: "int option"
  patch_windowMaxCount :: "int option"

datatype ConfigJson = JsonInvalid | JsonArray "string list" | JsonRule RulePatch

record SystemConfig =
  cfg_key :: string
  cfg_value :: string
  cfg_json :: ConfigJson

record RiskRule =
  rule_code :: string
  rule_name :: string
  rule_enabled :: bool
  rule_action :: string
  maxAmount :: "int option"
  maxDailyCount :: "int option"
  maxDailyAmount :: "int option"
  windowSeconds :: "int option"
  windowMaxCount :: "int option"

subsection \<open>The database and the world\<close>

record db =
  users :: "User list"
  accounts :: "Account list"
  transactionOrders :: "TransactionOrder list"
  accountLedgers :: "AccountLedger list"
  bills :: "Bill list"
  dailyLimitUsages :: "DailyLimitUsage list"
  systemConfigs :: "SystemConfig list"
  riskEvents :: "RiskEvent list"
  escrowOrders :: "EscrowOrder list"
  redPackets :: "RedPacket list"
  redPacketRecords :: "RedPacketRecord list"
  withdrawalOrders :: "WithdrawalOrder list"
  platformAccounts :: "PlatformAccount list"
  journalEntries :: "JournalEntry list"
  batchTransfers :: "BatchTransfer list"
  batchTransferItems :: "BatchTransferItem list"
  splitOrders :: "SplitOrder list"
  splitItems :: "SplitItem list"
  merchants :: "Merchant list"
  channelConfigs :: "PaymentChannelConfig list"
  merchantApps :: "MerchantApp list"
  qrCodes :: "QrCode list"
  paymentOrders :: "PaymentOrder list"
  subscriptionPlans :: "SubscriptionPlan list"
  subscriptions :: "Subscription list"
  subscriptionCharges :: "SubscriptionCharge list"
  coupons :: "Coupon list"
  userCoupons :: "UserCoupon list"
  referralCodes :: "ReferralCode list"
  referrals :: "Referral list"

text \<open>The payment-password counter of one user (users.service.ts).\<close>

record Attempts =
  att_count :: int
  att_lockedUntil :: int

text \<open>
  The world of a request. \<open>redisEnabled\<close> and \<open>production\<close> are the deployment; \<open>locks\<close> holds the Redis
  lock keys other requests (or this one) hold now; a Redis value carries its expiry; \<open>zsets\<close> are the
  sorted sets of the sliding windows, as (score, member) pairs. The local counters and the caches of rules and
  addresses are those of one process.
\<close>

record world =
  wdb :: db
  redisEnabled :: bool
  production :: bool
  locks :: "string list"
  redisAttempts :: "string \<Rightarrow> (Attempts \<times> int) option"
  localAttempts :: "string \<Rightarrow> Attempts option"
  zsets :: "string \<Rightarrow> (int \<times> string) list"
  ruleCache :: "RiskRule list"
  cacheLoaded :: bool
  cacheExpiry :: int
  ipBlacklistCache :: "string list"
  ipBlacklistExpiry :: int

text \<open>A platform with nothing in it, to build small examples on.\<close>

definition empty_db :: db where
  "empty_db = \<lparr>users = [], accounts = [], transactionOrders = [], accountLedgers = [], bills = [],
     dailyLimitUsages = [], systemConfigs = [], riskEvents = [], escrowOrders = [], redPackets = [],
     redPacketRecords = [], withdrawalOrders = [], platformAccounts = [], journalEntries = [],
     batchTransfers = [], batchTransferItems = [], splitOrders = [], splitItems = [], merchants = [],
     channelConfigs = [], merchantApps = [], qrCodes = [], paymentOrders = [], subscriptionPlans = [],
     subscriptions = [], subscriptionCharges = [], coupons = [], userCoupons = [], referralCodes = [],
     referrals = []\<rparr>"

definition empty_world :: world where
  "empty_world = \<lparr>wdb = empty_db, redisEnabled = True, production = True, locks = [],
     redisAttempts = (\<lambda>_. None), localAttempts = (\<lambda>_. None), zsets = (\<lambda>_. []), ruleCache = [],
     cacheLoaded = False, cacheExpiry = 0, ipBlacklistCache = [], ipBlacklistExpiry = 0\<rparr>"

text \<open>
  What a request draws from its surroundings: the clock (milliseconds since 1970; a request is
  taken to run within one reading), the identifiers generated for new rows in the order they are
  drawn, the random part of generated numbers, the random integers, and where the database puts a row among
  those its \<open>ORDER BY\<close> does not tell apart (for the audit log).
\<close>

record env =
  now :: int
  uuid :: "nat \<Rightarrow> string"
  nano :: "nat \<Rightarrow> string"
  randomInt :: "int \<Rightarrow> int \<Rightarrow> int"
  row_place :: "string \<Rightarrow> int"

subsection \<open>Transactions\<close>

text \<open>
  \<open>prisma.$transaction(f)\<close>: the statements of \<open>f\<close> run on the database; an exception rolls every one
  of them back and is passed on.
\<close>

definition transaction :: "(db \<Rightarrow> exn + ('a \<times> db)) \<Rightarrow> world \<Rightarrow> (exn + 'a) \<times> world" where
  "transaction f w =
     (case f (wdb w) of Inl e \<Rightarrow> (Inl e, w) | Inr (r, d) \<Rightarrow> (Inr r, w\<lparr>wdb := d\<rparr>))"

lemma transaction_Inr [simp, kb_simps]:
  "transaction f w = (Inr r, w') \<longleftrightarrow> (\<exists>d. f (wdb w) = Inr (r, d) \<and> w' = w\<lparr>wdb := d\<rparr>)"
  by (auto simp: transaction_def split: sum.splits prod.splits)

lemma transaction_Inl [kb_simps]:
  "transaction f w = (Inl e, w') \<longleftrightarrow> f (wdb w) = Inl e \<and> w' = w"
  by (auto simp: transaction_def split: sum.splits prod.splits)

text \<open>
  \<open>keeps P m\<close>: the database that a computation leaves behind satisfies \<open>P\<close>, whether or not it threw.
  The rules collected in \<open>keep\<close> carry such a property through a service method along its structure.
\<close>

named_theorems keep "rules that carry a property of the database through a request"

definition keeps :: "(db \<Rightarrow> bool) \<Rightarrow> 'r \<times> world \<Rightarrow> bool" where
  "keeps P m = P (wdb (snd m))"

lemma keeps_return [keep]: "P (wdb w) \<Longrightarrow> keeps P (r, w)"
  by (simp add: keeps_def)

lemma keeps_andThen [keep]:
  assumes "keeps P m" and "\<And>a w'. m = (Inr a, w') \<Longrightarrow> P (wdb w') \<Longrightarrow> keeps P (k a w')"
  shows "keeps P (andThen m k)"
  using assms andThen_preserves [where P = "\<lambda>w. P (wdb w)" and m = m and k = k]
  by (auto simp: keeps_def)

lemma keeps_if [keep]:
  "(b \<Longrightarrow> keeps P x) \<Longrightarrow> (\<not> b \<Longrightarrow> keeps P y) \<Longrightarrow> keeps P (if b then x else y)"
  by simp

lemma keeps_option [keep]:
  "(x = None \<Longrightarrow> keeps P m) \<Longrightarrow> (\<And>a. x = Some a \<Longrightarrow> keeps P (k a)) \<Longrightarrow>
     keeps P (case x of None \<Rightarrow> m | Some a \<Rightarrow> k a)"
  by (cases x) auto

lemma keeps_pair [keep]: "(\<And>a b. x = (a, b) \<Longrightarrow> keeps P (k a b w)) \<Longrightarrow> keeps P ((case x of (a, b) \<Rightarrow> k a b) w)"
  by (cases x) auto

lemma keeps_transaction [keep]:
  assumes "P (wdb w)" and "\<And>r d. f (wdb w) = Inr (r, d) \<Longrightarrow> P d"
  shows "keeps P (transaction f w)"
  using assms by (auto simp: keeps_def transaction_def split: sum.splits prod.splits)

text \<open>
  \<open>fails P m\<close>: when a computation throws, the database it leaves behind satisfies \<open>P\<close>. A transaction
  that throws leaves what it found.
\<close>

named_theorems failing "rules about the database a failing request leaves behind"

definition fails :: "(db \<Rightarrow> bool) \<Rightarrow> (exn + 'a) \<times> world \<Rightarrow> bool" where
  "fails P m = (\<forall>err. fst m = Inl err \<longrightarrow> P (wdb (snd m)))"

lemma fails_return [failing]: "(\<And>err. r = Inl err \<Longrightarrow> P (wdb w)) \<Longrightarrow> fails P (r, w)"
  by (simp add: fails_def)

lemma fails_andThen [failing]:
  assumes "fails P m" and "\<And>a w'. m = (Inr a, w') \<Longrightarrow> fails P (k a w')"
  shows "fails P (andThen m k)"
  using assms by (cases m; cases "fst m") (auto simp: fails_def)

lemma fails_if [failing]:
  "(b \<Longrightarrow> fails P x) \<Longrightarrow> (\<not> b \<Longrightarrow> fails P y) \<Longrightarrow> fails P (if b then x else y)"
  by simp

lemma fails_option [failing]:
  "(x = None \<Longrightarrow> fails P m) \<Longrightarrow> (\<And>a. x = Some a \<Longrightarrow> fails P (k a)) \<Longrightarrow>
     fails P (case x of None \<Rightarrow> m | Some a \<Rightarrow> k a)"
  by (cases x) auto

lemma fails_pair [failing]: "(\<And>a b. x = (a, b) \<Longrightarrow> fails P (k a b w)) \<Longrightarrow> fails P ((case x of (a, b) \<Rightarrow> k a b) w)"
  by (cases x) auto

lemma fails_transaction [failing]: "P (wdb w) \<Longrightarrow> fails P (transaction f w)"
  by (auto simp: fails_def transaction_def split: sum.splits prod.splits)

lemma failsD: "fails P m \<Longrightarrow> m = (Inl err, w') \<Longrightarrow> P (wdb w')"
  by (simp add: fails_def)

subsection \<open>Constants and generated numbers (common/constants.ts, common/helpers.ts)\<close>

definition RATE_DENOMINATOR :: int where "RATE_DENOMINATOR = 10000"
definition DAY_MS :: int where "DAY_MS = 24 * 60 * 60 * 1000"
definition ORDER_EXPIRY_MS :: int where "ORDER_EXPIRY_MS = 30 * 60 * 1000"
definition PAY_PASSWORD_LOCK_MS :: int where "PAY_PASSWORD_LOCK_MS = 15 * 60 * 1000"
definition MAX_PAY_PASSWORD_ATTEMPTS :: int where "MAX_PAY_PASSWORD_ATTEMPTS = 5"
definition DEFAULT_TRANSFER_DAILY_LIMIT_CENTS :: int where
  "DEFAULT_TRANSFER_DAILY_LIMIT_CENTS = 50000 * 100"
definition DEFAULT_WITHDRAW_DAILY_LIMIT_CENTS :: int where
  "DEFAULT_WITHDRAW_DAILY_LIMIT_CENTS = 20000 * 100"
definition DEFAULT_RED_PACKET_DAILY_LIMIT_CENTS :: int where
  "DEFAULT_RED_PACKET_DAILY_LIMIT_CENTS = 5000 * 100"
definition LARGE_TRANSFER_THRESHOLD_CENTS :: int where "LARGE_TRANSFER_THRESHOLD_CENTS = 50000"
definition LARGE_WITHDRAWAL_THRESHOLD_CENTS :: int where "LARGE_WITHDRAWAL_THRESHOLD_CENTS = 20000"
definition RED_PACKET_EXPIRY_MS :: int where "RED_PACKET_EXPIRY_MS = DAY_MS"
definition ESCROW_PAY_DEADLINE_MS :: int where "ESCROW_PAY_DEADLINE_MS = ORDER_EXPIRY_MS"
definition ESCROW_AUTO_CONFIRM_MS :: int where "ESCROW_AUTO_CONFIRM_MS = 7 * DAY_MS"
definition DEFAULT_ESCROW_DAILY_LIMIT_CENTS :: int where
  "DEFAULT_ESCROW_DAILY_LIMIT_CENTS = 50000 * 100"
definition LARGE_ESCROW_THRESHOLD_CENTS :: int where "LARGE_ESCROW_THRESHOLD_CENTS = 50000"
definition MAX_BATCH_TRANSFER_ITEMS :: nat where "MAX_BATCH_TRANSFER_ITEMS = 500"
definition DEFAULT_BATCH_TRANSFER_DAILY_LIMIT_CENTS :: int where
  "DEFAULT_BATCH_TRANSFER_DAILY_LIMIT_CENTS = 50000 * 100"
definition LARGE_BATCH_TRANSFER_THRESHOLD_CENTS :: int where
  "LARGE_BATCH_TRANSFER_THRESHOLD_CENTS = 500000"
definition MAX_SPLIT_RECEIVERS :: nat where "MAX_SPLIT_RECEIVERS = 50"
definition DEFAULT_SPLIT_DAILY_LIMIT_CENTS :: int where
  "DEFAULT_SPLIT_DAILY_LIMIT_CENTS = 50000 * 100"
definition LARGE_SPLIT_THRESHOLD_CENTS :: int where "LARGE_SPLIT_THRESHOLD_CENTS = 500000"

definition DEFAULT_PAYMENT_DAILY_LIMIT_CENTS :: int where "DEFAULT_PAYMENT_DAILY_LIMIT_CENTS = 5000000"
definition DEFAULT_MERCHANT_DAILY_LIMIT_CENTS :: int where "DEFAULT_MERCHANT_DAILY_LIMIT_CENTS = 10000000"
definition MAX_ORDER_EXPIRY_MS :: int where "MAX_ORDER_EXPIRY_MS = DAY_MS"
definition SUBSCRIPTION_MAX_FAILURES :: nat where "SUBSCRIPTION_MAX_FAILURES = 3"
definition MAX_SUBSCRIPTIONS_PER_USER :: nat where "MAX_SUBSCRIPTIONS_PER_USER = 100"
definition DEFAULT_SUBSCRIPTION_DAILY_LIMIT_CENTS :: int where
  "DEFAULT_SUBSCRIPTION_DAILY_LIMIT_CENTS = 10000 * 100"
definition LARGE_SUBSCRIPTION_THRESHOLD_CENTS :: int where "LARGE_SUBSCRIPTION_THRESHOLD_CENTS = 100000"
definition DEFAULT_REFERRAL_REWARD_CENTS :: int where "DEFAULT_REFERRAL_REWARD_CENTS = 10 * 100"
definition MAX_REFERRAL_REWARD_CENTS :: int where "MAX_REFERRAL_REWARD_CENTS = 1000 * 100"
definition REFERRAL_CODE_LENGTH :: nat where "REFERRAL_CODE_LENGTH = 8"
definition REFERRAL_TRIGGER_MIN_AMOUNT_CENTS :: int where "REFERRAL_TRIGGER_MIN_AMOUNT_CENTS = 100"
definition MAX_REFERRALS_PER_USER :: int where "MAX_REFERRALS_PER_USER = 0"
definition MAX_CALLBACK_RETRIES :: nat where "MAX_CALLBACK_RETRIES = 5"
definition NOTIFY_RETRY_BACKOFF_MS :: int where "NOTIFY_RETRY_BACKOFF_MS = 5 * 60 * 1000"
definition NOTIFY_RETRY_BATCH_SIZE :: nat where "NOTIFY_RETRY_BATCH_SIZE = 100"

text \<open>\<open>new Date().toISOString().slice(0, 10)\<close>: the UTC day, here as the number of days since 1970.\<close>

definition utc_day :: "int \<Rightarrow> int" where "utc_day t = t div DAY_MS"

definition digit36 :: "nat \<Rightarrow> char" where
  "digit36 d = (if d < 10 then digit d else char_of (55 + d))"

fun show36 :: "nat \<Rightarrow> string" where
  "show36 n = (if n < 36 then [digit36 n] else show36 (n div 36) @ [digit36 (n mod 36)])"

declare show36.simps [simp del]

text \<open>\<open>generateOrderNo(prefix)\<close>: prefix, the clock in upper-case base 36, eight random hex digits.\<close>

definition generateOrderNo :: "env \<Rightarrow> nat \<Rightarrow> string \<Rightarrow> string" where
  "generateOrderNo e i prefix = prefix @ show36 (nat (now e)) @ nano e i"

text \<open>
  \<open>config ? Math.round(Number(config.value) * 100) : default\<close>, the daily limits in fen;
  \<open>None\<close> is a limit that is not a number.
\<close>

definition config_limit :: "string \<Rightarrow> int \<Rightarrow> db \<Rightarrow> int option" where
  "config_limit key dflt d =
     (case findUnique (\<lambda>c. cfg_key c = key) (systemConfigs d) of
        None \<Rightarrow> Some dflt
      | Some c \<Rightarrow> (case js_number (cfg_value c) of
                    Num x \<Rightarrow> Some (js_round (js_mul x 100))
                  | _ \<Rightarrow> None))"

text \<open>\<open>dto.amount <= 0\<close>; false for a number that is not one.\<close>

fun amount_le0 :: "jsnum \<Rightarrow> bool" where
  "amount_le0 (Num x) = (x \<le> 0)"
| "amount_le0 NaN = False"
| "amount_le0 PosInf = False"
| "amount_le0 NegInf = True"

definition fen :: "jsnum \<Rightarrow> exn + int" where
  "fen a = (case yuanToFen a of Inl x \<Rightarrow> Inl (AmountError x) | Inr n \<Rightarrow> Inr n)"

lemma fen_Inr: "fen a = Inr n \<longleftrightarrow> yuanToFen a = Inr n"
  by (simp add: fen_def split: sum.split)

end
