(* ===== verification/Balance.thy ===== *)
theory Balance
  imports Schema
begin

text \<open>
  User accounts: the statements by which every service moves money, and what they promise.

  The services change balances by five kinds of statement only. Four are conditional
  \<open>updateMany\<close> calls on one account id (freeze, unfreeze, spend and pay out of the frozen part);
  their condition makes the database refuse to go below zero, and the returned count says
  whether they took effect. The fifth is the unconditional \<open>update\<close> that credits a receiver.

  All five are moves of one account by a pair (change of available, change of frozen), with the
  total following (\<open>move_funds\<close>). The locale \<open>balance_statement\<close> is that contract; its lemmas (the
  account invariant is kept, the sum of all totals and the frozen balance of a user change by
  the stated amounts) are proved once and interpreted for the five statements.
\<close>

subsection \<open>The statements\<close>

definition acc_ok :: "Account \<Rightarrow> bool" where
  "acc_ok a = (int32 (availableBalance a) \<and> int32 (frozenBalance a) \<and> int32 (totalBalance a))"

type_synonym statement = "string \<Rightarrow> int \<Rightarrow> Account list \<Rightarrow> exn + (nat \<times> Account list)"

text \<open>Freeze: available to frozen, if the available balance suffices.\<close>

definition acc_freeze :: statement where
  "acc_freeze aid n =
     updateMany IntOutOfRange acc_ok (\<lambda>a. acc_id a = aid \<and> n \<le> availableBalance a)
       (\<lambda>a. a\<lparr>availableBalance := availableBalance a - n, frozenBalance := frozenBalance a + n\<rparr>)"

text \<open>Unfreeze: frozen back to available, if the frozen balance suffices.\<close>

definition acc_unfreeze :: statement where
  "acc_unfreeze aid n =
     updateMany IntOutOfRange acc_ok (\<lambda>a. acc_id a = aid \<and> n \<le> frozenBalance a)
       (\<lambda>a. a\<lparr>availableBalance := availableBalance a + n, frozenBalance := frozenBalance a - n\<rparr>)"

text \<open>Spend: out of the available balance and the total.\<close>

definition acc_spend :: statement where
  "acc_spend aid n =
     updateMany IntOutOfRange acc_ok (\<lambda>a. acc_id a = aid \<and> n \<le> availableBalance a)
       (\<lambda>a. a\<lparr>availableBalance := availableBalance a - n, totalBalance := totalBalance a - n\<rparr>)"

text \<open>Release: out of the frozen balance and the total.\<close>

definition acc_release :: statement where
  "acc_release aid n =
     updateMany IntOutOfRange acc_ok (\<lambda>a. acc_id a = aid \<and> n \<le> frozenBalance a)
       (\<lambda>a. a\<lparr>frozenBalance := frozenBalance a - n, totalBalance := totalBalance a - n\<rparr>)"

text \<open>Credit: into the available balance and the total; returns the updated row.\<close>

definition acc_credit :: "string \<Rightarrow> int \<Rightarrow> Account list \<Rightarrow> exn + (Account \<times> Account list)" where
  "acc_credit aid n =
     updateOne P2025 IntOutOfRange acc_ok (\<lambda>a. acc_id a = aid)
       (\<lambda>a. a\<lparr>availableBalance := availableBalance a + n, totalBalance := totalBalance a + n\<rparr>)"

definition account_of :: "string \<Rightarrow> Account list \<Rightarrow> Account option" where
  "account_of u = findUnique (\<lambda>a. acc_user a = u)"

definition account_by_id :: "string \<Rightarrow> Account list \<Rightarrow> Account option" where
  "account_by_id i = findUnique (\<lambda>a. acc_id a = i)"

subsection \<open>The account invariant and the measures\<close>

definition wf_account :: "Account \<Rightarrow> bool" where
  "wf_account a = (0 \<le> availableBalance a \<and> 0 \<le> frozenBalance a \<and>
     totalBalance a = availableBalance a + frozenBalance a \<and> acc_ok a)"

definition accounts_ok :: "Account list \<Rightarrow> bool" where
  "accounts_ok t = (distinct (map acc_id t) \<and> distinct (map acc_user t) \<and> list_all wf_account t)"

definition total_assets :: "Account list \<Rightarrow> int" where
  "total_assets t = sum_list (map totalBalance t)"

definition frozen_of :: "string \<Rightarrow> Account list \<Rightarrow> int" where
  "frozen_of u t = sum_list (map (\<lambda>a. if acc_user a = u then frozenBalance a else 0) t)"

definition available_of :: "string \<Rightarrow> Account list \<Rightarrow> int" where
  "available_of u t = sum_list (map (\<lambda>a. if acc_user a = u then availableBalance a else 0) t)"

definition move :: "int \<Rightarrow> int \<Rightarrow> Account \<Rightarrow> Account" where
  "move x y a = a\<lparr>availableBalance := availableBalance a + x, frozenBalance := frozenBalance a + y,
     totalBalance := totalBalance a + (x + y)\<rparr>"

definition move_funds :: "string \<Rightarrow> int \<Rightarrow> int \<Rightarrow> Account list \<Rightarrow> Account list" where
  "move_funds aid x y = updateRows (\<lambda>a. acc_id a = aid) (move x y)"

lemma move_simps [simp]:
  "acc_id (move x y a) = acc_id a" "acc_user (move x y a) = acc_user a"
  "acc_status (move x y a) = acc_status a"
  "availableBalance (move x y a) = availableBalance a + x"
  "frozenBalance (move x y a) = frozenBalance a + y"
  "totalBalance (move x y a) = totalBalance a + (x + y)"
  by (simp_all add: move_def)

lemma accounts_okD:
  assumes "accounts_ok t"
  shows "distinct (map acc_id t)" and "distinct (map acc_user t)"
    and "a \<in> set t \<Longrightarrow> wf_account a"
  using assms by (auto simp: accounts_ok_def list_all_iff)

lemma account_of_SomeD: "account_of u t = Some a \<Longrightarrow> a \<in> set t \<and> acc_user a = u"
  unfolding account_of_def by (rule findUnique_SomeD)

lemma account_by_id_SomeD: "account_by_id i t = Some a \<Longrightarrow> a \<in> set t \<and> acc_id a = i"
  unfolding account_by_id_def by (rule findUnique_SomeD)

lemma account_by_id_in:
  "accounts_ok t \<Longrightarrow> a \<in> set t \<Longrightarrow> account_by_id (acc_id a) t = Some a"
  unfolding account_by_id_def by (rule findUnique_key_eq) (auto dest: accounts_okD)

lemma account_of_in: "accounts_ok t \<Longrightarrow> a \<in> set t \<Longrightarrow> account_of (acc_user a) t = Some a"
  unfolding account_of_def by (rule findUnique_key_eq) (auto dest: accounts_okD)

text \<open>A sum over one user's rows is that user's row.\<close>

lemma sum_of_user:
  assumes "distinct (map acc_user t)" and "a \<in> set t"
  shows "sum_list (map (\<lambda>b. if acc_user b = acc_user a then g b else 0) t) = (g a :: int)"
  using assms
proof (induction t)
  case (Cons x t)
  have zero: "sum_list (map (\<lambda>b. if acc_user b = k then g b else 0) t) = 0"
    if "k \<notin> acc_user ` set t" for k
    using that by (induction t) auto
  show ?case using Cons zero [of "acc_user x"] by (cases "x = a") (auto simp: image_iff)
qed simp

lemma frozen_of_account:
  "accounts_ok t \<Longrightarrow> a \<in> set t \<Longrightarrow> frozen_of (acc_user a) t = frozenBalance a"
  unfolding frozen_of_def by (rule sum_of_user) (auto dest: accounts_okD)

lemma available_of_account:
  "accounts_ok t \<Longrightarrow> a \<in> set t \<Longrightarrow> available_of (acc_user a) t = availableBalance a"
  unfolding available_of_def by (rule sum_of_user) (auto dest: accounts_okD)

lemma account_ids_inj:
  "accounts_ok t \<Longrightarrow> a \<in> set t \<Longrightarrow> b \<in> set t \<Longrightarrow> acc_id a = acc_id b \<longleftrightarrow> a = b"
  using distinct_key_unique [of acc_id t a b] by (auto dest: accounts_okD)

subsection \<open>Moving funds\<close>

lemma move_funds_sum:
  assumes "accounts_ok t" and "a \<in> set t"
  shows "sum_list (map g (move_funds (acc_id a) x y t)) =
    sum_list (map g t) + ((g (move x y a) :: int) - g a)"
  unfolding move_funds_def using assms by (intro sum_updateRows_key') (auto dest: accounts_okD)

lemma total_assets_move:
  "accounts_ok t \<Longrightarrow> a \<in> set t \<Longrightarrow> total_assets (move_funds (acc_id a) x y t) = total_assets t + (x + y)"
  by (simp add: total_assets_def move_funds_sum)

lemma frozen_of_move:
  "accounts_ok t \<Longrightarrow> a \<in> set t \<Longrightarrow>
     frozen_of u (move_funds (acc_id a) x y t) = frozen_of u t + (if acc_user a = u then y else 0)"
  by (simp add: frozen_of_def move_funds_sum)

lemma available_of_move:
  "accounts_ok t \<Longrightarrow> a \<in> set t \<Longrightarrow>
     available_of u (move_funds (acc_id a) x y t) = available_of u t + (if acc_user a = u then x else 0)"
  by (simp add: available_of_def move_funds_sum)

lemma accounts_ok_move:
  assumes "accounts_ok t" and "a \<in> set t"
    and "0 \<le> availableBalance a + x" and "0 \<le> frozenBalance a + y" and "acc_ok (move x y a)"
  shows "accounts_ok (move_funds (acc_id a) x y t)"
proof -
  have ids: "map acc_id (move_funds (acc_id a) x y t) = map acc_id t"
    and us: "map acc_user (move_funds (acc_id a) x y t) = map acc_user t"
    by (simp_all add: move_funds_def map_updateRows_frame)
  have "wf_account b" if "b \<in> set (move_funds (acc_id a) x y t)" for b
    using that unfolding move_funds_def
  proof (cases rule: in_updateRowsE)
    case (changed r)
    then have "r = a" using account_ids_inj [OF assms(1) changed(1) assms(2)] by simp
    moreover have "wf_account a" using assms(1,2) by (rule accounts_okD)
    ultimately show ?thesis using changed assms(3-5) by (simp add: wf_account_def)
  next
    case same
    with assms(1) show ?thesis by (auto dest: accounts_okD)
  qed
  then show ?thesis using assms(1) by (simp add: accounts_ok_def ids us list_all_iff)
qed

lemma move_funds_users [simp]: "map acc_user (move_funds i x y t) = map acc_user t"
  by (simp add: move_funds_def map_updateRows_frame)

lemma move_funds_ids [simp]: "map acc_id (move_funds i x y t) = map acc_id t"
  by (simp add: move_funds_def map_updateRows_frame)

lemma account_of_move:
  "account_of u (move_funds i x y t) = map_option (\<lambda>a. if acc_id a = i then move x y a else a) (account_of u t)"
  unfolding account_of_def move_funds_def by (induction t) auto

lemma account_by_id_move:
  "account_by_id j (move_funds i x y t) =
     map_option (\<lambda>a. if acc_id a = i then move x y a else a) (account_by_id j t)"
  unfolding account_by_id_def move_funds_def by (rule findUnique_updateRows) simp

subsection \<open>The contract of a balance statement\<close>

text \<open>
  A statement that took effect (count not zero) moved exactly the account it names, and only where
  both parts stay non-negative and within the column width; a statement that did not take effect
  changed nothing.
\<close>

locale balance_statement =
  fixes stmt :: statement and dA dF :: "int \<Rightarrow> int"
  assumes effect: "accounts_ok t \<Longrightarrow> stmt aid n t = Inr (c, t') \<Longrightarrow> c \<noteq> 0 \<Longrightarrow> 0 \<le> n \<Longrightarrow>
      \<exists>a. a \<in> set t \<and> acc_id a = aid \<and> t' = move_funds aid (dA n) (dF n) t \<and>
        0 \<le> availableBalance a + dA n \<and> 0 \<le> frozenBalance a + dF n \<and> acc_ok (move (dA n) (dF n) a)"
    and no_effect: "stmt aid n t = Inr (0, t') \<Longrightarrow> t' = t"
begin

lemma keeps_ok:
  assumes "accounts_ok t" and "stmt aid n t = Inr (c, t')" and "0 \<le> n"
  shows "accounts_ok t'"
proof (cases "c = 0")
  case True
  with no_effect assms show ?thesis by auto
next
  case False
  then obtain a where "a \<in> set t" "acc_id a = aid" "t' = move_funds aid (dA n) (dF n) t"
    "0 \<le> availableBalance a + dA n" "0 \<le> frozenBalance a + dF n" "acc_ok (move (dA n) (dF n) a)"
    using effect [OF assms(1,2) _ assms(3)] by blast
  then show ?thesis using accounts_ok_move [OF assms(1)] by blast
qed

lemma moves:
  assumes "accounts_ok t" and "a \<in> set t" and "stmt (acc_id a) n t = Inr (c, t')" and "c \<noteq> 0"
    and "0 \<le> n"
  shows "t' = move_funds (acc_id a) (dA n) (dF n) t" and "0 \<le> availableBalance a + dA n"
    and "0 \<le> frozenBalance a + dF n" and "accounts_ok t'"
    and "total_assets t' = total_assets t + (dA n + dF n)"
    and "frozen_of u t' = frozen_of u t + (if acc_user a = u then dF n else 0)"
    and "available_of u t' = available_of u t + (if acc_user a = u then dA n else 0)"
proof -
  obtain b where b: "b \<in> set t" "acc_id b = acc_id a" and t': "t' = move_funds (acc_id a) (dA n) (dF n) t"
    and nn: "0 \<le> availableBalance b + dA n" "0 \<le> frozenBalance b + dF n"
    using effect [OF assms(1,3,4,5)] by blast
  then have "b = a" using account_ids_inj [OF assms(1) b(1) assms(2)] by simp
  with t' nn show "t' = move_funds (acc_id a) (dA n) (dF n) t" and "0 \<le> availableBalance a + dA n"
    and "0 \<le> frozenBalance a + dF n" by simp_all
  show "accounts_ok t'" using keeps_ok [OF assms(1,3,5)] .
  show "total_assets t' = total_assets t + (dA n + dF n)"
    by (simp add: t' total_assets_move [OF assms(1,2)])
  show "frozen_of u t' = frozen_of u t + (if acc_user a = u then dF n else 0)"
    by (simp add: t' frozen_of_move [OF assms(1,2)])
  show "available_of u t' = available_of u t + (if acc_user a = u then dA n else 0)"
    by (simp add: t' available_of_move [OF assms(1,2)])
qed

end

text \<open>A sequence of moves, as the services read it off: the account behind an identifier.\<close>

lemma move_funds_by_id:
  assumes "accounts_ok t" and "account_by_id i t = Some a"
  shows "total_assets (move_funds i x y t) = total_assets t + (x + y)"
    and "frozen_of u (move_funds i x y t) = frozen_of u t + (if acc_user a = u then y else 0)"
    and "available_of u (move_funds i x y t) = available_of u t + (if acc_user a = u then x else 0)"
  using account_by_id_SomeD [OF assms(2)] assms(1)
  by (auto simp: total_assets_move frozen_of_move available_of_move)

lemma guarded_move:
  assumes ok: "accounts_ok t" and c: "c \<noteq> 0"
    and upd: "updateMany IntOutOfRange acc_ok (\<lambda>a. acc_id a = aid \<and> P a) f t = Inr (c, t')"
    and f: "\<And>a. f a = move x y a"
    and nn: "\<And>a. wf_account a \<Longrightarrow> P a \<Longrightarrow> 0 \<le> availableBalance a + x \<and> 0 \<le> frozenBalance a + y"
  shows "\<exists>a. a \<in> set t \<and> acc_id a = aid \<and> t' = move_funds aid x y t \<and>
    0 \<le> availableBalance a + x \<and> 0 \<le> frozenBalance a + y \<and> acc_ok (move x y a)"
proof -
  obtain a where a: "a \<in> set t" "acc_id a = aid" "P a"
    using upd c by (auto simp: filter_empty_conv)
  have "updateRows (\<lambda>a. acc_id a = aid \<and> P a) f t = move_funds aid x y t"
  proof -
    have "f = move x y" using f by auto
    then show ?thesis unfolding move_funds_def
      using account_ids_inj [OF ok _ a(1)] a by (auto intro!: updateRows_cong_on)
  qed
  then show ?thesis
    using upd a f nn [OF accounts_okD(3) [OF ok a(1)] a(3)] by (intro exI [of _ a]) auto
qed

interpretation freeze: balance_statement acc_freeze "\<lambda>n. - n" "\<lambda>n. n"
  unfolding acc_freeze_def
  by unfold_locales
    (rule guarded_move, assumption+, auto simp: move_def wf_account_def intro: updateRows_none)

interpretation unfreeze: balance_statement acc_unfreeze "\<lambda>n. n" "\<lambda>n. - n"
  unfolding acc_unfreeze_def
  by unfold_locales
    (rule guarded_move, assumption+, auto simp: move_def wf_account_def intro: updateRows_none)

interpretation spend: balance_statement acc_spend "\<lambda>n. - n" "\<lambda>n. 0"
  unfolding acc_spend_def
  by unfold_locales
    (rule guarded_move, assumption+, auto simp: move_def wf_account_def intro: updateRows_none)

interpretation release: balance_statement acc_release "\<lambda>n. 0" "\<lambda>n. - n"
  unfolding acc_release_def
  by unfold_locales
    (rule guarded_move, assumption+, auto simp: move_def wf_account_def intro: updateRows_none)

text \<open>The credit meets the same contract once its result is read as a count of one.\<close>

definition credit_statement :: statement where
  "credit_statement aid n t = (case acc_credit aid n t of Inl e \<Rightarrow> Inl e | Inr (a, t') \<Rightarrow> Inr (1, t'))"

interpretation credit: balance_statement credit_statement "\<lambda>n. n" "\<lambda>n. 0"
proof unfold_locales
  fix t aid n c t'
  assume ok: "accounts_ok t" and "credit_statement aid n t = Inr (c, t')" and n: "0 \<le> n"
  then obtain a where a: "account_by_id aid t = Some a"
    and fits: "acc_ok (a\<lparr>availableBalance := availableBalance a + n, totalBalance := totalBalance a + n\<rparr>)"
    and t': "t' = updateRows (\<lambda>a. acc_id a = aid) (\<lambda>a. a\<lparr>availableBalance := availableBalance a + n,
               totalBalance := totalBalance a + n\<rparr>) t"
    by (auto simp: credit_statement_def acc_credit_def account_by_id_def split: sum.splits)
  have eq: "(\<lambda>a. a\<lparr>availableBalance := availableBalance a + n, totalBalance := totalBalance a + n\<rparr>) = move n 0"
    by (auto simp: move_def)
  have in_t: "a \<in> set t" "acc_id a = aid" using account_by_id_SomeD [OF a] by auto
  moreover have "wf_account a" using ok in_t(1) by (rule accounts_okD)
  ultimately show "\<exists>a. a \<in> set t \<and> acc_id a = aid \<and> t' = move_funds aid n 0 t \<and>
      0 \<le> availableBalance a + n \<and> 0 \<le> frozenBalance a + 0 \<and> acc_ok (move n 0 a)"
    using fits n unfolding fun_cong [OF eq]
    by (intro exI [of _ a]) (auto simp: t' move_funds_def eq wf_account_def)
next
  show "credit_statement aid n t = Inr (0, t') \<Longrightarrow> t' = t" for aid n t t'
    by (auto simp: credit_statement_def split: sum.splits prod.splits)
qed

lemma acc_credit_statement:
  "acc_credit aid n t = Inr (b, t') \<Longrightarrow> credit_statement aid n t = Inr (1, t')"
  by (simp add: credit_statement_def)

lemma acc_credit_row:
  assumes "accounts_ok t" and "a \<in> set t" and "acc_credit (acc_id a) n t = Inr (b, t')"
  shows "b = move n 0 a"
  using account_by_id_in [OF assms(1,2)] assms(3)
  by (auto simp: acc_credit_def account_by_id_def move_def)

text \<open>The account of a user after a statement on it.\<close>

lemmas statement_moves = freeze.moves unfreeze.moves spend.moves release.moves

lemmas statement_keeps_ok = freeze.keeps_ok unfreeze.keeps_ok spend.keeps_ok release.keeps_ok

text \<open>
  When does a statement take effect? The count is one exactly when the guarded balance suffices, so
  a service that knows the balance knows that it will not be refused.
\<close>

lemma release_enough:
  assumes "accounts_ok t" and "a \<in> set t" and "n \<le> frozenBalance a" and "0 \<le> n"
  shows "\<exists>c t'. acc_release (acc_id a) n t = Inr (c, t') \<and> c \<noteq> 0"
proof -
  let ?P = "\<lambda>b. acc_id b = acc_id a \<and> n \<le> frozenBalance b"
  have "acc_ok (b\<lparr>frozenBalance := frozenBalance b - n, totalBalance := totalBalance b - n\<rparr>)"
    if "b \<in> set t" "?P b" for b
    using accounts_okD(3) [OF assms(1) that(1)] that(2) assms(4)
    by (auto simp: wf_account_def acc_ok_def int32_def)
  moreover have "length (filter ?P t) \<noteq> 0" using assms(2,3) by (auto simp: filter_empty_conv)
  ultimately show ?thesis by (simp add: acc_release_def)
qed

lemma unfreeze_enough:
  assumes "accounts_ok t" and "a \<in> set t" and "n \<le> frozenBalance a" and "0 \<le> n"
  shows "\<exists>c t'. acc_unfreeze (acc_id a) n t = Inr (c, t') \<and> c \<noteq> 0"
proof -
  let ?P = "\<lambda>b. acc_id b = acc_id a \<and> n \<le> frozenBalance b"
  have "acc_ok (b\<lparr>availableBalance := availableBalance b + n, frozenBalance := frozenBalance b - n\<rparr>)"
    if "b \<in> set t" "?P b" for b
    using accounts_okD(3) [OF assms(1) that(1)] that(2) assms(4)
    by (auto simp: wf_account_def acc_ok_def int32_def)
  moreover have "length (filter ?P t) \<noteq> 0" using assms(2,3) by (auto simp: filter_empty_conv)
  ultimately show ?thesis by (simp add: acc_unfreeze_def)
qed

subsection \<open>Statements inside a transaction\<close>

text \<open>
  \<open>const res = await tx.account.updateMany(...); if (res.count === 0) throw err\<close>, the pattern of
  every service, and the credit of a receiver, whose updated row the services read back.
\<close>

definition guarded ::
  "statement \<Rightarrow> exn \<Rightarrow> string \<Rightarrow> int \<Rightarrow> db \<Rightarrow> (db \<Rightarrow> exn + 'a) \<Rightarrow> exn + 'a" where
  "guarded stmt err aid n d k =
     bindE (stmt aid n (accounts d)) (\<lambda>(c, t). throw_if (c = 0) err (k (d\<lparr>accounts := t\<rparr>)))"

definition credit_account ::
  "string \<Rightarrow> int \<Rightarrow> db \<Rightarrow> (Account \<Rightarrow> db \<Rightarrow> exn + 'a) \<Rightarrow> exn + 'a" where
  "credit_account aid n d k = bindE (acc_credit aid n (accounts d)) (\<lambda>(b, t). k b (d\<lparr>accounts := t\<rparr>))"

definition moved :: "string \<Rightarrow> int \<Rightarrow> int \<Rightarrow> db \<Rightarrow> db" where
  "moved aid x y d = d\<lparr>accounts := move_funds aid x y (accounts d)\<rparr>"

lemma moved_accounts [simp]: "accounts (moved i x y d) = move_funds i x y (accounts d)"
  by (simp add: moved_def)

lemma moved_frame [simp]:
  "users (moved i x y d) = users d" "transactionOrders (moved i x y d) = transactionOrders d"
  "accountLedgers (moved i x y d) = accountLedgers d" "bills (moved i x y d) = bills d"
  "dailyLimitUsages (moved i x y d) = dailyLimitUsages d" "systemConfigs (moved i x y d) = systemConfigs d"
  "riskEvents (moved i x y d) = riskEvents d" "escrowOrders (moved i x y d) = escrowOrders d"
  "redPackets (moved i x y d) = redPackets d" "redPacketRecords (moved i x y d) = redPacketRecords d"
  "withdrawalOrders (moved i x y d) = withdrawalOrders d" "platformAccounts (moved i x y d) = platformAccounts d"
  "journalEntries (moved i x y d) = journalEntries d" "batchTransfers (moved i x y d) = batchTransfers d"
  "batchTransferItems (moved i x y d) = batchTransferItems d" "splitOrders (moved i x y d) = splitOrders d"
  "splitItems (moved i x y d) = splitItems d" "merchants (moved i x y d) = merchants d"
  "channelConfigs (moved i x y d) = channelConfigs d"
  "merchantApps (moved i x y d) = merchantApps d"
  "qrCodes (moved i x y d) = qrCodes d"
  "paymentOrders (moved i x y d) = paymentOrders d"
  "subscriptionPlans (moved i x y d) = subscriptionPlans d"
  "subscriptions (moved i x y d) = subscriptions d"
  "subscriptionCharges (moved i x y d) = subscriptionCharges d"
  "coupons (moved i x y d) = coupons d"
  "userCoupons (moved i x y d) = userCoupons d"
  "referralCodes (moved i x y d) = referralCodes d"
  "referrals (moved i x y d) = referrals d"
  by (simp_all add: moved_def)

context balance_statement begin

lemma guarded_Inr:
  assumes "accounts_ok (accounts d)" and "account_by_id i (accounts d) = Some a" and "0 \<le> n"
    and "guarded stmt err i n d k = Inr r"
  shows "k (moved i (dA n) (dF n) d) = Inr r" and "accounts_ok (accounts (moved i (dA n) (dF n) d))"
    and "0 \<le> availableBalance a + dA n" and "0 \<le> frozenBalance a + dF n"
proof -
  have a: "a \<in> set (accounts d)" and i: "acc_id a = i" using account_by_id_SomeD [OF assms(2)] by auto
  obtain c t where run: "stmt (acc_id a) n (accounts d) = Inr (c, t)" and c: "c \<noteq> 0"
    and k: "k (d\<lparr>accounts := t\<rparr>) = Inr r"
    using assms(4) by (auto simp: guarded_def i)
  note mv = moves [OF assms(1) a run c assms(3)]
  show "k (moved i (dA n) (dF n) d) = Inr r" using k mv(1) by (simp add: moved_def i)
  show "accounts_ok (accounts (moved i (dA n) (dF n) d))" using mv(1,4) by (simp add: i)
  show "0 \<le> availableBalance a + dA n" and "0 \<le> frozenBalance a + dF n" using mv(2,3) .
qed

end

lemma credit_account_Inr:
  assumes "accounts_ok (accounts d)" and "account_by_id i (accounts d) = Some a" and "0 \<le> n"
    and "credit_account i n d k = Inr r"
  shows "k (move n 0 a) (moved i n 0 d) = Inr r" and "accounts_ok (accounts (moved i n 0 d))"
proof -
  have a: "a \<in> set (accounts d)" and i: "acc_id a = i" using account_by_id_SomeD [OF assms(2)] by auto
  obtain b t where run: "acc_credit (acc_id a) n (accounts d) = Inr (b, t)"
    and k: "k b (d\<lparr>accounts := t\<rparr>) = Inr r"
    using assms(4) by (auto simp: credit_account_def i)
  note mv = credit.moves [OF assms(1) a acc_credit_statement [OF run] _ assms(3)]
  show "k (move n 0 a) (moved i n 0 d) = Inr r"
    using k acc_credit_row [OF assms(1) a run] mv(1) by (simp add: moved_def i)
  show "accounts_ok (accounts (moved i n 0 d))" using mv(1,4) by (simp add: i)
qed

lemma account_of_by_id:
  "accounts_ok t \<Longrightarrow> account_of u t = Some a \<Longrightarrow> account_by_id (acc_id a) t = Some a"
  using account_of_SomeD [of u t a] by (simp add: account_by_id_in)

text \<open>The statements as equations, where the balance suffices and the result fits the columns.\<close>

context balance_statement begin

lemma guarded_eq:
  assumes "accounts_ok (accounts d)" and "account_by_id i (accounts d) = Some a" and "0 \<le> n"
    and "\<exists>c t'. stmt i n (accounts d) = Inr (c, t') \<and> c \<noteq> 0"
  shows "guarded stmt err i n d k = k (moved i (dA n) (dF n) d)"
proof -
  have a: "a \<in> set (accounts d)" and i: "acc_id a = i" using account_by_id_SomeD [OF assms(2)] by auto
  obtain c t where run: "stmt (acc_id a) n (accounts d) = Inr (c, t)" and c: "c \<noteq> 0"
    using assms(4) by (auto simp: i)
  have "t = move_funds (acc_id a) (dA n) (dF n) (accounts d)"
    by (rule moves(1) [OF assms(1) a run c assms(3)])
  then show ?thesis using run c by (simp add: guarded_def moved_def i)
qed

end

lemma release_guarded:
  assumes "accounts_ok (accounts d)" and "account_by_id i (accounts d) = Some a" and "0 \<le> n"
    and "n \<le> frozenBalance a"
  shows "guarded acc_release err i n d k = k (moved i 0 (- n) d)"
  using release_enough [OF assms(1) _ assms(4,3)] account_by_id_SomeD [OF assms(2)]
  by (intro release.guarded_eq [OF assms(1-3)]) auto

lemma unfreeze_guarded:
  assumes "accounts_ok (accounts d)" and "account_by_id i (accounts d) = Some a" and "0 \<le> n"
    and "n \<le> frozenBalance a"
  shows "guarded acc_unfreeze err i n d k = k (moved i n (- n) d)"
  using unfreeze_enough [OF assms(1) _ assms(4,3)] account_by_id_SomeD [OF assms(2)]
  by (intro unfreeze.guarded_eq [OF assms(1-3)]) auto

lemma credit_account_eq:
  assumes "accounts_ok (accounts d)" and "account_by_id i (accounts d) = Some a" and "0 \<le> n"
    and "totalBalance a + n \<le> 2147483647"
  shows "credit_account i n d k = k (move n 0 a) (moved i n 0 d)"
proof -
  have "wf_account a" using account_by_id_SomeD [OF assms(2)] accounts_okD(3) [OF assms(1)] by blast
  then have fits: "acc_ok (a\<lparr>availableBalance := availableBalance a + n, totalBalance := totalBalance a + n\<rparr>)"
    using assms(3,4) by (auto simp: wf_account_def acc_ok_def int32_def)
  have eq: "(\<lambda>a. a\<lparr>availableBalance := availableBalance a + n, totalBalance := totalBalance a + n\<rparr>) = move n 0"
    by (auto simp: move_def)
  show ?thesis using assms(2) fits
    by (simp add: credit_account_def acc_credit_def updateOne_def account_by_id_def fun_cong [OF eq]
        moved_def move_funds_def eq)
qed

end
