(* ===== verification/RedisLocks.thy ===== *)
theory RedisLocks
  imports Balance
begin

text \<open>
  Redis as the services use it (redis/redis.service.ts): the distributed lock around a request and
  the sliding windows on sorted sets.

  \<open>withLock\<close> runs its function while the key is held and gives the key back afterwards, whether
  or not the function threw; a key held by somebody else makes the request fail before anything
  runs. Without Redis, production refuses and development runs the function without a lock. The
  expiry of a lock (30 seconds) is not modelled: a request is taken to finish in time.
  The Lua scripts of the sliding windows are one atomic step each.
\<close>

definition withLock :: "string \<Rightarrow> (world \<Rightarrow> (exn + 'a) \<times> world) \<Rightarrow> world \<Rightarrow> (exn + 'a) \<times> world" where
  "withLock key f w =
     (if \<not> redisEnabled w then
        (if production w then (Inl RedisMissing, w) else f w)
      else if key \<in> set (locks w) then (Inl LockNotAcquired, w)
      else (case f (w\<lparr>locks := key # locks w\<rparr>) of
              (r, w') \<Rightarrow> (r, w'\<lparr>locks := removeAll key (locks w')\<rparr>)))"

text \<open>What a lock leaves to its function: the database, seen as before.\<close>

lemma keeps_withLock [keep]:
  assumes "P (wdb w)" and "\<And>w'. wdb w' = wdb w \<Longrightarrow> keeps P (f w')"
  shows "keeps P (withLock key f w)"
proof -
  obtain r w' where run: "f (w\<lparr>locks := key # locks w\<rparr>) = (r, w')" by force
  have "keeps P (f (w\<lparr>locks := key # locks w\<rparr>))" by (rule assms(2)) simp
  moreover have "keeps P (f w)" by (rule assms(2)) simp
  ultimately show ?thesis using assms(1) by (simp add: withLock_def run keeps_def)
qed

lemma withLock_InrE:
  assumes "withLock key f w = (Inr r, w')"
  obtains w1 w2 where "wdb w1 = wdb w" "f w1 = (Inr r, w2)" "wdb w' = wdb w2"
proof -
  have "\<exists>w1 w2. wdb w1 = wdb w \<and> f w1 = (Inr r, w2) \<and> wdb w' = wdb w2"
  proof (cases "redisEnabled w")
    case True
    with assms obtain w2 where "f (w\<lparr>locks := key # locks w\<rparr>) = (Inr r, w2)" "wdb w' = wdb w2"
      by (auto simp: withLock_def split: if_splits prod.splits)
    then show ?thesis by (intro exI [of _ "w\<lparr>locks := key # locks w\<rparr>"] exI [of _ w2]) simp
  next
    case False
    with assms have "f w = (Inr r, w')" by (auto simp: withLock_def split: if_splits)
    then show ?thesis by blast
  qed
  with that show ?thesis by blast
qed

lemma fails_withLock [failing]:
  assumes "P (wdb w)" and "\<And>w'. wdb w' = wdb w \<Longrightarrow> fails P (f w')"
  shows "fails P (withLock key f w)"
proof -
  obtain r w' where run: "f (w\<lparr>locks := key # locks w\<rparr>) = (r, w')" by force
  have "fails P (f (w\<lparr>locks := key # locks w\<rparr>))" by (rule assms(2)) simp
  moreover have "fails P (f w)" by (rule assms(2)) simp
  ultimately show ?thesis using assms(1) by (simp add: withLock_def run fails_def)
qed

text \<open>A request that gets its lock: nobody holds the key, or the process runs without Redis outside production.\<close>

definition lock_free :: "string \<Rightarrow> world \<Rightarrow> bool" where
  "lock_free key w = (if redisEnabled w then key \<notin> set (locks w) else \<not> production w)"

lemma withLock_transaction:
  assumes "lock_free key w" and "f (wdb w) = Inr (x, d')"
  shows "withLock key (transaction f) w = (Inr x, w\<lparr>wdb := d'\<rparr>)"
  using assms by (auto simp: lock_free_def withLock_def transaction_def split: if_splits)

lemma withLock_free:
  assumes "lock_free key w"
  obtains v where "wdb v = wdb w" "production v = production w" "fst (withLock key f w) = fst (f v)"
    "wdb (snd (withLock key f w)) = wdb (snd (f v))"
proof (cases "redisEnabled w")
  case True
  then show ?thesis using assms that [of "w\<lparr>locks := key # locks w\<rparr>"]
    by (simp add: lock_free_def withLock_def split: prod.splits)
next
  case False
  then show ?thesis using assms that [of w] by (simp add: lock_free_def withLock_def)
qed

text \<open>The key is free again after the request, whatever its outcome.\<close>

lemma withLock_releases:
  assumes "redisEnabled w" and "key \<notin> set (locks w)"
  shows "key \<notin> set (locks (snd (withLock key f w)))"
  using assms by (auto simp: withLock_def split: prod.split)

subsection \<open>Sliding windows\<close>

definition zprune :: "int \<Rightarrow> (int \<times> string) list \<Rightarrow> (int \<times> string) list" where
  "zprune cutoff z = filter (\<lambda>(s, _). \<not> (0 \<le> s \<and> s \<le> cutoff)) z"

definition zadd :: "int \<Rightarrow> string \<Rightarrow> (int \<times> string) list \<Rightarrow> (int \<times> string) list" where
  "zadd s m z = filter (\<lambda>(_, m'). m' \<noteq> m) z @ [(s, m)]"

definition slidingWindowCheck ::
  "int \<Rightarrow> string \<Rightarrow> int \<Rightarrow> nat \<Rightarrow> string \<Rightarrow> world \<Rightarrow> (exn + bool) \<times> world" where
  "slidingWindowCheck t key windowMs limit member w =
     (if \<not> redisEnabled w then (Inl RedisMissing, w)
      else let z = zprune (t - windowMs) (zsets w key)
           in if limit \<le> length z then (Inr False, w\<lparr>zsets := (zsets w)(key := z)\<rparr>)
              else (Inr True, w\<lparr>zsets := (zsets w)(key := zadd t member z)\<rparr>))"

definition slidingWindowCount :: "int \<Rightarrow> string \<Rightarrow> int \<Rightarrow> world \<Rightarrow> (exn + nat) \<times> world" where
  "slidingWindowCount t key windowMs w =
     (if \<not> redisEnabled w then (Inl RedisMissing, w)
      else let z = zprune (t - windowMs) (zsets w key)
           in (Inr (length z), w\<lparr>zsets := (zsets w)(key := z)\<rparr>))"

definition slidingWindowRecord :: "int \<Rightarrow> string \<Rightarrow> int \<Rightarrow> string \<Rightarrow> world \<Rightarrow> (exn + unit) \<times> world" where
  "slidingWindowRecord t key windowMs member w =
     (if \<not> redisEnabled w then (Inl RedisMissing, w)
      else (Inr (), w\<lparr>zsets := (zsets w)(key := zadd t member (zprune (t - windowMs) (zsets w key)))\<rparr>))"

text \<open>The members of a window: those with a score after \<open>t - windowMs\<close>.\<close>

definition in_window :: "int \<Rightarrow> int \<Rightarrow> (int \<times> string) list \<Rightarrow> nat" where
  "in_window t windowMs z = length (filter (\<lambda>(s, _). t - windowMs < s) z)"

lemma zadd_length: "length (zadd s m z) \<le> Suc (length z)"
  by (simp add: zadd_def)

lemma slidingWindow_db [simp]:
  "wdb (snd (slidingWindowCheck t k ms l m w)) = wdb w"
  "wdb (snd (slidingWindowCount t k ms w)) = wdb w"
  "wdb (snd (slidingWindowRecord t k ms m w)) = wdb w"
  by (simp_all add: slidingWindowCheck_def slidingWindowCount_def slidingWindowRecord_def Let_def)

text \<open>
  The limiter: an admitted request leaves at most \<open>limit\<close> members in the window that ends now, its
  own among them; a request is refused only when the window already holds \<open>limit\<close> members.
\<close>

lemma slidingWindowCheck_admits:
  assumes "slidingWindowCheck t key windowMs limit member w = (Inr True, w')"
  shows "in_window t windowMs (zsets w' key) \<le> limit \<and> (t, member) \<in> set (zsets w' key)"
proof -
  let ?z = "zprune (t - windowMs) (zsets w key)"
  from assms have z: "zsets w' key = zadd t member ?z" and l: "length ?z < limit"
    by (auto simp: slidingWindowCheck_def Let_def split: if_splits)
  have "in_window t windowMs (zadd t member ?z) \<le> length (zadd t member ?z)"
    by (simp add: in_window_def)
  also have "\<dots> \<le> Suc (length ?z)" by (rule zadd_length)
  finally show ?thesis using l by (simp add: z zadd_def)
qed

lemma slidingWindowCheck_refuses:
  assumes "slidingWindowCheck t key windowMs limit member w = (Inr False, w')"
    and "\<forall>(s, m) \<in> set (zsets w key). 0 \<le> s"
  shows "limit \<le> in_window t windowMs (zsets w key)"
proof -
  have "zprune (t - windowMs) (zsets w key) = filter (\<lambda>(s, _). t - windowMs < s) (zsets w key)"
    using assms(2) unfolding zprune_def by (intro filter_cong) auto
  with assms(1) show ?thesis
    by (auto simp: slidingWindowCheck_def Let_def in_window_def split: if_splits)
qed


text \<open>
  The sliding-window limiter admits a request only when its window then holds at most the limit,
  the request among them, and refuses one only when the limit is already used up by requests that are
  still inside the window.
\<close>

theorem sliding_window_is_exact:
  assumes "slidingWindowCheck t key windowMs limit member w = (Inr ok, w')"
    and "\<forall>(s, m) \<in> set (zsets w key). 0 \<le> s"
  shows "(ok \<longrightarrow> in_window t windowMs (zsets w' key) \<le> limit \<and> (t, member) \<in> set (zsets w' key)) \<and>
    (\<not> ok \<longrightarrow> limit \<le> in_window t windowMs (zsets w key))"
proof (cases ok)
  case True
  with assms(1) show ?thesis by (simp add: slidingWindowCheck_admits)
next
  case False
  with assms show ?thesis using slidingWindowCheck_refuses by simp
qed

theorem sliding_window_is_exact_witness:
  "in_window 900 100 (zsets (snd (slidingWindowCheck 900 ''k'' 100 2 ''m'' empty_world)) ''k'') \<le> 2"
proof -
  have "slidingWindowCheck 900 ''k'' 100 2 ''m'' empty_world =
    (Inr True, snd (slidingWindowCheck 900 ''k'' 100 2 ''m'' empty_world))"
    by (simp add: slidingWindowCheck_def empty_world_def zprune_def)
  from sliding_window_is_exact [OF this] show ?thesis by (simp add: empty_world_def)
qed

end
