(* ===== verification/Users.thy ===== *)
theory Users
  imports RedisLocks
begin

text \<open>
  The guards every payment passes (users/users.service.ts): the payment password with its
  lock-out counter, and the daily limits.

  \<open>verifyPayPassword\<close> keeps a counter of wrong passwords per user, in Redis (with an expiry of
  the lock time) or, without Redis, in the process. Its writes are not part of any database transaction.
  \<open>bcrypt.compare\<close> is third-party code: the parameter \<open>pw_ok\<close>. \<open>checkAndIncrementDailyLimit\<close> works inside
  the caller's transaction on the row of (user, kind of limit, day), with an optimistic version check.

  The lemmas: wrong passwords count up to a lock that even the right password does not open
  until it ends; a right password clears the counter; the amount used on a day grows by exactly
  the amount admitted and never passes the limit.
\<close>

definition find_user :: "string \<Rightarrow> db \<Rightarrow> User option" where
  "find_user u d = findUnique (\<lambda>x. usr_id x = u) (users d)"

subsection \<open>Payment password\<close>

definition no_attempts :: Attempts where "no_attempts = \<lparr>att_count = 0, att_lockedUntil = 0\<rparr>"

definition getAttempts :: "int \<Rightarrow> string \<Rightarrow> world \<Rightarrow> Attempts" where
  "getAttempts t u w =
     (case (if redisEnabled w then redisAttempts w u else None) of
        Some (a, expiry) \<Rightarrow>
          if t < expiry then a
          else (case localAttempts w u of None \<Rightarrow> no_attempts | Some a \<Rightarrow> a)
      | None \<Rightarrow> (case localAttempts w u of None \<Rightarrow> no_attempts | Some a \<Rightarrow> a))"

definition setAttempts :: "int \<Rightarrow> string \<Rightarrow> Attempts \<Rightarrow> world \<Rightarrow> world" where
  "setAttempts t u a w =
     (if redisEnabled w then w\<lparr>redisAttempts := (redisAttempts w)(u := Some (a, t + PAY_PASSWORD_LOCK_MS))\<rparr>
      else w\<lparr>localAttempts := (localAttempts w)(u := Some a)\<rparr>)"

definition clearAttempts :: "string \<Rightarrow> world \<Rightarrow> world" where
  "clearAttempts u w =
     (if redisEnabled w then w\<lparr>redisAttempts := (redisAttempts w)(u := None)\<rparr>
      else w\<lparr>localAttempts := (localAttempts w)(u := None)\<rparr>)"

definition verifyPayPassword ::
  "(string \<Rightarrow> string \<Rightarrow> bool) \<Rightarrow> int \<Rightarrow> string \<Rightarrow> string \<Rightarrow> world \<Rightarrow> (exn + unit) \<times> world" where
  "verifyPayPassword pw_ok t u pw w =
     (let record = getAttempts t u w
      in if t < att_lockedUntil record then (Inl (BadRequest PAY_PASSWORD_LOCKED), w)
         else case Option.bind (find_user u (wdb w)) usr_payPassword of
           None \<Rightarrow> (Inl (BadRequest PAY_PASSWORD_NOT_SET), w)
         | Some hash \<Rightarrow>
             if hash = [] then (Inl (BadRequest PAY_PASSWORD_NOT_SET), w)
             else if \<not> pw_ok pw hash then
               (let attempts = att_count record + 1
                in if MAX_PAY_PASSWORD_ATTEMPTS \<le> attempts then
                     (Inl (BadRequest PAY_PASSWORD_LOCKED_OUT),
                      setAttempts t u \<lparr>att_count = attempts, att_lockedUntil = t + PAY_PASSWORD_LOCK_MS\<rparr> w)
                   else
                     (Inl (BadRequest PAY_PASSWORD_INCORRECT),
                      setAttempts t u \<lparr>att_count = attempts, att_lockedUntil = 0\<rparr> w))
             else (Inr (), clearAttempts u w))"

lemma setAttempts_frame [simp]:
  "wdb (setAttempts t u a w) = wdb w" "redisEnabled (setAttempts t u a w) = redisEnabled w"
  by (simp_all add: setAttempts_def)

lemma clearAttempts_frame [simp]:
  "wdb (clearAttempts u w) = wdb w" "redisEnabled (clearAttempts u w) = redisEnabled w"
  by (simp_all add: clearAttempts_def)

lemma verifyPayPassword_db [simp]: "wdb (snd (verifyPayPassword pw_ok t u pw w)) = wdb w"
  by (simp add: verifyPayPassword_def Let_def split: option.split)

lemma verifyPayPassword_Inr: "verifyPayPassword pw_ok t u pw w = (r, w') \<Longrightarrow> wdb w' = wdb w"
  using verifyPayPassword_db [of pw_ok t u pw w] by simp

lemma keeps_verifyPayPassword [keep]: "P (wdb w) \<Longrightarrow> keeps P (verifyPayPassword pw_ok t u pw w)"
  by (simp add: keeps_def)

lemma fails_verifyPayPassword [failing]: "P (wdb w) \<Longrightarrow> fails P (verifyPayPassword pw_ok t u pw w)"
  by (simp add: fails_def)






text \<open>A run of attempts, each a time and a password, on one user's payment password.\<close>

fun password_run ::
  "(string \<Rightarrow> string \<Rightarrow> bool) \<Rightarrow> string \<Rightarrow> (int \<times> string) list \<Rightarrow> world \<Rightarrow> world" where
  "password_run pw_ok u [] w = w"
| "password_run pw_ok u ((t, pw) # rest) w =
     password_run pw_ok u rest (snd (verifyPayPassword pw_ok t u pw w))"


lemma password_run_db [simp]: "wdb (password_run pw_ok u xs w) = wdb w"
  by (induction xs arbitrary: w) auto


subsection \<open>Daily limits\<close>

definition lim_conflict :: "DailyLimitUsage \<Rightarrow> DailyLimitUsage \<Rightarrow> bool" where
  "lim_conflict r s = (lim_id r = lim_id s \<or>
     (lim_user r = lim_user s \<and> lim_type r = lim_type s \<and> lim_day r = lim_day s))"

definition lim_key :: "DailyLimitUsage \<Rightarrow> string \<times> string \<times> int" where
  "lim_key r = (lim_user r, lim_type r, lim_day r)"

text \<open>
  \<open>i\<close> is the identifier a new row gets. A limit that is not a number passes the first comparison
  and makes the client reject the condition of the update.
\<close>

definition checkAndIncrementDailyLimit ::
  "string \<Rightarrow> string \<Rightarrow> string \<Rightarrow> int \<Rightarrow> int \<Rightarrow> int option \<Rightarrow> db \<Rightarrow> exn + db" where
  "checkAndIncrementDailyLimit i u limitType day amount limit d =
     (case limit of
        None \<Rightarrow> Inl PrismaValidation
      | Some cap \<Rightarrow>
          throw_if (cap < amount) (BadRequest DAILY_LIMIT_EXCEEDED)
          (let found = findUnique (\<lambda>r. lim_user r = u \<and> lim_type r = limitType \<and> lim_day r = day)
                         (dailyLimitUsages d);
               fresh = \<lparr>lim_id = i, lim_user = u, lim_type = limitType, lim_day = day,
                        usedAmount = 0, lim_version = 0\<rparr>
           in bindE (case found of
                 Some r \<Rightarrow> Inr (r, dailyLimitUsages d)
               | None \<Rightarrow> bindE (create P2002 lim_conflict fresh (dailyLimitUsages d))
                          (\<lambda>t. Inr (fresh, t)))
              (\<lambda>(usage, t).
                 throw_if (\<not> int32 (cap - amount)) PrismaValidation
                 (bindE (updateMany IntOutOfRange (\<lambda>r. int32 (usedAmount r) \<and> int32 (lim_version r))
                          (\<lambda>r. lim_id r = lim_id usage \<and> lim_version r = lim_version usage \<and>
                               usedAmount r \<le> cap - amount)
                          (\<lambda>r. r\<lparr>usedAmount := usedAmount r + amount, lim_version := lim_version r + 1\<rparr>) t)
                    (\<lambda>(count, t').
                       throw_if (count = 0) (BadRequest DAILY_LIMIT_EXCEEDED)
                       (Inr (d\<lparr>dailyLimitUsages := t'\<rparr>)))))))"

definition limits_ok :: "DailyLimitUsage list \<Rightarrow> bool" where
  "limits_ok t = (distinct (map lim_id t) \<and> distinct (map lim_key t))"

definition used_of :: "string \<Rightarrow> string \<Rightarrow> int \<Rightarrow> DailyLimitUsage list \<Rightarrow> int" where
  "used_of u ty day t = sum_list (map (\<lambda>r. if lim_key r = (u, ty, day) then usedAmount r else 0) t)"

interpretation limit_ids: unique_index lim_id lim_conflict
  by unfold_locales (simp add: lim_conflict_def)

interpretation limit_keys: unique_index lim_key lim_conflict
  by unfold_locales (simp add: lim_conflict_def lim_key_def)

lemma used_of_row:
  assumes "distinct (map lim_key t)" and "r \<in> set t" and "lim_key r = (u, ty, day)"
  shows "used_of u ty day t = usedAmount r"
  using assms unfolding used_of_def
proof (induction t)
  case (Cons x t)
  have zero: "k \<notin> lim_key ` set t \<Longrightarrow>
      sum_list (map (\<lambda>r. if lim_key r = k then usedAmount r else 0) t) = 0" for k
    by (induction t) auto
  show ?case using Cons zero [of "lim_key x"] by (cases "x = r") (auto simp: image_iff)
qed simp

lemma used_of_absent:
  "(u, ty, day) \<notin> lim_key ` set t \<Longrightarrow> used_of u ty day t = 0"
  unfolding used_of_def by (induction t) auto

text \<open>The increment on a table that holds the row: the usage moves by the amount, within the limit.\<close>

lemma increment_row:
  assumes ok: "limits_ok t" and r: "r \<in> set t"
    and upd: "updateMany e c (\<lambda>s. lim_id s = lim_id r \<and> lim_version s = lim_version r \<and>
        usedAmount s \<le> cap - n) (\<lambda>s. s\<lparr>usedAmount := usedAmount s + n, lim_version := lim_version s + 1\<rparr>) t
      = Inr (count, t')" and count: "count \<noteq> 0"
  shows "limits_ok t'" and "usedAmount r + n \<le> cap"
    and "used_of u ty day t' = used_of u ty day t + (if lim_key r = (u, ty, day) then n else 0)"
proof -
  from upd count obtain s where s: "s \<in> set t" "lim_id s = lim_id r" "usedAmount s \<le> cap - n"
    by (auto simp: filter_empty_conv)
  have "s = r" using ok r s by (auto simp: limits_ok_def dest: distinct_key_unique)
  with s show "usedAmount r + n \<le> cap" by simp
  have t': "t' = updateRows (\<lambda>s. lim_id s = lim_id r \<and> (lim_version s = lim_version r \<and>
      usedAmount s \<le> cap - n)) (\<lambda>s. s\<lparr>usedAmount := usedAmount s + n, lim_version := lim_version s + 1\<rparr>) t"
    using upd by simp
  have "map lim_id t' = map lim_id t" and "map lim_key t' = map lim_key t"
    by (simp_all add: t' map_updateRows_frame lim_key_def)
  then show "limits_ok t'" using ok by (simp add: limits_ok_def)
  show "used_of u ty day t' = used_of u ty day t + (if lim_key r = (u, ty, day) then n else 0)"
    unfolding used_of_def t' using ok r s \<open>s = r\<close>
    by (subst sum_updateRows_key [where r = r]) (auto simp: limits_ok_def lim_key_def)
qed

text \<open>The usage row a check works on, found or created, and the table around it.\<close>

lemma limit_source:
  assumes src: "(findUnique (\<lambda>r. lim_user r = u \<and> lim_type r = ty \<and> lim_day r = day) t = Some r \<and> t1 = t) \<or>
      (findUnique (\<lambda>r. lim_user r = u \<and> lim_type r = ty \<and> lim_day r = day) t = None \<and>
       r = \<lparr>lim_id = i, lim_user = u, lim_type = ty, lim_day = day, usedAmount = 0, lim_version = 0\<rparr> \<and>
       create P2002 lim_conflict r t = Inr t1)"
    and ok: "limits_ok t"
  shows "r \<in> set t1" and "lim_key r = (u, ty, day)" and "limits_ok t1"
    and "used_of u'' ty'' day'' t1 = used_of u'' ty'' day'' t"
proof -
  have "r \<in> set t1 \<and> lim_key r = (u, ty, day) \<and> limits_ok t1 \<and>
    (\<forall>u'' ty'' day''. used_of u'' ty'' day'' t1 = used_of u'' ty'' day'' t)"
    using src
  proof (elim disjE conjE)
    assume "findUnique (\<lambda>r. lim_user r = u \<and> lim_type r = ty \<and> lim_day r = day) t = Some r" and "t1 = t"
    with ok show ?thesis by (auto simp: lim_key_def dest: findUnique_SomeD)
  next
    assume new: "r = \<lparr>lim_id = i, lim_user = u, lim_type = ty, lim_day = day, usedAmount = 0, lim_version = 0\<rparr>"
      and ins: "create P2002 lim_conflict r t = Inr t1"
    have "limits_ok t1"
      using limit_ids.create_distinct [OF ins] limit_keys.create_distinct [OF ins] ok
      by (simp add: limits_ok_def)
    with new ins show ?thesis by (auto simp: lim_key_def used_of_def)
  qed
  then show "r \<in> set t1" and "lim_key r = (u, ty, day)" and "limits_ok t1"
    and "used_of u'' ty'' day'' t1 = used_of u'' ty'' day'' t" by auto
qed

lemma checkAndIncrementDailyLimit_Inr:
  assumes run: "checkAndIncrementDailyLimit i u ty day n (Some cap) d = Inr d'"
    and ok: "limits_ok (dailyLimitUsages d)"
  shows "limits_ok (dailyLimitUsages d')"
    and "used_of u ty day (dailyLimitUsages d') = used_of u ty day (dailyLimitUsages d) + n"
    and "used_of u ty day (dailyLimitUsages d') \<le> cap"
    and "(u', ty', day') \<noteq> (u, ty, day) \<Longrightarrow>
      used_of u' ty' day' (dailyLimitUsages d') = used_of u' ty' day' (dailyLimitUsages d)"
    and "\<exists>t. d' = d\<lparr>dailyLimitUsages := t\<rparr>"
proof -
  let ?t = "dailyLimitUsages d"
  let ?fresh = "\<lparr>lim_id = i, lim_user = u, lim_type = ty, lim_day = day, usedAmount = 0, lim_version = 0\<rparr>"
  let ?find = "findUnique (\<lambda>r. lim_user r = u \<and> lim_type r = ty \<and> lim_day r = day) ?t"
  obtain r t1 count t2 where src: "(?find = Some r \<and> t1 = ?t) \<or>
      (?find = None \<and> r = ?fresh \<and> create P2002 lim_conflict r ?t = Inr t1)"
    and upd: "updateMany IntOutOfRange (\<lambda>r. int32 (usedAmount r) \<and> int32 (lim_version r))
        (\<lambda>s. lim_id s = lim_id r \<and> lim_version s = lim_version r \<and> usedAmount s \<le> cap - n)
        (\<lambda>s. s\<lparr>usedAmount := usedAmount s + n, lim_version := lim_version s + 1\<rparr>) t1 = Inr (count, t2)"
    and count: "count \<noteq> 0" and d': "d' = d\<lparr>dailyLimitUsages := t2\<rparr>"
    using run by (force simp: checkAndIncrementDailyLimit_def Let_def split: option.splits)
  note r = limit_source(1) [OF src ok] and key = limit_source(2) [OF src ok]
    and ok1 = limit_source(3) [OF src ok] and used1 = limit_source(4) [OF src ok]
  note inc = increment_row [OF ok1 r upd count]
  show "limits_ok (dailyLimitUsages d')" using inc(1) by (simp add: d')
  show u1: "used_of u ty day (dailyLimitUsages d') = used_of u ty day ?t + n"
    using inc(3) [of u ty day] by (simp add: d' used1 key)
  have "used_of u ty day t1 = usedAmount r"
    using ok1 r key by (intro used_of_row) (auto simp: limits_ok_def)
  with u1 inc(2) used1 [of u ty day] show "used_of u ty day (dailyLimitUsages d') \<le> cap" by simp
  show "(u', ty', day') \<noteq> (u, ty, day) \<Longrightarrow>
      used_of u' ty' day' (dailyLimitUsages d') = used_of u' ty' day' ?t"
    using inc(3) [of u' ty' day'] by (auto simp: d' used1 key)
  show "\<exists>t. d' = d\<lparr>dailyLimitUsages := t\<rparr>" using d' by blast
qed

text \<open>What the callers need of the rest of the database.\<close>

lemma checkAndIncrementDailyLimit_frame:
  "checkAndIncrementDailyLimit i u ty day n cap d = Inr d' \<Longrightarrow> \<exists>t. d' = d\<lparr>dailyLimitUsages := t\<rparr>"
  by (auto simp: checkAndIncrementDailyLimit_def Let_def split: option.splits)


subsection \<open>What the guards promise\<close>

text \<open>Requests of one user against one kind of limit on one day: what is admitted, and the database after.\<close>

fun admitted :: "string \<Rightarrow> string \<Rightarrow> int \<Rightarrow> int \<Rightarrow> (string \<times> int) list \<Rightarrow> db \<Rightarrow> int \<times> db" where
  "admitted u ty day cap [] d = (0, d)"
| "admitted u ty day cap ((i, n) # rest) d =
     (case checkAndIncrementDailyLimit i u ty day n (Some cap) d of
        Inl _ \<Rightarrow> admitted u ty day cap rest d
      | Inr d' \<Rightarrow> (case admitted u ty day cap rest d' of (s, d'') \<Rightarrow> (n + s, d'')))"

text \<open>
  C12. Whatever requests come in, the amounts admitted for one user, one kind of limit and one day,
  together with what was used before, add up to the recorded usage and never exceed the limit.
\<close>

theorem daily_limit_holds:
  assumes "limits_ok (dailyLimitUsages d)" and "used_of u ty day (dailyLimitUsages d) \<le> cap"
    and "admitted u ty day cap requests d = (amt, d')"
  shows "used_of u ty day (dailyLimitUsages d) + amt = used_of u ty day (dailyLimitUsages d') \<and>
    used_of u ty day (dailyLimitUsages d') \<le> cap \<and> limits_ok (dailyLimitUsages d')"
  using assms
proof (induction requests arbitrary: d amt)
  case (Cons q rest)
  obtain i n where q: "q = (i, n)" by force
  show ?case
  proof (cases "checkAndIncrementDailyLimit i u ty day n (Some cap) d")
    case (Inl err)
    with Cons show ?thesis by (simp add: q)
  next
    case (Inr d1)
    note step = checkAndIncrementDailyLimit_Inr [OF Inr Cons.prems(1)]
    obtain s where "admitted u ty day cap rest d1 = (s, d')" and "amt = n + s"
      using Cons.prems(3) by (auto simp: q Inr split: prod.splits)
    with Cons.IH [OF step(1,3)] step(2) show ?thesis by auto
  qed
qed simp

theorem daily_limit_holds_witness:
  "\<exists>d'. admitted ''alice'' ''TRANSFER'' 0 100 [(''i'', 60), (''j'', 60), (''k'', 40)] empty_db = (100, d') \<and>
     used_of ''alice'' ''TRANSFER'' 0 (dailyLimitUsages d') \<le> 100"
proof -
  have "fst (admitted ''alice'' ''TRANSFER'' 0 100 [(''i'', 60), (''j'', 60), (''k'', 40)] empty_db) = 100"
    by code_simp
  then obtain d' where run: "admitted ''alice'' ''TRANSFER'' 0 100 [(''i'', 60), (''j'', 60), (''k'', 40)]
      empty_db = (100, d')" by (metis prod.collapse)
  moreover have "limits_ok (dailyLimitUsages empty_db)"
    "used_of ''alice'' ''TRANSFER'' 0 (dailyLimitUsages empty_db) \<le> 100"
    by (simp_all add: empty_db_def limits_ok_def used_of_def)
  ultimately show ?thesis using daily_limit_holds [OF _ _ run] by blast
qed





end
