(* ===== verification/Risk.thy ===== *)
theory Risk
  imports Users
begin

text \<open>
  The risk rule engine (risk/risk-engine.service.ts): rules from built-in defaults and
  configuration, cached for a minute; a check that evaluates the enabled rules before a payment;
  and the record of a successful payment in the sliding windows.

  \<open>check\<close> runs on the service's own database connection, outside the caller's transaction, so the
  risk event of a blocked request is kept although the request fails. \<open>recordTransaction\<close> is started
  without being awaited and its errors are only logged; here it runs after the caller's commit.
  The rule cache is the one of the process that serves the request: every process has its own, and \<open>clearCache\<close> empties only
  that of the process it runs in (\<open>Admin.stale_rules_elsewhere\<close> is about the others).
  The lemmas say which requests the built-in rules let through, and that a check touches
  nothing in the database but the risk events.
\<close>

record RiskCheckContext =
  ctx_user :: string
  ctx_type :: TransactionType
  ctx_amount :: int
  ctx_ip :: "string option"

record Triggered =
  trg_code :: string
  trg_name :: string
  trg_action :: string

record RiskCheckResult =
  passed :: bool
  blocked :: bool
  needsReview :: bool
  trg_rules :: "Triggered list"

definition CACHE_TTL_MS :: int where "CACHE_TTL_MS = 60000"
definition IP_BLACKLIST_TTL_MS :: int where "IP_BLACKLIST_TTL_MS = 60000"

subsection \<open>Loading the rules\<close>

definition default_rule :: "string \<Rightarrow> string \<Rightarrow> RiskRule" where
  "default_rule code action = \<lparr>rule_code = code, rule_name = code, rule_enabled = True, rule_action = action,
     maxAmount = None, maxDailyCount = None, maxDailyAmount = None,
     windowSeconds = None, windowMaxCount = None\<rparr>"

definition DEFAULT_RULES :: "RiskRule list" where
  "DEFAULT_RULES =
     [(default_rule ''single_amount'' ''BLOCK'')\<lparr>maxAmount := Some DEFAULT_TRANSFER_DAILY_LIMIT_CENTS\<rparr>,
      (default_rule ''daily_count'' ''BLOCK'')\<lparr>maxDailyCount := Some 50\<rparr>,
      (default_rule ''daily_amount'' ''BLOCK'')\<lparr>maxDailyAmount := Some (200000 * 100)\<rparr>,
      (default_rule ''frequency'' ''WARN'')\<lparr>windowSeconds := Some 60, windowMaxCount := Some 10\<rparr>,
      default_rule ''ip_blacklist'' ''BLOCK'',
      (default_rule ''ip_frequency'' ''BLOCK'')\<lparr>windowSeconds := Some 60, windowMaxCount := Some 20\<rparr>]"

text \<open>\<open>{ ...existing, ...custom, params: { ...existing.params, ...custom.params } }\<close>\<close>

definition over :: "'a option \<Rightarrow> 'a option \<Rightarrow> 'a option" where
  "over new old = (case new of None \<Rightarrow> old | Some x \<Rightarrow> Some x)"

definition merge_rule :: "RiskRule \<Rightarrow> RulePatch \<Rightarrow> RiskRule" where
  "merge_rule r p =
     \<lparr>rule_code = (case patch_code p of None \<Rightarrow> rule_code r | Some x \<Rightarrow> x),
      rule_name = (case patch_name p of None \<Rightarrow> rule_name r | Some x \<Rightarrow> x),
      rule_enabled = (case patch_enabled p of None \<Rightarrow> rule_enabled r | Some x \<Rightarrow> x),
      rule_action = (case patch_action p of None \<Rightarrow> rule_action r | Some x \<Rightarrow> x),
      maxAmount = over (patch_maxAmount p) (maxAmount r),
      maxDailyCount = over (patch_maxDailyCount p) (maxDailyCount r),
      maxDailyAmount = over (patch_maxDailyAmount p) (maxDailyAmount r),
      windowSeconds = over (patch_windowSeconds p) (windowSeconds r),
      windowMaxCount = over (patch_windowMaxCount p) (windowMaxCount r)\<rparr>"

text \<open>A configured rule that overrides none: fields it lacks are undefined, hence falsy.\<close>

definition custom_rule :: "RulePatch \<Rightarrow> RiskRule" where
  "custom_rule p = merge_rule (default_rule [] []\<lparr>rule_name := [], rule_enabled := False\<rparr>) p"

definition is_risk_key :: "string \<Rightarrow> bool" where "is_risk_key k = (take 10 k = ''risk_rule:'')"

fun set_rule :: "string \<Rightarrow> RiskRule \<Rightarrow> (string \<times> RiskRule) list \<Rightarrow> (string \<times> RiskRule) list" where
  "set_rule c r [] = [(c, r)]"
| "set_rule c r ((k, v) # m) = (if k = c then (k, r) # m else (k, v) # set_rule c r m)"

fun merge_configs :: "SystemConfig list \<Rightarrow> (string \<times> RiskRule) list \<Rightarrow> (string \<times> RiskRule) list" where
  "merge_configs [] m = m"
| "merge_configs (c # cs) m =
     (let code = drop 10 (cfg_key c)
      in merge_configs cs
        (case cfg_json c of
           JsonInvalid \<Rightarrow> m
         | JsonArray xs \<Rightarrow> m
         | JsonRule p \<Rightarrow> (case map_of m code of
               Some existing \<Rightarrow> set_rule code (merge_rule existing p) m
             | None \<Rightarrow> set_rule code (custom_rule p) m)))"

definition loadAllRules :: "int \<Rightarrow> world \<Rightarrow> RiskRule list \<times> world" where
  "loadAllRules t w =
     (if cacheLoaded w \<and> t < cacheExpiry w then (ruleCache w, w)
      else let configs = filter (\<lambda>c. is_risk_key (cfg_key c)) (systemConfigs (wdb w));
               rules = map snd (merge_configs configs (map (\<lambda>r. (rule_code r, r)) DEFAULT_RULES))
           in (rules, w\<lparr>ruleCache := rules, cacheLoaded := True, cacheExpiry := t + CACHE_TTL_MS\<rparr>))"

definition loadRules :: "int \<Rightarrow> world \<Rightarrow> RiskRule list \<times> world" where
  "loadRules t w = (case loadAllRules t w of (all, w') \<Rightarrow> (filter rule_enabled all, w'))"

definition clearCache :: "world \<Rightarrow> world" where
  "clearCache w = w\<lparr>cacheLoaded := False, ruleCache := [], ipBlacklistCache := [], ipBlacklistExpiry := 0\<rparr>"

subsection \<open>Applying one rule\<close>

text \<open>JavaScript truth of an optional number.\<close>

definition set_num :: "int option \<Rightarrow> bool" where
  "set_num x = (case x of None \<Rightarrow> False | Some n \<Rightarrow> n \<noteq> 0)"

definition num :: "int option \<Rightarrow> int" where "num x = (case x of None \<Rightarrow> 0 | Some n \<Rightarrow> n)"

definition window_of :: "RiskRule \<Rightarrow> int" where
  "window_of r = (if set_num (windowSeconds r) then num (windowSeconds r) else 60)"

definition type_name :: "TransactionType \<Rightarrow> string" where
  "type_name ty = (case ty of
      TransactionType.RECHARGE \<Rightarrow> ''RECHARGE'' | TransactionType.WITHDRAW \<Rightarrow> ''WITHDRAW''
    | TransactionType.TRANSFER \<Rightarrow> ''TRANSFER'' | TransactionType.PAYMENT \<Rightarrow> ''PAYMENT''
    | TransactionType.REFUND \<Rightarrow> ''REFUND'' | TransactionType.RED_PACKET \<Rightarrow> ''RED_PACKET'')"

definition show_int :: "int \<Rightarrow> string" where
  "show_int n = (if n < 0 then CHR ''-'' # show_nat (nat (- n)) else show_nat (nat n))"

definition user_key :: "string \<Rightarrow> TransactionType \<Rightarrow> int \<Rightarrow> string" where
  "user_key u ty ws = ''risk:freq:'' @ u @ '':'' @ type_name ty @ '':'' @ show_int ws"

definition ip_key :: "string \<Rightarrow> int \<Rightarrow> string" where
  "ip_key ip ws = ''risk:ipfreq:'' @ ip @ '':'' @ show_int ws"

text \<open>The successful orders of one type that a user took part in since a time.\<close>

definition orders_since :: "string \<Rightarrow> TransactionType \<Rightarrow> int \<Rightarrow> db \<Rightarrow> TransactionOrder list" where
  "orders_since u ty since d =
     filter (\<lambda>o'. (tx_from o' = Some u \<or> tx_to o' = Some u) \<and> tx_type o' = ty \<and>
                  since \<le> tx_createdAt o' \<and> tx_status o' = TransactionStatus.SUCCESS)
       (transactionOrders d)"

definition getDailyCount :: "int \<Rightarrow> string \<Rightarrow> TransactionType \<Rightarrow> db \<Rightarrow> int" where
  "getDailyCount t u ty d = int (length (orders_since u ty (utc_day t * DAY_MS) d))"

definition getDailyAmount :: "int \<Rightarrow> string \<Rightarrow> TransactionType \<Rightarrow> db \<Rightarrow> int" where
  "getDailyAmount t u ty d = sum_list (map tx_amount (orders_since u ty (utc_day t * DAY_MS) d))"

definition getWindowCount :: "int \<Rightarrow> string \<Rightarrow> TransactionType \<Rightarrow> int \<Rightarrow> world \<Rightarrow> (exn + nat) \<times> world" where
  "getWindowCount t u ty ws w =
     (if redisEnabled w then slidingWindowCount t (user_key u ty ws) (ws * 1000) w
      else (Inr (length (orders_since u ty (t - ws * 1000) (wdb w))), w))"

definition getIpWindowCount :: "int \<Rightarrow> string \<Rightarrow> int \<Rightarrow> world \<Rightarrow> (exn + nat) \<times> world" where
  "getIpWindowCount t ip ws w =
     (if \<not> redisEnabled w then (Inl RedisMissing, w)
      else slidingWindowCount t (ip_key ip ws) (ws * 1000) w)"

definition loadIpBlacklist :: "int \<Rightarrow> world \<Rightarrow> string list \<times> world" where
  "loadIpBlacklist t w =
     (if t < ipBlacklistExpiry w \<and> ipBlacklistCache w \<noteq> [] then (ipBlacklistCache w, w)
      else let ips = (case findUnique (\<lambda>c. cfg_key c = ''risk_rule:ip_blacklist'') (systemConfigs (wdb w)) of
                        None \<Rightarrow> []
                      | Some c \<Rightarrow> (case cfg_json c of JsonArray xs \<Rightarrow> xs | _ \<Rightarrow> []))
           in (ips, w\<lparr>ipBlacklistCache := ips, ipBlacklistExpiry := t + IP_BLACKLIST_TTL_MS\<rparr>))"

definition triggered :: "RiskRule \<Rightarrow> bool \<Rightarrow> Triggered option" where
  "triggered r c = (if c then Some \<lparr>trg_code = rule_code r, trg_name = rule_name r, trg_action = rule_action r\<rparr>
                    else None)"

definition ip_of :: "RiskCheckContext \<Rightarrow> string" where
  "ip_of ctx = (case ctx_ip ctx of None \<Rightarrow> [] | Some ip \<Rightarrow> ip)"

text \<open>The rules on the amount and the day, which only read the database.\<close>

definition apply_amount_rule :: "int \<Rightarrow> RiskRule \<Rightarrow> RiskCheckContext \<Rightarrow> db \<Rightarrow> Triggered option" where
  "apply_amount_rule t r ctx d =
     (if rule_code r = ''single_amount'' then
        triggered r (set_num (maxAmount r) \<and> num (maxAmount r) < ctx_amount ctx)
      else if rule_code r = ''daily_count'' then
        triggered r (set_num (maxDailyCount r) \<and>
          num (maxDailyCount r) \<le> getDailyCount t (ctx_user ctx) (ctx_type ctx) d)
      else if rule_code r = ''daily_amount'' then
        triggered r (set_num (maxDailyAmount r) \<and>
          num (maxDailyAmount r) < getDailyAmount t (ctx_user ctx) (ctx_type ctx) d + ctx_amount ctx)
      else None)"

definition over_window :: "RiskRule \<Rightarrow> nat \<Rightarrow> bool" where
  "over_window r n = (set_num (windowMaxCount r) \<and> num (windowMaxCount r) \<le> int n)"

definition applyRule ::
  "int \<Rightarrow> RiskRule \<Rightarrow> RiskCheckContext \<Rightarrow> world \<Rightarrow> (exn + Triggered option) \<times> world" where
  "applyRule t r ctx w =
     (if rule_code r = ''frequency'' then
        andThen (getWindowCount t (ctx_user ctx) (ctx_type ctx) (window_of r) w)
          (\<lambda>n w. (Inr (triggered r (over_window r n)), w))
      else if rule_code r = ''ip_blacklist'' then
        (if ip_of ctx = [] then (Inr None, w)
         else case loadIpBlacklist t w of (ips, w') \<Rightarrow> (Inr (triggered r (ip_of ctx \<in> set ips)), w'))
      else if rule_code r = ''ip_frequency'' then
        (if ip_of ctx = [] then (Inr None, w)
         else andThen (getIpWindowCount t (ip_of ctx) (window_of r) w)
           (\<lambda>n w. (Inr (triggered r (over_window r n)), w)))
      else (Inr (apply_amount_rule t r ctx (wdb w)), w))"

subsection \<open>The check\<close>

fun check_rules ::
  "int \<Rightarrow> RiskCheckContext \<Rightarrow> RiskRule list \<Rightarrow> Triggered list \<Rightarrow> world \<Rightarrow> (exn + Triggered list) \<times> world" where
  "check_rules t ctx [] acc w = (Inr acc, w)"
| "check_rules t ctx (r # rs) acc w =
     andThen (applyRule t r ctx w)
       (\<lambda>x w. check_rules t ctx rs (case x of None \<Rightarrow> acc | Some y \<Rightarrow> acc @ [y]) w)"

definition mapEventTypeByCtx :: "TransactionType \<Rightarrow> RiskEventType" where
  "mapEventTypeByCtx ty = (case ty of
      TransactionType.TRANSFER \<Rightarrow> LARGE_TRANSFER
    | TransactionType.WITHDRAW \<Rightarrow> LARGE_WITHDRAWAL
    | TransactionType.PAYMENT \<Rightarrow> LARGE_PAYMENT
    | TransactionType.RED_PACKET \<Rightarrow> SUSPICIOUS_RED_PACKET
    | _ \<Rightarrow> LARGE_TRANSFER)"

definition mapBlockEventType :: "RiskCheckContext \<Rightarrow> Triggered list \<Rightarrow> RiskEventType" where
  "mapBlockEventType ctx rs =
     (if list_ex (\<lambda>r. trg_code r \<in> {''frequency'', ''ip_frequency''}) rs then FREQUENT_TRANSACTION
      else mapEventTypeByCtx (ctx_type ctx))"

definition has_action :: "string \<Rightarrow> Triggered list \<Rightarrow> bool" where
  "has_action a rs = list_ex (\<lambda>r. trg_action r = a) rs"

definition add_event :: "string \<Rightarrow> RiskEventType \<Rightarrow> RiskLevel \<Rightarrow> db \<Rightarrow> db" where
  "add_event u ty lvl d = d\<lparr>riskEvents := riskEvents d @ [\<lparr>ev_user = u, ev_type = ty, ev_level = lvl\<rparr>]\<rparr>"

definition risk_check :: "int \<Rightarrow> RiskCheckContext \<Rightarrow> world \<Rightarrow> (exn + RiskCheckResult) \<times> world" where
  "risk_check t ctx w =
     (case loadRules t w of (rules, w1) \<Rightarrow>
        andThen (check_rules t ctx rules [] w1)
          (\<lambda>rs w2.
             let blk = has_action ''BLOCK'' rs; rev = has_action ''REVIEW'' rs;
                 d1 = (if blk then add_event (ctx_user ctx) (mapBlockEventType ctx rs) HIGH (wdb w2) else wdb w2);
                 d2 = (if rev then add_event (ctx_user ctx) (mapEventTypeByCtx (ctx_type ctx)) HIGH d1 else d1)
             in (Inr \<lparr>passed = \<not> blk, blocked = blk, needsReview = rev, trg_rules = rs\<rparr>, w2\<lparr>wdb := d2\<rparr>)))"

text \<open>What every caller does with it: \<open>if (riskResult.blocked) throw new ForbiddenException(...)\<close>.\<close>

definition risk_guard :: "int \<Rightarrow> RiskCheckContext \<Rightarrow> world \<Rightarrow> (exn + unit) \<times> world" where
  "risk_guard t ctx w =
     andThen (risk_check t ctx w)
       (\<lambda>r w. (if blocked r then Inl (Forbidden FORBIDDEN) else Inr (), w))"

subsection \<open>Recording a successful transaction\<close>

fun record_windows :: "int \<Rightarrow> RiskCheckContext \<Rightarrow> string \<Rightarrow> int list \<Rightarrow> world \<Rightarrow> (exn + unit) \<times> world" where
  "record_windows t ctx m [] w = (Inr (), w)"
| "record_windows t ctx m (ws # rest) w =
     andThen (slidingWindowRecord t (user_key (ctx_user ctx) (ctx_type ctx) ws) (ws * 1000) m w)
       (\<lambda>_ w. andThen
          (if ip_of ctx = [] then (Inr (), w)
           else slidingWindowRecord t (ip_key (ip_of ctx) ws) (ws * 1000) m w)
          (\<lambda>_ w. record_windows t ctx m rest w))"

definition frequency_windows :: "RiskRule list \<Rightarrow> int list" where
  "frequency_windows rules =
     (let ws = rev (remdups (rev (map window_of
                (filter (\<lambda>r. rule_enabled r \<and> rule_code r \<in> {''frequency'', ''ip_frequency''}) rules))))
      in if ws = [] then [60] else ws)"

definition recordTransaction :: "int \<Rightarrow> string \<Rightarrow> RiskCheckContext \<Rightarrow> world \<Rightarrow> (exn + unit) \<times> world" where
  "recordTransaction t i ctx w =
     (if \<not> redisEnabled w then (Inr (), w)
      else case loadRules t w of (rules, w1) \<Rightarrow>
        record_windows t ctx (show_int t @ ''-'' @ i @ ''-'' @ type_name (ctx_type ctx))
          (frequency_windows rules) w1)"

text \<open>Started without \<open>await\<close>, an error is only logged.\<close>

definition record_quietly :: "int \<Rightarrow> string \<Rightarrow> RiskCheckContext \<Rightarrow> 'a \<Rightarrow> world \<Rightarrow> (exn + 'a) \<times> world" where
  "record_quietly t i ctx x w = (Inr x, snd (recordTransaction t i ctx w))"

subsection \<open>Frame\<close>

lemma loadAllRules_frame [simp]: "wdb (snd (loadAllRules t w)) = wdb w"
  by (simp add: loadAllRules_def Let_def)

lemma loadRules_frame [simp]: "wdb (snd (loadRules t w)) = wdb w"
  by (simp add: loadRules_def case_prod_unfold)

lemma getWindowCount_db [simp]: "wdb (snd (getWindowCount t u ty ws w)) = wdb w"
  by (simp add: getWindowCount_def)

lemma getIpWindowCount_db [simp]: "wdb (snd (getIpWindowCount t ip ws w)) = wdb w"
  by (simp add: getIpWindowCount_def)

lemma loadIpBlacklist_db [simp]: "wdb (snd (loadIpBlacklist t w)) = wdb w"
  by (simp add: loadIpBlacklist_def Let_def)

lemma andThen_db:
  assumes "wdb (snd m) = d" and "\<And>a w. m = (Inr a, w) \<Longrightarrow> wdb w = d \<Longrightarrow> wdb (snd (k a w)) = d"
  shows "wdb (snd (andThen m k)) = d"
  using andThen_preserves [where P = "\<lambda>w. wdb w = d", OF assms(1) assms(2)] .

lemma applyRule_db [simp]: "wdb (snd (applyRule t r ctx w)) = wdb w"
  by (auto simp: applyRule_def case_prod_unfold intro!: andThen_db)

lemma check_rules_db [simp]: "wdb (snd (check_rules t ctx rs acc w)) = wdb w"
proof (induction rs arbitrary: acc w)
  case (Cons r rs)
  show ?case by (simp, rule andThen_db) (simp_all add: Cons)
qed simp

lemma record_windows_db [simp]: "wdb (snd (record_windows t ctx m ws w)) = wdb w"
proof (induction ws arbitrary: w)
  case (Cons x ws)
  show ?case
    by (simp only: record_windows.simps, intro andThen_db) (auto simp: Cons)
qed simp

lemma recordTransaction_db [simp]: "wdb (snd (recordTransaction t i ctx w)) = wdb w"
  by (simp add: recordTransaction_def case_prod_unfold)

lemma record_quietly_db [simp]:
  "wdb (snd (record_quietly t i ctx x w)) = wdb w" "fst (record_quietly t i ctx x w) = Inr x"
  by (simp_all add: record_quietly_def)

text \<open>A check adds risk events to the database and changes nothing else in it.\<close>

lemma risk_check_frame: "\<exists>evs. wdb (snd (risk_check t ctx w)) = wdb w\<lparr>riskEvents := evs\<rparr>"
proof -
  obtain rules w1 where r: "loadRules t w = (rules, w1)" by force
  then have w1: "wdb w1 = wdb w" using loadRules_frame [of t w] by simp
  obtain x w2 where c: "check_rules t ctx rules [] w1 = (x, w2)" by force
  then have w2: "wdb w2 = wdb w" using check_rules_db [of t ctx rules "[]" w1] w1 by simp
  have "\<exists>evs. wdb w = wdb w\<lparr>riskEvents := evs\<rparr>" by (rule exI [of _ "riskEvents (wdb w)"]) simp
  then show ?thesis
    by (cases x) (auto simp: risk_check_def r c w2 Let_def add_event_def)
qed

lemma risk_guard_frame: "\<exists>evs. wdb (snd (risk_guard t ctx w)) = wdb w\<lparr>riskEvents := evs\<rparr>"
proof -
  obtain x w2 where c: "risk_check t ctx w = (x, w2)" by force
  then show ?thesis using risk_check_frame [of t ctx w] by (cases x) (auto simp: risk_guard_def)
qed

lemma risk_guard_Inr: "risk_guard t ctx w = (r, w') \<Longrightarrow> \<exists>evs. wdb w' = wdb w\<lparr>riskEvents := evs\<rparr>"
  using risk_guard_frame [of t ctx w] by simp

text \<open>A property of the database that does not look at the risk events survives the guard.\<close>

definition ignores_events :: "(db \<Rightarrow> bool) \<Rightarrow> bool" where
  "ignores_events P = (\<forall>d evs. P d \<longrightarrow> P (d\<lparr>riskEvents := evs\<rparr>))"

lemma ignores_eventsD: "ignores_events P \<Longrightarrow> P d \<Longrightarrow> P (d\<lparr>riskEvents := evs\<rparr>)"
  by (simp add: ignores_events_def)

lemma keeps_risk_guard [keep]: "ignores_events P \<Longrightarrow> P (wdb w) \<Longrightarrow> keeps P (risk_guard t ctx w)"
  using risk_guard_frame [of t ctx w] by (auto simp: ignores_events_def keeps_def)

lemma keeps_record_quietly [keep]: "P (wdb w) \<Longrightarrow> keeps P (record_quietly t i ctx x w)"
  by (simp add: keeps_def)

lemma fails_risk_guard [failing]: "ignores_events P \<Longrightarrow> P (wdb w) \<Longrightarrow> fails P (risk_guard t ctx w)"
  using risk_guard_frame [of t ctx w] by (auto simp: ignores_events_def fails_def)

lemma fails_record_quietly [failing]: "fails P (record_quietly t i ctx x w)"
  by (simp add: fails_def)

subsection \<open>What the rules let through\<close>

definition amount_rule :: "RiskRule \<Rightarrow> bool" where
  "amount_rule r = (rule_code r \<in> {''single_amount'', ''daily_count'', ''daily_amount''})"

lemma applyRule_amount:
  "amount_rule r \<Longrightarrow> applyRule t r ctx w = (Inr (apply_amount_rule t r ctx (wdb w)), w)"
  by (auto simp: applyRule_def amount_rule_def)

text \<open>Every rule that triggers is in the result, with everything collected before it.\<close>

lemma check_rules_collects:
  assumes "check_rules t ctx rs acc w = (Inr out, w')"
  shows "set acc \<subseteq> set out"
    and "r \<in> set rs \<Longrightarrow> amount_rule r \<Longrightarrow> apply_amount_rule t r ctx (wdb w) = Some x \<Longrightarrow> x \<in> set out"
proof -
  have "set acc \<subseteq> set out \<and>
    (\<forall>r \<in> set rs. amount_rule r \<longrightarrow> (\<forall>x. apply_amount_rule t r ctx (wdb w) = Some x \<longrightarrow> x \<in> set out))"
    using assms
  proof (induction rs arbitrary: acc w)
    case (Cons r rs)
    then obtain y w1 where y: "applyRule t r ctx w = (Inr y, w1)"
      and rest: "check_rules t ctx rs (case y of None \<Rightarrow> acc | Some y \<Rightarrow> acc @ [y]) w1 = (Inr out, w')"
      by auto
    have w1: "wdb w1 = wdb w" using applyRule_db [of t r ctx w] by (simp add: y)
    from Cons.IH [OF rest] have
      IH: "set (case y of None \<Rightarrow> acc | Some y \<Rightarrow> acc @ [y]) \<subseteq> set out"
      "\<forall>r \<in> set rs. amount_rule r \<longrightarrow> (\<forall>x. apply_amount_rule t r ctx (wdb w) = Some x \<longrightarrow> x \<in> set out)"
      by (simp_all add: w1)
    moreover have "x \<in> set out" if "amount_rule r" "apply_amount_rule t r ctx (wdb w) = Some x" for x
    proof -
      have "y = Some x" using y that by (simp add: applyRule_amount)
      with IH(1) show ?thesis by simp
    qed
    ultimately show ?case by (auto split: option.splits)
  qed simp
  then show "set acc \<subseteq> set out"
    and "r \<in> set rs \<Longrightarrow> amount_rule r \<Longrightarrow> apply_amount_rule t r ctx (wdb w) = Some x \<Longrightarrow> x \<in> set out"
    by auto
qed

lemma check_not_blocked:
  assumes "risk_check t ctx w = (Inr res, w')" and "\<not> blocked res"
    and "loadRules t w = (rules, w1)" and "r \<in> set rules" and "rule_action r = ''BLOCK''" and "amount_rule r"
  shows "apply_amount_rule t r ctx (wdb w) = None"
proof (rule ccontr)
  assume "apply_amount_rule t r ctx (wdb w) \<noteq> None"
  then obtain x where x: "apply_amount_rule t r ctx (wdb w) = Some x" by blast
  then have act: "trg_action x = ''BLOCK''" using assms(5)
    by (auto simp: apply_amount_rule_def triggered_def split: if_splits)
  have w1: "wdb w1 = wdb w" using loadRules_frame [of t w] by (simp add: assms(3))
  obtain out w2 where out: "check_rules t ctx rules [] w1 = (Inr out, w2)"
    and res: "blocked res = has_action ''BLOCK'' out"
    using assms(1,3) by (auto simp: risk_check_def Let_def)
  have "x \<in> set out" using check_rules_collects(2) [OF out assms(4,6)] x by (simp add: w1)
  with act have "has_action ''BLOCK'' out" by (auto simp: has_action_def list_ex_iff)
  with res assms(2) show False by simp
qed

text \<open>Without configuration the rules are the built-in ones.\<close>

lemma loadRules_default:
  assumes "\<not> cacheLoaded w" and "\<forall>c \<in> set (systemConfigs (wdb w)). \<not> is_risk_key (cfg_key c)"
  shows "fst (loadRules t w) = DEFAULT_RULES"
proof -
  have "filter (\<lambda>c. is_risk_key (cfg_key c)) (systemConfigs (wdb w)) = []"
    using assms(2) by (simp add: filter_empty_conv)
  then show ?thesis
    using assms(1) by (simp add: loadRules_def loadAllRules_def Let_def DEFAULT_RULES_def default_rule_def)
qed

text \<open>
  C14. What passes the built-in rules: a payment that the risk check lets through on a platform without
  configured rules is at most 50,000 yuan, is not after fifty successful ones of the user and kind that day,
  and keeps the day's sum within 200,000 yuan; the check changes nothing in the database but risk events.
\<close>

theorem default_rules_bound:
  assumes "risk_guard t ctx w = (Inr (), w')" and "\<not> cacheLoaded w"
    and "\<forall>c \<in> set (systemConfigs (wdb w)). \<not> is_risk_key (cfg_key c)"
  shows "ctx_amount ctx \<le> 5000000 \<and> getDailyCount t (ctx_user ctx) (ctx_type ctx) (wdb w) < 50 \<and>
    getDailyAmount t (ctx_user ctx) (ctx_type ctx) (wdb w) + ctx_amount ctx \<le> 20000000 \<and>
    (\<exists>evs. wdb w' = wdb w\<lparr>riskEvents := evs\<rparr>)"
proof -
  obtain res w2 where run: "risk_check t ctx w = (Inr res, w2)" and nb: "\<not> blocked res"
    using assms(1) by (auto simp: risk_guard_def split: if_splits)
  obtain rules w1 where r: "loadRules t w = (rules, w1)" by force
  then have rules: "rules = DEFAULT_RULES" using loadRules_default [OF assms(2,3), of t] by simp
  have none: "apply_amount_rule t r ctx (wdb w) = None" if "r \<in> set DEFAULT_RULES" "rule_action r = ''BLOCK''" "amount_rule r" for r
    using check_not_blocked [OF run nb r] that by (simp add: rules)
  let ?r1 = "(default_rule ''single_amount'' ''BLOCK'')\<lparr>maxAmount := Some DEFAULT_TRANSFER_DAILY_LIMIT_CENTS\<rparr>"
  let ?r2 = "(default_rule ''daily_count'' ''BLOCK'')\<lparr>maxDailyCount := Some 50\<rparr>"
  let ?r3 = "(default_rule ''daily_amount'' ''BLOCK'')\<lparr>maxDailyAmount := Some (200000 * 100)\<rparr>"
  have "apply_amount_rule t ?r1 ctx (wdb w) = None" "apply_amount_rule t ?r2 ctx (wdb w) = None"
    "apply_amount_rule t ?r3 ctx (wdb w) = None"
    by (intro none; simp add: DEFAULT_RULES_def amount_rule_def default_rule_def)+
  with risk_guard_Inr [OF assms(1)] show ?thesis
    by (simp add: apply_amount_rule_def default_rule_def triggered_def set_num_def num_def
        DEFAULT_TRANSFER_DAILY_LIMIT_CENTS_def split: if_splits)
qed

theorem default_rules_bound_witness:
  "\<exists>w'. risk_guard 500 \<lparr>ctx_user = ''carol'', ctx_type = TransactionType.TRANSFER, ctx_amount = 1200, ctx_ip = None\<rparr>
       empty_world = (Inr (), w') \<and>
     getDailyCount 500 ''carol'' TransactionType.TRANSFER empty_db < 50"
proof -
  have "isl (fst (risk_guard 500 \<lparr>ctx_user = ''carol'', ctx_type = TransactionType.TRANSFER,
      ctx_amount = 1200, ctx_ip = None\<rparr> empty_world)) = False" by code_simp
  from not_isl_fst [OF this] obtain w' where run: "risk_guard 500 \<lparr>ctx_user = ''carol'', ctx_type = TransactionType.TRANSFER,
      ctx_amount = 1200, ctx_ip = None\<rparr> empty_world = (Inr (), w')"
    by auto
  from default_rules_bound [OF this] run show ?thesis by (auto simp: empty_world_def empty_db_def)
qed

end
