(* ===== verification/Orders.thy ===== *)
theory Orders
  imports Risk
begin

text \<open>
  The rows every payment leaves behind: the transaction order with its unique keys, the
  account ledger, the bills of both sides. The services create them with the same calls; the
  ledger rows state the balance before and after, and \<open>ledger_ok\<close> is what they must satisfy.
\<close>

definition tx_conflict :: "TransactionOrder \<Rightarrow> TransactionOrder \<Rightarrow> bool" where
  "tx_conflict r s = (tx_id r = tx_id s \<or> tx_orderNo r = tx_orderNo s \<or>
     (tx_idem r \<noteq> None \<and> tx_idem r = tx_idem s))"

definition createOrder :: "TransactionOrder \<Rightarrow> db \<Rightarrow> exn + db" where
  "createOrder r d =
     bindE (create P2002 tx_conflict r (transactionOrders d)) (\<lambda>t. Inr (d\<lparr>transactionOrders := t\<rparr>))"

definition add_ledger :: "AccountLedger \<Rightarrow> db \<Rightarrow> db" where
  "add_ledger l d = d\<lparr>accountLedgers := accountLedgers d @ [l]\<rparr>"

definition add_bill :: "Bill \<Rightarrow> db \<Rightarrow> db" where
  "add_bill b d = d\<lparr>bills := bills d @ [b]\<rparr>"

text \<open>\<open>if (x)\<close> on an optional text: the empty text is false.\<close>

definition truthy :: "string option \<Rightarrow> bool" where
  "truthy x = (case x of None \<Rightarrow> False | Some s \<Rightarrow> s \<noteq> [])"

definition key_or :: "string \<Rightarrow> string option \<Rightarrow> string \<Rightarrow> string" where
  "key_or pre x other = (if truthy x then pre @ the x else other)"

definition remark_or_default :: "string option \<Rightarrow> Remark" where
  "remark_or_default x = (if truthy x then UserRemark (the x) else DefaultRemark)"

definition find_tx_idem :: "string \<Rightarrow> db \<Rightarrow> TransactionOrder option" where
  "find_tx_idem k d = findUnique (\<lambda>r. tx_idem r = Some k) (transactionOrders d)"

definition orders_ok :: "TransactionOrder list \<Rightarrow> bool" where
  "orders_ok t = list_all (\<lambda>r. 0 \<le> tx_amount r) t"

text \<open>A ledger row: credit takes the amount out of the balance, debit and the settlement's \<open>IN\<close> put it in.\<close>

definition ledger_ok :: "AccountLedger \<Rightarrow> bool" where
  "ledger_ok l = (led_after l = led_before l +
     (case led_direction l of DEBIT \<Rightarrow> led_amount l | CREDIT \<Rightarrow> - led_amount l | IN \<Rightarrow> led_amount l))"

definition ledgers_ok :: "db \<Rightarrow> bool" where
  "ledgers_ok d = list_all ledger_ok (accountLedgers d)"

lemma ledgers_ok_frame [simp]:
  "ledgers_ok (d\<lparr>accounts := xa\<rparr>) = ledgers_ok d" "ledgers_ok (d\<lparr>transactionOrders := xt\<rparr>) = ledgers_ok d"
  "ledgers_ok (d\<lparr>bills := xb\<rparr>) = ledgers_ok d" "ledgers_ok (d\<lparr>dailyLimitUsages := xl\<rparr>) = ledgers_ok d"
  "ledgers_ok (d\<lparr>riskEvents := xr\<rparr>) = ledgers_ok d" "ledgers_ok (d\<lparr>escrowOrders := xe\<rparr>) = ledgers_ok d"
  "ledgers_ok (d\<lparr>redPackets := xp\<rparr>) = ledgers_ok d" "ledgers_ok (d\<lparr>redPacketRecords := xq\<rparr>) = ledgers_ok d"
  "ledgers_ok (d\<lparr>withdrawalOrders := xw\<rparr>) = ledgers_ok d" "ledgers_ok (moved i x y d) = ledgers_ok d"
  by (simp_all add: ledgers_ok_def)

lemma add_rows_frame [simp]:
  "accounts (add_ledger l d) = accounts d" "accounts (add_bill b d) = accounts d"
  "accounts (add_event u ty lvl d) = accounts d"
  "ledgers_ok (add_ledger l d) = (ledgers_ok d \<and> ledger_ok l)" "ledgers_ok (add_bill b d) = ledgers_ok d"
  "ledgers_ok (add_event u ty lvl d) = ledgers_ok d"
  by (auto simp: add_ledger_def add_bill_def add_event_def ledgers_ok_def)

lemma add_rows_tables [simp]:
  "escrowOrders (add_ledger l d) = escrowOrders d" "redPackets (add_ledger l d) = redPackets d"
  "withdrawalOrders (add_ledger l d) = withdrawalOrders d" "platformAccounts (add_ledger l d) = platformAccounts d"
  "journalEntries (add_ledger l d) = journalEntries d"
  "transactionOrders (add_ledger l d) = transactionOrders d"
  "escrowOrders (add_bill b d) = escrowOrders d" "redPackets (add_bill b d) = redPackets d"
  "withdrawalOrders (add_bill b d) = withdrawalOrders d" "platformAccounts (add_bill b d) = platformAccounts d"
  "journalEntries (add_bill b d) = journalEntries d"
  "transactionOrders (add_bill b d) = transactionOrders d"
  "escrowOrders (add_event u ty lvl d) = escrowOrders d" "redPackets (add_event u ty lvl d) = redPackets d"
  "withdrawalOrders (add_event u ty lvl d) = withdrawalOrders d"
  "platformAccounts (add_event u ty lvl d) = platformAccounts d"
  "journalEntries (add_event u ty lvl d) = journalEntries d"
  "transactionOrders (add_event u ty lvl d) = transactionOrders d"
  by (simp_all add: add_ledger_def add_bill_def add_event_def)

interpretation tx_ids: unique_index tx_id tx_conflict
  by unfold_locales (simp add: tx_conflict_def)

interpretation tx_numbers: unique_index tx_orderNo tx_conflict
  by unfold_locales (simp add: tx_conflict_def)

lemma createOrder_Inr:
  "createOrder r d = Inr d' \<longleftrightarrow>
     (\<forall>s \<in> set (transactionOrders d). \<not> tx_conflict r s) \<and>
     d' = d\<lparr>transactionOrders := transactionOrders d @ [r]\<rparr>"
  by (auto simp: createOrder_def)

subsection \<open>What the guards of the users service check\<close>

definition may_spend :: "User \<Rightarrow> bool" where
  "may_spend x = (usr_status x \<noteq> UserStatus.FROZEN \<and> usr_status x \<noteq> UserStatus.EXPENSE_RESTRICTED)"

definition may_receive :: "User \<Rightarrow> bool" where
  "may_receive x = (usr_status x \<noteq> UserStatus.FROZEN \<and> usr_status x \<noteq> UserStatus.INCOME_RESTRICTED)"

definition verified :: "User \<Rightarrow> bool" where
  "verified x = (usr_realName x = RealNameStatus.VERIFIED)"

text \<open>The tables of the orders that hold frozen money are left alone.\<close>

definition same_holdings :: "db \<Rightarrow> db \<Rightarrow> bool" where
  "same_holdings d d' = (escrowOrders d' = escrowOrders d \<and> redPackets d' = redPackets d \<and>
     withdrawalOrders d' = withdrawalOrders d)"

end
