(* ===== verification/Journal.thy ===== *)
theory Journal
  imports Balance
begin

text \<open>
  Double-entry book-keeping (finance/journal.service.ts): \<open>createEntries\<close> refuses an unbalanced
  group of entries, appends the group to the journal and moves the balance of every platform
  account the group names by its debits minus its credits. Codes of the form \<open>USER:<id>\<close> stand for
  users and have no platform account.

  The lemmas: the whole journal stays balanced, and the sum of the platform balances moves by the
  net of the platform entries, which for a balanced group is what the users are credited less what
  they are debited.
\<close>

record JournalEntryInput =
  in_journalId :: string
  in_accountCode :: string
  in_debit :: "int option"
  in_credit :: "int option"

definition or0 :: "int option \<Rightarrow> int" where "or0 x = (case x of None \<Rightarrow> 0 | Some n \<Rightarrow> n)"

definition is_user_code :: "string \<Rightarrow> bool" where "is_user_code c = (take 5 c = ''USER:'')"

definition user_code :: "string \<Rightarrow> string" where "user_code u = ''USER:'' @ u"

definition entry_row :: "JournalEntryInput \<Rightarrow> JournalEntry" where
  "entry_row e = \<lparr>je_journal = in_journalId e, je_account = in_accountCode e,
     je_debit = or0 (in_debit e), je_credit = or0 (in_credit e)\<rparr>"

definition entry_delta :: "JournalEntryInput \<Rightarrow> int" where
  "entry_delta e = or0 (in_debit e) - or0 (in_credit e)"

text \<open>A JavaScript \<open>Map\<close> keeps the position of a key that is set again.\<close>

fun map_add :: "string \<Rightarrow> int \<Rightarrow> (string \<times> int) list \<Rightarrow> (string \<times> int) list" where
  "map_add c x [] = [(c, x)]"
| "map_add c x ((k, v) # m) = (if k = c then (k, v + x) # m else (k, v) # map_add c x m)"

fun platform_deltas :: "(string \<times> int) list \<Rightarrow> JournalEntryInput list \<Rightarrow> (string \<times> int) list" where
  "platform_deltas m [] = m"
| "platform_deltas m (e # es) =
     (if is_user_code (in_accountCode e) then platform_deltas m es
      else platform_deltas (map_add (in_accountCode e) (entry_delta e) m) es)"

fun apply_deltas :: "(string \<times> int) list \<Rightarrow> PlatformAccount list \<Rightarrow> exn + PlatformAccount list" where
  "apply_deltas [] t = Inr t"
| "apply_deltas ((code, delta) # m) t =
     (if delta = 0 then apply_deltas m t
      else bindE (updateOne P2025 IntOutOfRange (\<lambda>p. int32 (pa_balance p)) (\<lambda>p. pa_code p = code)
                   (\<lambda>p. p\<lparr>pa_balance := pa_balance p + delta\<rparr>) t)
             (\<lambda>(_, t'). apply_deltas m t'))"

definition createEntries :: "JournalEntryInput list \<Rightarrow> db \<Rightarrow> exn + db" where
  "createEntries entries d =
     (let totalDebit = sum_list (map (\<lambda>e. or0 (in_debit e)) entries);
          totalCredit = sum_list (map (\<lambda>e. or0 (in_credit e)) entries)
      in throw_if (totalDebit \<noteq> totalCredit) (PlainError JOURNAL_UNBALANCED)
         (bindE (apply_deltas (platform_deltas [] entries) (platformAccounts d))
            (\<lambda>t. Inr (d\<lparr>journalEntries := journalEntries d @ map entry_row entries,
                        platformAccounts := t\<rparr>))))"

definition getPlatformAccountBalance :: "string \<Rightarrow> db \<Rightarrow> int" where
  "getPlatformAccountBalance code d =
     (case findUnique (\<lambda>p. pa_code p = code) (platformAccounts d) of
        None \<Rightarrow> 0 | Some p \<Rightarrow> pa_balance p)"

fun seed_accounts :: "string list \<Rightarrow> PlatformAccount list \<Rightarrow> PlatformAccount list" where
  "seed_accounts [] t = t"
| "seed_accounts (c # cs) t =
     seed_accounts cs
       (if findUnique (\<lambda>p. pa_code p = c) t = None then t @ [\<lparr>pa_code = c, pa_balance = 0\<rparr>] else t)"

definition seedPlatformAccounts :: "db \<Rightarrow> db" where
  "seedPlatformAccounts d = d\<lparr>platformAccounts :=
     seed_accounts [''REVENUE_FEE'', ''CHANNEL_FUND'', ''MERCHANT_PAYABLE''] (platformAccounts d)\<rparr>"

subsection \<open>Balance of the journal\<close>

definition journal_balance :: "db \<Rightarrow> int" where
  "journal_balance d = sum_list (map (\<lambda>j. je_debit j - je_credit j) (journalEntries d))"

definition platform_total :: "db \<Rightarrow> int" where
  "platform_total d = sum_list (map pa_balance (platformAccounts d))"

definition platform_net :: "JournalEntryInput list \<Rightarrow> int" where
  "platform_net es = sum_list (map entry_delta (filter (\<lambda>e. \<not> is_user_code (in_accountCode e)) es))"

definition user_net :: "JournalEntryInput list \<Rightarrow> int" where
  "user_net es = sum_list (map entry_delta (filter (\<lambda>e. is_user_code (in_accountCode e)) es))"

lemma is_user_code_user [simp]: "is_user_code (user_code u)"
  by (simp add: is_user_code_def user_code_def)

lemma sum_map_add: "sum_list (map snd (map_add c x m)) = sum_list (map snd m) + x"
  by (induction c x m rule: map_add.induct) auto

lemma sum_platform_deltas:
  "sum_list (map snd (platform_deltas m es)) = sum_list (map snd m) + platform_net es"
  by (induction m es rule: platform_deltas.induct) (auto simp: platform_net_def sum_map_add)

lemma apply_deltas_sum:
  assumes "apply_deltas m t = Inr t'" and "distinct (map pa_code t)"
  shows "sum_list (map pa_balance t') = sum_list (map pa_balance t) + sum_list (map snd m)
    \<and> map pa_code t' = map pa_code t"
  using assms
proof (induction m t arbitrary: t' rule: apply_deltas.induct)
  case (2 code delta m t)
  show ?case
  proof (cases "delta = 0")
    case True
    with 2 show ?thesis by simp
  next
    case False
    with "2.prems" obtain p where p: "findUnique (\<lambda>p. pa_code p = code) t = Some p"
      and rest: "apply_deltas m (updateRows (\<lambda>p. pa_code p = code)
        (\<lambda>p. p\<lparr>pa_balance := pa_balance p + delta\<rparr>) t) = Inr t'" (is "apply_deltas m ?u = _")
      and ok: "int32 (pa_balance (p\<lparr>pa_balance := pa_balance p + delta\<rparr>))"
      by auto
    have codes: "map pa_code ?u = map pa_code t" by (simp add: map_updateRows_frame)
    from "2.IH"(2) [OF False rest] codes "2.prems"(2)
    have "sum_list (map pa_balance t') = sum_list (map pa_balance ?u) + sum_list (map snd m)"
      and "map pa_code t' = map pa_code t" by simp_all
    moreover have "sum_list (map pa_balance ?u) = sum_list (map pa_balance t) + delta"
      using findUnique_SomeD [OF p] "2.prems"(2)
      by (subst sum_updateRows_key' [of pa_code t p code]) auto
    ultimately show ?thesis by simp
  qed
qed simp

lemma createEntries_Inr:
  assumes "createEntries es d = Inr d'" and "distinct (map pa_code (platformAccounts d))"
  shows "platform_total d' = platform_total d + platform_net es"
    and "platform_net es = - user_net es"
    and "journal_balance d' = journal_balance d"
    and "map pa_code (platformAccounts d') = map pa_code (platformAccounts d)"
    and "\<exists>js ps. d' = d\<lparr>journalEntries := js, platformAccounts := ps\<rparr>"
proof -
  from assms(1) obtain t where t: "apply_deltas (platform_deltas [] es) (platformAccounts d) = Inr t"
    and bal: "sum_list (map (\<lambda>e. or0 (in_debit e)) es) = sum_list (map (\<lambda>e. or0 (in_credit e)) es)"
    and d': "d' = d\<lparr>journalEntries := journalEntries d @ map entry_row es, platformAccounts := t\<rparr>"
    by (auto simp: createEntries_def Let_def)
  from apply_deltas_sum [OF t assms(2)] sum_platform_deltas [of "[]" es]
  show "platform_total d' = platform_total d + platform_net es"
    and "map pa_code (platformAccounts d') = map pa_code (platformAccounts d)"
    by (simp_all add: platform_total_def d')
  have net: "sum_list (map entry_delta es) = 0"
    using bal by (simp add: entry_delta_def [abs_def] sum_list_subtractf)
  have "sum_list (map entry_delta es) = platform_net es + user_net es"
    unfolding platform_net_def user_net_def by (induction es) auto
  with net show "platform_net es = - user_net es" by simp
  have "sum_list (map (\<lambda>e. je_debit (entry_row e) - je_credit (entry_row e)) es) = 0"
    using net by (simp add: entry_row_def entry_delta_def [abs_def])
  then show "journal_balance d' = journal_balance d"
    by (simp add: journal_balance_def d' o_def)
  show "\<exists>js ps. d' = d\<lparr>journalEntries := js, platformAccounts := ps\<rparr>" using d' by blast
qed

subsection \<open>Runs of postings\<close>

text \<open>Groups of entries posted one after the other, the refused ones left out, and the net of the users.\<close>

fun post_all :: "JournalEntryInput list list \<Rightarrow> db \<Rightarrow> int \<times> db" where
  "post_all [] d = (0, d)"
| "post_all (es # gs) d =
     (case createEntries es d of
        Inl _ \<Rightarrow> post_all gs d
      | Inr d' \<Rightarrow> (case post_all gs d' of (s, d'') \<Rightarrow> (user_net es + s, d'')))"

text \<open>
  Double entry: whatever groups of entries are posted, balanced or not, the journal's debits and credits
  stay as balanced as they were, and the platform accounts together lose exactly what the user side
  of the accepted groups gains.
\<close>

theorem journal_stays_balanced:
  assumes "post_all groups d = (net, d')" and "distinct (map pa_code (platformAccounts d))"
  shows "journal_balance d' = journal_balance d \<and> platform_total d' + net = platform_total d"
  using assms
proof (induction groups arbitrary: d net)
  case (Cons es gs)
  show ?case
  proof (cases "createEntries es d")
    case (Inl err)
    with Cons show ?thesis by simp
  next
    case (Inr d1)
    note je = createEntries_Inr [OF Inr Cons.prems(2)]
    obtain s where "post_all gs d1 = (s, d')" and "net = user_net es + s"
      using Cons.prems(1) by (auto simp: Inr split: prod.splits)
    moreover have "distinct (map pa_code (platformAccounts d1))" using je(4) Cons.prems(2) by simp
    ultimately show ?thesis using Cons.IH [of d1 s] je(1-3) by simp
  qed
qed simp

definition sample_group :: "int \<Rightarrow> int \<Rightarrow> JournalEntryInput list" where
  "sample_group n m =
     [\<lparr>in_journalId = ''J'', in_accountCode = ''CHANNEL_FUND'', in_debit = Some n, in_credit = None\<rparr>,
      \<lparr>in_journalId = ''J'', in_accountCode = user_code ''u'', in_debit = None, in_credit = Some m\<rparr>]"

theorem journal_stays_balanced_witness:
  "platform_total (snd (post_all [sample_group 5 5, sample_group 7 8] (seedPlatformAccounts empty_db))) = 5"
proof -
  have run: "post_all [sample_group 5 5, sample_group 7 8] (seedPlatformAccounts empty_db) =
      (- 5, snd (post_all [sample_group 5 5, sample_group 7 8] (seedPlatformAccounts empty_db)))"
    by (simp add: prod_eq_iff) code_simp
  have "distinct (map pa_code (platformAccounts (seedPlatformAccounts empty_db)))" by code_simp
  moreover have "platform_total (seedPlatformAccounts empty_db) = 0" by code_simp
  ultimately show ?thesis using journal_stays_balanced [OF run] by simp
qed

end
