(* ===== verification/Holdings.thy ===== *)
theory Holdings
  imports Orders Journal
begin

text \<open>
  What frozen balances are for. Three kinds of orders hold money in the frozen balance of their
  owner: paid escrow orders that are not settled, open red packets, withdrawals that wait for review.
  The abstract specification of the money side of the platform is

  \<^item> \<open>backed\<close>: a user's frozen balance is exactly the sum of what the user's open orders hold;
  \<^item> \<open>solvent\<close>: the platform accounts carry exactly the users' balances and the withdrawals that
    are on their way out.

  Each service proves that its transactions keep both (\<open>money_ok\<close>). The locale \<open>holding\<close> is the
  interface between a table of orders and that specification: rows have a key, an owner and a
  non-negative held amount, and the lemmas say how the held sum follows an insert and an update.
\<close>

locale holding =
  fixes key :: "'r \<Rightarrow> string" and owner :: "'r \<Rightarrow> string" and weight :: "'r \<Rightarrow> int"
    and wf :: "'r \<Rightarrow> bool" and held :: "string \<Rightarrow> 'r list \<Rightarrow> int" and table_ok :: "'r list \<Rightarrow> bool"
  assumes weight_nonneg: "wf r \<Longrightarrow> 0 \<le> weight r"
    and held_sum: "held u t = sum_list (map (\<lambda>r. if owner r = u then weight r else 0) t)"
    and table_ok_iff: "table_ok t \<longleftrightarrow> distinct (map key t) \<and> list_all wf t"
begin

lemma insert_held: "held u (t @ [r]) = held u t + (if owner r = u then weight r else 0)"
  by (simp add: held_sum)

lemma insert_ok: "table_ok t \<Longrightarrow> key r \<notin> key ` set t \<Longrightarrow> wf r \<Longrightarrow> table_ok (t @ [r])"
  by (auto simp: table_ok_iff)

lemma row_ok: "table_ok t \<Longrightarrow> r \<in> set t \<Longrightarrow> wf r"
  by (simp add: table_ok_iff list_all_iff)

lemma row_unique: "table_ok t \<Longrightarrow> r \<in> set t \<Longrightarrow> s \<in> set t \<Longrightarrow> key r = key s \<Longrightarrow> r = s"
  by (auto simp: table_ok_iff dest: distinct_key_unique)

text \<open>An order never holds more than is held for its owner.\<close>

lemma weight_le_held:
  assumes "table_ok t" and "r \<in> set t"
  shows "weight r \<le> held (owner r) t"
proof -
  have "(if owner r = owner r then weight r else 0) \<le>
      sum_list (map (\<lambda>s. if owner s = owner r then weight s else 0) t)"
    using assms by (intro sum_list_member_le) (auto simp: weight_nonneg row_ok)
  then show ?thesis by (simp add: held_sum)
qed

lemma held_nonneg: "table_ok t \<Longrightarrow> 0 \<le> held u t"
  by (auto simp: held_sum weight_nonneg row_ok intro!: sum_list_nonneg)

text \<open>An update of one order by key, under a condition that the order meets.\<close>

lemma update_held:
  assumes "table_ok t" and "r \<in> set t" and "Q r" and "owner (f r) = owner r"
  shows "held u (updateRows (\<lambda>s. key s = key r \<and> Q s) f t) =
    held u t + (if owner r = u then weight (f r) - weight r else 0)"
  unfolding held_sum using assms by (subst sum_updateRows_key [where r = r]) (auto simp: table_ok_iff)

lemma update_ok:
  assumes "table_ok t" and "r \<in> set t" and "wf (f r)" and "\<And>s. key (f s) = key s"
  shows "table_ok (updateRows (\<lambda>s. key s = key r \<and> Q s) f t)"
proof -
  have "wf s'" if "s' \<in> set (updateRows (\<lambda>s. key s = key r \<and> Q s) f t)" for s'
    using that
  proof (cases rule: in_updateRowsE)
    case (changed s)
    then have "s = r" using row_unique [OF assms(1) changed(1) assms(2)] by simp
    with changed assms(3) show ?thesis by simp
  next
    case same
    with assms(1) show ?thesis by (simp add: row_ok)
  qed
  then show ?thesis
    using assms(1,4) by (simp add: table_ok_iff list_all_iff map_updateRows_frame)
qed

lemma update_row:
  assumes "table_ok t" and "r \<in> set t" and "Q r" and "\<And>s. key (f s) = key s"
  shows "findUnique (\<lambda>s. key s = key r) (updateRows (\<lambda>s. key s = key r \<and> Q s) f t) = Some (f r)"
proof -
  have "findUnique (\<lambda>s. key s = key r) t = Some r"
    using assms(1,2) by (intro findUnique_key_eq) (auto simp: table_ok_iff)
  then show ?thesis using assms(3,4) by (subst findUnique_updateRows) auto
qed

end

subsection \<open>Escrow orders\<close>

definition esc_open :: "EscrowOrder \<Rightarrow> bool" where
  "esc_open r = (esc_status r \<in> {EscrowStatus.PAID, EscrowStatus.SHIPPED, EscrowStatus.REFUND_REQUESTED})"

definition esc_weight :: "EscrowOrder \<Rightarrow> int" where
  "esc_weight r = (if esc_open r then esc_amount r else 0)"

definition wf_escrow :: "EscrowOrder \<Rightarrow> bool" where
  "wf_escrow r = (0 \<le> esc_amount r \<and> esc_buyer r \<noteq> esc_seller r)"

definition esc_held :: "string \<Rightarrow> EscrowOrder list \<Rightarrow> int" where
  "esc_held u t = sum_list (map (\<lambda>r. if esc_buyer r = u then esc_weight r else 0) t)"

definition escrows_ok :: "EscrowOrder list \<Rightarrow> bool" where
  "escrows_ok t = (distinct (map esc_id t) \<and> list_all wf_escrow t)"

interpretation escrows: holding esc_id esc_buyer esc_weight wf_escrow esc_held escrows_ok
  by unfold_locales (auto simp: esc_weight_def wf_escrow_def esc_held_def escrows_ok_def)

subsection \<open>Red packets\<close>

definition rp_open :: "RedPacket \<Rightarrow> bool" where
  "rp_open r = (rp_status r \<in> {RedPacketStatus.PENDING, RedPacketStatus.PARTIALLY_RECEIVED})"

definition rp_rest :: "RedPacket \<Rightarrow> int" where "rp_rest r = rp_amount r - rp_receivedAmount r"

definition rp_weight :: "RedPacket \<Rightarrow> int" where
  "rp_weight r = (if rp_open r then rp_rest r else 0)"

text \<open>
  A packet never gave away more than it holds; while it is open what is left suffices for those
  who have not claimed, in the way its type promises; a packet marked as received is given away
  entirely.
\<close>

definition rest_suffices :: "RedPacket \<Rightarrow> bool" where
  "rest_suffices r = (case rp_type r of
      LUCKY \<Rightarrow> rp_remainingCount r \<le> rp_rest r
    | ORDINARY \<Rightarrow> (\<exists>p \<in> set_option (rp_perAmount r). 0 < p \<and> rp_rest r = p * rp_remainingCount r)
    | _ \<Rightarrow> rp_remainingCount r = 1 \<and> rp_receivedAmount r = 0)"

definition wf_packet :: "RedPacket \<Rightarrow> bool" where
  "wf_packet r = (0 \<le> rp_receivedAmount r \<and> rp_receivedAmount r \<le> rp_amount r \<and>
     rp_amount r \<le> 100000000000 \<and>
     (rp_open r \<longrightarrow> 1 \<le> rp_remainingCount r \<and> rp_remainingCount r \<le> 100 \<and> rest_suffices r) \<and>
     (rp_status r = RedPacketStatus.RECEIVED \<longrightarrow> rp_receivedAmount r = rp_amount r \<and> rp_remainingCount r = 0))"

definition rp_held :: "string \<Rightarrow> RedPacket list \<Rightarrow> int" where
  "rp_held u t = sum_list (map (\<lambda>r. if rp_sender r = u then rp_weight r else 0) t)"

definition packets_ok :: "RedPacket list \<Rightarrow> bool" where
  "packets_ok t = (distinct (map rp_id t) \<and> list_all wf_packet t)"

interpretation packets: holding rp_id rp_sender rp_weight wf_packet rp_held packets_ok
  by unfold_locales (auto simp: rp_weight_def rp_rest_def wf_packet_def rp_held_def packets_ok_def)

subsection \<open>Withdrawals\<close>

definition wd_weight :: "WithdrawalOrder \<Rightarrow> int" where
  "wd_weight r = (if wd_status r = WithdrawalStatus.PENDING then wd_amount r else 0)"

definition wf_withdrawal :: "WithdrawalOrder \<Rightarrow> bool" where
  "wf_withdrawal r = (0 \<le> wd_amount r \<and> wd_amount r = wd_actualAmount r + wd_fee r)"

definition wd_held :: "string \<Rightarrow> WithdrawalOrder list \<Rightarrow> int" where
  "wd_held u t = sum_list (map (\<lambda>r. if wd_user r = u then wd_weight r else 0) t)"

definition withdrawals_ok :: "WithdrawalOrder list \<Rightarrow> bool" where
  "withdrawals_ok t = (distinct (map wd_id t) \<and> list_all wf_withdrawal t)"

interpretation withdrawals: holding wd_id wd_user wd_weight wf_withdrawal wd_held withdrawals_ok
  by unfold_locales (auto simp: wd_weight_def wf_withdrawal_def wd_held_def withdrawals_ok_def)

text \<open>Money on its way out: debited from the user, not yet reported paid or failed.\<close>

definition wd_transit :: "WithdrawalOrder \<Rightarrow> int" where
  "wd_transit r = (if wd_status r = WithdrawalStatus.PROCESSING then wd_amount r else 0)"

definition in_transit :: "WithdrawalOrder list \<Rightarrow> int" where
  "in_transit t = sum_list (map wd_transit t)"

lemma in_transit_update:
  assumes "withdrawals_ok t" and "r \<in> set t" and "Q r"
  shows "in_transit (updateRows (\<lambda>s. wd_id s = wd_id r \<and> Q s) f t) =
    in_transit t + (wd_transit (f r) - wd_transit r)"
  unfolding in_transit_def using assms
  by (subst sum_updateRows_key [where r = r]) (auto simp: withdrawals_ok_def)

subsection \<open>The specification\<close>

definition held :: "string \<Rightarrow> db \<Rightarrow> int" where
  "held u d = esc_held u (escrowOrders d) + rp_held u (redPackets d) + wd_held u (withdrawalOrders d)"

definition backed :: "db \<Rightarrow> bool" where
  "backed d = (\<forall>a \<in> set (accounts d). frozen_of (acc_user a) (accounts d) = held (acc_user a) d)"

definition solvent :: "db \<Rightarrow> bool" where
  "solvent d = (platform_total d = total_assets (accounts d) + in_transit (withdrawalOrders d))"

definition books_ok :: "db \<Rightarrow> bool" where
  "books_ok d = (accounts_ok (accounts d) \<and> escrows_ok (escrowOrders d) \<and> packets_ok (redPackets d) \<and>
     withdrawals_ok (withdrawalOrders d) \<and> distinct (map pa_code (platformAccounts d)) \<and>
     journal_balance d = 0 \<and> ledgers_ok d \<and> orders_ok (transactionOrders d))"

definition money_ok :: "db \<Rightarrow> bool" where
  "money_ok d = (books_ok d \<and> backed d \<and> solvent d)"

text \<open>
  The form in which the services establish it: users stay, the frozen balance of every user
  follows what is held, and the platform total follows the total assets and the money in transit.
\<close>

lemma money_ok_step:
  assumes "money_ok d" and "books_ok d'"
    and "map acc_user (accounts d') = map acc_user (accounts d)"
    and "\<And>u. frozen_of u (accounts d') - frozen_of u (accounts d) = held u d' - held u d"
    and "platform_total d' - platform_total d =
      (total_assets (accounts d') + in_transit (withdrawalOrders d')) -
      (total_assets (accounts d) + in_transit (withdrawalOrders d))"
  shows "money_ok d'"
proof -
  have "set (map acc_user (accounts d')) = set (map acc_user (accounts d))" using assms(3) by simp
  then have users: "acc_user ` set (accounts d') = acc_user ` set (accounts d)" by simp
  have "frozen_of (acc_user a) (accounts d') = held (acc_user a) d'" if "a \<in> set (accounts d')" for a
  proof -
    from that users obtain b where "b \<in> set (accounts d)" "acc_user b = acc_user a"
      by (metis imageE imageI)
    then have "frozen_of (acc_user a) (accounts d) = held (acc_user a) d"
      using assms(1) by (force simp: money_ok_def backed_def)
    with assms(4) [of "acc_user a"] show ?thesis by simp
  qed
  moreover have "solvent d'"
    using assms(1,5) by (simp add: money_ok_def solvent_def)
  ultimately show ?thesis using assms(2) by (simp add: money_ok_def backed_def)
qed

lemma money_okD:
  assumes "money_ok d"
  shows "accounts_ok (accounts d)" and "escrows_ok (escrowOrders d)" and "packets_ok (redPackets d)"
    and "withdrawals_ok (withdrawalOrders d)" and "distinct (map pa_code (platformAccounts d))"
    and "journal_balance d = 0" and "ledgers_ok d" and "orders_ok (transactionOrders d)"
  using assms by (auto simp: money_ok_def books_ok_def)

text \<open>An open order's amount is there in the frozen balance of its owner.\<close>

lemma held_frozen:
  assumes "money_ok d" and "account_of u (accounts d) = Some a"
  shows "frozenBalance a = held u d"
proof -
  have a: "a \<in> set (accounts d)" "acc_user a = u" using account_of_SomeD [OF assms(2)] by auto
  then have "frozen_of u (accounts d) = frozenBalance a"
    using frozen_of_account [OF money_okD(1) [OF assms(1)]] by blast
  with assms(1) a show ?thesis by (auto simp: money_ok_def backed_def)
qed

lemma open_order_covered:
  assumes "money_ok d" and "account_of u (accounts d) = Some a"
  shows "r \<in> set (escrowOrders d) \<Longrightarrow> esc_buyer r = u \<Longrightarrow> esc_weight r \<le> frozenBalance a"
    and "p \<in> set (redPackets d) \<Longrightarrow> rp_sender p = u \<Longrightarrow> rp_weight p \<le> frozenBalance a"
    and "w \<in> set (withdrawalOrders d) \<Longrightarrow> wd_user w = u \<Longrightarrow> wd_weight w \<le> frozenBalance a"
proof -
  note ok = money_okD [OF assms(1)]
  note nn = escrows.held_nonneg [OF ok(2), of u] packets.held_nonneg [OF ok(3), of u]
    withdrawals.held_nonneg [OF ok(4), of u]
  note fr = held_frozen [OF assms]
  show "r \<in> set (escrowOrders d) \<Longrightarrow> esc_buyer r = u \<Longrightarrow> esc_weight r \<le> frozenBalance a"
    using escrows.weight_le_held [OF ok(2), of r] nn fr by (auto simp: held_def)
  show "p \<in> set (redPackets d) \<Longrightarrow> rp_sender p = u \<Longrightarrow> rp_weight p \<le> frozenBalance a"
    using packets.weight_le_held [OF ok(3), of p] nn fr by (auto simp: held_def)
  show "w \<in> set (withdrawalOrders d) \<Longrightarrow> wd_user w = u \<Longrightarrow> wd_weight w \<le> frozenBalance a"
    using withdrawals.weight_le_held [OF ok(4), of w] nn fr by (auto simp: held_def)
qed

text \<open>Risk events are not part of the books.\<close>

lemma money_ok_events [keep]: "ignores_events money_ok"
  by (simp add: ignores_events_def money_ok_def books_ok_def backed_def solvent_def held_def
      platform_total_def journal_balance_def ledgers_ok_def)

end
