(* ===== verification/Samples.thy ===== *)
theory Samples
  imports Holdings
begin

text \<open>
  A small platform on which the theorems are applied: two verified users, an open escrow order, an
  open lucky packet, a withdrawal waiting for review and one on its way out. Alice's frozen balance
  is what her three open orders hold, and the platform accounts carry the users' balances and the money
  on its way.
\<close>

definition sample_user :: "string \<Rightarrow> User" where
  "sample_user u = \<lparr>usr_id = u, usr_nickname = u, usr_payPassword = Some ''hash'', usr_status = UserStatus.ACTIVE,
     usr_realName = RealNameStatus.VERIFIED, usr_risk = LOW\<rparr>"

definition sample_account :: "string \<Rightarrow> string \<Rightarrow> int \<Rightarrow> int \<Rightarrow> Account" where
  "sample_account i u a f = \<lparr>acc_id = i, acc_user = u, availableBalance = a, frozenBalance = f,
     totalBalance = a + f, acc_status = AccountStatus.ACTIVE\<rparr>"

definition sample_escrow :: "string \<Rightarrow> EscrowStatus \<Rightarrow> EscrowOrder" where
  "sample_escrow i st = \<lparr>esc_id = i, esc_orderNo = i, esc_buyer = ''alice'', esc_seller = ''bob'', esc_amount = 300,
     esc_status = st, esc_idem = None, esc_refundReason = None, esc_expiredAt = Some 1000,
     esc_paidAt = None, esc_shippedAt = Some 0, esc_receivedAt = None, esc_refundedAt = None, esc_cancelledAt = None\<rparr>"

definition sample_packet :: RedPacket where
  "sample_packet = \<lparr>rp_id = ''P1'', rp_packetNo = ''P1'', rp_sender = ''alice'', rp_amount = 150,
     rp_status = RedPacketStatus.PARTIALLY_RECEIVED, rp_type = LUCKY, rp_totalCount = 3, rp_remainingCount = 2,
     rp_perAmount = None, rp_password = None, rp_designated = None, rp_receivedAmount = 50, rp_idem = None,
     rp_expiresAt = 1000, rp_receivedAt = None, rp_returnedAt = None\<rparr>"

definition sample_withdrawal :: "string \<Rightarrow> string \<Rightarrow> WithdrawalStatus \<Rightarrow> string \<Rightarrow> string option \<Rightarrow> WithdrawalOrder" where
  "sample_withdrawal i u st ch no = \<lparr>wd_id = i, wd_orderNo = i, wd_user = u, wd_amount = 100, wd_fee = 1,
     wd_actualAmount = 99, wd_status = st, wd_channel = ch, wd_channelOrderNo = no, wd_reviewedBy = None,
     wd_reviewedAt = None, wd_idem = None\<rparr>"

definition sample_recharge :: TransactionOrder where
  "sample_recharge = \<lparr>tx_id = ''T1'', tx_orderNo = ''R1'', tx_type = TransactionType.RECHARGE,
     tx_status = TransactionStatus.PENDING, tx_amount = 700, tx_fee = 0, tx_from = None, tx_to = Some ''bob'',
     tx_remark = NoRemark, tx_related = None, tx_idem = Some ''key'', tx_channel = Some ''wechat'',
     tx_channelOrderNo = Some ''C1'', tx_createdAt = 0, tx_completedAt = None\<rparr>"

definition sample_db :: db where
  "sample_db = \<lparr>users = [sample_user ''alice'', sample_user ''bob''],
     accounts = [sample_account ''A1'' ''alice'' 10000 800, sample_account ''A2'' ''bob'' 500 0],
     transactionOrders = [sample_recharge], accountLedgers = [], bills = [], dailyLimitUsages = [],
     systemConfigs = [], riskEvents = [],
     escrowOrders = [sample_escrow ''E0'' EscrowStatus.CREATED, sample_escrow ''E1'' EscrowStatus.SHIPPED,
                     sample_escrow ''E2'' EscrowStatus.REFUND_REQUESTED],
     redPackets = [sample_packet], redPacketRecords = [],
     withdrawalOrders = [sample_withdrawal ''W1'' ''alice'' WithdrawalStatus.PENDING ''BANK'' None,
                         sample_withdrawal ''W2'' ''bob'' WithdrawalStatus.PROCESSING ''wechat'' (Some ''C2'')],
     platformAccounts = [\<lparr>pa_code = ''REVENUE_FEE'', pa_balance = 0\<rparr>,
                         \<lparr>pa_code = ''CHANNEL_FUND'', pa_balance = 11400\<rparr>,
                         \<lparr>pa_code = ''MERCHANT_PAYABLE'', pa_balance = 0\<rparr>],
     journalEntries = [], batchTransfers = [], batchTransferItems = [], splitOrders = [], splitItems = [],
     merchants = [],
     channelConfigs = [\<lparr>pc_code = ''wechat'', pc_type = ''BOTH'', pc_enabled = True, pc_priority = 1\<rparr>],
     merchantApps = [], qrCodes = [], paymentOrders = [], subscriptionPlans = [], subscriptions = [],
     subscriptionCharges = [], coupons = [], userCoupons = [], referralCodes = [], referrals = []\<rparr>"

definition sample_world :: world where
  "sample_world = \<lparr>wdb = sample_db, redisEnabled = True, production = True, locks = [],
     redisAttempts = (\<lambda>_. None), localAttempts = (\<lambda>_. None), zsets = (\<lambda>_. []), ruleCache = [],
     cacheLoaded = False, cacheExpiry = 0, ipBlacklistCache = [], ipBlacklistExpiry = 0\<rparr>"

definition sample_env :: env where
  "sample_env = \<lparr>now = 500, uuid = (\<lambda>i. ''u'' @ show_nat i), nano = (\<lambda>i. ''n'' @ show_nat i),
     randomInt = (\<lambda>lo hi. lo), row_place = (\<lambda>_. 0)\<rparr>"

lemmas sample_defs = sample_db_def sample_world_def sample_env_def sample_user_def sample_account_def
  sample_escrow_def sample_packet_def sample_withdrawal_def sample_recharge_def

lemma sample_books_ok: "books_ok sample_db"
  by (simp add: books_ok_def sample_defs accounts_ok_def wf_account_def acc_ok_def int32_def
      escrows_ok_def wf_escrow_def packets_ok_def wf_packet_def rp_open_def rest_suffices_def rp_rest_def
      withdrawals_ok_def wf_withdrawal_def journal_balance_def ledgers_ok_def orders_ok_def)

lemma sample_money_ok: "money_ok sample_db"
  using sample_books_ok
  by (simp add: money_ok_def backed_def solvent_def)
    (simp add: sample_defs frozen_of_def held_def esc_held_def esc_weight_def esc_open_def rp_held_def
      rp_weight_def rp_open_def rp_rest_def wd_held_def wd_weight_def platform_total_def total_assets_def
      in_transit_def wd_transit_def)

lemma sample_world_wdb [simp]: "wdb sample_world = sample_db"
  by (simp add: sample_world_def)

lemma sample_world_money_ok: "money_ok (wdb sample_world)"
  by (simp add: sample_world_def sample_money_ok)

end
