(* ===== verification/Payments.thy ===== *)
theory Payments
  imports Samples
begin

text \<open>
  The specification that every payment between two users refines: transfers, QR payments, cashier
  payments, splits, subscription charges, merchant transfers and refunds all debit a payer, credit a
  payee, and write an order, ledger rows and bills. \<open>paid u v n m d d'\<close> says what the database may
  look like afterwards: \<open>u\<close> paid \<open>n\<close>, \<open>v\<close> received \<open>m\<close>, the difference is the platform's fee, and nothing
  that frozen money depends on has changed.

  The lemmas read the effect on balances off the specification and prove that a payment keeps the
  money invariant; the locale \<open>payment_service\<close> is the interface under which a service gets both
  for its transaction.
\<close>

definition paid :: "string \<Rightarrow> string \<Rightarrow> int \<Rightarrow> int \<Rightarrow> db \<Rightarrow> db \<Rightarrow> bool" where
  "paid u v n m d d' = (\<exists>a b. account_of u (accounts d) = Some a \<and> account_of v (accounts d) = Some b \<and>
     0 \<le> n \<and> n \<le> availableBalance a \<and> 0 \<le> m \<and>
     accounts d' = move_funds (acc_id b) m 0 (move_funds (acc_id a) (- n) 0 (accounts d)) \<and>
     accounts_ok (accounts d') \<and> same_holdings d d' \<and>
     platform_total d' = platform_total d - (n - m) \<and>
     map pa_code (platformAccounts d') = map pa_code (platformAccounts d) \<and>
     journal_balance d' = journal_balance d \<and> (ledgers_ok d \<longrightarrow> ledgers_ok d') \<and>
     (orders_ok (transactionOrders d) \<longrightarrow> orders_ok (transactionOrders d')))"

lemma spend_keeps_ok:
  assumes "accounts_ok t" and "account_of u t = Some a" and "0 \<le> n" and "n \<le> availableBalance a"
  shows "accounts_ok (move_funds (acc_id a) (- n) 0 t)"
proof -
  have a: "a \<in> set t" using account_of_SomeD [OF assms(2)] by simp
  show ?thesis using accounts_ok_move [OF assms(1) a, of "- n" 0] accounts_okD(3) [OF assms(1) a] assms(3,4)
    by (auto simp: wf_account_def acc_ok_def int32_def)
qed

text \<open>The balances after a debit and a credit, also where payer and payee are the same user.\<close>

lemma debit_credit:
  fixes m :: int
  assumes ok: "accounts_ok t" and fa: "account_of u t = Some a" and ta: "account_of v t = Some b"
    and n: "0 \<le> n" "n \<le> availableBalance a"
  defines "t' \<equiv> move_funds (acc_id b) m 0 (move_funds (acc_id a) (- n) 0 t)"
  shows "available_of x t' = available_of x t + (if x = v then m else 0) - (if x = u then n else 0)"
    and "frozen_of x t' = frozen_of x t" and "total_assets t' = total_assets t + m - n"
    and "map acc_user t' = map acc_user t"
proof -
  let ?m = "move_funds (acc_id a) (- n) 0 t"
  let ?b = "if acc_id b = acc_id a then move (- n) 0 b else b"
  have okm: "accounts_ok ?m" by (rule spend_keeps_ok [OF ok fa n])
  have bi: "account_by_id (acc_id b) ?m = Some ?b"
    using account_of_by_id [OF ok ta] by (simp add: account_by_id_move)
  have us: "acc_user a = u" "acc_user ?b = v"
    using account_of_SomeD [OF fa] account_of_SomeD [OF ta] by auto
  note x = move_funds_by_id [OF okm bi] and y = move_funds_by_id [OF ok account_of_by_id [OF ok fa]]
  show "available_of x t' = available_of x t + (if x = v then m else 0) - (if x = u then n else 0)"
    "frozen_of x t' = frozen_of x t" "total_assets t' = total_assets t + m - n"
    "map acc_user t' = map acc_user t"
    unfolding t'_def by (simp_all add: x y us)
qed

lemma paid_balances:
  assumes "paid u v n m d d'" and "accounts_ok (accounts d)"
  shows "available_of x (accounts d') =
      available_of x (accounts d) + (if x = v then m else 0) - (if x = u then n else 0)"
    and "frozen_of x (accounts d') = frozen_of x (accounts d)"
    and "total_assets (accounts d') = total_assets (accounts d) + m - n"
    and "map acc_user (accounts d') = map acc_user (accounts d)"
    and "accounts_ok (accounts d')" and "n \<le> available_of u (accounts d)"
proof -
  obtain a b where a: "account_of u (accounts d) = Some a" and b: "account_of v (accounts d) = Some b"
    and n: "0 \<le> n" "n \<le> availableBalance a" and ok: "accounts_ok (accounts d')"
    and acc: "accounts d' = move_funds (acc_id b) m 0 (move_funds (acc_id a) (- n) 0 (accounts d))"
    using assms(1) unfolding paid_def by blast
  note mv = debit_credit [OF assms(2) a b n, where m = m, folded acc]
  show "available_of x (accounts d') =
      available_of x (accounts d) + (if x = v then m else 0) - (if x = u then n else 0)"
    "frozen_of x (accounts d') = frozen_of x (accounts d)"
    "total_assets (accounts d') = total_assets (accounts d) + m - n"
    "map acc_user (accounts d') = map acc_user (accounts d)"
    "accounts_ok (accounts d')"
    by (rule mv ok)+
  show "n \<le> available_of u (accounts d)"
    using n(2) account_of_SomeD [OF a] available_of_account [OF assms(2), of a] by auto
qed

lemma paid_money_ok:
  assumes "paid u v n m d d'" and inv: "money_ok d"
  shows "money_ok d'"
proof (rule money_ok_step [OF inv])
  note ok = money_okD [OF inv]
  note b = paid_balances [OF assms(1) ok(1)]
  have same: "same_holdings d d'" and pt: "platform_total d' = platform_total d - (n - m)"
    and rest: "map pa_code (platformAccounts d') = map pa_code (platformAccounts d)"
      "journal_balance d' = journal_balance d" "ledgers_ok d'" "orders_ok (transactionOrders d')"
    using assms(1) ok(7,8) unfolding paid_def by blast+
  show "books_ok d'" using ok b(5) same rest by (simp add: books_ok_def same_holdings_def)
  show "map acc_user (accounts d') = map acc_user (accounts d)" by (rule b)
  show "frozen_of x (accounts d') - frozen_of x (accounts d) = held x d' - held x d" for x
    using same by (simp add: b(2) held_def same_holdings_def)
  show "platform_total d' - platform_total d = total_assets (accounts d') +
      in_transit (withdrawalOrders d') - (total_assets (accounts d) + in_transit (withdrawalOrders d))"
    using same by (simp add: pt b(3) same_holdings_def)
qed

text \<open>A change that touches neither balances nor books may precede or follow a payment.\<close>

definition books_kept :: "db \<Rightarrow> db \<Rightarrow> bool" where
  "books_kept d d' = (accounts d' = accounts d \<and> same_holdings d d' \<and>
     platformAccounts d' = platformAccounts d \<and> journalEntries d' = journalEntries d \<and>
     (ledgers_ok d \<longrightarrow> ledgers_ok d') \<and>
     (orders_ok (transactionOrders d) \<longrightarrow> orders_ok (transactionOrders d')))"

lemma books_kept_refl [simp]: "books_kept d d"
  by (simp add: books_kept_def same_holdings_def)

lemma books_kept_trans: "books_kept d d1 \<Longrightarrow> books_kept d1 d2 \<Longrightarrow> books_kept d d2"
  by (auto simp: books_kept_def same_holdings_def)

lemma books_kept_money_ok: "books_kept d d' \<Longrightarrow> money_ok d \<Longrightarrow> money_ok d'"
  by (simp add: books_kept_def same_holdings_def money_ok_def books_ok_def backed_def solvent_def held_def
      platform_total_def journal_balance_def)

lemma paid_before: "books_kept d d1 \<Longrightarrow> paid u v n m d1 d2 \<Longrightarrow> paid u v n m d d2"
  by (auto simp: paid_def books_kept_def same_holdings_def platform_total_def journal_balance_def)

lemma paid_after: "paid u v n m d d1 \<Longrightarrow> books_kept d1 d2 \<Longrightarrow> paid u v n m d d2"
  by (auto simp: paid_def books_kept_def same_holdings_def platform_total_def journal_balance_def)

text \<open>
  Posting a journal, writing order, ledger rows and bills leaves the balances alone and moves the
  platform's own accounts by the net of the entries.
\<close>

definition posted :: "int \<Rightarrow> db \<Rightarrow> db \<Rightarrow> bool" where
  "posted net d d' = (accounts d' = accounts d \<and> same_holdings d d' \<and>
     platform_total d' = platform_total d + net \<and>
     map pa_code (platformAccounts d') = map pa_code (platformAccounts d) \<and>
     journal_balance d' = journal_balance d \<and> (ledgers_ok d \<longrightarrow> ledgers_ok d') \<and>
     (orders_ok (transactionOrders d) \<longrightarrow> orders_ok (transactionOrders d')))"

lemma posted_none: "books_kept d d' \<Longrightarrow> posted 0 d d'"
  by (simp add: posted_def books_kept_def platform_total_def journal_balance_def)

lemma createEntries_posted:
  assumes post: "createEntries es d1 = Inr d'" and pre: "books_kept d d1"
    and codes: "distinct (map pa_code (platformAccounts d))" and net: "platform_net es = net"
  shows "posted net d d'"
proof -
  have pa: "platformAccounts d1 = platformAccounts d" using pre by (simp add: books_kept_def)
  note ce = createEntries_Inr [OF post, unfolded pa, OF codes]
  obtain js ps where "d' = d1\<lparr>journalEntries := js, platformAccounts := ps\<rparr>" using ce(5) by auto
  with pre ce(1,3,4) net pa show ?thesis
    by (auto simp: posted_def books_kept_def same_holdings_def ledgers_ok_def platform_total_def journal_balance_def)
qed

lemma books_kept_rows [simp]:
  "books_kept d (add_bill b d) = True"
  "books_kept d (add_ledger l d) = (ledgers_ok d \<longrightarrow> ledger_ok l)"
  by (auto simp: books_kept_def add_bill_def add_ledger_def same_holdings_def ledgers_ok_def)

lemma createOrder_kept: "createOrder tx d = Inr d' \<Longrightarrow> 0 \<le> tx_amount tx \<Longrightarrow> books_kept d d'"
  by (auto simp: createOrder_Inr books_kept_def same_holdings_def ledgers_ok_def orders_ok_def)

lemma daily_limit_kept: "checkAndIncrementDailyLimit i u ty day n cap d = Inr d' \<Longrightarrow> books_kept d d'"
  by (auto simp: books_kept_def same_holdings_def ledgers_ok_def dest!: checkAndIncrementDailyLimit_frame)

text \<open>
  The shape of nearly every payment: debit the payer under a guard, write rows that touch no balance, credit
  the payee, post the rest. Whatever is posted at the end, the whole is a payment.
\<close>

lemma debit_then_credit:
  assumes run: "guarded acc_spend err (acc_id a) n d (\<lambda>d1. bindE (f d1) (\<lambda>d2. credit_account (acc_id b) m d2 (k d2))) = Inr r"
    and inv: "money_ok d" and a: "account_of u (accounts d) = Some a" and b: "account_of v (accounts d) = Some b"
    and n: "0 \<le> n" and m: "0 \<le> m" and f: "\<And>d1 d2. f d1 = Inr d2 \<Longrightarrow> books_kept d1 d2"
  obtains d2 b' where "f (moved (acc_id a) (- n) 0 d) = Inr d2" and "k d2 b' (moved (acc_id b) m 0 d2) = Inr r"
    and "distinct (map pa_code (platformAccounts (moved (acc_id b) m 0 d2)))"
    and "\<forall>d'. posted (m - n) (moved (acc_id b) m 0 d2) d' \<longrightarrow> paid u v n m d d'"
    and "n \<le> available_of u (accounts d)"
proof -
  note ok = money_okD [OF inv]
  let ?d1 = "moved (acc_id a) (- n) 0 d"
  note sp = spend.guarded_Inr [OF ok(1) account_of_by_id [OF ok(1) a] n run]
  obtain d2 where fd: "f ?d1 = Inr d2" and k: "credit_account (acc_id b) m d2 (k d2) = Inr r"
    using sp(1) by auto
  have kept: "books_kept ?d1 d2" by (rule f [OF fd])
  then have acc: "accounts d2 = move_funds (acc_id a) (- n) 0 (accounts d)" by (simp add: books_kept_def)
  obtain b' where b': "account_by_id (acc_id b) (accounts d2) = Some b'"
    using account_of_by_id [OF ok(1) b] by (simp add: acc account_by_id_move)
  have ok2: "accounts_ok (accounts d2)" using sp(2) by (simp add: acc)
  note cr = credit_account_Inr [OF ok2 b' m k]
  have le: "n \<le> availableBalance a" using sp(3) by simp
  show thesis
  proof (rule that [OF fd cr(1)])
    show "distinct (map pa_code (platformAccounts (moved (acc_id b) m 0 d2)))"
      using kept ok(5) by (simp add: books_kept_def)
    show "n \<le> available_of u (accounts d)"
      using le account_of_SomeD [OF a] available_of_account [OF ok(1), of a] by auto
    have "paid u v n m d d'" if "posted (m - n) (moved (acc_id b) m 0 d2) d'" for d'
      unfolding paid_def
      by (rule exI [of _ a], rule exI [of _ b])
        (use that kept cr(2) a b n m le in \<open>auto simp: posted_def books_kept_def same_holdings_def acc ledgers_ok_def
          platform_total_def journal_balance_def\<close>)
    then show "\<forall>d'. posted (m - n) (moved (acc_id b) m 0 d2) d' \<longrightarrow> paid u v n m d d'" by blast
  qed
qed

subsection \<open>Services that pay\<close>

text \<open>
  The interface: a transaction that, when it commits and is not a replay, refines a payment. What
  the service gets for it: the invariant, and who ends up with what.
\<close>

locale payment_service =
  fixes valid :: "'p \<Rightarrow> bool" and body :: "'p \<Rightarrow> db \<Rightarrow> exn + ('r \<times> db)"
    and fresh_run :: "'p \<Rightarrow> 'r \<Rightarrow> bool"
    and payer payee :: "'p \<Rightarrow> string" and cost gain :: "'p \<Rightarrow> int"
  assumes pays: "valid p \<Longrightarrow> body p d = Inr (r, d') \<Longrightarrow> money_ok d \<Longrightarrow> fresh_run p r \<Longrightarrow>
      paid (payer p) (payee p) (cost p) (gain p) d d'"
    and replays: "valid p \<Longrightarrow> body p d = Inr (r, d') \<Longrightarrow> money_ok d \<Longrightarrow> \<not> fresh_run p r \<Longrightarrow> books_kept d d'"
begin

lemma keeps_money: "valid p \<Longrightarrow> body p d = Inr (r, d') \<Longrightarrow> money_ok d \<Longrightarrow> money_ok d'"
  using pays [of p d r d'] replays [of p d r d'] paid_money_ok books_kept_money_ok by blast

lemma replay_free: "valid p \<Longrightarrow> body p d = Inr (r, d') \<Longrightarrow> money_ok d \<Longrightarrow> \<not> fresh_run p r \<Longrightarrow> accounts d' = accounts d"
  using replays by (simp add: books_kept_def)

lemma balances:
  assumes "valid p" and "body p d = Inr (r, d')" and "money_ok d" and "fresh_run p r"
  shows "available_of x (accounts d') = available_of x (accounts d) +
      (if x = payee p then gain p else 0) - (if x = payer p then cost p else 0)"
    and "frozen_of x (accounts d') = frozen_of x (accounts d)"
    and "total_assets (accounts d') = total_assets (accounts d) + gain p - cost p"
  using paid_balances [OF pays [OF assms] money_okD(1) [OF assms(3)]] by simp_all

end

end
