(* ===== verification/Transfers.thy ===== *)
theory Transfers
  imports Payments
begin

text \<open>
  Transfers between users (transfers/transfers.service.ts, the whole of \<open>transfer\<close>): the guards
  before the transaction, the transaction (idempotent replay, daily limit, debit of the payer,
  credit of the payee, order, ledger rows, bills, risk event) and the record in the risk windows.

  The lemmas give the exact effect of a transfer on the two accounts and on everything else the
  money invariants look at, and that a replay changes nothing.
\<close>

record TransferDto =
  td_to :: string
  td_amount :: jsnum
  td_remark :: "string option"
  td_payPassword :: string
  td_idem :: "string option"

text \<open>The part of the transaction that runs when no order with the idempotency key exists.\<close>

definition transfer_rows ::
  "env \<Rightarrow> User \<Rightarrow> User \<Rightarrow> TransferDto \<Rightarrow> int \<Rightarrow> Account \<Rightarrow> Account \<Rightarrow> int \<Rightarrow> int \<Rightarrow> db \<Rightarrow>
     exn + ((TransactionOrder \<times> bool) \<times> db)" where
  "transfer_rows e fromUser toUser dto amount fromAccount toAccount senderAfter receiverAfter d =
     (let order = \<lparr>tx_id = uuid e 1, tx_orderNo = generateOrderNo e 0 ''T'',
              tx_type = TransactionType.TRANSFER, tx_status = TransactionStatus.SUCCESS,
              tx_amount = amount, tx_fee = 0, tx_from = Some (usr_id fromUser), tx_to = Some (td_to dto),
              tx_remark = remark_or_default (td_remark dto), tx_related = None, tx_idem = td_idem dto,
              tx_channel = None, tx_channelOrderNo = None, tx_createdAt = now e,
              tx_completedAt = Some (now e)\<rparr>
      in bindE (createOrder order d) (\<lambda>d1.
           let d2 = add_ledger \<lparr>led_account = acc_id fromAccount, led_transaction = tx_id order,
                      led_type = LedgerType.TRANSFER, led_amount = amount,
                      led_before = senderAfter + amount, led_after = senderAfter, led_direction = CREDIT\<rparr> d1;
               d3 = add_ledger \<lparr>led_account = acc_id toAccount, led_transaction = tx_id order,
                      led_type = LedgerType.TRANSFER, led_amount = amount,
                      led_before = receiverAfter - amount, led_after = receiverAfter, led_direction = DEBIT\<rparr> d2;
               d4 = add_bill \<lparr>bill_user = usr_id fromUser, bill_transaction = tx_id order,
                      bill_type = BillType.TRANSFER, bill_direction = EXPENSE, bill_amount = amount,
                      bill_counterparty = Some (usr_nickname toUser)\<rparr> d3;
               d5 = add_bill \<lparr>bill_user = td_to dto, bill_transaction = tx_id order,
                      bill_type = RECEIPT, bill_direction = INCOME, bill_amount = amount,
                      bill_counterparty = Some (usr_nickname fromUser)\<rparr> d4;
               d6 = (if LARGE_TRANSFER_THRESHOLD_CENTS < amount
                     then add_event (usr_id fromUser) LARGE_TRANSFER MEDIUM d5 else d5)
           in Inr ((order, True), d6)))"

definition transfer_new ::
  "env \<Rightarrow> User \<Rightarrow> User \<Rightarrow> TransferDto \<Rightarrow> int \<Rightarrow> db \<Rightarrow> exn + ((TransactionOrder \<times> bool) \<times> db)" where
  "transfer_new e fromUser toUser dto amount d0 =
     bindE (checkAndIncrementDailyLimit (uuid e 0) (usr_id fromUser) ''TRANSFER'' (utc_day (now e)) amount
              (config_limit ''transfer_daily_limit'' DEFAULT_TRANSFER_DAILY_LIMIT_CENTS d0) d0) (\<lambda>d.
       or_throw (account_of (usr_id fromUser) (accounts d)) (NotFound ACCOUNT_NOT_FOUND) (\<lambda>fromAccount.
       or_throw (account_of (td_to dto) (accounts d)) (NotFound ACCOUNT_NOT_FOUND) (\<lambda>toAccount.
         throw_if (acc_status fromAccount \<noteq> AccountStatus.ACTIVE) (Forbidden FORBIDDEN)
        (throw_if (acc_status toAccount \<noteq> AccountStatus.ACTIVE) (Forbidden FORBIDDEN)
        (guarded acc_spend (BadRequest INSUFFICIENT_BALANCE) (acc_id fromAccount) amount d (\<lambda>d1.
           or_throw (account_by_id (acc_id fromAccount) (accounts d1)) (NotFound ACCOUNT_NOT_FOUND) (\<lambda>updatedFrom.
             credit_account (acc_id toAccount) amount d1 (\<lambda>updatedTo d2.
               transfer_rows e fromUser toUser dto amount fromAccount toAccount
                 (availableBalance updatedFrom) (availableBalance updatedTo) d2))))))))"

text \<open>The transaction; the flag says whether the order is new.\<close>

definition transfer_body ::
  "env \<Rightarrow> User \<Rightarrow> User \<Rightarrow> TransferDto \<Rightarrow> int \<Rightarrow> db \<Rightarrow> exn + ((TransactionOrder \<times> bool) \<times> db)" where
  "transfer_body e fromUser toUser dto amount d =
     (case (if truthy (td_idem dto) then find_tx_idem (the (td_idem dto)) d else None) of
        Some existing \<Rightarrow>
          throw_if (tx_from existing \<noteq> Some (usr_id fromUser)) (BadRequest IDEMPOTENCY_KEY_CONFLICT)
            (Inr ((existing, False), d))
      | None \<Rightarrow> transfer_new e fromUser toUser dto amount d)"

text \<open>From the risk check on.\<close>

definition transfer_checked ::
  "env \<Rightarrow> User \<Rightarrow> User \<Rightarrow> TransferDto \<Rightarrow> int \<Rightarrow> world \<Rightarrow> (exn + TransactionOrder) \<times> world" where
  "transfer_checked e fromUser toUser dto amount w =
     (let ctx = \<lparr>ctx_user = usr_id fromUser, ctx_type = TransactionType.TRANSFER,
                 ctx_amount = amount, ctx_ip = None\<rparr>
      in andThen (risk_guard (now e) ctx w) (\<lambda>_ w.
         andThen (transaction (transfer_body e fromUser toUser dto amount) w) (\<lambda>(order, new) w.
           if new then record_quietly (now e) (uuid e 2) ctx order w else (Inr order, w))))"

definition transfer_locked ::
  "(string \<Rightarrow> string \<Rightarrow> bool) \<Rightarrow> env \<Rightarrow> string \<Rightarrow> TransferDto \<Rightarrow> world \<Rightarrow> (exn + TransactionOrder) \<times> world" where
  "transfer_locked pw_ok e fromUserId dto w =
     (if amount_le0 (td_amount dto) then (Inl (BadRequest TRANSFER_AMOUNT_INVALID), w)
      else if fromUserId = td_to dto then (Inl (BadRequest TRANSFER_TO_SELF), w)
      else case find_user fromUserId (wdb w) of
        None \<Rightarrow> (Inl (NotFound USER_NOT_FOUND), w)
      | Some fromUser \<Rightarrow>
          if \<not> verified fromUser then (Inl (Forbidden REAL_NAME_REQUIRED), w)
          else if \<not> may_spend fromUser then (Inl (Forbidden FORBIDDEN), w)
          else if usr_risk fromUser = HIGH then (Inl (Forbidden FORBIDDEN), w)
          else andThen (verifyPayPassword pw_ok (now e) fromUserId (td_payPassword dto) w) (\<lambda>_ w.
            case find_user (td_to dto) (wdb w) of
              None \<Rightarrow> (Inl (NotFound PAYEE_NOT_FOUND), w)
            | Some toUser \<Rightarrow>
                if \<not> verified toUser then (Inl (Forbidden PAYEE_NOT_VERIFIED), w)
                else if \<not> may_receive toUser then (Inl (Forbidden FORBIDDEN), w)
                else andThen (fen (td_amount dto), w) (\<lambda>amount w.
                  transfer_checked e fromUser toUser dto amount w)))"

definition transfer ::
  "(string \<Rightarrow> string \<Rightarrow> bool) \<Rightarrow> env \<Rightarrow> string \<Rightarrow> TransferDto \<Rightarrow> world \<Rightarrow> (exn + TransactionOrder) \<times> world" where
  "transfer pw_ok e fromUserId dto =
     withLock (key_or ''transfer:idem:'' (td_idem dto) (''transfer:user:'' @ fromUserId))
       (transfer_locked pw_ok e fromUserId dto)"

subsection \<open>Effect of a transfer\<close>

lemma transfer_rows_Inr:
  assumes "transfer_rows e fu tu dto n fa ta sa ra d = Inr ((order, new), d')"
  shows "accounts d' = accounts d" and "same_holdings d d'" and "platformAccounts d' = platformAccounts d"
    and "journalEntries d' = journalEntries d" and "dailyLimitUsages d' = dailyLimitUsages d"
    and "ledgers_ok d \<Longrightarrow> ledgers_ok d'" and "new"
    and "transactionOrders d' = transactionOrders d @ [order]"
    and "tx_amount order = n" and "tx_status order = TransactionStatus.SUCCESS"
    and "tx_idem order = td_idem dto" and "tx_from order = Some (usr_id fu)"
    and "tx_to order = Some (td_to dto)"
  using assms
  by (auto simp: transfer_rows_def Let_def createOrder_Inr add_ledger_def add_bill_def add_event_def
      same_holdings_def ledgers_ok_def ledger_ok_def)

lemma transfer_new_Inr:
  assumes run: "transfer_new e fu tu dto n d = Inr ((order, new), d')"
    and ok: "accounts_ok (accounts d)" and n: "0 \<le> n" and neq: "usr_id fu \<noteq> td_to dto"
  obtains fa ta where "account_of (usr_id fu) (accounts d) = Some fa"
    and "account_of (td_to dto) (accounts d) = Some ta" and "n \<le> availableBalance fa"
    and "accounts d' = move_funds (acc_id ta) n 0 (move_funds (acc_id fa) (- n) 0 (accounts d))"
    and "accounts_ok (accounts d')" and "same_holdings d d'"
    and "platformAccounts d' = platformAccounts d" and "journalEntries d' = journalEntries d"
    and "ledgers_ok d \<Longrightarrow> ledgers_ok d'"
    and "transactionOrders d' = transactionOrders d @ [order]" and "tx_amount order = n" and new
    and "tx_status order = TransactionStatus.SUCCESS" and "tx_idem order = td_idem dto" and "tx_from order = Some (usr_id fu)"
proof -
  obtain d1 fa ta where lim: "checkAndIncrementDailyLimit (uuid e 0) (usr_id fu) ''TRANSFER''
      (utc_day (now e)) n (config_limit ''transfer_daily_limit'' DEFAULT_TRANSFER_DAILY_LIMIT_CENTS d) d = Inr d1"
    and fa: "account_of (usr_id fu) (accounts d1) = Some fa"
    and ta: "account_of (td_to dto) (accounts d1) = Some ta"
    and rest: "guarded acc_spend (BadRequest INSUFFICIENT_BALANCE) (acc_id fa) n d1 (\<lambda>d2.
           or_throw (account_by_id (acc_id fa) (accounts d2)) (NotFound ACCOUNT_NOT_FOUND) (\<lambda>uf.
             credit_account (acc_id ta) n d2 (\<lambda>ut d3.
               transfer_rows e fu tu dto n fa ta (availableBalance uf) (availableBalance ut) d3)))
        = Inr ((order, new), d')"
    using run by (auto simp: transfer_new_def)
  obtain t where d1: "d1 = d\<lparr>dailyLimitUsages := t\<rparr>"
    using checkAndIncrementDailyLimit_frame [OF lim] by blast
  have ok1: "accounts_ok (accounts d1)" using ok by (simp add: d1)
  note fai = account_of_by_id [OF ok1 fa] and tai = account_of_by_id [OF ok1 ta]
  have ne: "acc_id ta \<noteq> acc_id fa"
    using account_ids_inj [OF ok1, of ta fa] account_of_SomeD [OF fa] account_of_SomeD [OF ta] neq by auto
  note sp = spend.guarded_Inr [OF ok1 fai n rest]
  have k: "credit_account (acc_id ta) n (moved (acc_id fa) (- n) 0 d1) (\<lambda>ut d3.
      transfer_rows e fu tu dto n fa ta (availableBalance fa - n) (availableBalance ut) d3)
      = Inr ((order, new), d')"
    using sp(1) fai by (simp add: account_by_id_move)
  have tai': "account_by_id (acc_id ta) (accounts (moved (acc_id fa) (- n) 0 d1)) = Some ta"
    using tai ne by (simp add: account_by_id_move)
  note cr = credit_account_Inr [OF sp(2) tai' n k]
  note rows = transfer_rows_Inr [OF cr(1)]
  show thesis
  proof (rule that [of fa ta])
    show "account_of (usr_id fu) (accounts d) = Some fa" "account_of (td_to dto) (accounts d) = Some ta"
      using fa ta by (simp_all add: d1)
    show "n \<le> availableBalance fa" using sp(3) by simp
    show "accounts d' = move_funds (acc_id ta) n 0 (move_funds (acc_id fa) (- n) 0 (accounts d))"
      using rows(1) by (simp add: d1)
    show "accounts_ok (accounts d')" using rows(1) cr(2) by simp
    show "same_holdings d d'" using rows(2) by (simp add: d1 same_holdings_def)
    show "platformAccounts d' = platformAccounts d" "journalEntries d' = journalEntries d"
      using rows(3,4) by (simp_all add: d1)
    show "ledgers_ok d \<Longrightarrow> ledgers_ok d'" using rows(6) by (simp add: d1 ledgers_ok_def)
    show "transactionOrders d' = transactionOrders d @ [order]" using rows(8) by (simp add: d1)
  qed (use rows in auto)
qed

subsection \<open>A transfer refines a payment\<close>

lemma transfer_new_paid:
  assumes "transfer_new e fu tu dto n d = Inr ((order, new), d')"
    and ok: "accounts_ok (accounts d)" and n: "0 \<le> n" and "usr_id fu \<noteq> td_to dto"
  shows "paid (usr_id fu) (td_to dto) n n d d'" and new
proof -
  obtain fa ta where fa: "account_of (usr_id fu) (accounts d) = Some fa"
    and ta: "account_of (td_to dto) (accounts d) = Some ta" and cov: "n \<le> availableBalance fa"
    and acc: "accounts d' = move_funds (acc_id ta) n 0 (move_funds (acc_id fa) (- n) 0 (accounts d))"
    and ok': "accounts_ok (accounts d')" and same: "same_holdings d d'"
    and pl: "platformAccounts d' = platformAccounts d" "journalEntries d' = journalEntries d"
    and led: "ledgers_ok d \<Longrightarrow> ledgers_ok d'"
    and tx: "transactionOrders d' = transactionOrders d @ [order]" "tx_amount order = n" and new: new
    using transfer_new_Inr [OF assms(1) ok n assms(4)] by blast
  then show "paid (usr_id fu) (td_to dto) n n d d'"
    unfolding paid_def using n
    by (auto simp: platform_total_def journal_balance_def orders_ok_def)
  show new by (rule new)
qed

interpretation transfers: payment_service
  "\<lambda>(e :: env, fu, tu :: User, dto, n). 0 \<le> n \<and> usr_id fu \<noteq> td_to dto"
  "\<lambda>(e, fu, tu, dto, n). transfer_body e fu tu dto n" "\<lambda>p r. snd r"
  "\<lambda>(e, fu, tu, dto, n). usr_id fu" "\<lambda>(e, fu, tu, dto, n). td_to dto"
  "\<lambda>(e, fu, tu, dto, n). n" "\<lambda>(e, fu, tu, dto, n). n"
proof unfold_locales
  fix p d d' and r :: "TransactionOrder \<times> bool"
  assume v: "case p of (e, fu, tu, dto, n) \<Rightarrow> 0 \<le> n \<and> usr_id fu \<noteq> td_to dto"
    and run: "(case p of (e, fu, tu, dto, n) \<Rightarrow> transfer_body e fu tu dto n) d = Inr (r, d')" and inv: "money_ok d"
  obtain e fu tu dto n where p: "p = (e, fu, tu, dto, n)" by (cases p)
  obtain order new where r: "r = (order, new)" by force
  show "snd r \<Longrightarrow> paid (case p of (e, fu, tu, dto, n) \<Rightarrow> usr_id fu) (case p of (e, fu, tu, dto, n) \<Rightarrow> td_to dto)
      (case p of (e, fu, tu, dto, n) \<Rightarrow> n) (case p of (e, fu, tu, dto, n) \<Rightarrow> n) d d'"
    and "\<not> snd r \<Longrightarrow> books_kept d d'"
    using run v transfer_new_paid [OF _ money_okD(1) [OF inv], of e fu tu dto n order new d']
    by (auto simp: p r transfer_body_def split: option.splits if_splits)
qed

text \<open>Whatever a property of the database needs to survive a transfer request.\<close>

lemma keeps_transfer:
  assumes inv: "P (wdb w)" and ev: "ignores_events P"
    and body: "\<And>fu tu n d r d'. transfer_body e fu tu dto n d = Inr (r, d') \<Longrightarrow> P d \<Longrightarrow>
      0 \<le> n \<Longrightarrow> usr_id fu = fromUserId \<Longrightarrow> fromUserId \<noteq> td_to dto \<Longrightarrow> P d'"
  shows "keeps P (transfer pw_ok e fromUserId dto w)"
  unfolding transfer_def transfer_locked_def transfer_checked_def Let_def
  apply (intro keep ev)
  apply (simp_all add: inv)
  apply (rule body, assumption+)
  apply (auto simp: fen_Inr find_user_def intro: yuanToFen_nonneg dest: findUnique_SomeD)
  done

lemma transfer_money_ok: "money_ok (wdb w) \<Longrightarrow> keeps money_ok (transfer pw_ok e fromUserId dto w)"
  by (rule keeps_transfer)
    (auto intro: keep transfers.keeps_money [where p = "(e, fu, tu, dto, n)" for fu tu n, simplified])


subsection \<open>What a request does\<close>

text \<open>Behind a successful request there is a committed transaction on the database of the request.\<close>

lemma transfer_InrE:
  assumes "transfer pw_ok e u dto w = (Inr order, w')"
  obtains fu tu n evs new d' where "yuanToFen (td_amount dto) = Inr n" and "usr_id fu = u" and "u \<noteq> td_to dto"
    and "transfer_body e fu tu dto n (wdb w\<lparr>riskEvents := evs\<rparr>) = Inr ((order, new), d')" and "wdb w' = d'"
proof -
  obtain w1 w2 where w1: "wdb w1 = wdb w" and run: "transfer_locked pw_ok e u dto w1 = (Inr order, w2)"
    and w': "wdb w' = wdb w2"
    using assms unfolding transfer_def by (rule withLock_InrE)
  obtain fu tu n w3 where fu: "find_user u (wdb w1) = Some fu" and neq: "u \<noteq> td_to dto"
    and pw: "verifyPayPassword pw_ok (now e) u (td_payPassword dto) w1 = (Inr (), w3)"
    and n: "fen (td_amount dto) = Inr n" and rest: "transfer_checked e fu tu dto n w3 = (Inr order, w2)"
    using run by (auto simp: transfer_locked_def split: if_splits option.splits)
  have w3: "wdb w3 = wdb w" using verifyPayPassword_Inr [OF pw] w1 by simp
  let ?ctx = "\<lparr>ctx_user = usr_id fu, ctx_type = TransactionType.TRANSFER, ctx_amount = n, ctx_ip = None\<rparr>"
  obtain w4 where rg: "risk_guard (now e) ?ctx w3 = (Inr (), w4)"
    and k: "andThen (transaction (transfer_body e fu tu dto n) w4) (\<lambda>(order, new) w.
           if new then record_quietly (now e) (uuid e 2) ?ctx order w else (Inr order, w)) = (Inr order, w2)"
    using rest unfolding transfer_checked_def Let_def andThen_Inr by auto
  from k obtain o' new d' where body': "transfer_body e fu tu dto n (wdb w4) = Inr ((o', new), d')"
    and q: "(if new then record_quietly (now e) (uuid e 2) ?ctx o' (w4\<lparr>wdb := d'\<rparr>)
      else (Inr o', w4\<lparr>wdb := d'\<rparr>)) = (Inr order, w2)"
    unfolding andThen_Inr by auto
  have "o' = order" and d': "wdb w2 = d'"
    using q record_quietly_db [of "now e" "uuid e 2" ?ctx o' "w4\<lparr>wdb := d'\<rparr>"] by (cases new; auto)+
  with body' have body: "transfer_body e fu tu dto n (wdb w4) = Inr ((order, new), d')" by simp
  obtain evs where "wdb w4 = wdb w\<lparr>riskEvents := evs\<rparr>" using risk_guard_Inr [OF rg] w3 by auto
  with that [of n fu tu evs new d'] n body d' w' fu neq show thesis
    by (auto simp: fen_Inr find_user_def dest: findUnique_SomeD)
qed

definition sample_transfer :: TransferDto where
  "sample_transfer = \<lparr>td_to = ''bob'', td_amount = Num 12, td_remark = None, td_payPassword = ''pw'',
     td_idem = Some ''t1''\<rparr>"

lemma sample_transfer_amount: "yuanToFen (td_amount sample_transfer) = Inr 1200"
  by code_simp

lemma sample_transfer_runs:
  "isl (fst (transfer (\<lambda>_ _. True) sample_env ''alice'' sample_transfer sample_world)) = False"
  by code_simp

lemma sample_transfer_commits:
  "isl (transfer_body sample_env (sample_user ''alice'') (sample_user ''bob'') sample_transfer 1200 sample_db) = False"
  by code_simp

lemma sample_transfer_refused:
  "transfer (\<lambda>_ _. False) sample_env ''alice'' sample_transfer sample_world =
     (Inl (BadRequest PAY_PASSWORD_INCORRECT),
      snd (transfer (\<lambda>_ _. False) sample_env ''alice'' sample_transfer sample_world))"
proof -
  have "fst (transfer (\<lambda>_ _. False) sample_env ''alice'' sample_transfer sample_world) =
    Inl (BadRequest PAY_PASSWORD_INCORRECT)" by code_simp
  then show ?thesis by (simp add: prod_eq_iff)
qed

text \<open>
  C4. A transfer that succeeds either returns the order an earlier request with the same idempotency
  key of the same payer created, and no balance moves; or it creates a completed order over the
  amount, the payer's available balance goes down by it, the payee's goes up by it, everybody else's and all
  frozen balances stay, and the total is the same.
\<close>

theorem transfer_moves_money:
  assumes "transfer pw_ok e u dto w = (Inr order, w')" and "money_ok (wdb w)"
    and "yuanToFen (td_amount dto) = Inr n"
  shows "tx_from order = Some u \<and>
    (order \<in> set (transactionOrders (wdb w)) \<and> accounts (wdb w') = accounts (wdb w) \<or>
     transactionOrders (wdb w') = transactionOrders (wdb w) @ [order] \<and>
     tx_status order = TransactionStatus.SUCCESS \<and> tx_amount order = n \<and>
     (\<forall>v. available_of v (accounts (wdb w')) = available_of v (accounts (wdb w)) +
        (if v = td_to dto then n else 0) - (if v = u then n else 0)) \<and>
     (\<forall>v. frozen_of v (accounts (wdb w')) = frozen_of v (accounts (wdb w))) \<and>
     total_assets (accounts (wdb w')) = total_assets (accounts (wdb w)))"
proof -
  obtain fu tu evs new d' where u: "usr_id fu = u" "u \<noteq> td_to dto"
    and body: "transfer_body e fu tu dto n (wdb w\<lparr>riskEvents := evs\<rparr>) = Inr ((order, new), d')" and w': "wdb w' = d'"
    using transfer_InrE [OF assms(1)] assms(3) by (metis sum.inject(2))
  let ?d = "wdb w\<lparr>riskEvents := evs\<rparr>"
  have n: "0 \<le> n" using assms(3) by (rule yuanToFen_nonneg)
  show ?thesis
  proof (cases "if truthy (td_idem dto) then find_tx_idem (the (td_idem dto)) ?d else None")
    case (Some x)
    with body have "x = order" "tx_from order = Some u" "d' = ?d" by (auto simp: transfer_body_def u)
    moreover have "order \<in> set (transactionOrders ?d)"
      using Some \<open>x = order\<close> by (auto simp: find_tx_idem_def split: if_splits dest: findUnique_in)
    ultimately show ?thesis by (simp add: w')
  next
    case None
    with body have new: "transfer_new e fu tu dto n ?d = Inr ((order, new), d')"
      unfolding transfer_body_def by simp
    have ok: "accounts_ok (accounts ?d)" using money_okD(1) [OF assms(2)] by simp
    have neq: "usr_id fu \<noteq> td_to dto" using u by simp
    obtain fa ta where fa: "account_of u (accounts (wdb w)) = Some fa"
      and ta: "account_of (td_to dto) (accounts (wdb w)) = Some ta"
      and acc: "accounts d' = move_funds (acc_id ta) n 0 (move_funds (acc_id fa) (- n) 0 (accounts (wdb w)))"
      and tx: "transactionOrders d' = transactionOrders (wdb w) @ [order]" "tx_amount order = n"
        "tx_status order = TransactionStatus.SUCCESS" "tx_from order = Some u"
      and cov: "n \<le> availableBalance fa"
      by (rule transfer_new_Inr [OF new ok n neq]) (simp add: u)
    note mv = debit_credit [OF money_okD(1) [OF assms(2)] fa ta n cov, where m = n]
    show ?thesis using tx by (simp add: w' acc mv)
  qed
qed


theorem transfer_moves_money_witness:
  "\<exists>order w'. transfer (\<lambda>_ _. True) sample_env ''alice'' sample_transfer sample_world = (Inr order, w') \<and>
     tx_from order = Some ''alice'' \<and>
     (order \<in> set (transactionOrders sample_db) \<or>
      available_of ''alice'' (accounts (wdb w')) = available_of ''alice'' (accounts sample_db) - 1200)"
proof -
  obtain order w' where run: "transfer (\<lambda>_ _. True) sample_env ''alice'' sample_transfer sample_world = (Inr order, w')"
    using not_isl_fst [OF sample_transfer_runs] by blast
  from transfer_moves_money [OF this sample_world_money_ok sample_transfer_amount] run show ?thesis
    by (auto simp: sample_world_def sample_transfer_def)
qed

text \<open>
  Retrying is safe: when a transfer with an idempotency key has committed, the same request sent
  again, at any later time, returns the same order and changes nothing.
\<close>

theorem transfer_retry_is_safe:
  assumes "transfer_body e payer payee dto n d = Inr ((order, new), d')" and "truthy (td_idem dto)"
  shows "transfer_body e' payer payee' dto n' d' = Inr ((order, False), d')"
proof (cases "find_tx_idem (the (td_idem dto)) d")
  case (Some x)
  with assms show ?thesis by (auto simp: transfer_body_def)
next
  case None
  with assms have "transfer_new e payer payee dto n d = Inr ((order, new), d')"
    by (simp add: transfer_body_def)
  then have "\<exists>a b x y d2. transfer_rows e payer payee dto n a b x y d2 = Inr ((order, new), d') \<and>
      transactionOrders d2 = transactionOrders d"
    by (fastforce simp: transfer_new_def guarded_def credit_account_def dest!: checkAndIncrementDailyLimit_frame)
  then have "transactionOrders d' = transactionOrders d @ [order]" "tx_idem order = td_idem dto"
    "tx_from order = Some (usr_id payer)"
    by (auto dest: transfer_rows_Inr)
  moreover from this None assms(2) have "find_tx_idem (the (td_idem dto)) d' = Some order"
    by (auto simp: find_tx_idem_def findUnique_append truthy_def split: option.splits)
  ultimately show ?thesis using assms(2) by (simp add: transfer_body_def)
qed

theorem transfer_retry_is_safe_witness:
  "\<exists>order new d'. transfer_body sample_env (sample_user ''alice'') (sample_user ''bob'') sample_transfer 1200 sample_db
       = Inr ((order, new), d') \<and>
     transfer_body sample_env (sample_user ''alice'') (sample_user ''bob'') sample_transfer 1200 d'
       = Inr ((order, False), d')"
proof -
  obtain order new d' where run: "transfer_body sample_env (sample_user ''alice'') (sample_user ''bob'')
      sample_transfer 1200 sample_db = Inr ((order, new), d')"
    using not_isl_pair [OF sample_transfer_commits] by auto
  with transfer_retry_is_safe [OF this] show ?thesis
    by (fastforce simp: sample_transfer_def truthy_def)
qed

text \<open>A transfer that fails leaves the database to a property that does not look at the risk events.\<close>

lemma fails_transfer:
  assumes "P (wdb w)" and ev: "ignores_events P"
  shows "fails P (transfer pw_ok e u dto w)"
proof -
  have evd: "P (wdb w\<lparr>riskEvents := evs\<rparr>)" for evs using ignores_eventsD [OF ev assms(1)] .
  show ?thesis
    unfolding transfer_def transfer_locked_def transfer_checked_def Let_def
    by (intro failing ev) (auto simp: assms evd dest!: verifyPayPassword_Inr risk_guard_Inr)
qed

end
