(* ===== verification/Escrow.thy ===== *)
theory Escrow
  imports Samples
begin

text \<open>
  Escrow trades (escrow/escrow.service.ts): create, pay, ship, confirm, request and resolve a
  refund, cancel, and the two scheduled jobs that expire unpaid orders and confirm shipped ones.

  A payment moves the amount from the buyer's available to the buyer's frozen balance; a settlement moves
  it from there to the seller, or back. \<open>pay\<close> verifies the password and runs the risk check in the
  middle of its database transaction, but on other connections: here the checks before them and
  the statements after them are two transactions around the two calls.

  The lemmas: every status change is a step of \<open>escrow_next\<close>; each transaction keeps the money
  invariant; a settlement of a paid order is never refused for a lack of frozen money.
\<close>

definition esc_conflict :: "EscrowOrder \<Rightarrow> EscrowOrder \<Rightarrow> bool" where
  "esc_conflict r s = (esc_id r = esc_id s \<or> esc_orderNo r = esc_orderNo s \<or>
     (esc_idem r \<noteq> None \<and> esc_idem r = esc_idem s))"

definition find_escrow :: "string \<Rightarrow> db \<Rightarrow> EscrowOrder option" where
  "find_escrow no d = findUnique (\<lambda>r. esc_orderNo r = no) (escrowOrders d)"

definition escrow_by_id :: "string \<Rightarrow> db \<Rightarrow> EscrowOrder option" where
  "escrow_by_id i d = findUnique (\<lambda>r. esc_id r = i) (escrowOrders d)"

definition nickname_of :: "string \<Rightarrow> db \<Rightarrow> string option" where
  "nickname_of u d = map_option usr_nickname (find_user u d)"

text \<open>
  \<open>updateMany({ where: { id, status: from }, data: f })\<close> with \<open>if (count === 0) throw err\<close>.
\<close>

definition esc_transition ::
  "string \<Rightarrow> EscrowStatus \<Rightarrow> (EscrowOrder \<Rightarrow> EscrowOrder) \<Rightarrow> exn \<Rightarrow> db \<Rightarrow> (db \<Rightarrow> exn + 'a) \<Rightarrow> exn + 'a" where
  "esc_transition i st f err d k =
     bindE (updateMany IntOutOfRange (\<lambda>_. True) (\<lambda>r. esc_id r = i \<and> esc_status r = st) f (escrowOrders d))
       (\<lambda>(c, t). throw_if (c = 0) err (k (d\<lparr>escrowOrders := t\<rparr>)))"

subsection \<open>Create\<close>

record EscrowDto =
  ed_seller :: string
  ed_amount :: jsnum
  ed_idem :: "string option"

definition create_body :: "env \<Rightarrow> string \<Rightarrow> EscrowDto \<Rightarrow> db \<Rightarrow> exn + (EscrowOrder \<times> db)" where
  "create_body e buyerId dto d =
     (case (if truthy (ed_idem dto) then findUnique (\<lambda>r. esc_idem r = ed_idem dto) (escrowOrders d) else None) of
        Some existing \<Rightarrow>
          throw_if (esc_buyer existing \<noteq> buyerId) (BadRequest IDEMPOTENCY_KEY_CONFLICT) (Inr (existing, d))
      | None \<Rightarrow>
          bindE (fen (ed_amount dto)) (\<lambda>amount.
            let order = \<lparr>esc_id = uuid e 0, esc_orderNo = generateOrderNo e 0 ''E'', esc_buyer = buyerId,
                  esc_seller = ed_seller dto, esc_amount = amount, esc_status = EscrowStatus.CREATED,
                  esc_idem = ed_idem dto, esc_refundReason = None,
                  esc_expiredAt = Some (now e + ESCROW_PAY_DEADLINE_MS), esc_paidAt = None,
                  esc_shippedAt = None, esc_receivedAt = None, esc_refundedAt = None, esc_cancelledAt = None\<rparr>
            in throw_if (\<not> int32 amount) PrismaValidation
               (bindE (create P2002 esc_conflict order (escrowOrders d))
                  (\<lambda>t. Inr (order, d\<lparr>escrowOrders := t\<rparr>)))))"

definition escrow_create :: "env \<Rightarrow> string \<Rightarrow> EscrowDto \<Rightarrow> world \<Rightarrow> (exn + EscrowOrder) \<times> world" where
  "escrow_create e buyerId dto w =
     (if amount_le0 (ed_amount dto) then (Inl (BadRequest ORDER_AMOUNT_INVALID), w)
      else if buyerId = ed_seller dto then (Inl (BadRequest ESCROW_CANNOT_SELF), w)
      else case find_user buyerId (wdb w) of
        None \<Rightarrow> (Inl (NotFound USER_NOT_FOUND), w)
      | Some buyer \<Rightarrow>
          if \<not> verified buyer then (Inl (Forbidden REAL_NAME_REQUIRED), w)
          else if \<not> may_spend buyer then (Inl (Forbidden FORBIDDEN), w)
          else if usr_risk buyer = HIGH then (Inl (Forbidden FORBIDDEN), w)
          else case find_user (ed_seller dto) (wdb w) of
            None \<Rightarrow> (Inl (NotFound PAYEE_NOT_FOUND), w)
          | Some seller \<Rightarrow>
              if \<not> verified seller then (Inl (Forbidden PAYEE_NOT_VERIFIED), w)
              else if \<not> may_receive seller then (Inl (Forbidden FORBIDDEN), w)
              else withLock (''escrow:create:'' @ buyerId) (transaction (create_body e buyerId dto)) w)"

subsection \<open>Pay\<close>

text \<open>The part of \<open>pay\<close> up to the password; an order past its deadline is updated, and then the throw.\<close>

definition pay_checks :: "env \<Rightarrow> string \<Rightarrow> string \<Rightarrow> db \<Rightarrow> exn + (EscrowOrder \<times> db)" where
  "pay_checks e buyerId orderNo d =
     or_throw (find_escrow orderNo d) (NotFound ESCROW_ORDER_NOT_FOUND) (\<lambda>order.
       throw_if (esc_buyer order \<noteq> buyerId) (Forbidden ESCROW_BUYER_ONLY)
      (throw_if (esc_status order \<noteq> EscrowStatus.CREATED) (BadRequest ESCROW_STATUS_INVALID)
      (case esc_expiredAt order of
         Some t \<Rightarrow>
           if t < now e then
             bindE (updateOne P2025 IntOutOfRange (\<lambda>_. True) (\<lambda>r. esc_id r = esc_id order)
                      (\<lambda>r. r\<lparr>esc_status := EscrowStatus.EXPIRED, esc_cancelledAt := Some (now e)\<rparr>) (escrowOrders d))
               (\<lambda>_. Inl (BadRequest ESCROW_EXPIRED))
           else Inr (order, d)
       | None \<Rightarrow> Inr (order, d))))"

definition pay_rows :: "env \<Rightarrow> EscrowOrder \<Rightarrow> Account \<Rightarrow> int \<Rightarrow> db \<Rightarrow> db" where
  "pay_rows e order buyerAccount balanceAfter d =
     (let d1 = add_ledger \<lparr>led_account = acc_id buyerAccount, led_transaction = esc_id order,
                 led_type = LedgerType.ESCROW, led_amount = esc_amount order,
                 led_before = balanceAfter + esc_amount order, led_after = balanceAfter,
                 led_direction = CREDIT\<rparr> d;
          d2 = add_bill \<lparr>bill_user = esc_buyer order, bill_transaction = esc_id order,
                 bill_type = BillType.ESCROW, bill_direction = EXPENSE, bill_amount = esc_amount order,
                 bill_counterparty = nickname_of (esc_seller order) d\<rparr> d1
      in if LARGE_ESCROW_THRESHOLD_CENTS < esc_amount order
         then add_event (esc_buyer order) LARGE_TRANSFER MEDIUM d2 else d2)"

text \<open>The part after the risk check.\<close>

definition pay_body :: "env \<Rightarrow> EscrowOrder \<Rightarrow> db \<Rightarrow> exn + (EscrowOrder option \<times> db)" where
  "pay_body e order d0 =
     bindE (checkAndIncrementDailyLimit (uuid e 0) (esc_buyer order) ''ESCROW'' (utc_day (now e)) (esc_amount order)
              (config_limit ''escrow_daily_limit'' DEFAULT_ESCROW_DAILY_LIMIT_CENTS d0) d0) (\<lambda>d.
       or_throw (account_of (esc_buyer order) (accounts d)) (NotFound ACCOUNT_NOT_FOUND) (\<lambda>buyerAccount.
         throw_if (acc_status buyerAccount \<noteq> AccountStatus.ACTIVE) (Forbidden FORBIDDEN)
        (guarded acc_freeze (BadRequest INSUFFICIENT_BALANCE) (acc_id buyerAccount) (esc_amount order) d (\<lambda>d1.
           or_throw (account_by_id (acc_id buyerAccount) (accounts d1)) (NotFound ACCOUNT_NOT_FOUND) (\<lambda>updated.
             esc_transition (esc_id order) EscrowStatus.CREATED
               (\<lambda>r. r\<lparr>esc_status := EscrowStatus.PAID, esc_paidAt := Some (now e)\<rparr>)
               (BadRequest ESCROW_STATUS_CHANGED) d1 (\<lambda>d2.
                 Inr (escrow_by_id (esc_id order) d2,
                      pay_rows e order buyerAccount (availableBalance updated) d2)))))))"

definition pay_locked ::
  "(string \<Rightarrow> string \<Rightarrow> bool) \<Rightarrow> env \<Rightarrow> string \<Rightarrow> string \<Rightarrow> string \<Rightarrow> world \<Rightarrow>
     (exn + EscrowOrder option) \<times> world" where
  "pay_locked pw_ok e buyerId orderNo payPassword w =
     andThen (transaction (pay_checks e buyerId orderNo) w) (\<lambda>order w.
       andThen (verifyPayPassword pw_ok (now e) buyerId payPassword w) (\<lambda>_ w.
         andThen (risk_guard (now e) \<lparr>ctx_user = buyerId, ctx_type = TransactionType.TRANSFER,
                    ctx_amount = esc_amount order, ctx_ip = None\<rparr> w) (\<lambda>_ w.
           transaction (pay_body e order) w)))"

definition escrow_pay ::
  "(string \<Rightarrow> string \<Rightarrow> bool) \<Rightarrow> env \<Rightarrow> string \<Rightarrow> string \<Rightarrow> string \<Rightarrow> world \<Rightarrow>
     (exn + EscrowOrder option) \<times> world" where
  "escrow_pay pw_ok e buyerId orderNo payPassword w =
     andThen (withLock (''escrow:pay:'' @ orderNo) (pay_locked pw_ok e buyerId orderNo payPassword) w)
       (\<lambda>result w. record_quietly (now e) (uuid e 1)
          \<lparr>ctx_user = buyerId, ctx_type = TransactionType.TRANSFER,
           ctx_amount = (case result of None \<Rightarrow> 0 | Some r \<Rightarrow> esc_amount r), ctx_ip = None\<rparr> result w)"

subsection \<open>Changes of status only\<close>

text \<open>\<open>ship\<close>, \<open>requestRefund\<close> and \<open>cancel\<close>: the party that may act, the status required, the change.\<close>

definition status_body ::
  "(EscrowOrder \<Rightarrow> string) \<Rightarrow> string \<Rightarrow> KBErrorCodes \<Rightarrow> string \<Rightarrow> EscrowStatus \<Rightarrow> (EscrowOrder \<Rightarrow> EscrowOrder) \<Rightarrow>
     db \<Rightarrow> exn + (EscrowOrder option \<times> db)" where
  "status_body party userId notParty orderNo st f d =
     or_throw (find_escrow orderNo d) (NotFound ESCROW_ORDER_NOT_FOUND) (\<lambda>order.
       throw_if (party order \<noteq> userId) (Forbidden notParty)
      (throw_if (esc_status order \<noteq> st) (BadRequest ESCROW_STATUS_INVALID)
      (esc_transition (esc_id order) st f (BadRequest ESCROW_ALREADY_HANDLED) d (\<lambda>d'.
         Inr (escrow_by_id (esc_id order) d', d')))))"

definition escrow_ship :: "env \<Rightarrow> string \<Rightarrow> string \<Rightarrow> world \<Rightarrow> (exn + EscrowOrder option) \<times> world" where
  "escrow_ship e sellerId orderNo =
     transaction (status_body esc_seller sellerId ESCROW_SELLER_ONLY orderNo EscrowStatus.PAID
       (\<lambda>r. r\<lparr>esc_status := EscrowStatus.SHIPPED, esc_shippedAt := Some (now e)\<rparr>))"

definition escrow_requestRefund ::
  "env \<Rightarrow> string \<Rightarrow> string \<Rightarrow> string \<Rightarrow> world \<Rightarrow> (exn + EscrowOrder option) \<times> world" where
  "escrow_requestRefund e buyerId orderNo reason =
     transaction (status_body esc_buyer buyerId ESCROW_BUYER_ONLY orderNo EscrowStatus.SHIPPED
       (\<lambda>r. r\<lparr>esc_status := EscrowStatus.REFUND_REQUESTED, esc_refundReason := Some reason\<rparr>))"

definition escrow_cancel :: "env \<Rightarrow> string \<Rightarrow> string \<Rightarrow> world \<Rightarrow> (exn + EscrowOrder option) \<times> world" where
  "escrow_cancel e buyerId orderNo =
     transaction (status_body esc_buyer buyerId ESCROW_BUYER_ONLY orderNo EscrowStatus.CREATED
       (\<lambda>r. r\<lparr>esc_status := EscrowStatus.CANCELLED, esc_cancelledAt := Some (now e)\<rparr>))"

subsection \<open>Settlement\<close>

definition release_rows :: "EscrowOrder \<Rightarrow> Account \<Rightarrow> Account \<Rightarrow> int \<Rightarrow> int \<Rightarrow> db \<Rightarrow> db" where
  "release_rows order buyerAccount sellerAccount buyerFrozen sellerAvailable d =
     add_bill \<lparr>bill_user = esc_seller order, bill_transaction = esc_id order, bill_type = ESCROW_INCOME,
         bill_direction = INCOME, bill_amount = esc_amount order,
         bill_counterparty = nickname_of (esc_buyer order) d\<rparr>
      (add_ledger \<lparr>led_account = acc_id sellerAccount, led_transaction = esc_id order,
         led_type = ESCROW_RELEASE, led_amount = esc_amount order,
         led_before = sellerAvailable - esc_amount order, led_after = sellerAvailable,
         led_direction = DEBIT\<rparr>
      (add_ledger \<lparr>led_account = acc_id buyerAccount, led_transaction = esc_id order,
         led_type = ESCROW_RELEASE, led_amount = esc_amount order,
         led_before = buyerFrozen + esc_amount order, led_after = buyerFrozen,
         led_direction = CREDIT\<rparr> d))"

text \<open>
  Pay the seller out of the buyer's frozen balance: the statements that \<open>confirm\<close> and the refusal
  branch of \<open>resolveRefund\<close> share.
\<close>

definition release_to_seller ::
  "EscrowOrder \<Rightarrow> EscrowStatus \<Rightarrow> (EscrowOrder \<Rightarrow> EscrowOrder) \<Rightarrow> db \<Rightarrow> exn + (EscrowOrder option \<times> db)" where
  "release_to_seller order st f d =
     or_throw (account_of (esc_buyer order) (accounts d)) (NotFound ACCOUNT_NOT_FOUND) (\<lambda>buyerAccount.
     or_throw (account_of (esc_seller order) (accounts d)) (NotFound ACCOUNT_NOT_FOUND) (\<lambda>sellerAccount.
       guarded acc_release (BadRequest FROZEN_BALANCE_INSUFFICIENT) (acc_id buyerAccount) (esc_amount order) d (\<lambda>d1.
         credit_account (acc_id sellerAccount) (esc_amount order) d1 (\<lambda>updatedSeller d2.
           esc_transition (esc_id order) st f (BadRequest ESCROW_ALREADY_HANDLED) d2 (\<lambda>d3.
             or_throw (account_by_id (acc_id buyerAccount) (accounts d3)) (NotFound ACCOUNT_NOT_FOUND) (\<lambda>updatedBuyer.
               Inr (escrow_by_id (esc_id order) d3,
                    release_rows order buyerAccount sellerAccount (frozenBalance updatedBuyer)
                      (availableBalance updatedSeller) d3)))))))"

definition confirm_body :: "env \<Rightarrow> string \<Rightarrow> string \<Rightarrow> db \<Rightarrow> exn + (EscrowOrder option \<times> db)" where
  "confirm_body e buyerId orderNo d =
     or_throw (find_escrow orderNo d) (NotFound ESCROW_ORDER_NOT_FOUND) (\<lambda>order.
       throw_if (esc_buyer order \<noteq> buyerId) (Forbidden ESCROW_BUYER_ONLY)
      (throw_if (esc_status order \<noteq> EscrowStatus.SHIPPED) (BadRequest ESCROW_STATUS_INVALID)
      (release_to_seller order EscrowStatus.SHIPPED
         (\<lambda>r. r\<lparr>esc_status := EscrowStatus.RECEIVED, esc_receivedAt := Some (now e)\<rparr>) d)))"

definition escrow_confirm :: "env \<Rightarrow> string \<Rightarrow> string \<Rightarrow> world \<Rightarrow> (exn + EscrowOrder option) \<times> world" where
  "escrow_confirm e buyerId orderNo =
     withLock (''escrow:confirm:'' @ orderNo) (transaction (confirm_body e buyerId orderNo))"

definition refund_rows :: "EscrowOrder \<Rightarrow> Account \<Rightarrow> int \<Rightarrow> db \<Rightarrow> db" where
  "refund_rows order buyerAccount buyerAvailable d =
     add_bill \<lparr>bill_user = esc_buyer order, bill_transaction = esc_id order,
         bill_type = BillType.ESCROW_REFUND, bill_direction = INCOME, bill_amount = esc_amount order,
         bill_counterparty = nickname_of (esc_seller order) d\<rparr>
      (add_ledger \<lparr>led_account = acc_id buyerAccount, led_transaction = esc_id order,
         led_type = LedgerType.ESCROW_REFUND, led_amount = esc_amount order,
         led_before = buyerAvailable - esc_amount order, led_after = buyerAvailable,
         led_direction = DEBIT\<rparr> d)"

definition refund_to_buyer :: "env \<Rightarrow> EscrowOrder \<Rightarrow> string option \<Rightarrow> db \<Rightarrow> exn + (EscrowOrder option \<times> db)" where
  "refund_to_buyer e order reason d =
     or_throw (account_of (esc_buyer order) (accounts d)) (NotFound ACCOUNT_NOT_FOUND) (\<lambda>buyerAccount.
       guarded acc_unfreeze (BadRequest FROZEN_BALANCE_INSUFFICIENT) (acc_id buyerAccount) (esc_amount order) d (\<lambda>d1.
         or_throw (account_by_id (acc_id buyerAccount) (accounts d1)) (NotFound ACCOUNT_NOT_FOUND) (\<lambda>updatedBuyer.
           esc_transition (esc_id order) EscrowStatus.REFUND_REQUESTED
             (\<lambda>r. r\<lparr>esc_status := EscrowStatus.REFUNDED, esc_refundedAt := Some (now e),
                    esc_refundReason := (if truthy reason then reason else esc_refundReason order)\<rparr>)
             (BadRequest ESCROW_ALREADY_HANDLED) d1 (\<lambda>d2.
               Inr (escrow_by_id (esc_id order) d2,
                    refund_rows order buyerAccount (availableBalance updatedBuyer) d2)))))"

definition resolve_body ::
  "env \<Rightarrow> string \<Rightarrow> string \<Rightarrow> bool \<Rightarrow> string option \<Rightarrow> db \<Rightarrow> exn + (EscrowOrder option \<times> db)" where
  "resolve_body e sellerId orderNo approve reason d =
     or_throw (find_escrow orderNo d) (NotFound ESCROW_ORDER_NOT_FOUND) (\<lambda>order.
       throw_if (esc_seller order \<noteq> sellerId) (Forbidden ESCROW_SELLER_ONLY)
      (throw_if (esc_status order \<noteq> EscrowStatus.REFUND_REQUESTED) (BadRequest ESCROW_STATUS_INVALID)
      (if approve then refund_to_buyer e order reason d
       else release_to_seller order EscrowStatus.REFUND_REQUESTED
         (\<lambda>r. r\<lparr>esc_status := EscrowStatus.RECEIVED, esc_receivedAt := Some (now e),
                esc_refundReason := (if truthy reason then reason else esc_refundReason order)\<rparr>) d)))"

definition escrow_resolveRefund ::
  "env \<Rightarrow> string \<Rightarrow> string \<Rightarrow> bool \<Rightarrow> string option \<Rightarrow> world \<Rightarrow> (exn + EscrowOrder option) \<times> world" where
  "escrow_resolveRefund e sellerId orderNo approve reason =
     withLock (''escrow:resolve:'' @ orderNo) (transaction (resolve_body e sellerId orderNo approve reason))"

subsection \<open>Scheduled jobs\<close>

definition expire_rows :: "int \<Rightarrow> string list \<Rightarrow> EscrowOrder list \<Rightarrow> EscrowOrder list" where
  "expire_rows t ids rows =
     fold (\<lambda>i. updateRows (\<lambda>r. esc_id r = i \<and> esc_status r = EscrowStatus.CREATED)
                 (\<lambda>r. r\<lparr>esc_status := EscrowStatus.EXPIRED, esc_cancelledAt := Some t\<rparr>)) ids rows"

definition autoExpire :: "int \<Rightarrow> world \<Rightarrow> nat \<times> world" where
  "autoExpire t w =
     (let expired = filter (\<lambda>r. esc_status r = EscrowStatus.CREATED \<and>
                       (case esc_expiredAt r of None \<Rightarrow> False | Some x \<Rightarrow> x < t)) (escrowOrders (wdb w))
      in (length expired,
          w\<lparr>wdb := (wdb w)\<lparr>escrowOrders := expire_rows t (map esc_id expired) (escrowOrders (wdb w))\<rparr>\<rparr>))"

fun confirm_all :: "env \<Rightarrow> EscrowOrder list \<Rightarrow> world \<Rightarrow> nat \<times> world" where
  "confirm_all e [] w = (0, w)"
| "confirm_all e (r # rs) w =
     (case escrow_confirm e (esc_buyer r) (esc_orderNo r) w of
        (res, w') \<Rightarrow> (case confirm_all e rs w' of
           (n, w'') \<Rightarrow> ((case res of Inl _ \<Rightarrow> n | Inr _ \<Rightarrow> Suc n), w'')))"

definition autoConfirm :: "env \<Rightarrow> world \<Rightarrow> nat \<times> world" where
  "autoConfirm e w =
     confirm_all e (filter (\<lambda>r. esc_status r = EscrowStatus.SHIPPED \<and>
        (case esc_shippedAt r of None \<Rightarrow> False | Some x \<Rightarrow> x < now e - ESCROW_AUTO_CONFIRM_MS))
        (escrowOrders (wdb w))) w"

definition escrow_findByOrderNo :: "string \<Rightarrow> string \<Rightarrow> db \<Rightarrow> exn + EscrowOrder" where
  "escrow_findByOrderNo userId orderNo d =
     or_throw (find_escrow orderNo d) (NotFound ESCROW_ORDER_NOT_FOUND) (\<lambda>order.
       throw_if (esc_buyer order \<noteq> userId \<and> esc_seller order \<noteq> userId) (Forbidden FORBIDDEN) (Inr order))"

subsection \<open>The life of an order\<close>

inductive escrow_next :: "EscrowStatus \<Rightarrow> EscrowStatus \<Rightarrow> bool" where
  paid: "escrow_next EscrowStatus.CREATED EscrowStatus.PAID"
| cancelled: "escrow_next EscrowStatus.CREATED EscrowStatus.CANCELLED"
| expired: "escrow_next EscrowStatus.CREATED EscrowStatus.EXPIRED"
| shipped: "escrow_next EscrowStatus.PAID EscrowStatus.SHIPPED"
| received: "escrow_next EscrowStatus.SHIPPED EscrowStatus.RECEIVED"
| refund_requested: "escrow_next EscrowStatus.SHIPPED EscrowStatus.REFUND_REQUESTED"
| refunded: "escrow_next EscrowStatus.REFUND_REQUESTED EscrowStatus.REFUNDED"
| refused: "escrow_next EscrowStatus.REFUND_REQUESTED EscrowStatus.RECEIVED"

inductive_simps escrow_next_iff: "escrow_next s t"

text \<open>One row before and after: same trade, same amount, status unchanged or one step further.\<close>

definition row_step :: "EscrowOrder \<Rightarrow> EscrowOrder \<Rightarrow> bool" where
  "row_step r r' = (esc_id r' = esc_id r \<and> esc_orderNo r' = esc_orderNo r \<and> esc_buyer r' = esc_buyer r \<and>
     esc_seller r' = esc_seller r \<and> esc_amount r' = esc_amount r \<and>
     (esc_status r' = esc_status r \<or> escrow_next (esc_status r) (esc_status r')))"

text \<open>The table before and after: every row steps, and rows are only added in status \<open>CREATED\<close>.\<close>

definition escrow_table_step :: "EscrowOrder list \<Rightarrow> EscrowOrder list \<Rightarrow> bool" where
  "escrow_table_step t t' = (\<exists>u v. t' = u @ v \<and> list_all2 row_step t u \<and>
     (\<forall>r \<in> set v. esc_status r = EscrowStatus.CREATED))"

lemma row_step_refl [simp]: "row_step r r"
  by (simp add: row_step_def)

lemma table_step_refl [simp]: "escrow_table_step t t"
  unfolding escrow_table_step_def by (intro exI [of _ t] exI [of _ "[]"]) (simp add: list_all2_same)

lemma table_step_update:
  assumes "\<And>r. r \<in> set t \<Longrightarrow> Q r \<Longrightarrow> row_step r (f r)"
  shows "escrow_table_step t (updateRows Q f t)"
  unfolding escrow_table_step_def using assms
  by (intro exI [of _ "updateRows Q f t"] exI [of _ "[]"])
    (auto simp: updateRows_def list_all2_conv_all_nth)

text \<open>A conditional change of status, on an order that meets the condition.\<close>

lemma esc_transition_Inr:
  assumes ok: "escrows_ok (escrowOrders d)" and r: "r \<in> set (escrowOrders d)" "esc_status r = st"
    and f: "\<And>s. esc_status s = st \<Longrightarrow> row_step s (f s)" and ids: "\<And>s. esc_id (f s) = esc_id s"
    and run: "esc_transition (esc_id r) st f err d k = Inr x"
  obtains t where "k (d\<lparr>escrowOrders := t\<rparr>) = Inr x" and "escrows_ok t"
    and "\<And>u. esc_held u t = esc_held u (escrowOrders d) +
      (if esc_buyer r = u then esc_weight (f r) - esc_weight r else 0)"
    and "escrow_table_step (escrowOrders d) t"
    and "findUnique (\<lambda>s. esc_id s = esc_id r) t = Some (f r)"
proof -
  let ?t = "updateRows (\<lambda>s. esc_id s = esc_id r \<and> esc_status s = st) f (escrowOrders d)"
  have fr: "row_step r (f r)" using f r(2) .
  show thesis
  proof (rule that)
    show "k (d\<lparr>escrowOrders := ?t\<rparr>) = Inr x" using run by (auto simp: esc_transition_def)
    have "wf_escrow (f r)" using escrows.row_ok [OF ok r(1)] fr by (simp add: wf_escrow_def row_step_def)
    then show "escrows_ok ?t" using ids by (intro escrows.update_ok [OF ok r(1)])
    show "esc_held u ?t = esc_held u (escrowOrders d) +
      (if esc_buyer r = u then esc_weight (f r) - esc_weight r else 0)" for u
      using fr by (intro escrows.update_held [where Q = "\<lambda>s. esc_status s = st", OF ok r]) (simp add: row_step_def)
    show "escrow_table_step (escrowOrders d) ?t" using f by (intro table_step_update) simp
    show "findUnique (\<lambda>s. esc_id s = esc_id r) ?t = Some (f r)"
      by (rule escrows.update_row [where Q = "\<lambda>s. esc_status s = st", OF ok r ids])
  qed
qed

lemma find_escrow_SomeD: "find_escrow no d = Some r \<Longrightarrow> r \<in> set (escrowOrders d) \<and> esc_orderNo r = no"
  unfolding find_escrow_def by (rule findUnique_SomeD)

subsection \<open>Each transaction keeps the money invariant\<close>

lemma pay_rows_frame:
  "accounts (pay_rows e r a b d) = accounts d" "escrowOrders (pay_rows e r a b d) = escrowOrders d"
  "redPackets (pay_rows e r a b d) = redPackets d" "withdrawalOrders (pay_rows e r a b d) = withdrawalOrders d"
  "platformAccounts (pay_rows e r a b d) = platformAccounts d"
  "journalEntries (pay_rows e r a b d) = journalEntries d"
  "transactionOrders (pay_rows e r a b d) = transactionOrders d"
  "ledgers_ok (pay_rows e r a b d) = ledgers_ok d"
  by (auto simp: pay_rows_def Let_def add_ledger_def add_bill_def add_event_def ledgers_ok_def ledger_ok_def)

lemma release_rows_frame:
  "accounts (release_rows r a b x y d) = accounts d" "escrowOrders (release_rows r a b x y d) = escrowOrders d"
  "redPackets (release_rows r a b x y d) = redPackets d"
  "withdrawalOrders (release_rows r a b x y d) = withdrawalOrders d"
  "platformAccounts (release_rows r a b x y d) = platformAccounts d"
  "journalEntries (release_rows r a b x y d) = journalEntries d"
  "transactionOrders (release_rows r a b x y d) = transactionOrders d"
  "ledgers_ok (release_rows r a b x y d) = ledgers_ok d"
  by (auto simp: release_rows_def add_ledger_def add_bill_def ledgers_ok_def ledger_ok_def)

lemma refund_rows_frame:
  "accounts (refund_rows r a x d) = accounts d" "escrowOrders (refund_rows r a x d) = escrowOrders d"
  "redPackets (refund_rows r a x d) = redPackets d" "withdrawalOrders (refund_rows r a x d) = withdrawalOrders d"
  "platformAccounts (refund_rows r a x d) = platformAccounts d"
  "journalEntries (refund_rows r a x d) = journalEntries d"
  "transactionOrders (refund_rows r a x d) = transactionOrders d"
  "ledgers_ok (refund_rows r a x d) = ledgers_ok d"
  by (auto simp: refund_rows_def add_ledger_def add_bill_def ledgers_ok_def ledger_ok_def)

lemmas escrow_rows_frame = pay_rows_frame release_rows_frame refund_rows_frame

lemma pay_body_money_ok:
  assumes run: "pay_body e r d = Inr (x, d')" and inv: "money_ok d"
    and r: "r \<in> set (escrowOrders d)" "esc_status r = EscrowStatus.CREATED"
  shows "money_ok d'" and "escrow_table_step (escrowOrders d) (escrowOrders d')"
proof -
  note ok = money_okD [OF inv]
  have amt: "0 \<le> esc_amount r" using escrows.row_ok [OF ok(2) r(1)] by (simp add: wf_escrow_def)
  obtain d1 a where lim: "checkAndIncrementDailyLimit (uuid e 0) (esc_buyer r) ''ESCROW'' (utc_day (now e))
      (esc_amount r) (config_limit ''escrow_daily_limit'' DEFAULT_ESCROW_DAILY_LIMIT_CENTS d) d = Inr d1"
    and a: "account_of (esc_buyer r) (accounts d1) = Some a"
    and rest: "guarded acc_freeze (BadRequest INSUFFICIENT_BALANCE) (acc_id a) (esc_amount r) d1 (\<lambda>d1.
           or_throw (account_by_id (acc_id a) (accounts d1)) (NotFound ACCOUNT_NOT_FOUND) (\<lambda>updated.
             esc_transition (esc_id r) EscrowStatus.CREATED
               (\<lambda>r. r\<lparr>esc_status := EscrowStatus.PAID, esc_paidAt := Some (now e)\<rparr>)
               (BadRequest ESCROW_STATUS_CHANGED) d1 (\<lambda>d2.
                 Inr (escrow_by_id (esc_id r) d2, pay_rows e r a (availableBalance updated) d2)))) = Inr (x, d')"
    using run by (auto simp: pay_body_def)
  obtain l where d1: "d1 = d\<lparr>dailyLimitUsages := l\<rparr>" using checkAndIncrementDailyLimit_frame [OF lim] by blast
  have ok1: "accounts_ok (accounts d1)" using ok by (simp add: d1)
  have au: "acc_user a = esc_buyer r" using account_of_SomeD [OF a] by simp
  note ai = account_of_by_id [OF ok1 a]
  note fr = freeze.guarded_Inr [OF ok1 ai amt rest]
  let ?d2 = "moved (acc_id a) (- esc_amount r) (esc_amount r) d1"
  have tr: "esc_transition (esc_id r) EscrowStatus.CREATED
      (\<lambda>r. r\<lparr>esc_status := EscrowStatus.PAID, esc_paidAt := Some (now e)\<rparr>) (BadRequest ESCROW_STATUS_CHANGED) ?d2
      (\<lambda>d2. Inr (escrow_by_id (esc_id r) d2, pay_rows e r a (availableBalance a - esc_amount r) d2)) = Inr (x, d')"
    using fr(1) ai by (simp add: account_by_id_move)
  have pre: "escrows_ok (escrowOrders ?d2)" "r \<in> set (escrowOrders ?d2)" using ok r by (simp_all add: d1)
  obtain t where t: "Inr (escrow_by_id (esc_id r) (?d2\<lparr>escrowOrders := t\<rparr>),
        pay_rows e r a (availableBalance a - esc_amount r) (?d2\<lparr>escrowOrders := t\<rparr>)) = Inr (x, d')"
    and tok: "escrows_ok t" and held: "\<And>u. esc_held u t = esc_held u (escrowOrders ?d2) +
      (if esc_buyer r = u then esc_weight (r\<lparr>esc_status := EscrowStatus.PAID, esc_paidAt := Some (now e)\<rparr>)
         - esc_weight r else 0)"
    and step: "escrow_table_step (escrowOrders ?d2) t"
    by (rule esc_transition_Inr [OF pre r(2) _ _ tr]) (auto simp: row_step_def escrow_next.intros)
  have d': "d' = pay_rows e r a (availableBalance a - esc_amount r) (?d2\<lparr>escrowOrders := t\<rparr>)" using t by simp
  show "escrow_table_step (escrowOrders d) (escrowOrders d')" using step by (simp add: d' escrow_rows_frame d1)
  show "money_ok d'"
  proof (rule money_ok_step [OF inv])
    show "books_ok d'" using ok fr(2) tok
      by (simp add: books_ok_def d' escrow_rows_frame d1 journal_balance_def)
    show "map acc_user (accounts d') = map acc_user (accounts d)" by (simp add: d' escrow_rows_frame d1)
    show "frozen_of u (accounts d') - frozen_of u (accounts d) = Holdings.held u d' - Holdings.held u d" for u
      using ai r(2) by (simp add: d' escrow_rows_frame d1 held_def held au esc_weight_def esc_open_def
          move_funds_by_id [OF ok(1)])
    show "platform_total d' - platform_total d = total_assets (accounts d') +
        in_transit (withdrawalOrders d') - (total_assets (accounts d) + in_transit (withdrawalOrders d))"
      using ai by (simp add: d' escrow_rows_frame d1 platform_total_def move_funds_by_id [OF ok(1)])
  qed
qed

text \<open>A settlement leaves no claim on the frozen money: the new status is not an open one.\<close>

lemma release_money_ok:
  assumes run: "release_to_seller r st f d = Inr (x, d')" and inv: "money_ok d"
    and r: "r \<in> set (escrowOrders d)" "esc_status r = st" "esc_open r"
    and f: "\<And>s. esc_status s = st \<Longrightarrow> row_step s (f s)" and ids: "\<And>s. esc_id (f s) = esc_id s"
    and closed: "\<not> esc_open (f r)"
  shows "money_ok d'" and "escrow_table_step (escrowOrders d) (escrowOrders d')"
    and "total_assets (accounts d') = total_assets (accounts d)"
    and "escrow_by_id (esc_id r) d' = Some (f r)"
    and "available_of (esc_seller r) (accounts d') = available_of (esc_seller r) (accounts d) + esc_amount r"
    and "\<forall>u. available_of u (accounts d') = available_of u (accounts d) + (if esc_seller r = u then esc_amount r else 0) \<and>
      frozen_of u (accounts d') = frozen_of u (accounts d) - (if esc_buyer r = u then esc_amount r else 0)"
proof -
  note ok = money_okD [OF inv]
  let ?n = "esc_amount r"
  have amt: "0 \<le> ?n" and neq: "esc_buyer r \<noteq> esc_seller r"
    using escrows.row_ok [OF ok(2) r(1)] by (auto simp: wf_escrow_def)
  obtain a b where a: "account_of (esc_buyer r) (accounts d) = Some a"
    and b: "account_of (esc_seller r) (accounts d) = Some b"
    and rest: "guarded acc_release (BadRequest FROZEN_BALANCE_INSUFFICIENT) (acc_id a) ?n d (\<lambda>d1.
         credit_account (acc_id b) ?n d1 (\<lambda>updatedSeller d2.
           esc_transition (esc_id r) st f (BadRequest ESCROW_ALREADY_HANDLED) d2 (\<lambda>d3.
             or_throw (account_by_id (acc_id a) (accounts d3)) (NotFound ACCOUNT_NOT_FOUND) (\<lambda>updatedBuyer.
               Inr (escrow_by_id (esc_id r) d3, release_rows r a b (frozenBalance updatedBuyer)
                      (availableBalance updatedSeller) d3))))) = Inr (x, d')"
    using run by (auto simp: release_to_seller_def)
  have au: "acc_user a = esc_buyer r" and bu: "acc_user b = esc_seller r"
    using account_of_SomeD [OF a] account_of_SomeD [OF b] by auto
  note ai = account_of_by_id [OF ok(1) a] and bi = account_of_by_id [OF ok(1) b]
  have ne: "acc_id b \<noteq> acc_id a"
    using account_ids_inj [OF ok(1), of b a] account_of_SomeD [OF a] account_of_SomeD [OF b] neq by auto
  note rel = release.guarded_Inr [OF ok(1) ai amt rest]
  let ?d1 = "moved (acc_id a) 0 (- ?n) d"
  let ?d2 = "moved (acc_id b) ?n 0 ?d1"
  have bi1: "account_by_id (acc_id b) (accounts ?d1) = Some b" using bi ne by (simp add: account_by_id_move)
  note cr = credit_account_Inr [OF rel(2) bi1 amt rel(1)]
  have pre: "escrows_ok (escrowOrders ?d2)" "r \<in> set (escrowOrders ?d2)" using ok r by simp_all
  obtain t where t: "or_throw (account_by_id (acc_id a) (accounts (?d2\<lparr>escrowOrders := t\<rparr>))) (NotFound ACCOUNT_NOT_FOUND)
      (\<lambda>updatedBuyer. Inr (escrow_by_id (esc_id r) (?d2\<lparr>escrowOrders := t\<rparr>), release_rows r a b
        (frozenBalance updatedBuyer) (availableBalance (move ?n 0 b)) (?d2\<lparr>escrowOrders := t\<rparr>))) = Inr (x, d')"
    and tok: "escrows_ok t" and held: "\<And>u. esc_held u t = esc_held u (escrowOrders ?d2) +
      (if esc_buyer r = u then esc_weight (f r) - esc_weight r else 0)"
    and step: "escrow_table_step (escrowOrders ?d2) t"
    and row: "findUnique (\<lambda>s. esc_id s = esc_id r) t = Some (f r)"
    using esc_transition_Inr [OF pre r(2) f ids cr(1)] by blast
  obtain z where d': "d' = release_rows r a b z (availableBalance b + ?n) (?d2\<lparr>escrowOrders := t\<rparr>)"
    using t by auto
  show "escrow_table_step (escrowOrders d) (escrowOrders d')" using step by (simp add: d' escrow_rows_frame)
  show "escrow_by_id (esc_id r) d' = Some (f r)" using row by (simp add: d' escrow_rows_frame escrow_by_id_def)
  have mv: "total_assets (accounts d') = total_assets (accounts d)"
    "frozen_of u (accounts d') = frozen_of u (accounts d) + (if esc_buyer r = u then - ?n else 0)"
    "available_of u (accounts d') = available_of u (accounts d) + (if esc_seller r = u then ?n else 0)" for u
    using move_funds_by_id [OF rel(2) bi1] move_funds_by_id [OF ok(1) ai]
    by (simp_all add: d' escrow_rows_frame au bu)
  show "total_assets (accounts d') = total_assets (accounts d)" by (rule mv(1))
  show "available_of (esc_seller r) (accounts d') = available_of (esc_seller r) (accounts d) + ?n" by (simp add: mv(3))
  show "\<forall>u. available_of u (accounts d') = available_of u (accounts d) + (if esc_seller r = u then esc_amount r else 0) \<and>
      frozen_of u (accounts d') = frozen_of u (accounts d) - (if esc_buyer r = u then esc_amount r else 0)"
    by (simp add: mv(2,3))
  show "money_ok d'"
  proof (rule money_ok_step [OF inv])
    show "books_ok d'" using ok cr(2) tok by (simp add: books_ok_def d' escrow_rows_frame journal_balance_def)
    show "map acc_user (accounts d') = map acc_user (accounts d)" by (simp add: d' escrow_rows_frame)
    show "frozen_of u (accounts d') - frozen_of u (accounts d) = Holdings.held u d' - Holdings.held u d" for u
      using r(3) closed by (simp add: mv(2)) (simp add: d' escrow_rows_frame held_def held esc_weight_def)
    show "platform_total d' - platform_total d = total_assets (accounts d') +
        in_transit (withdrawalOrders d') - (total_assets (accounts d) + in_transit (withdrawalOrders d))"
      by (simp add: mv(1)) (simp add: d' escrow_rows_frame platform_total_def)
  qed
qed

lemma refund_money_ok:
  assumes run: "refund_to_buyer e r reason d = Inr (x, d')" and inv: "money_ok d"
    and r: "r \<in> set (escrowOrders d)" "esc_status r = EscrowStatus.REFUND_REQUESTED"
  shows "money_ok d'" and "escrow_table_step (escrowOrders d) (escrowOrders d')"
    and "total_assets (accounts d') = total_assets (accounts d)"
    and "available_of (esc_buyer r) (accounts d') = available_of (esc_buyer r) (accounts d) + esc_amount r"
    and "map_option esc_status (escrow_by_id (esc_id r) d') = Some EscrowStatus.REFUNDED"
proof -
  note ok = money_okD [OF inv]
  let ?n = "esc_amount r"
  let ?f = "\<lambda>s. s\<lparr>esc_status := EscrowStatus.REFUNDED, esc_refundedAt := Some (now e),
                    esc_refundReason := (if truthy reason then reason else esc_refundReason r)\<rparr>"
  have amt: "0 \<le> ?n" using escrows.row_ok [OF ok(2) r(1)] by (auto simp: wf_escrow_def)
  obtain a where a: "account_of (esc_buyer r) (accounts d) = Some a"
    and rest: "guarded acc_unfreeze (BadRequest FROZEN_BALANCE_INSUFFICIENT) (acc_id a) ?n d (\<lambda>d1.
         or_throw (account_by_id (acc_id a) (accounts d1)) (NotFound ACCOUNT_NOT_FOUND) (\<lambda>updatedBuyer.
           esc_transition (esc_id r) EscrowStatus.REFUND_REQUESTED ?f
             (BadRequest ESCROW_ALREADY_HANDLED) d1 (\<lambda>d2.
               Inr (escrow_by_id (esc_id r) d2, refund_rows r a (availableBalance updatedBuyer) d2)))) = Inr (x, d')"
    using run by (auto simp: refund_to_buyer_def)
  have au: "acc_user a = esc_buyer r" using account_of_SomeD [OF a] by simp
  note ai = account_of_by_id [OF ok(1) a]
  note rel = unfreeze.guarded_Inr [OF ok(1) ai amt rest]
  let ?d1 = "moved (acc_id a) ?n (- ?n) d"
  have tr: "esc_transition (esc_id r) EscrowStatus.REFUND_REQUESTED ?f (BadRequest ESCROW_ALREADY_HANDLED) ?d1
      (\<lambda>d2. Inr (escrow_by_id (esc_id r) d2, refund_rows r a (availableBalance a + ?n) d2)) = Inr (x, d')"
    using rel(1) ai by (simp add: account_by_id_move)
  have pre: "escrows_ok (escrowOrders ?d1)" "r \<in> set (escrowOrders ?d1)" using ok r by simp_all
  obtain t where t: "Inr (escrow_by_id (esc_id r) (?d1\<lparr>escrowOrders := t\<rparr>),
        refund_rows r a (availableBalance a + ?n) (?d1\<lparr>escrowOrders := t\<rparr>)) = Inr (x, d')"
    and tok: "escrows_ok t" and held: "\<And>u. esc_held u t = esc_held u (escrowOrders ?d1) +
      (if esc_buyer r = u then esc_weight (?f r) - esc_weight r else 0)"
    and step: "escrow_table_step (escrowOrders ?d1) t"
    and row: "findUnique (\<lambda>s. esc_id s = esc_id r) t = Some (?f r)"
    by (rule esc_transition_Inr [OF pre r(2) _ _ tr]) (auto simp: row_step_def escrow_next.intros)
  have d': "d' = refund_rows r a (availableBalance a + ?n) (?d1\<lparr>escrowOrders := t\<rparr>)" using t by simp
  show "escrow_table_step (escrowOrders d) (escrowOrders d')" using step by (simp add: d' escrow_rows_frame)
  show "map_option esc_status (escrow_by_id (esc_id r) d') = Some EscrowStatus.REFUNDED"
    using row by (simp add: d' escrow_rows_frame escrow_by_id_def)
  have mv: "total_assets (accounts d') = total_assets (accounts d)"
    "frozen_of u (accounts d') = frozen_of u (accounts d) + (if esc_buyer r = u then - ?n else 0)"
    "available_of u (accounts d') = available_of u (accounts d) + (if esc_buyer r = u then ?n else 0)" for u
    using move_funds_by_id [OF ok(1) ai] by (simp_all add: d' escrow_rows_frame au)
  show "total_assets (accounts d') = total_assets (accounts d)" by (rule mv(1))
  show "available_of (esc_buyer r) (accounts d') = available_of (esc_buyer r) (accounts d) + ?n" by (simp add: mv(3))
  show "money_ok d'"
  proof (rule money_ok_step [OF inv])
    show "books_ok d'" using ok rel(2) tok by (simp add: books_ok_def d' escrow_rows_frame journal_balance_def)
    show "map acc_user (accounts d') = map acc_user (accounts d)" by (simp add: d' escrow_rows_frame)
    show "frozen_of u (accounts d') - frozen_of u (accounts d) = Holdings.held u d' - Holdings.held u d" for u
      using r(2) by (simp add: mv(2)) (simp add: d' escrow_rows_frame held_def held esc_weight_def esc_open_def)
    show "platform_total d' - platform_total d = total_assets (accounts d') +
        in_transit (withdrawalOrders d') - (total_assets (accounts d) + in_transit (withdrawalOrders d))"
      by (simp add: mv(1)) (simp add: d' escrow_rows_frame platform_total_def)
  qed
qed

lemma confirm_money_ok:
  assumes "confirm_body e buyerId orderNo d = Inr (x, d')" and "money_ok d"
  shows "money_ok d'" and "escrow_table_step (escrowOrders d) (escrowOrders d')"
    and "total_assets (accounts d') = total_assets (accounts d)"
    and "\<exists>r. find_escrow orderNo d = Some r \<and> esc_buyer r = buyerId \<and>
      esc_status r = EscrowStatus.SHIPPED \<and>
      map_option esc_status (escrow_by_id (esc_id r) d') = Some EscrowStatus.RECEIVED \<and>
      (\<forall>u. available_of u (accounts d') = available_of u (accounts d) + (if esc_seller r = u then esc_amount r else 0) \<and>
      frozen_of u (accounts d') = frozen_of u (accounts d) - (if esc_buyer r = u then esc_amount r else 0))"
proof -
  let ?f = "\<lambda>r. r\<lparr>esc_status := EscrowStatus.RECEIVED, esc_receivedAt := Some (now e)\<rparr>"
  obtain r where r: "find_escrow orderNo d = Some r" "esc_buyer r = buyerId" "esc_status r = EscrowStatus.SHIPPED"
    and run: "release_to_seller r EscrowStatus.SHIPPED ?f d = Inr (x, d')"
    using assms(1) by (auto simp: confirm_body_def)
  have "r \<in> set (escrowOrders d)" using find_escrow_SomeD [OF r(1)] by simp
  note rel = release_money_ok [OF run assms(2) this r(3)]
  have rel': "money_ok d'" "escrow_table_step (escrowOrders d) (escrowOrders d')"
    "total_assets (accounts d') = total_assets (accounts d)" "escrow_by_id (esc_id r) d' = Some (?f r)"
    "\<forall>u. available_of u (accounts d') = available_of u (accounts d) + (if esc_seller r = u then esc_amount r else 0) \<and>
      frozen_of u (accounts d') = frozen_of u (accounts d) - (if esc_buyer r = u then esc_amount r else 0)"
    by (rule rel; simp add: r(3) esc_open_def row_step_def escrow_next.intros)+
  then show "money_ok d'" "escrow_table_step (escrowOrders d) (escrowOrders d')"
    "total_assets (accounts d') = total_assets (accounts d)" by auto
  show "\<exists>r. find_escrow orderNo d = Some r \<and> esc_buyer r = buyerId \<and>
      esc_status r = EscrowStatus.SHIPPED \<and>
      map_option esc_status (escrow_by_id (esc_id r) d') = Some EscrowStatus.RECEIVED \<and>
      (\<forall>u. available_of u (accounts d') = available_of u (accounts d) + (if esc_seller r = u then esc_amount r else 0) \<and>
      frozen_of u (accounts d') = frozen_of u (accounts d) - (if esc_buyer r = u then esc_amount r else 0))"
    using r rel'(4,5) by auto
qed

lemma resolve_money_ok:
  assumes "resolve_body e sellerId orderNo approve reason d = Inr (x, d')" and "money_ok d"
  shows "money_ok d'" and "escrow_table_step (escrowOrders d) (escrowOrders d')"
    and "total_assets (accounts d') = total_assets (accounts d)"
proof -
  let ?f = "\<lambda>r s. s\<lparr>esc_status := EscrowStatus.RECEIVED, esc_receivedAt := Some (now e),
                esc_refundReason := (if truthy reason then reason else esc_refundReason r)\<rparr>"
  obtain r where r: "find_escrow orderNo d = Some r" "esc_status r = EscrowStatus.REFUND_REQUESTED"
    and run: "(if approve then refund_to_buyer e r reason d
      else release_to_seller r EscrowStatus.REFUND_REQUESTED (?f r) d) = Inr (x, d')"
    using assms(1) by (auto simp: resolve_body_def split: if_splits)
  have rin: "r \<in> set (escrowOrders d)" using find_escrow_SomeD [OF r(1)] by simp
  have "money_ok d' \<and> escrow_table_step (escrowOrders d) (escrowOrders d') \<and>
    total_assets (accounts d') = total_assets (accounts d)"
  proof (cases approve)
    case True
    then show ?thesis using refund_money_ok [OF _ assms(2) rin r(2)] run by simp
  next
    case False
    then have "release_to_seller r EscrowStatus.REFUND_REQUESTED (?f r) d = Inr (x, d')" using run by simp
    note rel = release_money_ok [OF this assms(2) rin r(2)]
    show ?thesis
      by (intro conjI; rule rel; simp add: r(2) esc_open_def row_step_def escrow_next.intros)
  qed
  then show "money_ok d'" and "escrow_table_step (escrowOrders d) (escrowOrders d')"
    and "total_assets (accounts d') = total_assets (accounts d)" by auto
qed

text \<open>A change of the escrow table alone, which holds for every user what it held.\<close>

lemma escrow_table_money_ok:
  assumes "money_ok d" and "escrows_ok t" and "\<And>u. esc_held u t = esc_held u (escrowOrders d)"
  shows "money_ok (d\<lparr>escrowOrders := t\<rparr>)"
  using assms(2) money_okD [OF assms(1)]
  by (intro money_ok_step [OF assms(1)])
    (simp_all add: books_ok_def held_def assms(3) platform_total_def journal_balance_def)

lemma status_body_money_ok:
  assumes run: "status_body party userId notParty orderNo st f d = Inr (x, d')" and inv: "money_ok d"
    and f: "\<And>s. esc_status s = st \<Longrightarrow> row_step s (f s)" and ids: "\<And>s. esc_id (f s) = esc_id s"
    and hold: "\<And>s. esc_status s = st \<Longrightarrow> esc_open (f s) = esc_open s"
  shows "money_ok d'" and "escrow_table_step (escrowOrders d) (escrowOrders d')"
    and "accounts d' = accounts d"
proof -
  obtain r where r: "find_escrow orderNo d = Some r" "esc_status r = st"
    and tr: "esc_transition (esc_id r) st f (BadRequest ESCROW_ALREADY_HANDLED) d
      (\<lambda>d'. Inr (escrow_by_id (esc_id r) d', d')) = Inr (x, d')"
    using run by (auto simp: status_body_def)
  have rin: "r \<in> set (escrowOrders d)" using find_escrow_SomeD [OF r(1)] by simp
  obtain t where "Inr (escrow_by_id (esc_id r) (d\<lparr>escrowOrders := t\<rparr>), d\<lparr>escrowOrders := t\<rparr>) = Inr (x, d')"
    and tok: "escrows_ok t" and held: "\<And>u. esc_held u t = esc_held u (escrowOrders d) +
      (if esc_buyer r = u then esc_weight (f r) - esc_weight r else 0)"
    and step: "escrow_table_step (escrowOrders d) t"
    using esc_transition_Inr [OF money_okD(2) [OF inv] rin r(2) f ids tr] by blast
  then have d': "d' = d\<lparr>escrowOrders := t\<rparr>" by simp
  have "esc_weight (f r) = esc_weight r"
    using f [OF r(2)] hold [OF r(2)] by (simp add: esc_weight_def row_step_def)
  then have "esc_held u t = esc_held u (escrowOrders d)" for u using held [of u] by simp
  then show "money_ok d'" unfolding d' by (rule escrow_table_money_ok [OF inv tok])
  show "escrow_table_step (escrowOrders d) (escrowOrders d')" and "accounts d' = accounts d"
    using step by (simp_all add: d')
qed

lemma create_body_Inr:
  assumes "create_body e buyerId dto d = Inr (x, d')"
  shows "d' = d \<or> (\<exists>n. fen (ed_amount dto) = Inr n \<and> esc_amount x = n \<and> esc_status x = EscrowStatus.CREATED \<and>
    esc_buyer x = buyerId \<and> esc_seller x = ed_seller dto \<and>
    (\<forall>s \<in> set (escrowOrders d). \<not> esc_conflict x s) \<and> d' = d\<lparr>escrowOrders := escrowOrders d @ [x]\<rparr>)"
proof (cases "if truthy (ed_idem dto) then findUnique (\<lambda>r. esc_idem r = ed_idem dto) (escrowOrders d) else None")
  case None
  with assms show ?thesis unfolding create_body_def None by (auto simp: Let_def)
next
  case (Some r)
  with assms show ?thesis unfolding create_body_def Some by simp
qed

lemma create_body_money_ok:
  assumes run: "create_body e buyerId dto d = Inr (x, d')" and inv: "money_ok d"
    and neq: "buyerId \<noteq> ed_seller dto"
  shows "money_ok d'" and "escrow_table_step (escrowOrders d) (escrowOrders d')"
    and "accounts d' = accounts d"
proof -
  have "money_ok d' \<and> escrow_table_step (escrowOrders d) (escrowOrders d') \<and> accounts d' = accounts d"
    using create_body_Inr [OF run]
  proof (elim disjE exE conjE)
    assume "d' = d"
    with inv show ?thesis by simp
  next
    fix n assume n: "fen (ed_amount dto) = Inr n" "esc_amount x = n"
      and new: "esc_status x = EscrowStatus.CREATED" "esc_buyer x = buyerId" "esc_seller x = ed_seller dto"
      and "\<forall>s \<in> set (escrowOrders d). \<not> esc_conflict x s"
      and d': "d' = d\<lparr>escrowOrders := escrowOrders d @ [x]\<rparr>"
    then have "esc_id x \<notin> esc_id ` set (escrowOrders d)" by (auto simp: esc_conflict_def)
    moreover have "0 \<le> esc_amount x" using n yuanToFen_nonneg by (simp add: fen_Inr)
    ultimately have "escrows_ok (escrowOrders d @ [x])"
      using neq new by (intro escrows.insert_ok money_okD(2) [OF inv]) (auto simp: wf_escrow_def)
    then have "money_ok d'" unfolding d'
      by (rule escrow_table_money_ok [OF inv]) (simp add: escrows.insert_held esc_weight_def esc_open_def new)
    moreover have "escrow_table_step (escrowOrders d) (escrowOrders d @ [x])"
      unfolding escrow_table_step_def using new
      by (intro exI [of _ "escrowOrders d"] exI [of _ "[x]"]) (simp add: list_all2_same)
    ultimately show ?thesis by (simp add: d')
  qed
  then show "money_ok d'" and "escrow_table_step (escrowOrders d) (escrowOrders d')" and "accounts d' = accounts d"
    by auto
qed

subsection \<open>Requests\<close>

text \<open>Several steps: the reflexive and transitive closure of \<open>escrow_next\<close> on every order.\<close>

definition row_evolves :: "EscrowOrder \<Rightarrow> EscrowOrder \<Rightarrow> bool" where
  "row_evolves r r' = (esc_id r' = esc_id r \<and> esc_orderNo r' = esc_orderNo r \<and> esc_buyer r' = esc_buyer r \<and>
     esc_seller r' = esc_seller r \<and> esc_amount r' = esc_amount r \<and>
     escrow_next\<^sup>*\<^sup>* (esc_status r) (esc_status r'))"

definition escrow_evolves :: "EscrowOrder list \<Rightarrow> EscrowOrder list \<Rightarrow> bool" where
  "escrow_evolves t t' = (\<exists>u v. t' = u @ v \<and> list_all2 row_evolves t u)"

lemma row_evolves_trans: "row_evolves r s \<Longrightarrow> row_evolves s q \<Longrightarrow> row_evolves r q"
  by (auto simp: row_evolves_def)

lemma evolves_refl [simp]: "escrow_evolves t t"
  unfolding escrow_evolves_def
  by (intro exI [of _ t] exI [of _ "[]"]) (simp add: list_all2_same row_evolves_def)

lemma evolves_trans:
  assumes "escrow_evolves t t'" and "escrow_evolves t' t''"
  shows "escrow_evolves t t''"
proof -
  obtain u v where u: "t' = u @ v" "list_all2 row_evolves t u" using assms(1) by (auto simp: escrow_evolves_def)
  obtain u' v' where u': "t'' = u' @ v'" "list_all2 row_evolves (u @ v) u'"
    using assms(2) u(1) by (auto simp: escrow_evolves_def)
  obtain p q where pq: "u' = p @ q" "list_all2 row_evolves u p"
    using u'(2) by (auto simp: list_all2_append1)
  have "list_all2 row_evolves t p"
    using list_all2_trans [OF _ u(2) pq(2), of row_evolves] row_evolves_trans by blast
  then show ?thesis unfolding escrow_evolves_def using u'(1) pq(1)
    by (intro exI [of _ p] exI [of _ "q @ v'"]) simp
qed

lemma table_step_evolves: "escrow_table_step t t' \<Longrightarrow> escrow_evolves t t'"
  unfolding escrow_table_step_def escrow_evolves_def
  by (fastforce simp: row_step_def row_evolves_def elim!: list_all2_mono)

definition esc_ok :: "EscrowOrder list \<Rightarrow> db \<Rightarrow> bool" where
  "esc_ok t d = (money_ok d \<and> escrow_evolves t (escrowOrders d))"

lemma esc_ok_events [keep]: "ignores_events (esc_ok t)"
  using money_ok_events by (simp add: ignores_events_def esc_ok_def)

lemma esc_ok_step:
  "esc_ok t d \<Longrightarrow> money_ok d' \<Longrightarrow> escrow_table_step (escrowOrders d) (escrowOrders d') \<Longrightarrow> esc_ok t d'"
  by (auto simp: esc_ok_def dest: table_step_evolves intro: evolves_trans)

lemma keeps_escrow_create:
  assumes "esc_ok t (wdb w)"
  shows "keeps (esc_ok t) (escrow_create e buyerId dto w)"
proof -
  have body: "esc_ok t d'" if "create_body e buyerId dto d = Inr (x, d')" "esc_ok t d" "buyerId \<noteq> ed_seller dto"
    for d x d'
  proof (rule esc_ok_step [OF that(2)])
    have "money_ok d" using that(2) by (simp add: esc_ok_def)
    with create_body_money_ok [OF that(1)] that(3)
    show "money_ok d'" and "escrow_table_step (escrowOrders d) (escrowOrders d')" by auto
  qed
  show ?thesis unfolding escrow_create_def
    by (intro keep) (use assms body in auto)
qed

lemma pay_checks_Inr:
  "pay_checks e buyerId orderNo d = Inr (r, d') \<longleftrightarrow>
     d' = d \<and> find_escrow orderNo d = Some r \<and> esc_buyer r = buyerId \<and>
     esc_status r = EscrowStatus.CREATED \<and> (\<forall>t. esc_expiredAt r = Some t \<longrightarrow> now e \<le> t)"
  by (auto simp: pay_checks_def split: option.splits if_splits)

lemma keeps_pay_locked:
  assumes "esc_ok t (wdb w)"
  shows "keeps (esc_ok t) (pay_locked pw_ok e buyerId orderNo pw w)"
  unfolding pay_locked_def
proof (rule keeps_andThen)
  show "keeps (esc_ok t) (transaction (pay_checks e buyerId orderNo) w)"
    using assms by (auto intro!: keep simp: pay_checks_Inr)
  fix r w1 assume "transaction (pay_checks e buyerId orderNo) w = (Inr r, w1)" and w1: "esc_ok t (wdb w1)"
  then have r: "r \<in> set (escrowOrders (wdb w1))" "esc_status r = EscrowStatus.CREATED"
    by (auto simp: pay_checks_Inr dest: find_escrow_SomeD)
  have body: "esc_ok t d'" if "pay_body e r d = Inr (x, d')" "esc_ok t d" "escrowOrders d = escrowOrders (wdb w1)"
    for d x d'
    using pay_body_money_ok [OF that(1) _ _ r(2)] that(2,3) r(1) by (intro esc_ok_step [OF that(2)]) (auto simp: esc_ok_def)
  show "keeps (esc_ok t) (andThen (verifyPayPassword pw_ok (now e) buyerId pw w1) (\<lambda>_ w.
         andThen (risk_guard (now e) \<lparr>ctx_user = buyerId, ctx_type = TransactionType.TRANSFER,
                    ctx_amount = esc_amount r, ctx_ip = None\<rparr> w) (\<lambda>_ w.
           transaction (pay_body e r) w)))"
  proof (intro keeps_andThen keeps_transaction)
    fix w2 w3 x d' and a b :: unit
    assume v: "verifyPayPassword pw_ok (now e) buyerId pw w1 = (Inr a, w2)"
      and g: "risk_guard (now e) \<lparr>ctx_user = buyerId, ctx_type = TransactionType.TRANSFER,
                    ctx_amount = esc_amount r, ctx_ip = None\<rparr> w2 = (Inr b, w3)"
      and ok: "esc_ok t (wdb w3)" and run: "pay_body e r (wdb w3) = Inr (x, d')"
    have "wdb w2 = wdb w1" using v by (rule verifyPayPassword_Inr)
    with risk_guard_Inr [OF g] have "escrowOrders (wdb w3) = escrowOrders (wdb w1)" by auto
    with run ok show "esc_ok t d'" by (rule body)
  qed (intro keep w1 | assumption)+
qed

lemma keeps_escrow_pay:
  "esc_ok t (wdb w) \<Longrightarrow> keeps (esc_ok t) (escrow_pay pw_ok e buyerId orderNo pw w)"
  unfolding escrow_pay_def by (intro keep keeps_pay_locked) simp_all

lemma keeps_escrow_status:
  assumes "esc_ok t (wdb w)"
  shows "keeps (esc_ok t) (escrow_ship e u orderNo w)"
    and "keeps (esc_ok t) (escrow_requestRefund e u orderNo reason w)"
    and "keeps (esc_ok t) (escrow_cancel e u orderNo w)"
proof -
  note body = status_body_money_ok [where d = "wdb w"]
  have m: "money_ok (wdb w)" using assms by (simp add: esc_ok_def)
  show "keeps (esc_ok t) (escrow_ship e u orderNo w)"
    unfolding escrow_ship_def
    by (intro keep assms esc_ok_step [OF assms]; erule body [OF _ m])
      (auto simp: row_step_def escrow_next.intros esc_open_def)
  show "keeps (esc_ok t) (escrow_requestRefund e u orderNo reason w)"
    unfolding escrow_requestRefund_def
    by (intro keep assms esc_ok_step [OF assms]; erule body [OF _ m])
      (auto simp: row_step_def escrow_next.intros esc_open_def)
  show "keeps (esc_ok t) (escrow_cancel e u orderNo w)"
    unfolding escrow_cancel_def
    by (intro keep assms esc_ok_step [OF assms]; erule body [OF _ m])
      (auto simp: row_step_def escrow_next.intros esc_open_def)
qed

lemma keeps_escrow_confirm:
  assumes "esc_ok t (wdb w)"
  shows "keeps (esc_ok t) (escrow_confirm e u orderNo w)"
  unfolding escrow_confirm_def
proof (intro keep assms)
  fix w' r d assume w': "wdb w' = wdb w" and run: "confirm_body e u orderNo (wdb w') = Inr (r, d)"
  have ok: "esc_ok t (wdb w')" using assms by (simp add: w')
  then have "money_ok (wdb w')" by (simp add: esc_ok_def)
  with confirm_money_ok(1,2) [OF run] show "esc_ok t d" by (blast intro: esc_ok_step [OF ok])
qed (simp add: assms)

lemma keeps_escrow_resolve:
  assumes "esc_ok t (wdb w)"
  shows "keeps (esc_ok t) (escrow_resolveRefund e u orderNo approve reason w)"
  unfolding escrow_resolveRefund_def
proof (intro keep assms)
  fix w' r d assume w': "wdb w' = wdb w" and run: "resolve_body e u orderNo approve reason (wdb w') = Inr (r, d)"
  have ok: "esc_ok t (wdb w')" using assms by (simp add: w')
  then have "money_ok (wdb w')" by (simp add: esc_ok_def)
  with resolve_money_ok(1,2) [OF run] show "esc_ok t d" by (blast intro: esc_ok_step [OF ok])
qed (simp add: assms)

text \<open>The scheduled jobs.\<close>

lemma expire_rows_ok:
  assumes "escrows_ok t"
  shows "escrows_ok (expire_rows now' ids t) \<and> (\<forall>u. esc_held u (expire_rows now' ids t) = esc_held u t) \<and>
    escrow_evolves t (expire_rows now' ids t)"
  using assms
proof (induction ids arbitrary: t)
  case Nil
  then show ?case by (simp add: expire_rows_def)
next
  case (Cons i ids)
  let ?f = "\<lambda>r. r\<lparr>esc_status := EscrowStatus.EXPIRED, esc_cancelledAt := Some now'\<rparr>"
  let ?t = "updateRows (\<lambda>r. esc_id r = i \<and> esc_status r = EscrowStatus.CREATED) ?f t"
  have all: "list_all wf_escrow ?t"
    using Cons.prems by (auto simp: escrows_ok_def list_all_iff wf_escrow_def set_updateRows)
  have "map esc_id ?t = map esc_id t" by (simp add: map_updateRows_frame)
  with all Cons.prems have ok: "escrows_ok ?t" by (simp add: escrows_ok_def)
  have held: "esc_held u ?t = esc_held u t" for u
    unfolding esc_held_def
    by (intro arg_cong [where f = sum_list] map_updateRows_frame) (auto simp: esc_weight_def esc_open_def)
  have "escrow_table_step t ?t"
    by (intro table_step_update) (auto simp: row_step_def escrow_next.intros)
  from table_step_evolves [OF this] Cons.IH [OF ok] held show ?case
    by (auto simp: expire_rows_def intro: evolves_trans)
qed

lemma autoExpire_ok:
  assumes "esc_ok t (wdb w)"
  shows "esc_ok t (wdb (snd (autoExpire now' w)))"
proof -
  have m: "money_ok (wdb w)" using assms by (simp add: esc_ok_def)
  obtain ids where w: "wdb (snd (autoExpire now' w)) =
      (wdb w)\<lparr>escrowOrders := expire_rows now' ids (escrowOrders (wdb w))\<rparr>"
    by (auto simp: autoExpire_def Let_def)
  have ex: "escrows_ok (expire_rows now' ids (escrowOrders (wdb w)))"
    "esc_held u (expire_rows now' ids (escrowOrders (wdb w))) = esc_held u (escrowOrders (wdb w))"
    "escrow_evolves (escrowOrders (wdb w)) (expire_rows now' ids (escrowOrders (wdb w)))" for u
    using expire_rows_ok [OF money_okD(2) [OF m]] by auto
  show ?thesis unfolding w
    using escrow_table_money_ok [OF m ex(1,2)] assms ex(3) by (auto simp: esc_ok_def intro: evolves_trans)
qed

lemma confirm_all_ok: "esc_ok t (wdb w) \<Longrightarrow> esc_ok t (wdb (snd (confirm_all e rs w)))"
proof (induction rs arbitrary: w)
  case (Cons r rs)
  obtain res w' where c: "escrow_confirm e (esc_buyer r) (esc_orderNo r) w = (res, w')" by force
  have "esc_ok t (wdb w')"
    using keeps_escrow_confirm [OF Cons.prems, of e "esc_buyer r" "esc_orderNo r"] by (simp add: keeps_def c)
  from Cons.IH [OF this] show ?case by (simp add: c case_prod_unfold)
qed simp

lemma autoConfirm_ok: "esc_ok t (wdb w) \<Longrightarrow> esc_ok t (wdb (snd (autoConfirm e w)))"
  unfolding autoConfirm_def by (rule confirm_all_ok)

subsection \<open>Settlements succeed\<close>

lemma esc_transition_eq:
  assumes "r \<in> set (escrowOrders d)" and "esc_status r = st"
  shows "esc_transition (esc_id r) st f err d k = k (d\<lparr>escrowOrders :=
    updateRows (\<lambda>s. esc_id s = esc_id r \<and> esc_status s = st) f (escrowOrders d)\<rparr>)"
proof -
  have "filter (\<lambda>s. esc_id s = esc_id r \<and> esc_status s = st) (escrowOrders d) \<noteq> []"
    using assms by (auto simp: filter_empty_conv)
  then show ?thesis by (simp add: esc_transition_def updateMany_def list_ex_iff)
qed

lemma release_succeeds:
  assumes inv: "money_ok d" and r: "r \<in> set (escrowOrders d)" "esc_status r = st" "esc_open r"
    and a: "account_of (esc_buyer r) (accounts d) = Some a"
    and b: "account_of (esc_seller r) (accounts d) = Some b"
    and fits: "totalBalance b + esc_amount r \<le> 2147483647"
  shows "\<exists>x d'. release_to_seller r st f d = Inr (x, d')"
proof -
  note ok = money_okD [OF inv]
  have amt: "0 \<le> esc_amount r" and neq: "esc_buyer r \<noteq> esc_seller r"
    using escrows.row_ok [OF ok(2) r(1)] by (auto simp: wf_escrow_def)
  have enough: "esc_amount r \<le> frozenBalance a"
    using open_order_covered(1) [OF inv a r(1)] r(3) by (simp add: esc_weight_def)
  note ai = account_of_by_id [OF ok(1) a] and bi = account_of_by_id [OF ok(1) b]
  have ne: "acc_id b \<noteq> acc_id a"
    using account_ids_inj [OF ok(1), of b a] account_of_SomeD [OF a] account_of_SomeD [OF b] neq by auto
  let ?d1 = "moved (acc_id a) 0 (- esc_amount r) d"
  have am: "a \<in> set (accounts d)" using account_of_SomeD [OF a] by simp
  have ok1: "accounts_ok (accounts ?d1)"
    using accounts_ok_move [OF ok(1) am, of 0 "- esc_amount r"] accounts_okD(3) [OF ok(1) am] amt enough
    by (auto simp: wf_account_def acc_ok_def int32_def)
  have bi1: "account_by_id (acc_id b) (accounts ?d1) = Some b" using bi ne by (simp add: account_by_id_move)
  let ?d2 = "moved (acc_id b) (esc_amount r) 0 ?d1"
  have r2: "r \<in> set (escrowOrders ?d2)" using r by simp
  show ?thesis
    using ai ne by (simp add: release_to_seller_def a b release_guarded [OF ok(1) ai amt enough]
        credit_account_eq [OF ok1 bi1 amt fits] esc_transition_eq [OF r2 r(2)] account_by_id_move)
qed

lemma refund_succeeds:
  assumes inv: "money_ok d" and r: "r \<in> set (escrowOrders d)" "esc_status r = EscrowStatus.REFUND_REQUESTED"
    and a: "account_of (esc_buyer r) (accounts d) = Some a"
  shows "\<exists>x d'. refund_to_buyer e r reason d = Inr (x, d')"
proof -
  note ok = money_okD [OF inv]
  have amt: "0 \<le> esc_amount r" using escrows.row_ok [OF ok(2) r(1)] by (auto simp: wf_escrow_def)
  have enough: "esc_amount r \<le> frozenBalance a"
    using open_order_covered(1) [OF inv a r(1)] r(2) by (simp add: esc_weight_def esc_open_def)
  note ai = account_of_by_id [OF ok(1) a]
  have r2: "r \<in> set (escrowOrders (moved (acc_id a) (esc_amount r) (- esc_amount r) d))" using r by simp
  show ?thesis
    using ai by (simp add: refund_to_buyer_def a unfreeze_guarded [OF ok(1) ai amt enough]
        esc_transition_eq [OF r2 r(2)] account_by_id_move)
qed

end
