(* ===== verification/RedPackets.thy ===== *)
theory RedPackets
  imports Samples
begin

text \<open>
  Red packets (red-packets/red-packets.service.ts): a sender freezes an amount, receivers claim
  parts of it, what is left after the deadline goes back.

  \<open>calculateClaimAmount\<close> draws the share of a lucky packet with the double-mean rule, computed in
  double arithmetic; the lemmas show that the rounding does not matter: every claim is at least one
  fen and leaves at least one fen for each of those who have not claimed. With it, every
  transaction keeps the money invariant, whose part \<open>wf_packet\<close> says that a packet is given away
  entirely and no more, and an expiry returns exactly the rest.
\<close>

definition MAX_PER_CLAIM_CENTS :: int where "MAX_PER_CLAIM_CENTS = 200 * 100"
definition MAX_TOTAL_COUNT :: int where "MAX_TOTAL_COUNT = 100"

definition rp_conflict :: "RedPacket \<Rightarrow> RedPacket \<Rightarrow> bool" where
  "rp_conflict r s = (rp_id r = rp_id s \<or> rp_packetNo r = rp_packetNo s \<or>
     (rp_idem r \<noteq> None \<and> rp_idem r = rp_idem s))"

definition rec_conflict :: "RedPacketRecord \<Rightarrow> RedPacketRecord \<Rightarrow> bool" where
  "rec_conflict r s = (rec_packet r = rec_packet s \<and> rec_receiver r = rec_receiver s)"

definition packet_by_no :: "string \<Rightarrow> db \<Rightarrow> RedPacket option" where
  "packet_by_no no d = findUnique (\<lambda>r. rp_packetNo r = no) (redPackets d)"

definition packet_by_id :: "string \<Rightarrow> db \<Rightarrow> RedPacket option" where
  "packet_by_id i d = findUnique (\<lambda>r. rp_id r = i) (redPackets d)"

subsection \<open>Create\<close>

record CreateRedPacketDto =
  rd_amount :: jsnum
  rd_payPassword :: string
  rd_type :: "string option"
  rd_totalCount :: "int option"
  rd_perAmount :: "jsnum option"
  rd_password :: "string option"
  rd_designated :: "string option"
  rd_idem :: "string option"

definition packet_type :: "string \<Rightarrow> RedPacketType option" where
  "packet_type s = (if s = ''LUCKY'' then Some LUCKY else if s = ''ORDINARY'' then Some ORDINARY
     else if s = ''EXCLUSIVE'' then Some EXCLUSIVE else if s = ''PASSWORD'' then Some PASSWORD else None)"

definition validateCreatePayload ::
  "string \<Rightarrow> int \<Rightarrow> int \<Rightarrow> int option \<Rightarrow> CreateRedPacketDto \<Rightarrow> exn + RedPacketType" where
  "validateCreatePayload ty totalCount amountFen perAmountFen dto =
     or_throw (packet_type ty) (BadRequest RED_PACKET_TYPE_INVALID) (\<lambda>type.
       throw_if (totalCount < 1 \<or> MAX_TOTAL_COUNT < totalCount) (BadRequest RED_PACKET_COUNT_INVALID)
      (case type of
         LUCKY \<Rightarrow> throw_if (amountFen < totalCount) (BadRequest RED_PACKET_AMOUNT_INVALID) (Inr type)
       | ORDINARY \<Rightarrow> (case perAmountFen of
             None \<Rightarrow> Inl (BadRequest RED_PACKET_PER_AMOUNT_INVALID)
           | Some p \<Rightarrow> throw_if (p \<le> 0) (BadRequest RED_PACKET_PER_AMOUNT_INVALID)
              (throw_if (MAX_PER_CLAIM_CENTS < p) (BadRequest RED_PACKET_PER_AMOUNT_INVALID)
              (throw_if (p * totalCount \<noteq> amountFen) (BadRequest RED_PACKET_PER_AMOUNT_INVALID) (Inr type))))
       | EXCLUSIVE \<Rightarrow> throw_if (totalCount \<noteq> 1) (BadRequest RED_PACKET_COUNT_INVALID)
              (throw_if (\<not> truthy (rd_designated dto)) (BadRequest RED_PACKET_DESIGNATED_MISMATCH) (Inr type))
       | PASSWORD \<Rightarrow> throw_if (totalCount \<noteq> 1) (BadRequest RED_PACKET_COUNT_INVALID)
              (throw_if (\<not> truthy (rd_password dto) \<or> length (the (rd_password dto)) < 4)
                 (BadRequest RED_PACKET_PASSWORD_REQUIRED) (Inr type))))"

definition packet_new ::
  "env \<Rightarrow> string \<Rightarrow> CreateRedPacketDto \<Rightarrow> RedPacketType \<Rightarrow> int \<Rightarrow> int \<Rightarrow> int option \<Rightarrow> db \<Rightarrow> exn + (RedPacket \<times> db)" where
  "packet_new e senderId dto type totalCount amountFen perAmountFen d0 =
     bindE (checkAndIncrementDailyLimit (uuid e 0) senderId ''RED_PACKET'' (utc_day (now e)) amountFen
              (config_limit ''red_packet_daily_limit'' DEFAULT_RED_PACKET_DAILY_LIMIT_CENTS d0) d0) (\<lambda>d.
       or_throw (account_of senderId (accounts d)) (NotFound ACCOUNT_NOT_FOUND) (\<lambda>account.
         throw_if (availableBalance account < amountFen) (BadRequest INSUFFICIENT_BALANCE)
        (let packet = \<lparr>rp_id = uuid e 1, rp_packetNo = generateOrderNo e 0 ''RP'', rp_sender = senderId,
               rp_amount = amountFen, rp_status = RedPacketStatus.PENDING, rp_type = type,
               rp_totalCount = totalCount, rp_remainingCount = totalCount, rp_perAmount = perAmountFen,
               rp_password = rd_password dto, rp_designated = rd_designated dto, rp_receivedAmount = 0,
               rp_idem = rd_idem dto, rp_expiresAt = now e + RED_PACKET_EXPIRY_MS,
               rp_receivedAt = None, rp_returnedAt = None\<rparr>
         in bindE (create P2002 rp_conflict packet (redPackets d)) (\<lambda>t.
            guarded acc_freeze (BadRequest INSUFFICIENT_BALANCE) (acc_id account) amountFen
              (d\<lparr>redPackets := t\<rparr>) (\<lambda>d2.
              or_throw (account_by_id (acc_id account) (accounts d2)) (NotFound ACCOUNT_NOT_FOUND) (\<lambda>updated.
                Inr (packet, add_ledger \<lparr>led_account = acc_id account, led_transaction = rp_id packet,
                  led_type = LedgerType.RED_PACKET, led_amount = amountFen,
                  led_before = availableBalance updated + amountFen, led_after = availableBalance updated,
                  led_direction = CREDIT\<rparr> d2)))))))"

definition packet_create_body ::
  "env \<Rightarrow> string \<Rightarrow> CreateRedPacketDto \<Rightarrow> RedPacketType \<Rightarrow> int \<Rightarrow> int \<Rightarrow> int option \<Rightarrow> db \<Rightarrow> exn + (RedPacket \<times> db)" where
  "packet_create_body e senderId dto type totalCount amountFen perAmountFen d =
     (case (if truthy (rd_idem dto) then findUnique (\<lambda>r. rp_idem r = rd_idem dto) (redPackets d) else None) of
        Some existing \<Rightarrow>
          throw_if (rp_sender existing \<noteq> senderId) (BadRequest IDEMPOTENCY_KEY_CONFLICT) (Inr (existing, d))
      | None \<Rightarrow> packet_new e senderId dto type totalCount amountFen perAmountFen d)"

text \<open>The designated receiver of an exclusive packet.\<close>

definition designated_checks :: "string \<Rightarrow> CreateRedPacketDto \<Rightarrow> RedPacketType \<Rightarrow> db \<Rightarrow> exn + unit" where
  "designated_checks senderId dto type d =
     (if type = EXCLUSIVE \<and> truthy (rd_designated dto) then
        or_throw (find_user (the (rd_designated dto)) d) (NotFound PAYEE_NOT_FOUND) (\<lambda>payee.
          throw_if (\<not> verified payee) (BadRequest PAYEE_NOT_VERIFIED)
         (throw_if (the (rd_designated dto) = senderId) (BadRequest RED_PACKET_CLAIM_SELF) (Inr ())))
      else Inr ())"

definition per_amount :: "CreateRedPacketDto \<Rightarrow> exn + int option" where
  "per_amount dto = (case rd_perAmount dto of None \<Rightarrow> Inr None | Some a \<Rightarrow> bindE (fen a) (\<lambda>n. Inr (Some n)))"

definition total_count :: "CreateRedPacketDto \<Rightarrow> int" where
  "total_count dto = (case rd_totalCount dto of None \<Rightarrow> 1 | Some n \<Rightarrow> n)"

definition packet_payload :: "string \<Rightarrow> CreateRedPacketDto \<Rightarrow> db \<Rightarrow> exn + (RedPacketType \<times> int \<times> int option)" where
  "packet_payload senderId dto d =
     bindE (fen (rd_amount dto)) (\<lambda>amountFen.
     bindE (per_amount dto) (\<lambda>perAmountFen.
     bindE (validateCreatePayload (if truthy (rd_type dto) then the (rd_type dto) else ''LUCKY'')
              (total_count dto) amountFen perAmountFen dto) (\<lambda>type.
     bindE (designated_checks senderId dto type d) (\<lambda>_. Inr (type, amountFen, perAmountFen)))))"

definition packet_create ::
  "(string \<Rightarrow> string \<Rightarrow> bool) \<Rightarrow> env \<Rightarrow> string \<Rightarrow> CreateRedPacketDto \<Rightarrow> world \<Rightarrow> (exn + RedPacket) \<times> world" where
  "packet_create pw_ok e senderId dto w =
     (if amount_le0 (rd_amount dto) then (Inl (BadRequest RED_PACKET_AMOUNT_INVALID), w)
      else case find_user senderId (wdb w) of
        None \<Rightarrow> (Inl (NotFound USER_NOT_FOUND), w)
      | Some sender \<Rightarrow>
          if \<not> verified sender then (Inl (Forbidden REAL_NAME_REQUIRED), w)
          else if \<not> may_spend sender then (Inl (Forbidden FORBIDDEN), w)
          else if usr_risk sender = HIGH then (Inl (Forbidden FORBIDDEN), w)
          else andThen (verifyPayPassword pw_ok (now e) senderId (rd_payPassword dto) w) (\<lambda>_ w.
            andThen (packet_payload senderId dto (wdb w), w) (\<lambda>(type, amountFen, perAmountFen) w.
              let ctx = \<lparr>ctx_user = senderId, ctx_type = TransactionType.RED_PACKET,
                         ctx_amount = amountFen, ctx_ip = None\<rparr>
              in andThen (risk_guard (now e) ctx w) (\<lambda>_ w.
                 andThen (withLock (''redpacket:create:'' @ senderId)
                            (transaction (packet_create_body e senderId dto type (total_count dto)
                               amountFen perAmountFen)) w) (\<lambda>packet w.
                   record_quietly (now e) (uuid e 2) ctx packet w)))))"

subsection \<open>Claim\<close>

text \<open>
  The amount of the next claim; \<open>None\<close> is the \<open>null\<close> an ordinary packet without a per-claim amount
  would give.
\<close>

definition lucky_max :: "int \<Rightarrow> int \<Rightarrow> int" where
  "lucky_max remainingAmount remainingCount =
     \<lfloor>js_mul (js_div (of_int remainingAmount) (of_int remainingCount)) 2\<rfloor> - 1"

definition calculateClaimAmount :: "env \<Rightarrow> RedPacket \<Rightarrow> int option" where
  "calculateClaimAmount e p =
     (case rp_type p of
        ORDINARY \<Rightarrow> rp_perAmount p
      | EXCLUSIVE \<Rightarrow> Some (rp_amount p)
      | PASSWORD \<Rightarrow> Some (rp_amount p)
      | LUCKY \<Rightarrow>
          (let remainingAmount = rp_amount p - rp_receivedAmount p; remainingCount = rp_remainingCount p
           in if remainingCount = 1 then Some remainingAmount
              else let maxAmount = lucky_max remainingAmount remainingCount; minAmount = 1
                   in if maxAmount < minAmount then Some minAmount
                      else Some (minAmount + randomInt e 0 (maxAmount - minAmount + 1))))"

text \<open>A claim is either the record of an earlier one or the new one.\<close>

datatype Claim =
    ExistingClaim RedPacketRecord
  | NewClaim string int RedPacketType int int RedPacketStatus

fun claim_amount :: "Claim \<Rightarrow> int" where
  "claim_amount (ExistingClaim r) = rec_amount r"
| "claim_amount (NewClaim no n ty cnt rcv st) = n"

definition claim_checks ::
  "env \<Rightarrow> string \<Rightarrow> string \<Rightarrow> string option \<Rightarrow> db \<Rightarrow> exn + ((RedPacketRecord + RedPacket \<times> int) \<times> db)" where
  "claim_checks e receiverId packetNo password d =
     or_throw (packet_by_no packetNo d) (NotFound RED_PACKET_NOT_FOUND) (\<lambda>p.
       case findUnique (\<lambda>r. rec_packet r = rp_id p \<and> rec_receiver r = receiverId \<and>
                          rec_type r = RECEIVE) (redPacketRecords d) of
         Some existing \<Rightarrow> Inr (Inl existing, d)
       | None \<Rightarrow>
         throw_if (\<not> rp_open p) (BadRequest RED_PACKET_CLAIMED_OR_EXPIRED)
        (throw_if (rp_sender p = receiverId) (BadRequest RED_PACKET_CLAIM_SELF)
        (throw_if (rp_expiresAt p < now e) (BadRequest RED_PACKET_EXPIRED)
        (throw_if (rp_remainingCount p \<le> 0) (BadRequest RED_PACKET_CLAIMED_OR_EXPIRED)
        (throw_if (rp_type p = EXCLUSIVE \<and> rp_designated p \<noteq> Some receiverId)
           (Forbidden RED_PACKET_DESIGNATED_MISMATCH)
        (throw_if (rp_type p = PASSWORD \<and> \<not> truthy password) (BadRequest RED_PACKET_PASSWORD_REQUIRED)
        (throw_if (rp_type p = PASSWORD \<and> rp_password p \<noteq> password) (BadRequest RED_PACKET_PASSWORD_INCORRECT)
        (or_throw (calculateClaimAmount e p) PrismaValidation (\<lambda>n. Inr (Inr (p, n), d))))))))))"

definition claim_rows ::
  "RedPacket \<Rightarrow> string \<Rightarrow> string option \<Rightarrow> int \<Rightarrow> Account \<Rightarrow> Account \<Rightarrow> int \<Rightarrow> int \<Rightarrow> db \<Rightarrow> db" where
  "claim_rows p receiverId nickname n senderAccount receiverAccount senderFrozen receiverAvailable d =
     add_bill \<lparr>bill_user = receiverId, bill_transaction = rp_id p, bill_type = BillType.RED_PACKET,
         bill_direction = INCOME, bill_amount = n,
         bill_counterparty = map_option usr_nickname (find_user (rp_sender p) d)\<rparr>
    (add_bill \<lparr>bill_user = rp_sender p, bill_transaction = rp_id p, bill_type = BillType.RED_PACKET,
         bill_direction = EXPENSE, bill_amount = n, bill_counterparty = nickname\<rparr>
    (add_ledger \<lparr>led_account = acc_id receiverAccount, led_transaction = rp_id p,
         led_type = LedgerType.RED_PACKET, led_amount = n, led_before = receiverAvailable - n,
         led_after = receiverAvailable, led_direction = DEBIT\<rparr>
    (add_ledger \<lparr>led_account = acc_id senderAccount, led_transaction = rp_id p,
         led_type = LedgerType.RED_PACKET, led_amount = n, led_before = senderFrozen + n,
         led_after = senderFrozen, led_direction = CREDIT\<rparr> d)))"

definition claim_update :: "env \<Rightarrow> RedPacket \<Rightarrow> int \<Rightarrow> RedPacket \<Rightarrow> RedPacket" where
  "claim_update e p n r = r\<lparr>rp_remainingCount := rp_remainingCount r - 1,
     rp_receivedAmount := rp_receivedAmount r + n,
     rp_status := (if rp_remainingCount p = 1 then RedPacketStatus.RECEIVED
                   else RedPacketStatus.PARTIALLY_RECEIVED),
     rp_receivedAt := (if rp_remainingCount p = 1 then Some (now e) else rp_receivedAt p)\<rparr>"

definition claim_body ::
  "env \<Rightarrow> User \<Rightarrow> RedPacket \<Rightarrow> int \<Rightarrow> db \<Rightarrow> exn + (Claim \<times> db)" where
  "claim_body e receiver p n d =
     bindE (updateMany IntOutOfRange (\<lambda>r. int32 (rp_receivedAmount r))
              (\<lambda>r. rp_id r = rp_id p \<and> 0 < rp_remainingCount r \<and> rp_open r)
              (claim_update e p n) (redPackets d)) (\<lambda>(c, t).
       throw_if (c = 0) (BadRequest RED_PACKET_CLAIMED_OR_EXPIRED)
      (let d1 = d\<lparr>redPackets := t\<rparr>
       in or_throw (account_of (usr_id receiver) (accounts d1)) (NotFound ACCOUNT_NOT_FOUND) (\<lambda>receiverAccount.
          credit_account (acc_id receiverAccount) n d1 (\<lambda>updatedReceiver d2.
            or_throw (account_of (rp_sender p) (accounts d2)) (NotFound ACCOUNT_NOT_FOUND) (\<lambda>senderAccount.
              guarded acc_release (BadRequest RED_PACKET_STATUS_CHANGED) (acc_id senderAccount) n d2 (\<lambda>d3.
                or_throw (account_by_id (acc_id senderAccount) (accounts d3)) (NotFound ACCOUNT_NOT_FOUND) (\<lambda>updatedSender.
                  bindE (create P2002 rec_conflict \<lparr>rec_packet = rp_id p, rec_receiver = usr_id receiver,
                           rec_amount = n, rec_type = RECEIVE\<rparr> (redPacketRecords d3)) (\<lambda>rs.
                    Inr (NewClaim (rp_packetNo p) n (rp_type p) (rp_remainingCount p - 1)
                           (rp_receivedAmount p + n)
                           (if rp_remainingCount p = 1 then RedPacketStatus.RECEIVED
                            else RedPacketStatus.PARTIALLY_RECEIVED),
                         claim_rows p (usr_id receiver) (Some (usr_nickname receiver)) n senderAccount
                           receiverAccount (frozenBalance updatedSender) (availableBalance updatedReceiver)
                           (d3\<lparr>redPacketRecords := rs\<rparr>))))))))))"

definition receive_locked ::
  "env \<Rightarrow> User \<Rightarrow> string \<Rightarrow> string option \<Rightarrow> world \<Rightarrow> (exn + Claim) \<times> world" where
  "receive_locked e receiver packetNo password w =
     andThen (transaction (claim_checks e (usr_id receiver) packetNo password) w) (\<lambda>found w.
       case found of
         Inl existing \<Rightarrow> (Inr (ExistingClaim existing), w)
       | Inr (p, n) \<Rightarrow>
           andThen (risk_guard (now e) \<lparr>ctx_user = usr_id receiver, ctx_type = TransactionType.RED_PACKET,
                      ctx_amount = n, ctx_ip = None\<rparr> w) (\<lambda>_ w.
             transaction (claim_body e receiver p n) w))"

definition packet_receive ::
  "env \<Rightarrow> string \<Rightarrow> string \<Rightarrow> string option \<Rightarrow> world \<Rightarrow> (exn + Claim) \<times> world" where
  "packet_receive e receiverId packetNo password w =
     (case find_user receiverId (wdb w) of
        None \<Rightarrow> (Inl (NotFound USER_NOT_FOUND), w)
      | Some receiver \<Rightarrow>
          if \<not> verified receiver then (Inl (Forbidden REAL_NAME_REQUIRED), w)
          else if \<not> may_receive receiver then (Inl (Forbidden FORBIDDEN), w)
          else andThen (withLock (''redpacket:receive:'' @ packetNo)
                          (receive_locked e receiver packetNo password) w) (\<lambda>result w.
            record_quietly (now e) (uuid e 0)
              \<lparr>ctx_user = receiverId, ctx_type = TransactionType.RED_PACKET,
               ctx_amount = claim_amount result, ctx_ip = None\<rparr> result w))"

subsection \<open>Expiry\<close>

definition return_rows :: "RedPacket \<Rightarrow> int \<Rightarrow> Account \<Rightarrow> int \<Rightarrow> db \<Rightarrow> db" where
  "return_rows p n account available d =
     add_bill \<lparr>bill_user = rp_sender p, bill_transaction = rp_id p, bill_type = BillType.RED_PACKET,
         bill_direction = INCOME, bill_amount = n, bill_counterparty = None\<rparr>
    (add_ledger \<lparr>led_account = acc_id account, led_transaction = rp_id p,
         led_type = LedgerType.RED_PACKET, led_amount = n, led_before = available - n,
         led_after = available, led_direction = DEBIT\<rparr> d)"

definition returnPacket :: "env \<Rightarrow> string \<Rightarrow> db \<Rightarrow> exn + (RedPacket option \<times> db)" where
  "returnPacket e packetId d =
     bindE (updateMany IntOutOfRange (\<lambda>_. True) (\<lambda>r. rp_id r = packetId \<and> rp_open r)
              (\<lambda>r. r\<lparr>rp_status := RedPacketStatus.EXPIRED, rp_returnedAt := Some (now e)\<rparr>) (redPackets d)) (\<lambda>(c, t).
       if c = 0 then Inr (None, d\<lparr>redPackets := t\<rparr>)
       else let d1 = d\<lparr>redPackets := t\<rparr>
            in case packet_by_id packetId d1 of
                 None \<Rightarrow> Inr (None, d1)
               | Some p \<Rightarrow>
                   let refund = rp_amount p - rp_receivedAmount p
                   in if refund \<le> 0 then Inr (Some p, d1)
                      else or_throw (account_of (rp_sender p) (accounts d1)) (NotFound ACCOUNT_NOT_FOUND) (\<lambda>account.
                        guarded acc_unfreeze (BadRequest RED_PACKET_STATUS_CHANGED) (acc_id account) refund d1 (\<lambda>d2.
                          or_throw (account_by_id (acc_id account) (accounts d2)) (NotFound ACCOUNT_NOT_FOUND) (\<lambda>updated.
                            bindE (create P2002 rec_conflict \<lparr>rec_packet = rp_id p, rec_receiver = rp_sender p,
                                     rec_amount = refund, rec_type = RETURN\<rparr> (redPacketRecords d2)) (\<lambda>rs.
                              Inr (Some p, return_rows p refund account (availableBalance updated)
                                             (d2\<lparr>redPacketRecords := rs\<rparr>)))))))"

definition expire_body :: "env \<Rightarrow> string \<Rightarrow> db \<Rightarrow> exn + (RedPacket option \<times> db)" where
  "expire_body e packetId d =
     or_throw (packet_by_id packetId d) (NotFound RED_PACKET_NOT_FOUND) (\<lambda>p.
       if \<not> rp_open p then Inr (Some p, d) else returnPacket e (rp_id p) d)"

definition expireReturn :: "env \<Rightarrow> string \<Rightarrow> world \<Rightarrow> (exn + RedPacket option) \<times> world" where
  "expireReturn e packetId = transaction (expire_body e packetId)"

text \<open>The scheduled job: every open packet past its deadline, one transaction each.\<close>

fun expire_all :: "env \<Rightarrow> string list \<Rightarrow> world \<Rightarrow> (nat \<times> nat) \<times> world" where
  "expire_all e [] w = ((0, 0), w)"
| "expire_all e (i # is) w =
     (case expireReturn e i w of (res, w') \<Rightarrow>
        (case expire_all e is w' of ((s, f), w'') \<Rightarrow>
           ((case res of Inr _ \<Rightarrow> (Suc s, f) | Inl _ \<Rightarrow> (s, Suc f)), w'')))"

definition expireRedPackets :: "env \<Rightarrow> world \<Rightarrow> (nat \<times> nat) \<times> world" where
  "expireRedPackets e w =
     expire_all e (map rp_id (filter (\<lambda>p. rp_open p \<and> rp_expiresAt p < now e) (redPackets (wdb w)))) w"

subsection \<open>The double-mean rule in double arithmetic\<close>

text \<open>The random integers keep to the range they are asked for, as \<open>crypto.randomInt\<close> documents.\<close>

definition random_ok :: "env \<Rightarrow> bool" where
  "random_ok e = (\<forall>lo hi. lo < hi \<longrightarrow> lo \<le> randomInt e lo hi \<and> randomInt e lo hi < hi)"

text \<open>Two roundings of a quotient below $10^{11}$ are off by much less than a hundredth.\<close>

lemma two_errors:
  fixes a b c :: rat
  assumes "\<bar>a\<bar> \<le> 4 * c" and "\<bar>b\<bar> \<le> c"
  shows "\<bar>a + 2 * b\<bar> \<le> 6 * c"
  using assms by (auto simp: abs_if split: if_splits)

lemma js_double_mean_err:
  assumes "0 \<le> x" and "x \<le> 100000000000"
  shows "\<bar>js_mul (fl x) 2 - 2 * x\<bar> < 1 / 100"
proof -
  define c :: rat where "c = x / 2 ^ 53"
  have e1: "\<bar>fl x - x\<bar> \<le> c" using fl_err [of x] assms(1) by (simp add: c_def)
  have c: "0 \<le> c" "x = 2 ^ 53 * c" using assms(1) by (simp_all add: c_def)
  have "\<bar>fl x\<bar> \<le> 2 * x" using e1 c by (auto simp: abs_if split: if_splits)
  then have "\<bar>fl x * 2\<bar> / 2 ^ 53 \<le> 4 * c" by (simp add: abs_mult c_def)
  with fl_err [of "fl x * 2"] have e2: "\<bar>fl (fl x * 2) - fl x * 2\<bar> \<le> 4 * c" by linarith
  have "js_mul (fl x) 2 - 2 * x = (fl (fl x * 2) - fl x * 2) + 2 * (fl x - x)"
    by (simp add: js_mul_def)
  then have "\<bar>js_mul (fl x) 2 - 2 * x\<bar> \<le> 6 * c"
    using two_errors [OF e2 e1] by simp
  also have "\<dots> < 1 / 100" using assms(2) by (simp add: c_def)
  finally show ?thesis .
qed

lemma lucky_max_bound:
  assumes "2 \<le> k" and "k \<le> 100" and "0 \<le> r" and "r \<le> 100000000000"
  shows "(lucky_max r k + 1) * k \<le> 2 * r"
proof -
  let ?x = "(of_int r :: rat) / of_int k"
  let ?y = "js_mul (js_div (of_int r) (of_int k)) 2"
  have k: "(2::rat) \<le> of_int k" "(of_int k :: rat) \<le> 100" using assms(1,2) by simp_all
  have x0: "0 \<le> ?x" using assms(3) k by simp
  have rb: "(of_int r :: rat) \<le> 100000000000" using assms(4) by simp
  have "?x \<le> of_int r" using k assms(3) by (simp add: divide_le_eq mult_le_cancel_left1)
  then have "?x \<le> 100000000000" using rb by simp
  from js_double_mean_err [OF x0 this] have y: "?y < 2 * ?x + 1 / 100" by (simp add: js_div_def abs_if split: if_splits)
  have "of_int (lucky_max r k + 1) \<le> ?y" by (simp add: lucky_max_def)
  moreover have "(1 / 100 :: rat) \<le> 1 / of_int k" using k by (intro divide_left_mono) simp_all
  ultimately have "of_int (lucky_max r k + 1) < 2 * ?x + 1 / of_int k" using y by linarith
  then have "of_int (lucky_max r k + 1) * of_int k < (2 * of_int r + 1 :: rat)"
    using k by (simp add: field_simps)
  then have "(of_int ((lucky_max r k + 1) * k) :: rat) < of_int (2 * r + 1)" by simp
  then have "(lucky_max r k + 1) * k < 2 * r + 1" by (simp only: of_int_less_iff)
  then show ?thesis by simp
qed

text \<open>Whatever is drawn leaves a fen for each of those after.\<close>

lemma lucky_leaves_enough:
  fixes q r k :: int
  assumes "2 \<le> k" and "k \<le> r" and "q * k \<le> 2 * r"
  shows "k - 1 \<le> r - (q - 1)"
proof (rule ccontr)
  assume "\<not> k - 1 \<le> r - (q - 1)"
  then have "r - k + 3 \<le> q" by simp
  then have "(r - k + 3) * k \<le> q * k" using assms(1) by (intro mult_right_mono) simp_all
  with assms(3) have "r * (k - 2) \<le> k * k - 3 * k" by (simp add: algebra_simps)
  moreover have "k * (k - 2) \<le> r * (k - 2)" using assms(1,2) by (intro mult_right_mono) simp_all
  ultimately show False using assms(1) by (simp add: algebra_simps)
qed

lemma lucky_claim:
  assumes "random_ok e" and "2 \<le> rp_remainingCount p" and "rp_remainingCount p \<le> 100"
    and "rp_remainingCount p \<le> rp_rest p" and "rp_rest p \<le> 100000000000"
    and "rp_type p = LUCKY" and "calculateClaimAmount e p = Some n"
  shows "1 \<le> n \<and> rp_remainingCount p - 1 \<le> rp_rest p - n"
proof -
  let ?k = "rp_remainingCount p" and ?r = "rp_rest p"
  let ?m = "lucky_max ?r ?k"
  have b: "(?m + 1) * ?k \<le> 2 * ?r" using assms by (intro lucky_max_bound) simp_all
  have n: "n = (if ?m < 1 then 1 else 1 + randomInt e 0 (?m - 1 + 1))"
    using assms(2,6,7) by (auto simp: calculateClaimAmount_def Let_def rp_rest_def split: if_splits)
  show ?thesis
  proof (cases "?m < 1")
    case True
    with n assms(4) show ?thesis by simp
  next
    case False
    then have "0 \<le> randomInt e 0 (?m - 1 + 1)" and "randomInt e 0 (?m - 1 + 1) < ?m - 1 + 1"
      using assms(1) by (auto simp: random_ok_def)
    moreover have "?k - 1 \<le> ?r - (?m + 1 - 1)"
      using lucky_leaves_enough [OF assms(2,4) b] .
    ultimately show ?thesis using n False by simp
  qed
qed

text \<open>A claim on a well-formed open packet leaves a well-formed packet.\<close>

lemma claim_wf:
  assumes wf: "wf_packet p" and op: "rp_open p" and rnd: "random_ok e"
    and n: "calculateClaimAmount e p = Some n"
  shows "0 \<le> n" and "n \<le> rp_rest p" and "wf_packet (claim_update e p n p)"
    and "rp_weight (claim_update e p n p) = rp_weight p - n"
    and "rp_type p = LUCKY \<Longrightarrow> 1 \<le> n"
proof -
  let ?k = "rp_remainingCount p"
  have base: "0 \<le> rp_receivedAmount p" "rp_receivedAmount p \<le> rp_amount p" "rp_amount p \<le> 100000000000"
    "1 \<le> ?k" "?k \<le> 100" "rest_suffices p"
    using wf op by (auto simp: wf_packet_def)
  have "0 \<le> n \<and> n \<le> rp_rest p \<and> (?k = 1 \<longrightarrow> n = rp_rest p) \<and> (rp_type p = LUCKY \<longrightarrow> 1 \<le> n) \<and>
    (2 \<le> ?k \<longrightarrow> rest_suffices (claim_update e p n p))"
  proof (cases "rp_type p")
    case LUCKY
    show ?thesis
    proof (cases "?k = 1")
      case True
      with LUCKY base n show ?thesis by (auto simp: calculateClaimAmount_def rest_suffices_def rp_rest_def)
    next
      case False
      have k: "2 \<le> ?k" "?k \<le> rp_rest p" "rp_rest p \<le> 100000000000"
        using False LUCKY base by (auto simp: rest_suffices_def rp_rest_def)
      have "1 \<le> n \<and> ?k - 1 \<le> rp_rest p - n"
        using lucky_claim [OF rnd k(1) base(5) k(2,3) LUCKY n] .
      with k LUCKY show ?thesis by (auto simp: rest_suffices_def claim_update_def rp_rest_def)
    qed
  next
    case ORDINARY
    with base(6) n have per: "rp_perAmount p = Some n" "0 < n" "rp_rest p = n * ?k"
      by (auto simp: calculateClaimAmount_def rest_suffices_def)
    have "n * 1 \<le> n * ?k" using per(2) base(4) by (intro mult_left_mono) simp_all
    with per ORDINARY show ?thesis
      by (auto simp: rest_suffices_def claim_update_def rp_rest_def algebra_simps)
  qed (use base n in \<open>auto simp: calculateClaimAmount_def rest_suffices_def rp_rest_def\<close>)
  then show "0 \<le> n" and "n \<le> rp_rest p" and "wf_packet (claim_update e p n p)"
    and "rp_weight (claim_update e p n p) = rp_weight p - n" and "rp_type p = LUCKY \<Longrightarrow> 1 \<le> n"
    using base op
    by (auto simp: wf_packet_def claim_update_def rp_open_def rp_rest_def rp_weight_def)
qed

subsection \<open>Each transaction keeps the money invariant\<close>

lemma packet_rows_frame:
  "accounts (claim_rows p u nm n a b x y d) = accounts d"
  "escrowOrders (claim_rows p u nm n a b x y d) = escrowOrders d"
  "redPackets (claim_rows p u nm n a b x y d) = redPackets d"
  "withdrawalOrders (claim_rows p u nm n a b x y d) = withdrawalOrders d"
  "platformAccounts (claim_rows p u nm n a b x y d) = platformAccounts d"
  "journalEntries (claim_rows p u nm n a b x y d) = journalEntries d"
  "redPacketRecords (claim_rows p u nm n a b x y d) = redPacketRecords d"
  "transactionOrders (claim_rows p u nm n a b x y d) = transactionOrders d"
  "ledgers_ok (claim_rows p u nm n a b x y d) = ledgers_ok d"
  "accounts (return_rows p n a x d) = accounts d" "escrowOrders (return_rows p n a x d) = escrowOrders d"
  "redPackets (return_rows p n a x d) = redPackets d"
  "withdrawalOrders (return_rows p n a x d) = withdrawalOrders d"
  "platformAccounts (return_rows p n a x d) = platformAccounts d"
  "journalEntries (return_rows p n a x d) = journalEntries d"
  "redPacketRecords (return_rows p n a x d) = redPacketRecords d"
  "transactionOrders (return_rows p n a x d) = transactionOrders d"
  "ledgers_ok (return_rows p n a x d) = ledgers_ok d"
  by (auto simp: claim_rows_def return_rows_def add_ledger_def add_bill_def ledgers_ok_def ledger_ok_def)

lemma packet_no_SomeD: "packet_by_no no d = Some p \<Longrightarrow> p \<in> set (redPackets d) \<and> rp_packetNo p = no"
  unfolding packet_by_no_def by (rule findUnique_SomeD)

lemma packet_id_SomeD: "packet_by_id i d = Some p \<Longrightarrow> p \<in> set (redPackets d) \<and> rp_id p = i"
  unfolding packet_by_id_def by (rule findUnique_SomeD)

text \<open>A valid payload gives a packet whose amount suffices.\<close>

lemma validate_suffices:
  assumes "validateCreatePayload ty cnt n per dto = Inr type" and "rp_type p = type"
    and "rp_remainingCount p = cnt" and "rp_amount p = n" and "rp_receivedAmount p = 0" and "rp_perAmount p = per"
  shows "1 \<le> cnt \<and> cnt \<le> 100 \<and> rest_suffices p"
proof (cases "packet_type ty")
  case None
  with assms(1) show ?thesis by (simp add: validateCreatePayload_def)
next
  case (Some a)
  with assms show ?thesis
    by (cases a) (auto simp: validateCreatePayload_def MAX_TOTAL_COUNT_def rest_suffices_def rp_rest_def
        split: option.splits)
qed

lemma packet_new_money_ok:
  assumes run: "packet_new e senderId dto type cnt n per d = Inr (p, d')" and inv: "money_ok d"
    and n: "0 \<le> n" "n \<le> 100000000000" and valid: "validateCreatePayload ty cnt n per dto = Inr type"
  shows "money_ok d'"
proof -
  note ok = money_okD [OF inv]
  obtain d1 a t where lim: "checkAndIncrementDailyLimit (uuid e 0) senderId ''RED_PACKET'' (utc_day (now e)) n
      (config_limit ''red_packet_daily_limit'' DEFAULT_RED_PACKET_DAILY_LIMIT_CENTS d) d = Inr d1"
    and a: "account_of senderId (accounts d1) = Some a"
    and new: "\<forall>s \<in> set (redPackets d1). \<not> rp_conflict p s" and t: "t = redPackets d1 @ [p]"
    and p: "rp_sender p = senderId" "rp_amount p = n" "rp_status p = RedPacketStatus.PENDING" "rp_type p = type"
      "rp_remainingCount p = cnt" "rp_perAmount p = per" "rp_receivedAmount p = 0"
    and rest: "guarded acc_freeze (BadRequest INSUFFICIENT_BALANCE) (acc_id a) n (d1\<lparr>redPackets := t\<rparr>) (\<lambda>d2.
              or_throw (account_by_id (acc_id a) (accounts d2)) (NotFound ACCOUNT_NOT_FOUND) (\<lambda>updated.
                Inr (p, add_ledger \<lparr>led_account = acc_id a, led_transaction = rp_id p,
                  led_type = LedgerType.RED_PACKET, led_amount = n,
                  led_before = availableBalance updated + n, led_after = availableBalance updated,
                  led_direction = CREDIT\<rparr> d2))) = Inr (p, d')"
  proof -
    obtain d1 a t where "checkAndIncrementDailyLimit (uuid e 0) senderId ''RED_PACKET'' (utc_day (now e)) n
        (config_limit ''red_packet_daily_limit'' DEFAULT_RED_PACKET_DAILY_LIMIT_CENTS d) d = Inr d1"
      and "account_of senderId (accounts d1) = Some a"
      and t: "\<exists>q. (\<forall>s \<in> set (redPackets d1). \<not> rp_conflict q s) \<and> t = redPackets d1 @ [q] \<and>
        rp_sender q = senderId \<and> rp_amount q = n \<and> rp_status q = RedPacketStatus.PENDING \<and>
        rp_type q = type \<and> rp_remainingCount q = cnt \<and> rp_perAmount q = per \<and> rp_receivedAmount q = 0 \<and>
        guarded acc_freeze (BadRequest INSUFFICIENT_BALANCE) (acc_id a) n (d1\<lparr>redPackets := t\<rparr>) (\<lambda>d2.
              or_throw (account_by_id (acc_id a) (accounts d2)) (NotFound ACCOUNT_NOT_FOUND) (\<lambda>updated.
                Inr (q, add_ledger \<lparr>led_account = acc_id a, led_transaction = rp_id q,
                  led_type = LedgerType.RED_PACKET, led_amount = n,
                  led_before = availableBalance updated + n, led_after = availableBalance updated,
                  led_direction = CREDIT\<rparr> d2))) = Inr (p, d')"
      using run by (fastforce simp: packet_new_def Let_def)
    moreover from t obtain q where q: "guarded acc_freeze (BadRequest INSUFFICIENT_BALANCE) (acc_id a) n
        (d1\<lparr>redPackets := t\<rparr>) (\<lambda>d2.
              or_throw (account_by_id (acc_id a) (accounts d2)) (NotFound ACCOUNT_NOT_FOUND) (\<lambda>updated.
                Inr (q, add_ledger \<lparr>led_account = acc_id a, led_transaction = rp_id q,
                  led_type = LedgerType.RED_PACKET, led_amount = n,
                  led_before = availableBalance updated + n, led_after = availableBalance updated,
                  led_direction = CREDIT\<rparr> d2))) = Inr (p, d')" by blast
    then have "q = p" by (auto simp: guarded_def)
    ultimately show thesis using that t by (auto simp: guarded_def)
  qed
  obtain l where d1: "d1 = d\<lparr>dailyLimitUsages := l\<rparr>" using checkAndIncrementDailyLimit_frame [OF lim] by blast
  let ?d2 = "d1\<lparr>redPackets := t\<rparr>"
  have ok2: "accounts_ok (accounts ?d2)" using ok by (simp add: d1)
  have au: "acc_user a = senderId" using account_of_SomeD [OF a] by simp
  have ai: "account_by_id (acc_id a) (accounts ?d2) = Some a"
    using account_of_by_id [OF _ a] ok by (simp add: d1)
  note fr = freeze.guarded_Inr [OF ok2 ai n(1) rest]
  obtain z where d': "d' = add_ledger \<lparr>led_account = acc_id a, led_transaction = rp_id p,
      led_type = LedgerType.RED_PACKET, led_amount = n, led_before = z + n, led_after = z,
      led_direction = CREDIT\<rparr> (moved (acc_id a) (- n) n ?d2)"
    using fr(1) by auto
  have "wf_packet p" using validate_suffices [OF valid p(4) p(5) p(2) p(7) p(6)] n p
    by (simp add: wf_packet_def)
  moreover have "rp_id p \<notin> rp_id ` set (redPackets d)" using new by (auto simp: rp_conflict_def d1)
  ultimately have tok: "packets_ok (redPackets d @ [p])" by (intro packets.insert_ok ok(3))
  have w: "rp_weight p = n" using p by (simp add: rp_weight_def rp_open_def rp_rest_def)
  show "money_ok d'"
  proof (rule money_ok_step [OF inv])
    show "books_ok d'" using ok fr(2) tok
      by (simp add: books_ok_def d' d1 t journal_balance_def ledger_ok_def)
    show "map acc_user (accounts d') = map acc_user (accounts d)" by (simp add: d' d1)
    show "frozen_of u (accounts d') - frozen_of u (accounts d) = Holdings.held u d' - Holdings.held u d" for u
      using ai by (simp add: d' d1 move_funds_by_id [OF ok(1)] au)
        (simp add: held_def add_ledger_def t d1 packets.insert_held w p)
    show "platform_total d' - platform_total d = total_assets (accounts d') +
        in_transit (withdrawalOrders d') - (total_assets (accounts d) + in_transit (withdrawalOrders d))"
      using ai by (simp add: d' d1 move_funds_by_id [OF ok(1)]) (simp add: add_ledger_def platform_total_def)
  qed
qed

lemma claim_body_money_ok:
  assumes run: "claim_body e u p n d = Inr (c, d')" and inv: "money_ok d"
    and p: "p \<in> set (redPackets d)" "rp_open p" and neq: "rp_sender p \<noteq> usr_id u"
    and rnd: "random_ok e" and amt: "calculateClaimAmount e p = Some n"
  shows "money_ok d'" and "total_assets (accounts d') = total_assets (accounts d)"
    and "packet_by_id (rp_id p) d' = Some (claim_update e p n p)"
    and "available_of (usr_id u) (accounts d') = available_of (usr_id u) (accounts d) + n"
    and "claim_amount c = n"
proof -
  note ok = money_okD [OF inv]
  have wf: "wf_packet p" by (rule packets.row_ok [OF ok(3) p(1)])
  note cl = claim_wf [OF wf p(2) rnd amt]
  let ?Q = "\<lambda>r. 0 < rp_remainingCount r \<and> rp_open r"
  let ?t = "updateRows (\<lambda>r. rp_id r = rp_id p \<and> ?Q r) (claim_update e p n) (redPackets d)"
  let ?d1 = "d\<lparr>redPackets := ?t\<rparr>"
  obtain b x where b: "account_of (usr_id u) (accounts d) = Some b"
    and cr: "credit_account (acc_id b) n ?d1 (\<lambda>updatedReceiver d2.
            or_throw (account_of (rp_sender p) (accounts d2)) (NotFound ACCOUNT_NOT_FOUND) (\<lambda>senderAccount.
              guarded acc_release (BadRequest RED_PACKET_STATUS_CHANGED) (acc_id senderAccount) n d2 (\<lambda>d3.
                or_throw (account_by_id (acc_id senderAccount) (accounts d3)) (NotFound ACCOUNT_NOT_FOUND) (\<lambda>updatedSender.
                  bindE (create P2002 rec_conflict \<lparr>rec_packet = rp_id p, rec_receiver = usr_id u,
                           rec_amount = n, rec_type = RECEIVE\<rparr> (redPacketRecords d3)) (\<lambda>rs.
                    Inr (NewClaim (rp_packetNo p) n (rp_type p) (rp_remainingCount p - 1)
                           (rp_receivedAmount p + n) x,
                         claim_rows p (usr_id u) (Some (usr_nickname u)) n senderAccount
                           b (frozenBalance updatedSender) (availableBalance updatedReceiver)
                           (d3\<lparr>redPacketRecords := rs\<rparr>))))))) = Inr (c, d')"
    using run by (auto simp: claim_body_def Let_def)
  have ok1: "accounts_ok (accounts ?d1)" using ok by simp
  note bi = account_of_by_id [OF ok(1) b]
  have bi1: "account_by_id (acc_id b) (accounts ?d1) = Some b" using bi by simp
  have bu: "acc_user b = usr_id u" using account_of_SomeD [OF b] by simp
  note cred = credit_account_Inr [OF ok1 bi1 cl(1) cr]
  let ?d2 = "moved (acc_id b) n 0 ?d1"
  obtain a where a2: "account_of (rp_sender p) (accounts ?d2) = Some a"
    and rl: "guarded acc_release (BadRequest RED_PACKET_STATUS_CHANGED) (acc_id a) n ?d2 (\<lambda>d3.
                or_throw (account_by_id (acc_id a) (accounts d3)) (NotFound ACCOUNT_NOT_FOUND) (\<lambda>updatedSender.
                  bindE (create P2002 rec_conflict \<lparr>rec_packet = rp_id p, rec_receiver = usr_id u,
                           rec_amount = n, rec_type = RECEIVE\<rparr> (redPacketRecords d3)) (\<lambda>rs.
                    Inr (NewClaim (rp_packetNo p) n (rp_type p) (rp_remainingCount p - 1)
                           (rp_receivedAmount p + n) x,
                         claim_rows p (usr_id u) (Some (usr_nickname u)) n a b (frozenBalance updatedSender)
                           (availableBalance (move n 0 b)) (d3\<lparr>redPacketRecords := rs\<rparr>))))) = Inr (c, d')"
    using cred(1) by (auto simp del: moved_accounts)
  note ai2 = account_of_by_id [OF cred(2) a2]
  have au: "acc_user a = rp_sender p" using account_of_SomeD [OF a2] by simp
  note rel = release.guarded_Inr [OF cred(2) ai2 cl(1) rl]
  let ?d3 = "moved (acc_id a) 0 (- n) ?d2"
  obtain y rs where d': "d' = claim_rows p (usr_id u) (Some (usr_nickname u)) n a b y
      (availableBalance (move n 0 b)) (?d3\<lparr>redPacketRecords := rs\<rparr>)" and c: "claim_amount c = n"
    using rel(1) by auto
  show "claim_amount c = n" by (rule c)
  have kk: "0 < rp_remainingCount p" using wf p(2) by (simp add: wf_packet_def)
  have tok: "packets_ok ?t"
    by (rule packets.update_ok [OF ok(3) p(1)]) (use cl(3) in \<open>simp_all add: claim_update_def\<close>)
  have held: "rp_held v ?t = rp_held v (redPackets d) + (if rp_sender p = v then - n else 0)" for v
    using packets.update_held [where Q = ?Q and f = "claim_update e p n" and u = v, OF ok(3) p(1)] kk p(2) cl(4)
    by (simp add: claim_update_def)
  show "packet_by_id (rp_id p) d' = Some (claim_update e p n p)"
    using packets.update_row [where Q = ?Q and f = "claim_update e p n", OF ok(3) p(1)] kk p(2)
    by (simp add: d' packet_rows_frame packet_by_id_def claim_update_def)
  have mv: "total_assets (accounts d') = total_assets (accounts d)"
    "frozen_of v (accounts d') = frozen_of v (accounts d) + (if rp_sender p = v then - n else 0)"
    "available_of v (accounts d') = available_of v (accounts d) + (if usr_id u = v then n else 0)" for v
    using move_funds_by_id [OF cred(2) ai2] move_funds_by_id [OF ok1 bi1]
    by (simp_all add: d' packet_rows_frame au bu)
  show "total_assets (accounts d') = total_assets (accounts d)" by (rule mv(1))
  show "available_of (usr_id u) (accounts d') = available_of (usr_id u) (accounts d) + n" by (simp add: mv(3))
  show "money_ok d'"
  proof (rule money_ok_step [OF inv])
    show "books_ok d'" using ok rel(2) tok by (simp add: books_ok_def d' packet_rows_frame journal_balance_def)
    show "map acc_user (accounts d') = map acc_user (accounts d)" by (simp add: d' packet_rows_frame)
    show "frozen_of v (accounts d') - frozen_of v (accounts d) = Holdings.held v d' - Holdings.held v d" for v
      by (simp add: mv(2)) (simp add: d' packet_rows_frame held_def held)
    show "platform_total d' - platform_total d = total_assets (accounts d') +
        in_transit (withdrawalOrders d') - (total_assets (accounts d) + in_transit (withdrawalOrders d))"
      by (simp add: mv(1)) (simp add: d' packet_rows_frame platform_total_def)
  qed
qed

text \<open>An expiry gives the rest back to the sender, once.\<close>

lemma packet_table_money_ok:
  assumes "money_ok d" and "packets_ok t" and "\<And>u. rp_held u t = rp_held u (redPackets d)"
  shows "money_ok (d\<lparr>redPackets := t\<rparr>)"
  using assms(2) money_okD [OF assms(1)]
  by (intro money_ok_step [OF assms(1)])
    (simp_all add: books_ok_def held_def assms(3) platform_total_def journal_balance_def)

lemma returnPacket_money_ok:
  assumes run: "returnPacket e (rp_id p) d = Inr (x, d')" and inv: "money_ok d"
    and p: "p \<in> set (redPackets d)" "rp_open p"
  shows "money_ok d'" and "total_assets (accounts d') = total_assets (accounts d)"
    and "available_of (rp_sender p) (accounts d') = available_of (rp_sender p) (accounts d) + rp_rest p"
    and "map_option rp_status (packet_by_id (rp_id p) d') = Some RedPacketStatus.EXPIRED"
proof -
  note ok = money_okD [OF inv]
  have wf: "wf_packet p" by (rule packets.row_ok [OF ok(3) p(1)])
  let ?n = "rp_rest p"
  have n: "0 \<le> ?n" using wf by (simp add: wf_packet_def rp_rest_def)
  let ?f = "\<lambda>r. r\<lparr>rp_status := RedPacketStatus.EXPIRED, rp_returnedAt := Some (now e)\<rparr>"
  let ?t = "updateRows (\<lambda>r. rp_id r = rp_id p \<and> rp_open r) ?f (redPackets d)"
  let ?d1 = "d\<lparr>redPackets := ?t\<rparr>"
  have row: "packet_by_id (rp_id p) ?d1 = Some (?f p)"
    using packets.update_row [where Q = rp_open and f = ?f, OF ok(3) p] by (simp add: packet_by_id_def)
  have hit: "filter (\<lambda>r. rp_id r = rp_id p \<and> rp_open r) (redPackets d) \<noteq> []"
    using p by (auto simp: filter_empty_conv)
  have "wf_packet (?f p)" using wf by (simp add: wf_packet_def rp_open_def)
  then have tok: "packets_ok ?t" by (intro packets.update_ok [OF ok(3) p(1)]) simp_all
  have weight: "rp_weight (?f p) - rp_weight p = - ?n" using p(2) by (simp add: rp_weight_def rp_open_def)
  have held: "rp_held v ?t = rp_held v (redPackets d) + (if rp_sender p = v then - ?n else 0)" for v
    using packets.update_held [where Q = rp_open and f = ?f and u = v, OF ok(3) p]
    by (simp add: weight)
  consider (empty) "?n = 0" "d' = ?d1" | (refund) a where "0 < ?n" "account_of (rp_sender p) (accounts d) = Some a"
    "guarded acc_unfreeze (BadRequest RED_PACKET_STATUS_CHANGED) (acc_id a) ?n ?d1 (\<lambda>d2.
          or_throw (account_by_id (acc_id a) (accounts d2)) (NotFound ACCOUNT_NOT_FOUND) (\<lambda>updated.
            bindE (create P2002 rec_conflict \<lparr>rec_packet = rp_id p, rec_receiver = rp_sender p,
                     rec_amount = ?n, rec_type = RETURN\<rparr> (redPacketRecords d2)) (\<lambda>rs.
              Inr (Some (?f p), return_rows (?f p) ?n a (availableBalance updated)
                     (d2\<lparr>redPacketRecords := rs\<rparr>))))) = Inr (x, d')"
    using run hit n row by (auto simp: returnPacket_def Let_def rp_rest_def split: if_splits)
  then have "money_ok d' \<and> total_assets (accounts d') = total_assets (accounts d) \<and>
    available_of (rp_sender p) (accounts d') = available_of (rp_sender p) (accounts d) + ?n \<and>
    map_option rp_status (packet_by_id (rp_id p) d') = Some RedPacketStatus.EXPIRED"
  proof cases
    case empty
    then have "rp_held v ?t = rp_held v (redPackets d)" for v using held [of v] by simp
    from packet_table_money_ok [OF inv tok this] row empty show ?thesis by simp
  next
    case (refund a)
    have ok1: "accounts_ok (accounts ?d1)" using ok by simp
    have ai: "account_by_id (acc_id a) (accounts ?d1) = Some a" using account_of_by_id [OF ok(1) refund(2)] by simp
    have au: "acc_user a = rp_sender p" using account_of_SomeD [OF refund(2)] by simp
    note un = unfreeze.guarded_Inr [OF ok1 ai n refund(3)]
    obtain y rs where d': "d' = return_rows (?f p) ?n a y (moved (acc_id a) ?n (- ?n) ?d1\<lparr>redPacketRecords := rs\<rparr>)"
      using un(1) by auto
    have mv: "total_assets (accounts d') = total_assets (accounts d)"
      "frozen_of v (accounts d') = frozen_of v (accounts d) + (if rp_sender p = v then - ?n else 0)"
      "available_of v (accounts d') = available_of v (accounts d) + (if rp_sender p = v then ?n else 0)" for v
      using move_funds_by_id [OF ok1 ai] by (simp_all add: d' packet_rows_frame au)
    have "money_ok d'"
    proof (rule money_ok_step [OF inv])
      show "books_ok d'" using ok un(2) tok by (simp add: books_ok_def d' packet_rows_frame journal_balance_def)
      show "map acc_user (accounts d') = map acc_user (accounts d)" by (simp add: d' packet_rows_frame)
      show "frozen_of v (accounts d') - frozen_of v (accounts d) = Holdings.held v d' - Holdings.held v d" for v
        by (simp add: mv(2)) (simp add: d' packet_rows_frame held_def held)
      show "platform_total d' - platform_total d = total_assets (accounts d') +
          in_transit (withdrawalOrders d') - (total_assets (accounts d) + in_transit (withdrawalOrders d))"
        by (simp add: mv(1)) (simp add: d' packet_rows_frame platform_total_def)
    qed
    moreover have "packet_by_id (rp_id p) d' = Some (?f p)"
      using row by (simp add: d' packet_rows_frame packet_by_id_def)
    ultimately show ?thesis using mv by simp
  qed
  then show "money_ok d'" and "total_assets (accounts d') = total_assets (accounts d)"
    and "available_of (rp_sender p) (accounts d') = available_of (rp_sender p) (accounts d) + ?n"
    and "map_option rp_status (packet_by_id (rp_id p) d') = Some RedPacketStatus.EXPIRED" by auto
qed

subsection \<open>Requests\<close>

lemma packet_create_body_money_ok:
  assumes "packet_create_body e senderId dto type cnt n per d = Inr (p, d')" and "money_ok d"
    and "0 \<le> n" and "n \<le> 100000000000" and "validateCreatePayload ty cnt n per dto = Inr type"
  shows "money_ok d'"
proof (cases "if truthy (rd_idem dto) then findUnique (\<lambda>r. rp_idem r = rd_idem dto) (redPackets d) else None")
  case None
  with assms(1) have "packet_new e senderId dto type cnt n per d = Inr (p, d')"
    unfolding packet_create_body_def None by simp
  then show ?thesis using packet_new_money_ok assms(2-5) by blast
next
  case (Some r)
  with assms(1) have "d' = d" unfolding packet_create_body_def Some by simp
  with assms(2) show ?thesis by simp
qed

lemma packet_payload_Inr:
  assumes "packet_payload senderId dto d = Inr (type, n, per)"
  shows "0 \<le> n" and "n \<le> 100000000000"
    and "\<exists>ty. validateCreatePayload ty (total_count dto) n per dto = Inr type"
  using assms
  by (auto simp: packet_payload_def fen_Inr dest: yuanToFen_nonneg yuanToFen_bound)

lemma keeps_packet_create:
  assumes "money_ok (wdb w)"
  shows "keeps money_ok (packet_create pw_ok e senderId dto w)"
  unfolding packet_create_def Let_def
  by (intro keep; (simp add: assms)?)
    (auto dest: packet_payload_Inr intro: packet_create_body_money_ok)

text \<open>A request that fails leaves the database to a property that does not look at the risk events.\<close>

lemma fails_packet_create:
  assumes "P (wdb w)" and ev: "ignores_events P"
  shows "fails P (packet_create pw_ok e senderId dto w)"
proof -
  have evd: "P (wdb w\<lparr>riskEvents := evs\<rparr>)" for evs using ignores_eventsD [OF ev assms(1)] .
  show ?thesis
    unfolding packet_create_def Let_def
    by (intro failing ev) (auto simp: assms evd dest!: verifyPayPassword_Inr risk_guard_Inr)
qed

lemma claim_checks_Inr:
  assumes "claim_checks e u no pw d = Inr (Inr (p, n), d')"
  shows "d' = d" and "p \<in> set (redPackets d)" and "rp_open p" and "rp_sender p \<noteq> u"
    and "calculateClaimAmount e p = Some n"
  using assms
  by (auto simp: claim_checks_def split: option.splits dest: packet_no_SomeD)

lemma claim_checks_db: "claim_checks e u no pw d = Inr (x, d') \<Longrightarrow> d' = d"
  by (auto simp: claim_checks_def split: option.splits)

lemma keeps_receive_locked:
  assumes "money_ok (wdb w)" and rnd: "random_ok e"
  shows "keeps money_ok (receive_locked e u no pw w)"
  unfolding receive_locked_def
proof (rule keeps_andThen)
  show "keeps money_ok (transaction (claim_checks e (usr_id u) no pw) w)"
    using assms by (auto intro!: keep dest: claim_checks_db)
  fix found w1 assume found: "transaction (claim_checks e (usr_id u) no pw) w = (Inr found, w1)"
    and ok1: "money_ok (wdb w1)"
  show "keeps money_ok ((\<lambda>found w. case found of Inl existing \<Rightarrow> (Inr (ExistingClaim existing), w)
       | Inr (p, n) \<Rightarrow> andThen (risk_guard (now e) \<lparr>ctx_user = usr_id u, ctx_type = TransactionType.RED_PACKET,
                      ctx_amount = n, ctx_ip = None\<rparr> w) (\<lambda>_ w.
             transaction (claim_body e u p n) w)) found w1)"
  proof (cases found)
    case (Inl r)
    with ok1 show ?thesis by (simp add: keep)
  next
    case (Inr pn)
    then obtain p n where pn: "found = Inr (p, n)" by (cases pn) auto
    from found have "claim_checks e (usr_id u) no pw (wdb w) = Inr (Inr (p, n), wdb w1)" by (auto simp: pn)
    note ch = claim_checks_Inr [OF this]
    have "keeps money_ok (andThen (risk_guard (now e) \<lparr>ctx_user = usr_id u, ctx_type = TransactionType.RED_PACKET,
                      ctx_amount = n, ctx_ip = None\<rparr> w1) (\<lambda>_ w. transaction (claim_body e u p n) w))"
    proof (intro keeps_andThen keeps_transaction)
      fix w2 c d' and b :: unit
      assume g: "risk_guard (now e) \<lparr>ctx_user = usr_id u, ctx_type = TransactionType.RED_PACKET,
                    ctx_amount = n, ctx_ip = None\<rparr> w1 = (Inr b, w2)"
        and ok2: "money_ok (wdb w2)" and run: "claim_body e u p n (wdb w2) = Inr (c, d')"
      have "redPackets (wdb w2) = redPackets (wdb w)" using risk_guard_Inr [OF g] ch(1) by auto
      with ch(2) have "p \<in> set (redPackets (wdb w2))" by simp
      then show "money_ok d'" using claim_body_money_ok(1) [OF run ok2 _ ch(3,4) rnd ch(5)] by simp
    qed (intro keep ok1 | assumption)+
    then show ?thesis by (simp add: pn)
  qed
qed

lemma keeps_packet_receive:
  "money_ok (wdb w) \<Longrightarrow> random_ok e \<Longrightarrow> keeps money_ok (packet_receive e u no pw w)"
  unfolding packet_receive_def
  by (intro keep keeps_receive_locked) simp_all

lemma keeps_expireReturn:
  assumes "money_ok (wdb w)"
  shows "keeps money_ok (expireReturn e i w)"
  unfolding expireReturn_def
proof (intro keep assms)
  fix r d assume "expire_body e i (wdb w) = Inr (r, d)"
  then obtain p where p: "p \<in> set (redPackets (wdb w))"
    and x: "(\<not> rp_open p \<and> d = wdb w) \<or> (rp_open p \<and> returnPacket e (rp_id p) (wdb w) = Inr (r, d))"
    by (auto simp: expire_body_def split: if_splits dest: packet_id_SomeD)
  from x assms show "money_ok d" using returnPacket_money_ok(1) [OF _ assms p] by blast
qed

lemma expire_all_ok: "money_ok (wdb w) \<Longrightarrow> money_ok (wdb (snd (expire_all e is w)))"
proof (induction "is" arbitrary: w)
  case (Cons i "is")
  have "money_ok (wdb (snd (expireReturn e i w)))"
    using keeps_expireReturn [OF Cons.prems, of e i] by (simp add: keeps_def)
  from Cons.IH [OF this] show ?case by (simp add: case_prod_unfold)
qed simp

lemma expireRedPackets_ok: "money_ok (wdb w) \<Longrightarrow> money_ok (wdb (snd (expireRedPackets e w)))"
  unfolding expireRedPackets_def by (rule expire_all_ok)

subsection \<open>What receivers and senders can rely on\<close>

text \<open>The shares drawn by one claim after the other, each with its own random draw.\<close>

fun share_out :: "env list \<Rightarrow> RedPacket \<Rightarrow> int list" where
  "share_out [] p = []"
| "share_out (e # es) p =
     (case calculateClaimAmount e p of
        None \<Rightarrow> []
      | Some n \<Rightarrow> n # share_out es (claim_update e p n p))"

lemma claim_update_fields [simp]:
  "rp_type (claim_update e q n p) = rp_type p"
  "rp_remainingCount (claim_update e q n p) = rp_remainingCount p - 1"
  "rp_rest (claim_update e q n p) = rp_rest p - n"
  "rp_open (claim_update e p n p) \<longleftrightarrow> rp_remainingCount p \<noteq> 1"
  by (simp_all add: claim_update_def rp_rest_def rp_open_def)

text \<open>
  C7. A lucky packet is shared out exactly: whatever the random numbers, when everybody it was meant for has
  claimed, each got at least one fen and together they got all that was left, although every share
  is computed in rounded double arithmetic.
\<close>

theorem lucky_packet_shared_exactly:
  assumes "wf_packet p" and "rp_open p" and "rp_type p = LUCKY" and "\<forall>e \<in> set es. random_ok e"
    and "int (length es) = rp_remainingCount p"
  shows "length (share_out es p) = length es \<and> (\<forall>n \<in> set (share_out es p). 1 \<le> n) \<and>
    sum_list (share_out es p) = rp_rest p"
  using assms
proof (induction es arbitrary: p)
  case Nil
  then show ?case by (simp add: wf_packet_def)
next
  case (Cons e es)
  obtain n where n: "calculateClaimAmount e p = Some n"
    using Cons.prems(3) by (cases "calculateClaimAmount e p") (auto simp: calculateClaimAmount_def Let_def split: if_splits)
  note cl = claim_wf [OF Cons.prems(1,2) _ n]
  let ?p = "claim_update e p n p"
  have rnd: "random_ok e" "1 \<le> n" using Cons.prems(3,4) cl(5) by auto
  show ?case
  proof (cases "es = []")
    case True
    with Cons.prems(3,5) n have "n = rp_rest p"
      by (simp add: calculateClaimAmount_def rp_rest_def)
    with True n rnd show ?thesis by simp
  next
    case False
    then have "rp_open ?p" using Cons.prems(5) by (cases es) auto
    with Cons.IH [of ?p] cl(3) Cons.prems rnd n show ?thesis by auto
  qed
qed

theorem lucky_packet_shared_exactly_witness:
  "sum_list (share_out [sample_env, sample_env] sample_packet) = 100"
proof -
  have "random_ok sample_env" by (simp add: random_ok_def sample_env_def)
  moreover have "wf_packet sample_packet" "rp_open sample_packet"
    by (simp_all add: sample_packet_def wf_packet_def rp_open_def rest_suffices_def rp_rest_def)
  ultimately show ?thesis
    using lucky_packet_shared_exactly [of sample_packet "[sample_env, sample_env]"]
    by (simp add: sample_packet_def rp_rest_def)
qed

text \<open>
  A claim pays what it drew: the receiver's available balance grows by exactly the share, the packet
  records it, nothing is created or lost, and the last claim empties the packet and closes it.
\<close>

theorem claim_pays_share:
  assumes "claim_body e u p n d = Inr (c, d')" and "money_ok d" and "p \<in> set (redPackets d)" and "rp_open p"
    and "rp_sender p \<noteq> usr_id u" and "random_ok e" and "calculateClaimAmount e p = Some n"
  shows "claim_amount c = n \<and>
    available_of (usr_id u) (accounts d') = available_of (usr_id u) (accounts d) + n \<and>
    total_assets (accounts d') = total_assets (accounts d) \<and>
    (\<exists>p'. packet_by_id (rp_id p) d' = Some p' \<and> rp_rest p' = rp_rest p - n \<and>
       (rp_remainingCount p = 1 \<longrightarrow> rp_status p' = RedPacketStatus.RECEIVED \<and> rp_rest p' = 0))"
proof -
  note eff = claim_body_money_ok [OF assms(1-7)]
  have wf: "wf_packet (claim_update e p n p)"
    using claim_wf(3) [OF packets.row_ok [OF money_okD(3) [OF assms(2)] assms(3)] assms(4,6,7)] .
  have "rp_remainingCount p = 1 \<Longrightarrow> rp_status (claim_update e p n p) = RedPacketStatus.RECEIVED"
    by (simp add: claim_update_def)
  moreover from this wf have "rp_remainingCount p = 1 \<Longrightarrow> rp_rest (claim_update e p n p) = 0"
    by (simp add: wf_packet_def) (simp add: claim_update_def rp_rest_def)
  ultimately show ?thesis using eff(2-5) by auto
qed

lemma sample_claim_runs: "isl (claim_body sample_env (sample_user ''bob'') sample_packet 1 sample_db) = False"
  by code_simp

theorem claim_pays_share_witness:
  "\<exists>c d'. claim_body sample_env (sample_user ''bob'') sample_packet 1 sample_db = Inr (c, d') \<and>
     available_of ''bob'' (accounts d') = available_of ''bob'' (accounts sample_db) + 1"
proof -
  obtain c d' where run: "claim_body sample_env (sample_user ''bob'') sample_packet 1 sample_db = Inr (c, d')"
    using not_isl_pair [OF sample_claim_runs] by auto
  have "calculateClaimAmount sample_env sample_packet = Some 1" by code_simp
  moreover have "random_ok sample_env" by (simp add: random_ok_def sample_env_def)
  moreover have "sample_packet \<in> set (redPackets sample_db)" "rp_open sample_packet"
    "rp_sender sample_packet \<noteq> usr_id (sample_user ''bob'')"
    by (simp_all add: sample_defs rp_open_def)
  ultimately show ?thesis
    using claim_pays_share [OF run sample_money_ok] run by (auto simp: sample_user_def)
qed

text \<open>
  An expired packet gives back exactly what nobody claimed, once: the sender's available balance grows by
  the rest, the packet is closed, and expiring it again changes nothing.
\<close>

theorem expiry_returns_rest:
  assumes "expire_body e (rp_id p) d = Inr (x, d')" and "money_ok d" and "p \<in> set (redPackets d)" and "rp_open p"
  shows "available_of (rp_sender p) (accounts d') = available_of (rp_sender p) (accounts d) + rp_rest p \<and>
    total_assets (accounts d') = total_assets (accounts d) \<and>
    (\<exists>x'. expire_body e' (rp_id p) d' = Inr (x', d'))"
proof -
  have "packet_by_id (rp_id p) d = Some p" unfolding packet_by_id_def
    using money_okD(3) [OF assms(2)] assms(3) by (intro findUnique_key_eq) (simp_all add: packets_ok_def)
  then have run: "returnPacket e (rp_id p) d = Inr (x, d')" using assms(1,4) by (simp add: expire_body_def)
  note eff = returnPacket_money_ok [OF run assms(2-4)]
  obtain q where "packet_by_id (rp_id p) d' = Some q" "rp_status q = RedPacketStatus.EXPIRED" using eff(4) by auto
  then have "expire_body e' (rp_id p) d' = Inr (Some q, d')" by (simp add: expire_body_def rp_open_def)
  with eff(2,3) show ?thesis by blast
qed

lemma sample_expiry_runs: "isl (expire_body sample_env ''P1'' sample_db) = False"
  by code_simp

theorem expiry_returns_rest_witness:
  "\<exists>x d'. expire_body sample_env ''P1'' sample_db = Inr (x, d') \<and>
     available_of ''alice'' (accounts d') = available_of ''alice'' (accounts sample_db) + 100"
proof -
  obtain x d' where run: "expire_body sample_env (rp_id sample_packet) sample_db = Inr (x, d')"
    using not_isl_pair [OF sample_expiry_runs] by (auto simp: sample_packet_def)
  have "sample_packet \<in> set (redPackets sample_db)" "rp_open sample_packet"
    by (simp_all add: sample_defs rp_open_def)
  with expiry_returns_rest [OF run sample_money_ok] run show ?thesis
    by (auto simp: sample_packet_def rp_rest_def)
qed

end
