(* ===== verification/Channels.thy ===== *)
theory Channels
  imports Schema
begin

text \<open>
  The registry of payment channels (payment-channels/payment-channel.registry.ts): which channel
  serves a kind of payment, and which channels a callback may name. The channels themselves
  (WeChat Pay, Alipay, the mock of the development environment) speak to other companies' services and
  are parameters of the services that call them.

  The lemmas: a selected channel is a registered one that is enabled for the kind of payment and
  of the highest priority among those, and production never falls back to the mock.
\<close>

definition registered :: "string list" where "registered = [''mock'', ''wechat'', ''alipay'']"

definition getChannel :: "bool \<Rightarrow> string \<Rightarrow> exn + string" where
  "getChannel isProd code =
     throw_if (isProd \<and> code = ''mock'') NotFoundPlain
    (throw_if (code \<notin> set registered) NotFoundPlain (Inr code))"

definition getEnabledConfig :: "string \<Rightarrow> db \<Rightarrow> exn + PaymentChannelConfig" where
  "getEnabledConfig code d =
     (case findUnique (\<lambda>c. pc_code c = code) (channelConfigs d) of
        None \<Rightarrow> Inl NotFoundPlain
      | Some c \<Rightarrow> throw_if (\<not> pc_enabled c) NotFoundPlain (Inr c))"

definition serves :: "string \<Rightarrow> PaymentChannelConfig \<Rightarrow> bool" where
  "serves ty c = (pc_enabled c \<and> (pc_type c = ty \<or> pc_type c = ''BOTH''))"

text \<open>\<open>orderBy: { priority: 'desc' }\<close>, then the first whose channel is registered.\<close>

definition getChannelByType :: "bool \<Rightarrow> string \<Rightarrow> db \<Rightarrow> string option" where
  "getChannelByType isProd ty d =
     (case findUnique (\<lambda>c. pc_code c \<in> set registered)
             (sort_key (\<lambda>c. - pc_priority c) (filter (serves ty) (channelConfigs d))) of
        Some c \<Rightarrow> Some (pc_code c)
      | None \<Rightarrow> if \<not> isProd then Some ''mock'' else None)"

lemma getChannel_Inr: "getChannel isProd code = Inr c \<longleftrightarrow> c = code \<and> code \<in> set registered \<and> \<not> (isProd \<and> code = ''mock'')"
  by (auto simp: getChannel_def)

lemma first_of_sorted:
  assumes "findUnique P t = Some c" and "sorted (map k t)" and "c' \<in> set t" and "P c'"
  shows "k c \<le> k c'"
  using assms by (induction t) (auto split: if_splits)

lemma getChannelByType_registered: "getChannelByType isProd ty d = Some code \<Longrightarrow> code \<in> set registered"
  by (auto simp: getChannelByType_def registered_def split: option.splits if_splits dest: findUnique_SomeD)

lemma getChannelByType_best:
  assumes "getChannelByType isProd ty d = Some code" and "c' \<in> set (channelConfigs d)" and "serves ty c'"
    and "pc_code c' \<in> set registered"
  shows "\<exists>c \<in> set (channelConfigs d). pc_code c = code \<and> serves ty c \<and> pc_priority c' \<le> pc_priority c"
proof -
  let ?t = "sort_key (\<lambda>c. - pc_priority c) (filter (serves ty) (channelConfigs d))"
  have in_t: "c' \<in> set ?t" using assms(2,3) by simp
  then obtain c where c: "findUnique (\<lambda>c. pc_code c \<in> set registered) ?t = Some c"
    using assms(4) by (cases "findUnique (\<lambda>c. pc_code c \<in> set registered) ?t") (auto simp: findUnique_None)
  have "c \<in> set ?t" using c by (rule findUnique_in)
  moreover have "pc_code c = code" using assms(1) c by (simp add: getChannelByType_def)
  moreover have "- pc_priority c \<le> - pc_priority c'"
    by (rule first_of_sorted [OF c _ in_t assms(4)]) simp
  ultimately show ?thesis by (intro bexI [of _ c]) auto
qed

lemma production_never_falls_back:
  "getChannelByType True ty d = Some code \<Longrightarrow> \<exists>c \<in> set (channelConfigs d). pc_code c = code \<and> serves ty c"
  by (auto simp: getChannelByType_def split: option.splits dest!: findUnique_SomeD)

text \<open>
  Choice of a channel: the selected one is registered, no enabled registered channel for the kind of payment
  has a higher priority, and in production it always comes from the configuration.
\<close>

theorem selected_channel_is_best:
  assumes "getChannelByType isProd ty d = Some code"
  shows "code \<in> set registered \<and>
    (isProd \<longrightarrow> (\<exists>c \<in> set (channelConfigs d). pc_code c = code \<and> serves ty c)) \<and>
    (\<forall>c' \<in> set (channelConfigs d). serves ty c' \<longrightarrow> pc_code c' \<in> set registered \<longrightarrow>
       (\<exists>c \<in> set (channelConfigs d). pc_code c = code \<and> serves ty c \<and> pc_priority c' \<le> pc_priority c))"
proof (intro conjI ballI impI)
  show "code \<in> set registered" by (rule getChannelByType_registered [OF assms])
  show "\<exists>c \<in> set (channelConfigs d). pc_code c = code \<and> serves ty c" if isProd
    using production_never_falls_back [of ty d code] assms that by simp
  fix c' assume "c' \<in> set (channelConfigs d)" "serves ty c'" "pc_code c' \<in> set registered"
  then show "\<exists>c \<in> set (channelConfigs d). pc_code c = code \<and> serves ty c \<and> pc_priority c' \<le> pc_priority c"
    by (rule getChannelByType_best [OF assms])
qed

definition sample_channels :: db where
  "sample_channels = empty_db\<lparr>channelConfigs :=
     [\<lparr>pc_code = ''alipay'', pc_type = ''RECHARGE'', pc_enabled = True, pc_priority = 1\<rparr>,
      \<lparr>pc_code = ''wechat'', pc_type = ''BOTH'', pc_enabled = True, pc_priority = 2\<rparr>]\<rparr>"

theorem selected_channel_is_best_witness:
  "\<exists>c \<in> set (channelConfigs sample_channels). pc_code c = ''wechat'' \<and> serves ''RECHARGE'' c"
proof -
  have "getChannelByType True ''RECHARGE'' sample_channels = Some ''wechat''" by code_simp
  from selected_channel_is_best [OF this] show ?thesis by blast
qed

end
