(* ===== verification/Withdrawals.thy ===== *)
theory Withdrawals
  imports Samples Channels
begin

text \<open>
  Withdrawals (withdrawals/withdrawals.service.ts): a request freezes the amount, an administrator
  approves (the money leaves the account, the payout channel is called) or rejects (the money is
  unfrozen), and the channel's callback reports success (the double-entry records are written) or
  failure (the money comes back).

  The channel call and the parsing of its callback are parameters: \<open>payout\<close> gives the channel's order
  number, or nothing for an exception; \<open>parse\<close> the content of a verified callback.
\<close>

definition wd_conflict :: "WithdrawalOrder \<Rightarrow> WithdrawalOrder \<Rightarrow> bool" where
  "wd_conflict r s = (wd_id r = wd_id s \<or> wd_orderNo r = wd_orderNo s \<or>
     (wd_idem r \<noteq> None \<and> wd_idem r = wd_idem s))"

definition withdrawal_by_id :: "string \<Rightarrow> db \<Rightarrow> WithdrawalOrder option" where
  "withdrawal_by_id i d = findUnique (\<lambda>r. wd_id r = i) (withdrawalOrders d)"

definition withdrawal_by_no :: "string \<Rightarrow> db \<Rightarrow> WithdrawalOrder option" where
  "withdrawal_by_no no d = findUnique (\<lambda>r. wd_orderNo r = no) (withdrawalOrders d)"

definition wd_transition ::
  "string \<Rightarrow> WithdrawalStatus \<Rightarrow> (WithdrawalOrder \<Rightarrow> WithdrawalOrder) \<Rightarrow> db \<Rightarrow> exn + (nat \<times> db)" where
  "wd_transition i st f d =
     bindE (updateMany IntOutOfRange (\<lambda>_. True) (\<lambda>r. wd_id r = i \<and> wd_status r = st) f (withdrawalOrders d))
       (\<lambda>(c, t). Inr (c, d\<lparr>withdrawalOrders := t\<rparr>))"

subsection \<open>Fee\<close>

definition getFeeRate :: "string \<Rightarrow> db \<Rightarrow> jsnum" where
  "getFeeRate userId d =
     (case Option.bind (findUnique (\<lambda>m. mch_user m = userId) (merchants d)) mch_withdrawRate of
        Some rate \<Rightarrow> Num (js_div (of_int rate) (of_int RATE_DENOMINATOR))
      | None \<Rightarrow> (case findUnique (\<lambda>c. cfg_key c = ''withdrawal_fee_rate'') (systemConfigs d) of
            Some c \<Rightarrow> js_number (cfg_value c)
          | None \<Rightarrow> Num (fl (1 / 1000))))"

definition withdrawal_fee :: "int \<Rightarrow> jsnum \<Rightarrow> int option" where
  "withdrawal_fee amount rate =
     (case rate of Num x \<Rightarrow> Some (js_round (js_mul (of_int amount) x)) | _ \<Rightarrow> None)"

subsection \<open>Create\<close>

record WithdrawalDto =
  wdd_amount :: jsnum
  wdd_payPassword :: string
  wdd_idem :: "string option"

definition withdrawal_new ::
  "env \<Rightarrow> string \<Rightarrow> WithdrawalDto \<Rightarrow> int \<Rightarrow> int option \<Rightarrow> db \<Rightarrow> exn + ((WithdrawalOrder \<times> bool) \<times> db)" where
  "withdrawal_new e userId dto amount feeOpt d0 =
     bindE (checkAndIncrementDailyLimit (uuid e 0) userId ''WITHDRAW'' (utc_day (now e)) amount
              (config_limit ''withdrawal_daily_limit'' DEFAULT_WITHDRAW_DAILY_LIMIT_CENTS d0) d0) (\<lambda>d.
       or_throw (account_of userId (accounts d)) (NotFound ACCOUNT_NOT_FOUND) (\<lambda>account.
         guarded acc_freeze (BadRequest INSUFFICIENT_BALANCE) (acc_id account) amount d (\<lambda>d1.
           or_throw feeOpt PrismaValidation (\<lambda>fee.
             let order = \<lparr>wd_id = uuid e 1, wd_orderNo = generateOrderNo e 0 ''W'', wd_user = userId,
                   wd_amount = amount, wd_fee = fee, wd_actualAmount = amount - fee,
                   wd_status = WithdrawalStatus.PENDING, wd_channel = ''BANK'', wd_channelOrderNo = None,
                   wd_reviewedBy = None, wd_reviewedAt = None, wd_idem = wdd_idem dto\<rparr>
             in throw_if (\<not> int32 fee \<or> \<not> int32 (amount - fee)) PrismaValidation
               (bindE (create P2002 wd_conflict order (withdrawalOrders d1)) (\<lambda>t.
                  let d2 = d1\<lparr>withdrawalOrders := t\<rparr>
                  in or_throw (account_by_id (acc_id account) (accounts d2)) (NotFound ACCOUNT_NOT_FOUND) (\<lambda>updated.
                    let d3 = add_ledger \<lparr>led_account = acc_id account, led_transaction = wd_id order,
                          led_type = LedgerType.WITHDRAW, led_amount = amount,
                          led_before = availableBalance updated + amount, led_after = availableBalance updated,
                          led_direction = CREDIT\<rparr> d2
                    in Inr ((order, True),
                         if LARGE_WITHDRAWAL_THRESHOLD_CENTS < amount
                         then add_event userId LARGE_TRANSFER MEDIUM d3 else d3))))))))"

definition withdrawal_create_body ::
  "env \<Rightarrow> string \<Rightarrow> WithdrawalDto \<Rightarrow> int \<Rightarrow> int option \<Rightarrow> db \<Rightarrow> exn + ((WithdrawalOrder \<times> bool) \<times> db)" where
  "withdrawal_create_body e userId dto amount fee d =
     (case (if truthy (wdd_idem dto) then findUnique (\<lambda>r. wd_idem r = wdd_idem dto) (withdrawalOrders d) else None) of
        Some existing \<Rightarrow>
          throw_if (wd_user existing \<noteq> userId) (BadRequest IDEMPOTENCY_KEY_CONFLICT) (Inr ((existing, False), d))
      | None \<Rightarrow> withdrawal_new e userId dto amount fee d)"

definition withdrawal_create_locked ::
  "(string \<Rightarrow> string \<Rightarrow> bool) \<Rightarrow> env \<Rightarrow> string \<Rightarrow> WithdrawalDto \<Rightarrow> world \<Rightarrow> (exn + WithdrawalOrder) \<times> world" where
  "withdrawal_create_locked pw_ok e userId dto w =
     (case find_user userId (wdb w) of
        None \<Rightarrow> (Inl (NotFound USER_NOT_FOUND), w)
      | Some user \<Rightarrow>
          if \<not> verified user then (Inl (Forbidden REAL_NAME_REQUIRED), w)
          else if \<not> may_spend user then (Inl (Forbidden FORBIDDEN), w)
          else if usr_risk user = HIGH then (Inl (Forbidden FORBIDDEN), w)
          else andThen (verifyPayPassword pw_ok (now e) userId (wdd_payPassword dto) w) (\<lambda>_ w.
            andThen (fen (wdd_amount dto), w) (\<lambda>amount w.
              let fee = withdrawal_fee amount (getFeeRate userId (wdb w));
                  ctx = \<lparr>ctx_user = userId, ctx_type = TransactionType.WITHDRAW,
                         ctx_amount = amount, ctx_ip = None\<rparr>
              in andThen (risk_guard (now e) ctx w) (\<lambda>_ w.
                 andThen (transaction (withdrawal_create_body e userId dto amount fee) w) (\<lambda>(order, new) w.
                   if new then record_quietly (now e) (uuid e 2) ctx order w else (Inr order, w))))))"

definition withdrawal_create ::
  "(string \<Rightarrow> string \<Rightarrow> bool) \<Rightarrow> env \<Rightarrow> string \<Rightarrow> WithdrawalDto \<Rightarrow> world \<Rightarrow> (exn + WithdrawalOrder) \<times> world" where
  "withdrawal_create pw_ok e userId dto w =
     (if amount_le0 (wdd_amount dto) then (Inl (BadRequest WITHDRAWAL_AMOUNT_INVALID), w)
      else withLock (''withdraw:create:'' @ userId) (withdrawal_create_locked pw_ok e userId dto) w)"

subsection \<open>Approve\<close>

text \<open>The first transaction: the status, and the money out of the account before the channel is called.\<close>

definition approve_body :: "env \<Rightarrow> WithdrawalOrder \<Rightarrow> string \<Rightarrow> db \<Rightarrow> exn + (unit \<times> db)" where
  "approve_body e order adminId d =
     bindE (wd_transition (wd_id order) WithdrawalStatus.PENDING
              (\<lambda>r. r\<lparr>wd_status := WithdrawalStatus.PROCESSING, wd_reviewedBy := Some adminId,
                     wd_reviewedAt := Some (now e)\<rparr>) d) (\<lambda>(c, d1).
       throw_if (c = 0) (BadRequest ORDER_ALREADY_HANDLED)
      (or_throw (account_of (wd_user order) (accounts d1)) (NotFound ACCOUNT_NOT_FOUND) (\<lambda>account.
         guarded acc_release (BadRequest FROZEN_BALANCE_INSUFFICIENT) (acc_id account) (wd_amount order) d1 (\<lambda>d2.
           or_throw (account_by_id (acc_id account) (accounts d2)) (NotFound ACCOUNT_NOT_FOUND) (\<lambda>updated.
             Inr ((), add_ledger \<lparr>led_account = acc_id account, led_transaction = wd_id order,
               led_type = LedgerType.WITHDRAW, led_amount = wd_amount order,
               led_before = frozenBalance updated + wd_amount order, led_after = frozenBalance updated,
               led_direction = CREDIT\<rparr> d2))))))"

definition save_channel_no :: "string \<Rightarrow> string \<Rightarrow> string \<Rightarrow> db \<Rightarrow> exn + (WithdrawalOrder \<times> db)" where
  "save_channel_no orderId code no d =
     bindE (updateOne P2025 IntOutOfRange (\<lambda>_. True) (\<lambda>r. wd_id r = orderId)
              (\<lambda>r. r\<lparr>wd_channel := code, wd_channelOrderNo := Some no\<rparr>) (withdrawalOrders d))
       (\<lambda>(r, t). Inr (r, d\<lparr>withdrawalOrders := t\<rparr>))"

definition approve_locked ::
  "(string \<Rightarrow> WithdrawalOrder \<Rightarrow> string option) \<Rightarrow> env \<Rightarrow> string \<Rightarrow> string \<Rightarrow> world \<Rightarrow>
     (exn + WithdrawalOrder) \<times> world" where
  "approve_locked payout e orderId adminId w =
     (case withdrawal_by_id orderId (wdb w) of
        None \<Rightarrow> (Inl (NotFound WITHDRAWAL_ORDER_NOT_FOUND), w)
      | Some order \<Rightarrow>
          if wd_status order \<noteq> WithdrawalStatus.PENDING
          then (Inl (BadRequest WITHDRAWAL_ORDER_STATUS_INVALID), w)
          else case getChannelByType (production w) ''PAYOUT'' (wdb w) of
            None \<Rightarrow> (Inl (BadRequest NO_PAYOUT_CHANNEL), w)
          | Some code \<Rightarrow>
              (case find_user (wd_user order) (wdb w) of
                 None \<Rightarrow> (Inl (NotFound USER_NOT_FOUND), w)
               | Some user \<Rightarrow>
                   andThen (transaction (approve_body e order adminId) w) (\<lambda>_ w.
                     case payout code order of
                       None \<Rightarrow> (Inl (BadRequest PAYOUT_CHANNEL_FAILED), w)
                     | Some no \<Rightarrow>
                         andThen (transaction (save_channel_no orderId code no) w) (\<lambda>updated w.
                           record_quietly (now e) (uuid e 0)
                             \<lparr>ctx_user = wd_user order, ctx_type = TransactionType.WITHDRAW,
                              ctx_amount = wd_amount order, ctx_ip = None\<rparr> updated w))))"

definition withdrawal_approve ::
  "(string \<Rightarrow> WithdrawalOrder \<Rightarrow> string option) \<Rightarrow> env \<Rightarrow> string \<Rightarrow> string \<Rightarrow> world \<Rightarrow>
     (exn + WithdrawalOrder) \<times> world" where
  "withdrawal_approve payout e orderId adminId =
     withLock (''withdraw:approve:'' @ orderId) (approve_locked payout e orderId adminId)"

subsection \<open>Callback\<close>

record PayoutResult =
  po_orderNo :: string
  po_channelOrderNo :: string
  po_success :: bool

definition payout_entries :: "string \<Rightarrow> WithdrawalOrder \<Rightarrow> JournalEntryInput list" where
  "payout_entries j r =
     [\<lparr>in_journalId = j, in_accountCode = user_code (wd_user r), in_debit = Some (wd_amount r), in_credit = None\<rparr>,
      \<lparr>in_journalId = j, in_accountCode = ''CHANNEL_FUND'', in_debit = None, in_credit = Some (wd_actualAmount r)\<rparr>,
      \<lparr>in_journalId = j, in_accountCode = ''REVENUE_FEE'', in_debit = None, in_credit = Some (wd_fee r)\<rparr>]"

definition callback_success :: "env \<Rightarrow> WithdrawalOrder \<Rightarrow> db \<Rightarrow> exn + (unit \<times> db)" where
  "callback_success e order d =
     bindE (updateOne P2025 IntOutOfRange (\<lambda>_. True) (\<lambda>r. wd_id r = wd_id order)
              (\<lambda>r. r\<lparr>wd_status := WithdrawalStatus.SUCCESS\<rparr>) (withdrawalOrders d)) (\<lambda>(_, t).
       let d1 = add_bill \<lparr>bill_user = wd_user order, bill_transaction = wd_id order,
                  bill_type = BillType.WITHDRAW, bill_direction = EXPENSE, bill_amount = wd_amount order,
                  bill_counterparty = None\<rparr> (d\<lparr>withdrawalOrders := t\<rparr>)
       in bindE (createEntries (payout_entries (generateOrderNo e 0 ''J'') order) d1) (\<lambda>d2. Inr ((), d2)))"

definition callback_failure :: "WithdrawalOrder \<Rightarrow> Account \<Rightarrow> db \<Rightarrow> exn + (unit \<times> db)" where
  "callback_failure order account d =
     bindE (wd_transition (wd_id order) WithdrawalStatus.PROCESSING
              (\<lambda>r. r\<lparr>wd_status := WithdrawalStatus.FAILED\<rparr>) d) (\<lambda>(c, d1).
       if c = 0 then Inr ((), d1)
       else credit_account (acc_id account) (wd_amount order) d1 (\<lambda>updated d2.
         Inr ((), add_bill \<lparr>bill_user = wd_user order, bill_transaction = wd_id order,
              bill_type = BillType.WITHDRAW, bill_direction = INCOME, bill_amount = wd_amount order,
              bill_counterparty = None\<rparr>
           (add_ledger \<lparr>led_account = acc_id account, led_transaction = wd_id order,
              led_type = LedgerType.WITHDRAW, led_amount = wd_amount order,
              led_before = availableBalance updated - wd_amount order,
              led_after = availableBalance updated, led_direction = DEBIT\<rparr> d2))))"

definition payout_callback_body ::
  "env \<Rightarrow> string \<Rightarrow> PayoutResult \<Rightarrow> db \<Rightarrow> exn + (unit \<times> db)" where
  "payout_callback_body e channelCode result d =
     or_throw (withdrawal_by_no (po_orderNo result) d) (NotFound WITHDRAWAL_ORDER_NOT_FOUND) (\<lambda>order.
       if wd_status order \<in> {WithdrawalStatus.SUCCESS, WithdrawalStatus.FAILED, WithdrawalStatus.REJECTED}
       then Inr ((), d)
       else throw_if (wd_status order \<noteq> WithdrawalStatus.PROCESSING) (BadRequest CALLBACK_STATUS_INVALID)
           (throw_if (wd_channel order \<noteq> channelCode) (BadRequest CALLBACK_CHANNEL_MISMATCH)
           (throw_if (wd_channelOrderNo order \<noteq> Some (po_channelOrderNo result))
              (BadRequest CALLBACK_CHANNEL_ORDER_NO_MISMATCH)
           (or_throw (account_of (wd_user order) (accounts d)) (NotFound ACCOUNT_NOT_FOUND) (\<lambda>account.
              if po_success result then callback_success e order d
              else callback_failure order account d)))))"

definition handlePayoutCallback ::
  "(string \<Rightarrow> 'b \<Rightarrow> exn + PayoutResult) \<Rightarrow> env \<Rightarrow> string \<Rightarrow> 'b \<Rightarrow> world \<Rightarrow> (exn + unit) \<times> world" where
  "handlePayoutCallback parse e channelCode body w =
     andThen (getChannel (production w) channelCode, w) (\<lambda>_ w.
       andThen (getEnabledConfig channelCode (wdb w), w) (\<lambda>_ w.
         andThen (parse channelCode body, w) (\<lambda>result w.
           withLock (''payout:callback:'' @ po_orderNo result)
             (transaction (payout_callback_body e channelCode result)) w)))"

subsection \<open>Reject\<close>

definition reject_body :: "env \<Rightarrow> string \<Rightarrow> string \<Rightarrow> db \<Rightarrow> exn + (WithdrawalOrder \<times> db)" where
  "reject_body e orderId adminId d =
     bindE (wd_transition orderId WithdrawalStatus.PENDING
              (\<lambda>r. r\<lparr>wd_status := WithdrawalStatus.REJECTED, wd_reviewedBy := Some adminId,
                     wd_reviewedAt := Some (now e)\<rparr>) d) (\<lambda>(c, d1).
       throw_if (c = 0) (BadRequest ORDER_ALREADY_HANDLED)
      (or_throw (withdrawal_by_id orderId d1) (NotFound WITHDRAWAL_ORDER_NOT_FOUND) (\<lambda>order.
       or_throw (account_of (wd_user order) (accounts d1)) (NotFound ACCOUNT_NOT_FOUND) (\<lambda>account.
         guarded acc_unfreeze (BadRequest FROZEN_BALANCE_INSUFFICIENT) (acc_id account) (wd_amount order) d1 (\<lambda>d2.
           or_throw (account_by_id (acc_id account) (accounts d2)) (NotFound ACCOUNT_NOT_FOUND) (\<lambda>updated.
             Inr (order, add_bill \<lparr>bill_user = wd_user order, bill_transaction = wd_id order,
                 bill_type = BillType.WITHDRAW, bill_direction = INCOME, bill_amount = wd_amount order,
                 bill_counterparty = None\<rparr>
               (add_ledger \<lparr>led_account = acc_id account, led_transaction = wd_id order,
                 led_type = LedgerType.WITHDRAW, led_amount = wd_amount order,
                 led_before = availableBalance updated - wd_amount order,
                 led_after = availableBalance updated, led_direction = DEBIT\<rparr> d2))))))))"

definition withdrawal_reject :: "env \<Rightarrow> string \<Rightarrow> string \<Rightarrow> world \<Rightarrow> (exn + WithdrawalOrder) \<times> world" where
  "withdrawal_reject e orderId adminId =
     withLock (''withdraw:reject:'' @ orderId) (transaction (reject_body e orderId adminId))"

subsection \<open>Fee bounds\<close>

lemma js_round_between:
  assumes "0 \<le> x" and "x \<le> of_int n"
  shows "0 \<le> js_round x \<and> js_round x \<le> n"
proof -
  have "x + 1 / 2 < of_int (n + 1)" using assms(2) by simp
  then have "\<lfloor>x + 1 / 2\<rfloor> < n + 1" by (simp only: floor_less_iff)
  with assms(1) show ?thesis by (simp add: js_round_def le_floor_iff)
qed

text \<open>A fee rate up to one half in double arithmetic never takes more than the amount.\<close>

lemma fee_between:
  assumes "0 \<le> n" and "0 \<le> x" and "x \<le> 1 / 2" and "withdrawal_fee n (Num x) = Some fee"
  shows "0 \<le> fee \<and> fee \<le> n"
proof -
  define y where "y = of_int n * x"
  have y: "0 \<le> y" unfolding y_def using assms(1,2) by (intro mult_nonneg_nonneg) simp_all
  have half: "y \<le> of_int n / 2" using assms(1) mult_left_mono [OF assms(3), of "of_int n"] by (simp add: y_def)
  have "\<bar>fl y - y\<bar> \<le> y / 2 ^ 53" using fl_err [of y] y by simp
  moreover have "y / 2 ^ 53 \<le> y" using y by simp
  ultimately have "fl y \<le> 2 * y" by (auto simp: abs_if split: if_splits)
  then have "fl y \<le> of_int n" using half by simp
  moreover have "0 \<le> fl y" using y by (rule fl_nonneg)
  ultimately show ?thesis using assms(4) js_round_between [of "fl y" n]
    by (simp add: withdrawal_fee_def js_mul_def y_def)
qed

subsection \<open>Each transaction keeps the money invariant\<close>

lemma wd_id_SomeD: "withdrawal_by_id i d = Some r \<Longrightarrow> r \<in> set (withdrawalOrders d) \<and> wd_id r = i"
  unfolding withdrawal_by_id_def by (rule findUnique_SomeD)

lemma wd_no_SomeD: "withdrawal_by_no no d = Some r \<Longrightarrow> r \<in> set (withdrawalOrders d) \<and> wd_orderNo r = no"
  unfolding withdrawal_by_no_def by (rule findUnique_SomeD)

text \<open>A change of status of one order, on the three sums over the table.\<close>

lemma wd_update:
  assumes ok: "withdrawals_ok t" and r: "r \<in> set t" "Q r"
    and f: "\<And>s. wd_id (f s) = wd_id s" "wd_user (f r) = wd_user r" "wf_withdrawal (f r)"
  defines "t' \<equiv> updateRows (\<lambda>s. wd_id s = wd_id r \<and> Q s) f t"
  shows "withdrawals_ok t'" and "wd_held u t' = wd_held u t + (if wd_user r = u then wd_weight (f r) - wd_weight r else 0)"
    and "in_transit t' = in_transit t + (wd_transit (f r) - wd_transit r)"
    and "findUnique (\<lambda>s. wd_id s = wd_id r) t' = Some (f r)"
proof -
  show "withdrawals_ok t'" unfolding t'_def by (rule withdrawals.update_ok [OF ok r(1)]) (simp_all add: f)
  show "wd_held u t' = wd_held u t + (if wd_user r = u then wd_weight (f r) - wd_weight r else 0)"
    unfolding t'_def by (rule withdrawals.update_held [where Q = Q and f = f and u = u, OF ok r f(2)])
  show "in_transit t' = in_transit t + (wd_transit (f r) - wd_transit r)"
    unfolding t'_def by (rule in_transit_update [where Q = Q and f = f, OF ok r])
  show "findUnique (\<lambda>s. wd_id s = wd_id r) t' = Some (f r)"
    unfolding t'_def by (rule withdrawals.update_row [where Q = Q and f = f, OF ok r f(1)])
qed

lemma wd_transition_hit:
  assumes "wd_transition i st f d = Inr (c, d')" and "c \<noteq> 0"
  shows "d' = d\<lparr>withdrawalOrders := updateRows (\<lambda>r. wd_id r = i \<and> wd_status r = st) f (withdrawalOrders d)\<rparr>"
    and "\<exists>r \<in> set (withdrawalOrders d). wd_id r = i \<and> wd_status r = st"
  using assms by (auto simp: wd_transition_def filter_empty_conv)

lemma approve_body_money_ok:
  assumes run: "approve_body e r adminId d = Inr (x, d')" and inv: "money_ok d"
    and r: "r \<in> set (withdrawalOrders d)" "wd_status r = WithdrawalStatus.PENDING"
  shows "money_ok d'" and "total_assets (accounts d') = total_assets (accounts d) - wd_amount r"
    and "withdrawal_by_id (wd_id r) d' = Some (r\<lparr>wd_status := WithdrawalStatus.PROCESSING,
      wd_reviewedBy := Some adminId, wd_reviewedAt := Some (now e)\<rparr>)"
proof -
  note ok = money_okD [OF inv]
  let ?n = "wd_amount r"
  let ?f = "\<lambda>r. r\<lparr>wd_status := WithdrawalStatus.PROCESSING, wd_reviewedBy := Some adminId, wd_reviewedAt := Some (now e)\<rparr>"
  let ?Q = "\<lambda>r. wd_status r = WithdrawalStatus.PENDING"
  let ?t = "updateRows (\<lambda>s. wd_id s = wd_id r \<and> ?Q s) ?f (withdrawalOrders d)"
  let ?d1 = "d\<lparr>withdrawalOrders := ?t\<rparr>"
  have wf: "wf_withdrawal r" by (rule withdrawals.row_ok [OF ok(4) r(1)])
  then have n: "0 \<le> ?n" and wff: "wf_withdrawal (?f r)" by (simp_all add: wf_withdrawal_def)
  have up: "withdrawals_ok ?t" "\<And>u. wd_held u ?t = wd_held u (withdrawalOrders d) + (if wd_user r = u then - ?n else 0)"
    "in_transit ?t = in_transit (withdrawalOrders d) + ?n" "findUnique (\<lambda>s. wd_id s = wd_id r) ?t = Some (?f r)"
    using wd_update [where Q = ?Q and f = ?f, OF ok(4) r] wff r(2) by (simp_all add: wd_weight_def wd_transit_def)
  obtain a where a: "account_of (wd_user r) (accounts d) = Some a"
    and rest: "guarded acc_release (BadRequest FROZEN_BALANCE_INSUFFICIENT) (acc_id a) ?n ?d1 (\<lambda>d2.
           or_throw (account_by_id (acc_id a) (accounts d2)) (NotFound ACCOUNT_NOT_FOUND) (\<lambda>updated.
             Inr ((), add_ledger \<lparr>led_account = acc_id a, led_transaction = wd_id r,
               led_type = LedgerType.WITHDRAW, led_amount = ?n,
               led_before = frozenBalance updated + ?n, led_after = frozenBalance updated,
               led_direction = CREDIT\<rparr> d2))) = Inr (x, d')"
    using run by (auto simp: approve_body_def wd_transition_def)
  have ok1: "accounts_ok (accounts ?d1)" and ai: "account_by_id (acc_id a) (accounts ?d1) = Some a"
    using ok(1) account_of_by_id [OF ok(1) a] by simp_all
  have au: "acc_user a = wd_user r" using account_of_SomeD [OF a] by simp
  note rel = release.guarded_Inr [OF ok1 ai n rest]
  obtain z where d': "d' = add_ledger \<lparr>led_account = acc_id a, led_transaction = wd_id r,
      led_type = LedgerType.WITHDRAW, led_amount = ?n, led_before = z + ?n, led_after = z,
      led_direction = CREDIT\<rparr> (moved (acc_id a) 0 (- ?n) ?d1)"
    using rel(1) by auto
  have mv: "total_assets (accounts d') = total_assets (accounts d) - ?n"
    "frozen_of u (accounts d') = frozen_of u (accounts d) + (if wd_user r = u then - ?n else 0)" for u
    using move_funds_by_id [OF ok1 ai] by (simp_all add: d' au)
  show "total_assets (accounts d') = total_assets (accounts d) - ?n" by (rule mv(1))
  show "withdrawal_by_id (wd_id r) d' = Some (?f r)" using up(4) by (simp add: d' withdrawal_by_id_def)
  show "money_ok d'"
  proof (rule money_ok_step [OF inv])
    show "books_ok d'" using ok rel(2) up(1) by (simp add: books_ok_def d' journal_balance_def ledger_ok_def)
    show "map acc_user (accounts d') = map acc_user (accounts d)" by (simp add: d')
    show "frozen_of u (accounts d') - frozen_of u (accounts d) = Holdings.held u d' - Holdings.held u d" for u
      by (simp add: mv(2)) (simp add: d' held_def up(2))
    show "platform_total d' - platform_total d = total_assets (accounts d') +
        in_transit (withdrawalOrders d') - (total_assets (accounts d) + in_transit (withdrawalOrders d))"
      by (simp add: mv(1)) (simp add: d' platform_total_def up(3))
  qed
qed

lemma withdrawal_new_money_ok:
  assumes run: "withdrawal_new e userId dto n fee d = Inr ((r, new), d')" and inv: "money_ok d" and n: "0 \<le> n"
  shows "money_ok d'" and "total_assets (accounts d') = total_assets (accounts d)"
    and "wd_user r = userId" and "wd_amount r = n" and "wd_status r = WithdrawalStatus.PENDING"
    and "withdrawalOrders d' = withdrawalOrders d @ [r]"
proof -
  note ok = money_okD [OF inv]
  obtain d1 a where lim: "checkAndIncrementDailyLimit (uuid e 0) userId ''WITHDRAW'' (utc_day (now e)) n
      (config_limit ''withdrawal_daily_limit'' DEFAULT_WITHDRAW_DAILY_LIMIT_CENTS d) d = Inr d1"
    and a: "account_of userId (accounts d1) = Some a"
    and rest: "guarded acc_freeze (BadRequest INSUFFICIENT_BALANCE) (acc_id a) n d1 (\<lambda>d1.
           or_throw fee PrismaValidation (\<lambda>fee.
             let order = \<lparr>wd_id = uuid e 1, wd_orderNo = generateOrderNo e 0 ''W'', wd_user = userId,
                   wd_amount = n, wd_fee = fee, wd_actualAmount = n - fee,
                   wd_status = WithdrawalStatus.PENDING, wd_channel = ''BANK'', wd_channelOrderNo = None,
                   wd_reviewedBy = None, wd_reviewedAt = None, wd_idem = wdd_idem dto\<rparr>
             in throw_if (\<not> int32 fee \<or> \<not> int32 (n - fee)) PrismaValidation
               (bindE (create P2002 wd_conflict order (withdrawalOrders d1)) (\<lambda>t.
                  let d2 = d1\<lparr>withdrawalOrders := t\<rparr>
                  in or_throw (account_by_id (acc_id a) (accounts d2)) (NotFound ACCOUNT_NOT_FOUND) (\<lambda>updated.
                    let d3 = add_ledger \<lparr>led_account = acc_id a, led_transaction = wd_id order,
                          led_type = LedgerType.WITHDRAW, led_amount = n,
                          led_before = availableBalance updated + n, led_after = availableBalance updated,
                          led_direction = CREDIT\<rparr> d2
                    in Inr ((order, True),
                         if LARGE_WITHDRAWAL_THRESHOLD_CENTS < n
                         then add_event userId LARGE_TRANSFER MEDIUM d3 else d3)))))) = Inr ((r, new), d')"
    using run by (auto simp: withdrawal_new_def)
  obtain l where d1: "d1 = d\<lparr>dailyLimitUsages := l\<rparr>" using checkAndIncrementDailyLimit_frame [OF lim] by blast
  have ok1: "accounts_ok (accounts d1)" using ok by (simp add: d1)
  have au: "acc_user a = userId" using account_of_SomeD [OF a] by simp
  note ai = account_of_by_id [OF ok1 a]
  note fr = freeze.guarded_Inr [OF ok1 ai n rest]
  let ?d2 = "moved (acc_id a) (- n) n d1"
  obtain fe where fe: "fee = Some fe" using fr(1) by auto
  define q where "q = \<lparr>wd_id = uuid e 1, wd_orderNo = generateOrderNo e 0 ''W'', wd_user = userId,
    wd_amount = n, wd_fee = fe, wd_actualAmount = n - fe, wd_status = WithdrawalStatus.PENDING,
    wd_channel = ''BANK'', wd_channelOrderNo = None, wd_reviewedBy = None, wd_reviewedAt = None,
    wd_idem = wdd_idem dto\<rparr>"
  have "r = q \<and> (\<forall>s \<in> set (withdrawalOrders d1). \<not> wd_conflict q s) \<and>
    (\<exists>z. d' = (let d3 = add_ledger \<lparr>led_account = acc_id a, led_transaction = wd_id q,
        led_type = LedgerType.WITHDRAW, led_amount = n, led_before = z + n, led_after = z,
        led_direction = CREDIT\<rparr> (?d2\<lparr>withdrawalOrders := withdrawalOrders d1 @ [q]\<rparr>)
      in if LARGE_WITHDRAWAL_THRESHOLD_CENTS < n then add_event userId LARGE_TRANSFER MEDIUM d3 else d3))"
    using fr(1) unfolding fe Let_def or_throw_simps q_def [symmetric] by (auto simp: Let_def)
  then obtain z where rq: "r = q" and new: "\<forall>s \<in> set (withdrawalOrders d1). \<not> wd_conflict r s"
    and d': "d' = (let d3 = add_ledger \<lparr>led_account = acc_id a, led_transaction = wd_id r,
        led_type = LedgerType.WITHDRAW, led_amount = n, led_before = z + n, led_after = z,
        led_direction = CREDIT\<rparr> (?d2\<lparr>withdrawalOrders := withdrawalOrders d1 @ [r]\<rparr>)
      in if LARGE_WITHDRAWAL_THRESHOLD_CENTS < n then add_event userId LARGE_TRANSFER MEDIUM d3 else d3)"
    by blast
  have r: "wd_user r = userId" "wd_amount r = n" "wd_status r = WithdrawalStatus.PENDING" "wf_withdrawal r"
    using n by (simp_all add: rq q_def wf_withdrawal_def)
  have "wd_id r \<notin> wd_id ` set (withdrawalOrders d)" using new by (auto simp: wd_conflict_def d1)
  then have tok: "withdrawals_ok (withdrawalOrders d @ [r])" by (intro withdrawals.insert_ok ok(4) r(4))
  have tables: "accounts d' = move_funds (acc_id a) (- n) n (accounts d)"
    "escrowOrders d' = escrowOrders d" "redPackets d' = redPackets d"
    "withdrawalOrders d' = withdrawalOrders d @ [r]" "platformAccounts d' = platformAccounts d"
    "journalEntries d' = journalEntries d" "ledgers_ok d' = ledgers_ok d"
    "transactionOrders d' = transactionOrders d"
    by (simp_all add: d' d1 Let_def ledger_ok_def)
  have ai0: "account_by_id (acc_id a) (accounts d) = Some a" using ai by (simp add: d1)
  note mv = move_funds_by_id [OF ok(1) ai0]
  show "total_assets (accounts d') = total_assets (accounts d)" by (simp add: tables mv)
  show "wd_user r = userId" "wd_amount r = n" "wd_status r = WithdrawalStatus.PENDING"
    "withdrawalOrders d' = withdrawalOrders d @ [r]" using r tables by simp_all
  show "money_ok d'"
  proof (rule money_ok_step [OF inv])
    show "books_ok d'" using ok fr(2) tok by (simp add: books_ok_def tables journal_balance_def d1)
    show "map acc_user (accounts d') = map acc_user (accounts d)" by (simp add: tables)
    show "frozen_of u (accounts d') - frozen_of u (accounts d) = Holdings.held u d' - Holdings.held u d" for u
      by (simp add: tables mv au held_def withdrawals.insert_held r wd_weight_def)
    show "platform_total d' - platform_total d = total_assets (accounts d') +
        in_transit (withdrawalOrders d') - (total_assets (accounts d) + in_transit (withdrawalOrders d))"
      by (simp add: tables mv platform_total_def in_transit_def wd_transit_def r)
  qed
qed

lemma withdrawal_create_body_money_ok:
  assumes "withdrawal_create_body e userId dto n fee d = Inr (x, d')" and "money_ok d" and "0 \<le> n"
  shows "money_ok d'"
proof (cases "if truthy (wdd_idem dto) then findUnique (\<lambda>r. wd_idem r = wdd_idem dto) (withdrawalOrders d) else None")
  case None
  with assms(1) have "withdrawal_new e userId dto n fee d = Inr (x, d')"
    unfolding withdrawal_create_body_def None by simp
  then show ?thesis using withdrawal_new_money_ok(1) assms(2,3) by (cases x) blast
next
  case (Some r)
  with assms(1) have "d' = d" unfolding withdrawal_create_body_def Some by auto
  with assms(2) show ?thesis by simp
qed

lemma save_channel_money_ok:
  assumes run: "save_channel_no i code no d = Inr (r', d')" and inv: "money_ok d"
  shows "money_ok d'"
proof -
  note ok = money_okD [OF inv]
  let ?f = "\<lambda>r. r\<lparr>wd_channel := code, wd_channelOrderNo := Some no\<rparr>"
  let ?t = "updateRows (\<lambda>s. wd_id s = i) ?f (withdrawalOrders d)"
  have d': "d' = d\<lparr>withdrawalOrders := ?t\<rparr>" using run by (auto simp: save_channel_no_def)
  have "list_all wf_withdrawal ?t" using ok(4)
    by (auto simp: withdrawals_ok_def list_all_iff set_updateRows wf_withdrawal_def)
  then have tok: "withdrawals_ok ?t" using ok(4) by (simp add: withdrawals_ok_def map_updateRows_frame)
  have "wd_held u ?t = wd_held u (withdrawalOrders d)" for u unfolding wd_held_def
    by (intro arg_cong [where f = sum_list] map_updateRows_frame) (simp add: wd_weight_def)
  moreover have "in_transit ?t = in_transit (withdrawalOrders d)" unfolding in_transit_def
    by (intro arg_cong [where f = sum_list] map_updateRows_frame) (simp add: wd_transit_def)
  ultimately show ?thesis using ok tok unfolding d'
    by (intro money_ok_step [OF inv]) (simp_all add: books_ok_def held_def platform_total_def journal_balance_def)
qed

lemma callback_success_money_ok:
  assumes run: "callback_success e r d = Inr (x, d')" and inv: "money_ok d"
    and r: "r \<in> set (withdrawalOrders d)" "wd_status r = WithdrawalStatus.PROCESSING"
  shows "money_ok d'" and "accounts d' = accounts d"
    and "platform_total d' = platform_total d - wd_amount r"
    and "withdrawal_by_id (wd_id r) d' = Some (r\<lparr>wd_status := WithdrawalStatus.SUCCESS\<rparr>)"
proof -
  note ok = money_okD [OF inv]
  let ?f = "\<lambda>r. r\<lparr>wd_status := WithdrawalStatus.SUCCESS\<rparr>"
  let ?t = "updateRows (\<lambda>s. wd_id s = wd_id r \<and> True) ?f (withdrawalOrders d)"
  let ?es = "payout_entries (generateOrderNo e 0 ''J'') r"
  have wf: "wf_withdrawal r" by (rule withdrawals.row_ok [OF ok(4) r(1)])
  have up: "withdrawals_ok ?t" "\<And>u. wd_held u ?t = wd_held u (withdrawalOrders d)"
    "in_transit ?t = in_transit (withdrawalOrders d) - wd_amount r"
    "findUnique (\<lambda>s. wd_id s = wd_id r) ?t = Some (?f r)"
    using wd_update [where Q = "\<lambda>_. True" and f = ?f, OF ok(4) r(1)] wf r(2)
    by (simp_all add: wd_weight_def wd_transit_def wf_withdrawal_def)
  obtain b where ce: "createEntries ?es (add_bill b (d\<lparr>withdrawalOrders := ?t\<rparr>)) = Inr d'"
    using run by (auto simp: callback_success_def Let_def)
  have codes: "distinct (map pa_code (platformAccounts (add_bill b (d\<lparr>withdrawalOrders := ?t\<rparr>))))" using ok(5) by simp
  note je = createEntries_Inr [OF ce codes]
  obtain js ps where d': "d' = (add_bill b (d\<lparr>withdrawalOrders := ?t\<rparr>))\<lparr>journalEntries := js, platformAccounts := ps\<rparr>"
    using je(5) by blast
  have tables: "accounts d' = accounts d" "escrowOrders d' = escrowOrders d" "redPackets d' = redPackets d"
    "withdrawalOrders d' = ?t" "accountLedgers d' = accountLedgers d" "transactionOrders d' = transactionOrders d"
    by (simp_all add: d') (simp add: add_bill_def)
  have "platform_net ?es = - wd_amount r" using wf
    by (simp add: platform_net_def payout_entries_def entry_delta_def or0_def is_user_code_def user_code_def wf_withdrawal_def)
  then have pt: "platform_total d' = platform_total d - wd_amount r" using je(1) by (simp add: platform_total_def)
  show "accounts d' = accounts d" and "platform_total d' = platform_total d - wd_amount r" by (rule tables(1), rule pt)
  show "withdrawal_by_id (wd_id r) d' = Some (?f r)" using up(4) by (simp add: tables withdrawal_by_id_def)
  show "money_ok d'"
  proof (rule money_ok_step [OF inv])
    show "books_ok d'" using ok up(1) je(3,4)
      by (simp add: books_ok_def tables ledgers_ok_def) (simp add: journal_balance_def)
    show "map acc_user (accounts d') = map acc_user (accounts d)" by (simp add: tables)
    show "frozen_of u (accounts d') - frozen_of u (accounts d) = Holdings.held u d' - Holdings.held u d" for u
      using up(2) by (simp add: tables held_def)
    show "platform_total d' - platform_total d = total_assets (accounts d') +
        in_transit (withdrawalOrders d') - (total_assets (accounts d) + in_transit (withdrawalOrders d))"
      using up(3) by (simp add: pt tables)
  qed
qed

lemma callback_failure_money_ok:
  assumes run: "callback_failure r a d = Inr (x, d')" and inv: "money_ok d"
    and r: "r \<in> set (withdrawalOrders d)" "wd_status r = WithdrawalStatus.PROCESSING"
    and a: "account_of (wd_user r) (accounts d) = Some a"
  shows "money_ok d'" and "available_of (wd_user r) (accounts d') = available_of (wd_user r) (accounts d) + wd_amount r"
    and "withdrawal_by_id (wd_id r) d' = Some (r\<lparr>wd_status := WithdrawalStatus.FAILED\<rparr>)"
proof -
  note ok = money_okD [OF inv]
  let ?n = "wd_amount r"
  let ?f = "\<lambda>r. r\<lparr>wd_status := WithdrawalStatus.FAILED\<rparr>"
  let ?Q = "\<lambda>r. wd_status r = WithdrawalStatus.PROCESSING"
  let ?t = "updateRows (\<lambda>s. wd_id s = wd_id r \<and> ?Q s) ?f (withdrawalOrders d)"
  let ?d1 = "d\<lparr>withdrawalOrders := ?t\<rparr>"
  have wf: "wf_withdrawal r" by (rule withdrawals.row_ok [OF ok(4) r(1)])
  then have n: "0 \<le> ?n" by (simp add: wf_withdrawal_def)
  have up: "withdrawals_ok ?t" "\<And>u. wd_held u ?t = wd_held u (withdrawalOrders d)"
    "in_transit ?t = in_transit (withdrawalOrders d) - ?n"
    "findUnique (\<lambda>s. wd_id s = wd_id r) ?t = Some (?f r)"
    using wd_update [where Q = ?Q and f = ?f, OF ok(4) r] wf r(2)
    by (simp_all add: wd_weight_def wd_transit_def wf_withdrawal_def)
  have "filter (\<lambda>s. wd_id s = wd_id r \<and> ?Q s) (withdrawalOrders d) \<noteq> []" using r by (auto simp: filter_empty_conv)
  then have cr: "credit_account (acc_id a) ?n ?d1 (\<lambda>updated d2.
         Inr ((), add_bill \<lparr>bill_user = wd_user r, bill_transaction = wd_id r,
              bill_type = BillType.WITHDRAW, bill_direction = INCOME, bill_amount = ?n,
              bill_counterparty = None\<rparr>
           (add_ledger \<lparr>led_account = acc_id a, led_transaction = wd_id r,
              led_type = LedgerType.WITHDRAW, led_amount = ?n,
              led_before = availableBalance updated - ?n,
              led_after = availableBalance updated, led_direction = DEBIT\<rparr> d2))) = Inr (x, d')"
    using run by (auto simp: callback_failure_def wd_transition_def)
  have ok1: "accounts_ok (accounts ?d1)" and ai: "account_by_id (acc_id a) (accounts ?d1) = Some a"
    using ok(1) account_of_by_id [OF ok(1) a] by simp_all
  have au: "acc_user a = wd_user r" using account_of_SomeD [OF a] by simp
  note cred = credit_account_Inr [OF ok1 ai n cr]
  have tables: "accounts d' = move_funds (acc_id a) ?n 0 (accounts d)" "escrowOrders d' = escrowOrders d"
    "redPackets d' = redPackets d" "withdrawalOrders d' = ?t" "platformAccounts d' = platformAccounts d"
    "journalEntries d' = journalEntries d" "ledgers_ok d' = ledgers_ok d"
    "transactionOrders d' = transactionOrders d"
    using cred(1) by (auto simp: ledger_ok_def)
  have mv: "total_assets (accounts d') = total_assets (accounts d) + ?n"
    "frozen_of u (accounts d') = frozen_of u (accounts d)"
    "available_of u (accounts d') = available_of u (accounts d) + (if wd_user r = u then ?n else 0)" for u
    using move_funds_by_id [OF ok1 ai] by (simp_all add: tables au)
  show "available_of (wd_user r) (accounts d') = available_of (wd_user r) (accounts d) + ?n" by (simp add: mv(3))
  show "withdrawal_by_id (wd_id r) d' = Some (?f r)" using up(4) by (simp add: tables withdrawal_by_id_def)
  show "money_ok d'"
  proof (rule money_ok_step [OF inv])
    show "books_ok d'" using ok cred(2) up(1) by (simp add: books_ok_def tables journal_balance_def)
    show "map acc_user (accounts d') = map acc_user (accounts d)" by (simp add: tables)
    show "frozen_of u (accounts d') - frozen_of u (accounts d) = Holdings.held u d' - Holdings.held u d" for u
      using up(2) by (simp add: mv(2)) (simp add: tables held_def)
    show "platform_total d' - platform_total d = total_assets (accounts d') +
        in_transit (withdrawalOrders d') - (total_assets (accounts d) + in_transit (withdrawalOrders d))"
      by (simp add: mv(1)) (simp add: tables platform_total_def up(3))
  qed
qed

lemma callback_body_money_ok:
  assumes "payout_callback_body e code res d = Inr (x, d')" and "money_ok d"
  shows "money_ok d'"
  using assms callback_success_money_ok(1) callback_failure_money_ok(1)
  by (fastforce simp: payout_callback_body_def dest: wd_no_SomeD split: if_splits)

lemma reject_body_money_ok:
  assumes run: "reject_body e orderId adminId d = Inr (r', d')" and inv: "money_ok d"
  shows "money_ok d'" and "total_assets (accounts d') = total_assets (accounts d)"
    and "\<exists>r. withdrawal_by_id orderId d = Some r \<and> wd_status r = WithdrawalStatus.PENDING \<and>
      map_option wd_status (withdrawal_by_id orderId d') = Some WithdrawalStatus.REJECTED \<and>
      available_of (wd_user r) (accounts d') = available_of (wd_user r) (accounts d) + wd_amount r"
proof -
  note ok = money_okD [OF inv]
  let ?f = "\<lambda>r. r\<lparr>wd_status := WithdrawalStatus.REJECTED, wd_reviewedBy := Some adminId, wd_reviewedAt := Some (now e)\<rparr>"
  let ?Q = "\<lambda>r. wd_status r = WithdrawalStatus.PENDING"
  obtain c d1 where tr: "wd_transition orderId WithdrawalStatus.PENDING ?f d = Inr (c, d1)" and c: "c \<noteq> 0"
    and rest: "or_throw (withdrawal_by_id orderId d1) (NotFound WITHDRAWAL_ORDER_NOT_FOUND) (\<lambda>order.
       or_throw (account_of (wd_user order) (accounts d1)) (NotFound ACCOUNT_NOT_FOUND) (\<lambda>account.
         guarded acc_unfreeze (BadRequest FROZEN_BALANCE_INSUFFICIENT) (acc_id account) (wd_amount order) d1 (\<lambda>d2.
           or_throw (account_by_id (acc_id account) (accounts d2)) (NotFound ACCOUNT_NOT_FOUND) (\<lambda>updated.
             Inr (order, add_bill \<lparr>bill_user = wd_user order, bill_transaction = wd_id order,
                 bill_type = BillType.WITHDRAW, bill_direction = INCOME, bill_amount = wd_amount order,
                 bill_counterparty = None\<rparr>
               (add_ledger \<lparr>led_account = acc_id account, led_transaction = wd_id order,
                 led_type = LedgerType.WITHDRAW, led_amount = wd_amount order,
                 led_before = availableBalance updated - wd_amount order,
                 led_after = availableBalance updated, led_direction = DEBIT\<rparr> d2)))))) = Inr (r', d')"
    using run by (auto simp: reject_body_def)
  obtain r where r: "r \<in> set (withdrawalOrders d)" "wd_status r = WithdrawalStatus.PENDING" and id: "wd_id r = orderId"
    using wd_transition_hit(2) [OF tr c] by blast
  let ?n = "wd_amount r"
  let ?t = "updateRows (\<lambda>s. wd_id s = wd_id r \<and> ?Q s) ?f (withdrawalOrders d)"
  have d1: "d1 = d\<lparr>withdrawalOrders := ?t\<rparr>" using wd_transition_hit(1) [OF tr c] by (simp add: id)
  have wf: "wf_withdrawal r" by (rule withdrawals.row_ok [OF ok(4) r(1)])
  then have n: "0 \<le> ?n" by (simp add: wf_withdrawal_def)
  have up: "withdrawals_ok ?t" "\<And>u. wd_held u ?t = wd_held u (withdrawalOrders d) + (if wd_user r = u then - ?n else 0)"
    "in_transit ?t = in_transit (withdrawalOrders d)" "findUnique (\<lambda>s. wd_id s = wd_id r) ?t = Some (?f r)"
    using wd_update [where Q = ?Q and f = ?f, OF ok(4) r] wf r(2)
    by (simp_all add: wd_weight_def wd_transit_def wf_withdrawal_def)
  have row: "withdrawal_by_id orderId d1 = Some (?f r)" using up(4) by (simp add: d1 withdrawal_by_id_def id)
  have accd: "accounts d1 = accounts d" by (simp add: d1)
  obtain a where a: "account_of (wd_user r) (accounts d) = Some a"
    and g: "guarded acc_unfreeze (BadRequest FROZEN_BALANCE_INSUFFICIENT) (acc_id a) ?n d1 (\<lambda>d2.
           or_throw (account_by_id (acc_id a) (accounts d2)) (NotFound ACCOUNT_NOT_FOUND) (\<lambda>updated.
             Inr (?f r, add_bill \<lparr>bill_user = wd_user r, bill_transaction = wd_id r,
                 bill_type = BillType.WITHDRAW, bill_direction = INCOME, bill_amount = ?n,
                 bill_counterparty = None\<rparr>
               (add_ledger \<lparr>led_account = acc_id a, led_transaction = wd_id r,
                 led_type = LedgerType.WITHDRAW, led_amount = ?n,
                 led_before = availableBalance updated - ?n,
                 led_after = availableBalance updated, led_direction = DEBIT\<rparr> d2)))) = Inr (r', d')"
    using rest by (auto simp: row accd)
  have ok1: "accounts_ok (accounts d1)" and ai: "account_by_id (acc_id a) (accounts d1) = Some a"
    using ok(1) account_of_by_id [OF ok(1) a] by (simp_all add: d1)
  have au: "acc_user a = wd_user r" using account_of_SomeD [OF a] by simp
  note un = unfreeze.guarded_Inr [OF ok1 ai n g]
  have tables: "accounts d' = move_funds (acc_id a) ?n (- ?n) (accounts d)" "escrowOrders d' = escrowOrders d"
    "redPackets d' = redPackets d" "withdrawalOrders d' = ?t" "platformAccounts d' = platformAccounts d"
    "journalEntries d' = journalEntries d" "ledgers_ok d' = ledgers_ok d"
    "transactionOrders d' = transactionOrders d"
    using un(1) by (auto simp: ledger_ok_def d1)
  have mv: "total_assets (accounts d') = total_assets (accounts d)"
    "frozen_of u (accounts d') = frozen_of u (accounts d) + (if wd_user r = u then - ?n else 0)"
    "available_of u (accounts d') = available_of u (accounts d) + (if wd_user r = u then ?n else 0)" for u
    using move_funds_by_id [OF ok1 ai] by (simp_all add: tables au d1)
  show "total_assets (accounts d') = total_assets (accounts d)" by (rule mv(1))
  have "withdrawal_by_id orderId d = Some r"
    using findUnique_key_eq [of wd_id "withdrawalOrders d" r orderId] ok(4) r(1) id
    by (simp add: withdrawal_by_id_def withdrawals_ok_def)
  then show "\<exists>r. withdrawal_by_id orderId d = Some r \<and> wd_status r = WithdrawalStatus.PENDING \<and>
      map_option wd_status (withdrawal_by_id orderId d') = Some WithdrawalStatus.REJECTED \<and>
      available_of (wd_user r) (accounts d') = available_of (wd_user r) (accounts d) + wd_amount r"
    using r(2) up(4) id by (intro exI [of _ r]) (simp add: mv(3) tables(4) withdrawal_by_id_def)
  show "money_ok d'"
  proof (rule money_ok_step [OF inv])
    show "books_ok d'" using ok un(2) up(1) by (simp add: books_ok_def tables journal_balance_def d1)
    show "map acc_user (accounts d') = map acc_user (accounts d)" by (simp add: tables)
    show "frozen_of u (accounts d') - frozen_of u (accounts d) = Holdings.held u d' - Holdings.held u d" for u
      using up(2) by (simp add: mv(2)) (simp add: tables held_def)
    show "platform_total d' - platform_total d = total_assets (accounts d') +
        in_transit (withdrawalOrders d') - (total_assets (accounts d) + in_transit (withdrawalOrders d))"
      by (simp add: mv(1)) (simp add: tables platform_total_def up(3))
  qed
qed

subsection \<open>Requests\<close>

lemma keeps_withdrawal_create:
  assumes inv: "money_ok (wdb w)"
  shows "keeps money_ok (withdrawal_create pw_ok e userId dto w)"
  unfolding withdrawal_create_def withdrawal_create_locked_def Let_def
  apply (intro keep)
  apply (simp_all add: inv)
  apply (rule withdrawal_create_body_money_ok, assumption+)
  apply (auto simp: fen_Inr intro: yuanToFen_nonneg)
  done

lemma keeps_approve_locked:
  assumes inv: "money_ok (wdb w)"
  shows "keeps money_ok (approve_locked payout e orderId adminId w)"
  unfolding approve_locked_def
  apply (intro keep)
  apply (simp_all add: inv)
   apply (auto intro: approve_body_money_ok(1) inv save_channel_money_ok dest: wd_id_SomeD)
  done

lemma keeps_withdrawal_approve:
  "money_ok (wdb w) \<Longrightarrow> keeps money_ok (withdrawal_approve payout e orderId adminId w)"
  unfolding withdrawal_approve_def by (intro keep keeps_approve_locked) simp_all

lemma keeps_payout_callback:
  assumes "money_ok (wdb w)"
  shows "keeps money_ok (handlePayoutCallback parse e code body w)"
  unfolding handlePayoutCallback_def
  by (intro keep; (simp add: assms)?) (erule callback_body_money_ok [OF _ assms])

lemma keeps_withdrawal_reject:
  assumes "money_ok (wdb w)"
  shows "keeps money_ok (withdrawal_reject e orderId adminId w)"
  unfolding withdrawal_reject_def
  by (intro keep; (simp add: assms)?) (auto intro: reject_body_money_ok(1) assms)

text \<open>A request that fails leaves the database to a property that does not look at the risk events.\<close>

lemma fails_withdrawal_create:
  assumes "P (wdb w)" and ev: "ignores_events P"
  shows "fails P (withdrawal_create pw_ok e userId dto w)"
proof -
  have evd: "P (wdb w\<lparr>riskEvents := evs\<rparr>)" for evs using ignores_eventsD [OF ev assms(1)] .
  show ?thesis
    unfolding withdrawal_create_def withdrawal_create_locked_def Let_def
    by (intro failing ev) (auto simp: assms evd dest!: verifyPayPassword_Inr risk_guard_Inr)
qed

subsection \<open>Reviews succeed\<close>





subsection \<open>What the user and the administrator can rely on\<close>




text \<open>What a callback does to the table of orders.\<close>

lemma callback_table:
  assumes "payout_callback_body e code res d = Inr ((), d')"
    and "withdrawal_by_no (po_orderNo res) d = Some r" and "wd_status r = WithdrawalStatus.PROCESSING"
  shows "withdrawal_by_no (po_orderNo res) d' = Some (r\<lparr>wd_status :=
    (if po_success res then WithdrawalStatus.SUCCESS else WithdrawalStatus.FAILED)\<rparr>)"
proof -
  have table: "\<exists>P. withdrawalOrders d' = updateRows P (\<lambda>s. s\<lparr>wd_status :=
      (if po_success res then WithdrawalStatus.SUCCESS else WithdrawalStatus.FAILED)\<rparr>) (withdrawalOrders d) \<and> P r"
  proof (cases "po_success res")
    case True
    with assms have "callback_success e r d = Inr ((), d')"
      by (auto simp: payout_callback_body_def split: if_splits)
    with True show ?thesis
      by (auto simp: callback_success_def Let_def createEntries_def intro!: exI [of _ "\<lambda>s. wd_id s = wd_id r"])
  next
    case False
    with assms obtain a where "callback_failure r a d = Inr ((), d')"
      by (auto simp: payout_callback_body_def split: if_splits)
    with False assms show ?thesis using wd_no_SomeD [OF assms(2)]
      by (auto simp: callback_failure_def wd_transition_def credit_account_def filter_empty_conv split: if_splits
          intro!: exI [of _ "\<lambda>s. wd_id s = wd_id r \<and> wd_status s = WithdrawalStatus.PROCESSING"])
  qed
  then obtain P where "P r" and t: "withdrawalOrders d' = updateRows P (\<lambda>s. s\<lparr>wd_status :=
      (if po_success res then WithdrawalStatus.SUCCESS else WithdrawalStatus.FAILED)\<rparr>) (withdrawalOrders d)" by blast
  then show ?thesis using assms(2) unfolding withdrawal_by_no_def t
    by (subst findUnique_updateRows) auto
qed

text \<open>
  C9. The channel's report settles a payout exactly once: success pays it out of the platform accounts and
  leaves the users' balances, failure gives the amount back to the user; and the same report again, or a
  contradicting one, from any channel and at any time, changes nothing.
\<close>

theorem payout_settles_once:
  assumes "payout_callback_body e code res d = Inr ((), d')" and "money_ok d"
    and "withdrawal_by_no (po_orderNo res) d = Some r" and "wd_status r = WithdrawalStatus.PROCESSING"
    and "po_orderNo res' = po_orderNo res"
  shows "(if po_success res
      then accounts d' = accounts d \<and> platform_total d' = platform_total d - wd_amount r
      else available_of (wd_user r) (accounts d') = available_of (wd_user r) (accounts d) + wd_amount r) \<and>
    payout_callback_body e' code' res' d' = Inr ((), d')"
proof
  have r: "r \<in> set (withdrawalOrders d)" using wd_no_SomeD [OF assms(3)] by simp
  obtain a where a: "account_of (wd_user r) (accounts d) = Some a" and
    run: "(if po_success res then callback_success e r d else callback_failure r a d) = Inr ((), d')"
    using assms(1,3,4) by (auto simp: payout_callback_body_def split: if_splits)
  show "if po_success res
      then accounts d' = accounts d \<and> platform_total d' = platform_total d - wd_amount r
      else available_of (wd_user r) (accounts d') = available_of (wd_user r) (accounts d) + wd_amount r"
    using run callback_success_money_ok(2,3) [OF _ assms(2) r assms(4)]
      callback_failure_money_ok(2) [OF _ assms(2) r assms(4) a] by (auto split: if_splits)
  show "payout_callback_body e' code' res' d' = Inr ((), d')"
    using callback_table [OF assms(1,3,4)] by (simp add: payout_callback_body_def assms(5))
qed

definition sample_report :: PayoutResult where
  "sample_report = \<lparr>po_orderNo = ''W2'', po_channelOrderNo = ''C2'', po_success = False\<rparr>"

lemma sample_report_runs: "isl (payout_callback_body sample_env ''wechat'' sample_report sample_db) = False"
  by code_simp

theorem payout_settles_once_witness:
  "\<exists>d'. payout_callback_body sample_env ''wechat'' sample_report sample_db = Inr ((), d') \<and>
     available_of ''bob'' (accounts d') = available_of ''bob'' (accounts sample_db) + 100 \<and>
     payout_callback_body sample_env ''alipay'' sample_report d' = Inr ((), d')"
proof -
  obtain d' where run: "payout_callback_body sample_env ''wechat'' sample_report sample_db = Inr ((), d')"
    using not_isl_pair [OF sample_report_runs] by auto
  have "withdrawal_by_no (po_orderNo sample_report) sample_db =
    Some (sample_withdrawal ''W2'' ''bob'' WithdrawalStatus.PROCESSING ''wechat'' (Some ''C2''))"
    by (simp add: withdrawal_by_no_def sample_report_def sample_defs)
  from payout_settles_once [OF run sample_money_ok this, of sample_report sample_env "''alipay''"] run
  show ?thesis by (simp add: sample_report_def sample_withdrawal_def)
qed

lemma approve_body_table:
  assumes "approve_body e r admin d = Inr (x, d')"
  shows "withdrawalOrders d' = updateRows (\<lambda>s. wd_id s = wd_id r \<and> wd_status s = WithdrawalStatus.PENDING)
    (\<lambda>s. s\<lparr>wd_status := WithdrawalStatus.PROCESSING, wd_reviewedBy := Some admin, wd_reviewedAt := Some (now e)\<rparr>)
    (withdrawalOrders d)"
  using assms by (auto simp: approve_body_def wd_transition_def guarded_def)

lemma approve_body_not_channel: "approve_body e r admin d \<noteq> Inl (BadRequest PAYOUT_CHANNEL_FAILED)"
  by (auto simp: approve_body_def wd_transition_def guarded_def updateMany_def acc_release_def kb_simps kb_codes split: if_splits)

lemma save_channel_not_channel: "save_channel_no i code no d \<noteq> Inl (BadRequest PAYOUT_CHANNEL_FAILED)"
  by (auto simp: save_channel_no_def updateOne_def kb_simps split: option.splits if_splits)

lemma failed_call_committed:
  assumes "approve_locked payout e i admin w = (Inl (BadRequest PAYOUT_CHANNEL_FAILED), w')"
    and "withdrawal_by_id i (wdb w) = Some r"
  shows "wd_status r = WithdrawalStatus.PENDING" and "approve_body e r admin (wdb w) = Inr ((), wdb w')"
proof -
  obtain code where st: "wd_status r = WithdrawalStatus.PENDING"
    and run: "andThen (transaction (approve_body e r admin) w) (\<lambda>_ w.
                     case payout code r of
                       None \<Rightarrow> (Inl (BadRequest PAYOUT_CHANNEL_FAILED), w)
                     | Some no \<Rightarrow>
                         andThen (transaction (save_channel_no i code no) w) (\<lambda>updated w.
                           record_quietly (now e) (uuid e 0)
                             \<lparr>ctx_user = wd_user r, ctx_type = TransactionType.WITHDRAW,
                              ctx_amount = wd_amount r, ctx_ip = None\<rparr> updated w))
      = (Inl (BadRequest PAYOUT_CHANNEL_FAILED), w')"
    using assms by (auto simp: approve_locked_def kb_codes split: if_splits option.splits)
  show "wd_status r = WithdrawalStatus.PENDING" by (rule st)
  show "approve_body e r admin (wdb w) = Inr ((), wdb w')"
    using run approve_body_not_channel save_channel_not_channel
    by (auto simp: andThen_def transaction_def record_quietly_def split: sum.splits prod.splits option.splits)
qed

text \<open>
  A payout whose channel call throws cannot be settled by the channel any more: the request has debited
  the user and left the order in processing with the placeholder channel, so every later callback for it,
  success or failure, from every channel there is, is refused as coming from the wrong channel.
\<close>

theorem failed_payout_call_is_stuck:
  assumes "approve_locked payout e i admin w = (Inl (BadRequest PAYOUT_CHANNEL_FAILED), w')"
    and "money_ok (wdb w)" and "withdrawal_by_id i (wdb w) = Some r" and "wd_channel r = ''BANK''"
    and "withdrawal_by_no (wd_orderNo r) (wdb w) = Some r"
    and "code \<in> set registered" and "po_orderNo res = wd_orderNo r"
  shows "total_assets (accounts (wdb w')) = total_assets (accounts (wdb w)) - wd_amount r \<and>
    payout_callback_body e' code res (wdb w') = Inl (BadRequest CALLBACK_CHANNEL_MISMATCH)"
proof -
  note run = failed_call_committed [OF assms(1,3)]
  have r: "r \<in> set (withdrawalOrders (wdb w))" using wd_id_SomeD [OF assms(3)] by simp
  let ?f = "\<lambda>s. s\<lparr>wd_status := WithdrawalStatus.PROCESSING, wd_reviewedBy := Some admin, wd_reviewedAt := Some (now e)\<rparr>"
  have "withdrawal_by_no (wd_orderNo r) (wdb w') = Some (?f r)"
    using assms(5) run(1) unfolding withdrawal_by_no_def approve_body_table [OF run(2)]
    by (subst findUnique_updateRows) auto
  moreover have "code \<noteq> ''BANK''" using assms(6) by (auto simp: registered_def)
  ultimately show ?thesis using approve_body_money_ok(2) [OF run(2) assms(2) r run(1)]
    by (simp add: payout_callback_body_def assms(4,7))
qed

lemma sample_stuck_run:
  "approve_locked (\<lambda>_ _. None) sample_env ''W1'' ''admin'' sample_world =
     (Inl (BadRequest PAYOUT_CHANNEL_FAILED),
      snd (approve_locked (\<lambda>_ _. None) sample_env ''W1'' ''admin'' sample_world))"
proof -
  have "fst (approve_locked (\<lambda>_ _. None) sample_env ''W1'' ''admin'' sample_world) =
    Inl (BadRequest PAYOUT_CHANNEL_FAILED)" by code_simp
  then show ?thesis by (simp add: prod_eq_iff)
qed

theorem failed_payout_call_is_stuck_witness:
  "payout_callback_body sample_env ''wechat'' \<lparr>po_orderNo = ''W1'', po_channelOrderNo = ''C9'', po_success = False\<rparr>
     (wdb (snd (approve_locked (\<lambda>_ _. None) sample_env ''W1'' ''admin'' sample_world))) =
     Inl (BadRequest CALLBACK_CHANNEL_MISMATCH)"
  using failed_payout_call_is_stuck [OF sample_stuck_run sample_world_money_ok,
      of "sample_withdrawal ''W1'' ''alice'' WithdrawalStatus.PENDING ''BANK'' None" "''wechat''"
         "\<lparr>po_orderNo = ''W1'', po_channelOrderNo = ''C9'', po_success = False\<rparr>" sample_env]
  by (simp add: withdrawal_by_id_def withdrawal_by_no_def registered_def sample_defs)

text \<open>
  The fee is the rate times the amount to the nearest fen, up to the error of one multiplication of
  doubles, and at a rate of at most one half it never exceeds the amount.
\<close>

theorem fee_is_rate_of_amount:
  assumes "getFeeRate u d = Num x" and "0 \<le> x" and "x \<le> 1 / 2" and "0 \<le> n"
    and "withdrawal_fee n (getFeeRate u d) = Some fee"
  shows "0 \<le> fee \<and> fee \<le> n \<and> \<bar>of_int fee - of_int n * x\<bar> \<le> 1 / 2 + of_int n * x / 2 ^ 53"
proof -
  define y where "y = of_int n * x"
  have y: "0 \<le> y" unfolding y_def using assms(2,4) by (intro mult_nonneg_nonneg) simp_all
  have fee: "fee = js_round (fl y)" using assms(1,5) by (simp add: withdrawal_fee_def js_mul_def y_def)
  have "\<bar>of_int fee - fl y\<bar> \<le> 1 / 2"
    using of_int_floor_le [of "fl y + 1 / 2"] floor_correct [of "fl y + 1 / 2", THEN conjunct2]
    unfolding fee js_round_def abs_le_iff by linarith
  moreover have "\<bar>fl y - y\<bar> \<le> y / 2 ^ 53" using fl_err [of y] y by simp
  ultimately have "\<bar>of_int fee - y\<bar> \<le> 1 / 2 + y / 2 ^ 53" by linarith
  then show ?thesis using fee_between [OF assms(4,2,3), of fee] assms(1,5) by (simp add: y_def)
qed

theorem fee_is_rate_of_amount_witness:
  "0 \<le> (10::int) \<and> (\<exists>fee. withdrawal_fee 10000 (getFeeRate ''alice'' sample_db) = Some fee \<and> fee \<le> 10000)"
proof -
  have "getFeeRate ''alice'' sample_db = Num (fl (1 / 1000))" by (simp add: getFeeRate_def sample_defs)
  moreover have "0 \<le> fl (1 / 1000)" "fl (1 / 1000) \<le> 1 / 2" by code_simp+
  moreover from calculation obtain fee where "withdrawal_fee 10000 (getFeeRate ''alice'' sample_db) = Some fee"
    by (simp add: withdrawal_fee_def)
  ultimately show ?thesis using fee_is_rate_of_amount [of "''alice''" sample_db _ 10000] by auto
qed

end
