(* ===== verification/Recharge.thy ===== *)
theory Recharge
  imports Samples Channels
begin

text \<open>
  Recharges (transactions/transactions.service.ts): a request creates a pending order and asks a
  payment channel for the payment; the channel's verified callback credits the account and writes the
  double-entry records.

  The channel is a parameter: \<open>charge\<close> gives its order number, or nothing for an exception, and
  \<open>parse\<close> the content of a verified callback, among it the amount the channel says was paid.
\<close>

definition update_order ::
  "string \<Rightarrow> (TransactionOrder \<Rightarrow> TransactionOrder) \<Rightarrow> db \<Rightarrow> exn + (TransactionOrder \<times> db)" where
  "update_order i f d =
     bindE (updateOne P2025 IntOutOfRange (\<lambda>_. True) (\<lambda>r. tx_id r = i) f (transactionOrders d))
       (\<lambda>(r, t). Inr (r, d\<lparr>transactionOrders := t\<rparr>))"

subsection \<open>Request\<close>

definition recharge_order :: "env \<Rightarrow> string \<Rightarrow> string \<Rightarrow> int \<Rightarrow> string option \<Rightarrow> TransactionOrder" where
  "recharge_order e userId code amount key =
     \<lparr>tx_id = uuid e 0, tx_orderNo = generateOrderNo e 0 ''R'', tx_type = TransactionType.RECHARGE,
      tx_status = TransactionStatus.PENDING, tx_amount = amount, tx_fee = 0, tx_from = None, tx_to = Some userId,
      tx_remark = NoRemark, tx_related = None, tx_idem = key, tx_channel = Some code,
      tx_channelOrderNo = None, tx_createdAt = now e, tx_completedAt = None\<rparr>"

text \<open>
  \<open>create\<close> with its catch of P2002: the order with the same key, if there is one, else the error again;
  a lookup by an undefined key is refused by the client.
\<close>

definition create_or_existing ::
  "TransactionOrder \<Rightarrow> db \<Rightarrow> exn + ((TransactionOrder + TransactionOrder) \<times> db)" where
  "create_or_existing order d =
     (if \<not> int32 (tx_amount order) then Inl PrismaValidation
      else case createOrder order d of
        Inr d' \<Rightarrow> Inr (Inr order, d')
      | Inl err \<Rightarrow>
          (case tx_idem order of
             None \<Rightarrow> Inl PrismaValidation
           | Some k \<Rightarrow> (case find_tx_idem k d of Some existing \<Rightarrow> Inr (Inl existing, d) | None \<Rightarrow> Inl err)))"

definition recharge_charge ::
  "(string \<Rightarrow> TransactionOrder \<Rightarrow> string option) \<Rightarrow> bool \<Rightarrow> env \<Rightarrow> string \<Rightarrow> TransactionOrder \<Rightarrow> world \<Rightarrow>
     (exn + TransactionOrder + string \<times> string) \<times> world" where
  "recharge_charge charge notifyUrl e code order w =
     (if \<not> notifyUrl then (Inl (BadRequest RECHARGE_CHANNEL_FAILED), w)
      else case charge code order of
        None \<Rightarrow>
          andThen (transaction (update_order (tx_id order)
                     (\<lambda>r. r\<lparr>tx_status := TransactionStatus.FAILED, tx_completedAt := Some (now e)\<rparr>)) w)
            (\<lambda>_ w. (Inl (BadRequest RECHARGE_CHANNEL_FAILED), w))
      | Some no \<Rightarrow>
          andThen (transaction (update_order (tx_id order) (\<lambda>r. r\<lparr>tx_channelOrderNo := Some no\<rparr>)) w)
            (\<lambda>_ w. (Inr (Inr (tx_orderNo order, no)), w)))"

definition recharge ::
  "(string \<Rightarrow> string \<Rightarrow> bool) \<Rightarrow> (string \<Rightarrow> TransactionOrder \<Rightarrow> string option) \<Rightarrow> bool \<Rightarrow> env \<Rightarrow>
     string \<Rightarrow> jsnum \<Rightarrow> string \<Rightarrow> string option \<Rightarrow> world \<Rightarrow> (exn + TransactionOrder + string \<times> string) \<times> world" where
  "recharge pw_ok charge notifyUrl e userId amountYuan payPassword key w =
     (if amount_le0 amountYuan then (Inl (BadRequest RECHARGE_AMOUNT_INVALID), w)
      else andThen (verifyPayPassword pw_ok (now e) userId payPassword w) (\<lambda>_ w.
        andThen (fen amountYuan, w) (\<lambda>amount w.
          case (if truthy key then find_tx_idem (the key) (wdb w) else None) of
            Some existing \<Rightarrow> (Inr (Inl existing), w)
          | None \<Rightarrow>
              andThen (risk_guard (now e) \<lparr>ctx_user = userId, ctx_type = TransactionType.RECHARGE,
                         ctx_amount = amount, ctx_ip = None\<rparr> w) (\<lambda>_ w.
                case getChannelByType (production w) ''RECHARGE'' (wdb w) of
                  None \<Rightarrow> (Inl (BadRequest NO_RECHARGE_CHANNEL), w)
                | Some code \<Rightarrow>
                    andThen (transaction (create_or_existing (recharge_order e userId code amount key)) w) (\<lambda>r w.
                      case r of
                        Inl existing \<Rightarrow> (Inr (Inl existing), w)
                      | Inr order \<Rightarrow> recharge_charge charge notifyUrl e code order w)))))"

subsection \<open>Callback\<close>

record RechargeCallbackResult =
  rc_orderNo :: string
  rc_channelOrderNo :: string
  rc_amount :: jsnum
  rc_success :: bool

definition recharge_entries :: "string \<Rightarrow> string \<Rightarrow> int \<Rightarrow> JournalEntryInput list" where
  "recharge_entries j u n =
     [\<lparr>in_journalId = j, in_accountCode = ''CHANNEL_FUND'', in_debit = Some n, in_credit = None\<rparr>,
      \<lparr>in_journalId = j, in_accountCode = user_code u, in_debit = None, in_credit = Some n\<rparr>]"

definition settle_order :: "env \<Rightarrow> TransactionStatus \<Rightarrow> string option \<Rightarrow> TransactionOrder \<Rightarrow> TransactionOrder" where
  "settle_order e st no r = r\<lparr>tx_channelOrderNo := (case no of None \<Rightarrow> tx_channelOrderNo r | Some x \<Rightarrow> Some x),
     tx_status := st, tx_completedAt := Some (now e)\<rparr>"

definition recharge_success ::
  "env \<Rightarrow> TransactionOrder \<Rightarrow> string option \<Rightarrow> string \<Rightarrow> db \<Rightarrow> exn + ((string \<times> int) option \<times> db)" where
  "recharge_success e order no userId d =
     or_throw (account_of userId (accounts d)) (NotFound ACCOUNT_NOT_FOUND) (\<lambda>account.
       credit_account (acc_id account) (tx_amount order) d (\<lambda>updated d1.
         bindE (update_order (tx_id order) (settle_order e TransactionStatus.SUCCESS no) d1) (\<lambda>(_, d2).
           let d3 = add_ledger \<lparr>led_account = acc_id account, led_transaction = tx_id order,
                      led_type = LedgerType.RECHARGE, led_amount = tx_amount order,
                      led_before = availableBalance updated - tx_amount order,
                      led_after = availableBalance updated, led_direction = DEBIT\<rparr> d2;
               d4 = add_bill \<lparr>bill_user = userId, bill_transaction = tx_id order,
                      bill_type = BillType.RECHARGE, bill_direction = INCOME,
                      bill_amount = tx_amount order, bill_counterparty = None\<rparr> d3
           in bindE (createEntries (recharge_entries (generateOrderNo e 0 ''J'') userId (tx_amount order)) d4)
                (\<lambda>d5. Inr (Some (userId, tx_amount order), d5)))))"

text \<open>The result says whether the account was credited, for the risk windows.\<close>

definition recharge_callback_body ::
  "env \<Rightarrow> string \<Rightarrow> RechargeCallbackResult \<Rightarrow> db \<Rightarrow> exn + ((string \<times> int) option \<times> db)" where
  "recharge_callback_body e channelCode result d =
     or_throw (findUnique (\<lambda>r. tx_orderNo r = rc_orderNo result) (transactionOrders d)) (NotFound ORDER_NOT_FOUND) (\<lambda>order.
       if tx_status order \<in> {TransactionStatus.SUCCESS, TransactionStatus.FAILED} then Inr (None, d)
       else throw_if (tx_channel order \<noteq> Some channelCode) (BadRequest CALLBACK_CHANNEL_MISMATCH)
        (let missing = \<not> truthy (tx_channelOrderNo order);
             no = (if missing then Some (rc_channelOrderNo result) else None)
         in throw_if (\<not> missing \<and> tx_channelOrderNo order \<noteq> Some (rc_channelOrderNo result))
              (BadRequest CALLBACK_CHANNEL_ORDER_NO_MISMATCH)
           (if \<not> rc_success result then
              bindE (update_order (tx_id order) (settle_order e TransactionStatus.FAILED no) d)
                (\<lambda>(_, d'). Inr (None, d'))
            else case tx_to order of
                None \<Rightarrow> Inl PrismaValidation
              | Some userId \<Rightarrow> recharge_success e order no userId d)))"

definition handleRechargeCallback ::
  "(string \<Rightarrow> 'b \<Rightarrow> exn + RechargeCallbackResult) \<Rightarrow> env \<Rightarrow> string \<Rightarrow> 'b \<Rightarrow> world \<Rightarrow> (exn + unit) \<times> world" where
  "handleRechargeCallback parse e channelCode body w =
     andThen (getChannel (production w) channelCode, w) (\<lambda>_ w.
       andThen (getEnabledConfig channelCode (wdb w), w) (\<lambda>_ w.
         andThen (parse channelCode body, w) (\<lambda>result w.
           andThen (withLock (''recharge:callback:'' @ rc_orderNo result)
                      (transaction (recharge_callback_body e channelCode result)) w) (\<lambda>credited w.
             case credited of
               None \<Rightarrow> (Inr (), w)
             | Some (userId, amount) \<Rightarrow>
                 record_quietly (now e) (uuid e 0) \<lparr>ctx_user = userId, ctx_type = TransactionType.RECHARGE,
                   ctx_amount = amount, ctx_ip = None\<rparr> () w))))"

subsection \<open>The money invariant\<close>

lemma update_order_Inr:
  assumes "update_order i f d = Inr (r, d')"
  shows "d' = d\<lparr>transactionOrders := updateRows (\<lambda>r. tx_id r = i) f (transactionOrders d)\<rparr>"
    and "orders_ok (transactionOrders d) \<Longrightarrow> (\<And>r. tx_amount (f r) = tx_amount r) \<Longrightarrow> orders_ok (transactionOrders d')"
  using assms by (auto simp: update_order_def orders_ok_def list_all_iff set_updateRows)

text \<open>A change of the transaction orders alone.\<close>

lemma orders_money_ok:
  assumes "money_ok d" and "orders_ok t"
  shows "money_ok (d\<lparr>transactionOrders := t\<rparr>)"
  using assms(2) money_okD [OF assms(1)]
  by (intro money_ok_step [OF assms(1)])
    (simp_all add: books_ok_def held_def platform_total_def journal_balance_def)

lemma update_order_money_ok:
  assumes "update_order i f d = Inr (r, d')" and "money_ok d" and "\<And>r. tx_amount (f r) = tx_amount r"
  shows "money_ok d'"
  using update_order_Inr [OF assms(1)] money_okD(8) [OF assms(2)] assms(2,3)
  by (auto intro: orders_money_ok)

lemma create_or_existing_money_ok:
  assumes "create_or_existing order d = Inr (r, d')" and "money_ok d" and "0 \<le> tx_amount order"
  shows "money_ok d'"
  using assms money_okD(8) [OF assms(2)]
  by (auto simp: create_or_existing_def createOrder_Inr orders_ok_def split: if_splits sum.splits option.splits
      intro!: orders_money_ok)

lemma recharge_success_money_ok:
  assumes run: "recharge_success e order no userId d = Inr (x, d')" and inv: "money_ok d"
    and n: "0 \<le> tx_amount order"
  shows "money_ok d'" and "available_of userId (accounts d') = available_of userId (accounts d) + tx_amount order"
    and "platform_total d' = platform_total d + tx_amount order"
    and "total_assets (accounts d') = total_assets (accounts d) + tx_amount order"
    and "transactionOrders d' = updateRows (\<lambda>r. tx_id r = tx_id order)
      (settle_order e TransactionStatus.SUCCESS no) (transactionOrders d)"
proof -
  note ok = money_okD [OF inv]
  let ?n = "tx_amount order"
  let ?es = "recharge_entries (generateOrderNo e 0 ''J'') userId ?n"
  obtain a where a: "account_of userId (accounts d) = Some a"
    and rest: "credit_account (acc_id a) ?n d (\<lambda>updated d1.
         bindE (update_order (tx_id order) (settle_order e TransactionStatus.SUCCESS no) d1) (\<lambda>(_, d2).
           let d3 = add_ledger \<lparr>led_account = acc_id a, led_transaction = tx_id order,
                      led_type = LedgerType.RECHARGE, led_amount = ?n,
                      led_before = availableBalance updated - ?n,
                      led_after = availableBalance updated, led_direction = DEBIT\<rparr> d2;
               d4 = add_bill \<lparr>bill_user = userId, bill_transaction = tx_id order,
                      bill_type = BillType.RECHARGE, bill_direction = INCOME,
                      bill_amount = ?n, bill_counterparty = None\<rparr> d3
           in bindE (createEntries ?es d4) (\<lambda>d5. Inr (Some (userId, ?n), d5)))) = Inr (x, d')"
    using run by (auto simp: recharge_success_def)
  have au: "acc_user a = userId" using account_of_SomeD [OF a] by simp
  note ai = account_of_by_id [OF ok(1) a]
  note cr = credit_account_Inr [OF ok(1) ai n rest]
  let ?l = "\<lparr>led_account = acc_id a, led_transaction = tx_id order, led_type = LedgerType.RECHARGE,
      led_amount = ?n, led_before = availableBalance (move ?n 0 a) - ?n,
      led_after = availableBalance (move ?n 0 a), led_direction = DEBIT\<rparr>"
  let ?b = "\<lparr>bill_user = userId, bill_transaction = tx_id order, bill_type = BillType.RECHARGE,
      bill_direction = INCOME, bill_amount = ?n, bill_counterparty = None\<rparr>"
  obtain r d2 where up: "update_order (tx_id order) (settle_order e TransactionStatus.SUCCESS no)
      (moved (acc_id a) ?n 0 d) = Inr (r, d2)"
    and ce: "createEntries ?es (add_bill ?b (add_ledger ?l d2)) = Inr d'"
    using cr(1) by (auto simp: Let_def)
  define d4 where "d4 = add_bill ?b (add_ledger ?l d2)"
  have d4: "accounts d4 = accounts d2" "escrowOrders d4 = escrowOrders d2" "redPackets d4 = redPackets d2"
      "withdrawalOrders d4 = withdrawalOrders d2" "platformAccounts d4 = platformAccounts d2"
      "journalEntries d4 = journalEntries d2" "transactionOrders d4 = transactionOrders d2"
      "ledgers_ok d4 = ledgers_ok d2"
    by (simp_all add: d4_def ledger_ok_def)
  note ce = ce [folded d4_def]
  note upd = update_order_Inr [OF up]
  have amt: "tx_amount (settle_order e TransactionStatus.SUCCESS no r) = tx_amount r" for r
    by (simp add: settle_order_def)
  have codes: "distinct (map pa_code (platformAccounts d4))" using ok(5) by (simp add: d4 upd(1))
  note je = createEntries_Inr [OF ce codes]
  obtain js ps where d': "d' = d4\<lparr>journalEntries := js, platformAccounts := ps\<rparr>" using je(5) by blast
  have tables: "accounts d' = move_funds (acc_id a) ?n 0 (accounts d)" "escrowOrders d' = escrowOrders d"
    "redPackets d' = redPackets d" "withdrawalOrders d' = withdrawalOrders d"
    "transactionOrders d' = transactionOrders d2" "accountLedgers d' = accountLedgers d4"
    using d4 by (simp_all add: d' upd(1))
  have "platform_net ?es = ?n"
    by (simp add: platform_net_def recharge_entries_def entry_delta_def or0_def is_user_code_def user_code_def)
  then have pt: "platform_total d' = platform_total d + ?n"
    using je(1) d4 by (simp add: platform_total_def upd(1))
  have mv: "total_assets (accounts d') = total_assets (accounts d) + ?n"
    "frozen_of u (accounts d') = frozen_of u (accounts d)"
    "available_of u (accounts d') = available_of u (accounts d) + (if userId = u then ?n else 0)" for u
    using move_funds_by_id [OF ok(1) ai] by (simp_all add: tables au)
  show "available_of userId (accounts d') = available_of userId (accounts d) + ?n" by (simp add: mv(3))
  show "platform_total d' = platform_total d + ?n" by (rule pt)
  show "total_assets (accounts d') = total_assets (accounts d) + ?n" by (rule mv(1))
  show "transactionOrders d' = updateRows (\<lambda>r. tx_id r = tx_id order)
      (settle_order e TransactionStatus.SUCCESS no) (transactionOrders d)" by (simp add: tables upd(1))
  show "money_ok d'"
  proof (rule money_ok_step [OF inv])
    have "orders_ok (transactionOrders d2)" using upd(2) ok(8) amt by simp
    moreover have "ledgers_ok d'" using d4(8) ok(7) by (simp add: upd(1) tables(6) ledgers_ok_def)
    moreover have "journal_balance d' = 0" using je(3) ok(6) d4(6) by (simp add: journal_balance_def upd(1))
    ultimately show "books_ok d'" using ok cr(2) je(4) d4(5)
      by (simp add: books_ok_def tables upd(1))
    show "map acc_user (accounts d') = map acc_user (accounts d)" by (simp add: tables)
    show "frozen_of u (accounts d') - frozen_of u (accounts d) = Holdings.held u d' - Holdings.held u d" for u
      by (simp add: mv(2)) (simp add: tables held_def)
    show "platform_total d' - platform_total d = total_assets (accounts d') +
        in_transit (withdrawalOrders d') - (total_assets (accounts d) + in_transit (withdrawalOrders d))"
      by (simp add: mv(1) pt) (simp add: tables)
  qed
qed

lemma recharge_callback_body_money_ok:
  assumes run: "recharge_callback_body e code res d = Inr (x, d')" and inv: "money_ok d"
  shows "money_ok d'"
proof -
  obtain r where r: "findUnique (\<lambda>r. tx_orderNo r = rc_orderNo res) (transactionOrders d) = Some r"
    using run by (auto simp: recharge_callback_body_def)
  have "0 \<le> tx_amount r" using findUnique_in [OF r] money_okD(8) [OF inv]
    by (simp add: orders_ok_def list_all_iff)
  then show ?thesis using run inv recharge_success_money_ok(1)
    by (auto simp: recharge_callback_body_def r Let_def settle_order_def split: if_splits option.splits
        intro: update_order_money_ok)
qed

lemma keeps_recharge:
  assumes inv: "money_ok (wdb w)"
  shows "keeps money_ok (recharge pw_ok charge notifyUrl e userId amountYuan pw key w)"
proof -
  have charge: "keeps money_ok (recharge_charge charge notifyUrl e code order w)" if "money_ok (wdb w)" for code order w
    unfolding recharge_charge_def
    by (intro keep; (simp add: that)?) (auto intro: update_order_money_ok [OF _ that])
  have branch: "keeps money_ok (case r of Inl existing \<Rightarrow> (Inr (Inl existing), w)
      | Inr order \<Rightarrow> recharge_charge charge notifyUrl e code order w)" if "money_ok (wdb w)" for r code w
    using that charge by (cases r) (auto intro: keep)
  show ?thesis unfolding recharge_def
    apply (intro keep branch)
    apply (simp_all add: inv)
    apply (rule create_or_existing_money_ok, assumption+)
    apply (auto simp: recharge_order_def fen_Inr intro: yuanToFen_nonneg)
    done
qed

lemma keeps_recharge_callback:
  assumes inv: "money_ok (wdb w)"
  shows "keeps money_ok (handleRechargeCallback parse e code body w)"
  unfolding handleRechargeCallback_def
  by (intro keep; (simp add: inv)?)
    (auto intro: recharge_callback_body_money_ok [OF _ inv] keep split: option.split)

subsection \<open>What the user and the platform can rely on\<close>

text \<open>
  C10. A paid recharge is credited exactly once: the channel's report of success adds the amount of the order to
  the user's available balance and to the platform accounts, and every later report on the same order,
  whatever it says and wherever it comes from, changes nothing. The amount is the order's; the amount in the
  report plays no part.
\<close>

theorem recharge_credited_once:
  assumes "recharge_callback_body e code res d = Inr (x, d')" and "money_ok d"
    and "findUnique (\<lambda>r. tx_orderNo r = rc_orderNo res) (transactionOrders d) = Some r"
    and "tx_status r \<notin> {TransactionStatus.SUCCESS, TransactionStatus.FAILED}" and "rc_success res"
    and "tx_to r = Some u" and "rc_orderNo res' = rc_orderNo res"
  shows "available_of u (accounts d') = available_of u (accounts d) + tx_amount r \<and>
    platform_total d' = platform_total d + tx_amount r \<and>
    recharge_callback_body e' code' res' d' = Inr (None, d')"
proof -
  obtain no where run: "recharge_success e r no u d = Inr (x, d')"
    using assms(1,3-6) by (auto simp: recharge_callback_body_def Let_def split: if_splits)
  have n: "0 \<le> tx_amount r" using findUnique_in [OF assms(3)] money_okD(8) [OF assms(2)]
    by (simp add: orders_ok_def list_all_iff)
  note eff = recharge_success_money_ok [OF run assms(2) n]
  have "findUnique (\<lambda>r. tx_orderNo r = rc_orderNo res) (transactionOrders d') =
    Some (settle_order e TransactionStatus.SUCCESS no r)"
    unfolding eff(5) using assms(3) by (subst findUnique_updateRows) (auto simp: settle_order_def)
  then have "recharge_callback_body e' code' res' d' = Inr (None, d')"
    by (simp add: recharge_callback_body_def assms(7) settle_order_def)
  with eff(2,3) show ?thesis by simp
qed

definition sample_payment :: RechargeCallbackResult where
  "sample_payment = \<lparr>rc_orderNo = ''R1'', rc_channelOrderNo = ''C1'', rc_amount = Num (1 / 100), rc_success = True\<rparr>"

lemma sample_payment_runs: "isl (recharge_callback_body sample_env ''wechat'' sample_payment sample_db) = False"
  by code_simp

theorem recharge_credited_once_witness:
  "\<exists>x d'. recharge_callback_body sample_env ''wechat'' sample_payment sample_db = Inr (x, d') \<and>
     available_of ''bob'' (accounts d') = available_of ''bob'' (accounts sample_db) + 700"
proof -
  obtain x d' where run: "recharge_callback_body sample_env ''wechat'' sample_payment sample_db = Inr (x, d')"
    using not_isl_pair [OF sample_payment_runs] by auto
  have "findUnique (\<lambda>r. tx_orderNo r = rc_orderNo sample_payment) (transactionOrders sample_db) = Some sample_recharge"
    by (simp add: sample_payment_def sample_defs)
  from recharge_credited_once [OF run sample_money_ok this, of "''bob''" sample_payment] run
  show ?thesis by (simp add: sample_payment_def sample_recharge_def)
qed

text \<open>
  A request to recharge moves no money: however it ends, all balances of users and of the platform are what
  they were; only the channel's callback credits.
\<close>

theorem recharge_request_moves_no_money:
  "accounts (wdb (snd (recharge pw_ok charge notifyUrl e u a pw key w))) = accounts (wdb w) \<and>
   platformAccounts (wdb (snd (recharge pw_ok charge notifyUrl e u a pw key w))) = platformAccounts (wdb w)"
proof -
  let ?P = "\<lambda>d. accounts d = accounts (wdb w) \<and> platformAccounts d = platformAccounts (wdb w)"
  have ev: "ignores_events ?P" by (simp add: ignores_events_def)
  have upd: "?P d'" if "update_order i f d = Inr (r, d')" "?P d" for i f d r d'
    using update_order_Inr(1) [OF that(1)] that(2) by simp
  have charge: "keeps ?P (recharge_charge charge notifyUrl e code order w)" if "?P (wdb w)" for code order w
    unfolding recharge_charge_def by (intro keep; (simp add: that)?) (use upd that in blast)+
  have branch: "keeps ?P (case r of Inl existing \<Rightarrow> (Inr (Inl existing), w)
      | Inr order \<Rightarrow> recharge_charge charge notifyUrl e code order w)" if "?P (wdb w)" for r code w
    using that charge by (cases r) (auto intro: keep)
  have "keeps ?P (recharge pw_ok charge notifyUrl e u a pw key w)"
    unfolding recharge_def
    by (intro keep branch ev)
      (auto simp: create_or_existing_def createOrder_Inr split: if_splits sum.splits option.splits)
  then show ?thesis by (simp add: keeps_def)
qed

text \<open>
  The idempotency key of a recharge is not bound to its owner: whoever sends a key that any order carries gets
  that order, somebody else's too, with its amount and parties, and nothing happens.
\<close>

theorem recharge_key_of_another_user:
  assumes "\<not> amount_le0 a" and "verifyPayPassword pw_ok (now e) u pw w = (Inr (), w')"
    and "yuanToFen a = Inr n" and "truthy key" and "find_tx_idem (the key) (wdb w) = Some existing"
  shows "recharge pw_ok charge notifyUrl e u a pw key w = (Inr (Inl existing), w') \<and> wdb w' = wdb w"
  using assms verifyPayPassword_Inr [OF assms(2)] by (simp add: recharge_def fen_def)

theorem recharge_key_of_another_user_witness:
  "tx_to sample_recharge = Some ''bob'' \<and>
   fst (recharge (\<lambda>_ _. True) (\<lambda>_ _. None) True sample_env ''alice'' (Num 1) ''pw'' (Some ''key'') sample_world) =
     Inr (Inl sample_recharge)"
proof -
  have "verifyPayPassword (\<lambda>_ _. True) (now sample_env) ''alice'' ''pw'' sample_world =
    (Inr (), clearAttempts ''alice'' sample_world)"
    by (simp add: verifyPayPassword_def getAttempts_def no_attempts_def find_user_def sample_defs)
  moreover have "yuanToFen (Num 1) = Inr 100" by code_simp
  moreover have "find_tx_idem (the (Some ''key'')) (wdb sample_world) = Some sample_recharge"
    by (simp add: find_tx_idem_def sample_defs)
  ultimately show ?thesis using recharge_key_of_another_user
    by (simp add: truthy_def sample_recharge_def)
qed

end
