(* ===== verification/UrlSafety.thy ===== *)
theory UrlSafety
  imports Schema "HOL-Library.Word"
begin

text \<open>
  The guard against callback addresses inside the platform's network (common/helpers.ts,
  \<open>isCallbackUrlSafe\<close> and the functions below it), with what it uses of JavaScript and of Node's \<open>net\<close>
  module: \<open>split\<close>, \<open>parseInt\<close>, \<open>isIPv4\<close>, \<open>isIPv6\<close>. The URL parser and the name lookup are parameters.

  The IPv4 test is shown to be membership in six networks, given as prefixes of 32-bit words; a URL
  that passes resolves only to addresses outside of them.
\<close>

subsection \<open>Text\<close>

fun split_on :: "char \<Rightarrow> string \<Rightarrow> string list" where
  "split_on c [] = [[]]"
| "split_on c (x # xs) =
     (if x = c then [] # split_on c xs
      else case split_on c xs of [] \<Rightarrow> [[x]] | w # ws \<Rightarrow> (x # w) # ws)"

definition starts_with :: "string \<Rightarrow> string \<Rightarrow> bool" where
  "starts_with s p = (take (length p) s = p)"

definition is_space :: "char \<Rightarrow> bool" where
  "is_space c = (of_char c \<in> {9, 10, 11, 12, 13, 32, 160 :: nat})"

text \<open>The value of a digit in bases up to 36; 36 for any other character.\<close>

definition digit_of :: "char \<Rightarrow> nat" where
  "digit_of c = (let n = of_char c in
     if 48 \<le> n \<and> n \<le> 57 then n - 48 else if 97 \<le> n \<and> n \<le> 122 then n - 87
     else if 65 \<le> n \<and> n \<le> 90 then n - 55 else 36)"

definition to_lower :: "char \<Rightarrow> char" where
  "to_lower c = (if 65 \<le> (of_char c :: nat) \<and> (of_char c :: nat) \<le> 90 then char_of (of_char c + 32 :: nat) else c)"

text \<open>\<open>parseInt(s, radix)\<close>: blanks and a sign are skipped, then the longest run of digits is read; \<open>None\<close> is \<open>NaN\<close>.\<close>

definition parseInt :: "nat \<Rightarrow> string \<Rightarrow> int option" where
  "parseInt radix s =
     (let t = dropWhile is_space s;
          negative = (t \<noteq> [] \<and> hd t = CHR ''-'');
          u = (if t \<noteq> [] \<and> (hd t = CHR ''-'' \<or> hd t = CHR ''+'') then tl t else t);
          v = (if radix = 16 \<and> (starts_with u ''0x'' \<or> starts_with u ''0X'') then drop 2 u else u);
          ds = takeWhile (\<lambda>c. digit_of c < radix) v;
          n = int (foldl (\<lambda>acc c. acc * radix + digit_of c) 0 ds)
      in if ds = [] then None else Some (if negative then - n else n))"

subsection \<open>Node's address syntax\<close>

definition v4_segment :: "string \<Rightarrow> bool" where
  "v4_segment s = (s \<noteq> [] \<and> length s \<le> 3 \<and> list_all is_digit s \<and> (length s = 1 \<or> hd s \<noteq> CHR ''0'') \<and>
     parse_digits s \<le> 255)"

definition isIPv4 :: "string \<Rightarrow> bool" where
  "isIPv4 s = (let p = split_on CHR ''.'' s in length p = 4 \<and> list_all v4_segment p)"

definition v6_segment :: "string \<Rightarrow> bool" where
  "v6_segment s = (s \<noteq> [] \<and> length s \<le> 4 \<and> list_all (\<lambda>c. digit_of c < 16) s)"

text \<open>The number of 16-bit groups a list of segments stands for; the last may be an IPv4 address.\<close>

fun v6_groups :: "bool \<Rightarrow> string list \<Rightarrow> nat option" where
  "v6_groups v4 [] = Some 0"
| "v6_groups v4 [s] = (if v6_segment s then Some 1 else if v4 \<and> isIPv4 s then Some 2 else None)"
| "v6_groups v4 (s # t # ss) = (if v6_segment s then map_option Suc (v6_groups v4 (t # ss)) else None)"

fun cut_double_colon :: "string \<Rightarrow> (string \<times> string) option" where
  "cut_double_colon (c # d # s) =
     (if c = CHR '':'' \<and> d = CHR '':'' then Some ([], s)
      else map_option (\<lambda>(l, r). (c # l, r)) (cut_double_colon (d # s)))"
| "cut_double_colon s = None"

definition segments :: "string \<Rightarrow> string list" where
  "segments s = (if s = [] then [] else split_on CHR '':'' s)"

definition zone_char :: "char \<Rightarrow> bool" where
  "zone_char c = (digit_of c < 36 \<or> c \<in> {CHR ''-'', CHR ''.'', CHR '':''})"

definition isIPv6 :: "string \<Rightarrow> bool" where
  "isIPv6 s =
     (let a = takeWhile (\<lambda>c. c \<noteq> CHR ''%'') s; z = dropWhile (\<lambda>c. c \<noteq> CHR ''%'') s
      in (z = [] \<or> (tl z \<noteq> [] \<and> list_all zone_char (tl z))) \<and>
         (case cut_double_colon a of
            None \<Rightarrow> v6_groups True (split_on CHR '':'' a) = Some 8
          | Some (l, r) \<Rightarrow>
              (case (v6_groups False (segments l), v6_groups True (segments r)) of
                 (Some m, Some n) \<Rightarrow> m + n \<le> 7 | _ \<Rightarrow> False)))"

subsection \<open>Internal addresses\<close>

definition isInternalIPv4 :: "string \<Rightarrow> bool" where
  "isInternalIPv4 ip =
     (case map (parseInt 10) (split_on CHR ''.'' ip) of
        [Some a, Some b, Some c, Some d] \<Rightarrow>
          if list_ex (\<lambda>p. p < 0 \<or> 255 < p) [a, b, c, d] then True
          else if a = 0 then True
          else if a = 10 then True
          else if a = 127 then True
          else if a = 169 \<and> b = 254 then True
          else if a = 172 \<and> 16 \<le> b \<and> b \<le> 31 then True
          else if a = 192 \<and> b = 168 then True
          else False
      | _ \<Rightarrow> True)"

text \<open>The first group of an IPv6 text, \<open>None\<close> where the code returns \<open>null\<close>.\<close>

definition firstHextet :: "string \<Rightarrow> int option" where
  "firstHextet ip =
     (if starts_with ip ''::'' then Some 0
      else let head = hd (split_on CHR '':'' ip)
           in if head = [] \<or> CHR ''.'' \<in> set head then None else parseInt 16 head)"

text \<open>\<open>${(hi >> 8) & 0xff}.${hi & 0xff}.${(lo >> 8) & 0xff}.${lo & 0xff}\<close>\<close>

definition dotted :: "nat \<Rightarrow> nat \<Rightarrow> nat \<Rightarrow> nat \<Rightarrow> string" where
  "dotted a b c d = show_nat a @ ''.'' @ show_nat b @ ''.'' @ show_nat c @ ''.'' @ show_nat d"

definition byte :: "int \<Rightarrow> int \<Rightarrow> nat" where "byte i x = nat (x div 2 ^ nat i mod 256)"

definition mapped_internal :: "string \<Rightarrow> bool" where
  "mapped_internal rest =
     (if CHR ''.'' \<in> set rest then isInternalIPv4 rest
      else case split_on CHR '':'' rest of
        [h, l] \<Rightarrow>
          (case (parseInt 16 h, parseInt 16 l) of
             (Some hi, Some lo) \<Rightarrow> isInternalIPv4 (dotted (byte 8 hi) (byte 0 hi) (byte 8 lo) (byte 0 lo))
           | _ \<Rightarrow> False)
      | _ \<Rightarrow> False)"

definition isInternalIPv6 :: "string \<Rightarrow> bool" where
  "isInternalIPv6 ip =
     (let lower = map to_lower ip
      in if lower = ''::1'' \<or> lower = ''0:0:0:0:0:0:0:1'' then True
         else if starts_with lower ''::ffff:'' \<and> mapped_internal (drop 7 lower) then True
         else case firstHextet lower of
           None \<Rightarrow> False
         | Some first \<Rightarrow>
             if 64512 \<le> first \<and> first \<le> 65023 then True
             else if 65152 \<le> first \<and> first \<le> 65215 then True
             else False)"

definition isInternalIp :: "string \<Rightarrow> bool" where
  "isInternalIp ip = (if isIPv4 ip then isInternalIPv4 ip else if isIPv6 ip then isInternalIPv6 ip else True)"

text \<open>
  The verdict on a URL. \<open>parseUrl\<close> is \<open>new URL\<close>, giving protocol and host name; \<open>lookup\<close> is
  \<open>dns.lookup\<close> with all addresses; both fail with \<open>None\<close>.
\<close>

datatype UrlVerdict = Safe | Unsafe KBErrorCodes

definition literal_ip :: "string \<Rightarrow> bool" where
  "literal_ip h = ((h \<noteq> [] \<and> list_all is_digit h) \<or> starts_with h ''0x'' \<or>
     (h \<noteq> [] \<and> hd h = CHR ''0'' \<and>
       (let ds = takeWhile is_digit (tl h); r = dropWhile is_digit (tl h)
        in ds \<noteq> [] \<and> r \<noteq> [] \<and> hd r = CHR ''.'')))"

definition isCallbackUrlSafe ::
  "(string \<Rightarrow> (string \<times> string) option) \<Rightarrow> (string \<Rightarrow> string list option) \<Rightarrow> string \<Rightarrow> UrlVerdict" where
  "isCallbackUrlSafe parseUrl lookup url =
     (case parseUrl url of
        None \<Rightarrow> Unsafe CALLBACK_URL_FORMAT_INVALID
      | Some (protocol, hostname) \<Rightarrow>
          if protocol \<noteq> ''http:'' \<and> protocol \<noteq> ''https:'' then Unsafe CALLBACK_URL_PROTOCOL_INVALID
          else if hostname = ''localhost'' \<or> hostname = ''0.0.0.0'' \<or> hostname = ''::1'' then Unsafe CALLBACK_URL_INTERNAL
          else if literal_ip hostname then Unsafe CALLBACK_URL_INTERNAL
          else case lookup hostname of
            None \<Rightarrow> Unsafe CALLBACK_URL_FORMAT_INVALID
          | Some addresses \<Rightarrow>
              if addresses = [] then Unsafe CALLBACK_URL_FORMAT_INVALID
              else if list_ex isInternalIp addresses then Unsafe CALLBACK_URL_INTERNAL
              else Safe)"

subsection \<open>The IPv4 test is membership in six networks\<close>

lemma split_on_single: "c \<notin> set a \<Longrightarrow> split_on c a = [a]"
  by (induction a) auto

lemma split_on_Cons: "c \<notin> set a \<Longrightarrow> split_on c (a @ c # s) = a # split_on c s"
  by (induction a) auto

lemma show_nat_no_dot: "CHR ''.'' \<notin> set (show_nat n)"
  using show_nat_digits [of "CHR ''.''" n] by (auto simp: is_digit_def)

lemma split_dotted: "split_on CHR ''.'' (dotted a b c d) = [show_nat a, show_nat b, show_nat c, show_nat d]"
  by (simp add: dotted_def split_on_Cons split_on_single show_nat_no_dot)

lemma digit_of_digit: "is_digit c \<Longrightarrow> digit_of c = digit_val c \<and> digit_of c < 10"
  by (auto simp: is_digit_def digit_of_def digit_val_def Let_def)

lemma parseInt_digits:
  assumes "s \<noteq> []" and "list_all is_digit s"
  shows "parseInt 10 s = Some (int (parse_digits s))"
proof -
  have h: "is_digit (hd s)" using assms by (cases s) auto
  then have "dropWhile is_space s = s" and "hd s \<noteq> CHR ''-''" and "hd s \<noteq> CHR ''+''"
    using assms(1) by (cases s; auto simp: is_digit_def is_space_def)+
  moreover have "takeWhile (\<lambda>c. digit_of c < 10) s = s"
    using assms(2) unfolding takeWhile_eq_all_conv list_all_iff by (blast dest: digit_of_digit [THEN conjunct2])
  moreover have "foldl (\<lambda>acc c. acc * 10 + digit_of c) k s = foldl (\<lambda>acc c. acc * 10 + digit_val c) k s" for k
    using assms(2) by (intro foldl_cong) (auto simp: list_all_iff digit_of_digit)
  ultimately show ?thesis using assms(1)
    by (simp add: parseInt_def parse_digits_def Let_def del: takeWhile_eq_all_conv)
qed

lemma parseInt_show_nat: "parseInt 10 (show_nat n) = Some (int n)"
  using show_nat_digits by (simp add: parseInt_digits list_all_iff)

definition ip4 :: "nat \<Rightarrow> nat \<Rightarrow> nat \<Rightarrow> nat \<Rightarrow> 32 word" where
  "ip4 a b c d = word_of_nat (a * 2 ^ 24 + b * 2 ^ 16 + c * 2 ^ 8 + d)"

definition in_net :: "32 word \<Rightarrow> 32 word \<times> nat \<Rightarrow> bool" where
  "in_net w n = (drop_bit (32 - snd n) w = drop_bit (32 - snd n) (fst n))"

definition internal_nets :: "(32 word \<times> nat) list" where
  "internal_nets = [(ip4 0 0 0 0, 8), (ip4 10 0 0 0, 8), (ip4 127 0 0 0, 8), (ip4 169 254 0 0, 16),
     (ip4 172 16 0 0, 12), (ip4 192 168 0 0, 16)]"

lemma unat_ip4:
  assumes "a < 256" "b < 256" "c < 256" "d < 256"
  shows "unat (ip4 a b c d) = (a * 256 + b) * 65536 + (c * 256 + d)"
proof -
  have "a * 2 ^ 24 + b * 2 ^ 16 + c * 2 ^ 8 + d < 2 ^ LENGTH(32)" using assms by simp
  then have "unat (ip4 a b c d) = a * 2 ^ 24 + b * 2 ^ 16 + c * 2 ^ 8 + d"
    unfolding ip4_def unat_of_nat by (rule mod_less)
  then show ?thesis by simp
qed

lemma ip4_prefix:
  assumes "a < 256" "b < 256" "c < 256" "d < 256"
  shows "unat (drop_bit 16 (ip4 a b c d)) = a * 256 + b"
    and "unat (drop_bit 24 (ip4 a b c d)) = a" and "unat (drop_bit 20 (ip4 a b c d)) = a * 16 + b div 16"
proof -
  have u: "unat (drop_bit k (ip4 a b c d)) = ((a * 256 + b) * 65536 + (c * 256 + d)) div 2 ^ k" for k
    unfolding unat_drop_bit_eq unat_ip4 [OF assms] by (rule drop_bit_eq_div)
  have r: "c * 256 + d < 65536" using assms by simp
  have h: "((a * 256 + b) * 65536 + (c * 256 + d)) div 65536 = a * 256 + b"
    using r by simp
  show "unat (drop_bit 16 (ip4 a b c d)) = a * 256 + b" using h by (simp add: u)
  have "((a * 256 + b) * 65536 + (c * 256 + d)) div (65536 * 2 ^ k) = (a * 256 + b) div 2 ^ k" for k
    by (simp only: div_mult2_eq h)
  from this [of 8] this [of 4] show "unat (drop_bit 24 (ip4 a b c d)) = a"
    "unat (drop_bit 20 (ip4 a b c d)) = a * 16 + b div 16"
    using assms by (simp_all add: u)
qed

lemma digits_inj:
  fixes a a' b b' k :: nat
  assumes "b < k" and "b' < k"
  shows "a * k + b = a' * k + b' \<longleftrightarrow> a = a' \<and> b = b'"
proof
  assume eq: "a * k + b = a' * k + b'"
  then have "(a * k + b) div k = (a' * k + b') div k" by simp
  with assms have "a = a'" by simp
  with eq show "a = a' \<and> b = b'" by simp
qed simp

lemma in_net_8:
  assumes "a < 256" "b < 256" "c < 256" "d < 256" and "a' < 256"
  shows "in_net (ip4 a b c d) (ip4 a' 0 0 0, 8) \<longleftrightarrow> a = a'"
  using assms by (simp add: in_net_def word_unat_eq_iff ip4_prefix)

lemma in_net_16_12:
  assumes "a < 256" "b < 256" "c < 256" "d < 256" and "a' < 256" "b' < 256"
  shows "in_net (ip4 a b c d) (ip4 a' b' 0 0, 16) \<longleftrightarrow> a = a' \<and> b = b'"
    and "in_net (ip4 a b c d) (ip4 a' b' 0 0, 12) \<longleftrightarrow> a = a' \<and> b div 16 = b' div 16"
proof -
  have "b div 16 < 16" "b' div 16 < 16" using assms by auto
  with assms show "in_net (ip4 a b c d) (ip4 a' b' 0 0, 16) \<longleftrightarrow> a = a' \<and> b = b'"
    "in_net (ip4 a b c d) (ip4 a' b' 0 0, 12) \<longleftrightarrow> a = a' \<and> b div 16 = b' div 16"
    by (simp_all add: in_net_def word_unat_eq_iff ip4_prefix digits_inj)
qed

lemmas in_net_iff = in_net_8 in_net_16_12

lemma v4_segment_show_nat:
  assumes "n < 256"
  shows "v4_segment (show_nat n)"
proof -
  have "length (show_nat n) \<le> 3 \<and> (length (show_nat n) = 1 \<or> hd (show_nat n) \<noteq> CHR ''0'')"
  proof (cases "n < 10")
    case True
    then show ?thesis by (simp add: show_nat.simps)
  next
    case False
    have d: "digit m \<noteq> CHR ''0''" if "m < 10" "m \<noteq> 0" for m
    proof
      assume "digit m = CHR ''0''"
      then have "digit_val (digit m) = 0" by (simp only:) (simp add: digit_val_def)
      with that show False by simp
    qed
    have s: "show_nat n = show_nat (n div 10) @ [digit (n mod 10)]" using False by (subst show_nat.simps) simp
    show ?thesis
    proof (cases "n < 100")
      case True
      then have "show_nat (n div 10) = [digit (n div 10)]" by (subst show_nat.simps) simp
      then show ?thesis using d [of "n div 10"] False True by (simp add: s)
    next
      case False
      then have "show_nat (n div 10) = [digit (n div 10 div 10), digit (n div 10 mod 10)]"
        using assms by (subst show_nat.simps, subst show_nat.simps) auto
      moreover have "n div 10 div 10 \<noteq> 0" "n div 10 div 10 < 10" using assms False by auto
      ultimately show ?thesis using d [of "n div 10 div 10"] by (simp add: s)
    qed
  qed
  then show ?thesis using assms show_nat_digits by (auto simp: v4_segment_def list_all_iff)
qed

lemma internal_ipv4:
  assumes "a < 256" "b < 256" "c < 256" "d < 256"
  shows "isInternalIp (dotted a b c d) \<longleftrightarrow> list_ex (in_net (ip4 a b c d)) internal_nets"
proof -
  have "isIPv4 (dotted a b c d)" using assms by (simp add: isIPv4_def split_dotted v4_segment_show_nat)
  moreover have "isInternalIPv4 (dotted a b c d) \<longleftrightarrow> a = 0 \<or> a = 10 \<or> a = 127 \<or> (a = 169 \<and> b = 254) \<or>
      (a = 172 \<and> 16 \<le> b \<and> b \<le> 31) \<or> (a = 192 \<and> b = 168)"
    using assms by (simp add: isInternalIPv4_def split_dotted parseInt_show_nat)
  moreover have "list_ex (in_net (ip4 a b c d)) internal_nets \<longleftrightarrow> a = 0 \<or> a = 10 \<or> a = 127 \<or>
      (a = 169 \<and> b = 254) \<or> (a = 172 \<and> b div 16 = 1) \<or> (a = 192 \<and> b = 168)"
    using assms by (simp add: internal_nets_def in_net_iff)
  moreover have "b div 16 = 1 \<longleftrightarrow> 16 \<le> b \<and> b \<le> 31" by presburger
  ultimately show ?thesis by (simp add: isInternalIp_def)
qed


text \<open>
  The IPv4 test of the callback guard is exactly membership in the six internal networks 0/8, 10/8,
  127/8, 169.254/16, 172.16/12 and 192.168/16, for every dotted address.
\<close>

theorem internal_ipv4_networks:
  assumes "a < 256" "b < 256" "c < 256" "d < 256"
  shows "isInternalIp (dotted a b c d) \<longleftrightarrow> list_ex (in_net (ip4 a b c d)) internal_nets"
  using internal_ipv4 [OF assms] .

theorem internal_ipv4_networks_witness:
  "isInternalIp (dotted 172 20 0 1) \<and> \<not> isInternalIp (dotted 172 32 0 1)"
  by (simp add: internal_ipv4_networks internal_nets_def in_net_iff)

subsection \<open>Accepted URLs\<close>

text \<open>
  A callback URL is accepted only if it is an http or https URL whose host is not a literal number or a
  loopback name and resolves, and every IPv4 address it resolves to lies outside the six internal
  networks. Every other URL is refused with one of the three URL codes.
\<close>

theorem safe_url_resolves_outside:
  "case isCallbackUrlSafe parseUrl lookup url of
     Safe \<Rightarrow> (\<exists>proto host addrs. parseUrl url = Some (proto, host) \<and> proto \<in> {''http:'', ''https:''} \<and>
        host \<noteq> ''localhost'' \<and> lookup host = Some addrs \<and> addrs \<noteq> [] \<and>
        (\<forall>a b c d. a < 256 \<longrightarrow> b < 256 \<longrightarrow> c < 256 \<longrightarrow> d < 256 \<longrightarrow> dotted a b c d \<in> set addrs \<longrightarrow>
           \<not> list_ex (in_net (ip4 a b c d)) internal_nets))
   | Unsafe code \<Rightarrow> code \<in> {CALLBACK_URL_FORMAT_INVALID, CALLBACK_URL_PROTOCOL_INVALID, CALLBACK_URL_INTERNAL}"
proof (cases "isCallbackUrlSafe parseUrl lookup url")
  case Safe
  then obtain proto host addrs where "parseUrl url = Some (proto, host)" "proto \<in> {''http:'', ''https:''}"
    "host \<noteq> ''localhost''" "lookup host = Some addrs" "addrs \<noteq> []"
    and out: "\<not> list_ex isInternalIp addrs"
    by (auto simp: isCallbackUrlSafe_def split: option.splits if_splits)
  moreover have "\<not> list_ex (in_net (ip4 a b c d)) internal_nets"
    if "a < 256" "b < 256" "c < 256" "d < 256" "dotted a b c d \<in> set addrs" for a b c d
    using out that internal_ipv4 [OF that(1-4)] by (auto simp: list_ex_iff)
  ultimately show ?thesis by (simp add: Safe)
next
  case (Unsafe code)
  then show ?thesis by (auto simp: isCallbackUrlSafe_def split: option.splits if_splits)
qed

theorem safe_url_resolves_outside_witness:
  "isCallbackUrlSafe (\<lambda>_. Some (''https:'', ''shop.example'')) (\<lambda>_. Some [''203.0.113.9'']) ''https://shop.example/cb'' = Safe \<and>
   \<not> list_ex (in_net (ip4 203 0 113 9)) internal_nets"
proof -
  have safe: "isCallbackUrlSafe (\<lambda>_. Some (''https:'', ''shop.example'')) (\<lambda>_. Some [''203.0.113.9''])
      ''https://shop.example/cb'' = Safe" and shown: "dotted 203 0 113 9 = ''203.0.113.9''" by code_simp+
  from safe_url_resolves_outside [where parseUrl = "\<lambda>_. Some (''https:'', ''shop.example'')"
      and lookup = "\<lambda>_. Some [''203.0.113.9'']" and url = "''https://shop.example/cb''"]
  have "\<not> list_ex (in_net (ip4 203 0 113 9)) internal_nets" unfolding safe using shown by auto
  with safe show ?thesis by blast
qed

text \<open>
  The IPv6 side is not as tight: the unspecified address, which a connection takes as the own host, is
  accepted.
\<close>

lemma unspecified_address_accepted: "isIPv6 ''::'' \<and> \<not> isInternalIp ''::''"
  by code_simp

end
