(* ===== verification/Cashier.thy ===== *)
theory Cashier
  imports Transfers UrlSafety
begin

text \<open>
  Payments to merchants (cashier/cashier.service.ts): an order a merchant opens, its payment from a
  user's balance with the merchant's fee, the job that closes expired orders, and the notification of
  the merchant with its retries. The list, export and statistics queries are left out; amounts printed
  in yuan beside the row (\<open>formatOrder\<close>) are not part of the results here.

  The lemmas: a payment refines \<open>paid\<close> with the fee as the platform's part, an order is charged at
  most once, and the delivery loop makes at most five attempts.
\<close>

subsection \<open>Lookups and the fee\<close>

definition find_payment :: "string \<Rightarrow> db \<Rightarrow> PaymentOrder option" where
  "find_payment no d = findUnique (\<lambda>r. pay_orderNo r = no) (paymentOrders d)"

definition payment_by_id :: "string \<Rightarrow> db \<Rightarrow> PaymentOrder option" where
  "payment_by_id i d = findUnique (\<lambda>r. pay_id r = i) (paymentOrders d)"

definition merchant_of :: "string \<Rightarrow> db \<Rightarrow> Merchant option" where
  "merchant_of u d = findUnique (\<lambda>m. mch_user m = u) (merchants d)"

definition merchant_by_id :: "string \<Rightarrow> db \<Rightarrow> Merchant option" where
  "merchant_by_id i d = findUnique (\<lambda>m. mch_id m = i) (merchants d)"

definition merchant_payment :: "string \<Rightarrow> string \<Rightarrow> db \<Rightarrow> PaymentOrder option" where
  "merchant_payment i no d =
     findUnique (\<lambda>r. pay_merchant r = i \<and> pay_merchantOrderNo r = no) (paymentOrders d)"

text \<open>\<open>Math.round((amount * payRate) / RATE_DENOMINATOR)\<close>\<close>

definition payment_fee :: "int \<Rightarrow> int \<Rightarrow> int" where
  "payment_fee amount rate = js_round (js_div (js_mul (of_int amount) (of_int rate)) (of_int RATE_DENOMINATOR))"

definition pay_conflict :: "PaymentOrder \<Rightarrow> PaymentOrder \<Rightarrow> bool" where
  "pay_conflict r s = (pay_id r = pay_id s \<or> pay_orderNo r = pay_orderNo s \<or>
     (pay_merchant r = pay_merchant s \<and> pay_merchantOrderNo r = pay_merchantOrderNo s))"

definition generatePaymentNo :: "env \<Rightarrow> nat \<Rightarrow> string" where
  "generatePaymentNo e i = ''P'' @ show_nat (nat (now e)) @ nano e i"

subsection \<open>Opening an order\<close>

record CashierDto =
  cd_merchantOrderNo :: string
  cd_amount :: jsnum
  cd_callbackUrl :: "string option"
  cd_expiredAt :: "int option"

definition validateCallbackUrl :: "(string \<Rightarrow> UrlVerdict) \<Rightarrow> string \<Rightarrow> exn + unit" where
  "validateCallbackUrl check url =
     (case check url of
        Safe \<Rightarrow> Inr ()
      | Unsafe reason \<Rightarrow> Inl (BadRequest
          (if reason = CALLBACK_URL_PROTOCOL_INVALID then CALLBACK_URL_PROTOCOL_INVALID
           else if reason = CALLBACK_URL_INTERNAL then CALLBACK_URL_INTERNAL
           else INVALID_PARAMETER)))"

text \<open>
  A conflict at the insert (P2002) is caught: a concurrent request may have created the merchant's
  order in between, which is then returned.
\<close>

definition insert_payment :: "PaymentOrder \<Rightarrow> db \<Rightarrow> exn + (PaymentOrder \<times> db)" where
  "insert_payment order d =
     (case create P2002 pay_conflict order (paymentOrders d) of
        Inr t \<Rightarrow> Inr (order, d\<lparr>paymentOrders := t\<rparr>)
      | Inl _ \<Rightarrow>
          (case merchant_payment (pay_merchant order) (pay_merchantOrderNo order) d of
             Some existed \<Rightarrow> Inr (existed, d)
           | None \<Rightarrow> Inl (BadRequest MERCHANT_ORDER_NO_EXISTS)))"

definition cashier_createOrder ::
  "(string \<Rightarrow> UrlVerdict) \<Rightarrow> env \<Rightarrow> string \<Rightarrow> CashierDto \<Rightarrow> db \<Rightarrow> exn + (PaymentOrder \<times> db)" where
  "cashier_createOrder check e userId dto d =
     or_throw (merchant_of userId d) (NotFound MERCHANT_NOT_FOUND) (\<lambda>merchant.
       throw_if (mch_status merchant \<noteq> MerchantStatus.APPROVED) (Forbidden MERCHANT_NOT_APPROVED)
      (throw_if (amount_le0 (cd_amount dto)) (BadRequest INVALID_PARAMETER)
      (bindE (fen (cd_amount dto)) (\<lambda>amount.
         throw_if (merchant_payment (mch_id merchant) (cd_merchantOrderNo dto) d \<noteq> None)
           (BadRequest MERCHANT_ORDER_NO_EXISTS)
        (bindE (if truthy (cd_callbackUrl dto) then validateCallbackUrl check (the (cd_callbackUrl dto)) else Inr ()) (\<lambda>_.
           let expiredAt = (case cd_expiredAt dto of Some t \<Rightarrow> t | None \<Rightarrow> now e + ORDER_EXPIRY_MS)
           in throw_if (expiredAt \<le> now e) (BadRequest EXPIRED_TIME_INVALID)
             (throw_if (\<not> int32 amount) IntOutOfRange
               (let order = \<lparr>pay_id = uuid e 0, pay_orderNo = generatePaymentNo e 0, pay_merchant = mch_id merchant,
                      pay_merchantOrderNo = cd_merchantOrderNo dto, pay_app = None, pay_amount = amount, pay_fee = 0,
                      pay_status = PaymentOrderStatus.PENDING, pay_payer = None, pay_paidAt = None,
                      pay_expiredAt = Some expiredAt, pay_callbackUrl = cd_callbackUrl dto,
                      pay_notifyStatus = NotifyStatus.PENDING, pay_notifyCount = 0, pay_refundAmount = 0,
                      pay_refundedAt = None, pay_refundedBy = None, pay_settledAt = None\<rparr>
                in insert_payment order d))))))))"

subsection \<open>Paying an order\<close>

definition checkMerchantDailyLimit :: "string \<Rightarrow> string \<Rightarrow> int \<Rightarrow> int \<Rightarrow> int \<Rightarrow> db \<Rightarrow> exn + db" where
  "checkMerchantDailyLimit i merchantId day dailyLimit amount d =
     (let found = findUnique (\<lambda>r. lim_user r = merchantId \<and> lim_type r = ''MERCHANT_PAYMENT'' \<and> lim_day r = day)
                    (dailyLimitUsages d);
          fresh = \<lparr>lim_id = i, lim_user = merchantId, lim_type = ''MERCHANT_PAYMENT'', lim_day = day,
                   usedAmount = 0, lim_version = 0\<rparr>
      in bindE (case found of
            Some r \<Rightarrow> Inr (r, dailyLimitUsages d)
          | None \<Rightarrow> bindE (create P2002 lim_conflict fresh (dailyLimitUsages d)) (\<lambda>t. Inr (fresh, t)))
         (\<lambda>(usage, t).
            throw_if (\<not> int32 (dailyLimit - amount)) PrismaValidation
            (bindE (updateMany IntOutOfRange (\<lambda>r. int32 (usedAmount r) \<and> int32 (lim_version r))
                     (\<lambda>r. lim_id r = lim_id usage \<and> lim_version r = lim_version usage \<and>
                          usedAmount r \<le> dailyLimit - amount)
                     (\<lambda>r. r\<lparr>usedAmount := usedAmount r + amount, lim_version := lim_version r + 1\<rparr>) t)
               (\<lambda>(count, t').
                  throw_if (count = 0) (Forbidden FORBIDDEN) (Inr (d\<lparr>dailyLimitUsages := t'\<rparr>))))))"

definition mark_paid :: "env \<Rightarrow> string \<Rightarrow> int \<Rightarrow> PaymentOrder \<Rightarrow> PaymentOrder" where
  "mark_paid e payerId fee r = r\<lparr>pay_status := PaymentOrderStatus.PAID, pay_paidAt := Some (now e),
     pay_payer := Some payerId, pay_fee := fee\<rparr>"

text \<open>The rows of a payment: order, ledger, bills and the journal, after both balances have moved.\<close>

definition cashier_rows ::
  "env \<Rightarrow> User \<Rightarrow> Merchant \<Rightarrow> User \<Rightarrow> PaymentOrder \<Rightarrow> int \<Rightarrow> Account \<Rightarrow> Account \<Rightarrow> int \<Rightarrow> int \<Rightarrow> db \<Rightarrow> exn + db" where
  "cashier_rows e payer merchant merchantUser order fee payerAccount merchantAccount payerAfter merchantAfter d =
     (let amount = pay_amount order; actual = amount - fee; txId = uuid e 2;
          d1 = add_ledger \<lparr>led_account = acc_id payerAccount, led_transaction = txId, led_type = LedgerType.PAYMENT,
                 led_amount = amount, led_before = payerAfter + amount, led_after = payerAfter,
                 led_direction = CREDIT\<rparr> d;
          d2 = add_ledger \<lparr>led_account = acc_id merchantAccount, led_transaction = txId, led_type = LedgerType.PAYMENT,
                 led_amount = actual, led_before = merchantAfter - actual, led_after = merchantAfter,
                 led_direction = DEBIT\<rparr> d1;
          d3 = add_bill \<lparr>bill_user = usr_id payer, bill_transaction = txId, bill_type = BillType.PAYMENT,
                 bill_direction = EXPENSE, bill_amount = amount,
                 bill_counterparty = Some (usr_nickname merchantUser)\<rparr> d2;
          d4 = add_bill \<lparr>bill_user = mch_user merchant, bill_transaction = txId, bill_type = RECEIPT,
                 bill_direction = INCOME, bill_amount = actual, bill_counterparty = Some (usr_nickname payer)\<rparr> d3;
          journalId = generateOrderNo e 1 ''J''
      in createEntries
           [\<lparr>in_journalId = journalId, in_accountCode = user_code (usr_id payer), in_debit = Some amount, in_credit = None\<rparr>,
            \<lparr>in_journalId = journalId, in_accountCode = user_code (mch_user merchant), in_debit = None, in_credit = Some actual\<rparr>,
            \<lparr>in_journalId = journalId, in_accountCode = ''REVENUE_FEE'', in_debit = None, in_credit = Some fee\<rparr>] d4)"

definition cashier_move ::
  "env \<Rightarrow> User \<Rightarrow> Merchant \<Rightarrow> User \<Rightarrow> PaymentOrder \<Rightarrow> int \<Rightarrow> Account \<Rightarrow> Account \<Rightarrow> db \<Rightarrow> exn + (PaymentOrder \<times> db)" where
  "cashier_move e payer merchant merchantUser order fee payerAccount merchantAccount d =
     guarded acc_spend (BadRequest INSUFFICIENT_BALANCE) (acc_id payerAccount) (pay_amount order) d (\<lambda>d1.
       bindE (createOrder \<lparr>tx_id = uuid e 2, tx_orderNo = generateOrderNo e 0 ''PAY'',
                tx_type = TransactionType.PAYMENT, tx_status = TransactionStatus.SUCCESS,
                tx_amount = pay_amount order, tx_fee = fee, tx_from = Some (usr_id payer),
                tx_to = Some (mch_user merchant), tx_remark = NoRemark, tx_related = Some (pay_orderNo order),
                tx_idem = None, tx_channel = None, tx_channelOrderNo = None, tx_createdAt = now e,
                tx_completedAt = Some (now e)\<rparr> d1) (\<lambda>d2.
         credit_account (acc_id merchantAccount) (pay_amount order - fee) d2 (\<lambda>updatedMerchant d3.
           or_throw (account_by_id (acc_id payerAccount) (accounts d3)) TypeError (\<lambda>updatedPayer.
             bindE (cashier_rows e payer merchant merchantUser order fee payerAccount merchantAccount
                      (availableBalance updatedPayer) (availableBalance updatedMerchant) d3) (\<lambda>d4.
               Inr (mark_paid e (usr_id payer) fee order, d4))))))"

definition cashier_body ::
  "env \<Rightarrow> User \<Rightarrow> Merchant \<Rightarrow> User \<Rightarrow> PaymentOrder \<Rightarrow> db \<Rightarrow> exn + (PaymentOrder \<times> db)" where
  "cashier_body e payer merchant merchantUser order d =
     (let amount = pay_amount order; fee = payment_fee amount (mch_payRate merchant)
      in or_throw (account_of (usr_id payer) (accounts d)) (NotFound ACCOUNT_NOT_FOUND) (\<lambda>payerAccount.
         or_throw (account_of (mch_user merchant) (accounts d)) (NotFound ACCOUNT_NOT_FOUND) (\<lambda>merchantAccount.
           throw_if (acc_status payerAccount \<noteq> AccountStatus.ACTIVE) (Forbidden FORBIDDEN)
          (throw_if (acc_status merchantAccount \<noteq> AccountStatus.ACTIVE) (Forbidden FORBIDDEN)
          (bindE (checkMerchantDailyLimit (uuid e 0) (mch_id merchant) (utc_day (now e)) (mch_dailyLimit merchant)
                    amount d) (\<lambda>d1.
           bindE (checkAndIncrementDailyLimit (uuid e 1) (usr_id payer) ''CASHIER'' (utc_day (now e)) amount
                    (config_limit ''payment_daily_limit'' DEFAULT_PAYMENT_DAILY_LIMIT_CENTS d1) d1) (\<lambda>d2.
           bindE (updateMany IntOutOfRange (\<lambda>r. int32 (pay_fee r))
                    (\<lambda>r. pay_id r = pay_id order \<and> pay_status r = PaymentOrderStatus.PENDING \<and>
                         (case pay_expiredAt r of Some t \<Rightarrow> now e < t | None \<Rightarrow> False))
                    (mark_paid e (usr_id payer) fee) (paymentOrders d2)) (\<lambda>(count, t).
             throw_if (count = 0) (BadRequest ORDER_STATUS_CHANGED)
               (cashier_move e payer merchant merchantUser order fee payerAccount merchantAccount
                  (d2\<lparr>paymentOrders := t\<rparr>))))))))))"

text \<open>From the risk check on. The lock is taken around the transaction only.\<close>

definition cashier_checked ::
  "env \<Rightarrow> User \<Rightarrow> Merchant \<Rightarrow> User \<Rightarrow> PaymentOrder \<Rightarrow> world \<Rightarrow> (exn + PaymentOrder) \<times> world" where
  "cashier_checked e payer merchant merchantUser order w =
     (let ctx = \<lparr>ctx_user = usr_id payer, ctx_type = TransactionType.PAYMENT, ctx_amount = pay_amount order,
                 ctx_ip = None\<rparr>
      in andThen (risk_guard (now e) ctx w) (\<lambda>_ w.
         andThen (withLock (''cashier:pay:'' @ pay_orderNo order @ '':'' @ usr_id payer)
                    (transaction (cashier_body e payer merchant merchantUser order)) w) (\<lambda>paid w.
           record_quietly (now e) (uuid e 3) ctx paid w)))"

definition cashier_pay ::
  "(string \<Rightarrow> string \<Rightarrow> bool) \<Rightarrow> env \<Rightarrow> string \<Rightarrow> string \<Rightarrow> string \<Rightarrow> world \<Rightarrow> (exn + PaymentOrder) \<times> world" where
  "cashier_pay pw_ok e payerId orderNo payPassword w =
     (case find_payment orderNo (wdb w) of
        None \<Rightarrow> (Inl (NotFound ORDER_NOT_FOUND), w)
      | Some order \<Rightarrow>
          if pay_status order = PaymentOrderStatus.PAID \<and> pay_payer order = Some payerId then (Inr order, w)
          else case merchant_by_id (pay_merchant order) (wdb w) of
            None \<Rightarrow> (Inl TypeError, w)
          | Some merchant \<Rightarrow>
              if mch_status merchant \<noteq> MerchantStatus.APPROVED then (Inl (Forbidden MERCHANT_CANNOT_RECEIVE), w)
              else case find_user payerId (wdb w) of
                None \<Rightarrow> (Inl (NotFound USER_NOT_FOUND), w)
              | Some payer \<Rightarrow>
                  if \<not> verified payer then (Inl (Forbidden REAL_NAME_REQUIRED), w)
                  else if \<not> may_spend payer then (Inl (Forbidden FORBIDDEN), w)
                  else andThen (verifyPayPassword pw_ok (now e) payerId payPassword w) (\<lambda>_ w.
                    case find_user (mch_user merchant) (wdb w) of
                      None \<Rightarrow> (Inl (NotFound MERCHANT_USER_NOT_FOUND), w)
                    | Some merchantUser \<Rightarrow> cashier_checked e payer merchant merchantUser order w))"

subsection \<open>Notifying the merchant\<close>

record Notification =
  nt_orderNo :: string
  nt_merchantOrderNo :: string
  nt_amount :: int
  nt_amountYuan :: string
  nt_status :: PaymentOrderStatus
  nt_paidAt :: "int option"

text \<open>
  The delivery loop: attempt \<open>i\<close> succeeds when the merchant's server answers it with a 2xx status.
  The result says whether an attempt succeeded and how many were made.
\<close>

primrec deliver :: "(nat \<Rightarrow> bool) \<Rightarrow> nat \<Rightarrow> nat \<Rightarrow> bool \<times> nat" where
  "deliver accepted i 0 = (False, i)"
| "deliver accepted i (Suc n) = (if accepted i then (True, Suc i) else deliver accepted (Suc i) n)"

definition set_notify :: "string \<Rightarrow> NotifyStatus \<Rightarrow> int \<Rightarrow> db \<Rightarrow> exn + ((NotifyStatus \<times> int) \<times> db)" where
  "set_notify i st n d =
     bindE (updateOne P2025 IntOutOfRange (\<lambda>_. True) (\<lambda>r. pay_id r = i)
              (\<lambda>r. r\<lparr>pay_notifyStatus := st, pay_notifyCount := n\<rparr>) (paymentOrders d))
       (\<lambda>(r, t). Inr ((pay_notifyStatus r, pay_notifyCount r), d\<lparr>paymentOrders := t\<rparr>))"

text \<open>
  \<open>check\<close> is the verdict on the URL at this moment, \<open>hmac\<close> the signature of a payload under a secret,
  \<open>post url payload signature i\<close> whether the server accepts attempt \<open>i\<close>.
\<close>

definition notification :: "PaymentOrder \<Rightarrow> Notification" where
  "notification order = \<lparr>nt_orderNo = pay_orderNo order, nt_merchantOrderNo = pay_merchantOrderNo order,
     nt_amount = pay_amount order, nt_amountYuan = fenToYuan (pay_amount order), nt_status = pay_status order,
     nt_paidAt = pay_paidAt order\<rparr>"

definition callback_secret :: "PaymentOrder \<Rightarrow> db \<Rightarrow> string" where
  "callback_secret order d =
     (case (if truthy (pay_app order) then findUnique (\<lambda>r. app_appId r = the (pay_app order)) (merchantApps d) else None) of
        None \<Rightarrow> [] | Some r \<Rightarrow> app_secret r)"

definition deliveries ::
  "(string \<Rightarrow> Notification \<Rightarrow> string) \<Rightarrow> (string \<Rightarrow> Notification \<Rightarrow> string \<Rightarrow> nat \<Rightarrow> bool) \<Rightarrow>
   PaymentOrder \<Rightarrow> db \<Rightarrow> nat \<Rightarrow> bool" where
  "deliveries hmac post order d =
     post (the (pay_callbackUrl order)) (notification order) (hmac (callback_secret order d) (notification order))"

definition notified :: "PaymentOrder option \<Rightarrow> bool" where
  "notified latest = (case latest of Some r \<Rightarrow> pay_notifyStatus r = NotifyStatus.SUCCESS | None \<Rightarrow> False)"

definition notifyMerchant ::
  "(string \<Rightarrow> UrlVerdict) \<Rightarrow> (string \<Rightarrow> Notification \<Rightarrow> string) \<Rightarrow>
   (string \<Rightarrow> Notification \<Rightarrow> string \<Rightarrow> nat \<Rightarrow> bool) \<Rightarrow> PaymentOrder \<Rightarrow> world \<Rightarrow>
   (exn + (NotifyStatus \<times> int)) \<times> world" where
  "notifyMerchant check hmac post order w =
     (if \<not> truthy (pay_callbackUrl order) then (Inr (NotifyStatus.PENDING, 0), w)
      else withLock (''cashier:notify:'' @ pay_id order) (\<lambda>w.
        if notified (payment_by_id (pay_id order) (wdb w))
        then (Inr (NotifyStatus.SUCCESS, pay_notifyCount (the (payment_by_id (pay_id order) (wdb w)))), w)
        else if check (the (pay_callbackUrl order)) \<noteq> Safe
        then transaction (set_notify (pay_id order) NotifyStatus.FAILED 0) w
        else case deliver (deliveries hmac post order (wdb w)) 0 MAX_CALLBACK_RETRIES of
          (success, attempts) \<Rightarrow> transaction (set_notify (pay_id order)
            (if success then NotifyStatus.SUCCESS else NotifyStatus.FAILED) (int attempts)) w) w)"

text \<open>Manual retry by the merchant.\<close>

definition retryNotify ::
  "(string \<Rightarrow> UrlVerdict) \<Rightarrow> (string \<Rightarrow> Notification \<Rightarrow> string) \<Rightarrow>
   (string \<Rightarrow> Notification \<Rightarrow> string \<Rightarrow> nat \<Rightarrow> bool) \<Rightarrow> string \<Rightarrow> string \<Rightarrow> world \<Rightarrow>
   (exn + (NotifyStatus \<times> int)) \<times> world" where
  "retryNotify check hmac post userId orderNo w =
     (case merchant_of userId (wdb w) of
        None \<Rightarrow> (Inl (NotFound MERCHANT_NOT_FOUND), w)
      | Some merchant \<Rightarrow>
          (case find_payment orderNo (wdb w) of
             None \<Rightarrow> (Inl (NotFound ORDER_NOT_FOUND), w)
           | Some order \<Rightarrow>
               if pay_merchant order \<noteq> mch_id merchant then (Inl (Forbidden FORBIDDEN), w)
               else if \<not> truthy (pay_callbackUrl order) then (Inl (BadRequest CALLBACK_URL_NOT_SET), w)
               else if pay_notifyStatus order = NotifyStatus.SUCCESS then (Inl (BadRequest CALLBACK_ALREADY_SUCCESS), w)
               else notifyMerchant check hmac post order w))"

subsection \<open>Closing expired orders\<close>

definition close_expired :: "int \<Rightarrow> PaymentOrder list \<Rightarrow> PaymentOrder list" where
  "close_expired t = updateRows (\<lambda>r. pay_status r = PaymentOrderStatus.PENDING \<and>
       (case pay_expiredAt r of Some x \<Rightarrow> x < t | None \<Rightarrow> False))
     (\<lambda>r. r\<lparr>pay_status := PaymentOrderStatus.CLOSED\<rparr>)"

definition stale :: "int \<Rightarrow> PaymentOrder \<Rightarrow> bool" where
  "stale t r = (pay_status r = PaymentOrderStatus.PAID \<and>
     (case pay_paidAt r of Some x \<Rightarrow> x < t - NOTIFY_RETRY_BACKOFF_MS | None \<Rightarrow> False) \<and>
     pay_notifyStatus r \<in> {NotifyStatus.PENDING, NotifyStatus.FAILED} \<and> pay_callbackUrl r \<noteq> None)"

fun notify_all ::
  "(string \<Rightarrow> UrlVerdict) \<Rightarrow> (string \<Rightarrow> Notification \<Rightarrow> string) \<Rightarrow>
   (string \<Rightarrow> Notification \<Rightarrow> string \<Rightarrow> nat \<Rightarrow> bool) \<Rightarrow> PaymentOrder list \<Rightarrow> world \<Rightarrow> world" where
  "notify_all check hmac post [] w = w"
| "notify_all check hmac post (r # rs) w =
     notify_all check hmac post rs (snd (notifyMerchant check hmac post r w))"

definition retryStaleNotifications ::
  "(string \<Rightarrow> UrlVerdict) \<Rightarrow> (string \<Rightarrow> Notification \<Rightarrow> string) \<Rightarrow>
   (string \<Rightarrow> Notification \<Rightarrow> string \<Rightarrow> nat \<Rightarrow> bool) \<Rightarrow> int \<Rightarrow> world \<Rightarrow> world" where
  "retryStaleNotifications check hmac post t w =
     notify_all check hmac post
       (take NOTIFY_RETRY_BATCH_SIZE
          (sort_key (\<lambda>r. case pay_paidAt r of Some x \<Rightarrow> x | None \<Rightarrow> 0) (filter (stale t) (paymentOrders (wdb w))))) w"

definition closeExpiredOrders ::
  "(string \<Rightarrow> UrlVerdict) \<Rightarrow> (string \<Rightarrow> Notification \<Rightarrow> string) \<Rightarrow>
   (string \<Rightarrow> Notification \<Rightarrow> string \<Rightarrow> nat \<Rightarrow> bool) \<Rightarrow> int \<Rightarrow> world \<Rightarrow> world" where
  "closeExpiredOrders check hmac post t w =
     retryStaleNotifications check hmac post t
       (w\<lparr>wdb := (wdb w)\<lparr>paymentOrders := close_expired t (paymentOrders (wdb w))\<rparr>\<rparr>)"

subsection \<open>The fee\<close>

definition fee_inputs :: "int \<Rightarrow> int \<Rightarrow> bool" where
  "fee_inputs n rate = (0 \<le> n \<and> n \<le> 2147483647 \<and> 0 \<le> rate \<and> rate \<le> 10000)"

text \<open>In floating point as written, the fee is the exact quotient, rounded half up.\<close>

lemma payment_fee_eq:
  assumes "fee_inputs n rate"
  shows "payment_fee n rate = (n * rate + 5000) div 10000"
proof -
  have n: "0 \<le> n" "n \<le> 2147483647" and rate: "0 \<le> rate" "rate \<le> 10000" using assms by (auto simp: fee_inputs_def)
  have le: "n * rate \<le> n * 10000" using n rate by (intro mult_left_mono) auto
  have nn: "0 \<le> n * rate" using n rate by simp
  have "fl (of_int (n * rate)) = of_int (n * rate)" using le nn n by (intro fl_of_int) auto
  then have "payment_fee n rate = js_round (fl (of_int (n * rate) / of_int 10000))"
    by (simp add: payment_fee_def js_mul_def js_div_def RATE_DENOMINATOR_def)
  also have "\<dots> = (2 * (n * rate) + 10000) div (2 * 10000)"
    using le nn n by (intro js_round_quotient) auto
  also have "\<dots> = (2 * (n * rate + 5000)) div (2 * 10000)" by (simp only: distrib_left) simp
  finally show ?thesis by simp
qed

lemma payment_fee_bounds:
  assumes "fee_inputs n rate"
  shows "0 \<le> payment_fee n rate" and "payment_fee n rate \<le> n"
proof -
  have "0 \<le> n * rate" "n * rate \<le> n * 10000" using assms by (auto simp: fee_inputs_def intro: mult_left_mono)
  then show "0 \<le> payment_fee n rate" and "payment_fee n rate \<le> n"
    unfolding payment_fee_eq [OF assms] by simp_all
qed

subsection \<open>The merchant's daily limit\<close>

lemma checkMerchantDailyLimit_Inr:
  assumes run: "checkMerchantDailyLimit i mid day cap n d = Inr d'" and ok: "limits_ok (dailyLimitUsages d)"
  shows "limits_ok (dailyLimitUsages d')"
    and "used_of mid ''MERCHANT_PAYMENT'' day (dailyLimitUsages d') =
      used_of mid ''MERCHANT_PAYMENT'' day (dailyLimitUsages d) + n"
    and "used_of mid ''MERCHANT_PAYMENT'' day (dailyLimitUsages d') \<le> cap"
proof -
  let ?t = "dailyLimitUsages d" and ?ty = "''MERCHANT_PAYMENT''"
  let ?fresh = "\<lparr>lim_id = i, lim_user = mid, lim_type = ?ty, lim_day = day, usedAmount = 0, lim_version = 0\<rparr>"
  let ?find = "findUnique (\<lambda>r. lim_user r = mid \<and> lim_type r = ?ty \<and> lim_day r = day) ?t"
  obtain r t1 count t2 where src: "(?find = Some r \<and> t1 = ?t) \<or>
      (?find = None \<and> r = ?fresh \<and> create P2002 lim_conflict r ?t = Inr t1)"
    and upd: "updateMany IntOutOfRange (\<lambda>r. int32 (usedAmount r) \<and> int32 (lim_version r))
        (\<lambda>s. lim_id s = lim_id r \<and> lim_version s = lim_version r \<and> usedAmount s \<le> cap - n)
        (\<lambda>s. s\<lparr>usedAmount := usedAmount s + n, lim_version := lim_version s + 1\<rparr>) t1 = Inr (count, t2)"
    and count: "count \<noteq> 0" and d': "d' = d\<lparr>dailyLimitUsages := t2\<rparr>"
  proof (cases ?find)
    case None
    then show thesis using run that [of ?fresh]
      by (clarsimp simp: checkMerchantDailyLimit_def Let_def)
  next
    case (Some r)
    then show thesis using run that [of r]
      by (clarsimp simp: checkMerchantDailyLimit_def Let_def)
  qed
  note src' = limit_source [OF src ok]
  note inc = increment_row [OF src'(3) src'(1) upd count]
  show "limits_ok (dailyLimitUsages d')" using inc(1) by (simp add: d')
  show u1: "used_of mid ?ty day (dailyLimitUsages d') = used_of mid ?ty day ?t + n"
    using inc(3) [of mid ?ty day] by (simp add: d' src'(2,4))
  have "used_of mid ?ty day t1 = usedAmount r"
    using src' by (intro used_of_row) (auto simp: limits_ok_def)
  with u1 inc(2) src'(4) [of mid ?ty day] show "used_of mid ?ty day (dailyLimitUsages d') \<le> cap" by simp
qed

lemma checkMerchantDailyLimit_frame:
  "checkMerchantDailyLimit i mid day cap n d = Inr d' \<Longrightarrow> \<exists>t. d' = d\<lparr>dailyLimitUsages := t\<rparr>"
  by (auto simp: checkMerchantDailyLimit_def Let_def split: option.splits)

subsection \<open>A cashier payment refines a payment\<close>

lemma mark_paid_simps [simp]:
  "pay_id (mark_paid e u fee r) = pay_id r" "pay_orderNo (mark_paid e u fee r) = pay_orderNo r"
  "pay_amount (mark_paid e u fee r) = pay_amount r" "pay_merchant (mark_paid e u fee r) = pay_merchant r"
  "pay_merchantOrderNo (mark_paid e u fee r) = pay_merchantOrderNo r"
  "pay_status (mark_paid e u fee r) = PaymentOrderStatus.PAID" "pay_payer (mark_paid e u fee r) = Some u"
  "pay_fee (mark_paid e u fee r) = fee"
  by (simp_all add: mark_paid_def)

lemma cashier_rows_posted:
  assumes run: "cashier_rows e p m mu order fee pa ma after1 after2 d = Inr d'"
    and codes: "distinct (map pa_code (platformAccounts d))"
  shows "posted (- fee) d d'" and "transactionOrders d' = transactionOrders d" and "paymentOrders d' = paymentOrders d"
proof -
  note post = run [unfolded cashier_rows_def Let_def]
  show "posted (- fee) d d'"
    by (rule createEntries_posted [OF post _ codes])
      (simp_all add: books_kept_def add_ledger_def add_bill_def same_holdings_def ledgers_ok_def ledger_ok_def
        platform_net_def entry_delta_def or0_def is_user_code_def user_code_def)
  show "transactionOrders d' = transactionOrders d" "paymentOrders d' = paymentOrders d"
    using post by (auto simp: createEntries_def Let_def add_ledger_def add_bill_def)
qed

lemma cashier_move_Inr:
  assumes run: "cashier_move e p m mu order fee pa ma d = Inr (r, d')" and inv: "money_ok d"
    and pa: "account_of (usr_id p) (accounts d) = Some pa" and ma: "account_of (mch_user m) (accounts d) = Some ma"
    and n: "0 \<le> pay_amount order" and fee: "fee \<le> pay_amount order"
  shows "paid (usr_id p) (mch_user m) (pay_amount order) (pay_amount order - fee) d d'"
    and "r = mark_paid e (usr_id p) fee order" and "paymentOrders d' = paymentOrders d"
    and "\<exists>tx. transactionOrders d' = transactionOrders d @ [tx] \<and> tx_amount tx = pay_amount order \<and>
      tx_fee tx = fee \<and> tx_from tx = Some (usr_id p) \<and> tx_related tx = Some (pay_orderNo order)"
proof -
  let ?n = "pay_amount order"
  let ?tx = "\<lparr>tx_id = uuid e 2, tx_orderNo = generateOrderNo e 0 ''PAY'',
      tx_type = TransactionType.PAYMENT, tx_status = TransactionStatus.SUCCESS,
      tx_amount = ?n, tx_fee = fee, tx_from = Some (usr_id p), tx_to = Some (mch_user m), tx_remark = NoRemark,
      tx_related = Some (pay_orderNo order), tx_idem = None, tx_channel = None, tx_channelOrderNo = None,
      tx_createdAt = now e, tx_completedAt = Some (now e)\<rparr>"
  have kept: "books_kept d1 d2" if "createOrder ?tx d1 = Inr d2" for d1 d2
    by (rule createOrder_kept [OF that]) (simp add: n)
  have "0 \<le> ?n - fee" using fee by simp
  obtain d2 and b' :: Account where tx: "createOrder ?tx (moved (acc_id pa) (- ?n) 0 d) = Inr d2"
    and k: "or_throw (account_by_id (acc_id pa) (accounts (moved (acc_id ma) (?n - fee) 0 d2))) TypeError
        (\<lambda>updatedPayer. bindE (cashier_rows e p m mu order fee pa ma (availableBalance updatedPayer)
           (availableBalance b') (moved (acc_id ma) (?n - fee) 0 d2))
           (\<lambda>d4. Inr (mark_paid e (usr_id p) fee order, d4))) = Inr (r, d')"
    and codes: "distinct (map pa_code (platformAccounts (moved (acc_id ma) (?n - fee) 0 d2)))"
    and fin: "\<forall>d'. posted (?n - fee - ?n) (moved (acc_id ma) (?n - fee) 0 d2) d' \<longrightarrow>
      paid (usr_id p) (mch_user m) ?n (?n - fee) d d'"
    and "?n \<le> available_of (usr_id p) (accounts d)"
    by (rule debit_then_credit [OF run [unfolded cashier_move_def] inv pa ma n \<open>0 \<le> ?n - fee\<close> kept])
  from k obtain x where rows: "cashier_rows e p m mu order fee pa ma x (availableBalance b')
      (moved (acc_id ma) (?n - fee) 0 d2) = Inr d'" and r: "r = mark_paid e (usr_id p) fee order"
    by auto
  note rw = cashier_rows_posted [OF rows codes]
  show "paid (usr_id p) (mch_user m) ?n (?n - fee) d d'" using fin rw(1) by simp
  show "r = mark_paid e (usr_id p) fee order" by (rule r)
  show "paymentOrders d' = paymentOrders d" using rw(3) tx by (simp add: createOrder_Inr)
  show "\<exists>tx. transactionOrders d' = transactionOrders d @ [tx] \<and> tx_amount tx = ?n \<and>
      tx_fee tx = fee \<and> tx_from tx = Some (usr_id p) \<and> tx_related tx = Some (pay_orderNo order)"
    using rw(2) tx by (simp add: createOrder_Inr)
qed

definition payable :: "env \<Rightarrow> string \<Rightarrow> PaymentOrder \<Rightarrow> bool" where
  "payable e i r = (pay_id r = i \<and> pay_status r = PaymentOrderStatus.PENDING \<and>
     (case pay_expiredAt r of Some t \<Rightarrow> now e < t | None \<Rightarrow> False))"

lemma cashier_body_Inr:
  assumes run: "cashier_body e p m mu order d = Inr (r, d')" and inv: "money_ok d"
    and fee: "fee_inputs (pay_amount order) (mch_payRate m)"
  defines "n \<equiv> pay_amount order" and "f \<equiv> payment_fee (pay_amount order) (mch_payRate m)"
  shows "paid (usr_id p) (mch_user m) n (n - f) d d'" and "r = mark_paid e (usr_id p) f order"
    and "paymentOrders d' = updateRows (payable e (pay_id order)) (mark_paid e (usr_id p) f) (paymentOrders d)"
    and "\<exists>s \<in> set (paymentOrders d). payable e (pay_id order) s"
proof -
  obtain pa ma d1 d2 where pa: "account_of (usr_id p) (accounts d) = Some pa"
    and ma: "account_of (mch_user m) (accounts d) = Some ma"
    and l1: "checkMerchantDailyLimit (uuid e 0) (mch_id m) (utc_day (now e)) (mch_dailyLimit m) n d = Inr d1"
    and l2: "checkAndIncrementDailyLimit (uuid e 1) (usr_id p) ''CASHIER'' (utc_day (now e)) n
      (config_limit ''payment_daily_limit'' DEFAULT_PAYMENT_DAILY_LIMIT_CENTS d1) d1 = Inr d2"
    and hit: "filter (payable e (pay_id order)) (paymentOrders d2) \<noteq> []"
    and mv: "cashier_move e p m mu order f pa ma (d2\<lparr>paymentOrders :=
      updateRows (payable e (pay_id order)) (mark_paid e (usr_id p) f) (paymentOrders d2)\<rparr>) = Inr (r, d')"
    using run by (auto simp: cashier_body_def Let_def n_def f_def payable_def [abs_def])
  let ?d3 = "d2\<lparr>paymentOrders := updateRows (payable e (pay_id order)) (mark_paid e (usr_id p) f) (paymentOrders d2)\<rparr>"
  have frame: "\<exists>t. d2 = d\<lparr>dailyLimitUsages := t\<rparr>"
    using checkMerchantDailyLimit_frame [OF l1] checkAndIncrementDailyLimit_frame [OF l2] by auto
  then have kept: "books_kept d ?d3" and po: "paymentOrders d2 = paymentOrders d" and acc: "accounts d2 = accounts d"
    by (auto simp: books_kept_def same_holdings_def ledgers_ok_def)
  note bounds = payment_fee_bounds [OF fee]
  note mi = cashier_move_Inr [OF mv books_kept_money_ok [OF kept inv] _ _ _ bounds(2) [folded f_def]]
  have n0: "0 \<le> pay_amount order" using fee by (simp add: fee_inputs_def)
  show "paid (usr_id p) (mch_user m) n (n - f) d d'"
    using mi(1) pa ma n0 paid_before [OF kept] by (simp add: acc n_def)
  show "r = mark_paid e (usr_id p) f order" using mi(2) pa ma n0 by (simp add: acc)
  show "paymentOrders d' = updateRows (payable e (pay_id order)) (mark_paid e (usr_id p) f) (paymentOrders d)"
    using mi(3) pa ma n0 by (simp add: acc po)
  show "\<exists>s \<in> set (paymentOrders d). payable e (pay_id order) s"
    using hit by (auto simp: po filter_empty_conv)
qed

interpretation cashier: payment_service
  "\<lambda>(e :: env, p :: User, m, mu :: User, order). fee_inputs (pay_amount order) (mch_payRate m)"
  "\<lambda>(e, p, m, mu, order). cashier_body e p m mu order" "\<lambda>p r. True"
  "\<lambda>(e, p, m, mu, order). usr_id p" "\<lambda>(e, p, m, mu, order). mch_user m"
  "\<lambda>(e, p, m, mu, order). pay_amount order"
  "\<lambda>(e, p, m, mu, order). pay_amount order - payment_fee (pay_amount order) (mch_payRate m)"
  by unfold_locales (auto simp: cashier_body_Inr(1))


subsection \<open>What a payment request does\<close>

lemma cashier_pay_InrE:
  assumes "cashier_pay pw_ok e u no pw w = (Inr r, w')"
  obtains (replay) "find_payment no (wdb w) = Some r" and "pay_status r = PaymentOrderStatus.PAID"
      and "pay_payer r = Some u" and "w' = w"
    | (fresh) order m p mu evs where "find_payment no (wdb w) = Some order"
      and "merchant_by_id (pay_merchant order) (wdb w) = Some m" and "mch_status m = MerchantStatus.APPROVED"
      and "usr_id p = u" and "cashier_body e p m mu order (wdb w\<lparr>riskEvents := evs\<rparr>) = Inr (r, wdb w')"
proof -
  obtain order where order: "find_payment no (wdb w) = Some order"
    using assms by (auto simp: cashier_pay_def split: option.splits)
  show thesis
  proof (cases "pay_status order = PaymentOrderStatus.PAID \<and> pay_payer order = Some u")
    case True
    with assms order show thesis by (intro replay) (auto simp: cashier_pay_def)
  next
    case False
    then obtain m p mu w1 where m: "merchant_by_id (pay_merchant order) (wdb w) = Some m"
      and st: "mch_status m = MerchantStatus.APPROVED" and p: "find_user u (wdb w) = Some p"
      and pw: "verifyPayPassword pw_ok (now e) u pw w = (Inr (), w1)"
      and rest: "cashier_checked e p m mu order w1 = (Inr r, w')"
      using assms order by (auto simp: cashier_pay_def split: if_splits option.splits)
    have w1: "wdb w1 = wdb w" using verifyPayPassword_Inr [OF pw] by simp
    let ?ctx = "\<lparr>ctx_user = usr_id p, ctx_type = TransactionType.PAYMENT, ctx_amount = pay_amount order, ctx_ip = None\<rparr>"
    obtain w2 w3 x where rg: "risk_guard (now e) ?ctx w1 = (Inr (), w2)"
      and lk: "withLock (''cashier:pay:'' @ pay_orderNo order @ '':'' @ usr_id p)
          (transaction (cashier_body e p m mu order)) w2 = (Inr x, w3)"
      and rq: "record_quietly (now e) (uuid e 3) ?ctx x w3 = (Inr r, w')"
      using rest unfolding cashier_checked_def Let_def andThen_Inr by auto
    obtain evs where evs: "wdb w2 = wdb w\<lparr>riskEvents := evs\<rparr>" using risk_guard_Inr [OF rg] w1 by auto
    have w3: "x = r" "wdb w' = wdb w3"
      using rq record_quietly_db [of "now e" "uuid e 3" ?ctx x w3] by auto
    obtain w4 w5 where "wdb w4 = wdb w2" "transaction (cashier_body e p m mu order) w4 = (Inr x, w5)" "wdb w3 = wdb w5"
      using lk by (rule withLock_InrE)
    then have "cashier_body e p m mu order (wdb w\<lparr>riskEvents := evs\<rparr>) = Inr (r, wdb w')"
      using w3 evs by auto
    moreover have "usr_id p = u" using p by (auto simp: find_user_def dest: findUnique_SomeD)
    ultimately show thesis using fresh order m st by blast
  qed
qed

lemma keeps_cashier_pay:
  assumes inv: "P (wdb w)" and ev: "ignores_events P"
    and body: "\<And>p m mu order d r d'. find_payment no (wdb w) = Some order \<Longrightarrow>
      merchant_by_id (pay_merchant order) (wdb w) = Some m \<Longrightarrow>
      cashier_body e p m mu order d = Inr (r, d') \<Longrightarrow> P d \<Longrightarrow> usr_id p = u \<Longrightarrow> P d'"
  shows "keeps P (cashier_pay pw_ok e u no pw w)"
  unfolding cashier_pay_def cashier_checked_def Let_def
  by (intro keep ev inv) (auto intro: body simp: find_user_def dest: findUnique_SomeD)


text \<open>
  What the merchants service and \<open>createOrder\<close> establish: rates in basis points between 0 and 10000,
  amounts that fit their column, and unique identifiers.
\<close>

definition payments_ok :: "db \<Rightarrow> bool" where
  "payments_ok d = (distinct (map pay_id (paymentOrders d)) \<and>
     list_all (\<lambda>r. 0 \<le> pay_amount r \<and> pay_amount r \<le> 2147483647) (paymentOrders d) \<and>
     list_all (\<lambda>m. 0 \<le> mch_payRate m \<and> mch_payRate m \<le> 10000) (merchants d))"

lemma payments_ok_fee:
  "payments_ok d \<Longrightarrow> find_payment no d = Some order \<Longrightarrow> merchant_by_id i d = Some m \<Longrightarrow>
     fee_inputs (pay_amount order) (mch_payRate m)"
  by (auto simp: payments_ok_def list_all_iff find_payment_def merchant_by_id_def fee_inputs_def
      dest!: findUnique_SomeD)

lemma cashier_pay_money_ok:
  "money_ok (wdb w) \<Longrightarrow> payments_ok (wdb w) \<Longrightarrow> keeps money_ok (cashier_pay pw_ok e u no pw w)"
  using cashier.keeps_money [where p = "(e, p, m, mu, order)" for p m mu order, simplified]
  by (intro keeps_cashier_pay) (blast intro: keep payments_ok_fee)+

text \<open>The payment finds the row it was asked for, still open.\<close>

lemma paid_row:
  assumes ids: "distinct (map pay_id t)" and found: "findUnique (\<lambda>r. pay_orderNo r = no) t = Some order"
    and hit: "s \<in> set t" "payable e (pay_id order) s"
  shows "payable e (pay_id order) order"
    and "findUnique (\<lambda>r. pay_orderNo r = no) (updateRows (payable e (pay_id order)) (mark_paid e u f) t) =
      Some (mark_paid e u f order)"
proof -
  have "s = order" using distinct_key_unique [OF ids hit(1), of order] found hit(2)
    by (auto simp: payable_def dest: findUnique_in)
  then show p: "payable e (pay_id order) order" using hit(2) by simp
  show "findUnique (\<lambda>r. pay_orderNo r = no) (updateRows (payable e (pay_id order)) (mark_paid e u f) t) =
      Some (mark_paid e u f order)"
    by (simp add: findUnique_updateRows found p)
qed

definition sample_merchant :: Merchant where
  "sample_merchant = \<lparr>mch_id = ''M1'', mch_user = ''bob'', mch_no = ''M-1'', mch_type = MerchantType.PERSONAL,
     mch_settleAccount = None, mch_rejectReason = None, mch_reviewedBy = None, mch_reviewedAt = None, mch_status = MerchantStatus.APPROVED, mch_payRate = 60,
     mch_withdrawRate = None, mch_dailyLimit = 100000\<rparr>"

definition sample_payment :: "PaymentOrderStatus \<Rightarrow> PaymentOrder" where
  "sample_payment st = \<lparr>pay_id = ''O1'', pay_orderNo = ''P-1'', pay_merchant = ''M1'', pay_merchantOrderNo = ''m-1'',
     pay_app = None, pay_amount = 2000, pay_fee = 0, pay_status = st, pay_payer = None, pay_paidAt = None,
     pay_expiredAt = Some 1000, pay_callbackUrl = Some ''https://shop.example/cb'',
     pay_notifyStatus = NotifyStatus.PENDING, pay_notifyCount = 0, pay_refundAmount = 0, pay_refundedAt = None,
     pay_refundedBy = None, pay_settledAt = None\<rparr>"

definition shop_world :: "PaymentOrderStatus \<Rightarrow> world" where
  "shop_world st = sample_world\<lparr>wdb := sample_db\<lparr>merchants := [sample_merchant], paymentOrders := [sample_payment st]\<rparr>\<rparr>"

lemma shop_money_ok: "money_ok (wdb (shop_world st))"
  by (rule books_kept_money_ok [OF _ sample_money_ok])
    (simp add: shop_world_def books_kept_def same_holdings_def ledgers_ok_def)

lemma shop_payments_ok: "payments_ok (wdb (shop_world st))"
  by (simp add: shop_world_def payments_ok_def sample_merchant_def sample_payment_def)

lemma shop_payment_runs:
  "isl (fst (cashier_pay (\<lambda>_ _. True) sample_env ''alice'' ''P-1'' ''pw'' (shop_world PaymentOrderStatus.PENDING))) = False"
  by code_simp

text \<open>
  C16. A payment at the cashier that succeeds is either the answer to a repeated request of the same
  payer, and nothing changes; or the order was open and not expired, it is marked as paid by this user with a
  fee of the merchant's rate, rounded half up, the payer's available balance goes down by the amount and the
  merchant's goes up at once by the amount less the fee, and no other balance moves. (The merchants' guide says that
  a payment enters the frozen balance and becomes available with the next day's settlement; the code does not.)
\<close>

theorem cashier_payment_settles:
  assumes "cashier_pay pw_ok e u no pw w = (Inr r, w')" and "money_ok (wdb w)" and "payments_ok (wdb w)"
  shows "pay_payer r = Some u \<and> pay_status r = PaymentOrderStatus.PAID \<and>
    (w' = w \<or>
     (\<exists>order m. find_payment no (wdb w) = Some order \<and> merchant_by_id (pay_merchant order) (wdb w) = Some m \<and>
        mch_status m = MerchantStatus.APPROVED \<and> payable e (pay_id order) order \<and>
        pay_fee r = (pay_amount order * mch_payRate m + 5000) div 10000 \<and> 0 \<le> pay_fee r \<and> pay_fee r \<le> pay_amount order \<and>
        find_payment no (wdb w') = Some r \<and>
        (\<forall>v. available_of v (accounts (wdb w')) = available_of v (accounts (wdb w)) +
           (if v = mch_user m then pay_amount order - pay_fee r else 0) - (if v = u then pay_amount order else 0)) \<and>
        (\<forall>v. frozen_of v (accounts (wdb w')) = frozen_of v (accounts (wdb w)))))"
  using assms(1)
proof (cases rule: cashier_pay_InrE)
  case (fresh order m p mu evs)
  let ?d = "wdb w\<lparr>riskEvents := evs\<rparr>"
  have inv: "money_ok ?d" using ignores_eventsD [OF money_ok_events assms(2)] .
  have fee: "fee_inputs (pay_amount order) (mch_payRate m)" using payments_ok_fee [OF assms(3) fresh(1,2)] .
  note run = cashier_body_Inr [OF fresh(5) inv fee]
  note bal = paid_balances [OF run(1) money_okD(1) [OF inv]]
  obtain s where s: "s \<in> set (paymentOrders (wdb w))" "payable e (pay_id order) s" using run(4) by auto
  have "distinct (map pay_id (paymentOrders (wdb w)))" using assms(3) by (simp add: payments_ok_def)
  note row = paid_row [OF this fresh(1) [unfolded find_payment_def] s]
  have "find_payment no (wdb w') = Some r"
    using row(2) run(2,3) by (simp add: find_payment_def)
  with row(1) fresh fee show ?thesis
    by (simp add: run(2) bal payment_fee_eq [symmetric] payment_fee_bounds)
qed simp


theorem cashier_payment_settles_witness:
  "\<exists>r w'. cashier_pay (\<lambda>_ _. True) sample_env ''alice'' ''P-1'' ''pw'' (shop_world PaymentOrderStatus.PENDING) = (Inr r, w') \<and>
     pay_payer r = Some ''alice'' \<and> (w' = shop_world PaymentOrderStatus.PENDING \<or> pay_fee r = 12)"
proof -
  obtain r w' where run: "cashier_pay (\<lambda>_ _. True) sample_env ''alice'' ''P-1'' ''pw''
      (shop_world PaymentOrderStatus.PENDING) = (Inr r, w')"
    using not_isl_fst [OF shop_payment_runs] by blast
  from cashier_payment_settles [OF this shop_money_ok shop_payments_ok] run show ?thesis
    by (auto simp: shop_world_def sample_payment_def sample_merchant_def find_payment_def merchant_by_id_def)
qed

text \<open>
  An order that is no longer open is never charged: whoever asks to pay it, no balance
  moves and the order stays as it is.
\<close>

theorem closed_order_never_charged:
  assumes "find_payment no (wdb w) = Some order" and "pay_status order \<noteq> PaymentOrderStatus.PENDING"
    and "money_ok (wdb w)" and "payments_ok (wdb w)"
  shows "accounts (wdb (snd (cashier_pay pw_ok e u no pw w))) = accounts (wdb w) \<and>
    find_payment no (wdb (snd (cashier_pay pw_ok e u no pw w))) = Some order"
proof -
  let ?P = "\<lambda>d. accounts d = accounts (wdb w) \<and> paymentOrders d = paymentOrders (wdb w)"
  have "keeps ?P (cashier_pay pw_ok e u no pw w)"
  proof (rule keeps_cashier_pay)
    fix p m mu order' d r d'
    assume "find_payment no (wdb w) = Some order'" and P: "?P d"
      and "cashier_body e p m mu order' d = Inr (r, d')"
    then have "\<exists>s \<in> set (paymentOrders d). payable e (pay_id order) s"
      using assms(1) by (fastforce simp: cashier_body_def Let_def payable_def filter_empty_conv
          dest!: checkMerchantDailyLimit_frame checkAndIncrementDailyLimit_frame)
    moreover have "s = order" if "s \<in> set (paymentOrders d)" "payable e (pay_id order) s" for s
      using assms(1,4) that P distinct_key_unique [of pay_id "paymentOrders d" s order]
      by (auto simp: payments_ok_def find_payment_def payable_def dest: findUnique_in)
    ultimately show "?P d'" using assms(2) by (auto simp: payable_def)
  qed (auto simp: ignores_events_def)
  with assms(1) show ?thesis by (simp add: keeps_def find_payment_def)
qed

theorem closed_order_never_charged_witness:
  "accounts (wdb (snd (cashier_pay (\<lambda>_ _. True) sample_env ''alice'' ''P-1'' ''pw'' (shop_world PaymentOrderStatus.CLOSED)))) =
     accounts sample_db"
proof -
  have "find_payment ''P-1'' (wdb (shop_world PaymentOrderStatus.CLOSED)) = Some (sample_payment PaymentOrderStatus.CLOSED)"
    by (simp add: shop_world_def find_payment_def sample_payment_def)
  from closed_order_never_charged [OF this _ shop_money_ok shop_payments_ok]
  show ?thesis by (simp add: sample_payment_def shop_world_def)
qed


subsection \<open>Notifications\<close>

lemma deliver_result:
  assumes "deliver accepted i n = (ok, k)"
  shows "k \<le> i + n" and "ok \<Longrightarrow> i < k \<and> accepted (k - 1)" and "\<not> ok \<Longrightarrow> k = i + n"
    and "i \<le> j \<Longrightarrow> j < (if ok then k - 1 else k) \<Longrightarrow> \<not> accepted j"
  using assms
proof (induction n arbitrary: i)
  case (Suc n)
  {
    case 1
    with Suc.IH(1) [of "Suc i"] show ?case by (auto split: if_splits)
  next
    case 2
    with Suc.IH(2) [of "Suc i"] show ?case by (auto split: if_splits)
  next
    case 3
    with Suc.IH(3) [of "Suc i"] show ?case by (auto split: if_splits)
  next
    case 4
    with Suc.IH(4) [of "Suc i"] show ?case by (cases "j = i") (auto split: if_splits)
  }
qed auto

lemma set_notify_Inr:
  "set_notify i st n d = Inr (x, d') \<Longrightarrow> x = (st, n) \<and> books_kept d d'"
  by (auto simp: set_notify_def books_kept_def same_holdings_def ledgers_ok_def)

lemma keeps_set_notify [keep]: "money_ok (wdb w) \<Longrightarrow> keeps money_ok (transaction (set_notify i st n) w)"
  by (intro keep) (auto dest: set_notify_Inr intro: books_kept_money_ok)

lemma keeps_notifyMerchant [keep]:
  "money_ok (wdb w) \<Longrightarrow> keeps money_ok (notifyMerchant check hmac post order w)"
  unfolding notifyMerchant_def
  by (intro keep) (auto intro!: keeps_set_notify keep dest: set_notify_Inr intro: books_kept_money_ok split: prod.split)

lemma notifyMerchant_sent:
  assumes run: "notifyMerchant check hmac post order w = (Inr (st, n), w')" and url: "truthy (pay_callbackUrl order)"
    and new: "\<not> notified (payment_by_id (pay_id order) (wdb w))" and safe: "check (the (pay_callbackUrl order)) = Safe"
  obtains ok k where "deliver (deliveries hmac post order (wdb w)) 0 MAX_CALLBACK_RETRIES = (ok, k)"
    and "st = (if ok then NotifyStatus.SUCCESS else NotifyStatus.FAILED)" and "n = int k"
proof -
  let ?f = "\<lambda>w. case deliver (deliveries hmac post order (wdb w)) 0 MAX_CALLBACK_RETRIES of
      (success, attempts) \<Rightarrow> transaction (set_notify (pay_id order)
        (if success then NotifyStatus.SUCCESS else NotifyStatus.FAILED) (int attempts)) w"
  obtain w1 w2 where w1: "wdb w1 = wdb w" and "?f w1 = (Inr (st, n), w2)"
    using run url by (auto simp: notifyMerchant_def elim!: withLock_InrE) (use new safe in \<open>auto split: if_splits\<close>)
  with that show thesis
    by (cases "deliver (deliveries hmac post order (wdb w)) 0 MAX_CALLBACK_RETRIES") (auto dest: set_notify_Inr)
qed

text \<open>
  A notification makes at least one and at most five attempts: it stops at the first one the merchant
  accepts and records success with that count; only when all five failed is the order recorded as failed.
\<close>

theorem notification_stops_at_first_success:
  assumes "notifyMerchant check hmac post order w = (Inr (st, n), w')" and "truthy (pay_callbackUrl order)"
    and "\<not> notified (payment_by_id (pay_id order) (wdb w))" and "check (the (pay_callbackUrl order)) = Safe"
  shows "1 \<le> n \<and> n \<le> 5 \<and> (\<forall>i. int i < n - 1 \<longrightarrow> \<not> deliveries hmac post order (wdb w) i) \<and>
    (st = NotifyStatus.SUCCESS \<and> deliveries hmac post order (wdb w) (nat n - 1) \<or>
     st = NotifyStatus.FAILED \<and> n = 5 \<and> \<not> deliveries hmac post order (wdb w) 4)"
proof -
  obtain ok k where run: "deliver (deliveries hmac post order (wdb w)) 0 MAX_CALLBACK_RETRIES = (ok, k)"
    and st: "st = (if ok then NotifyStatus.SUCCESS else NotifyStatus.FAILED)" and n: "n = int k"
    using notifyMerchant_sent [OF assms] .
  note res = deliver_result [OF run]
  have none: "\<not> deliveries hmac post order (wdb w) i" if "int i < n - 1" for i
  proof -
    have "i < k - 1" using that n by linarith
    with res(4) [of i] show ?thesis by (cases ok) simp_all
  qed
  show ?thesis using res(1-3) res(4) [of 4] none
    by (cases ok) (auto simp: st n MAX_CALLBACK_RETRIES_def)
qed

theorem notification_stops_at_first_success_witness:
  "\<exists>st n w'. notifyMerchant (\<lambda>_. Safe) (\<lambda>_ _. []) (\<lambda>_ _ _ i. i = 2) (sample_payment PaymentOrderStatus.PAID)
      (shop_world PaymentOrderStatus.PAID) = (Inr (st, n), w') \<and>
     (st = NotifyStatus.SUCCESS \<and> nat n - 1 = 2 \<or> st = NotifyStatus.FAILED \<and> n = 5)"
proof -
  have "isl (fst (notifyMerchant (\<lambda>_. Safe) (\<lambda>_ _. []) (\<lambda>_ _ _ i. i = 2) (sample_payment PaymentOrderStatus.PAID)
      (shop_world PaymentOrderStatus.PAID))) = False" by code_simp
  then obtain st n w' where run: "notifyMerchant (\<lambda>_. Safe) (\<lambda>_ _. []) (\<lambda>_ _ _ i. i = 2)
      (sample_payment PaymentOrderStatus.PAID) (shop_world PaymentOrderStatus.PAID) = (Inr (st, n), w')"
    using not_isl_fst by (metis surj_pair)
  have "\<not> notified (payment_by_id (pay_id (sample_payment PaymentOrderStatus.PAID)) (wdb (shop_world PaymentOrderStatus.PAID)))"
    by code_simp
  from notification_stops_at_first_success [OF run _ this] run show ?thesis
    by (auto simp: sample_payment_def truthy_def deliveries_def)
qed

subsection \<open>The other requests keep the books\<close>

lemma payment_table_kept: "books_kept d (d\<lparr>paymentOrders := t\<rparr>)"
  by (simp add: books_kept_def same_holdings_def ledgers_ok_def)

lemma insert_payment_Inr:
  assumes "insert_payment order d = Inr (r, d')"
  obtains (existed) "d' = d"
    | (new) "d' = d\<lparr>paymentOrders := paymentOrders d @ [order]\<rparr>" and "r = order"
      and "\<And>s. s \<in> set (paymentOrders d) \<Longrightarrow> \<not> pay_conflict order s"
proof (cases "create P2002 pay_conflict order (paymentOrders d)")
  case (Inl err)
  then show thesis using assms by (intro existed) (simp add: insert_payment_def split: option.splits)
next
  case (Inr t)
  then have "insert_payment order d = Inr (order, d\<lparr>paymentOrders := t\<rparr>)" by (simp only: insert_payment_def sum.case)
  with Inr assms show thesis by (intro new) auto
qed

lemma cashier_createOrder_Inr:
  assumes "cashier_createOrder check e u dto d = Inr (r, d')"
  shows "\<exists>order. insert_payment order d = Inr (r, d') \<and> 0 \<le> pay_amount order \<and> pay_amount order \<le> 2147483647"
  using assms unfolding cashier_createOrder_def Let_def
  by (clarsimp simp: fen_Inr int32_def) (rule exI, rule conjI, assumption, simp add: yuanToFen_nonneg)

lemma cashier_createOrder_money_ok:
  assumes "cashier_createOrder check e u dto d = Inr (r, d')" and "money_ok d"
  shows "money_ok d'"
proof -
  obtain order where "insert_payment order d = Inr (r, d')" using cashier_createOrder_Inr [OF assms(1)] by blast
  then show ?thesis using assms(2) by (cases rule: insert_payment_Inr) (auto intro: books_kept_money_ok [OF payment_table_kept])
qed

lemma retryNotify_money_ok:
  "money_ok (wdb w) \<Longrightarrow> keeps money_ok (retryNotify check hmac post u no w)"
  unfolding retryNotify_def by (intro keep) simp_all

lemma notify_all_money_ok: "money_ok (wdb w) \<Longrightarrow> money_ok (wdb (notify_all check hmac post rs w))"
proof (induction rs arbitrary: w)
  case (Cons r rs)
  from keeps_notifyMerchant [OF Cons.prems, of check hmac post r] show ?case
    by (intro Cons.IH [of "snd (notifyMerchant check hmac post r w)", folded notify_all.simps(2)])
      (simp add: keeps_def)
qed simp

lemma closeExpiredOrders_money_ok:
  "money_ok (wdb w) \<Longrightarrow> money_ok (wdb (closeExpiredOrders check hmac post t w))"
  unfolding closeExpiredOrders_def retryStaleNotifications_def
  by (intro notify_all_money_ok) (simp add: books_kept_money_ok [OF payment_table_kept])

lemma cashier_createOrder_payments_ok:
  assumes "cashier_createOrder check e u dto d = Inr (r, d')" and "payments_ok d"
  shows "payments_ok d'"
proof -
  obtain order where run: "insert_payment order d = Inr (r, d')"
    and n: "0 \<le> pay_amount order" "pay_amount order \<le> 2147483647"
    using cashier_createOrder_Inr [OF assms(1)] by blast
  from run show ?thesis using assms(2) n
    by (cases rule: insert_payment_Inr) (auto simp: payments_ok_def pay_conflict_def)
qed

end
