(* ===== verification/BatchTransfers.thy ===== *)
theory BatchTransfers
  imports Payments
begin

text \<open>
  Batch transfers (batch-transfers/batch-transfers.service.ts and its schedule): the whole amount is
  frozen first, each item is then paid out of the frozen balance in a transaction of its own, and what
  could not be paid is released at the end. A batch that a crash interrupts is resumed by a job, or
  cancelled by its owner.

  The lemmas follow the frozen money of one batch through these steps: \<open>money_ok_but u x\<close> says that the
  books are in order except that \<open>x\<close> more is frozen for \<open>u\<close> than open orders account for.
\<close>

subsection \<open>Opening a batch\<close>

record BatchItemDto =
  bd_toUser :: string
  bd_amount :: jsnum

record BatchDto =
  bd_items :: "BatchItemDto list"
  bd_idem :: "string option"

type_synonym batch = "BatchTransfer \<times> BatchTransferItem list"

definition find_batch :: "string \<Rightarrow> db \<Rightarrow> BatchTransfer option" where
  "find_batch i d = findUnique (\<lambda>r. bt_id r = i) (batchTransfers d)"

definition find_batch_no :: "string \<Rightarrow> db \<Rightarrow> BatchTransfer option" where
  "find_batch_no no d = findUnique (\<lambda>r. bt_batchNo r = no) (batchTransfers d)"

definition find_batch_idem :: "string \<Rightarrow> db \<Rightarrow> BatchTransfer option" where
  "find_batch_idem k d = findUnique (\<lambda>r. bt_idem r = Some k) (batchTransfers d)"

definition find_item :: "string \<Rightarrow> db \<Rightarrow> BatchTransferItem option" where
  "find_item i d = findUnique (\<lambda>r. bti_id r = i) (batchTransferItems d)"

definition items_of :: "string \<Rightarrow> db \<Rightarrow> BatchTransferItem list" where
  "items_of i d = filter (\<lambda>r. bti_batch r = i) (batchTransferItems d)"

definition bt_conflict :: "BatchTransfer \<Rightarrow> BatchTransfer \<Rightarrow> bool" where
  "bt_conflict r s = (bt_id r = bt_id s \<or> bt_batchNo r = bt_batchNo s \<or>
     (bt_idem r \<noteq> None \<and> bt_idem r = bt_idem s))"

definition bti_conflict :: "BatchTransferItem \<Rightarrow> BatchTransferItem \<Rightarrow> bool" where
  "bti_conflict r s = (bti_id r = bti_id s)"

primrec create_items :: "BatchTransferItem list \<Rightarrow> BatchTransferItem list \<Rightarrow> exn + BatchTransferItem list" where
  "create_items [] t = Inr t"
| "create_items (r # rs) t = bindE (create P2002 bti_conflict r t) (create_items rs)"

text \<open>The sum over the items; an amount that is not a number throws.\<close>

primrec batch_amounts :: "BatchItemDto list \<Rightarrow> exn + int list" where
  "batch_amounts [] = Inr []"
| "batch_amounts (i # is) = bindE (fen (bd_amount i)) (\<lambda>n. bindE (batch_amounts is) (\<lambda>ns. Inr (n # ns)))"

fun batch_rows :: "env \<Rightarrow> string \<Rightarrow> nat \<Rightarrow> (BatchItemDto \<times> int) list \<Rightarrow> BatchTransferItem list" where
  "batch_rows e b j [] = []"
| "batch_rows e b j ((i, n) # is) =
     \<lparr>bti_id = uuid e (3 + j), bti_batch = b, bti_toUser = bd_toUser i, bti_amount = n,
      bti_status = BatchItemStatus.PENDING, bti_transaction = None\<rparr> # batch_rows e b (Suc j) is"

text \<open>A placeholder order of the batch: the frozen amount, or what is given back.\<close>

definition batch_order ::
  "env \<Rightarrow> nat \<Rightarrow> nat \<Rightarrow> TransactionType \<Rightarrow> string \<Rightarrow> string option \<Rightarrow> int \<Rightarrow> Remark \<Rightarrow> TransactionOrder" where
  "batch_order e i j ty fu tu amount remark =
     \<lparr>tx_id = uuid e i, tx_orderNo = generateOrderNo e j ''T'', tx_type = ty,
      tx_status = TransactionStatus.SUCCESS, tx_amount = amount, tx_fee = 0, tx_from = Some fu, tx_to = tu,
      tx_remark = remark, tx_related = None, tx_idem = None, tx_channel = None, tx_channelOrderNo = None,
      tx_createdAt = now e, tx_completedAt = Some (now e)\<rparr>"

text \<open>The rows of a new batch, once its amount is frozen.\<close>

definition open_rows ::
  "env \<Rightarrow> string \<Rightarrow> BatchDto \<Rightarrow> int list \<Rightarrow> Account \<Rightarrow> db \<Rightarrow> exn + (batch \<times> db)" where
  "open_rows e senderId dto amounts senderAccount d1 =
     (let totalAmount = sum_list amounts; batchNo = generateOrderNo e 0 ''BT'';
          created = \<lparr>bt_id = uuid e 2, bt_batchNo = batchNo, bt_sender = senderId,
            bt_totalCount = length (bd_items dto), bt_successCount = 0, bt_failedCount = 0,
            bt_totalAmount = totalAmount, bt_status = BatchTransferStatus.PENDING, bt_idem = bd_idem dto\<rparr>;
          rows = batch_rows e (uuid e 2) 0 (zip (bd_items dto) amounts)
      in bindE (createOrder (batch_order e 1 1 TransactionType.TRANSFER senderId None totalAmount
                  (BatchFreezeRemark batchNo)) d1) (\<lambda>d2.
         bindE (create P2002 bt_conflict created (batchTransfers d2)) (\<lambda>bs.
         bindE (create_items rows (batchTransferItems d2)) (\<lambda>is.
         or_throw (account_by_id (acc_id senderAccount) (accounts d2)) TypeError (\<lambda>updated.
           let after = availableBalance updated;
               d3 = add_ledger \<lparr>led_account = acc_id senderAccount, led_transaction = uuid e 1,
                      led_type = LedgerType.BATCH_TRANSFER, led_amount = totalAmount,
                      led_before = after + totalAmount, led_after = after, led_direction = CREDIT\<rparr>
                    (d2\<lparr>batchTransfers := bs, batchTransferItems := is\<rparr>)
           in bindE (updateMany IntOutOfRange (\<lambda>_. True)
                  (\<lambda>r. bt_id r = uuid e 2 \<and> bt_status r = BatchTransferStatus.PENDING)
                  (\<lambda>r. r\<lparr>bt_status := BatchTransferStatus.PROCESSING\<rparr>) bs) (\<lambda>(count, bs').
              throw_if (count = 0) (BadRequest BATCH_TRANSFER_NOT_CANCELLABLE)
             (let d4 = d3\<lparr>batchTransfers := bs'\<rparr>;
                  d5 = (if LARGE_BATCH_TRANSFER_THRESHOLD_CENTS < totalAmount
                        then add_event senderId LARGE_TRANSFER MEDIUM d4 else d4)
              in or_throw (find_batch (uuid e 2) d5) TypeError (\<lambda>b.
                   Inr ((b, items_of (uuid e 2) d5), d5)))))))))"

definition open_new :: "env \<Rightarrow> string \<Rightarrow> BatchDto \<Rightarrow> int list \<Rightarrow> db \<Rightarrow> exn + (batch \<times> db)" where
  "open_new e senderId dto amounts d =
     (let totalAmount = sum_list amounts in
      bindE (checkAndIncrementDailyLimit (uuid e 0) senderId ''BATCH_TRANSFER'' (utc_day (now e)) totalAmount
               (config_limit ''batch_transfer_daily_limit'' DEFAULT_BATCH_TRANSFER_DAILY_LIMIT_CENTS d) d) (\<lambda>d.
        or_throw (account_of senderId (accounts d)) (NotFound ACCOUNT_NOT_FOUND) (\<lambda>senderAccount.
          throw_if (acc_status senderAccount \<noteq> AccountStatus.ACTIVE) (Forbidden FORBIDDEN)
            (guarded acc_freeze (BadRequest INSUFFICIENT_BALANCE) (acc_id senderAccount) totalAmount d
               (open_rows e senderId dto amounts senderAccount)))))"

definition open_batch :: "env \<Rightarrow> string \<Rightarrow> BatchDto \<Rightarrow> int list \<Rightarrow> db \<Rightarrow> exn + (batch \<times> db)" where
  "open_batch e senderId dto amounts d =
     (case (if truthy (bd_idem dto) then find_batch_idem (the (bd_idem dto)) d else None) of
        Some existing \<Rightarrow>
          throw_if (bt_sender existing \<noteq> senderId) (BadRequest IDEMPOTENCY_KEY_CONFLICT)
            (Inr ((existing, items_of (bt_id existing) d), d))
      | None \<Rightarrow> open_new e senderId dto amounts d)"

subsection \<open>Processing the items\<close>

text \<open>\<open>markItemFailed\<close>; the reason is text for display.\<close>

definition markItemFailed :: "string \<Rightarrow> db \<Rightarrow> db" where
  "markItemFailed i d = d\<lparr>batchTransferItems :=
     updateRows (\<lambda>r. bti_id r = i \<and> bti_status r = BatchItemStatus.PENDING)
       (\<lambda>r. r\<lparr>bti_status := BatchItemStatus.FAILED\<rparr>) (batchTransferItems d)\<rparr>"

definition markItemPaid :: "string \<Rightarrow> string \<Rightarrow> db \<Rightarrow> db" where
  "markItemPaid i tx d = d\<lparr>batchTransferItems :=
     updateRows (\<lambda>r. bti_id r = i \<and> bti_status r = BatchItemStatus.PENDING)
       (\<lambda>r. r\<lparr>bti_status := BatchItemStatus.SUCCESS, bti_transaction := Some tx\<rparr>) (batchTransferItems d)\<rparr>"

text \<open>The rows of a paid item, after both balances have moved; \<open>j\<close> numbers the orders made in one request.\<close>

definition item_rows ::
  "env \<Rightarrow> nat \<Rightarrow> string \<Rightarrow> BatchTransferItem \<Rightarrow> User \<Rightarrow> Account \<Rightarrow> Account \<Rightarrow> int \<Rightarrow> db \<Rightarrow> exn + (bool \<times> db)" where
  "item_rows e j senderId item toUser senderAccount toAccount receiverAfter d =
     (let amount = bti_amount item; orderId = uuid e (3 + j) in
      bindE (createOrder (batch_order e (3 + j) (2 + j) TransactionType.TRANSFER senderId (Some (bti_toUser item))
               amount BatchItemRemark) d) (\<lambda>d1.
        or_throw (account_by_id (acc_id senderAccount) (accounts d1)) TypeError (\<lambda>updatedSender.
          let d2 = add_ledger \<lparr>led_account = acc_id senderAccount, led_transaction = orderId,
                     led_type = LedgerType.BATCH_TRANSFER, led_amount = amount,
                     led_before = frozenBalance updatedSender + amount, led_after = frozenBalance updatedSender,
                     led_direction = CREDIT\<rparr> d1;
              d3 = add_ledger \<lparr>led_account = acc_id toAccount, led_transaction = orderId,
                     led_type = LedgerType.BATCH_TRANSFER, led_amount = amount,
                     led_before = receiverAfter - amount, led_after = receiverAfter, led_direction = DEBIT\<rparr> d2;
              d4 = add_bill \<lparr>bill_user = senderId, bill_transaction = orderId, bill_type = BillType.TRANSFER,
                     bill_direction = EXPENSE, bill_amount = amount,
                     bill_counterparty = Some (usr_nickname toUser)\<rparr> d3;
              d5 = add_bill \<lparr>bill_user = bti_toUser item, bill_transaction = orderId, bill_type = RECEIPT,
                     bill_direction = INCOME, bill_amount = amount,
                     bill_counterparty = Some (case find_user senderId d4 of None \<Rightarrow> [] | Some u \<Rightarrow> usr_nickname u)\<rparr> d4
          in Inr (True, markItemPaid (bti_id item) orderId d5))))"

definition item_body :: "env \<Rightarrow> nat \<Rightarrow> string \<Rightarrow> string \<Rightarrow> db \<Rightarrow> exn + (bool \<times> db)" where
  "item_body e j itemId senderId d =
     (case find_item itemId d of
        None \<Rightarrow> Inr (False, d)
      | Some item \<Rightarrow>
          if bti_status item \<noteq> BatchItemStatus.PENDING then Inr (False, d)
          else (case find_user (bti_toUser item) d of
            None \<Rightarrow> Inr (False, markItemFailed itemId d)
          | Some toUser \<Rightarrow>
              if \<not> verified toUser then Inr (False, markItemFailed itemId d)
              else if \<not> may_receive toUser then Inr (False, markItemFailed itemId d)
              else (case account_of (bti_toUser item) (accounts d) of
                None \<Rightarrow> Inr (False, markItemFailed itemId d)
              | Some toAccount \<Rightarrow>
                  if acc_status toAccount \<noteq> AccountStatus.ACTIVE then Inr (False, markItemFailed itemId d)
                  else (case account_of senderId (accounts d) of
                    None \<Rightarrow> Inr (False, markItemFailed itemId d)
                  | Some senderAccount \<Rightarrow>
                      bindE (acc_release (acc_id senderAccount) (bti_amount item) (accounts d)) (\<lambda>(count, t).
                        if count = 0 then Inr (False, markItemFailed itemId d)
                        else credit_account (acc_id toAccount) (bti_amount item) (d\<lparr>accounts := t\<rparr>)
                          (\<lambda>updatedReceiver d2. item_rows e j senderId item toUser senderAccount toAccount
                             (availableBalance updatedReceiver) d2))))))"

text \<open>An exception rolls the transaction back; the item is then marked in a statement of its own.\<close>

definition processItem :: "env \<Rightarrow> nat \<Rightarrow> string \<Rightarrow> string \<Rightarrow> db \<Rightarrow> bool \<times> db" where
  "processItem e j itemId senderId d =
     (case item_body e j itemId senderId d of Inr r \<Rightarrow> r | Inl _ \<Rightarrow> (False, markItemFailed itemId d))"

text \<open>The loop over the items, with the counts and the amount that failed.\<close>

fun process_items ::
  "env \<Rightarrow> nat \<Rightarrow> string \<Rightarrow> BatchTransferItem list \<Rightarrow> nat \<times> nat \<times> int \<Rightarrow> db \<Rightarrow> (nat \<times> nat \<times> int) \<times> db" where
  "process_items e j senderId [] acc d = (acc, d)"
| "process_items e j senderId (i # is) (successCount, failedCount, failedTotal) d =
     (case processItem e j (bti_id i) senderId d of
        (True, d') \<Rightarrow> process_items e (Suc j) senderId is (Suc successCount, failedCount, failedTotal) d'
      | (False, d') \<Rightarrow>
          process_items e (Suc j) senderId is (successCount, Suc failedCount, failedTotal + bti_amount i) d')"

subsection \<open>Settling a batch\<close>

text \<open>
  What could not be paid goes back. Without the account, or without that much frozen, nothing
  happens, and nobody is told.
\<close>

definition release_failed :: "env \<Rightarrow> nat \<Rightarrow> string \<Rightarrow> int \<Rightarrow> Remark \<Rightarrow> db \<Rightarrow> exn + db" where
  "release_failed e j senderId amount remark d =
     (case account_of senderId (accounts d) of
        None \<Rightarrow> Inr d
      | Some a \<Rightarrow>
          bindE (acc_unfreeze (acc_id a) amount (accounts d)) (\<lambda>(count, t).
            if count \<noteq> 1 then Inr d
            else or_throw (account_by_id (acc_id a) t) TypeError (\<lambda>updated.
              bindE (createOrder (batch_order e (3 + j) (2 + j) TransactionType.REFUND senderId None amount remark)
                       (d\<lparr>accounts := t\<rparr>)) (\<lambda>d2.
                Inr (add_ledger \<lparr>led_account = acc_id a, led_transaction = uuid e (3 + j),
                  led_type = LedgerType.BATCH_TRANSFER, led_amount = amount,
                  led_before = availableBalance updated - amount, led_after = availableBalance updated,
                  led_direction = DEBIT\<rparr> d2)))))"

definition finish_batch :: "string \<Rightarrow> BatchTransferStatus set \<Rightarrow> BatchTransferStatus \<Rightarrow> nat \<Rightarrow> nat \<Rightarrow> db \<Rightarrow> db" where
  "finish_batch i from to successCount failedCount d = d\<lparr>batchTransfers :=
     updateRows (\<lambda>r. bt_id r = i \<and> bt_status r \<in> from)
       (\<lambda>r. r\<lparr>bt_status := to, bt_successCount := successCount, bt_failedCount := failedCount\<rparr>) (batchTransfers d)\<rparr>"

definition settle_body ::
  "env \<Rightarrow> nat \<Rightarrow> string \<Rightarrow> BatchTransfer \<Rightarrow> nat \<times> nat \<times> int \<Rightarrow> db \<Rightarrow> exn + (batch \<times> db)" where
  "settle_body e j senderId batch counts d =
     (case counts of (successCount, failedCount, failedTotal) \<Rightarrow>
        bindE (if 0 < failedTotal
               then release_failed e j senderId failedTotal (BatchRefundRemark (bt_batchNo batch)) d else Inr d) (\<lambda>d1.
          let d2 = finish_batch (bt_id batch) {BatchTransferStatus.PROCESSING} BatchTransferStatus.COMPLETED
                     successCount failedCount d1
          in or_throw (find_batch (bt_id batch) d2) TypeError (\<lambda>b. Inr ((b, items_of (bt_id batch) d2), d2))))"

definition batch_locked :: "env \<Rightarrow> string \<Rightarrow> BatchDto \<Rightarrow> int list \<Rightarrow> world \<Rightarrow> (exn + batch) \<times> world" where
  "batch_locked e senderId dto amounts w =
     (let n = length (bd_items dto);
          ctx = \<lparr>ctx_user = senderId, ctx_type = TransactionType.TRANSFER, ctx_amount = sum_list amounts,
                 ctx_ip = None\<rparr>
      in andThen (transaction (open_batch e senderId dto amounts) w) (\<lambda>(batch, items) w.
         case process_items e n senderId items (0, 0, 0) (wdb w) of
           (counts, d) \<Rightarrow>
             andThen (transaction (settle_body e (n + length items) senderId batch counts) (w\<lparr>wdb := d\<rparr>)) (\<lambda>final w.
               record_quietly (now e) (uuid e (3 + n + length items + 1)) ctx final w)))"

definition createBatch :: "env \<Rightarrow> string \<Rightarrow> BatchDto \<Rightarrow> world \<Rightarrow> (exn + batch) \<times> world" where
  "createBatch e senderId dto w =
     (if bd_items dto = [] then (Inl (BadRequest BATCH_TRANSFER_EMPTY), w)
      else if MAX_BATCH_TRANSFER_ITEMS < length (bd_items dto) then (Inl (BadRequest BATCH_TRANSFER_TOO_MANY), w)
      else if \<not> distinct (map bd_toUser (bd_items dto)) then (Inl (BadRequest BATCH_TRANSFER_ITEM_DUPLICATED), w)
      else if senderId \<in> set (map bd_toUser (bd_items dto)) then (Inl (BadRequest TRANSFER_TO_SELF), w)
      else if list_ex (\<lambda>i. amount_le0 (bd_amount i)) (bd_items dto) then (Inl (BadRequest BATCH_TRANSFER_ITEM_INVALID), w)
      else case find_user senderId (wdb w) of
        None \<Rightarrow> (Inl (NotFound USER_NOT_FOUND), w)
      | Some sender \<Rightarrow>
          if \<not> verified sender then (Inl (Forbidden REAL_NAME_REQUIRED), w)
          else if \<not> may_spend sender then (Inl (Forbidden FORBIDDEN), w)
          else if usr_risk sender = HIGH then (Inl (Forbidden FORBIDDEN), w)
          else andThen (batch_amounts (bd_items dto), w) (\<lambda>amounts w.
            let ctx = \<lparr>ctx_user = senderId, ctx_type = TransactionType.TRANSFER, ctx_amount = sum_list amounts,
                       ctx_ip = None\<rparr>
            in andThen (risk_guard (now e) ctx w) (\<lambda>_ w.
               withLock (key_or ''batch-transfer:idem:'' (bd_idem dto) (''batch-transfer:user:'' @ senderId))
                 (batch_locked e senderId dto amounts) w)))"

subsection \<open>Recovery after a crash\<close>

text \<open>The refund of the recovery runs statement by statement, without a transaction around it.\<close>

definition resume_refund :: "env \<Rightarrow> nat \<Rightarrow> BatchTransfer \<Rightarrow> int \<Rightarrow> db \<Rightarrow> (exn + unit) \<times> db" where
  "resume_refund e j batch amount d =
     (case account_of (bt_sender batch) (accounts d) of
        None \<Rightarrow> (Inr (), d)
      | Some a \<Rightarrow>
          (case acc_unfreeze (acc_id a) amount (accounts d) of
             Inl err \<Rightarrow> (Inl err, d)
           | Inr (count, t) \<Rightarrow>
               if count \<noteq> 1 then (Inr (), d)
               else (case createOrder (batch_order e (3 + j) (2 + j) TransactionType.REFUND (bt_sender batch) None amount
                           (BatchRefundRemark (bt_batchNo batch))) (d\<lparr>accounts := t\<rparr>) of
                  Inl err \<Rightarrow> (Inl err, d\<lparr>accounts := t\<rparr>)
                | Inr d2 \<Rightarrow>
                    (case account_by_id (acc_id a) t of
                       None \<Rightarrow> (Inl TypeError, d2)
                     | Some updated \<Rightarrow>
                         (Inr (), add_ledger \<lparr>led_account = acc_id a, led_transaction = uuid e (3 + j),
                            led_type = LedgerType.BATCH_TRANSFER, led_amount = amount,
                            led_before = availableBalance updated - amount, led_after = availableBalance updated,
                            led_direction = DEBIT\<rparr> d2)))))"

definition refunded :: "BatchTransfer \<Rightarrow> db \<Rightarrow> bool" where
  "refunded batch d = list_ex (\<lambda>r. tx_remark r = BatchRefundRemark (bt_batchNo batch)) (transactionOrders d)"

definition with_status :: "BatchItemStatus \<Rightarrow> BatchTransferItem list \<Rightarrow> BatchTransferItem list" where
  "with_status st = filter (\<lambda>r. bti_status r = st)"

definition item_total :: "BatchTransferItem list \<Rightarrow> int" where
  "item_total t = sum_list (map bti_amount t)"

definition resumeProcessing :: "env \<Rightarrow> string \<Rightarrow> db \<Rightarrow> (exn + bool) \<times> db" where
  "resumeProcessing e batchId d =
     (case find_batch batchId d of
        None \<Rightarrow> (Inr False, d)
      | Some batch \<Rightarrow>
          let pending = with_status BatchItemStatus.PENDING (items_of batchId d)
          in if bt_status batch \<noteq> BatchTransferStatus.PROCESSING then (Inr False, d)
             else if pending = [] then (Inr False, d)
             else let d1 = snd (process_items e 0 (bt_sender batch) pending (0, 0, 0) d);
                      items = items_of batchId d1;
                      successCount = length (with_status BatchItemStatus.SUCCESS items);
                      failedItems = with_status BatchItemStatus.FAILED items;
                      failedTotal = item_total failedItems
                  in andThen (if 0 < failedTotal \<and> \<not> refunded batch d1
                              then resume_refund e (length pending) batch failedTotal d1 else (Inr (), d1))
                       (\<lambda>_ d2. (Inr True,
                          finish_batch batchId {BatchTransferStatus.PROCESSING} BatchTransferStatus.COMPLETED
                            successCount (length failedItems) d2)))"

definition resume_request :: "env \<Rightarrow> string \<Rightarrow> world \<Rightarrow> (exn + bool) \<times> world" where
  "resume_request e i w = (case resumeProcessing e i (wdb w) of (r, d) \<Rightarrow> (r, w\<lparr>wdb := d\<rparr>))"

text \<open>
  The job: \<open>old\<close> says which batches have not been updated for five minutes (the column
  \<open>updatedAt\<close> is not modelled); an exception ends the run.
\<close>

fun recover_all :: "env \<Rightarrow> (BatchTransfer \<times> BatchTransferItem list) list \<Rightarrow> world \<Rightarrow> (exn + unit) \<times> world" where
  "recover_all e [] w = (Inr (), w)"
| "recover_all e ((b, pending) # bs) w =
     (if pending = [] then recover_all e bs w
      else andThen (withLock (''batch:recover:'' @ bt_id b) (resume_request e (bt_id b)) w)
             (\<lambda>_ w. recover_all e bs w))"

definition recoverStuckBatches :: "env \<Rightarrow> (BatchTransfer \<Rightarrow> bool) \<Rightarrow> world \<Rightarrow> (exn + unit) \<times> world" where
  "recoverStuckBatches e old w =
     recover_all e (map (\<lambda>b. (b, with_status BatchItemStatus.PENDING (items_of (bt_id b) (wdb w))))
       (filter (\<lambda>b. bt_status b = BatchTransferStatus.PROCESSING \<and> old b) (batchTransfers (wdb w)))) w"

subsection \<open>Cancelling a batch\<close>

definition cancel_body :: "env \<Rightarrow> string \<Rightarrow> string \<Rightarrow> db \<Rightarrow> exn + (batch \<times> db)" where
  "cancel_body e userId batchNo d =
     or_throw (find_batch_no batchNo d) (NotFound BATCH_TRANSFER_NOT_FOUND) (\<lambda>batch.
       throw_if (bt_sender batch \<noteq> userId) (Forbidden FORBIDDEN)
      (throw_if (bt_status batch \<notin> {BatchTransferStatus.PENDING, BatchTransferStatus.PROCESSING})
         (BadRequest BATCH_TRANSFER_NOT_CANCELLABLE)
      (let pending = with_status BatchItemStatus.PENDING (items_of (bt_id batch) d);
           d1 = fold (\<lambda>i. markItemFailed (bti_id i)) pending d;
           refundAmount = item_total pending
       in bindE (if 0 < refundAmount
                 then release_failed e 0 (bt_sender batch) refundAmount (BatchCancelRemark batchNo) d1 else Inr d1) (\<lambda>d2.
          let final = items_of (bt_id batch) d2;
              d3 = finish_batch (bt_id batch) {BatchTransferStatus.PENDING, BatchTransferStatus.PROCESSING}
                     BatchTransferStatus.CANCELLED (length (with_status BatchItemStatus.SUCCESS final))
                     (length (with_status BatchItemStatus.FAILED final)) d2
          in or_throw (find_batch (bt_id batch) d3) TypeError (\<lambda>b. Inr ((b, items_of (bt_id batch) d3), d3))))))"

definition cancel_batch :: "env \<Rightarrow> string \<Rightarrow> string \<Rightarrow> world \<Rightarrow> (exn + batch) \<times> world" where
  "cancel_batch e userId batchNo =
     withLock (''batch-transfer:cancel:'' @ batchNo) (transaction (cancel_body e userId batchNo))"

definition findByBatchNo :: "string \<Rightarrow> string \<Rightarrow> db \<Rightarrow> exn + batch" where
  "findByBatchNo userId batchNo d =
     or_throw (find_batch_no batchNo d) (NotFound BATCH_TRANSFER_NOT_FOUND) (\<lambda>batch.
       throw_if (bt_sender batch \<noteq> userId) (Forbidden FORBIDDEN)
         (Inr (batch, items_of (bt_id batch) d)))"

end
