(* ===== verification/Shifts.thy ===== *)
theory Shifts
  imports Payments
begin

text \<open>
  The specification of one step on the books: every user's available and frozen balance changes by a
  stated amount, the total by \<open>q\<close> and the platform's own accounts by \<open>p\<close>, and everything else the money
  invariant looks at stays. Steps compose by adding the changes, so the effect of a long
  transaction or of a loop is read off its statements.

  \<open>money_ok_but u x\<close> is the money invariant with an exception: \<open>x\<close> more is frozen for \<open>u\<close> than open orders
  account for. It is what holds in the middle of an operation that freezes first and settles later.
\<close>

definition shifts :: "(string \<Rightarrow> int) \<Rightarrow> (string \<Rightarrow> int) \<Rightarrow> int \<Rightarrow> int \<Rightarrow> db \<Rightarrow> db \<Rightarrow> bool" where
  "shifts da df q p d d' = (accounts_ok (accounts d') \<and>
     map acc_user (accounts d') = map acc_user (accounts d) \<and>
     (\<forall>v. available_of v (accounts d') = available_of v (accounts d) + da v) \<and>
     (\<forall>v. frozen_of v (accounts d') = frozen_of v (accounts d) + df v) \<and>
     total_assets (accounts d') = total_assets (accounts d) + q \<and>
     platform_total d' = platform_total d + p \<and> same_holdings d d' \<and>
     map pa_code (platformAccounts d') = map pa_code (platformAccounts d) \<and>
     journal_balance d' = journal_balance d \<and> (ledgers_ok d \<longrightarrow> ledgers_ok d') \<and>
     (orders_ok (transactionOrders d) \<longrightarrow> orders_ok (transactionOrders d')))"

lemma shifts_trans:
  assumes "shifts da df q p d d1" and "shifts da' df' q' p' d1 d2"
  shows "shifts (\<lambda>v. da v + da' v) (\<lambda>v. df v + df' v) (q + q') (p + p') d d2"
  using assms by (simp add: shifts_def same_holdings_def)

lemma account_exists:
  assumes "map acc_user t' = map acc_user t"
  shows "account_of u t' = None \<longleftrightarrow> account_of u t = None"
proof -
  have "acc_user ` set t' = acc_user ` set t" using assms by (metis list.set_map)
  moreover have "account_of u t = None \<longleftrightarrow> u \<notin> acc_user ` set t" for t
    by (auto simp: account_of_def findUnique_None)
  ultimately show ?thesis by simp
qed

lemma shifts_cong:
  "shifts da df q p d d' \<Longrightarrow> (\<And>v. da v = da' v) \<Longrightarrow> (\<And>v. df v = df' v) \<Longrightarrow> q = q' \<Longrightarrow> p = p' \<Longrightarrow> shifts da' df' q' p' d d'"
  by (simp add: shifts_def)

lemma shifts_kept: "books_kept d d' \<Longrightarrow> accounts_ok (accounts d) \<Longrightarrow> shifts (\<lambda>_. 0) (\<lambda>_. 0) 0 0 d d'"
  by (simp add: shifts_def books_kept_def platform_total_def journal_balance_def)

lemma shifts_posted: "posted p d d' \<Longrightarrow> accounts_ok (accounts d) \<Longrightarrow> shifts (\<lambda>_. 0) (\<lambda>_. 0) 0 p d d'"
  by (simp add: shifts_def posted_def)

text \<open>A balance statement shifts the balances of the owner of the account.\<close>

lemma shifts_moved:
  assumes "accounts_ok (accounts d)" and "account_of u (accounts d) = Some a"
    and "accounts_ok (accounts (moved (acc_id a) x y d))"
  shows "shifts (\<lambda>v. if v = u then x else 0) (\<lambda>v. if v = u then y else 0) (x + y) 0 d (moved (acc_id a) x y d)"
proof -
  have a: "acc_user a = u" using account_of_SomeD [OF assms(2)] by simp
  note mv = move_funds_by_id [OF assms(1) account_of_by_id [OF assms(1,2)]]
  show ?thesis using assms(3)
    by (auto simp: shifts_def mv a same_holdings_def platform_total_def journal_balance_def)
qed

context balance_statement begin

lemma stmt_shifts:
  assumes ok: "accounts_ok (accounts d)" and a: "account_of u (accounts d) = Some a"
    and run: "stmt (acc_id a) n (accounts d) = Inr (c, t)" and c: "c \<noteq> 0" and n: "0 \<le> n"
  shows "shifts (\<lambda>v. if v = u then dA n else 0) (\<lambda>v. if v = u then dF n else 0) (dA n + dF n) 0 d (d\<lparr>accounts := t\<rparr>)"
    and "d\<lparr>accounts := t\<rparr> = moved (acc_id a) (dA n) (dF n) d"
    and "0 \<le> availableBalance a + dA n" and "0 \<le> frozenBalance a + dF n"
proof -
  have "a \<in> set (accounts d)" using account_of_SomeD [OF a] by simp
  note mv = moves [OF ok this run c n]
  show eq: "d\<lparr>accounts := t\<rparr> = moved (acc_id a) (dA n) (dF n) d" by (simp add: moved_def mv(1))
  have "accounts_ok (accounts (moved (acc_id a) (dA n) (dF n) d))" using mv(1,4) by simp
  from shifts_moved [OF ok a this]
  show "shifts (\<lambda>v. if v = u then dA n else 0) (\<lambda>v. if v = u then dF n else 0) (dA n + dF n) 0 d (d\<lparr>accounts := t\<rparr>)"
    by (simp only: eq)
  show "0 \<le> availableBalance a + dA n" "0 \<le> frozenBalance a + dF n" by (rule mv)+
qed

end

text \<open>Likewise the credit of an account read before an earlier statement of the same transaction.\<close>

lemma credit_shifts:
  assumes run: "credit_account (acc_id b) m d1 k = Inr r" and a: "account_of v (accounts d) = Some b"
    and ok: "accounts_ok (accounts d)" and ok1: "accounts_ok (accounts d1)" and m: "0 \<le> m"
    and acc: "accounts d1 = move_funds i x y (accounts d)"
  obtains b' where "k b' (moved (acc_id b) m 0 d1) = Inr r"
    and "shifts (\<lambda>u. if u = v then m else 0) (\<lambda>_. 0) m 0 d1 (moved (acc_id b) m 0 d1)"
proof -
  obtain b' where b': "account_by_id (acc_id b) (accounts d1) = Some b'" "acc_id b' = acc_id b" "acc_user b' = v"
    using account_of_by_id [OF ok a] account_of_SomeD [OF a] by (auto simp: acc account_by_id_move)
  have a1: "account_of v (accounts d1) = Some b'"
    using account_of_in [OF ok1, of b'] account_by_id_SomeD [OF b'(1)] b'(3) by simp
  note cr = credit_account_Inr [OF ok1 b'(1) m run]
  have "accounts_ok (accounts (moved (acc_id b') m 0 d1))" using cr(2) by (simp only: b'(2))
  from shifts_moved [OF ok1 a1 this] cr(1) show thesis by (intro that) (simp_all add: b'(2))
qed

lemma paid_shifts:
  assumes "paid u v n m d d'" and "accounts_ok (accounts d)"
  shows "shifts (\<lambda>x. (if x = v then m else 0) - (if x = u then n else 0)) (\<lambda>_. 0) (m - n) (m - n) d d'"
  using assms(1) paid_balances [OF assms] unfolding shifts_def paid_def by auto

definition money_ok_but :: "string \<Rightarrow> int \<Rightarrow> db \<Rightarrow> bool" where
  "money_ok_but u x d = (books_ok d \<and> solvent d \<and>
     (\<forall>a \<in> set (accounts d). frozen_of (acc_user a) (accounts d) =
        held (acc_user a) d + (if acc_user a = u then x else 0)))"

lemma money_ok_but_none: "money_ok_but u 0 d = money_ok d"
  by (auto simp: money_ok_but_def money_ok_def backed_def)

lemma money_ok_but_shift:
  assumes "money_ok_but u x d" and step: "shifts da df q q d d'" and "\<And>v. v \<noteq> u \<Longrightarrow> df v = 0"
  shows "money_ok_but u (x + df u) d'"
proof -
  have "acc_user ` set (accounts d') = acc_user ` set (accounts d)"
    using step by (metis shifts_def list.set_map)
  moreover have "frozen_of v (accounts d') = held v d' + (if v = u then x + df u else 0)"
    if "v \<in> acc_user ` set (accounts d)" for v
    using assms that by (auto simp: shifts_def money_ok_but_def held_def same_holdings_def)
  moreover have "books_ok d' \<and> solvent d'"
    using assms(1) step by (auto simp: shifts_def money_ok_but_def books_ok_def solvent_def same_holdings_def)
  ultimately show ?thesis unfolding money_ok_but_def by (metis image_eqI)
qed

lemma money_ok_butD:
  assumes "money_ok_but u x d"
  shows "accounts_ok (accounts d)" and "orders_ok (transactionOrders d)" and "ledgers_ok d"
  using assms by (auto simp: money_ok_but_def books_ok_def)

text \<open>What is excepted is there in the frozen balance.\<close>

lemma excepted_frozen:
  assumes "money_ok_but u x d" and "account_of u (accounts d) = Some a"
  shows "x \<le> frozenBalance a"
proof -
  have a: "a \<in> set (accounts d)" "acc_user a = u" using account_of_SomeD [OF assms(2)] by auto
  have ok: "accounts_ok (accounts d)" "escrows_ok (escrowOrders d)" "packets_ok (redPackets d)"
    "withdrawals_ok (withdrawalOrders d)" using assms(1) by (auto simp: money_ok_but_def books_ok_def)
  have "frozen_of u (accounts d) = frozenBalance a" using frozen_of_account [OF ok(1) a(1)] a(2) by simp
  moreover have "0 \<le> held u d"
    using escrows.held_nonneg [OF ok(2), of u] packets.held_nonneg [OF ok(3), of u]
      withdrawals.held_nonneg [OF ok(4), of u] by (simp add: held_def)
  ultimately show ?thesis using assms(1) a by (auto simp: money_ok_but_def)
qed

text \<open>If anything is excepted, the invariant itself does not hold.\<close>

lemma money_ok_but_not_ok:
  assumes "money_ok_but u x d" and "x \<noteq> 0" and "account_of u (accounts d) \<noteq> None"
  shows "\<not> money_ok d"
proof
  assume ok: "money_ok d"
  obtain a where a: "account_of u (accounts d) = Some a" using assms(3) by auto
  then have "a \<in> set (accounts d)" "acc_user a = u" using account_of_SomeD by auto
  with assms(1,2) ok show False by (auto simp: money_ok_but_def money_ok_def backed_def)
qed

end
