(* ===== verification/BatchSafety.thy ===== *)
theory BatchSafety
  imports BatchTransfers Shifts
begin

text \<open>
  What a batch transfer does to the balances: one item, the loop, the settlement, the recovery and the
  cancellation, each as a shift of balances; then the properties of whole batches.
\<close>

subsection \<open>One item\<close>

definition item_marked :: "string \<Rightarrow> (BatchTransferItem \<Rightarrow> BatchTransferItem) \<Rightarrow> db \<Rightarrow> db \<Rightarrow> bool" where
  "item_marked i f d d' = (batchTransfers d' = batchTransfers d \<and>
     batchTransferItems d' = updateRows (\<lambda>r. bti_id r = i \<and> bti_status r = BatchItemStatus.PENDING) f (batchTransferItems d))"

definition set_failed :: "BatchTransferItem \<Rightarrow> BatchTransferItem" where
  "set_failed r = r\<lparr>bti_status := BatchItemStatus.FAILED\<rparr>"

definition set_paid :: "string \<Rightarrow> BatchTransferItem \<Rightarrow> BatchTransferItem" where
  "set_paid tx r = r\<lparr>bti_status := BatchItemStatus.SUCCESS, bti_transaction := Some tx\<rparr>"

lemma mark_simps [simp]:
  "bti_id (set_failed r) = bti_id r" "bti_amount (set_failed r) = bti_amount r"
  "bti_toUser (set_failed r) = bti_toUser r" "bti_batch (set_failed r) = bti_batch r"
  "bti_status (set_failed r) = BatchItemStatus.FAILED"
  "bti_id (set_paid tx r) = bti_id r" "bti_amount (set_paid tx r) = bti_amount r"
  "bti_toUser (set_paid tx r) = bti_toUser r" "bti_batch (set_paid tx r) = bti_batch r"
  "bti_status (set_paid tx r) = BatchItemStatus.SUCCESS"
  by (simp_all add: set_failed_def set_paid_def)

lemma markItemFailed_effect:
  "books_kept d (markItemFailed i d)" "item_marked i set_failed d (markItemFailed i d)"
  by (simp_all add: markItemFailed_def books_kept_def same_holdings_def ledgers_ok_def item_marked_def
      set_failed_def [abs_def])

lemma item_rows_effect:
  assumes run: "item_rows e j s item tu sa ta after d = Inr (r, d')" and n: "0 \<le> bti_amount item"
  shows "r" and "books_kept d d'" and "item_marked (bti_id item) (set_paid (uuid e (3 + j))) d d'"
  using run n
  by (auto simp: item_rows_def Let_def createOrder_Inr batch_order_def books_kept_def same_holdings_def ledgers_ok_def
      ledger_ok_def orders_ok_def add_ledger_def add_bill_def markItemPaid_def item_marked_def set_paid_def [abs_def])

lemma item_body_effect:
  assumes run: "item_body e j i s d = Inr (r, d')" and ok: "accounts_ok (accounts d)"
    and item: "find_item i d = Some x" "bti_status x = BatchItemStatus.PENDING" and n: "0 \<le> bti_amount x"
  shows "r \<Longrightarrow> shifts (\<lambda>v. if v = bti_toUser x then bti_amount x else 0)
      (\<lambda>v. if v = s then - bti_amount x else 0) 0 0 d d' \<and> item_marked i (set_paid (uuid e (3 + j))) d d'"
    and "\<not> r \<Longrightarrow> books_kept d d' \<and> item_marked i set_failed d d'"
proof -
  have i: "bti_id x = i" using item(1) by (auto simp: find_item_def dest: findUnique_SomeD)
  consider (failed) "\<not> r" "d' = markItemFailed i d"
    | (paid) sa ta tu c t where "account_of s (accounts d) = Some sa" "account_of (bti_toUser x) (accounts d) = Some ta"
      "acc_release (acc_id sa) (bti_amount x) (accounts d) = Inr (c, t)" "c \<noteq> 0"
      "credit_account (acc_id ta) (bti_amount x) (d\<lparr>accounts := t\<rparr>)
         (\<lambda>updatedReceiver d2. item_rows e j s x tu sa ta (availableBalance updatedReceiver) d2) = Inr (r, d')"
    using run item by (auto simp: item_body_def split: option.splits if_splits)
  then have "(r \<and> shifts (\<lambda>v. if v = bti_toUser x then bti_amount x else 0)
      (\<lambda>v. if v = s then - bti_amount x else 0) 0 0 d d' \<and> item_marked i (set_paid (uuid e (3 + j))) d d') \<or>
    (\<not> r \<and> books_kept d d' \<and> item_marked i set_failed d d')"
  proof cases
    case paid
    note rel = release.stmt_shifts [OF ok paid(1,3,4) n]
    have ok1: "accounts_ok (accounts (d\<lparr>accounts := t\<rparr>))" using rel(1) by (simp add: shifts_def)
    have acc: "accounts (d\<lparr>accounts := t\<rparr>) = move_funds (acc_id sa) 0 (- bti_amount x) (accounts d)"
      unfolding rel(2) by simp
    obtain b' :: Account where rows: "item_rows e j s x tu sa ta (availableBalance b')
        (moved (acc_id ta) (bti_amount x) 0 (d\<lparr>accounts := t\<rparr>)) = Inr (r, d')"
      and cr: "shifts (\<lambda>u. if u = bti_toUser x then bti_amount x else 0) (\<lambda>_. 0) (bti_amount x) 0
        (d\<lparr>accounts := t\<rparr>) (moved (acc_id ta) (bti_amount x) 0 (d\<lparr>accounts := t\<rparr>))"
      by (rule credit_shifts [OF paid(5,2) ok ok1 n acc])
    note rw = item_rows_effect [OF rows n]
    have ok2: "accounts_ok (accounts (moved (acc_id ta) (bti_amount x) 0 (d\<lparr>accounts := t\<rparr>)))"
      using cr by (simp add: shifts_def)
    from shifts_trans [OF shifts_trans [OF rel(1) cr] shifts_kept [OF rw(2) ok2]] rw(1,3) show ?thesis
      by (auto simp: i item_marked_def elim!: shifts_cong)
  qed (simp add: markItemFailed_effect)
  then show "r \<Longrightarrow> shifts (\<lambda>v. if v = bti_toUser x then bti_amount x else 0)
      (\<lambda>v. if v = s then - bti_amount x else 0) 0 0 d d' \<and> item_marked i (set_paid (uuid e (3 + j))) d d'"
    and "\<not> r \<Longrightarrow> books_kept d d' \<and> item_marked i set_failed d d'" by auto
qed

lemma processItem_effect:
  assumes run: "processItem e j i s d = (r, d')" and ok: "accounts_ok (accounts d)"
    and item: "find_item i d = Some x" "bti_status x = BatchItemStatus.PENDING" and n: "0 \<le> bti_amount x"
  shows "shifts (\<lambda>v. if r \<and> v = bti_toUser x then bti_amount x else 0)
      (\<lambda>v. if r \<and> v = s then - bti_amount x else 0) 0 0 d d'"
    and "item_marked i (if r then set_paid (uuid e (3 + j)) else set_failed) d d'"
proof -
  have "(r \<and> shifts (\<lambda>v. if v = bti_toUser x then bti_amount x else 0)
      (\<lambda>v. if v = s then - bti_amount x else 0) 0 0 d d' \<and> item_marked i (set_paid (uuid e (3 + j))) d d') \<or>
    (\<not> r \<and> books_kept d d' \<and> item_marked i set_failed d d')"
  proof (cases "item_body e j i s d")
    case (Inl err)
    with run show ?thesis by (auto simp: processItem_def markItemFailed_effect)
  next
    case (Inr y)
    with run item_body_effect [OF _ ok item n, of e j s r d'] show ?thesis by (auto simp: processItem_def)
  qed
  then show "shifts (\<lambda>v. if r \<and> v = bti_toUser x then bti_amount x else 0)
      (\<lambda>v. if r \<and> v = s then - bti_amount x else 0) 0 0 d d'"
    and "item_marked i (if r then set_paid (uuid e (3 + j)) else set_failed) d d'"
    using shifts_kept [OF _ ok] by auto
qed

text \<open>Looking items up after one of them was marked.\<close>

lemma marked_find:
  assumes "item_marked i f d d'" and "\<And>r. bti_id (f r) = bti_id r"
  shows "find_item k d' = map_option (\<lambda>r. if bti_id r = i \<and> bti_status r = BatchItemStatus.PENDING then f r else r)
    (find_item k d)"
  using assms by (simp add: item_marked_def find_item_def findUnique_updateRows)

subsection \<open>The loop\<close>

text \<open>What became of an item, and the sums over the items that were paid.\<close>

definition was_paid :: "db \<Rightarrow> BatchTransferItem \<Rightarrow> bool" where
  "was_paid d r = (map_option bti_status (find_item (bti_id r) d) = Some BatchItemStatus.SUCCESS)"

definition paid_to :: "BatchTransferItem list \<Rightarrow> db \<Rightarrow> string \<Rightarrow> int" where
  "paid_to xs d v = sum_list (map (\<lambda>r. if was_paid d r \<and> bti_toUser r = v then bti_amount r else 0) xs)"

definition paid_total :: "BatchTransferItem list \<Rightarrow> db \<Rightarrow> int" where
  "paid_total xs d = sum_list (map (\<lambda>r. if was_paid d r then bti_amount r else 0) xs)"

definition waiting :: "db \<Rightarrow> BatchTransferItem list \<Rightarrow> bool" where
  "waiting d xs = (distinct (map bti_id xs) \<and>
     (\<forall>r \<in> set xs. find_item (bti_id r) d = Some r \<and> bti_status r = BatchItemStatus.PENDING \<and> 0 \<le> bti_amount r))"

lemma waiting_Cons:
  "waiting d (x # xs) \<longleftrightarrow> waiting d xs \<and> bti_id x \<notin> bti_id ` set xs \<and> find_item (bti_id x) d = Some x \<and>
     bti_status x = BatchItemStatus.PENDING \<and> 0 \<le> bti_amount x"
  by (auto simp: waiting_def)

definition processed :: "string \<Rightarrow> BatchTransferItem list \<Rightarrow> db \<Rightarrow> db \<Rightarrow> bool" where
  "processed s xs d d' = (
     shifts (paid_to xs d') (\<lambda>v. if v = s then - paid_total xs d' else 0) 0 0 d d' \<and>
     batchTransfers d' = batchTransfers d \<and>
     (\<forall>k. k \<notin> bti_id ` set xs \<longrightarrow> find_item k d' = find_item k d) \<and>
     (\<forall>r \<in> set xs. \<exists>st tx. find_item (bti_id r) d' = Some (r\<lparr>bti_status := st, bti_transaction := tx\<rparr>) \<and>
        st \<noteq> BatchItemStatus.PENDING) \<and>
     map bti_id (batchTransferItems d') = map bti_id (batchTransferItems d) \<and>
     map bti_batch (batchTransferItems d') = map bti_batch (batchTransferItems d))"

lemma processed_Cons:
  assumes run: "processItem e j (bti_id x) s d = (r, d1)" and ok: "accounts_ok (accounts d)"
    and w: "waiting d (x # xs)"
  shows "waiting d1 xs" and "accounts_ok (accounts d1)"
    and "processed s xs d1 d' \<Longrightarrow> processed s (x # xs) d d' \<and> was_paid d' x = r"
proof -
  define g where "g = (if r then set_paid (uuid e (3 + j)) else set_failed)"
  have g: "bti_id (g y) = bti_id y" for y by (simp add: g_def)
  have x: "find_item (bti_id x) d = Some x" "bti_status x = BatchItemStatus.PENDING" "0 \<le> bti_amount x"
    and fresh: "bti_id x \<notin> bti_id ` set xs" and wd: "waiting d xs"
    using w by (auto simp: waiting_Cons)
  note ef = processItem_effect [OF run ok x, folded g_def]
  note fd = marked_find [OF ef(2) g]
  show "accounts_ok (accounts d1)" using ef(1) by (simp add: shifts_def)
  show "waiting d1 xs" using wd fresh by (auto simp: waiting_def fd image_iff)
  assume p: "processed s xs d1 d'"
  have fx: "find_item (bti_id x) d' = Some (g x)" using p fresh by (simp add: processed_def fd x)
  then have paid: "was_paid d' x = r" by (auto simp: was_paid_def g_def)
  have sh: "shifts (paid_to (x # xs) d') (\<lambda>v. if v = s then - paid_total (x # xs) d' else 0) 0 0 d d'"
  proof -
    have "shifts (paid_to xs d') (\<lambda>v. if v = s then - paid_total xs d' else 0) 0 0 d1 d'"
      using p by (simp add: processed_def)
    from shifts_trans [OF ef(1) this] show ?thesis
      by (rule shifts_cong) (auto simp: paid_to_def paid_total_def paid)
  qed
  have "\<exists>st tx. g x = x\<lparr>bti_status := st, bti_transaction := tx\<rparr> \<and> st \<noteq> BatchItemStatus.PENDING"
    by (rule exI [of _ "bti_status (g x)"], rule exI [of _ "bti_transaction (g x)"])
      (auto simp: g_def set_paid_def set_failed_def)
  moreover have "map bti_id (batchTransferItems d1) = map bti_id (batchTransferItems d)"
    "map bti_batch (batchTransferItems d1) = map bti_batch (batchTransferItems d)"
    using ef(2) by (auto simp: item_marked_def g_def intro!: map_updateRows_frame)
  moreover have "batchTransfers d1 = batchTransfers d" using ef(2) by (simp add: item_marked_def)
  moreover have "find_item k d1 = find_item k d" if "k \<noteq> bti_id x" for k
    using that unfolding fd by (cases "find_item k d") (auto simp: find_item_def dest: findUnique_SomeD)
  ultimately show "processed s (x # xs) d d' \<and> was_paid d' x = r"
    using p fx paid sh by (auto simp: processed_def)
qed

lemma process_items_effect:
  assumes "process_items e j s xs (sc, fc, ft) d = (counts, d')" and "accounts_ok (accounts d)" and "waiting d xs"
  shows "processed s xs d d' \<and> counts = (sc + length (filter (was_paid d') xs),
      fc + length (filter (\<lambda>r. \<not> was_paid d' r) xs), ft + (item_total xs - paid_total xs d'))"
  using assms
proof (induction xs arbitrary: j sc fc ft d)
  case Nil
  then have "shifts (paid_to [] d') (\<lambda>v. if v = s then - paid_total [] d' else 0) 0 0 d d'"
    by (intro shifts_cong [OF shifts_kept]) (auto simp: paid_to_def paid_total_def)
  with Nil show ?case by (auto simp: processed_def paid_total_def item_total_def)
next
  case (Cons x xs)
  obtain r d1 where run: "processItem e j (bti_id x) s d = (r, d1)" by fastforce
  note pc = processed_Cons [OF run Cons.prems(2,3)]
  have "process_items e (Suc j) s xs (if r then (Suc sc, fc, ft) else (sc, Suc fc, ft + bti_amount x)) d1 = (counts, d')"
    using Cons.prems(1) run by (cases r) auto
  moreover note Cons.IH [of "Suc j" "if r then Suc sc else sc" "if r then fc else Suc fc"
      "if r then ft else ft + bti_amount x" d1, OF _ pc(2,1)]
  ultimately have "processed s xs d1 d' \<and> counts = ((if r then Suc sc else sc) + length (filter (was_paid d') xs),
      (if r then fc else Suc fc) + length (filter (\<lambda>r. \<not> was_paid d' r) xs),
      (if r then ft else ft + bti_amount x) + (item_total xs - paid_total xs d'))" by (cases r) auto
  with pc(3) show ?case by (auto simp: item_total_def paid_total_def)
qed

subsection \<open>Releasing and opening\<close>

lemma unfreeze_count:
  assumes "accounts_ok t" and "acc_unfreeze i n t = Inr (c, t')"
  shows "c \<le> 1"
proof -
  have c: "c = length (filter (\<lambda>a. acc_id a = i \<and> n \<le> frozenBalance a) t)"
    using assms(2) by (simp add: acc_unfreeze_def)
  also have "\<dots> \<le> length (filter (\<lambda>a. acc_id a = i) t)" by (induction t) auto
  also have "\<dots> \<le> 1" using assms(1) by (intro count_key_le_one) (simp add: accounts_ok_def)
  finally show ?thesis .
qed

text \<open>Where enough is frozen, the release takes effect.\<close>

lemma release_failed_effect:
  assumes run: "release_failed e j u n remark d = Inr d'" and ok: "accounts_ok (accounts d)" and n: "0 \<le> n"
    and a: "account_of u (accounts d) = Some a" and enough: "n \<le> frozenBalance a"
  shows "shifts (\<lambda>v. if v = u then n else 0) (\<lambda>v. if v = u then - n else 0) 0 0 d d'"
    and "batchTransfers d' = batchTransfers d" and "batchTransferItems d' = batchTransferItems d"
proof -
  have "a \<in> set (accounts d)" using account_of_SomeD [OF a] by simp
  from unfreeze_enough [OF ok this enough n] obtain c t where st: "acc_unfreeze (acc_id a) n (accounts d) = Inr (c, t)"
    and c: "c \<noteq> 0" by blast
  then have "c = 1" using unfreeze_count [OF ok st] by simp
  with run a st obtain up d2 where tx: "createOrder (batch_order e (3 + j) (2 + j) TransactionType.REFUND u None n remark)
      (d\<lparr>accounts := t\<rparr>) = Inr d2"
    and d': "d' = add_ledger \<lparr>led_account = acc_id a, led_transaction = uuid e (3 + j),
                  led_type = LedgerType.BATCH_TRANSFER, led_amount = n,
                  led_before = up - n, led_after = up, led_direction = DEBIT\<rparr> d2"
    by (auto simp: release_failed_def)
  note sh = unfreeze.stmt_shifts [OF ok a st c n]
  have kept: "books_kept (d\<lparr>accounts := t\<rparr>) d2" by (rule createOrder_kept [OF tx]) (simp add: batch_order_def n)
  then have "books_kept (d\<lparr>accounts := t\<rparr>) d'"
    by (rule books_kept_trans) (simp add: d' ledger_ok_def)
  from shifts_trans [OF sh(1) shifts_kept [OF this]] sh(1)
  show "shifts (\<lambda>v. if v = u then n else 0) (\<lambda>v. if v = u then - n else 0) 0 0 d d'"
    by (auto simp: shifts_def [of _ _ _ _ d "d\<lparr>accounts := t\<rparr>"] elim!: shifts_cong)
  show "batchTransfers d' = batchTransfers d" "batchTransferItems d' = batchTransferItems d"
    using tx by (auto simp: d' createOrder_Inr add_ledger_def)
qed

lemma create_items_Inr:
  "create_items rs t = Inr t' \<Longrightarrow>
     t' = t @ rs \<and> distinct (map bti_id rs) \<and> bti_id ` set rs \<inter> bti_id ` set t = {}"
proof (induction rs arbitrary: t)
  case (Cons r rs)
  from Cons.prems have "create_items rs (t @ [r]) = Inr t'" and "\<forall>s \<in> set t. \<not> bti_conflict r s" by auto
  with Cons.IH [of "t @ [r]"] show ?case by (auto simp: bti_conflict_def)
qed simp

lemma batch_rows_props:
  assumes "length is = length ns"
  shows "map bti_amount (batch_rows e b j (zip is ns)) = ns"
    and "map bti_toUser (batch_rows e b j (zip is ns)) = map bd_toUser is"
    and "\<forall>r \<in> set (batch_rows e b j (zip is ns)). bti_batch r = b \<and> bti_status r = BatchItemStatus.PENDING"
  using assms by (induction "is" ns arbitrary: j rule: list_induct2) auto

lemma batch_amounts_Inr:
  "batch_amounts is = Inr ns \<Longrightarrow> length ns = length is \<and> (\<forall>n \<in> set ns. 0 \<le> n)"
  by (induction "is" arbitrary: ns) (auto simp: fen_Inr intro: yuanToFen_nonneg)

text \<open>Identifiers are unique, and every item belongs to a batch.\<close>

definition batch_tables_ok :: "db \<Rightarrow> bool" where
  "batch_tables_ok d = (distinct (map bt_id (batchTransfers d)) \<and> distinct (map bti_id (batchTransferItems d)) \<and>
     list_all (\<lambda>r. bti_batch r \<in> bt_id ` set (batchTransfers d) \<and> 0 \<le> bti_amount r) (batchTransferItems d))"

lemma batch_table_kept:
  "books_kept d (d\<lparr>batchTransfers := bs, batchTransferItems := is\<rparr>)" "books_kept d (d\<lparr>batchTransfers := bs\<rparr>)"
  "books_kept d (d\<lparr>batchTransferItems := is\<rparr>)" "books_kept d (add_event u ty lv d)"
  by (simp_all add: books_kept_def same_holdings_def ledgers_ok_def add_event_def)

lemma open_rows_effect:
  assumes run: "open_rows e s dto ns sa d = Inr ((b, items), d')" and tabs: "batch_tables_ok d"
    and ns: "batch_amounts (bd_items dto) = Inr ns"
  shows "books_kept d d'" and "find_batch (bt_id b) d' = Some b" and "bt_status b = BatchTransferStatus.PROCESSING"
    and "bt_sender b = s" and "items = items_of (bt_id b) d'" and "waiting d' items" and "map bti_amount items = ns"
    and "map bti_toUser items = map bd_toUser (bd_items dto)" and "batch_tables_ok d'"
    and "find_batch_no (bt_batchNo b) d' = Some b"
proof -
  let ?i = "uuid e 2"
  let ?rows = "batch_rows e ?i 0 (zip (bd_items dto) ns)"
  let ?go = "updateRows (\<lambda>r. bt_id r = ?i \<and> bt_status r = BatchTransferStatus.PENDING)
      (\<lambda>r. r\<lparr>bt_status := BatchTransferStatus.PROCESSING\<rparr>)"
  note am = batch_amounts_Inr [OF ns]
  have nn: "0 \<le> sum_list ns" using am by (intro sum_list_nonneg) auto
  define created where "created = \<lparr>bt_id = ?i, bt_batchNo = generateOrderNo e 0 ''BT'', bt_sender = s,
      bt_totalCount = length (bd_items dto), bt_successCount = 0, bt_failedCount = 0, bt_totalAmount = sum_list ns,
      bt_status = BatchTransferStatus.PENDING, bt_idem = bd_idem dto\<rparr>"
  let ?tx = "batch_order e 1 1 TransactionType.TRANSFER s None (sum_list ns) (BatchFreezeRemark (generateOrderNo e 0 ''BT''))"
  let ?led = "\<lambda>up. \<lparr>led_account = acc_id sa, led_transaction = uuid e 1, led_type = LedgerType.BATCH_TRANSFER,
      led_amount = sum_list ns, led_before = availableBalance up + sum_list ns, led_after = availableBalance up,
      led_direction = CREDIT\<rparr>"
  obtain d2 its and up :: Account where tx: "createOrder ?tx d = Inr d2"
    and cb: "\<forall>r \<in> set (batchTransfers d2). \<not> bt_conflict created r"
    and ci: "create_items ?rows (batchTransferItems d2) = Inr its"
    and d': "d' = (if LARGE_BATCH_TRANSFER_THRESHOLD_CENTS < sum_list ns then add_event s LARGE_TRANSFER MEDIUM else id)
        ((add_ledger (?led up) (d2\<lparr>batchTransfers := batchTransfers d2 @ [created], batchTransferItems := its\<rparr>))
           \<lparr>batchTransfers := ?go (batchTransfers d2 @ [created])\<rparr>)"
    and b: "find_batch ?i d' = Some b" and items: "items = items_of ?i d'"
    using run unfolding open_rows_def Let_def created_def [symmetric]
    by (cases "LARGE_BATCH_TRANSFER_THRESHOLD_CENTS < sum_list ns") auto
  have d2: "d2 = d\<lparr>transactionOrders := transactionOrders d @ [?tx]\<rparr>" using tx by (simp add: createOrder_Inr)
  have bts: "batchTransfers d2 = batchTransfers d" "batchTransferItems d2 = batchTransferItems d" by (simp_all add: d2)
  note cb = cb [unfolded bts] and ci = ci [unfolded bts]
  have tabs': "batchTransfers d' = ?go (batchTransfers d @ [created])" "batchTransferItems d' = its"
    by (simp_all add: d' bts add_event_def add_ledger_def)
  have new: "\<forall>r \<in> set (batchTransfers d). bt_id r \<noteq> ?i" using cb by (auto simp: bt_conflict_def created_def)
  have old: "?go (batchTransfers d @ [created]) = batchTransfers d @ [created\<lparr>bt_status := BatchTransferStatus.PROCESSING\<rparr>]"
  proof -
    have "?go (batchTransfers d) = batchTransfers d" using new by (intro updateRows_none) (force simp: filter_empty_conv)
    then show ?thesis by (simp add: updateRows_def created_def)
  qed
  have bd: "batchTransfers d' = batchTransfers d @ [created\<lparr>bt_status := BatchTransferStatus.PROCESSING\<rparr>]"
    by (simp add: tabs' old)
  have "findUnique (\<lambda>r. bt_id r = ?i) (batchTransfers d) = None" using new by (auto simp: findUnique_None)
  then have b': "b = created\<lparr>bt_status := BatchTransferStatus.PROCESSING\<rparr>"
    using b by (simp add: find_batch_def bd findUnique_append created_def)
  then have bi: "bt_id b = ?i" by (simp add: created_def)
  show "bt_status b = BatchTransferStatus.PROCESSING" "bt_sender b = s" by (simp_all add: b' created_def)
  show "find_batch (bt_id b) d' = Some b" "items = items_of (bt_id b) d'" using b items by (simp_all add: bi)
  have "findUnique (\<lambda>r. bt_batchNo r = bt_batchNo created) (batchTransfers d) = None"
    using cb by (auto simp: findUnique_None bt_conflict_def)
  then show "find_batch_no (bt_batchNo b) d' = Some b" by (simp add: find_batch_no_def bd findUnique_append b')
  note ci' = create_items_Inr [OF ci]
  note rows = batch_rows_props [of "bd_items dto" ns e ?i 0]
  have len: "length (bd_items dto) = length ns" using am by simp
  have it: "items = ?rows"
  proof -
    have "filter (\<lambda>r. bti_batch r = ?i) (batchTransferItems d) = []"
      using tabs new by (auto simp: batch_tables_ok_def list_all_iff filter_empty_conv)
    then show ?thesis using ci' rows(3) len by (auto simp: items items_of_def tabs' filter_id_conv)
  qed
  show "map bti_amount items = ns" "map bti_toUser items = map bd_toUser (bd_items dto)"
    using rows len by (simp_all add: it)
  have amt: "0 \<le> bti_amount r" if "r \<in> set ?rows" for r
    using that rows(1) am len by (metis image_eqI list.set_map)
  have ids: "distinct (map bti_id (batchTransferItems d'))"
    using tabs ci' by (auto simp: tabs' batch_tables_ok_def)
  have "find_item (bti_id r) d' = Some r" if "r \<in> set ?rows" for r
    using that ids ci' unfolding find_item_def by (intro findUnique_key_eq) (auto simp: tabs')
  then show "waiting d' items" using ci' rows(3) len amt by (auto simp: waiting_def it)
  have "books_kept d d2" by (rule createOrder_kept [OF tx]) (simp add: batch_order_def nn)
  moreover have "books_kept d2 d'"
    by (simp add: d' books_kept_def same_holdings_def ledgers_ok_def ledger_ok_def add_ledger_def add_event_def)
  ultimately show "books_kept d d'" by (rule books_kept_trans)
  show "batch_tables_ok d'" unfolding batch_tables_ok_def
    using tabs ids new rows(3) len amt ci' by (auto simp: bd batch_tables_ok_def list_all_iff created_def tabs')
qed

lemma open_new_effect:
  assumes run: "open_new e s dto ns d = Inr ((b, items), d')" and inv: "money_ok d" and tabs: "batch_tables_ok d"
    and ns: "batch_amounts (bd_items dto) = Inr ns"
  shows "shifts (\<lambda>v. if v = s then - sum_list ns else 0) (\<lambda>v. if v = s then sum_list ns else 0) 0 0 d d'"
    and "find_batch (bt_id b) d' = Some b" and "bt_status b = BatchTransferStatus.PROCESSING" and "bt_sender b = s"
    and "items = items_of (bt_id b) d'" and "waiting d' items" and "map bti_amount items = ns"
    and "map bti_toUser items = map bd_toUser (bd_items dto)" and "batch_tables_ok d'"
    and "find_batch_no (bt_batchNo b) d' = Some b" and "account_of s (accounts d) \<noteq> None"
proof -
  have nn: "0 \<le> sum_list ns" using batch_amounts_Inr [OF ns] by (intro sum_list_nonneg) auto
  obtain d0 sa c t where lim: "checkAndIncrementDailyLimit (uuid e 0) s ''BATCH_TRANSFER'' (utc_day (now e)) (sum_list ns)
      (config_limit ''batch_transfer_daily_limit'' DEFAULT_BATCH_TRANSFER_DAILY_LIMIT_CENTS d) d = Inr d0"
    and sa: "account_of s (accounts d0) = Some sa"
    and fr: "acc_freeze (acc_id sa) (sum_list ns) (accounts d0) = Inr (c, t)" and c: "c \<noteq> 0"
    and rows: "open_rows e s dto ns sa (d0\<lparr>accounts := t\<rparr>) = Inr ((b, items), d')"
    using run by (auto simp: open_new_def Let_def guarded_def)
  have kept: "books_kept d d0" by (rule daily_limit_kept [OF lim])
  have tab0: "batch_tables_ok (d0\<lparr>accounts := t\<rparr>)"
    using tabs checkAndIncrementDailyLimit_frame [OF lim] by (auto simp: batch_tables_ok_def)
  have ok0: "accounts_ok (accounts d0)" using kept money_okD(1) [OF inv] by (simp add: books_kept_def)
  note sh = freeze.stmt_shifts [OF ok0 sa fr c nn]
  note rw = open_rows_effect [OF rows tab0 ns]
  have "accounts_ok (accounts (d0\<lparr>accounts := t\<rparr>))" using sh(1) by (simp add: shifts_def)
  from shifts_trans [OF shifts_trans [OF shifts_kept [OF kept money_okD(1) [OF inv]] sh(1)] shifts_kept [OF rw(1) this]]
  show "shifts (\<lambda>v. if v = s then - sum_list ns else 0) (\<lambda>v. if v = s then sum_list ns else 0) 0 0 d d'"
    by (rule shifts_cong) simp_all
  show "account_of s (accounts d) \<noteq> None" using sa kept by (simp add: books_kept_def)
  show "find_batch (bt_id b) d' = Some b" "bt_status b = BatchTransferStatus.PROCESSING" "bt_sender b = s"
    "items = items_of (bt_id b) d'" "waiting d' items" "map bti_amount items = ns"
    "map bti_toUser items = map bd_toUser (bd_items dto)" "batch_tables_ok d'"
    "find_batch_no (bt_batchNo b) d' = Some b"
    by (rule rw)+
qed

subsection \<open>Settling\<close>

lemma finish_batch_kept: "books_kept d (finish_batch i from to sc fc d)" "batchTransferItems (finish_batch i from to sc fc d) = batchTransferItems d"
  by (simp_all add: finish_batch_def batch_table_kept)

lemma finish_batch_find:
  "find_batch k (finish_batch i from to sc fc d) = map_option (\<lambda>r. if bt_id r = i \<and> bt_status r \<in> from
     then r\<lparr>bt_status := to, bt_successCount := sc, bt_failedCount := fc\<rparr> else r) (find_batch k d)"
  by (simp add: finish_batch_def find_batch_def findUnique_updateRows)

lemma find_batch_SomeD: "find_batch i d = Some b \<Longrightarrow> b \<in> set (batchTransfers d) \<and> bt_id b = i"
  by (auto simp: find_batch_def dest: findUnique_SomeD)

text \<open>The release at the end of a batch, of at most what the batch still has frozen.\<close>

lemma release_step:
  assumes rel: "(if 0 < n then release_failed e j s n remark d else Inr d) = Inr d1" and inv: "money_ok_but s x d"
    and n: "0 \<le> n" "n \<le> x" and acc: "account_of s (accounts d) \<noteq> None"
  shows "shifts (\<lambda>v. if v = s then n else 0) (\<lambda>v. if v = s then - n else 0) 0 0 d d1"
    and "batchTransfers d1 = batchTransfers d" and "batchTransferItems d1 = batchTransferItems d"
proof -
  note ok = money_ok_butD(1) [OF inv]
  obtain a where a: "account_of s (accounts d) = Some a" using acc by auto
  have enough: "n \<le> frozenBalance a" using excepted_frozen [OF inv a] n(2) by simp
  have "shifts (\<lambda>v. if v = s then n else 0) (\<lambda>v. if v = s then - n else 0) 0 0 d d1 \<and>
      batchTransfers d1 = batchTransfers d \<and> batchTransferItems d1 = batchTransferItems d"
  proof (cases "0 < n")
    case True
    with rel release_failed_effect [OF _ ok n(1) a enough] show ?thesis by simp
  next
    case False
    then have "n = 0" "d1 = d" using rel n(1) by auto
    then show ?thesis using shifts_cong [OF shifts_kept [OF books_kept_refl ok]] by simp
  qed
  then show "shifts (\<lambda>v. if v = s then n else 0) (\<lambda>v. if v = s then - n else 0) 0 0 d d1"
    and "batchTransfers d1 = batchTransfers d" and "batchTransferItems d1 = batchTransferItems d" by auto
qed

lemma shifts_finish:
  assumes "shifts da df 0 0 d d1"
  shows "shifts da df 0 0 d (finish_batch i from to sc fc d1)"
proof -
  have "accounts_ok (accounts d1)" using assms by (simp add: shifts_def)
  from shifts_cong [OF shifts_trans [OF assms shifts_kept [OF finish_batch_kept(1) this]]] show ?thesis by simp
qed

lemma settle_body_effect:
  assumes run: "settle_body e j s batch (sc, fc, ft) d = Inr ((b, items), d')" and inv: "money_ok_but s x d"
    and ft: "0 \<le> ft" "ft \<le> x" and acc: "account_of s (accounts d) \<noteq> None"
    and row: "find_batch (bt_id batch) d = Some r" "bt_status r = BatchTransferStatus.PROCESSING"
  shows "shifts (\<lambda>v. if v = s then ft else 0) (\<lambda>v. if v = s then - ft else 0) 0 0 d d'"
    and "items = items_of (bt_id batch) d'" and "batchTransferItems d' = batchTransferItems d"
    and "b = r\<lparr>bt_status := BatchTransferStatus.COMPLETED, bt_successCount := sc, bt_failedCount := fc\<rparr>"
proof -
  let ?fin = "finish_batch (bt_id batch) {BatchTransferStatus.PROCESSING} BatchTransferStatus.COMPLETED sc fc"
  obtain d1 where rel: "(if 0 < ft then release_failed e j s ft (BatchRefundRemark (bt_batchNo batch)) d else Inr d) = Inr d1"
    and d': "d' = ?fin d1" and b: "find_batch (bt_id batch) d' = Some b" and it: "items = items_of (bt_id batch) d'"
    using run by (auto simp: settle_body_def Let_def)
  note sh = release_step [OF rel inv ft acc]
  show "shifts (\<lambda>v. if v = s then ft else 0) (\<lambda>v. if v = s then - ft else 0) 0 0 d d'"
    unfolding d' by (rule shifts_finish [OF sh(1)])
  show "items = items_of (bt_id batch) d'" by (rule it)
  show "batchTransferItems d' = batchTransferItems d" using sh by (simp add: d' finish_batch_kept)
  have "find_batch (bt_id batch) d1 = Some r" using sh row by (simp add: find_batch_def)
  then show "b = r\<lparr>bt_status := BatchTransferStatus.COMPLETED, bt_successCount := sc, bt_failedCount := fc\<rparr>"
    using b row(2) by (auto simp: d' finish_batch_find dest: find_batch_SomeD)
qed

subsection \<open>A whole batch\<close>

lemma paid_total_le: "waiting d xs \<Longrightarrow> paid_total xs d' \<le> item_total xs"
  by (induction xs) (auto simp: item_total_def paid_total_def waiting_Cons)

text \<open>Freeze, pay, release the rest: the sum of the three.\<close>

lemma outcome_shift:
  assumes "shifts (\<lambda>v. if v = s then - item_total zs else 0) (\<lambda>v. if v = s then item_total zs else 0) 0 0 d d1"
    and "processed s zs d1 d2"
    and "shifts (\<lambda>v. if v = s then item_total zs - paid_total zs d2 else 0)
      (\<lambda>v. if v = s then - (item_total zs - paid_total zs d2) else 0) 0 0 d2 d3"
  shows "shifts (\<lambda>v. paid_to zs d2 v - (if v = s then paid_total zs d2 else 0)) (\<lambda>_. 0) 0 0 d d3"
proof -
  have "shifts (paid_to zs d2) (\<lambda>v. if v = s then - paid_total zs d2 else 0) 0 0 d1 d2"
    using assms(2) by (simp add: processed_def)
  from shifts_cong [OF shifts_trans [OF shifts_trans [OF assms(1) this] assms(3)]] show ?thesis by simp
qed

text \<open>The rows of a batch after its items were processed, and the sums over them.\<close>

lemma processed_items_of:
  assumes ids: "distinct (map bti_id (batchTransferItems d))"
    and same: "map bti_id (batchTransferItems d') = map bti_id (batchTransferItems d)"
      "map bti_batch (batchTransferItems d') = map bti_batch (batchTransferItems d)"
  shows "items_of b d' = map (\<lambda>r. the (find_item (bti_id r) d')) (items_of b d)"
proof -
  let ?f = "\<lambda>r. the (find_item (bti_id r) d')"
  let ?t = "batchTransferItems d" and ?t' = "batchTransferItems d'"
  have len: "length ?t' = length ?t" using same(1) by (metis length_map)
  have f: "?f (?t ! i) = ?t' ! i" if "i < length ?t" for i
  proof -
    have "bti_id (?t ! i) = bti_id (?t' ! i)" using same(1) that len by (metis nth_map)
    moreover have "find_item (bti_id (?t' ! i)) d' = Some (?t' ! i)"
      unfolding find_item_def using ids same(1) that len by (intro findUnique_key_eq) auto
    ultimately show ?thesis by simp
  qed
  then have t': "?t' = map ?f ?t" using len by (intro nth_equalityI) simp_all
  have "bti_batch (?f r) = bti_batch r" if "r \<in> set ?t" for r
    using that f same(2) len by (metis in_set_conv_nth nth_map)
  then show ?thesis unfolding items_of_def by (subst t', simp add: filter_map o_def cong: filter_cong)
qed

lemma processed_row:
  assumes "processed s xs d d'" and "r \<in> set xs"
  shows "bti_amount (the (find_item (bti_id r) d')) = bti_amount r"
    and "bti_toUser (the (find_item (bti_id r) d')) = bti_toUser r"
    and "bti_status (the (find_item (bti_id r) d')) = (if was_paid d' r then BatchItemStatus.SUCCESS else BatchItemStatus.FAILED)"
proof -
  obtain st tx where "find_item (bti_id r) d' = Some (r\<lparr>bti_status := st, bti_transaction := tx\<rparr>)"
    "st \<noteq> BatchItemStatus.PENDING" using assms unfolding processed_def by blast
  then show "bti_amount (the (find_item (bti_id r) d')) = bti_amount r"
    and "bti_toUser (the (find_item (bti_id r) d')) = bti_toUser r"
    and "bti_status (the (find_item (bti_id r) d')) = (if was_paid d' r then BatchItemStatus.SUCCESS else BatchItemStatus.FAILED)"
    by (cases st; auto simp: was_paid_def)+
qed

lemma processed_other: "processed s xs d d' \<Longrightarrow> k \<notin> bti_id ` set xs \<Longrightarrow> find_item k d' = find_item k d"
  by (simp add: processed_def)

lemma processed_sums:
  assumes pr: "processed s xs d d'"
  defines "ys \<equiv> map (\<lambda>r. the (find_item (bti_id r) d')) xs"
  shows "map bti_amount ys = map bti_amount xs" and "map bti_toUser ys = map bti_toUser xs"
    and "item_total (with_status BatchItemStatus.SUCCESS ys) = paid_total xs d'"
    and "item_total (with_status BatchItemStatus.SUCCESS (filter (\<lambda>r. bti_toUser r = v) ys)) = paid_to xs d' v"
    and "length (with_status BatchItemStatus.SUCCESS ys) = length (filter (was_paid d') xs)"
    and "length (with_status BatchItemStatus.FAILED ys) = length (filter (\<lambda>r. \<not> was_paid d' r) xs)"
    and "item_total (with_status BatchItemStatus.FAILED ys) = item_total xs - paid_total xs d'"
proof -
  note row = processed_row [OF pr]
  then show "map bti_amount ys = map bti_amount xs" "map bti_toUser ys = map bti_toUser xs"
    unfolding ys_def by simp_all
  have "item_total (with_status BatchItemStatus.SUCCESS ys) = paid_total xs d' \<and>
    item_total (with_status BatchItemStatus.SUCCESS (filter (\<lambda>r. bti_toUser r = v) ys)) = paid_to xs d' v \<and>
    length (with_status BatchItemStatus.SUCCESS ys) = length (filter (was_paid d') xs) \<and>
    length (with_status BatchItemStatus.FAILED ys) = length (filter (\<lambda>r. \<not> was_paid d' r) xs) \<and>
    item_total (with_status BatchItemStatus.FAILED ys) = item_total xs - paid_total xs d'"
    using row unfolding ys_def
    by (induction xs) (auto simp: item_total_def with_status_def paid_total_def paid_to_def)
  then show "item_total (with_status BatchItemStatus.SUCCESS ys) = paid_total xs d'"
    and "item_total (with_status BatchItemStatus.SUCCESS (filter (\<lambda>r. bti_toUser r = v) ys)) = paid_to xs d' v"
    and "length (with_status BatchItemStatus.SUCCESS ys) = length (filter (was_paid d') xs)"
    and "length (with_status BatchItemStatus.FAILED ys) = length (filter (\<lambda>r. \<not> was_paid d' r) xs)"
    and "item_total (with_status BatchItemStatus.FAILED ys) = item_total xs - paid_total xs d'" by auto
qed

lemma createBatch_InrE:
  assumes "createBatch e s dto w = (Inr (b, items), w')"
  obtains ns evs batch items0 d1 counts d2 j where "batch_amounts (bd_items dto) = Inr ns"
    and "open_batch e s dto ns (wdb w\<lparr>riskEvents := evs\<rparr>) = Inr ((batch, items0), d1)"
    and "process_items e (length (bd_items dto)) s items0 (0, 0, 0) d1 = (counts, d2)"
    and "settle_body e j s batch counts d2 = Inr ((b, items), wdb w')"
proof -
  obtain ns sender where ns: "batch_amounts (bd_items dto) = Inr ns"
    and run: "(let ctx = \<lparr>ctx_user = s, ctx_type = TransactionType.TRANSFER, ctx_amount = sum_list ns, ctx_ip = None\<rparr>
       in andThen (risk_guard (now e) ctx w) (\<lambda>_ w.
         withLock (key_or ''batch-transfer:idem:'' (bd_idem dto) (''batch-transfer:user:'' @ s))
           (batch_locked e s dto ns) w)) = (Inr (b, items), w')"
    using assms by (auto simp: createBatch_def split: if_splits option.splits)
  obtain w1 where rg: "risk_guard (now e) \<lparr>ctx_user = s, ctx_type = TransactionType.TRANSFER, ctx_amount = sum_list ns,
      ctx_ip = None\<rparr> w = (Inr (), w1)"
    and lk: "withLock (key_or ''batch-transfer:idem:'' (bd_idem dto) (''batch-transfer:user:'' @ s))
           (batch_locked e s dto ns) w1 = (Inr (b, items), w')"
    using run by (auto simp: Let_def)
  obtain evs where evs: "wdb w1 = wdb w\<lparr>riskEvents := evs\<rparr>" using risk_guard_Inr [OF rg] by auto
  obtain w2 w3 where w2: "wdb w2 = wdb w1" and body: "batch_locked e s dto ns w2 = (Inr (b, items), w3)"
    and w3: "wdb w' = wdb w3" by (rule withLock_InrE [OF lk])
  obtain batch items0 d1 where op: "open_batch e s dto ns (wdb w2) = Inr ((batch, items0), d1)"
    and rest: "(case process_items e (length (bd_items dto)) s items0 (0, 0, 0) d1 of
           (counts, d) \<Rightarrow>
             andThen (transaction (settle_body e (length (bd_items dto) + length items0) s batch counts) (w2\<lparr>wdb := d\<rparr>)) (\<lambda>final w.
               record_quietly (now e) (uuid e (3 + length (bd_items dto) + length items0 + 1))
                 \<lparr>ctx_user = s, ctx_type = TransactionType.TRANSFER, ctx_amount = sum_list ns, ctx_ip = None\<rparr> final w))
       = (Inr (b, items), w3)"
    using body by (auto simp: batch_locked_def Let_def)
  obtain counts d2 where pr: "process_items e (length (bd_items dto)) s items0 (0, 0, 0) d1 = (counts, d2)" by fastforce
  from rest obtain x d3 where "settle_body e (length (bd_items dto) + length items0) s batch counts d2 = Inr (x, d3)"
    and "record_quietly (now e) (uuid e (3 + length (bd_items dto) + length items0 + 1))
       \<lparr>ctx_user = s, ctx_type = TransactionType.TRANSFER, ctx_amount = sum_list ns, ctx_ip = None\<rparr> x
       (w2\<lparr>wdb := d3\<rparr>) = (Inr (b, items), w3)"
    by (auto simp: pr)
  moreover from this(2) have "x = (b, items)" "wdb w3 = d3"
    using record_quietly_db [of "now e" "uuid e (3 + length (bd_items dto) + length items0 + 1)"
       "\<lparr>ctx_user = s, ctx_type = TransactionType.TRANSFER, ctx_amount = sum_list ns, ctx_ip = None\<rparr>" x "w2\<lparr>wdb := d3\<rparr>"]
    by auto
  ultimately show thesis using that [OF ns op [unfolded w2 evs] pr] w3 by simp
qed

text \<open>A new batch, from opening to settlement, as one shift of balances.\<close>

lemma new_batch_effect:
  assumes op: "open_new e s dto ns d = Inr ((batch, items0), d1)" and ns: "batch_amounts (bd_items dto) = Inr ns"
    and pr: "process_items e k s items0 (0, 0, 0) d1 = (counts, d2)"
    and st: "settle_body e j s batch counts d2 = Inr ((b, items), d3)"
    and inv: "money_ok d" and tabs: "batch_tables_ok d"
  shows "shifts (\<lambda>v. item_total (with_status BatchItemStatus.SUCCESS (filter (\<lambda>r. bti_toUser r = v) items)) -
        (if v = s then item_total (with_status BatchItemStatus.SUCCESS items) else 0)) (\<lambda>_. 0) 0 0 d d3"
    and "map bti_amount items = ns" and "map bti_toUser items = map bd_toUser (bd_items dto)"
    and "bt_status b = BatchTransferStatus.COMPLETED" and "bt_sender b = s"
    and "bt_successCount b = length (with_status BatchItemStatus.SUCCESS items)"
    and "bt_failedCount b = length (with_status BatchItemStatus.FAILED items)"
    and "bt_successCount b + bt_failedCount b = length items"
proof -
  note on = open_new_effect [OF op inv tabs ns]
  have inv0: "money_ok_but s 0 d" using inv by (simp add: money_ok_but_none)
  have inv1: "money_ok_but s (sum_list ns) d1" using money_ok_but_shift [OF inv0 on(1)] by simp
  note pe = process_items_effect [OF pr money_ok_butD(1) [OF inv1] on(6)]
  have p: "processed s items0 d1 d2" using pe by simp
  note ps = processed_sums [OF p]
  have sh: "shifts (paid_to items0 d2) (\<lambda>v. if v = s then - paid_total items0 d2 else 0) 0 0 d1 d2"
    using p by (simp add: processed_def)
  have inv2: "money_ok_but s (sum_list ns - paid_total items0 d2) d2"
    using money_ok_but_shift [OF inv1 sh] by simp
  have tot: "item_total items0 = sum_list ns" by (simp add: item_total_def on(7))
  have ge: "0 \<le> item_total items0 - paid_total items0 d2" using paid_total_le [OF on(6)] by simp
  have "map acc_user (accounts d2) = map acc_user (accounts d)" using on(1) sh by (simp add: shifts_def)
  then have us: "account_of s (accounts d2) \<noteq> None" using account_exists [of "accounts d2" "accounts d" s] on(11) by simp
  have row: "find_batch (bt_id batch) d2 = Some batch" using on(2) p by (simp add: find_batch_def processed_def)
  define sc where "sc = length (filter (was_paid d2) items0)"
  define fc where "fc = length (filter (\<lambda>r. \<not> was_paid d2 r) items0)"
  have cnt: "counts = (sc, fc, item_total items0 - paid_total items0 d2)" using pe by (simp add: sc_def fc_def)
  note se = settle_body_effect [OF st [unfolded cnt] inv2 ge _ us row on(3)]
  have its: "items = map (\<lambda>r. the (find_item (bti_id r) d2)) items0"
  proof -
    have "items = items_of (bt_id batch) d2" using se(2,3) tot by (simp add: items_of_def)
    also have "\<dots> = map (\<lambda>r. the (find_item (bti_id r) d2)) (items_of (bt_id batch) d1)"
      using on(9) p by (intro processed_items_of) (auto simp: batch_tables_ok_def processed_def)
    finally show ?thesis by (simp add: on(5))
  qed
  show "map bti_amount items = ns" "map bti_toUser items = map bd_toUser (bd_items dto)"
    using ps(1,2) on(7,8) by (simp_all add: its)
  have b: "b = batch\<lparr>bt_status := BatchTransferStatus.COMPLETED, bt_successCount := sc, bt_failedCount := fc\<rparr>"
    using se(4) tot by simp
  show "bt_status b = BatchTransferStatus.COMPLETED" "bt_sender b = s"
    using on(4) by (simp_all add: b)
  show "bt_successCount b = length (with_status BatchItemStatus.SUCCESS items)"
    "bt_failedCount b = length (with_status BatchItemStatus.FAILED items)"
    using ps(5,6) by (simp_all add: b its sc_def fc_def)
  show "bt_successCount b + bt_failedCount b = length items"
    by (simp add: b its sc_def fc_def sum_length_filter_compl)
  show "shifts (\<lambda>v. item_total (with_status BatchItemStatus.SUCCESS (filter (\<lambda>r. bti_toUser r = v) items)) -
        (if v = s then item_total (with_status BatchItemStatus.SUCCESS items) else 0)) (\<lambda>_. 0) 0 0 d d3"
    using outcome_shift [OF on(1) [folded tot] p] se(1) tot unfolding its ps(3,4) by simp
qed

lemma batch_tables_events: "batch_tables_ok (d\<lparr>riskEvents := evs\<rparr>) = batch_tables_ok d"
  by (simp add: batch_tables_ok_def)

lemma open_batch_fresh:
  assumes "open_batch e s dto ns (d\<lparr>riskEvents := evs\<rparr>) = Inr (r, d')"
    and "truthy (bd_idem dto) \<longrightarrow> find_batch_idem (the (bd_idem dto)) d = None"
  shows "open_new e s dto ns (d\<lparr>riskEvents := evs\<rparr>) = Inr (r, d')"
  using assms by (auto simp: open_batch_def find_batch_idem_def split: option.splits if_splits)

lemma new_batch_run:
  assumes run: "createBatch e s dto w = (Inr (b, items), w')" and inv: "money_ok (wdb w)" and tabs: "batch_tables_ok (wdb w)"
    and new: "truthy (bd_idem dto) \<longrightarrow> find_batch_idem (the (bd_idem dto)) (wdb w) = None"
  obtains evs ns where "batch_amounts (bd_items dto) = Inr ns" and "map bti_amount items = ns"
    and "shifts (\<lambda>v. item_total (with_status BatchItemStatus.SUCCESS (filter (\<lambda>r. bti_toUser r = v) items)) -
        (if v = s then item_total (with_status BatchItemStatus.SUCCESS items) else 0)) (\<lambda>_. 0) 0 0
        (wdb w\<lparr>riskEvents := evs\<rparr>) (wdb w')"
    and "map bti_toUser items = map bd_toUser (bd_items dto)"
    and "bt_status b = BatchTransferStatus.COMPLETED" and "bt_sender b = s"
    and "bt_successCount b = length (with_status BatchItemStatus.SUCCESS items)"
    and "bt_failedCount b = length (with_status BatchItemStatus.FAILED items)"
    and "bt_successCount b + bt_failedCount b = length items"
proof -
  obtain ns evs batch items0 d1 counts d2 j where ns: "batch_amounts (bd_items dto) = Inr ns"
    and op: "open_batch e s dto ns (wdb w\<lparr>riskEvents := evs\<rparr>) = Inr ((batch, items0), d1)"
    and pr: "process_items e (length (bd_items dto)) s items0 (0, 0, 0) d1 = (counts, d2)"
    and st: "settle_body e j s batch counts d2 = Inr ((b, items), wdb w')"
    by (rule createBatch_InrE [OF run])
  have "money_ok (wdb w\<lparr>riskEvents := evs\<rparr>)" using ignores_eventsD [OF money_ok_events inv] .
  note ef = new_batch_effect [OF open_batch_fresh [OF op new] ns pr st this] 
  show thesis by (rule that [OF ns]) (use ef tabs in \<open>simp_all add: batch_tables_events\<close>)
qed

definition sample_batch :: BatchDto where
  "sample_batch = \<lparr>bd_items = [\<lparr>bd_toUser = ''bob'', bd_amount = Num 2\<rparr>, \<lparr>bd_toUser = ''nobody'', bd_amount = Num 3\<rparr>],
     bd_idem = Some ''key''\<rparr>"

lemma sample_batch_runs: "isl (fst (createBatch sample_env ''alice'' sample_batch sample_world)) = False"
  by code_simp

lemma sample_batch_tables: "batch_tables_ok sample_db"
  by (simp add: batch_tables_ok_def sample_db_def)

text \<open>
  C17. A batch that was not submitted before and runs to its end is completed, with one item per
  requested payment, in order and for the requested amounts; each item is either paid or failed; every
  payee receives exactly the paid items addressed to them, the sender pays their sum, nothing of the
  batch stays frozen, and the books are in order. (The status is COMPLETED whatever failed, as the comment of the
  enumeration says; the merchants' guide has PARTIAL_FAILED and FAILED, which the code does not know.)
\<close>

theorem batch_pays_exactly:
  assumes "createBatch e s dto w = (Inr (b, items), w')" and "money_ok (wdb w)" and "batch_tables_ok (wdb w)"
    and "truthy (bd_idem dto) \<longrightarrow> find_batch_idem (the (bd_idem dto)) (wdb w) = None"
  shows "bt_status b = BatchTransferStatus.COMPLETED \<and>
    map bti_toUser items = map bd_toUser (bd_items dto) \<and> batch_amounts (bd_items dto) = Inr (map bti_amount items) \<and>
    bt_successCount b = length (with_status BatchItemStatus.SUCCESS items) \<and>
    bt_failedCount b = length (with_status BatchItemStatus.FAILED items) \<and>
    bt_successCount b + bt_failedCount b = length (bd_items dto) \<and>
    (\<forall>v. available_of v (accounts (wdb w')) = available_of v (accounts (wdb w)) +
       item_total (with_status BatchItemStatus.SUCCESS (filter (\<lambda>r. bti_toUser r = v) items)) -
       (if v = s then item_total (with_status BatchItemStatus.SUCCESS items) else 0)) \<and>
    (\<forall>v. frozen_of v (accounts (wdb w')) = frozen_of v (accounts (wdb w))) \<and> money_ok (wdb w')"
  using assms
proof (rule new_batch_run)
  fix evs ns
  let ?d = "wdb w\<lparr>riskEvents := evs\<rparr>"
  assume *: "batch_amounts (bd_items dto) = Inr ns" "map bti_amount items = ns"
    "shifts (\<lambda>v. item_total (with_status BatchItemStatus.SUCCESS (filter (\<lambda>r. bti_toUser r = v) items)) -
        (if v = s then item_total (with_status BatchItemStatus.SUCCESS items) else 0)) (\<lambda>_. 0) 0 0 ?d (wdb w')"
    "map bti_toUser items = map bd_toUser (bd_items dto)" "bt_status b = BatchTransferStatus.COMPLETED"
    "bt_successCount b = length (with_status BatchItemStatus.SUCCESS items)"
    "bt_failedCount b = length (with_status BatchItemStatus.FAILED items)"
    "bt_successCount b + bt_failedCount b = length items"
  have "money_ok_but s 0 ?d" using ignores_eventsD [OF money_ok_events assms(2)] by (simp add: money_ok_but_none)
  from money_ok_but_shift [OF this *(3)] have "money_ok (wdb w')" by (simp add: money_ok_but_none)
  moreover have "length items = length (bd_items dto)" using *(4) by (metis length_map)
  ultimately show ?thesis using * by (simp add: shifts_def)
qed

theorem batch_pays_exactly_witness:
  "\<exists>b items w'. createBatch sample_env ''alice'' sample_batch sample_world = (Inr (b, items), w') \<and>
     bt_status b = BatchTransferStatus.COMPLETED \<and> map bti_toUser items = [''bob'', ''nobody''] \<and> money_ok (wdb w')"
proof -
  obtain b items w' where run: "createBatch sample_env ''alice'' sample_batch sample_world = (Inr (b, items), w')"
    using not_isl_fst [OF sample_batch_runs] by auto
  have "truthy (bd_idem sample_batch) \<longrightarrow> find_batch_idem (the (bd_idem sample_batch)) (wdb sample_world) = None"
    by (simp add: find_batch_idem_def sample_world_def sample_db_def)
  from batch_pays_exactly [OF run sample_world_money_ok _ this] run show ?thesis
    by (auto simp: sample_batch_tables sample_batch_def)
qed

lemma new_batch_money_ok:
  assumes "createBatch e s dto w = (Inr (b, items), w')" and "money_ok (wdb w)" and "batch_tables_ok (wdb w)"
    and "truthy (bd_idem dto) \<longrightarrow> find_batch_idem (the (bd_idem dto)) (wdb w) = None"
  shows "money_ok (wdb w')"
  using assms
proof (rule new_batch_run)
  fix evs
  let ?d = "wdb w\<lparr>riskEvents := evs\<rparr>"
  assume sh: "shifts (\<lambda>v. item_total (with_status BatchItemStatus.SUCCESS (filter (\<lambda>r. bti_toUser r = v) items)) -
        (if v = s then item_total (with_status BatchItemStatus.SUCCESS items) else 0)) (\<lambda>_. 0) 0 0 ?d (wdb w')"
  have "money_ok_but s 0 ?d" using ignores_eventsD [OF money_ok_events assms(2)] by (simp add: money_ok_but_none)
  from money_ok_but_shift [OF this sh] show "money_ok (wdb w')" by (simp add: money_ok_but_none)
qed

subsection \<open>Submitting a batch again\<close>

text \<open>Items that were already processed count as failures when the loop meets them again.\<close>

lemma process_settled_items:
  assumes "\<forall>r \<in> set xs. find_item (bti_id r) d = Some r \<and> bti_status r \<noteq> BatchItemStatus.PENDING"
  shows "process_items e j s xs (sc, fc, ft) d = ((sc, fc + length xs, ft + item_total xs), d)"
  using assms
  by (induction xs arbitrary: j fc ft) (auto simp: processItem_def item_body_def item_total_def)

lemma items_of_found:
  assumes "batch_tables_ok d" and "r \<in> set (items_of i d)"
  shows "find_item (bti_id r) d = Some r" and "0 \<le> bti_amount r"
  using assms findUnique_key_eq [of bti_id "batchTransferItems d" r]
  by (auto simp: items_of_def find_item_def batch_tables_ok_def list_all_iff)

definition settled_batch :: "string \<Rightarrow> db \<Rightarrow> bool" where
  "settled_batch i d = list_all (\<lambda>r. bti_status r \<noteq> BatchItemStatus.PENDING) (items_of i d)"

lemma replay_run:
  assumes run: "createBatch e s dto w = (Inr (b, items), w')" and inv: "money_ok (wdb w)" and tabs: "batch_tables_ok (wdb w)"
    and old: "truthy (bd_idem dto)" "find_batch_idem (the (bd_idem dto)) (wdb w) = Some batch" "settled_batch (bt_id batch) (wdb w)"
    and n: "0 < item_total (items_of (bt_id batch) (wdb w))"
    and a: "account_of s (accounts (wdb w)) = Some a" "item_total (items_of (bt_id batch) (wdb w)) \<le> frozenBalance a"
  obtains evs where "shifts (\<lambda>v. if v = s then item_total (items_of (bt_id batch) (wdb w)) else 0)
      (\<lambda>v. if v = s then - item_total (items_of (bt_id batch) (wdb w)) else 0) 0 0 (wdb w\<lparr>riskEvents := evs\<rparr>) (wdb w')"
proof -
  let ?n = "item_total (items_of (bt_id batch) (wdb w))"
  obtain ns evs batch0 items0 d1 counts d2 j where
    op: "open_batch e s dto ns (wdb w\<lparr>riskEvents := evs\<rparr>) = Inr ((batch0, items0), d1)"
    and pr: "process_items e (length (bd_items dto)) s items0 (0, 0, 0) d1 = (counts, d2)"
    and st: "settle_body e j s batch0 counts d2 = Inr ((b, items), wdb w')"
    by (rule createBatch_InrE [OF run])
  let ?d = "wdb w\<lparr>riskEvents := evs\<rparr>"
  have "batch0 = batch" and i0: "items0 = items_of (bt_id batch) (wdb w)" and d1: "d1 = ?d"
    using op old(1,2) by (auto simp: open_batch_def find_batch_idem_def items_of_def)
  have "\<forall>r \<in> set items0. find_item (bti_id r) d1 = Some r \<and> bti_status r \<noteq> BatchItemStatus.PENDING"
    using old(3) items_of_found [OF tabs] by (auto simp: i0 d1 settled_batch_def list_all_iff find_item_def)
  from process_settled_items [OF this] pr have c: "counts = (0, length items0, ?n)" and d2: "d2 = ?d"
    by (simp_all add: i0 d1)
  have ok: "accounts_ok (accounts ?d)" using money_okD(1) [OF inv] by simp
  obtain d3 where rel: "release_failed e j s ?n (BatchRefundRemark (bt_batchNo batch0)) ?d = Inr d3"
    and w': "wdb w' = finish_batch (bt_id batch0) {BatchTransferStatus.PROCESSING} BatchTransferStatus.COMPLETED 0 (length items0) d3"
    using st n by (auto simp: settle_body_def Let_def c d2)
  have "account_of s (accounts ?d) = Some a" using a(1) by simp
  note rl = release_failed_effect [OF rel ok less_imp_le [OF n] this a(2)]
  have "accounts_ok (accounts d3)" using rl(1) by (simp add: shifts_def)
  from shifts_cong [OF shifts_trans [OF rl(1) shifts_kept [OF finish_batch_kept(1) this]]]
  have "shifts (\<lambda>v. if v = s then ?n else 0) (\<lambda>v. if v = s then - ?n else 0) 0 0 ?d (wdb w')"
    unfolding w' by simp
  then show thesis by (rule that)
qed

definition replay_world :: world where
  "replay_world = snd (createBatch sample_env ''alice'' sample_batch sample_world)"

definition later_env :: env where
  "later_env = sample_env\<lparr>now := 600, uuid := (\<lambda>i. ''v'' @ show_nat i), nano := (\<lambda>i. ''m'' @ show_nat i)\<rparr>"

text \<open>
  C19. Submitting a completed batch again with its idempotency key does not just return it: every item
  counts as failed, and the batch's whole amount is taken out of the sender's frozen balance, where it
  belongs to other orders by now, and made available; after that the frozen balance no longer covers
  what is held.
\<close>

theorem batch_replay_unfreezes:
  assumes "createBatch e s dto w = (Inr (b, items), w')" and "money_ok (wdb w)" and "batch_tables_ok (wdb w)"
    and "truthy (bd_idem dto)" and "find_batch_idem (the (bd_idem dto)) (wdb w) = Some batch"
    and "settled_batch (bt_id batch) (wdb w)" and "0 < item_total (items_of (bt_id batch) (wdb w))"
    and "account_of s (accounts (wdb w)) = Some a"
    and "item_total (items_of (bt_id batch) (wdb w)) \<le> frozenBalance a"
  shows "frozen_of s (accounts (wdb w')) = frozen_of s (accounts (wdb w)) - item_total (items_of (bt_id batch) (wdb w)) \<and>
    available_of s (accounts (wdb w')) = available_of s (accounts (wdb w)) + item_total (items_of (bt_id batch) (wdb w)) \<and>
    \<not> money_ok (wdb w')"
  using assms
proof (rule replay_run)
  fix evs
  let ?n = "item_total (items_of (bt_id batch) (wdb w))" and ?d = "wdb w\<lparr>riskEvents := evs\<rparr>"
  assume sh: "shifts (\<lambda>v. if v = s then ?n else 0) (\<lambda>v. if v = s then - ?n else 0) 0 0 ?d (wdb w')"
  have "money_ok_but s 0 ?d" using ignores_eventsD [OF money_ok_events assms(2)] by (simp add: money_ok_but_none)
  from money_ok_but_shift [OF this sh] have but: "money_ok_but s (- ?n) (wdb w')" by simp
  have "map acc_user (accounts (wdb w')) = map acc_user (accounts (wdb w))" using sh by (simp add: shifts_def)
  then have "account_of s (accounts (wdb w')) \<noteq> None"
    using account_exists [of "accounts (wdb w')" "accounts (wdb w)" s] assms(8) by simp
  with money_ok_but_not_ok [OF but] assms(7) sh show ?thesis by (simp add: shifts_def)
qed

theorem batch_replay_unfreezes_witness:
  "\<not> money_ok (wdb (snd (createBatch later_env ''alice'' sample_batch replay_world)))"
proof -
  let ?d = "wdb replay_world"
  let ?b = "the (find_batch_idem (the (bd_idem sample_batch)) ?d)" and ?a = "the (account_of ''alice'' (accounts ?d))"
  obtain b items w1 where first: "createBatch sample_env ''alice'' sample_batch sample_world = (Inr (b, items), w1)"
    using not_isl_fst [OF sample_batch_runs] by auto
  have "truthy (bd_idem sample_batch) \<longrightarrow> find_batch_idem (the (bd_idem sample_batch)) (wdb sample_world) = None"
    by (simp add: find_batch_idem_def sample_world_def sample_db_def)
  from new_batch_money_ok [OF first sample_world_money_ok _ this]
  have ok: "money_ok ?d" by (simp add: sample_batch_tables replay_world_def first)
  have "isl (fst (createBatch later_env ''alice'' sample_batch replay_world)) = False" by code_simp
  then obtain r w' where run: "createBatch later_env ''alice'' sample_batch replay_world = (Inr r, w')"
    using not_isl_fst by blast
  have "batch_tables_ok ?d" by code_simp
  moreover have "find_batch_idem (the (bd_idem sample_batch)) ?d = Some ?b"
  proof -
    have "find_batch_idem (the (bd_idem sample_batch)) ?d \<noteq> None" by code_simp
    then show ?thesis by simp
  qed
  moreover have "settled_batch (bt_id ?b) ?d" by code_simp
  moreover have "0 < item_total (items_of (bt_id ?b) ?d)" by code_simp
  moreover have "account_of ''alice'' (accounts ?d) = Some ?a"
  proof -
    have "account_of ''alice'' (accounts ?d) \<noteq> None" by code_simp
    then show ?thesis by simp
  qed
  moreover have "item_total (items_of (bt_id ?b) ?d) \<le> frozenBalance ?a" by code_simp
  moreover have "truthy (bd_idem sample_batch)" by (simp add: sample_batch_def truthy_def)
  ultimately show ?thesis using batch_replay_unfreezes [of later_env "''alice''" sample_batch replay_world "fst r" "snd r" w' ?b ?a] ok run
    by simp
qed

end
