(* ===== verification/BatchRecovery.thy ===== *)
theory BatchRecovery
  imports BatchSafety
begin

text \<open>
  A batch that a crash interrupts: resuming it while items are waiting ends exactly like an
  uninterrupted run; a crash after the last item, before the settlement, is never made good.
\<close>

subsection \<open>Two halves of a loop\<close>

lemma paid_append:
  "paid_to (xs @ ys) d v = paid_to xs d v + paid_to ys d v" "paid_total (xs @ ys) d = paid_total xs d + paid_total ys d"
  by (simp_all add: paid_to_def paid_total_def)

lemma processed_append:
  assumes p: "processed s xs d d1" and q: "processed s ys d1 d2" and dis: "bti_id ` set xs \<inter> bti_id ` set ys = {}"
  shows "processed s (xs @ ys) d d2" and "\<forall>r \<in> set xs. was_paid d2 r = was_paid d1 r"
proof -
  have fx: "find_item (bti_id r) d2 = find_item (bti_id r) d1" if "r \<in> set xs" for r
    using processed_other [OF q] dis that by blast
  then show same: "\<forall>r \<in> set xs. was_paid d2 r = was_paid d1 r" by (simp add: was_paid_def)
  have sums: "paid_to xs d2 = paid_to xs d1" "paid_total xs d2 = paid_total xs d1"
    using same by (auto simp: paid_to_def paid_total_def fun_eq_iff cong: map_cong)
  have sp: "shifts (paid_to xs d2) (\<lambda>v. if v = s then - paid_total xs d2 else 0) 0 0 d d1"
    using p unfolding sums by (simp add: processed_def)
  have "shifts (paid_to ys d2) (\<lambda>v. if v = s then - paid_total ys d2 else 0) 0 0 d1 d2"
    using q by (simp add: processed_def)
  from shifts_cong [OF shifts_trans [OF sp this]]
  have "shifts (paid_to (xs @ ys) d2) (\<lambda>v. if v = s then - paid_total (xs @ ys) d2 else 0) 0 0 d d2"
    by (simp add: paid_append)
  with p q fx show "processed s (xs @ ys) d d2" unfolding processed_def
    by (auto simp: image_Un ball_Un)
qed

lemma waiting_append:
  "waiting d (xs @ ys) \<longleftrightarrow> waiting d xs \<and> waiting d ys \<and> bti_id ` set xs \<inter> bti_id ` set ys = {}"
  by (auto simp: waiting_def)

lemma waiting_rest:
  assumes "processed s xs d d1" and "waiting d (xs @ ys)"
  shows "waiting d1 ys"
proof -
  have "find_item (bti_id r) d1 = find_item (bti_id r) d" if "r \<in> set ys" for r
    using assms(2) that by (intro processed_other [OF assms(1)]) (auto simp: waiting_append)
  then show ?thesis using assms(2) by (auto simp: waiting_append waiting_def)
qed

subsection \<open>The refund of the recovery\<close>

text \<open>When it gets through, it does what the refund at the end of an uninterrupted run does.\<close>

lemma resume_refund_release:
  "resume_refund e j b n d = (Inr (), d') \<Longrightarrow>
     release_failed e j (bt_sender b) n (BatchRefundRemark (bt_batchNo b)) d = Inr d'"
  by (auto simp: resume_refund_def release_failed_def split: option.splits sum.splits if_splits)

text \<open>Paying items does not look like a refund.\<close>

lemma item_rows_orders:
  "item_rows e j s item tu sa ta after d = Inr (r, d') \<Longrightarrow>
     \<exists>tx. transactionOrders d' = transactionOrders d @ [tx] \<and> tx_id tx = uuid e (3 + j) \<and> tx_orderNo tx = generateOrderNo e (2 + j) ''T''
      \<and> tx_remark tx = BatchItemRemark"
  by (auto simp: item_rows_def Let_def createOrder_Inr batch_order_def add_ledger_def add_bill_def markItemPaid_def)

lemma markItemFailed_orders [simp]: "transactionOrders (markItemFailed i d) = transactionOrders d"
  by (simp add: markItemFailed_def)

lemma processItem_orders:
  assumes "processItem e j i s d = (r, d')"
  shows "transactionOrders d' = transactionOrders d \<or>
    (\<exists>tx. transactionOrders d' = transactionOrders d @ [tx] \<and> tx_id tx = uuid e (3 + j) \<and> tx_orderNo tx = generateOrderNo e (2 + j) ''T''
      \<and> tx_remark tx = BatchItemRemark)"
proof (cases "item_body e j i s d")
  case (Inl err)
  with assms show ?thesis by (auto simp: processItem_def)
next
  case (Inr y)
  with assms have "item_body e j i s d = Inr (r, d')" by (simp add: processItem_def)
  then show ?thesis
    by (auto simp: item_body_def credit_account_def split: option.splits if_splits dest!: item_rows_orders)
qed

lemma processItem_refunded: "processItem e j i s d = (r, d') \<Longrightarrow> refunded b d' = refunded b d"
  using processItem_orders [of e j i s d r d'] by (auto simp: refunded_def)

lemma process_items_refunded: "process_items e j s xs acc d = (counts, d') \<Longrightarrow> refunded b d' = refunded b d"
proof (induction xs arbitrary: j acc d)
  case (Cons x xs)
  obtain sc fc ft where acc: "acc = (sc, fc, ft)" by (cases acc)
  obtain r d1 where run: "processItem e j (bti_id x) s d = (r, d1)" by fastforce
  have "refunded b d' = refunded b d1"
    using Cons.prems by (cases r) (simp_all add: acc run Cons.IH)
  with processItem_refunded [OF run] show ?case by simp
qed simp

subsection \<open>The same items with other identifiers\<close>

text \<open>
  The recovery runs in another process, so its orders have other identifiers and times. What does not depend on them:
  users, accounts, the batches, and the items but for the order they were paid by.
\<close>

definition strip :: "BatchTransferItem \<Rightarrow> BatchTransferItem" where "strip r = r\<lparr>bti_transaction := None\<rparr>"

definition alike :: "db \<Rightarrow> db \<Rightarrow> bool" where
  "alike d c = (users d = users c \<and> accounts d = accounts c \<and> batchTransfers d = batchTransfers c \<and>
     map strip (batchTransferItems d) = map strip (batchTransferItems c))"

text \<open>The identifiers the next \<open>n\<close> orders of a run will get repeat neither each other nor an order of the table.\<close>

definition unused_ids :: "env \<Rightarrow> nat \<Rightarrow> nat \<Rightarrow> db \<Rightarrow> bool" where
  "unused_ids e j n d = (let is = map (\<lambda>k. uuid e (3 + k)) [j..<j + n]; nos = map (\<lambda>k. generateOrderNo e (2 + k) ''T'') [j..<j + n]
     in distinct is \<and> distinct nos \<and> list_all (\<lambda>r. tx_id r \<notin> set is \<and> tx_orderNo r \<notin> set nos) (transactionOrders d))"

lemma unused_now:
  "unused_ids e j (Suc n) d \<Longrightarrow> r \<in> set (transactionOrders d) \<Longrightarrow> tx_id r \<noteq> uuid e (3 + j) \<and> tx_orderNo r \<noteq> generateOrderNo e (2 + j) ''T''"
proof -
  have up: "[j..<j + Suc n] = j # [Suc j..<Suc j + n]" by (simp add: upt_conv_Cons del: upt_Suc)
  show "unused_ids e j (Suc n) d \<Longrightarrow> r \<in> set (transactionOrders d) \<Longrightarrow>
      tx_id r \<noteq> uuid e (3 + j) \<and> tx_orderNo r \<noteq> generateOrderNo e (2 + j) ''T''"
    unfolding unused_ids_def up Let_def by (auto simp: list_all_iff)
qed

lemma unused_next:
  assumes "unused_ids e j (Suc n) d" and "transactionOrders d' = transactionOrders d \<or>
    (\<exists>tx. transactionOrders d' = transactionOrders d @ [tx] \<and> tx_id tx = uuid e (3 + j) \<and> tx_orderNo tx = generateOrderNo e (2 + j) ''T'')"
  shows "unused_ids e (Suc j) n d'"
proof -
  have up: "[j..<j + Suc n] = j # [Suc j..<Suc j + n]" by (simp add: upt_conv_Cons del: upt_Suc)
  show ?thesis using assms unfolding unused_ids_def up Let_def by (auto simp: list_all_iff)
qed

lemma new_order:
  assumes "unused_ids e j (Suc n) d"
  shows "createOrder (batch_order e (3 + j) (2 + j) ty fu tu x rem) d =
    Inr (d\<lparr>transactionOrders := transactionOrders d @ [batch_order e (3 + j) (2 + j) ty fu tu x rem]\<rparr>)"
  using unused_now [OF assms] by (fastforce simp: createOrder_Inr tx_conflict_def batch_order_def)

lemma strip_eq:
  "strip r = strip r' \<longleftrightarrow> bti_id r = bti_id r' \<and> bti_batch r = bti_batch r' \<and> bti_toUser r = bti_toUser r' \<and>
     bti_amount r = bti_amount r' \<and> bti_status r = bti_status r'"
  by (cases r; cases r') (simp add: strip_def)

lemma strip_updateRows:
  assumes "map strip t = map strip u" and "\<And>r r'. strip r = strip r' \<Longrightarrow> P r = P r' \<and> strip (f r) = strip (g r')"
  shows "map strip (updateRows P f t) = map strip (updateRows P g u)"
  using assms(1)
proof (induction t arbitrary: u)
  case (Cons r t)
  then obtain r' u' where u: "u = r' # u'" and one: "strip r = strip r'" and rest: "map strip t = map strip u'" by (cases u) auto
  show ?case using Cons.IH [OF rest] assms(2) [OF one] one by (simp add: u updateRows_def)
qed (simp add: updateRows_def)

lemma alike_find:
  assumes "alike d c"
  shows "map_option strip (find_item i d) = map_option strip (find_item i c)"
proof -
  have "map_option strip (findUnique (\<lambda>r. bti_id r = i) t) = map_option strip (findUnique (\<lambda>r. bti_id r = i) u)"
    if "map strip t = map strip u" for t u
    using that
  proof (induction t arbitrary: u)
    case (Cons r t)
    then obtain r' u' where u: "u = r' # u'" and one: "strip r = strip r'" and rest: "map strip t = map strip u'" by (cases u) auto
    have "bti_id r = bti_id r'" using one by (simp only: strip_eq)
    then show ?case using Cons.IH [OF rest] one by (cases "bti_id r' = i") (simp_all add: u)
  qed simp
  from this [of "batchTransferItems d" "batchTransferItems c"] show ?thesis
    using assms unfolding alike_def find_item_def by blast
qed

lemma alike_failed: "alike d c \<Longrightarrow> alike (markItemFailed i d) (markItemFailed i c)"
  by (auto simp: alike_def markItemFailed_def strip_eq intro!: strip_updateRows)

text \<open>Two outcomes of an item: both roll back, or both end with the same answer.\<close>

definition same_outcome :: "exn + (bool \<times> db) \<Rightarrow> exn + (bool \<times> db) \<Rightarrow> bool" where
  "same_outcome x y = (case x of Inl _ \<Rightarrow> isl y | Inr (b, d) \<Rightarrow> (case y of Inl _ \<Rightarrow> False | Inr (b', c) \<Rightarrow> b = b' \<and> alike d c))"

lemma item_rows_alike:
  assumes al: "alike d c" and x: "strip x = strip x'" and u: "unused_ids e j (Suc n) d" "unused_ids e' k (Suc n) c"
  shows "same_outcome (item_rows e j s x tu sa ta after d) (item_rows e' k s x' tu sa ta after c)"
proof -
  have acc: "accounts d = accounts c" "bti_amount x = bti_amount x'" "bti_id x = bti_id x'" using al x by (auto simp: alike_def strip_eq)
  show ?thesis
    unfolding item_rows_def Let_def new_order [OF u(1)] new_order [OF u(2)] bindE_simps
    using al x
    by (auto simp: acc same_outcome_def alike_def markItemPaid_def add_ledger_def add_bill_def strip_eq or_throw_def
        intro!: strip_updateRows split: option.split)
qed

lemma item_body_alike:
  assumes al: "alike d c" and u: "unused_ids e j (Suc n) d" "unused_ids e' k (Suc n) c"
  shows "same_outcome (item_body e j i s d) (item_body e' k i s c)"
proof (cases "find_item i d")
  case None
  then have "find_item i c = None" using alike_find [OF al, of i] by simp
  then show ?thesis using None al by (simp add: item_body_def same_outcome_def)
next
  case (Some x)
  then obtain x' where x': "find_item i c = Some x'" and xx: "strip x = strip x'" using alike_find [OF al, of i] by (cases "find_item i c") auto
  have eq: "bti_status x' = bti_status x" "bti_toUser x' = bti_toUser x" "bti_amount x' = bti_amount x"
    using xx by (auto simp: strip_eq)
  have same: "users c = users d" "accounts c = accounts d" using al by (simp_all add: alike_def)
  have fu: "find_user v c = find_user v d" for v by (simp add: find_user_def same)
  have rows: "same_outcome (item_rows e j s x tu sa ta after (d\<lparr>accounts := t\<rparr>)) (item_rows e' k s x' tu sa ta after (c\<lparr>accounts := t\<rparr>))" for tu sa ta after t
  proof (rule item_rows_alike [OF _ xx])
    show "alike (d\<lparr>accounts := t\<rparr>) (c\<lparr>accounts := t\<rparr>)" using al by (simp add: alike_def)
    show "unused_ids e j (Suc n) (d\<lparr>accounts := t\<rparr>)" "unused_ids e' k (Suc n) (c\<lparr>accounts := t\<rparr>)" using u by (simp_all add: unused_ids_def)
  qed
  have credited: "same_outcome (credit_account b m (d\<lparr>accounts := t\<rparr>) (\<lambda>up d2. item_rows e j s x tu sa ta (availableBalance up) d2))
     (credit_account b m (c\<lparr>accounts := t\<rparr>) (\<lambda>up d2. item_rows e' k s x' tu sa ta (availableBalance up) d2))" for b m t tu sa ta
    using rows by (cases "acc_credit b m t") (auto simp: credit_account_def same_outcome_def)
  have failed: "same_outcome (Inr (False, markItemFailed i d)) (Inr (False, markItemFailed i c))"
    using alike_failed [OF al] by (simp add: same_outcome_def)
  have "same_outcome (bindE (acc_release a m (accounts d)) (\<lambda>(count, t). if count = 0 then Inr (False, markItemFailed i d)
        else credit_account b m (d\<lparr>accounts := t\<rparr>) (\<lambda>up d2. item_rows e j s x tu sa ta (availableBalance up) d2)))
     (bindE (acc_release a m (accounts d)) (\<lambda>(count, t). if count = 0 then Inr (False, markItemFailed i c)
        else credit_account b m (c\<lparr>accounts := t\<rparr>) (\<lambda>up d2. item_rows e' k s x' tu sa ta (availableBalance up) d2)))" for a b m tu sa ta
  proof (cases "acc_release a m (accounts d)")
    case (Inr y)
    then show ?thesis using failed credited by (cases y) simp
  qed (simp add: same_outcome_def)
  note paid = this
  have idle: "same_outcome (Inr (False, d)) (Inr (False, c))" using al by (simp add: same_outcome_def)
  show ?thesis
    unfolding item_body_def Some x' option.case eq same fu
    using failed paid idle by (auto split: option.split)
qed

lemma processItem_alike:
  assumes al: "alike d c" and u: "unused_ids e j (Suc n) d" "unused_ids e' k (Suc n) c"
    and run: "processItem e j i s d = (r, d')" "processItem e' k i s c = (r', c')"
  shows "r = r' \<and> alike d' c'"
  using item_body_alike [OF al u, of i s] alike_failed [OF al, of i] run
  by (auto simp: processItem_def same_outcome_def split: sum.splits)

lemma processItem_unused: "unused_ids e j (Suc n) d \<Longrightarrow> processItem e j i s d = (r, d') \<Longrightarrow> unused_ids e (Suc j) n d'"
  using processItem_orders by (fastforce intro: unused_next)

lemma process_items_alike:
  assumes "alike d c" and "unused_ids e j (length xs + n) d" and "unused_ids e' k (length xs + n) c"
    and "process_items e j s xs acc d = (counts, d')" and "process_items e' k s xs acc c = (counts', c')"
  shows "counts = counts' \<and> alike d' c' \<and> unused_ids e (j + length xs) n d' \<and> unused_ids e' (k + length xs) n c'"
  using assms
proof (induction xs arbitrary: j k acc d c)
  case (Cons x xs)
  obtain sc fc ft where acc: "acc = (sc, fc, ft)" by (cases acc)
  obtain r d1 r' c1 where run: "processItem e j (bti_id x) s d = (r, d1)" "processItem e' k (bti_id x) s c = (r', c1)" by fastforce
  have u: "unused_ids e j (Suc (length xs + n)) d" "unused_ids e' k (Suc (length xs + n)) c" using Cons.prems(2,3) by simp_all
  have al: "r = r'" "alike d1 c1" using processItem_alike [OF Cons.prems(1) u run] by auto
  note u1 = processItem_unused [OF u(1) run(1)] processItem_unused [OF u(2) run(2)]
  show ?case using Cons.IH [OF al(2) u1] Cons.prems(4,5) run al(1) by (cases r) (auto simp: acc)
qed auto

lemma process_items_append:
  "process_items e j s (xs @ ys) acc d = (case process_items e j s xs acc d of (acc', d') \<Rightarrow> process_items e (j + length xs) s ys acc' d')"
proof (induction xs arbitrary: j acc d)
  case (Cons x xs)
  obtain sc fc ft where acc: "acc = (sc, fc, ft)" by (cases acc)
  obtain r d1 where run: "processItem e j (bti_id x) s d = (r, d1)" by fastforce
  show ?case by (cases r) (simp_all add: acc run Cons.IH)
qed simp

lemma refund_alike:
  assumes al: "alike d c" and u: "unused_ids e' k (Suc n) c"
    and run: "release_failed e j (bt_sender b) x (BatchRefundRemark (bt_batchNo b)) d = Inr d'"
  shows "\<exists>c'. resume_refund e' k b x c = (Inr (), c') \<and> alike d' c'"
proof -
  have same: "accounts c = accounts d" using al by (simp add: alike_def)
  have kept: "alike (d\<lparr>accounts := t\<rparr>) (c\<lparr>accounts := t\<rparr>)" "unused_ids e' k (Suc n) (c\<lparr>accounts := t\<rparr>)" for t
    using al u by (simp_all add: alike_def unused_ids_def)
  show ?thesis
  proof (cases "account_of (bt_sender b) (accounts d)")
    case None
    then show ?thesis using run al by (simp add: release_failed_def resume_refund_def same)
  next
    case (Some a)
    then obtain m t where st: "acc_unfreeze (acc_id a) x (accounts d) = Inr (m, t)"
      using run by (cases "acc_unfreeze (acc_id a) x (accounts d)") (auto simp: release_failed_def)
    show ?thesis
    proof (cases "m = 1")
      case True
      then show ?thesis using run al Some st kept(1) [of t]
        unfolding release_failed_def resume_refund_def same new_order [OF kept(2)]
        by (auto simp: createOrder_Inr alike_def add_ledger_def)
    next
      case False
      then show ?thesis using run al Some st by (simp add: release_failed_def resume_refund_def same)
    qed
  qed
qed

lemma finish_alike: "alike d c \<Longrightarrow> alike (finish_batch i from to sc fc d) (finish_batch i from to sc fc c)"
  by (simp add: alike_def finish_batch_def)

subsection \<open>Resuming\<close>

text \<open>The waiting items of a batch whose loop was cut after the first items.\<close>

lemma pending_rest:
  assumes p: "processed s xs d d1" and w: "waiting d (xs @ ys)" and it: "items_of i d = xs @ ys"
    and ids: "distinct (map bti_id (batchTransferItems d))"
  shows "with_status BatchItemStatus.PENDING (items_of i d1) = ys"
proof -
  have "items_of i d1 = map (\<lambda>r. the (find_item (bti_id r) d1)) (xs @ ys)"
    using processed_items_of [OF ids, of d1 i] p it by (simp add: processed_def)
  moreover have "map (\<lambda>r. the (find_item (bti_id r) d1)) ys = ys"
    using waiting_rest [OF p w] by (intro map_idI) (simp add: waiting_def)
  moreover have "with_status BatchItemStatus.PENDING (map (\<lambda>r. the (find_item (bti_id r) d1)) xs) = []"
    using processed_row(3) [OF p] by (auto simp: with_status_def filter_empty_conv)
  moreover have "with_status BatchItemStatus.PENDING ys = ys"
    using w by (auto simp: with_status_def waiting_append waiting_def filter_id_conv)
  ultimately show ?thesis by (simp add: with_status_def)
qed

lemma resume_Inr_True:
  assumes "resumeProcessing e i d = (Inr True, d')" and "find_batch i d = Some b"
  obtains d1 counts d2 where "process_items e 0 (bt_sender b) (with_status BatchItemStatus.PENDING (items_of i d)) (0, 0, 0) d = (counts, d1)"
    and "with_status BatchItemStatus.PENDING (items_of i d) \<noteq> []"
    and "(if 0 < item_total (with_status BatchItemStatus.FAILED (items_of i d1)) \<and> \<not> refunded b d1
      then resume_refund e (length (with_status BatchItemStatus.PENDING (items_of i d))) b
             (item_total (with_status BatchItemStatus.FAILED (items_of i d1))) d1 else (Inr (), d1)) = (Inr (), d2)"
    and "d' = finish_batch i {BatchTransferStatus.PROCESSING} BatchTransferStatus.COMPLETED
       (length (with_status BatchItemStatus.SUCCESS (items_of i d1))) (length (with_status BatchItemStatus.FAILED (items_of i d1))) d2"
  using assms
  by (cases "process_items e 0 (bt_sender b) (with_status BatchItemStatus.PENDING (items_of i d)) (0, 0, 0) d")
    (auto simp: resumeProcessing_def Let_def split: if_splits)

text \<open>
  The setting: a new batch was opened, the process died after the first items \<open>xs\<close> were done and before the
  items \<open>ys\<close>, and the job resumed it.
\<close>

definition crashed ::
  "env \<Rightarrow> string \<Rightarrow> BatchDto \<Rightarrow> int list \<Rightarrow> db \<Rightarrow> BatchTransfer \<Rightarrow> BatchTransferItem list \<Rightarrow> BatchTransferItem list \<Rightarrow> db \<Rightarrow> bool" where
  "crashed e s dto ns d batch xs ys d1 = (money_ok d \<and> batch_tables_ok d \<and> batch_amounts (bd_items dto) = Inr ns \<and>
     (case open_new e s dto ns d of
        Inl _ \<Rightarrow> False
      | Inr ((b, items), d0) \<Rightarrow> b = batch \<and> items = xs @ ys \<and> \<not> refunded b d0 \<and>
          snd (process_items e (length (bd_items dto)) s xs (0, 0, 0) d0) = d1))"

lemma crashedE:
  assumes "crashed e s dto ns d batch xs ys d1"
  obtains d0 where "open_new e s dto ns d = Inr ((batch, xs @ ys), d0)" and "waiting d0 (xs @ ys)"
    and "processed s xs d0 d1" and "money_ok_but s (sum_list ns - paid_total xs d1) d1" and "\<not> refunded batch d1"
    and "find_batch (bt_id batch) d1 = Some batch" and "money_ok_but s (sum_list ns) d0"
    and "find_batch_no (bt_batchNo batch) d1 = Some batch"
proof -
  obtain d0 where op: "open_new e s dto ns d = Inr ((batch, xs @ ys), d0)"
    and pr: "snd (process_items e (length (bd_items dto)) s xs (0, 0, 0) d0) = d1" and rf: "\<not> refunded batch d0"
    and inv: "money_ok d" "batch_tables_ok d" and ns: "batch_amounts (bd_items dto) = Inr ns"
    using assms by (auto simp: crashed_def split: sum.splits)
  note on = open_new_effect [OF op inv ns]
  have "money_ok_but s 0 d" using inv by (simp add: money_ok_but_none)
  from money_ok_but_shift [OF this on(1)] have m0: "money_ok_but s (sum_list ns) d0" by simp
  obtain counts where run: "process_items e (length (bd_items dto)) s xs (0, 0, 0) d0 = (counts, d1)"
    using pr by (metis prod.collapse)
  have p: "processed s xs d0 d1"
    using process_items_effect [OF run money_ok_butD(1) [OF m0]] on(6) by (simp add: waiting_append)
  then have "shifts (paid_to xs d1) (\<lambda>v. if v = s then - paid_total xs d1 else 0) 0 0 d0 d1" by (simp add: processed_def)
  from money_ok_but_shift [OF m0 this] have "money_ok_but s (sum_list ns - paid_total xs d1) d1" by simp
  moreover have "batchTransfers d1 = batchTransfers d0" using p by (simp add: processed_def)
  ultimately show thesis using that [OF op on(6) p] m0 on(2,10) process_items_refunded [OF run] rf
    by (simp add: find_batch_def find_batch_no_def)
qed

lemma resumed_batch_effect:
  assumes cr: "crashed e s dto ns d batch xs ys d1"
    and run: "resumeProcessing e' (bt_id batch) d1 = (Inr True, d3)"
  defines "items \<equiv> items_of (bt_id batch) d3"
  shows "shifts (\<lambda>v. item_total (with_status BatchItemStatus.SUCCESS (filter (\<lambda>r. bti_toUser r = v) items)) -
        (if v = s then item_total (with_status BatchItemStatus.SUCCESS items) else 0)) (\<lambda>_. 0) 0 0 d d3"
    and "map bti_amount items = ns" and "map bti_toUser items = map bd_toUser (bd_items dto)"
    and "map_option bt_status (find_batch (bt_id batch) d3) = Some BatchTransferStatus.COMPLETED"
    and "with_status BatchItemStatus.PENDING items = []"
proof -
  obtain d0 where op: "open_new e s dto ns d = Inr ((batch, xs @ ys), d0)" and w0: "waiting d0 (xs @ ys)"
    and p1: "processed s xs d0 d1" and m1: "money_ok_but s (sum_list ns - paid_total xs d1) d1"
    and rf: "\<not> refunded batch d1" and fb: "find_batch (bt_id batch) d1 = Some batch" and m0: "money_ok_but s (sum_list ns) d0"
    by (rule crashedE [OF cr])
  have inv: "money_ok d" "batch_tables_ok d" and ns: "batch_amounts (bd_items dto) = Inr ns"
    using cr by (auto simp: crashed_def)
  note on = open_new_effect [OF op inv ns]
  let ?zs = "xs @ ys"
  have ids: "distinct (map bti_id (batchTransferItems d0))" using on(9) by (simp add: batch_tables_ok_def)
  note pend = pending_rest [OF p1 w0 on(5) [symmetric] ids]
  obtain counts d2 d2' where pr: "process_items e' 0 (bt_sender batch) ys (0, 0, 0) d1 = (counts, d2)"
    and rel: "(if 0 < item_total (with_status BatchItemStatus.FAILED (items_of (bt_id batch) d2)) \<and> \<not> refunded batch d2
      then resume_refund e' (length ys) batch
             (item_total (with_status BatchItemStatus.FAILED (items_of (bt_id batch) d2))) d2 else (Inr (), d2)) = (Inr (), d2')"
    and d3: "\<exists>sc fc. d3 = finish_batch (bt_id batch) {BatchTransferStatus.PROCESSING} BatchTransferStatus.COMPLETED sc fc d2'"
    using resume_Inr_True [OF run fb] unfolding pend by metis
  have w1: "waiting d1 ys" by (rule waiting_rest [OF p1 w0])
  have dis: "bti_id ` set xs \<inter> bti_id ` set ys = {}" using w0 by (simp add: waiting_append)
  have p2: "processed s ys d1 d2"
    using process_items_effect [OF pr [unfolded on(4)] money_ok_butD(1) [OF m1] w1] by simp
  note pa = processed_append [OF p1 p2 dis]
  note ps = processed_sums [OF pa(1)]
  have it2: "items_of (bt_id batch) d2 = map (\<lambda>r. the (find_item (bti_id r) d2)) ?zs"
    using pa(1) processed_items_of [OF ids, of d2 "bt_id batch"] on(5) by (simp add: processed_def)
  let ?ft = "item_total ?zs - paid_total ?zs d2"
  have failed: "item_total (with_status BatchItemStatus.FAILED (items_of (bt_id batch) d2)) = ?ft"
    unfolding it2 by (rule ps(7))
  have tot: "item_total ?zs = sum_list ns" using on(7) by (simp add: item_total_def)
  have sh2: "shifts (paid_to ?zs d2) (\<lambda>v. if v = s then - paid_total ?zs d2 else 0) 0 0 d0 d2"
    using pa(1) by (simp add: processed_def)
  have m2: "money_ok_but s ?ft d2" using money_ok_but_shift [OF m0 sh2] tot by simp
  have ge: "0 \<le> ?ft" using paid_total_le [OF w0] by simp
  have rf2: "\<not> refunded batch d2" using process_items_refunded [OF pr] rf by simp
  have "map acc_user (accounts d2) = map acc_user (accounts d)" using on(1) sh2 by (simp add: shifts_def)
  then have us: "account_of s (accounts d2) \<noteq> None"
    using account_exists [of "accounts d2" "accounts d" s] on(11) by simp
  have "(if 0 < ?ft then release_failed e' (length ys) s ?ft (BatchRefundRemark (bt_batchNo batch)) d2 else Inr d2) = Inr d2'"
    using rel rf2 resume_refund_release [of e' "length ys" batch ?ft d2 d2'] on(4) by (auto simp: failed split: if_splits)
  note sh3 = release_step [OF this m2 ge order_refl us]
  obtain sc fc where d3': "d3 = finish_batch (bt_id batch) {BatchTransferStatus.PROCESSING} BatchTransferStatus.COMPLETED sc fc d2'"
    using d3 by blast
  have it3: "items = map (\<lambda>r. the (find_item (bti_id r) d2)) ?zs"
    unfolding items_def it2 [symmetric] using sh3 by (simp add: d3' items_of_def finish_batch_kept)
  show "map bti_amount items = ns" "map bti_toUser items = map bd_toUser (bd_items dto)"
    using ps(1,2) on(7,8) by (simp_all only: it3)
  show "with_status BatchItemStatus.PENDING items = []"
    unfolding it3 using processed_row(3) [OF pa(1)] by (auto simp: with_status_def filter_empty_conv)
  have "find_batch (bt_id batch) d2' = Some batch"
    using sh3 p2 fb by (simp add: find_batch_def processed_def)
  then show "map_option bt_status (find_batch (bt_id batch) d3) = Some BatchTransferStatus.COMPLETED"
    using on(3) by (simp add: d3' finish_batch_find)
  have "shifts (\<lambda>v. if v = s then ?ft else 0) (\<lambda>v. if v = s then - ?ft else 0) 0 0 d2 d3"
    unfolding d3' by (rule shifts_finish [OF sh3(1)])
  from outcome_shift [OF on(1) [folded tot] pa(1) this]
  show "shifts (\<lambda>v. item_total (with_status BatchItemStatus.SUCCESS (filter (\<lambda>r. bti_toUser r = v) items)) -
        (if v = s then item_total (with_status BatchItemStatus.SUCCESS items) else 0)) (\<lambda>_. 0) 0 0 d d3"
    unfolding it3 ps(3,4) .
qed

text \<open>The run of the same request that no crash interrupts, step by step.\<close>

lemma batch_locked_run:
  assumes "batch_locked e s dto ns w = (Inr final, w')"
    and "truthy (bd_idem dto) \<longrightarrow> find_batch_idem (the (bd_idem dto)) (wdb w) = None"
    and "open_new e s dto ns (wdb w) = Inr ((batch, items), d0)"
  obtains counts d2 where "process_items e (length (bd_items dto)) s items (0, 0, 0) d0 = (counts, d2)"
    and "settle_body e (length (bd_items dto) + length items) s batch counts d2 = Inr (final, wdb w')"
proof -
  have op: "transaction (open_batch e s dto ns) w = (Inr (batch, items), w\<lparr>wdb := d0\<rparr>)"
    using assms(2,3) by (simp add: transaction_def open_batch_def)
  obtain counts d2 where run: "process_items e (length (bd_items dto)) s items (0, 0, 0) d0 = (counts, d2)" by fastforce
  have "settle_body e (length (bd_items dto) + length items) s batch counts d2 = Inr (final, wdb w')"
    using assms(1) unfolding batch_locked_def Let_def op
    by (cases "settle_body e (length (bd_items dto) + length items) s batch counts d2")
      (auto simp: run record_quietly_def transaction_def)
  then show thesis using that run by blast
qed

lemma process_items_acc: "snd (process_items e j s xs acc d) = snd (process_items e j s xs acc' d)"
proof (induction xs arbitrary: j acc acc' d)
  case (Cons x xs)
  obtain sc fc ft sc' fc' ft' where acc: "acc = (sc, fc, ft)" "acc' = (sc', fc', ft')" by (cases acc; cases acc')
  obtain r d1 where run: "processItem e j (bti_id x) s d = (r, d1)" by fastforce
  show ?case unfolding acc using Cons.IH run by (cases r) auto
qed simp

lemma alike_items: "alike d c \<Longrightarrow> map strip (items_of i d) = map strip (items_of i c)"
proof -
  have "map strip (filter (\<lambda>r. bti_batch r = i) t) = filter (\<lambda>r. bti_batch r = i) (map strip t)" for t
    by (induction t) (simp_all add: strip_def)
  then show "alike d c \<Longrightarrow> map strip (items_of i d) = map strip (items_of i c)" by (simp add: items_of_def alike_def)
qed

lemma alike_counts:
  assumes "map strip xs = map strip ys"
  shows "length (with_status st xs) = length (with_status st ys)" and "item_total (with_status st xs) = item_total (with_status st ys)"
proof -
  have "length (with_status st xs) = length (with_status st ys) \<and> item_total (with_status st xs) = item_total (with_status st ys)"
    using assms
  proof (induction xs arbitrary: ys)
    case (Cons x xs)
    then obtain y ys' where y: "ys = y # ys'" "strip x = strip y" "map strip xs = map strip ys'" by (cases ys) auto
    have "bti_status x = bti_status y" "bti_amount x = bti_amount y" using y(2) by (auto simp only: strip_eq)
    then show ?case using Cons.IH [OF y(3)] by (simp add: y(1) with_status_def item_total_def)
  qed simp
  then show "length (with_status st xs) = length (with_status st ys)" and "item_total (with_status st xs) = item_total (with_status st ys)" by auto
qed

lemma resumed_like_uninterrupted:
  assumes run: "batch_locked e s dto ns w = (Inr final, w')"
    and new: "truthy (bd_idem dto) \<longrightarrow> find_batch_idem (the (bd_idem dto)) (wdb w) = None"
    and cr: "crashed e s dto ns (wdb w) batch xs ys d1" and ys: "ys \<noteq> []"
    and u: "unused_ids e (length (bd_items dto) + length xs) (Suc (length ys)) d1" and u': "unused_ids e' 0 (Suc (length ys)) d1"
  shows "\<exists>d3. resumeProcessing e' (bt_id batch) d1 = (Inr True, d3) \<and> alike (wdb w') d3"
proof -
  obtain d0 where op: "open_new e s dto ns (wdb w) = Inr ((batch, xs @ ys), d0)" and w0: "waiting d0 (xs @ ys)"
    and p1: "processed s xs d0 d1" and rf: "\<not> refunded batch d1" and fb: "find_batch (bt_id batch) d1 = Some batch"
    and m0: "money_ok_but s (sum_list ns) d0" by (rule crashedE [OF cr])
  have inv: "money_ok (wdb w)" "batch_tables_ok (wdb w)" and ns: "batch_amounts (bd_items dto) = Inr ns"
    and cut: "snd (process_items e (length (bd_items dto)) s xs (0, 0, 0) d0) = d1"
    using cr by (auto simp: crashed_def op)
  note on = open_new_effect [OF op inv ns]
  have ids: "distinct (map bti_id (batchTransferItems d0))" using on(9) by (simp add: batch_tables_ok_def)
  note pend = pending_rest [OF p1 w0 on(5) [symmetric] ids]
  obtain sc fc ft d2 where whole: "process_items e (length (bd_items dto)) s (xs @ ys) (0, 0, 0) d0 = ((sc, fc, ft), d2)"
    and settle: "settle_body e (length (bd_items dto) + length (xs @ ys)) s batch (sc, fc, ft) d2 = Inr (final, wdb w')"
    using batch_locked_run [OF run new op] by (metis prod_cases3)
  obtain acc where first: "process_items e (length (bd_items dto)) s xs (0, 0, 0) d0 = (acc, d1)"
    using cut by (metis prod.collapse)
  have "snd (process_items e (length (bd_items dto) + length xs) s ys acc d1) = d2"
    using whole by (simp add: process_items_append first)
  then have rest: "snd (process_items e (length (bd_items dto) + length xs) s ys (0, 0, 0) d1) = d2"
    using process_items_acc [of e _ s ys "(0, 0, 0)" d1 acc] by metis
  obtain counts where one: "process_items e (length (bd_items dto) + length xs) s ys (0, 0, 0) d1 = (counts, d2)"
    using rest by (metis prod.collapse)
  obtain counts' c2 where two: "process_items e' 0 s ys (0, 0, 0) d1 = (counts', c2)" by fastforce
  have "alike d1 d1" by (simp add: alike_def)
  from process_items_alike [OF this _ _ one two, of 1] u u'
  have al: "alike d2 c2" and u2: "unused_ids e' (length ys) (Suc 0) c2" by simp_all
  have pw: "processed s (xs @ ys) d0 d2" and counts: "sc = length (filter (was_paid d2) (xs @ ys))"
    "fc = length (filter (\<lambda>r. \<not> was_paid d2 r) (xs @ ys))" "ft = item_total (xs @ ys) - paid_total (xs @ ys) d2"
    using process_items_effect [OF whole money_ok_butD(1) [OF m0] w0] by auto
  have it2: "items_of (bt_id batch) d2 = map (\<lambda>r. the (find_item (bti_id r) d2)) (xs @ ys)"
    using pw processed_items_of [OF ids, of d2 "bt_id batch"] on(5) by (simp add: processed_def)
  note sums = processed_sums(5-7) [OF pw, folded it2 counts] alike_counts [OF alike_items [OF al, of "bt_id batch"]]
  have tally: "length (with_status BatchItemStatus.SUCCESS (items_of (bt_id batch) c2)) = sc"
    "length (with_status BatchItemStatus.FAILED (items_of (bt_id batch) c2)) = fc"
    "item_total (with_status BatchItemStatus.FAILED (items_of (bt_id batch) c2)) = ft" using sums by simp_all
  obtain j where settle': "settle_body e j s batch (sc, fc, ft) d2 = Inr (final, wdb w')" using settle by blast
  obtain dx where rel: "(if 0 < ft then release_failed e j s ft (BatchRefundRemark (bt_batchNo batch)) d2 else Inr d2) = Inr dx"
    and w': "wdb w' = finish_batch (bt_id batch) {BatchTransferStatus.PROCESSING} BatchTransferStatus.COMPLETED sc fc dx"
    using settle' by (auto simp: settle_body_def Let_def)
  have rf2: "\<not> refunded batch c2" using process_items_refunded [OF two] rf by simp
  have "\<exists>dy. (if 0 < ft \<and> \<not> refunded batch c2 then resume_refund e' (length ys) batch ft c2 else (Inr (), c2)) = (Inr (), dy) \<and> alike dx dy"
    using rel al rf2 refund_alike [OF al u2, of e _ batch ft dx] on(4) by (auto split: if_splits)
  then obtain dy where given: "(if 0 < ft \<and> \<not> refunded batch c2 then resume_refund e' (length ys) batch ft c2 else (Inr (), c2)) = (Inr (), dy)"
    and al3: "alike dx dy" by blast
  have "resumeProcessing e' (bt_id batch) d1 = (Inr True,
      finish_batch (bt_id batch) {BatchTransferStatus.PROCESSING} BatchTransferStatus.COMPLETED sc fc dy)"
    using given by (auto simp: resumeProcessing_def fb pend on(3,4) ys two tally Let_def split: if_splits)
  then show ?thesis using finish_alike [OF al3] w' by auto
qed

lemma strip_columns:
  assumes "map strip xs = map strip ys"
  shows "map (\<lambda>r. (bti_id r, bti_batch r, bti_toUser r, bti_amount r, bti_status r)) ys =
    map (\<lambda>r. (bti_id r, bti_batch r, bti_toUser r, bti_amount r, bti_status r)) xs"
  using assms
proof (induction xs arbitrary: ys)
  case (Cons x xs)
  then obtain y ys' where y: "ys = y # ys'" "strip x = strip y" "map strip xs = map strip ys'" by (cases ys) auto
  have "bti_id x = bti_id y \<and> bti_batch x = bti_batch y \<and> bti_toUser x = bti_toUser y \<and>
     bti_amount x = bti_amount y \<and> bti_status x = bti_status y" using y(2) by (simp only: strip_eq)
  then show ?case using Cons.IH [OF y(3)] by (simp add: y(1))
qed simp

definition crash_env :: env where
  "crash_env = sample_env\<lparr>now := 700, uuid := (\<lambda>i. ''c'' @ show_nat i), nano := (\<lambda>i. ''d'' @ show_nat i)\<rparr>"

text \<open>The sample batch with its items turned around, so that the payee who exists comes last.\<close>

definition turned_batch :: BatchDto where
  "turned_batch = sample_batch\<lparr>bd_items := rev (bd_items sample_batch)\<rparr>"

text \<open>That batch, opened, and cut after \<open>k\<close> of its two items.\<close>

definition sample_opened :: "batch \<times> db" where
  "sample_opened = projr (open_new sample_env ''alice'' turned_batch [300, 200] sample_db)"

definition sample_cut :: "nat \<Rightarrow> db" where
  "sample_cut k = snd (process_items sample_env 2 ''alice'' (take k (snd (fst sample_opened))) (0, 0, 0) (snd sample_opened))"

lemma sample_crashed:
  assumes "k \<in> {1, 2}"
  shows "crashed sample_env ''alice'' turned_batch [300, 200] sample_db (fst (fst sample_opened))
    (take k (snd (fst sample_opened))) (drop k (snd (fst sample_opened))) (sample_cut k)"
proof -
  have run: "open_new sample_env ''alice'' turned_batch [300, 200] sample_db = Inr sample_opened"
  proof -
    have "isl (open_new sample_env ''alice'' turned_batch [300, 200] sample_db) = False" by code_simp
    then show ?thesis unfolding sample_opened_def by simp
  qed
  have "batch_amounts (bd_items turned_batch) = Inr [300, 200]" by code_simp
  moreover have "refunded (fst (fst sample_opened)) (snd sample_opened) = False" by code_simp
  moreover have "length (bd_items turned_batch) = 2" by (simp add: turned_batch_def sample_batch_def)
  ultimately show ?thesis
    by (simp add: crashed_def sample_money_ok sample_batch_tables run sample_cut_def case_prod_beta)
qed

text \<open>
  C18. A batch that a crash cuts between two items is made good by the recovery job. Take the request that was not interrupted
  (\<open>batch_locked\<close>, which ended in \<open>w'\<close>), and the database \<open>d1\<close> of the run that died after the items \<open>xs\<close> with the
  items \<open>ys\<close> still waiting. If nothing else happened and the identifiers the two processes draw next are new, the job
  resumes the batch successfully and ends with the same accounts, the same batch row with the same counts and the same
  items with the same statuses as the uninterrupted run (the paid items only name other orders): the same items are
  paid, the others fail and their amount is released. In particular every payee has the paid items
  addressed to them, the sender paid their sum, nothing of the batch is frozen and the books are in order.
\<close>

theorem interrupted_batch_recovers:
  assumes "batch_locked e s dto ns w = (Inr final, w')"
    and "truthy (bd_idem dto) \<longrightarrow> find_batch_idem (the (bd_idem dto)) (wdb w) = None"
    and "crashed e s dto ns (wdb w) batch xs ys d1" and "ys \<noteq> []"
    and "unused_ids e (length (bd_items dto) + length xs) (Suc (length ys)) d1" and "unused_ids e' 0 (Suc (length ys)) d1"
  shows "\<exists>d3. resumeProcessing e' (bt_id batch) d1 = (Inr True, d3) \<and>
    accounts d3 = accounts (wdb w') \<and> batchTransfers d3 = batchTransfers (wdb w') \<and>
    map (\<lambda>r. (bti_id r, bti_batch r, bti_toUser r, bti_amount r, bti_status r)) (batchTransferItems d3) =
      map (\<lambda>r. (bti_id r, bti_batch r, bti_toUser r, bti_amount r, bti_status r)) (batchTransferItems (wdb w')) \<and>
    map_option bt_status (find_batch (bt_id batch) d3) = Some BatchTransferStatus.COMPLETED \<and>
    map bti_toUser (items_of (bt_id batch) d3) = map bd_toUser (bd_items dto) \<and>
    map bti_amount (items_of (bt_id batch) d3) = ns \<and>
    with_status BatchItemStatus.PENDING (items_of (bt_id batch) d3) = [] \<and>
    (\<forall>v. available_of v (accounts d3) = available_of v (accounts (wdb w)) +
       item_total (with_status BatchItemStatus.SUCCESS (filter (\<lambda>r. bti_toUser r = v) (items_of (bt_id batch) d3))) -
       (if v = s then item_total (with_status BatchItemStatus.SUCCESS (items_of (bt_id batch) d3)) else 0)) \<and>
    (\<forall>v. frozen_of v (accounts d3) = frozen_of v (accounts (wdb w))) \<and> money_ok d3"
proof -
  obtain d3 where run: "resumeProcessing e' (bt_id batch) d1 = (Inr True, d3)" and al: "alike (wdb w') d3"
    using resumed_like_uninterrupted [OF assms] by blast
  note ef = resumed_batch_effect [OF assms(3) run]
  have "money_ok_but s 0 (wdb w)" using assms(3) by (simp add: crashed_def money_ok_but_none)
  from money_ok_but_shift [OF this ef(1)] have "money_ok d3" by (simp add: money_ok_but_none)
  moreover have "map (\<lambda>r. (bti_id r, bti_batch r, bti_toUser r, bti_amount r, bti_status r)) (batchTransferItems d3) =
      map (\<lambda>r. (bti_id r, bti_batch r, bti_toUser r, bti_amount r, bti_status r)) (batchTransferItems (wdb w'))"
    by (rule strip_columns) (use al in \<open>simp add: alike_def\<close>)
  ultimately show ?thesis using ef run al by (intro exI [of _ d3]) (simp add: shifts_def alike_def)
qed

theorem interrupted_batch_recovers_witness:
  "\<exists>d3. resumeProcessing crash_env (bt_id (fst (fst sample_opened))) (sample_cut 1) = (Inr True, d3) \<and>
     accounts d3 = accounts (wdb (snd (batch_locked sample_env ''alice'' turned_batch [300, 200] sample_world))) \<and> money_ok d3"
proof -
  have "isl (fst (batch_locked sample_env ''alice'' turned_batch [300, 200] sample_world)) = False" by code_simp
  then obtain final w' where run: "batch_locked sample_env ''alice'' turned_batch [300, 200] sample_world = (Inr final, w')"
    using not_isl_fst by blast
  have new: "truthy (bd_idem turned_batch) \<longrightarrow> find_batch_idem (the (bd_idem turned_batch)) (wdb sample_world) = None"
    by (simp add: find_batch_idem_def sample_world_def sample_db_def)
  have rest: "(drop 1 (snd (fst sample_opened)) = []) = False" by code_simp
  have "unused_ids sample_env (length (bd_items turned_batch) + length (take 1 (snd (fst sample_opened))))
      (Suc (length (drop 1 (snd (fst sample_opened))))) (sample_cut 1)"
    "unused_ids crash_env 0 (Suc (length (drop 1 (snd (fst sample_opened))))) (sample_cut 1)" by code_simp+
  from interrupted_batch_recovers [OF run new _ _ this, unfolded sample_world_wdb] sample_crashed [of 1] rest run
  show ?thesis by fastforce
qed

subsection \<open>A crash after the last item\<close>

lemma fold_mark_accounts: "accounts (fold (\<lambda>i. markItemFailed (bti_id i)) xs d) = accounts d"
  by (induction xs arbitrary: d) (auto simp: markItemFailed_def)

lemma cancel_nothing_pending:
  assumes "cancel_body e u no d = Inr (r, d')" and "find_batch_no no d = Some b"
    and "with_status BatchItemStatus.PENDING (items_of (bt_id b) d) = []"
  shows "\<exists>sc fc. d' = finish_batch (bt_id b) {BatchTransferStatus.PENDING, BatchTransferStatus.PROCESSING}
    BatchTransferStatus.CANCELLED sc fc d"
  using assms by (auto simp: cancel_body_def Let_def item_total_def)

lemma all_processed:
  assumes "processed s xs d0 d1" and "waiting d0 xs" and "xs = items_of i d0"
    and "distinct (map bti_id (batchTransferItems d0))"
  shows "with_status BatchItemStatus.PENDING (items_of i d1) = []"
  by (rule pending_rest [of s xs d0 d1 "[]" i, unfolded append_Nil2, OF assms(1,2) assms(3) [symmetric] assms(4)])

text \<open>
  A crash between the last item and the settlement is never made good when items failed: the
  recovery finds nothing waiting and leaves the database as it is, whenever it runs; cancelling the
  batch, the only other way to end it, moves no balance either; the failed amount stays frozen for no
  order.
\<close>

theorem crash_before_settlement_strands_money:
  assumes "crashed e s dto ns d batch items [] d1" and "paid_total items d1 < sum_list ns"
  shows "resumeProcessing e' (bt_id batch) d1 = (Inr False, d1) \<and>
    (\<forall>u r d2. cancel_body e' u (bt_batchNo batch) d1 = Inr (r, d2) \<longrightarrow>
       accounts d2 = accounts d1 \<and> money_ok_but s (sum_list ns - paid_total items d1) d2 \<and> \<not> money_ok d2)"
proof -
  obtain d0 where op: "open_new e s dto ns d = Inr ((batch, items), d0)" and w: "waiting d0 items"
    and p: "processed s items d0 d1" and m1: "money_ok_but s (sum_list ns - paid_total items d1) d1"
    and "\<not> refunded batch d1" and fb1: "find_batch (bt_id batch) d1 = Some batch" and "money_ok_but s (sum_list ns) d0"
    and fb2: "find_batch_no (bt_batchNo batch) d1 = Some batch"
    by (rule crashedE [OF assms(1), unfolded append_Nil2])
  note fb = fb1 fb2
  have inv: "money_ok d" "batch_tables_ok d" and ns: "batch_amounts (bd_items dto) = Inr ns"
    using assms(1) by (auto simp: crashed_def)
  note on = open_new_effect [OF op inv ns]
  have none: "with_status BatchItemStatus.PENDING (items_of (bt_id batch) d1) = []"
    using on(9) by (intro all_processed [OF p w on(5)]) (simp add: batch_tables_ok_def)
  have "shifts (paid_to items d1) (\<lambda>v. if v = s then - paid_total items d1 else 0) 0 0 d0 d1"
    using p by (simp add: processed_def)
  with on(1) have "map acc_user (accounts d1) = map acc_user (accounts d)" by (simp add: shifts_def)
  then have us: "account_of s (accounts d1) \<noteq> None"
    using account_exists [of "accounts d1" "accounts d" s] on(11) by simp
  have "accounts d2 = accounts d1 \<and> money_ok_but s (sum_list ns - paid_total items d1) d2 \<and> \<not> money_ok d2"
    if c: "cancel_body e' u (bt_batchNo batch) d1 = Inr (r, d2)" for u r d2
  proof -
    obtain sc fc where d2: "d2 = finish_batch (bt_id batch) {BatchTransferStatus.PENDING, BatchTransferStatus.PROCESSING}
        BatchTransferStatus.CANCELLED sc fc d1" using cancel_nothing_pending [OF c fb(2) none] by blast
    have sh: "shifts (\<lambda>_. 0) (\<lambda>_. 0) 0 0 d1 d2"
      unfolding d2 by (rule shifts_kept [OF finish_batch_kept(1) money_ok_butD(1) [OF m1]])
    have acc: "accounts d2 = accounts d1" by (simp add: d2 finish_batch_def)
    from money_ok_but_shift [OF m1 sh] have "money_ok_but s (sum_list ns - paid_total items d1) d2" by simp
    with money_ok_but_not_ok [OF this] assms(2) us acc show ?thesis by simp
  qed
  moreover have "resumeProcessing e' (bt_id batch) d1 = (Inr False, d1)"
    by (simp add: resumeProcessing_def fb(1) none)
  ultimately show ?thesis by blast
qed

theorem crash_before_settlement_strands_money_witness:
  "resumeProcessing crash_env (bt_id (fst (fst sample_opened))) (sample_cut 2) = (Inr False, sample_cut 2)"
proof -
  have "paid_total (take 2 (snd (fst sample_opened))) (sample_cut 2) < sum_list [300, 200]" by code_simp
  moreover have "drop 2 (snd (fst sample_opened)) = []" by code_simp
  ultimately show ?thesis
    using crash_before_settlement_strands_money [of sample_env "''alice''" turned_batch "[300, 200]" sample_db
        "fst (fst sample_opened)" "take 2 (snd (fst sample_opened))" "sample_cut 2" crash_env] sample_crashed [of 2] by simp
qed

end
