(* ===== verification/ItemLoop.thy ===== *)
theory ItemLoop
  imports Shifts
begin

text \<open>
  Payments in parts. A split order consists of items that are processed one by one, each in a
  transaction of its own, and none may be paid twice. \<open>run_items\<close> is such a loop; the locale \<open>item_loop\<close> is the
  interface between the loop and the processing of one item: it decides the one open row it is given, and
  moves that row's amount exactly when it marks the row as paid. What follows is the effect of the
  whole loop: every item is decided, and each balance changes by the sum over the items marked as paid.
\<close>

primrec run_items :: "(nat \<Rightarrow> 'i \<Rightarrow> db \<Rightarrow> db) \<Rightarrow> nat \<Rightarrow> 'i list \<Rightarrow> db \<Rightarrow> db" where
  "run_items f j [] d = d"
| "run_items f j (x # xs) d = run_items f (Suc j) xs (f j x d)"

definition sum_where :: "('i \<Rightarrow> bool) \<Rightarrow> ('i \<Rightarrow> int) \<Rightarrow> 'i list \<Rightarrow> int" where
  "sum_where P f xs = sum_list (map (\<lambda>x. if P x then f x else 0) xs)"

lemma sum_where_simps [simp]:
  "sum_where P f [] = 0"
  "sum_where P f (x # xs) = (if P x then f x else 0) + sum_where P f xs"
  "sum_where P f (xs @ ys) = sum_where P f xs + sum_where P f ys"
  by (simp_all add: sum_where_def)

lemma sum_where_cong:
  "(\<And>x. x \<in> set xs \<Longrightarrow> P x = Q x) \<Longrightarrow> (\<And>x. x \<in> set xs \<Longrightarrow> P x \<Longrightarrow> f x = g x) \<Longrightarrow> sum_where P f xs = sum_where Q g xs"
  by (induction xs) auto

lemma sum_where_le:
  "(\<And>x. x \<in> set xs \<Longrightarrow> 0 \<le> f x) \<Longrightarrow> sum_where P f xs \<le> sum_list (map f xs)"
  by (induction xs) (auto intro: add_increasing)

lemma sum_where_nonneg: "(\<And>x. x \<in> set xs \<Longrightarrow> 0 \<le> f x) \<Longrightarrow> 0 \<le> sum_where P f xs"
  by (induction xs) auto

lemma sum_where_filter: "sum_where P f (filter Q xs) = sum_where (\<lambda>x. Q x \<and> P x) f xs"
  by (induction xs) auto

text \<open>A property of the database that every item keeps is kept by the loop.\<close>

lemma run_items_keeps:
  assumes "P d" and "\<And>j x d. x \<in> set xs \<Longrightarrow> P d \<Longrightarrow> P (f j x d)"
  shows "P (run_items f j xs d)"
  using assms by (induction xs arbitrary: j d) auto

locale item_loop =
  fixes iid dest group :: "'i \<Rightarrow> string" and amt :: "'i \<Rightarrow> int" and is_open is_paid :: "'i \<Rightarrow> bool"
    and rows :: "db \<Rightarrow> 'i list" and orders :: "db \<Rightarrow> 'p"
    and process :: "'c \<Rightarrow> string \<Rightarrow> nat \<Rightarrow> 'i \<Rightarrow> db \<Rightarrow> db"
  assumes decides: "distinct (map iid (rows d)) \<Longrightarrow> x \<in> set (rows d) \<Longrightarrow> is_open x \<Longrightarrow> 0 \<le> amt x \<Longrightarrow>
      accounts_ok (accounts d) \<Longrightarrow>
      \<exists>g. rows (process e s j x d) = map (\<lambda>r. if iid r = iid x then g r else r) (rows d) \<and>
        (\<forall>r. iid (g r) = iid r \<and> dest (g r) = dest r \<and> group (g r) = group r \<and> amt (g r) = amt r \<and> \<not> is_open (g r)) \<and>
        orders (process e s j x d) = orders d \<and>
        shifts (\<lambda>v. if is_paid (g x) then (if v = dest x then amt x else 0) - (if v = s then amt x else 0) else 0)
          (\<lambda>_. 0) 0 0 d (process e s j x d)"
    and skips: "distinct (map iid (rows d)) \<Longrightarrow> x \<in> set (rows d) \<Longrightarrow> \<not> is_open x \<Longrightarrow> process e s j x d = d"
begin

definition ran :: "string \<Rightarrow> 'i list \<Rightarrow> ('i \<Rightarrow> 'i) \<Rightarrow> db \<Rightarrow> db \<Rightarrow> bool" where
  "ran s xs h d d' = (rows d' = map h (rows d) \<and> orders d' = orders d \<and>
     (\<forall>r. iid (h r) = iid r \<and> dest (h r) = dest r \<and> group (h r) = group r \<and> amt (h r) = amt r) \<and>
     (\<forall>r. iid r \<notin> iid ` set xs \<longrightarrow> h r = r) \<and>
     (\<forall>x \<in> set xs. \<not> is_open (h x) \<and> (\<not> is_open x \<longrightarrow> h x = x)) \<and>
     shifts (\<lambda>v. sum_where (\<lambda>x. is_open x \<and> is_paid (h x) \<and> dest x = v) amt xs -
        (if v = s then sum_where (\<lambda>x. is_open x \<and> is_paid (h x)) amt xs else 0)) (\<lambda>_. 0) 0 0 d d')"

lemma ranD:
  assumes "ran s xs h d d'"
  shows "rows d' = map h (rows d)" and "orders d' = orders d" and "iid (h r) = iid r" and "dest (h r) = dest r"
    and "group (h r) = group r" and "amt (h r) = amt r" and "x \<in> set xs \<Longrightarrow> \<not> is_open (h x)"
    and "iid r \<notin> iid ` set xs \<Longrightarrow> h r = r"
    and "shifts (\<lambda>v. sum_where (\<lambda>x. is_open x \<and> is_paid (h x) \<and> dest x = v) amt xs -
        (if v = s then sum_where (\<lambda>x. is_open x \<and> is_paid (h x)) amt xs else 0)) (\<lambda>_. 0) 0 0 d d'"
    and "x \<in> set xs \<Longrightarrow> \<not> is_open x \<Longrightarrow> h x = x"
  using assms unfolding ran_def by blast+

lemma one_ran:
  assumes "distinct (map iid (rows d))" and "x \<in> set (rows d)" and "0 \<le> amt x" and "accounts_ok (accounts d)"
  obtains g where "rows (process e s j x d) = map (\<lambda>r. if iid r = iid x then g r else r) (rows d)"
    and "\<And>r. iid (g r) = iid r \<and> dest (g r) = dest r \<and> group (g r) = group r \<and> amt (g r) = amt r"
    and "\<not> is_open (g x)" and "\<not> is_open x \<Longrightarrow> g x = x" and "orders (process e s j x d) = orders d"
    and "shifts (\<lambda>v. if is_open x \<and> is_paid (g x) then (if v = dest x then amt x else 0) - (if v = s then amt x else 0) else 0)
          (\<lambda>_. 0) 0 0 d (process e s j x d)"
proof (cases "is_open x")
  case True
  obtain g where "rows (process e s j x d) = map (\<lambda>r. if iid r = iid x then g r else r) (rows d)"
    "\<forall>r. iid (g r) = iid r \<and> dest (g r) = dest r \<and> group (g r) = group r \<and> amt (g r) = amt r \<and> \<not> is_open (g r)"
    "orders (process e s j x d) = orders d"
    "shifts (\<lambda>v. if is_paid (g x) then (if v = dest x then amt x else 0) - (if v = s then amt x else 0) else 0)
          (\<lambda>_. 0) 0 0 d (process e s j x d)"
    using decides [OF assms(1,2) True assms(3,4)] by blast
  with True that [of g] show thesis by simp
next
  case False
  have "process e s j x d = d" by (rule skips [OF assms(1,2) False])
  moreover have "shifts (\<lambda>v. 0) (\<lambda>_. 0) 0 0 d d" by (rule shifts_kept [OF _ assms(4)]) simp
  ultimately show thesis using False by (intro that [of "\<lambda>r. r"]) simp_all
qed

lemma loop_ran:
  assumes "distinct (map iid (rows d))" and "distinct (map iid xs)"
    and "\<And>x. x \<in> set xs \<Longrightarrow> x \<in> set (rows d) \<and> 0 \<le> amt x" and "accounts_ok (accounts d)"
  shows "\<exists>h. ran s xs h d (run_items (process e s) j xs d)"
  using assms
proof (induction xs arbitrary: j d)
  case Nil
  have "shifts (\<lambda>v. 0) (\<lambda>_. 0) 0 0 d d" by (rule shifts_kept [OF _ Nil(4)]) simp
  then show ?case by (intro exI [of _ id]) (simp add: ran_def cong: if_cong)
next
  case (Cons x xs)
  define d1 where "d1 = process e s j x d"
  have x: "x \<in> set (rows d)" "0 \<le> amt x" using Cons.prems(3) by auto
  obtain g where g: "rows d1 = map (\<lambda>r. if iid r = iid x then g r else r) (rows d)"
      "\<And>r. iid (g r) = iid r \<and> dest (g r) = dest r \<and> group (g r) = group r \<and> amt (g r) = amt r"
      "\<not> is_open (g x)" "\<not> is_open x \<Longrightarrow> g x = x" "orders d1 = orders d"
      "shifts (\<lambda>v. if is_open x \<and> is_paid (g x) then (if v = dest x then amt x else 0) - (if v = s then amt x else 0) else 0)
          (\<lambda>_. 0) 0 0 d d1"
    using one_ran [OF Cons.prems(1) x Cons.prems(4)] unfolding d1_def by blast
  define h1 where "h1 r = (if iid r = iid x then g r else r)" for r
  have h1: "iid (h1 r) = iid r" "dest (h1 r) = dest r" "group (h1 r) = group r" "amt (h1 r) = amt r" for r
    using g(2) by (simp_all add: h1_def)
  have rows1: "rows d1 = map h1 (rows d)" by (simp add: g(1) h1_def)
  have others: "h1 y = y" if "y \<in> set xs" for y using that Cons.prems(2) by (auto simp: h1_def image_iff)
  have "distinct (map iid (rows d1))" using Cons.prems(1) by (simp add: rows1 comp_def h1)
  moreover have "y \<in> set (rows d1) \<and> 0 \<le> amt y" if "y \<in> set xs" for y
    using Cons.prems(3) [of y] that others [OF that] by (force simp: rows1)
  moreover have "accounts_ok (accounts d1)" using g(6) by (simp add: shifts_def)
  ultimately obtain h where h: "ran s xs h d1 (run_items (process e s) (Suc j) xs d1)"
    using Cons.IH [of d1 "Suc j"] Cons.prems(2) by auto
  note hD = ranD [OF h]
  have hx: "h (h1 x) = g x" using hD(8) [of "g x"] Cons.prems(2) g(2) by (simp add: h1_def)
  have hy: "h (h1 y) = h y" if "y \<in> set xs" for y using others [OF that] by simp
  have sums: "sum_where (\<lambda>y. is_open y \<and> is_paid (h (h1 y)) \<and> Q y) amt xs =
      sum_where (\<lambda>y. is_open y \<and> is_paid (h y) \<and> Q y) amt xs" for Q
    by (rule sum_where_cong) (auto simp: hy)
  have sh: "shifts (\<lambda>v. sum_where (\<lambda>y. is_open y \<and> is_paid (h (h1 y)) \<and> dest y = v) amt (x # xs) -
      (if v = s then sum_where (\<lambda>y. is_open y \<and> is_paid (h (h1 y))) amt (x # xs) else 0)) (\<lambda>_. 0) 0 0
      d (run_items (process e s) (Suc j) xs d1)"
    using shifts_trans [OF g(6) hD(9)] sums [of "\<lambda>_. True"]
    by (elim shifts_cong) (auto simp: hx sums)
  have dec: "\<not> is_open (h (h1 y)) \<and> (\<not> is_open y \<longrightarrow> h (h1 y) = y)" if "y \<in> set (x # xs)" for y
    using that hD(7,10) g(3,4) by (auto simp: hx hy)
  have frame: "h (h1 r) = r" if "iid r \<notin> iid ` set (x # xs)" for r
    using that hD(8) by (auto simp: h1_def)
  have "ran s (x # xs) (h \<circ> h1) d (run_items (process e s) (Suc j) xs d1)"
    unfolding ran_def comp_def using sh dec frame by (simp add: hD(1-6) rows1 g(5) h1)
  then show ?case by (auto simp: d1_def)
qed

lemma ran_group:
  assumes "ran s xs h d d'"
  shows "filter (\<lambda>r. group r = i) (rows d') = map h (filter (\<lambda>r. group r = i) (rows d))"
  by (simp add: ranD(1) [OF assms] filter_map comp_def ranD(5) [OF assms])

end

end
