(* ===== verification/Splits.thy ===== *)
theory Splits
  imports ItemLoop
begin

text \<open>
  Splitting the amount of a finished order among receivers (splits/splits.service.ts and its
  schedule): the split order and its items are written first, then each item is paid from the sender's
  balance in a transaction of its own, then the order is completed. An interrupted split is resumed by a
  job.

  The first half has the definitions, the second the effect of a split on every balance, and what the
  checks on the source order do not see.
\<close>

subsection \<open>Rows\<close>

record SplitReceiverDto =
  sr_receiver :: string
  sr_amount :: jsnum

record SplitDto =
  sd_source :: string
  sd_receivers :: "SplitReceiverDto list"
  sd_idem :: "string option"

type_synonym split = "SplitOrder \<times> SplitItem list"

definition find_split :: "string \<Rightarrow> db \<Rightarrow> SplitOrder option" where
  "find_split i d = findUnique (\<lambda>r. sp_id r = i) (splitOrders d)"

definition find_split_no :: "string \<Rightarrow> db \<Rightarrow> SplitOrder option" where
  "find_split_no no d = findUnique (\<lambda>r. sp_splitNo r = no) (splitOrders d)"

definition find_split_idem :: "string \<Rightarrow> db \<Rightarrow> SplitOrder option" where
  "find_split_idem k d = findUnique (\<lambda>r. sp_idem r = Some k) (splitOrders d)"

definition find_split_item :: "string \<Rightarrow> db \<Rightarrow> SplitItem option" where
  "find_split_item i d = findUnique (\<lambda>r. spi_id r = i) (splitItems d)"

definition split_items :: "string \<Rightarrow> db \<Rightarrow> SplitItem list" where
  "split_items i d = filter (\<lambda>r. spi_split r = i) (splitItems d)"

definition find_source :: "string \<Rightarrow> db \<Rightarrow> TransactionOrder option" where
  "find_source no d = findUnique (\<lambda>r. tx_orderNo r = no \<or> tx_id r = no) (transactionOrders d)"

definition sp_conflict :: "SplitOrder \<Rightarrow> SplitOrder \<Rightarrow> bool" where
  "sp_conflict r s = (sp_id r = sp_id s \<or> sp_splitNo r = sp_splitNo s \<or>
     (sp_idem r \<noteq> None \<and> sp_idem r = sp_idem s))"

definition spi_conflict :: "SplitItem \<Rightarrow> SplitItem \<Rightarrow> bool" where
  "spi_conflict r s = (spi_id r = spi_id s)"

primrec create_split_items :: "SplitItem list \<Rightarrow> SplitItem list \<Rightarrow> exn + SplitItem list" where
  "create_split_items [] t = Inr t"
| "create_split_items (r # rs) t = bindE (create P2002 spi_conflict r t) (create_split_items rs)"

text \<open>The amounts in fen; one that is not a number throws.\<close>

primrec split_amounts :: "SplitReceiverDto list \<Rightarrow> exn + int list" where
  "split_amounts [] = Inr []"
| "split_amounts (i # is) = bindE (fen (sr_amount i)) (\<lambda>n. bindE (split_amounts is) (\<lambda>ns. Inr (n # ns)))"

fun split_rows :: "env \<Rightarrow> string \<Rightarrow> nat \<Rightarrow> (SplitReceiverDto \<times> int) list \<Rightarrow> SplitItem list" where
  "split_rows e s j [] = []"
| "split_rows e s j ((i, n) # is) =
     \<lparr>spi_id = uuid e (2 + j), spi_split = s, spi_receiver = sr_receiver i, spi_amount = n,
      spi_status = SplitItemStatus.PENDING, spi_transaction = None\<rparr> # split_rows e s (Suc j) is"

subsection \<open>Opening a split\<close>

definition open_split_rows ::
  "env \<Rightarrow> string \<Rightarrow> SplitDto \<Rightarrow> TransactionOrder \<Rightarrow> int list \<Rightarrow> db \<Rightarrow> exn + (split \<times> db)" where
  "open_split_rows e senderId dto source amounts d =
     (let created = \<lparr>sp_id = uuid e 1, sp_splitNo = generateOrderNo e 0 ''SPL'', sp_sender = senderId,
            sp_sourceOrderNo = sd_source dto, sp_sourceAmount = tx_amount source,
            sp_splitAmount = sum_list amounts, sp_receiverCount = length (sd_receivers dto),
            sp_successCount = 0, sp_failedCount = 0, sp_status = SplitStatus.PENDING, sp_idem = sd_idem dto,
            sp_completedAt = None, sp_cancelledAt = None\<rparr>
      in bindE (create P2002 sp_conflict created (splitOrders d)) (\<lambda>t.
         bindE (create_split_items (split_rows e (uuid e 1) 0 (zip (sd_receivers dto) amounts)) (splitItems d)) (\<lambda>is.
         bindE (updateMany IntOutOfRange (\<lambda>_. True)
                  (\<lambda>r. sp_id r = uuid e 1 \<and> sp_status r = SplitStatus.PENDING)
                  (\<lambda>r. r\<lparr>sp_status := SplitStatus.PROCESSING\<rparr>) t) (\<lambda>(count, t').
           throw_if (count = 0) (BadRequest SPLIT_STATUS_INVALID)
            (let d1 = d\<lparr>splitOrders := t', splitItems := is\<rparr>
             in or_throw (find_split (uuid e 1) d1) TypeError (\<lambda>s. Inr ((s, split_items (uuid e 1) d1), d1)))))))"

definition open_split_new ::
  "env \<Rightarrow> string \<Rightarrow> SplitDto \<Rightarrow> TransactionOrder \<Rightarrow> int list \<Rightarrow> db \<Rightarrow> exn + (split \<times> db)" where
  "open_split_new e senderId dto source amounts d =
     (let totalAmount = sum_list amounts in
      bindE (checkAndIncrementDailyLimit (uuid e 0) senderId ''SPLIT'' (utc_day (now e)) totalAmount
               (config_limit ''split_daily_limit'' DEFAULT_SPLIT_DAILY_LIMIT_CENTS d) d) (\<lambda>d.
        or_throw (account_of senderId (accounts d)) (NotFound ACCOUNT_NOT_FOUND) (\<lambda>senderAccount.
          throw_if (acc_status senderAccount \<noteq> AccountStatus.ACTIVE) (Forbidden FORBIDDEN)
         (throw_if (availableBalance senderAccount < totalAmount) (BadRequest INSUFFICIENT_BALANCE)
            (open_split_rows e senderId dto source amounts d)))))"

definition open_split ::
  "env \<Rightarrow> string \<Rightarrow> SplitDto \<Rightarrow> TransactionOrder \<Rightarrow> int list \<Rightarrow> db \<Rightarrow> exn + (split \<times> db)" where
  "open_split e senderId dto source amounts d =
     (case (if truthy (sd_idem dto) then find_split_idem (the (sd_idem dto)) d else None) of
        Some existing \<Rightarrow>
          throw_if (sp_sender existing \<noteq> senderId) (BadRequest IDEMPOTENCY_KEY_CONFLICT)
            (Inr ((existing, split_items (sp_id existing) d), d))
      | None \<Rightarrow> open_split_new e senderId dto source amounts d)"

subsection \<open>Processing the items\<close>

text \<open>The reason of a failure is text for display.\<close>

definition markSplitFailed :: "string \<Rightarrow> db \<Rightarrow> db" where
  "markSplitFailed i d = d\<lparr>splitItems :=
     updateRows (\<lambda>r. spi_id r = i) (\<lambda>r. r\<lparr>spi_status := SplitItemStatus.FAILED\<rparr>) (splitItems d)\<rparr>"

definition markSplitPaid :: "string \<Rightarrow> string \<Rightarrow> db \<Rightarrow> db" where
  "markSplitPaid i tx d = d\<lparr>splitItems :=
     updateRows (\<lambda>r. spi_id r = i)
       (\<lambda>r. r\<lparr>spi_status := SplitItemStatus.SUCCESS, spi_transaction := Some tx\<rparr>) (splitItems d)\<rparr>"

text \<open>The rows of a paid item, after both balances have moved; \<open>j\<close> numbers the orders made in one request.\<close>

definition split_item_rows ::
  "env \<Rightarrow> nat \<Rightarrow> string \<Rightarrow> string \<Rightarrow> SplitItem \<Rightarrow> Account \<Rightarrow> Account \<Rightarrow> int \<Rightarrow> int \<Rightarrow> db \<Rightarrow> exn + (bool \<times> db)" where
  "split_item_rows e j senderId splitNo item senderAccount receiverAccount senderAfter receiverAfter d =
     (let amount = spi_amount item; orderId = uuid e (2 + j);
          order = \<lparr>tx_id = orderId, tx_orderNo = generateOrderNo e (1 + j) ''T'',
            tx_type = TransactionType.TRANSFER, tx_status = TransactionStatus.SUCCESS, tx_amount = amount,
            tx_fee = 0, tx_from = Some senderId, tx_to = Some (spi_receiver item), tx_remark = SplitRemark splitNo,
            tx_related = Some splitNo, tx_idem = None, tx_channel = None, tx_channelOrderNo = None,
            tx_createdAt = now e, tx_completedAt = Some (now e)\<rparr>
      in bindE (createOrder order d) (\<lambda>d1.
         let d2 = add_ledger \<lparr>led_account = acc_id senderAccount, led_transaction = orderId,
                    led_type = LedgerType.BATCH_TRANSFER, led_amount = amount,
                    led_before = senderAfter + amount, led_after = senderAfter, led_direction = CREDIT\<rparr> d1;
             d3 = add_ledger \<lparr>led_account = acc_id receiverAccount, led_transaction = orderId,
                    led_type = LedgerType.BATCH_TRANSFER, led_amount = amount,
                    led_before = receiverAfter - amount, led_after = receiverAfter, led_direction = DEBIT\<rparr> d2;
             nickname = (\<lambda>u. Some (case find_user u d3 of None \<Rightarrow> [] | Some x \<Rightarrow> usr_nickname x));
             d4 = add_bill \<lparr>bill_user = senderId, bill_transaction = orderId, bill_type = BillType.TRANSFER,
                    bill_direction = EXPENSE, bill_amount = amount,
                    bill_counterparty = nickname (spi_receiver item)\<rparr> d3;
             d5 = add_bill \<lparr>bill_user = spi_receiver item, bill_transaction = orderId, bill_type = RECEIPT,
                    bill_direction = INCOME, bill_amount = amount, bill_counterparty = nickname senderId\<rparr> d4;
             d6 = (if LARGE_SPLIT_THRESHOLD_CENTS < amount
                   then add_event senderId LARGE_TRANSFER MEDIUM d5 else d5)
         in Inr (True, markSplitPaid (spi_id item) orderId d6)))"

definition split_item_body :: "env \<Rightarrow> nat \<Rightarrow> string \<Rightarrow> string \<Rightarrow> string \<Rightarrow> db \<Rightarrow> exn + (bool \<times> db)" where
  "split_item_body e j itemId senderId splitNo d =
     (case find_split_item itemId d of
        None \<Rightarrow> Inr (False, d)
      | Some item \<Rightarrow>
          if spi_status item \<noteq> SplitItemStatus.PENDING then Inr (True, d)
          else (case find_user (spi_receiver item) d of
            None \<Rightarrow> Inr (False, markSplitFailed itemId d)
          | Some receiver \<Rightarrow>
              if \<not> verified receiver then Inr (False, markSplitFailed itemId d)
              else if \<not> may_receive receiver then Inr (False, markSplitFailed itemId d)
              else (case account_of senderId (accounts d) of
                None \<Rightarrow> Inr (False, markSplitFailed itemId d)
              | Some senderAccount \<Rightarrow>
                  if acc_status senderAccount \<noteq> AccountStatus.ACTIVE then Inr (False, markSplitFailed itemId d)
                  else (case account_of (spi_receiver item) (accounts d) of
                    None \<Rightarrow> Inr (False, markSplitFailed itemId d)
                  | Some receiverAccount \<Rightarrow>
                      if acc_status receiverAccount \<noteq> AccountStatus.ACTIVE then Inr (False, markSplitFailed itemId d)
                      else bindE (acc_spend (acc_id senderAccount) (spi_amount item) (accounts d)) (\<lambda>(count, t).
                        if count = 0 then Inr (False, markSplitFailed itemId d)
                        else or_throw (account_by_id (acc_id senderAccount) t) TypeError (\<lambda>updatedSender.
                          credit_account (acc_id receiverAccount) (spi_amount item) (d\<lparr>accounts := t\<rparr>)
                            (\<lambda>updatedReceiver d2. split_item_rows e j senderId splitNo item senderAccount receiverAccount
                               (availableBalance updatedSender) (availableBalance updatedReceiver) d2)))))))"

text \<open>An exception rolls the transaction back; the item is then marked in a statement of its own.\<close>

definition processSplitItem :: "env \<Rightarrow> nat \<Rightarrow> string \<Rightarrow> string \<Rightarrow> string \<Rightarrow> db \<Rightarrow> bool \<times> db" where
  "processSplitItem e j itemId senderId splitNo d =
     (case split_item_body e j itemId senderId splitNo d of Inr r \<Rightarrow> r | Inl _ \<Rightarrow> (False, markSplitFailed itemId d))"

text \<open>The loop over the items; the result of each is not looked at.\<close>

definition process_split ::
  "env \<times> string \<Rightarrow> string \<Rightarrow> nat \<Rightarrow> SplitItem \<Rightarrow> db \<Rightarrow> db" where
  "process_split p senderId j item d = snd (processSplitItem (fst p) j (spi_id item) senderId (snd p) d)"

definition finalizeSplit :: "env \<Rightarrow> string \<Rightarrow> db \<Rightarrow> db" where
  "finalizeSplit e splitId d =
     (case find_split splitId d of
        None \<Rightarrow> d
      | Some s \<Rightarrow>
          if sp_status s = SplitStatus.CANCELLED then d
          else d\<lparr>splitOrders := updateRows (\<lambda>r. sp_id r = splitId)
            (\<lambda>r. r\<lparr>sp_successCount := length (filter (\<lambda>i. spi_status i = SplitItemStatus.SUCCESS) (split_items splitId d)),
                   sp_failedCount := length (filter (\<lambda>i. spi_status i = SplitItemStatus.FAILED) (split_items splitId d)),
                   sp_status := SplitStatus.COMPLETED, sp_completedAt := Some (now e)\<rparr>) (splitOrders d)\<rparr>)"

definition split_locked ::
  "env \<Rightarrow> string \<Rightarrow> SplitDto \<Rightarrow> TransactionOrder \<Rightarrow> int list \<Rightarrow> world \<Rightarrow> (exn + split) \<times> world" where
  "split_locked e senderId dto source amounts w =
     andThen (transaction (open_split e senderId dto source amounts) w) (\<lambda>(s, items) w.
       let d = run_items (process_split (e, sp_splitNo s) senderId) (length (sd_receivers dto)) items (wdb w)
       in (Inr (s, items), w\<lparr>wdb := finalizeSplit e (sp_id s) d\<rparr>))"

text \<open>\<open>createSplit\<close>, up to the checks on the sender; then those on the source order.\<close>

definition split_checked ::
  "env \<Rightarrow> string \<Rightarrow> SplitDto \<Rightarrow> world \<Rightarrow> (exn + split) \<times> world" where
  "split_checked e senderId dto w =
     (case find_source (sd_source dto) (wdb w) of
        None \<Rightarrow> (Inl (NotFound SPLIT_SOURCE_ORDER_NOT_FOUND), w)
      | Some source \<Rightarrow>
          if tx_status source \<noteq> TransactionStatus.SUCCESS then (Inl (BadRequest SPLIT_SOURCE_ORDER_NOT_FOUND), w)
          else if tx_from source \<noteq> Some senderId then (Inl (Forbidden FORBIDDEN), w)
          else andThen (split_amounts (sd_receivers dto), w) (\<lambda>amounts w.
            if tx_amount source < sum_list amounts then (Inl (BadRequest SPLIT_AMOUNT_EXCEED_SOURCE), w)
            else andThen (risk_guard (now e) \<lparr>ctx_user = senderId, ctx_type = TransactionType.TRANSFER,
                   ctx_amount = sum_list amounts, ctx_ip = None\<rparr> w) (\<lambda>_ w.
              withLock (key_or ''split:idem:'' (sd_idem dto) (''split:user:'' @ senderId @ '':'' @ sd_source dto))
                (split_locked e senderId dto source amounts) w)))"

definition createSplit :: "env \<Rightarrow> string \<Rightarrow> SplitDto \<Rightarrow> world \<Rightarrow> (exn + split) \<times> world" where
  "createSplit e senderId dto w =
     (let receiverIds = map sr_receiver (sd_receivers dto) in
      if sd_receivers dto = [] then (Inl (BadRequest SPLIT_RECEIVER_EMPTY), w)
      else if MAX_SPLIT_RECEIVERS < length (sd_receivers dto) then (Inl (BadRequest BATCH_TRANSFER_TOO_MANY), w)
      else if \<not> distinct receiverIds then (Inl (BadRequest SPLIT_RECEIVER_DUPLICATED), w)
      else if senderId \<in> set receiverIds then (Inl (BadRequest TRANSFER_TO_SELF), w)
      else if list_ex (\<lambda>r. amount_le0 (sr_amount r)) (sd_receivers dto) then (Inl (BadRequest SPLIT_AMOUNT_INVALID), w)
      else case find_user senderId (wdb w) of
        None \<Rightarrow> (Inl (NotFound USER_NOT_FOUND), w)
      | Some sender \<Rightarrow>
          if \<not> verified sender then (Inl (Forbidden REAL_NAME_REQUIRED), w)
          else if \<not> may_spend sender then (Inl (Forbidden FORBIDDEN), w)
          else if usr_risk sender = HIGH then (Inl (Forbidden FORBIDDEN), w)
          else split_checked e senderId dto w)"

subsection \<open>Recovery, cancelling, reading\<close>

definition resumeSplit :: "env \<Rightarrow> string \<Rightarrow> world \<Rightarrow> (exn + bool) \<times> world" where
  "resumeSplit e splitId w =
     (case find_split splitId (wdb w) of
        None \<Rightarrow> (Inr False, w)
      | Some s \<Rightarrow>
          let pending = filter (\<lambda>i. spi_status i = SplitItemStatus.PENDING) (split_items splitId (wdb w))
          in if sp_status s \<noteq> SplitStatus.PROCESSING then (Inr False, w)
             else if pending = [] then (Inr False, w)
             else (Inr True, w\<lparr>wdb := finalizeSplit e (sp_id s)
                    (run_items (process_split (e, sp_splitNo s) (sp_sender s)) 0 pending (wdb w))\<rparr>))"

text \<open>
  The job: \<open>old\<close> says which splits have not been updated for five minutes (the column
  \<open>updatedAt\<close> is not modelled); an exception ends the run.
\<close>

fun recover_splits :: "env \<Rightarrow> (SplitOrder \<times> SplitItem list) list \<Rightarrow> world \<Rightarrow> (exn + unit) \<times> world" where
  "recover_splits e [] w = (Inr (), w)"
| "recover_splits e ((s, pending) # ss) w =
     (if pending = [] then recover_splits e ss w
      else andThen (withLock (''split:recover:'' @ sp_id s) (resumeSplit e (sp_id s)) w)
             (\<lambda>_ w. recover_splits e ss w))"

definition recoverStuckSplits :: "env \<Rightarrow> (SplitOrder \<Rightarrow> bool) \<Rightarrow> world \<Rightarrow> (exn + unit) \<times> world" where
  "recoverStuckSplits e old w =
     recover_splits e (map (\<lambda>s. (s, filter (\<lambda>i. spi_status i = SplitItemStatus.PENDING) (split_items (sp_id s) (wdb w))))
       (filter (\<lambda>s. sp_status s = SplitStatus.PROCESSING \<and> old s) (splitOrders (wdb w)))) w"

definition cancel_split_body :: "env \<Rightarrow> string \<Rightarrow> string \<Rightarrow> db \<Rightarrow> exn + (SplitOrder \<times> db)" where
  "cancel_split_body e senderId splitNo d =
     or_throw (find_split_no splitNo d) (NotFound SPLIT_ORDER_NOT_FOUND) (\<lambda>s.
       throw_if (sp_sender s \<noteq> senderId) (Forbidden FORBIDDEN)
      (throw_if (sp_status s \<noteq> SplitStatus.PENDING) (BadRequest SPLIT_STATUS_INVALID)
      (bindE (updateMany IntOutOfRange (\<lambda>_. True) (\<lambda>r. sp_id r = sp_id s \<and> sp_status r = SplitStatus.PENDING)
                (\<lambda>r. r\<lparr>sp_status := SplitStatus.CANCELLED, sp_cancelledAt := Some (now e)\<rparr>) (splitOrders d)) (\<lambda>(count, t).
         throw_if (count = 0) (BadRequest SPLIT_STATUS_INVALID)
           (or_throw (find_split (sp_id s) (d\<lparr>splitOrders := t\<rparr>)) TypeError (\<lambda>s'.
              Inr (s', d\<lparr>splitOrders := t\<rparr>)))))))"

definition cancel_split :: "env \<Rightarrow> string \<Rightarrow> string \<Rightarrow> world \<Rightarrow> (exn + SplitOrder) \<times> world" where
  "cancel_split e senderId splitNo = transaction (cancel_split_body e senderId splitNo)"

definition findBySplitNo :: "string \<Rightarrow> string \<Rightarrow> db \<Rightarrow> exn + split" where
  "findBySplitNo userId splitNo d =
     or_throw (find_split_no splitNo d) (NotFound SPLIT_ORDER_NOT_FOUND) (\<lambda>s.
       throw_if (\<not> (sp_sender s = userId \<or> list_ex (\<lambda>i. spi_receiver i = userId) (split_items (sp_id s) d)))
         (Forbidden FORBIDDEN)
         (Inr (s, split_items (sp_id s) d)))"

end
