(* ===== verification/SplitSafety.thy ===== *)
theory SplitSafety
  imports Splits
begin

text \<open>
  What a split does to the balances: one item as a shift of balances, the loop by the interface
  \<open>item_loop\<close>, the whole request, and the recovery.
\<close>

subsection \<open>One item\<close>

definition item_set :: "string \<Rightarrow> (SplitItem \<Rightarrow> SplitItem) \<Rightarrow> db \<Rightarrow> db \<Rightarrow> bool" where
  "item_set i f d d' = (splitOrders d' = splitOrders d \<and>
     splitItems d' = updateRows (\<lambda>r. spi_id r = i) f (splitItems d))"

definition mark :: "SplitItemStatus \<Rightarrow> string option \<Rightarrow> SplitItem \<Rightarrow> SplitItem" where
  "mark st tx r = r\<lparr>spi_status := st, spi_transaction := (case tx of None \<Rightarrow> spi_transaction r | Some _ \<Rightarrow> tx)\<rparr>"

lemma item_mark_simps [simp]:
  "spi_id (mark st tx r) = spi_id r" "spi_amount (mark st tx r) = spi_amount r"
  "spi_receiver (mark st tx r) = spi_receiver r" "spi_split (mark st tx r) = spi_split r"
  "spi_status (mark st tx r) = st"
  by (simp_all add: mark_def)

lemma markSplitFailed_effect:
  "books_kept d (markSplitFailed i d)" "item_set i (mark SplitItemStatus.FAILED None) d (markSplitFailed i d)"
  by (simp_all add: markSplitFailed_def books_kept_def same_holdings_def ledgers_ok_def item_set_def mark_def [abs_def])

lemma split_item_rows_effect:
  assumes run: "split_item_rows e j s no item sa ra sb rb d = Inr (r, d')" and n: "0 \<le> spi_amount item"
  shows "r" and "books_kept d d'" and "item_set (spi_id item) (mark SplitItemStatus.SUCCESS (Some (uuid e (2 + j)))) d d'"
  using run n
  by (auto simp: split_item_rows_def Let_def createOrder_Inr books_kept_def same_holdings_def ledgers_ok_def
      ledger_ok_def orders_ok_def add_ledger_def add_bill_def add_event_def markSplitPaid_def item_set_def mark_def [abs_def])

lemma split_item_body_effect:
  assumes run: "split_item_body e j i s no d = Inr (r, d')" and ok: "accounts_ok (accounts d)"
    and item: "find_split_item i d = Some x" "spi_status x = SplitItemStatus.PENDING" and n: "0 \<le> spi_amount x"
  shows "r \<Longrightarrow> shifts (\<lambda>v. (if v = spi_receiver x then spi_amount x else 0) - (if v = s then spi_amount x else 0))
      (\<lambda>_. 0) 0 0 d d' \<and> item_set i (mark SplitItemStatus.SUCCESS (Some (uuid e (2 + j)))) d d'"
    and "\<not> r \<Longrightarrow> books_kept d d' \<and> item_set i (mark SplitItemStatus.FAILED None) d d'"
proof -
  have i: "spi_id x = i" using item(1) by (auto simp: find_split_item_def dest: findUnique_SomeD)
  consider (failed) "\<not> r" "d' = markSplitFailed i d"
    | (paid) sa ra us c t where "account_of s (accounts d) = Some sa" "account_of (spi_receiver x) (accounts d) = Some ra"
      "acc_spend (acc_id sa) (spi_amount x) (accounts d) = Inr (c, t)" "c \<noteq> 0"
      "credit_account (acc_id ra) (spi_amount x) (d\<lparr>accounts := t\<rparr>)
         (\<lambda>ur d2. split_item_rows e j s no x sa ra us (availableBalance ur) d2) = Inr (r, d')"
    using run item by (auto simp: split_item_body_def split: option.splits if_splits)
  then have "(r \<and> shifts (\<lambda>v. (if v = spi_receiver x then spi_amount x else 0) - (if v = s then spi_amount x else 0))
      (\<lambda>_. 0) 0 0 d d' \<and> item_set i (mark SplitItemStatus.SUCCESS (Some (uuid e (2 + j)))) d d') \<or>
    (\<not> r \<and> books_kept d d' \<and> item_set i (mark SplitItemStatus.FAILED None) d d')"
  proof cases
    case paid
    note sp = spend.stmt_shifts [OF ok paid(1,3,4) n]
    have ok1: "accounts_ok (accounts (d\<lparr>accounts := t\<rparr>))" using sp(1) by (simp add: shifts_def)
    have acc: "accounts (d\<lparr>accounts := t\<rparr>) = move_funds (acc_id sa) (- spi_amount x) 0 (accounts d)"
      unfolding sp(2) by simp
    obtain b' :: Account where rows: "split_item_rows e j s no x sa ra us (availableBalance b')
        (moved (acc_id ra) (spi_amount x) 0 (d\<lparr>accounts := t\<rparr>)) = Inr (r, d')"
      and cr: "shifts (\<lambda>u. if u = spi_receiver x then spi_amount x else 0) (\<lambda>_. 0) (spi_amount x) 0
        (d\<lparr>accounts := t\<rparr>) (moved (acc_id ra) (spi_amount x) 0 (d\<lparr>accounts := t\<rparr>))"
      by (rule credit_shifts [OF paid(5,2) ok ok1 n acc])
    note rw = split_item_rows_effect [OF rows n]
    have ok2: "accounts_ok (accounts (moved (acc_id ra) (spi_amount x) 0 (d\<lparr>accounts := t\<rparr>)))"
      using cr by (simp add: shifts_def)
    from shifts_trans [OF shifts_trans [OF sp(1) cr] shifts_kept [OF rw(2) ok2]] rw(1,3) show ?thesis
      by (auto simp: i item_set_def elim!: shifts_cong)
  qed (simp add: markSplitFailed_effect)
  then show "r \<Longrightarrow> shifts (\<lambda>v. (if v = spi_receiver x then spi_amount x else 0) - (if v = s then spi_amount x else 0))
      (\<lambda>_. 0) 0 0 d d' \<and> item_set i (mark SplitItemStatus.SUCCESS (Some (uuid e (2 + j)))) d d'"
    and "\<not> r \<Longrightarrow> books_kept d d' \<and> item_set i (mark SplitItemStatus.FAILED None) d d'" by auto
qed

text \<open>Which way the item went is what the row says afterwards.\<close>

lemma process_split_effect:
  assumes ok: "accounts_ok (accounts d)" and item: "find_split_item (spi_id x) d = Some x"
      "spi_status x = SplitItemStatus.PENDING" and n: "0 \<le> spi_amount x"
  shows "\<exists>st tx. st \<noteq> SplitItemStatus.PENDING \<and> item_set (spi_id x) (mark st tx) d (process_split p s j x d) \<and>
    shifts (\<lambda>v. if st = SplitItemStatus.SUCCESS
        then (if v = spi_receiver x then spi_amount x else 0) - (if v = s then spi_amount x else 0) else 0)
      (\<lambda>_. 0) 0 0 d (process_split p s j x d)"
proof (cases "split_item_body (fst p) j (spi_id x) s (snd p) d")
  case (Inl err)
  then show ?thesis
    using markSplitFailed_effect [where d = d and i = "spi_id x"] shifts_kept [OF _ ok]
    by (intro exI [of _ SplitItemStatus.FAILED] exI [of _ None]) (simp add: process_split_def processSplitItem_def)
next
  case (Inr y)
  obtain r d' where y: "y = (r, d')" by force
  note ef = split_item_body_effect [OF Inr [unfolded y] ok item n]
  have "process_split p s j x d = d'" using Inr y by (simp add: process_split_def processSplitItem_def)
  with ef shifts_kept [of d d', OF _ ok] show ?thesis by (cases r) force+
qed

interpretation splits: item_loop spi_id spi_receiver spi_split spi_amount
  "\<lambda>r. spi_status r = SplitItemStatus.PENDING" "\<lambda>r. spi_status r = SplitItemStatus.SUCCESS"
  splitItems splitOrders process_split
proof
  fix d :: db and x :: SplitItem and p s j
  assume a: "distinct (map spi_id (splitItems d))" "x \<in> set (splitItems d)" "spi_status x = SplitItemStatus.PENDING"
    "0 \<le> spi_amount x" "accounts_ok (accounts d)"
  have "find_split_item (spi_id x) d = Some x"
    unfolding find_split_item_def by (rule findUnique_key_eq [OF a(1,2)]) simp
  from process_split_effect [OF a(5) this a(3,4), of p s j] obtain st tx where
    ef: "st \<noteq> SplitItemStatus.PENDING" "item_set (spi_id x) (mark st tx) d (process_split p s j x d)"
      "shifts (\<lambda>v. if st = SplitItemStatus.SUCCESS
        then (if v = spi_receiver x then spi_amount x else 0) - (if v = s then spi_amount x else 0) else 0)
      (\<lambda>_. 0) 0 0 d (process_split p s j x d)" by blast
  then show "\<exists>g. splitItems (process_split p s j x d) = map (\<lambda>r. if spi_id r = spi_id x then g r else r) (splitItems d) \<and>
      (\<forall>r. spi_id (g r) = spi_id r \<and> spi_receiver (g r) = spi_receiver r \<and> spi_split (g r) = spi_split r \<and>
         spi_amount (g r) = spi_amount r \<and> spi_status (g r) \<noteq> SplitItemStatus.PENDING) \<and>
      splitOrders (process_split p s j x d) = splitOrders d \<and>
      shifts (\<lambda>v. if spi_status (g x) = SplitItemStatus.SUCCESS
        then (if v = spi_receiver x then spi_amount x else 0) - (if v = s then spi_amount x else 0) else 0)
      (\<lambda>_. 0) 0 0 d (process_split p s j x d)"
    by (intro exI [of _ "mark st tx"]) (simp add: item_set_def updateRows_def)
next
  fix d :: db and x :: SplitItem and p s j
  assume a: "distinct (map spi_id (splitItems d))" "x \<in> set (splitItems d)" "spi_status x \<noteq> SplitItemStatus.PENDING"
  have "find_split_item (spi_id x) d = Some x"
    unfolding find_split_item_def by (rule findUnique_key_eq [OF a(1,2)]) simp
  with a(3) show "process_split p s j x d = d"
    by (simp add: process_split_def processSplitItem_def split_item_body_def)
qed

subsection \<open>The tables of the splits\<close>

text \<open>
  Unique ids, items that belong to an order and sum up to its amount, and an amount that stays within
  the source order.
\<close>

definition splits_ok :: "db \<Rightarrow> bool" where
  "splits_ok d = (distinct (map sp_id (splitOrders d)) \<and> distinct (map spi_id (splitItems d)) \<and>
     (\<forall>r \<in> set (splitItems d). 0 \<le> spi_amount r \<and> spi_split r \<in> sp_id ` set (splitOrders d)) \<and>
     (\<forall>s \<in> set (splitOrders d). sp_splitAmount s = sum_list (map spi_amount (split_items (sp_id s) d)) \<and>
        sp_splitAmount s \<le> sp_sourceAmount s))"

lemma splits_okD:
  assumes "splits_ok d"
  shows "distinct (map sp_id (splitOrders d))" and "distinct (map spi_id (splitItems d))"
    and "r \<in> set (splitItems d) \<Longrightarrow> 0 \<le> spi_amount r"
    and "r \<in> set (splitItems d) \<Longrightarrow> spi_split r \<in> sp_id ` set (splitOrders d)"
    and "s \<in> set (splitOrders d) \<Longrightarrow> sp_splitAmount s = sum_list (map spi_amount (split_items (sp_id s) d))"
    and "s \<in> set (splitOrders d) \<Longrightarrow> sp_splitAmount s \<le> sp_sourceAmount s"
  using assms unfolding splits_ok_def by blast+

lemma splits_ok_frame: "splitOrders d' = splitOrders d \<Longrightarrow> splitItems d' = splitItems d \<Longrightarrow> splits_ok d' = splits_ok d"
  by (simp add: splits_ok_def split_items_def)

lemma splits_ok_events [keep]: "ignores_events splits_ok"
  unfolding ignores_events_def by (intro allI impI) (erule splits_ok_frame [THEN iffD2, rotated 2], simp_all)

text \<open>An update of one order that keeps its identity and amounts, and the items going their way.\<close>

lemma splits_ok_orders:
  assumes "splits_ok d" and "\<And>r. sp_id (f r) = sp_id r \<and> sp_splitAmount (f r) = sp_splitAmount r \<and> sp_sourceAmount (f r) = sp_sourceAmount r"
  shows "splits_ok (d\<lparr>splitOrders := updateRows P f (splitOrders d)\<rparr>)"
proof -
  have "sp_id ` set (updateRows P f (splitOrders d)) = sp_id ` set (splitOrders d)"
    using map_updateRows_frame [of P sp_id f "splitOrders d"] assms(2) by (metis list.set_map)
  with assms show ?thesis
    by (auto simp: splits_ok_def split_items_def map_updateRows_frame elim!: in_updateRowsE)
qed

lemma splits_ok_ran:
  assumes "splits.ran s xs h d d'" and "splits_ok d"
  shows "splits_ok d'"
proof -
  note hD = splits.ranD [OF assms(1)]
  have "map spi_amount (split_items i d') = map spi_amount (split_items i d)" for i
    using splits.ran_group [OF assms(1), of i] by (simp add: split_items_def hD(6) comp_def)
  with assms(2) show ?thesis by (auto simp: splits_ok_def hD(1-6) comp_def)
qed

subsection \<open>Opening\<close>

lemma split_amounts_Inr:
  "split_amounts rs = Inr ns \<Longrightarrow> length ns = length rs \<and> (\<forall>n \<in> set ns. 0 \<le> n)"
  by (induction rs arbitrary: ns) (auto simp: fen_Inr dest: yuanToFen_nonneg)

lemma create_split_items_Inr:
  "create_split_items rs t = Inr t' \<Longrightarrow> t' = t @ rs \<and> (distinct (map spi_id t) \<longrightarrow> distinct (map spi_id t'))"
proof (induction rs arbitrary: t)
  case (Cons r rs)
  from Cons.prems have new: "\<forall>s \<in> set t. \<not> spi_conflict r s" and go: "create_split_items rs (t @ [r]) = Inr t'" by auto
  have "spi_id r \<notin> spi_id ` set t" using new by (auto simp: spi_conflict_def)
  with Cons.IH [OF go] show ?case by (elim conjE) simp
qed simp

lemma split_rows_fields:
  "map spi_amount (split_rows e s j ps) = map snd ps"
  "map spi_receiver (split_rows e s j ps) = map (sr_receiver \<circ> fst) ps"
  "r \<in> set (split_rows e s j ps) \<Longrightarrow> spi_split r = s \<and> spi_status r = SplitItemStatus.PENDING"
  by (induction e s j ps rule: split_rows.induct) auto

lemma open_split_new_effect:
  assumes run: "open_split_new e s dto src ns d = Inr ((sp, items), d')" and ns: "split_amounts (sd_receivers dto) = Inr ns"
    and tabs: "splits_ok d" and le: "sum_list ns \<le> tx_amount src"
  shows "books_kept d d'" and "splits_ok d'" and "sp \<in> set (splitOrders d')" and "items = split_items (sp_id sp) d'"
    and "sp_sender sp = s" and "sp_status sp = SplitStatus.PROCESSING" and "map spi_amount items = ns"
    and "map spi_receiver items = map sr_receiver (sd_receivers dto)"
    and "r \<in> set items \<Longrightarrow> spi_status r = SplitItemStatus.PENDING" and "sp_sourceAmount sp = tx_amount src"
proof -
  let ?i = "uuid e 1" and ?rows = "split_rows e (uuid e 1) 0 (zip (sd_receivers dto) ns)"
  let ?go = "\<lambda>r. r\<lparr>sp_status := SplitStatus.PROCESSING\<rparr>" and ?P = "\<lambda>r. sp_id r = ?i \<and> sp_status r = SplitStatus.PENDING"
  let ?new = "\<lparr>sp_id = ?i, sp_splitNo = generateOrderNo e 0 ''SPL'', sp_sender = s,
            sp_sourceOrderNo = sd_source dto, sp_sourceAmount = tx_amount src,
            sp_splitAmount = sum_list ns, sp_receiverCount = length (sd_receivers dto),
            sp_successCount = 0, sp_failedCount = 0, sp_status = SplitStatus.PENDING, sp_idem = sd_idem dto,
            sp_completedAt = None, sp_cancelledAt = None\<rparr>"
  obtain d0 where lim: "checkAndIncrementDailyLimit (uuid e 0) s ''SPLIT'' (utc_day (now e)) (sum_list ns)
      (config_limit ''split_daily_limit'' DEFAULT_SPLIT_DAILY_LIMIT_CENTS d) d = Inr d0"
    and rows: "open_split_rows e s dto src ns d0 = Inr ((sp, items), d')"
    using run by (auto simp: open_split_new_def Let_def)
  have sam: "splitOrders d0 = splitOrders d" "splitItems d0 = splitItems d"
    using checkAndIncrementDailyLimit_frame [OF lim] by auto
  obtain its where fresh: "\<forall>r \<in> set (splitOrders d). \<not> sp_conflict ?new r"
    and its: "create_split_items ?rows (splitItems d) = Inr its"
    and d': "d' = d0\<lparr>splitOrders := updateRows ?P ?go (splitOrders d @ [?new]), splitItems := its\<rparr>"
    and sp: "find_split ?i d' = Some sp" and it: "items = split_items ?i d'"
    using rows by (auto simp: open_split_rows_def Let_def sam)
  note cr = create_split_items_Inr [OF its]
  have old: "sp_id r \<noteq> ?i" if "r \<in> set (splitOrders d)" for r using fresh that by (auto simp: sp_conflict_def)
  have none: "updateRows ?P ?go (splitOrders d) = splitOrders d"
    using old by (intro updateRows_none) (auto simp: filter_empty_conv)
  have orders: "splitOrders d' = splitOrders d @ [?go ?new]"
    using none by (simp add: d' updateRows_def)
  have noitems: "split_items ?i d = []"
    using splits_okD(4) [OF tabs] old by (force simp: split_items_def filter_empty_conv)
  have mine: "filter (\<lambda>r. spi_split r = ?i) ?rows = ?rows" using split_rows_fields(3) by (simp add: filter_id_conv)
  have own: "split_items ?i d' = ?rows" using noitems cr mine by (simp add: d' split_items_def)
  have theirs: "split_items k d' = split_items k d" if "k \<noteq> ?i" for k
    using that cr split_rows_fields(3) [of _ e ?i 0 "zip (sd_receivers dto) ns"]
    by (force simp: d' split_items_def filter_empty_conv)
  have amounts: "map spi_amount ?rows = ns" "map spi_receiver ?rows = map sr_receiver (sd_receivers dto)"
    using split_amounts_Inr [OF ns] by (simp_all add: split_rows_fields) (simp flip: map_map)
  have nn: "0 \<le> spi_amount r" if "r \<in> set ?rows" for r
    using that amounts(1) split_amounts_Inr [OF ns] by (metis image_eqI list.set_map)
  have is_go: "sp = ?go ?new"
    using sp old by (auto simp: find_split_def orders findUnique_append findUnique_None split: option.splits dest: findUnique_SomeD)
  show "books_kept d d'"
    using daily_limit_kept [OF lim] by (simp add: d' books_kept_def same_holdings_def ledgers_ok_def)
  show "sp \<in> set (splitOrders d')" by (simp add: orders is_go)
  show "items = split_items (sp_id sp) d'" by (simp add: it is_go)
  show "sp_sender sp = s" "sp_status sp = SplitStatus.PROCESSING" "sp_sourceAmount sp = tx_amount src" by (simp_all add: is_go)
  show "map spi_amount items = ns" "map spi_receiver items = map sr_receiver (sd_receivers dto)"
    using own amounts by (simp_all add: it del: One_nat_def)
  show "r \<in> set items \<Longrightarrow> spi_status r = SplitItemStatus.PENDING" using split_rows_fields(3) own by (simp add: it del: One_nat_def)
  have ids: "?i \<notin> sp_id ` set (splitOrders d)" using old by (metis imageE)
  have items: "splitItems d' = splitItems d @ ?rows" using cr by (simp add: d')
  show "splits_ok d'"
    unfolding splits_ok_def
  proof (intro conjI ballI)
    show "distinct (map sp_id (splitOrders d'))" using splits_okD(1) [OF tabs] ids by (simp add: orders)
    show "distinct (map spi_id (splitItems d'))" using cr splits_okD(2) [OF tabs] by (elim conjE) (simp add: d')
  next
    fix r assume "r \<in> set (splitItems d')"
    then show "0 \<le> spi_amount r" "spi_split r \<in> sp_id ` set (splitOrders d')"
      using splits_okD(3,4) [OF tabs] nn split_rows_fields(3) by (fastforce simp: items orders)+
  next
    fix x assume x: "x \<in> set (splitOrders d')"
    then show "sp_splitAmount x = sum_list (map spi_amount (split_items (sp_id x) d'))"
      using splits_okD(5) [OF tabs] own theirs old amounts(1) by (auto simp: orders simp del: One_nat_def)
    show "sp_splitAmount x \<le> sp_sourceAmount x" using x splits_okD(6) [OF tabs] le by (auto simp: orders)
  qed
qed

subsection \<open>A whole split\<close>

lemma finalizeSplit_effect:
  "books_kept d (finalizeSplit e i d)" "splitItems (finalizeSplit e i d) = splitItems d"
  "splits_ok d \<Longrightarrow> splits_ok (finalizeSplit e i d)"
proof -
  show "books_kept d (finalizeSplit e i d)" "splitItems (finalizeSplit e i d) = splitItems d"
    by (auto simp: finalizeSplit_def books_kept_def same_holdings_def ledgers_ok_def split: option.splits)
  show "splits_ok d \<Longrightarrow> splits_ok (finalizeSplit e i d)"
    by (auto simp: finalizeSplit_def split: option.splits intro!: splits_ok_orders)
qed

lemma open_split_effect:
  assumes run: "open_split e s dto src ns d = Inr ((sp, items), d')" and ns: "split_amounts (sd_receivers dto) = Inr ns"
    and tabs: "splits_ok d" and le: "sum_list ns \<le> tx_amount src"
  shows "books_kept d d'" and "splits_ok d'" and "sp \<in> set (splitOrders d')" and "items = split_items (sp_id sp) d'"
    and "sp_sender sp = s"
    and "sp \<in> set (splitOrders d) \<or> (map spi_receiver items = map sr_receiver (sd_receivers dto) \<and>
      map spi_amount items = ns \<and> list_all (\<lambda>r. spi_status r = SplitItemStatus.PENDING) items)"
proof -
  consider (again) "d' = d" "sp \<in> set (splitOrders d)" "sp_sender sp = s" "items = split_items (sp_id sp) d"
    | (new) "open_split_new e s dto src ns d = Inr ((sp, items), d')"
    using run by (auto simp: open_split_def find_split_idem_def split: option.splits if_splits dest: findUnique_in)
  then have "books_kept d d' \<and> splits_ok d' \<and> sp \<in> set (splitOrders d') \<and> items = split_items (sp_id sp) d' \<and> sp_sender sp = s \<and>
    (sp \<in> set (splitOrders d) \<or> (map spi_receiver items = map sr_receiver (sd_receivers dto) \<and>
      map spi_amount items = ns \<and> list_all (\<lambda>r. spi_status r = SplitItemStatus.PENDING) items))"
  proof cases
    case new
    show ?thesis
      using open_split_new_effect [OF new ns tabs le] by (simp add: list_all_iff)
  qed (use tabs in simp)
  then show "books_kept d d'" and "splits_ok d'" and "sp \<in> set (splitOrders d')" and "items = split_items (sp_id sp) d'"
    and "sp_sender sp = s"
    and "sp \<in> set (splitOrders d) \<or> (map spi_receiver items = map sr_receiver (sd_receivers dto) \<and>
      map spi_amount items = ns \<and> list_all (\<lambda>r. spi_status r = SplitItemStatus.PENDING) items)" by blast+
qed

text \<open>The loop over some of the items of a split, from a database in good order.\<close>

lemma process_split_ran:
  assumes "money_ok d" and "splits_ok d" and "items = filter Q (splitItems d)"
  obtains h where "splits.ran s items h d (run_items (process_split p s) j items d)"
    and "money_ok (run_items (process_split p s) j items d)" and "splits_ok (run_items (process_split p s) j items d)"
proof -
  have "distinct (map spi_id items)" unfolding assms(3)
    using splits_okD(2) [OF assms(2)] by (rule distinct_map_filter)
  moreover have "x \<in> set (splitItems d) \<and> 0 \<le> spi_amount x" if "x \<in> set items" for x
    using that splits_okD(3) [OF assms(2)] by (auto simp: assms(3))
  ultimately obtain h where h: "splits.ran s items h d (run_items (process_split p s) j items d)"
    using splits.loop_ran [OF splits_okD(2) [OF assms(2)] _ _ money_okD(1) [OF assms(1)]] by blast
  have "money_ok_but s 0 d" using assms(1) by (simp add: money_ok_but_none)
  from money_ok_but_shift [OF this splits.ranD(9) [OF h]]
  have "money_ok (run_items (process_split p s) j items d)" by (simp add: money_ok_but_none)
  with h splits_ok_ran [OF h assms(2)] show thesis by (intro that)
qed

lemma createSplit_InrE:
  assumes "createSplit e s dto w = (Inr (sp, items), w')"
  obtains ns src evs d1 where "split_amounts (sd_receivers dto) = Inr ns" and "sum_list ns \<le> tx_amount src"
    and "find_source (sd_source dto) (wdb w) = Some src" and "tx_status src = TransactionStatus.SUCCESS" and "tx_from src = Some s"
    and "open_split e s dto src ns (wdb w\<lparr>riskEvents := evs\<rparr>) = Inr ((sp, items), d1)"
    and "wdb w' = finalizeSplit e (sp_id sp) (run_items (process_split (e, sp_splitNo sp) s) (length (sd_receivers dto)) items d1)"
proof -
  have "split_checked e s dto w = (Inr (sp, items), w')"
    using assms by (auto simp: createSplit_def Let_def split: if_splits option.splits)
  then obtain src ns w1 where src: "find_source (sd_source dto) (wdb w) = Some src" "tx_status src = TransactionStatus.SUCCESS"
      "tx_from src = Some s" and ns: "split_amounts (sd_receivers dto) = Inr ns" "sum_list ns \<le> tx_amount src"
    and rg: "risk_guard (now e) \<lparr>ctx_user = s, ctx_type = TransactionType.TRANSFER, ctx_amount = sum_list ns, ctx_ip = None\<rparr> w = (Inr (), w1)"
    and lk: "withLock (key_or ''split:idem:'' (sd_idem dto) (''split:user:'' @ s @ '':'' @ sd_source dto))
       (split_locked e s dto src ns) w1 = (Inr (sp, items), w')"
    by (auto simp: split_checked_def split: if_splits option.splits)
  obtain evs where evs: "wdb w1 = wdb w\<lparr>riskEvents := evs\<rparr>" using risk_guard_Inr [OF rg] by auto
  obtain w2 w3 where w2: "wdb w2 = wdb w1" and body: "split_locked e s dto src ns w2 = (Inr (sp, items), w3)"
    and w3: "wdb w' = wdb w3" by (rule withLock_InrE [OF lk])
  then obtain d1 where "open_split e s dto src ns (wdb w1) = Inr ((sp, items), d1)"
    and "wdb w3 = finalizeSplit e (sp_id sp) (run_items (process_split (e, sp_splitNo sp) s) (length (sd_receivers dto)) items d1)"
    by (auto simp: split_locked_def Let_def)
  with that [OF ns src] evs w3 show thesis by simp
qed

text \<open>What a split paid now: the items that were open and are marked as paid.\<close>

definition newly_paid :: "SplitItem list \<Rightarrow> SplitItem list \<Rightarrow> SplitItem list" where
  "newly_paid before after = map snd (filter (\<lambda>(x, y). spi_status x = SplitItemStatus.PENDING \<and>
     spi_status y = SplitItemStatus.SUCCESS) (zip before after))"

definition split_total :: "SplitItem list \<Rightarrow> int" where
  "split_total t = sum_list (map spi_amount t)"

lemma newly_paid_map:
  assumes "\<And>x. spi_amount (h x) = spi_amount x" and "\<And>x. spi_receiver (h x) = spi_receiver x"
  shows "split_total (filter (\<lambda>i. spi_receiver i = v) (newly_paid xs (map h xs))) =
      sum_where (\<lambda>x. spi_status x = SplitItemStatus.PENDING \<and> spi_status (h x) = SplitItemStatus.SUCCESS \<and> spi_receiver x = v) spi_amount xs"
    and "split_total (newly_paid xs (map h xs)) =
      sum_where (\<lambda>x. spi_status x = SplitItemStatus.PENDING \<and> spi_status (h x) = SplitItemStatus.SUCCESS) spi_amount xs"
  by (induction xs) (auto simp: newly_paid_def split_total_def assms)

lemma createSplit_effect:
  assumes run: "createSplit e s dto w = (Inr (sp, items), w')" and inv: "money_ok (wdb w)" and tabs: "splits_ok (wdb w)"
  obtains h where "split_items (sp_id sp) (wdb w') = map h items" and "\<forall>x. spi_amount (h x) = spi_amount x"
    and "\<forall>x. spi_receiver (h x) = spi_receiver x" and "\<forall>x. spi_id (h x) = spi_id x"
    and "\<forall>x \<in> set items. spi_status (h x) \<noteq> SplitItemStatus.PENDING"
    and "shifts (\<lambda>v. sum_where (\<lambda>x. spi_status x = SplitItemStatus.PENDING \<and> spi_status (h x) = SplitItemStatus.SUCCESS \<and>
          spi_receiver x = v) spi_amount items -
        (if v = s then sum_where (\<lambda>x. spi_status x = SplitItemStatus.PENDING \<and> spi_status (h x) = SplitItemStatus.SUCCESS)
           spi_amount items else 0)) (\<lambda>_. 0) 0 0 (wdb w) (wdb w')"
    and "sp_sender sp = s" and "split_total items \<le> sp_sourceAmount sp" and "money_ok (wdb w') \<and> splits_ok (wdb w')"
    and "sp \<in> set (splitOrders (wdb w)) \<or> (map spi_receiver items = map sr_receiver (sd_receivers dto) \<and>
      split_amounts (sd_receivers dto) = Inr (map spi_amount items) \<and>
      list_all (\<lambda>r. spi_status r = SplitItemStatus.PENDING) items)"
proof -
  obtain ns src evs d1 where ns: "split_amounts (sd_receivers dto) = Inr ns" "sum_list ns \<le> tx_amount src"
    and op: "open_split e s dto src ns (wdb w\<lparr>riskEvents := evs\<rparr>) = Inr ((sp, items), d1)"
    and w': "wdb w' = finalizeSplit e (sp_id sp) (run_items (process_split (e, sp_splitNo sp) s) (length (sd_receivers dto)) items d1)"
    by (rule createSplit_InrE [OF run])
  let ?d = "wdb w\<lparr>riskEvents := evs\<rparr>"
  have inv': "money_ok ?d" using ignores_eventsD [OF money_ok_events inv] .
  have tabs': "splits_ok ?d" using ignores_eventsD [OF splits_ok_events tabs] .
  note o = open_split_effect [OF op ns(1) tabs' ns(2)]
  have inv1: "money_ok d1" by (rule books_kept_money_ok [OF o(1) inv'])
  have it: "items = filter (\<lambda>r. spi_split r = sp_id sp) (splitItems d1)" using o(4) by (simp add: split_items_def)
  obtain h where h: "splits.ran s items h d1 (run_items (process_split (e, sp_splitNo sp) s) (length (sd_receivers dto)) items d1)"
    and inv2: "money_ok (run_items (process_split (e, sp_splitNo sp) s) (length (sd_receivers dto)) items d1)"
    and tabs2: "splits_ok (run_items (process_split (e, sp_splitNo sp) s) (length (sd_receivers dto)) items d1)"
    by (rule process_split_ran [OF inv1 o(2) it])
  note hD = splits.ranD [OF h]
  note fin = finalizeSplit_effect [where e = e and i = "sp_id sp"]
  have start: "shifts (\<lambda>_. 0) (\<lambda>_. 0) 0 0 (wdb w) d1"
    using shifts_kept [OF o(1) money_okD(1) [OF inv']] by (simp add: shifts_def same_holdings_def platform_total_def
        journal_balance_def ledgers_ok_def)
  show thesis
  proof (rule that [of h])
    show "split_items (sp_id sp) (wdb w') = map h items"
      using splits.ran_group [OF h, of "sp_id sp"] by (simp add: w' split_items_def fin(2) it)
    show "split_total items \<le> sp_sourceAmount sp"
      using splits_okD(5,6) [OF o(2,3)] o(4) by (simp add: split_total_def)
    show "money_ok (wdb w') \<and> splits_ok (wdb w')" using fin books_kept_money_ok [OF fin(1) inv2] tabs2 by (simp add: w')
    have "accounts_ok (accounts (run_items (process_split (e, sp_splitNo sp) s) (length (sd_receivers dto)) items d1))"
      using inv2 by (rule money_okD)
    from shifts_trans [OF shifts_trans [OF start hD(9)] shifts_kept [OF fin(1) this]]
    show "shifts (\<lambda>v. sum_where (\<lambda>x. spi_status x = SplitItemStatus.PENDING \<and> spi_status (h x) = SplitItemStatus.SUCCESS \<and>
          spi_receiver x = v) spi_amount items -
        (if v = s then sum_where (\<lambda>x. spi_status x = SplitItemStatus.PENDING \<and> spi_status (h x) = SplitItemStatus.SUCCESS)
           spi_amount items else 0)) (\<lambda>_. 0) 0 0 (wdb w) (wdb w')" by (simp add: w')
  qed (use o ns hD in auto)
qed

text \<open>
  C20. A split that succeeds settles every item of its order, pays exactly the items that were open
  and are now marked as paid, each to its receiver and all of them from the sender, and moves no other balance.
  Its items together never exceed the amount of the source order. A repeated request, whose items are
  already settled, therefore pays nothing.
\<close>

theorem split_pays_exactly:
  assumes "createSplit e s dto w = (Inr (sp, items), w')" and "money_ok (wdb w)" and "splits_ok (wdb w)"
  shows "map spi_id (split_items (sp_id sp) (wdb w')) = map spi_id items \<and>
    list_all (\<lambda>i. spi_status i \<noteq> SplitItemStatus.PENDING) (split_items (sp_id sp) (wdb w')) \<and>
    (sp \<in> set (splitOrders (wdb w)) \<or>
      map spi_receiver items = map sr_receiver (sd_receivers dto) \<and>
      split_amounts (sd_receivers dto) = Inr (map spi_amount items) \<and>
      list_all (\<lambda>i. spi_status i = SplitItemStatus.PENDING) items) \<and>
    split_total items \<le> sp_sourceAmount sp \<and>
    (\<forall>v. available_of v (accounts (wdb w')) = available_of v (accounts (wdb w)) +
       split_total (filter (\<lambda>i. spi_receiver i = v) (newly_paid items (split_items (sp_id sp) (wdb w')))) -
       (if v = s then split_total (newly_paid items (split_items (sp_id sp) (wdb w'))) else 0)) \<and>
    (\<forall>v. frozen_of v (accounts (wdb w')) = frozen_of v (accounts (wdb w)))"
proof -
  obtain h where h: "split_items (sp_id sp) (wdb w') = map h items" "\<forall>x. spi_amount (h x) = spi_amount x"
    "\<forall>x. spi_receiver (h x) = spi_receiver x" "\<forall>x. spi_id (h x) = spi_id x"
    "\<forall>x \<in> set items. spi_status (h x) \<noteq> SplitItemStatus.PENDING"
    and sh: "shifts (\<lambda>v. sum_where (\<lambda>x. spi_status x = SplitItemStatus.PENDING \<and> spi_status (h x) = SplitItemStatus.SUCCESS \<and>
          spi_receiver x = v) spi_amount items -
        (if v = s then sum_where (\<lambda>x. spi_status x = SplitItemStatus.PENDING \<and> spi_status (h x) = SplitItemStatus.SUCCESS)
           spi_amount items else 0)) (\<lambda>_. 0) 0 0 (wdb w) (wdb w')"
    and "sp_sender sp = s" and le: "split_total items \<le> sp_sourceAmount sp" and "money_ok (wdb w') \<and> splits_ok (wdb w')"
    and new: "sp \<in> set (splitOrders (wdb w)) \<or> (map spi_receiver items = map sr_receiver (sd_receivers dto) \<and>
        split_amounts (sd_receivers dto) = Inr (map spi_amount items) \<and>
        list_all (\<lambda>r. spi_status r = SplitItemStatus.PENDING) items)"
    by (rule createSplit_effect [OF assms])
  show ?thesis
    unfolding h(1) newly_paid_map [of h, OF h(2,3) [rule_format]]
    using sh le new h(5) by (simp add: shifts_def list_all_iff comp_def h(4))
qed

subsection \<open>Every request keeps the books\<close>

definition split_books :: "db \<Rightarrow> bool" where
  "split_books d = (money_ok d \<and> splits_ok d)"

lemma split_books_events [keep]: "ignores_events split_books"
  unfolding ignores_events_def split_books_def
  by (intro allI impI conjI) (auto intro: ignores_eventsD [OF money_ok_events] ignores_eventsD [OF splits_ok_events])

lemma finalize_books: "split_books d \<Longrightarrow> split_books (finalizeSplit e i d)"
  using books_kept_money_ok [OF finalizeSplit_effect(1)] finalizeSplit_effect(3) by (auto simp: split_books_def)

lemma split_locked_books:
  assumes "split_books (wdb w)" and ns: "split_amounts (sd_receivers dto) = Inr ns" "sum_list ns \<le> tx_amount src"
  shows "keeps split_books (split_locked e s dto src ns w)"
  unfolding split_locked_def
proof (rule keeps_andThen)
  show "keeps split_books (transaction (open_split e s dto src ns) w)"
    using assms books_kept_money_ok
    by (intro keeps_transaction) (auto simp: split_books_def dest: open_split_effect(1,2) [OF _ ns(1) _ ns(2)])
next
  fix r w1 assume tr: "transaction (open_split e s dto src ns) w = (Inr r, w1)" and inv: "split_books (wdb w1)"
  obtain sp items where r: "r = (sp, items)" by force
  have op: "open_split e s dto src ns (wdb w) = Inr ((sp, items), wdb w1)" using tr by (auto simp: r)
  have tabs: "splits_ok (wdb w)" using assms(1) by (simp add: split_books_def)
  have it: "items = filter (\<lambda>r. spi_split r = sp_id sp) (splitItems (wdb w1))"
    using open_split_effect(4) [OF op ns(1) tabs ns(2)] by (simp add: split_items_def)
  have "money_ok (wdb w1)" "splits_ok (wdb w1)" using inv by (auto simp: split_books_def)
  from process_split_ran [OF this it, of s "(e, sp_splitNo sp)" "length (sd_receivers dto)"]
  have "split_books (run_items (process_split (e, sp_splitNo sp) s) (length (sd_receivers dto)) items (wdb w1))"
    unfolding split_books_def by blast
  then show "keeps split_books ((case r of (s', items) \<Rightarrow> \<lambda>w.
      let d = run_items (process_split (e, sp_splitNo s') s) (length (sd_receivers dto)) items (wdb w)
      in (Inr (s', items), w\<lparr>wdb := finalizeSplit e (sp_id s') d\<rparr>)) w1)"
    by (simp add: r Let_def keeps_def finalize_books)
qed

lemma createSplit_books: "split_books (wdb w) \<Longrightarrow> keeps split_books (createSplit e s dto w)"
  unfolding createSplit_def split_checked_def Let_def
  by (intro keep split_locked_books) (auto simp: not_less)

lemma resumeSplit_books: "split_books (wdb w) \<Longrightarrow> keeps split_books (resumeSplit e i w)"
proof -
  assume inv: "split_books (wdb w)"
  let ?xs = "filter (\<lambda>i. spi_status i = SplitItemStatus.PENDING) (split_items i (wdb w))"
  have "?xs = filter (\<lambda>x. spi_status x = SplitItemStatus.PENDING \<and> spi_split x = i) (splitItems (wdb w))"
    by (simp add: split_items_def conj_commute)
  moreover have "money_ok (wdb w)" "splits_ok (wdb w)" using inv by (auto simp: split_books_def)
  ultimately have "split_books (run_items (process_split p s) j ?xs (wdb w))" for p s j
    unfolding split_books_def using process_split_ran [of "wdb w" ?xs _ s p j] by blast
  then show "keeps split_books (resumeSplit e i w)"
    using inv by (auto simp: resumeSplit_def keeps_def Let_def finalize_books split: option.splits)
qed

lemma recover_splits_books: "split_books (wdb w) \<Longrightarrow> keeps split_books (recover_splits e ss w)"
proof (induction ss arbitrary: w)
  case (Cons a ss)
  obtain sp items where a: "a = (sp, items)" by force
  show ?case
    unfolding a recover_splits.simps
    by (intro keeps_if keeps_andThen Cons keeps_withLock resumeSplit_books) (simp_all add: Cons.prems)
qed (simp add: keeps_def)

lemma cancel_split_books: "split_books (wdb w) \<Longrightarrow> keeps split_books (cancel_split e s no w)"
  unfolding cancel_split_def
proof (intro keeps_transaction)
  fix r d assume "cancel_split_body e s no (wdb w) = Inr (r, d)" and inv: "split_books (wdb w)"
  then obtain i where d: "d = wdb w\<lparr>splitOrders := updateRows (\<lambda>r. sp_id r = i \<and> sp_status r = SplitStatus.PENDING)
      (\<lambda>r. r\<lparr>sp_status := SplitStatus.CANCELLED, sp_cancelledAt := Some (now e)\<rparr>) (splitOrders (wdb w))\<rparr>"
    by (auto simp: cancel_split_body_def)
  have "books_kept (wdb w) d" by (simp add: d books_kept_def same_holdings_def ledgers_ok_def)
  with inv show "split_books d"
    by (auto simp: split_books_def d intro: books_kept_money_ok splits_ok_orders)
qed

subsection \<open>A sample, and splitting a source order twice\<close>

definition sample_source :: TransactionOrder where
  "sample_source = \<lparr>tx_id = ''T2'', tx_orderNo = ''S1'', tx_type = TransactionType.TRANSFER,
     tx_status = TransactionStatus.SUCCESS, tx_amount = 1000, tx_fee = 0, tx_from = Some ''alice'', tx_to = Some ''bob'',
     tx_remark = NoRemark, tx_related = None, tx_idem = None, tx_channel = None,
     tx_channelOrderNo = None, tx_createdAt = 0, tx_completedAt = None\<rparr>"

definition split_world :: world where
  "split_world = sample_world\<lparr>wdb := sample_db\<lparr>transactionOrders := [sample_recharge, sample_source]\<rparr>\<rparr>"

definition sample_split :: "string \<Rightarrow> SplitDto" where
  "sample_split key = \<lparr>sd_source = ''S1'', sd_receivers = [\<lparr>sr_receiver = ''bob'', sr_amount = Num 10\<rparr>], sd_idem = Some key\<rparr>"

definition other_env :: env where
  "other_env = sample_env\<lparr>uuid := (\<lambda>i. ''v'' @ show_nat i), nano := (\<lambda>i. ''m'' @ show_nat i)\<rparr>"

lemma split_world_ok: "money_ok (wdb split_world)" "splits_ok (wdb split_world)"
proof -
  show "money_ok (wdb split_world)"
    by (rule books_kept_money_ok [OF _ sample_money_ok])
      (simp add: split_world_def books_kept_def same_holdings_def ledgers_ok_def orders_ok_def sample_recharge_def sample_source_def)
  show "splits_ok (wdb split_world)" by (simp add: split_world_def splits_ok_def sample_db_def)
qed

lemma split_runs: "isl (fst (createSplit sample_env ''alice'' (sample_split ''k1'') split_world)) = False"
  by code_simp

theorem split_pays_exactly_witness:
  "\<exists>sp items w'. createSplit sample_env ''alice'' (sample_split ''k1'') split_world = (Inr (sp, items), w') \<and>
     map spi_receiver items = [''bob''] \<and> split_total items \<le> sp_sourceAmount sp"
proof -
  obtain r w' where "createSplit sample_env ''alice'' (sample_split ''k1'') split_world = (Inr r, w')"
    using not_isl_fst [OF split_runs] by blast
  then obtain sp items where run: "createSplit sample_env ''alice'' (sample_split ''k1'') split_world = (Inr (sp, items), w')"
    by (cases r) auto
  from split_pays_exactly [OF this split_world_ok] run show ?thesis
    by (auto simp: sample_split_def split_world_def sample_db_def)
qed

text \<open>
  The amount of a source order bounds each split of it, not their sum: nothing records what was
  split before, so a request with another key splits the whole order once more.
\<close>

theorem source_order_split_twice:
  "(case createSplit sample_env ''alice'' (sample_split ''k1'') split_world of
      (Inr (sp1, _), w1) \<Rightarrow>
        (case createSplit other_env ''alice'' (sample_split ''k2'') w1 of
           (Inr (sp2, _), w2) \<Rightarrow>
             sp_splitAmount sp1 = 1000 \<and> sp_splitAmount sp2 = 1000 \<and> sp_sourceOrderNo sp1 = sp_sourceOrderNo sp2 \<and>
             sp_sourceAmount sp1 = 1000 \<and> sp_sourceAmount sp2 = 1000 \<and>
             available_of ''alice'' (accounts (wdb w2)) = available_of ''alice'' (accounts (wdb split_world)) - 2000
         | _ \<Rightarrow> False)
    | _ \<Rightarrow> False)"
  by code_simp

end
