(* ===== verification/Calendar.thy ===== *)
theory Calendar
  imports Schema
begin

text \<open>
  The part of the JavaScript \<open>Date\<close> that the subscriptions use: the local calendar day of a time
  and the setters \<open>setDate\<close>, \<open>setMonth\<close> and \<open>setFullYear\<close>, which carry days that the
  month does not have into the next month. The definitions follow the standard: a time is milliseconds since
  1970, a month counts from 0. The server runs with a fixed offset from UTC.

  The lemmas: a day is the day of its year, month and date, and moving on by a period leads to a later time.
\<close>

definition SERVER_TZ_MS :: int where "SERVER_TZ_MS = 8 * 60 * 60 * 1000"

definition leap :: "int \<Rightarrow> bool" where
  "leap y = (y mod 4 = 0 \<and> (y mod 100 \<noteq> 0 \<or> y mod 400 = 0))"

definition day_from_year :: "int \<Rightarrow> int" where
  "day_from_year y = 365 * (y - 1970) + (y - 1969) div 4 - (y - 1901) div 100 + (y - 1601) div 400"

text \<open>The day of the year on which a month starts.\<close>

definition month_start :: "bool \<Rightarrow> int \<Rightarrow> int" where
  "month_start l m =
     (if m \<le> 0 then 0 else if m = 1 then 31 else
      (if m = 2 then 59 else if m = 3 then 90 else if m = 4 then 120 else if m = 5 then 151 else
       if m = 6 then 181 else if m = 7 then 212 else if m = 8 then 243 else if m = 9 then 273 else
       if m = 10 then 304 else 334) + (if l then 1 else 0))"

text \<open>The year of a day: near the mean length of a year, corrected by at most one.\<close>

definition year_of :: "int \<Rightarrow> int" where
  "year_of day =
     (let y = 1970 + (400 * day) div 146097
      in if day < day_from_year y then y - 1
         else if day_from_year (y + 1) \<le> day then y + 1 else y)"

definition month_of :: "bool \<Rightarrow> int \<Rightarrow> int" where
  "month_of l doy =
     (if doy < month_start l 1 then 0 else if doy < month_start l 2 then 1 else if doy < month_start l 3 then 2 else
      if doy < month_start l 4 then 3 else if doy < month_start l 5 then 4 else if doy < month_start l 6 then 5 else
      if doy < month_start l 7 then 6 else if doy < month_start l 8 then 7 else if doy < month_start l 9 then 8 else
      if doy < month_start l 10 then 9 else if doy < month_start l 11 then 10 else 11)"

text \<open>Year, month from 0, day of the month from 1; and the day of any such triple, with carries.\<close>

definition civil :: "int \<Rightarrow> int \<times> int \<times> int" where
  "civil day =
     (let y = year_of day; doy = day - day_from_year y; m = month_of (leap y) doy
      in (y, m, doy - month_start (leap y) m + 1))"

definition make_day :: "int \<Rightarrow> int \<Rightarrow> int \<Rightarrow> int" where
  "make_day y m d =
     (let ym = y + m div 12; mn = m mod 12 in day_from_year ym + month_start (leap ym) mn + d - 1)"

text \<open>Replacing the local day of a time, the time of day staying.\<close>

definition with_day :: "(int \<times> int \<times> int \<Rightarrow> int) \<Rightarrow> int \<Rightarrow> int" where
  "with_day f t = (let l = t + SERVER_TZ_MS in f (civil (l div DAY_MS)) * DAY_MS + l mod DAY_MS - SERVER_TZ_MS)"

definition addPeriod :: "int \<Rightarrow> SubscriptionPeriod \<Rightarrow> int \<Rightarrow> int" where
  "addPeriod start period intervalCount =
     (let n = max 1 intervalCount in
      case period of
        DAILY \<Rightarrow> with_day (\<lambda>(y, m, d). make_day y m (d + n)) start
      | WEEKLY \<Rightarrow> with_day (\<lambda>(y, m, d). make_day y m (d + 7 * n)) start
      | MONTHLY \<Rightarrow> with_day (\<lambda>(y, m, d). make_day y (m + n) d) start
      | YEARLY \<Rightarrow> with_day (\<lambda>(y, m, d). make_day (y + n) m d) start)"

subsection \<open>Days, months and years\<close>

lemma div_bounds:
  fixes a m :: int
  assumes "0 < m"
  shows "m * (a div m) \<le> a" and "a < m * (a div m) + m"
proof -
  have "m * (a div m) + a mod m = a" by simp
  then show "m * (a div m) \<le> a" "a < m * (a div m) + m"
    using pos_mod_sign [OF assms, of a] pos_mod_bound [OF assms, of a] by linarith+
qed

lemma div_succ:
  fixes a m :: int
  assumes "0 < m"
  shows "(a + 1) div m = a div m + (if (a + 1) mod m = 0 then 1 else 0)"
proof (cases "(a + 1) mod m = 0")
  case True
  then obtain k where k: "a + 1 = m * k" by (auto elim: dvdE)
  then have "a = m * (k - 1) + (m - 1)" by (simp add: algebra_simps)
  then have "a div m = k - 1" using assms by (intro int_div_pos_eq [of _ _ _ "m - 1"]) simp_all
  with k True assms show ?thesis by simp
next
  case False
  have "a + 1 = m * (a div m) + (a mod m + 1)" by simp
  moreover have "a mod m + 1 \<noteq> m"
  proof
    assume "a mod m + 1 = m"
    then have "a + 1 = m * (a div m + 1)" by (simp add: algebra_simps) (metis add.assoc add.commute mult_div_mod_eq)
    with False show False by simp
  qed
  ultimately have "(a + 1) div m = a div m"
    using assms pos_mod_sign [OF assms, of a] pos_mod_bound [OF assms, of a]
    by (intro int_div_pos_eq [of _ _ _ "a mod m + 1"]) auto
  with False show ?thesis by simp
qed

lemma year_length: "day_from_year (y + 1) = day_from_year y + (if leap y then 366 else 365)"
proof -
  have e: "(y - 1969 + 1) mod 4 = y mod 4" "(y - 1901 + 1) mod 100 = y mod 100" "(y - 1601 + 1) mod 400 = y mod 400"
    using mod_mult_self1 [of y "-492" 4] mod_mult_self1 [of y "-19" 100] mod_mult_self1 [of y "-4" 400] by simp_all
  have d: "(y - 1969 + 1) div 4 = (y - 1969) div 4 + (if y mod 4 = 0 then 1 else 0)"
    "(y - 1901 + 1) div 100 = (y - 1901) div 100 + (if y mod 100 = 0 then 1 else 0)"
    "(y - 1601 + 1) div 400 = (y - 1601) div 400 + (if y mod 400 = 0 then 1 else 0)"
    by (rule div_succ [of 4 "y - 1969", unfolded e] div_succ [of 100 "y - 1901", unfolded e]
      div_succ [of 400 "y - 1601", unfolded e], simp)+
  have m: "y mod 400 = 0 \<Longrightarrow> y mod 100 = 0" "y mod 100 = 0 \<Longrightarrow> y mod 4 = 0"
    using mod_mod_cancel [of 100 400 y] mod_mod_cancel [of 4 100 y] by simp_all
  have n: "day_from_year (y + 1) = 365 * (y - 1970) + 365 + (y - 1969 + 1) div 4 - (y - 1901 + 1) div 100 + (y - 1601 + 1) div 400"
    by (simp add: day_from_year_def)
  show ?thesis
  proof (cases "y mod 100 = 0")
    case True
    then show ?thesis unfolding n d unfolding day_from_year_def leap_def using m(2) by (cases "y mod 400 = 0") simp_all
  next
    case False
    then have "y mod 400 \<noteq> 0" by (rule contrapos_nn [OF _ m(1)])
    with False show ?thesis unfolding n d unfolding day_from_year_def leap_def by (cases "y mod 4 = 0") simp_all
  qed
qed

text \<open>\<open>day_from_year\<close> deviates from the mean by less than two days.\<close>

lemma year_estimate:
  fixes day :: int
  defines "y \<equiv> 1970 + (400 * day) div 146097"
  shows "day_from_year (y - 1) \<le> day" and "day < day_from_year (y + 2)"
proof -
  define k where "k = (400 * day) div 146097"
  have y: "y = 1970 + k" by (simp add: k_def y_def)
  have k: "146097 * k \<le> 400 * day" "400 * day < 146097 * k + 146097"
    using div_bounds [of 146097 "400 * day"] by (simp_all add: k_def)
  have low: "day_from_year (y - 1) = 365 * (k - 1) + k div 4 - (k + 68) div 100 + (k + 368) div 400"
    and high: "day_from_year (y + 2) = 365 * (k + 2) + (k + 3) div 4 - (k + 71) div 100 + (k + 371) div 400"
    by (simp_all add: day_from_year_def y algebra_simps)
  show "day_from_year (y - 1) \<le> day" unfolding low
    using k div_bounds [of 4 k] div_bounds [of 100 "k + 68"] div_bounds [of 400 "k + 368"] by simp
  show "day < day_from_year (y + 2)" unfolding high
    using k div_bounds [of 4 "k + 3"] div_bounds [of 100 "k + 71"] div_bounds [of 400 "k + 371"] by simp
qed

lemma year_of_bounds: "day_from_year (year_of day) \<le> day" "day < day_from_year (year_of day + 1)"
  using year_estimate [of day] by (auto simp: year_of_def Let_def)

lemma month_of_bounds:
  assumes "0 \<le> doy" and "doy < (if l then 366 else 365)"
  shows "0 \<le> month_of l doy" and "month_of l doy \<le> 11" and "month_start l (month_of l doy) \<le> doy"
  using assms by (auto simp: month_of_def month_start_def)

text \<open>A day is the day of its year, month and date.\<close>

lemma make_day_civil:
  assumes "civil day = (y, m, d)"
  shows "make_day y m d = day" and "0 \<le> m" and "m \<le> 11" and "1 \<le> d"
proof -
  have y: "y = year_of day" using assms by (simp add: civil_def Let_def)
  have "0 \<le> day - day_from_year y" "day - day_from_year y < (if leap y then 366 else 365)"
    using year_of_bounds [of day] year_length [of y] by (simp_all add: y)
  from month_of_bounds [OF this] assms show "make_day y m d = day" "0 \<le> m" "m \<le> 11" "1 \<le> d"
    by (auto simp: civil_def make_day_def Let_def)
qed

subsection \<open>Periods\<close>

lemma month_start_next: "0 \<le> m \<Longrightarrow> m < 11 \<Longrightarrow> month_start l m + 28 \<le> month_start l (m + 1)"
proof -
  assume "0 \<le> m" "m < 11"
  then have "m = 0 \<or> m = 1 \<or> m = 2 \<or> m = 3 \<or> m = 4 \<or> m = 5 \<or> m = 6 \<or> m = 7 \<or> m = 8 \<or> m = 9 \<or> m = 10" by presburger
  then show ?thesis by (auto simp: month_start_def)
qed

lemma make_day_next_month: "make_day y m d + 28 \<le> make_day y (m + 1) d"
proof (cases "m mod 12 = 11")
  case True
  then have z: "(m + 1) mod 12 = 0" using mod_add_left_eq [of m 12 1] by simp
  then have q: "(m + 1) div 12 = m div 12 + 1" using div_succ [of 12 m] by simp
  define a where "a = y + m div 12"
  have "make_day y (m + 1) d = day_from_year (a + 1) + d - 1"
    by (simp add: make_day_def Let_def month_start_def z q a_def add.assoc)
  moreover have "make_day y m d = day_from_year a + 334 + (if leap a then 1 else 0) + d - 1"
    using True by (simp add: make_day_def Let_def month_start_def a_def)
  ultimately show ?thesis using year_length [of a] by (cases "leap a") simp_all
next
  case False
  have nz: "(m + 1) mod 12 \<noteq> 0"
  proof
    assume "(m + 1) mod 12 = 0"
    then have "(m + 1 - 1) mod 12 = (0 - 1) mod 12" using mod_diff_left_eq [of "m + 1" 12 1] by simp
    with False show False by simp
  qed
  then have q: "(m + 1) div 12 = m div 12" using div_succ [of 12 m] by simp
  have "(m + 1) mod 12 = m mod 12 + 1"
    using mult_div_mod_eq [of 12 m] mult_div_mod_eq [of 12 "m + 1"] unfolding q by linarith
  moreover have "0 \<le> m mod 12" "m mod 12 < 11"
    using False pos_mod_bound [of 12 m] by auto
  ultimately show ?thesis using q month_start_next [of "m mod 12" "leap (y + m div 12)"] by (simp add: make_day_def Let_def)
qed

lemma make_day_months: "1 \<le> n \<Longrightarrow> make_day y m d + 28 \<le> make_day y (m + n) d"
proof (induction n rule: int_ge_induct)
  case base
  show ?case by (rule make_day_next_month)
next
  case (step n)
  then show ?case using make_day_next_month [of y "m + n" d] by (simp add: add.assoc)
qed

lemma make_day_years: "make_day (y + n) m d = make_day y (m + 12 * n) d"
  by (simp add: make_day_def Let_def algebra_simps)

lemma make_day_days: "make_day y m (d + n) = make_day y m d + n"
  by (simp add: make_day_def Let_def)

lemma with_day_shift:
  assumes "\<And>y m d. make_day y m d + k \<le> f (y, m, d)"
  shows "t + k * DAY_MS \<le> with_day f t"
proof -
  define l where "l = t + SERVER_TZ_MS"
  obtain y m d where c: "civil (l div DAY_MS) = (y, m, d)" by (metis prod_cases3)
  have "l div DAY_MS + k \<le> f (y, m, d)" using assms [of y m d] make_day_civil(1) [OF c] by simp
  moreover have "0 < DAY_MS" by (simp add: DAY_MS_def)
  ultimately have "(l div DAY_MS + k) * DAY_MS \<le> f (y, m, d) * DAY_MS" by simp
  moreover have "l div DAY_MS * DAY_MS + l mod DAY_MS = l" by simp
  moreover have "with_day f t = f (y, m, d) * DAY_MS + l mod DAY_MS - SERVER_TZ_MS"
    by (simp add: with_day_def Let_def c flip: l_def)
  moreover have "t = l - SERVER_TZ_MS" by (simp add: l_def)
  ultimately show ?thesis by (simp only: distrib_right)
qed

text \<open>A period takes at least a day; a month at least 28 days.\<close>

lemma addPeriod_later: "start + DAY_MS \<le> addPeriod start p n"
proof -
  have m: "1 \<le> max 1 n" by simp
  have y: "make_day y k d + 1 \<le> make_day (y + max 1 n) k d" for y k d
    using make_day_months [of "12 * max 1 n" y k d] m by (simp add: make_day_years)
  show ?thesis
  proof (cases p)
    case DAILY
    then show ?thesis using with_day_shift [of 1 "\<lambda>(y, m, d). make_day y m (d + max 1 n)" start]
      by (simp add: addPeriod_def Let_def make_day_days)
  next
    case WEEKLY
    then show ?thesis using with_day_shift [of 1 "\<lambda>(y, m, d). make_day y m (d + 7 * max 1 n)" start] m
      by (simp add: addPeriod_def Let_def make_day_days)
  next
    case MONTHLY
    have "make_day y k d + 1 \<le> make_day y (k + max 1 n) d" for y k d using make_day_months [OF m, of y k d] by simp
    with MONTHLY show ?thesis using with_day_shift [of 1 "\<lambda>(y, m, d). make_day y (m + max 1 n) d" start]
      by (simp add: addPeriod_def Let_def)
  next
    case YEARLY
    then show ?thesis using with_day_shift [of 1 "\<lambda>(y, m, d). make_day (y + max 1 n) m d" start] y
      by (simp add: addPeriod_def Let_def)
  qed
qed

end
