(* ===== verification/Subscriptions.thy ===== *)
theory Subscriptions
  imports Shifts Calendar
begin

text \<open>
  Subscriptions (subscriptions/subscriptions.service.ts): plans, subscribing with the first charge, the
  charge of one cycle, suspending, resuming and cancelling, and the job that charges what is due. A charge
  that cannot be made is a row with status FAILED, not an exception.

  The lemmas give the effect of a charge on balances and rows; the properties are that of the theory
  \<open>SubscriptionSafety\<close>.
\<close>

subsection \<open>Plans\<close>

record PlanDto =
  pd_amount :: jsnum
  pd_period :: SubscriptionPeriod
  pd_intervalCount :: "int option"
  pd_trialDays :: "int option"
  pd_totalCycles :: "int option"

record SubscribeDto =
  sbd_idem :: "string option"
  sbd_payPassword :: "string option"

definition find_plan :: "string \<Rightarrow> db \<Rightarrow> SubscriptionPlan option" where
  "find_plan i d = findUnique (\<lambda>r. pl_id r = i) (subscriptionPlans d)"

definition find_plan_no :: "string \<Rightarrow> db \<Rightarrow> SubscriptionPlan option" where
  "find_plan_no no d = findUnique (\<lambda>r. pl_planNo r = no) (subscriptionPlans d)"

definition find_sub :: "string \<Rightarrow> db \<Rightarrow> Subscription option" where
  "find_sub i d = findUnique (\<lambda>r. sub_id r = i) (subscriptions d)"

definition find_sub_no :: "string \<Rightarrow> db \<Rightarrow> Subscription option" where
  "find_sub_no no d = findUnique (\<lambda>r. sub_no r = no) (subscriptions d)"

definition find_sub_idem :: "string \<Rightarrow> db \<Rightarrow> Subscription option" where
  "find_sub_idem k d = findUnique (\<lambda>r. sub_idem r = Some k) (subscriptions d)"

definition charges_of :: "string \<Rightarrow> db \<Rightarrow> SubscriptionCharge list" where
  "charges_of i d = filter (\<lambda>r. chg_subscription r = i) (subscriptionCharges d)"

definition pl_conflict :: "SubscriptionPlan \<Rightarrow> SubscriptionPlan \<Rightarrow> bool" where
  "pl_conflict r s = (pl_id r = pl_id s \<or> pl_planNo r = pl_planNo s)"

definition sub_conflict :: "Subscription \<Rightarrow> Subscription \<Rightarrow> bool" where
  "sub_conflict r s = (sub_id r = sub_id s \<or> sub_no r = sub_no s \<or> (sub_idem r \<noteq> None \<and> sub_idem r = sub_idem s))"

definition chg_conflict :: "SubscriptionCharge \<Rightarrow> SubscriptionCharge \<Rightarrow> bool" where
  "chg_conflict r s = (chg_id r = chg_id s \<or> chg_no r = chg_no s)"

text \<open>\<open>x || dflt\<close> for an optional number: absent and zero are falsy.\<close>

definition or_default :: "int option \<Rightarrow> int \<Rightarrow> int" where
  "or_default x dflt = (case x of Some n \<Rightarrow> if n = 0 then dflt else n | None \<Rightarrow> dflt)"

definition truthy_int :: "int option \<Rightarrow> bool" where
  "truthy_int x = (case x of Some n \<Rightarrow> n \<noteq> 0 | None \<Rightarrow> False)"

definition createPlan :: "env \<Rightarrow> string \<Rightarrow> PlanDto \<Rightarrow> db \<Rightarrow> exn + (SubscriptionPlan \<times> db)" where
  "createPlan e ownerId dto d =
     throw_if (amount_le0 (pd_amount dto)) (BadRequest SUBSCRIPTION_AMOUNT_INVALID)
    (or_throw (find_user ownerId d) (NotFound USER_NOT_FOUND) (\<lambda>owner.
       throw_if (\<not> verified owner) (Forbidden REAL_NAME_REQUIRED)
      (bindE (fen (pd_amount dto)) (\<lambda>amount.
         let plan = \<lparr>pl_id = uuid e 0, pl_planNo = generateOrderNo e 0 ''SP'', pl_owner = ownerId, pl_amount = amount,
               pl_period = pd_period dto, pl_intervalCount = or_default (pd_intervalCount dto) 1,
               pl_trialDays = or_default (pd_trialDays dto) 0, pl_totalCycles = pd_totalCycles dto,
               pl_status = SubscriptionPlanStatus.ACTIVE\<rparr>
         in throw_if (\<not> int32 amount) IntOutOfRange
           (bindE (create P2002 pl_conflict plan (subscriptionPlans d)) (\<lambda>t.
              Inr (plan, d\<lparr>subscriptionPlans := t\<rparr>)))))))"

definition findPlanByNo :: "string \<Rightarrow> db \<Rightarrow> exn + SubscriptionPlan" where
  "findPlanByNo planNo d = or_throw (find_plan_no planNo d) (NotFound SUBSCRIPTION_PLAN_NOT_FOUND) Inr"

definition setPlanStatus ::
  "string \<Rightarrow> string \<Rightarrow> SubscriptionPlanStatus \<Rightarrow> db \<Rightarrow> exn + (SubscriptionPlan \<times> db)" where
  "setPlanStatus ownerId planNo status d =
     or_throw (find_plan_no planNo d) (NotFound SUBSCRIPTION_PLAN_NOT_FOUND) (\<lambda>plan.
       throw_if (pl_owner plan \<noteq> ownerId) (Forbidden FORBIDDEN)
      (throw_if (pl_status plan = status) (BadRequest ESCROW_STATUS_INVALID)
      (bindE (updateOne P2025 IntOutOfRange (\<lambda>_. True) (\<lambda>r. pl_id r = pl_id plan)
                (\<lambda>r. r\<lparr>pl_status := status\<rparr>) (subscriptionPlans d)) (\<lambda>(r, t).
         Inr (r, d\<lparr>subscriptionPlans := t\<rparr>)))))"

subsection \<open>One charge\<close>

definition charge_failed :: "SubscriptionCharge \<Rightarrow> SubscriptionCharge" where
  "charge_failed r = r\<lparr>chg_status := SubscriptionChargeStatus.FAILED\<rparr>"

definition charge_done :: "string \<Rightarrow> int \<Rightarrow> SubscriptionCharge \<Rightarrow> SubscriptionCharge" where
  "charge_done tx t r = r\<lparr>chg_status := SubscriptionChargeStatus.SUCCESS, chg_transaction := Some tx, chg_chargedAt := Some t\<rparr>"

text \<open>The record of a charge that could not be made; the row returned is the one read before.\<close>

definition fail_charge :: "SubscriptionCharge \<Rightarrow> db \<Rightarrow> exn + (SubscriptionCharge \<times> db)" where
  "fail_charge charge d =
     bindE (updateOne P2025 IntOutOfRange (\<lambda>_. True) (\<lambda>r. chg_id r = chg_id charge) charge_failed (subscriptionCharges d)) (\<lambda>(_, t).
       Inr (charge, d\<lparr>subscriptionCharges := t\<rparr>))"

text \<open>The rows of a charge, after both balances have moved; \<open>j\<close> numbers the charges made in one request.\<close>

definition charge_rows ::
  "env \<Rightarrow> nat \<Rightarrow> SubscriptionCharge \<Rightarrow> Account \<Rightarrow> Account \<Rightarrow> int \<Rightarrow> int \<Rightarrow> db \<Rightarrow> exn + (SubscriptionCharge \<times> db)" where
  "charge_rows e j charge subscriberAccount ownerAccount subscriberAfter ownerAfter d =
     (let amount = chg_amount charge; orderId = uuid e (3 + 2 * j);
          subscriberId = chg_subscriber charge; ownerId = chg_owner charge;
          order = \<lparr>tx_id = orderId, tx_orderNo = generateOrderNo e (2 + 2 * j) ''T'',
            tx_type = TransactionType.TRANSFER, tx_status = TransactionStatus.SUCCESS, tx_amount = amount,
            tx_fee = 0, tx_from = Some subscriberId, tx_to = Some ownerId, tx_remark = SubscriptionRemark,
            tx_related = None, tx_idem = None, tx_channel = None, tx_channelOrderNo = None,
            tx_createdAt = now e, tx_completedAt = Some (now e)\<rparr>
      in bindE (createOrder order d) (\<lambda>d1.
         let d2 = add_ledger \<lparr>led_account = acc_id subscriberAccount, led_transaction = orderId,
                    led_type = LedgerType.SUBSCRIPTION, led_amount = amount,
                    led_before = subscriberAfter + amount, led_after = subscriberAfter, led_direction = CREDIT\<rparr> d1;
             d3 = add_ledger \<lparr>led_account = acc_id ownerAccount, led_transaction = orderId,
                    led_type = LedgerType.SUBSCRIPTION, led_amount = amount,
                    led_before = ownerAfter - amount, led_after = ownerAfter, led_direction = DEBIT\<rparr> d2;
             nickname = (\<lambda>u. Some (case find_user u d3 of None \<Rightarrow> [] | Some x \<Rightarrow> usr_nickname x));
             d4 = add_bill \<lparr>bill_user = subscriberId, bill_transaction = orderId, bill_type = BillType.SUBSCRIPTION,
                    bill_direction = EXPENSE, bill_amount = amount, bill_counterparty = nickname ownerId\<rparr> d3;
             d5 = add_bill \<lparr>bill_user = ownerId, bill_transaction = orderId, bill_type = BillType.SUBSCRIPTION_INCOME,
                    bill_direction = INCOME, bill_amount = amount, bill_counterparty = nickname subscriberId\<rparr> d4;
             d6 = (if LARGE_SUBSCRIPTION_THRESHOLD_CENTS < amount
                   then add_event subscriberId LARGE_TRANSFER MEDIUM d5 else d5)
         in bindE (updateOne P2025 IntOutOfRange (\<lambda>_. True) (\<lambda>r. chg_id r = chg_id charge)
                     (charge_done orderId (now e)) (subscriptionCharges d6)) (\<lambda>(r, t).
              Inr (r, d6\<lparr>subscriptionCharges := t\<rparr>))))"

text \<open>The charge, once its record with status PENDING is written.\<close>

definition make_charge :: "env \<Rightarrow> nat \<Rightarrow> SubscriptionCharge \<Rightarrow> db \<Rightarrow> exn + (SubscriptionCharge \<times> db)" where
  "make_charge e j charge d =
     (case account_of (chg_subscriber charge) (accounts d) of
        None \<Rightarrow> fail_charge charge d
      | Some subscriberAccount \<Rightarrow>
          if acc_status subscriberAccount \<noteq> AccountStatus.ACTIVE then fail_charge charge d
          else (case account_of (chg_owner charge) (accounts d) of
            None \<Rightarrow> fail_charge charge d
          | Some ownerAccount \<Rightarrow>
              if acc_status ownerAccount \<noteq> AccountStatus.ACTIVE then fail_charge charge d
              else bindE (acc_spend (acc_id subscriberAccount) (chg_amount charge) (accounts d)) (\<lambda>(count, t).
                if count = 0 then fail_charge charge d
                else or_throw (account_by_id (acc_id subscriberAccount) t) TypeError (\<lambda>updatedSubscriber.
                  credit_account (acc_id ownerAccount) (chg_amount charge) (d\<lparr>accounts := t\<rparr>)
                    (\<lambda>updatedOwner d2. charge_rows e j charge subscriberAccount ownerAccount
                       (availableBalance updatedSubscriber) (availableBalance updatedOwner) d2)))))"

definition executeCharge ::
  "env \<Rightarrow> nat \<Rightarrow> string \<Rightarrow> string \<Rightarrow> string \<Rightarrow> int \<Rightarrow> int \<Rightarrow> int \<Rightarrow> db \<Rightarrow> exn + (SubscriptionCharge \<times> db)" where
  "executeCharge e j subscriptionId subscriberId ownerId amount cycleStart cycleEnd d =
     (let charge = \<lparr>chg_id = uuid e (2 + 2 * j), chg_no = generateOrderNo e (1 + 2 * j) ''SC'',
            chg_subscription = subscriptionId, chg_subscriber = subscriberId, chg_owner = ownerId,
            chg_amount = amount, chg_cycleStart = cycleStart, chg_cycleEnd = cycleEnd,
            chg_status = SubscriptionChargeStatus.PENDING, chg_transaction = None, chg_chargedAt = None,
            chg_createdAt = now e\<rparr>
      in bindE (create P2002 chg_conflict charge (subscriptionCharges d)) (\<lambda>t.
           make_charge e j charge (d\<lparr>subscriptionCharges := t\<rparr>)))"

subsection \<open>Subscribing\<close>

definition update_sub :: "string \<Rightarrow> (Subscription \<Rightarrow> Subscription) \<Rightarrow> db \<Rightarrow> exn + (Subscription \<times> db)" where
  "update_sub i f d =
     bindE (updateOne P2025 IntOutOfRange (\<lambda>r. int32 (sub_completedCycles r)) (\<lambda>r. sub_id r = i) f (subscriptions d)) (\<lambda>(r, t).
       Inr (r, d\<lparr>subscriptions := t\<rparr>))"

definition insert_sub :: "Subscription \<Rightarrow> db \<Rightarrow> exn + db" where
  "insert_sub r d = bindE (create P2002 sub_conflict r (subscriptions d)) (\<lambda>t. Inr (d\<lparr>subscriptions := t\<rparr>))"

text \<open>The row a new subscription starts with.\<close>

definition new_sub :: "env \<Rightarrow> string \<Rightarrow> SubscriptionPlan \<Rightarrow> SubscribeDto \<Rightarrow> Subscription" where
  "new_sub e subscriberId plan dto =
     (let startAt = now e;
          trialEnd = (if 0 < pl_trialDays plan then startAt + pl_trialDays plan * 24 * 60 * 60 * 1000 else startAt)
      in \<lparr>sub_id = uuid e 1, sub_no = generateOrderNo e 0 ''SUB'', sub_subscriber = subscriberId,
          sub_plan = pl_id plan, sub_status = SubscriptionStatus.ACTIVE, sub_startAt = startAt,
          sub_cycleStart = startAt, sub_cycleEnd = addPeriod startAt (pl_period plan) (pl_intervalCount plan),
          sub_nextChargeAt = Some trialEnd,
          sub_endAt = (if truthy_int (pl_totalCycles plan)
             then Some (addPeriod startAt (pl_period plan) (pl_intervalCount plan * the (pl_totalCycles plan))) else None),
          sub_cancelledAt = None, sub_completedCycles = 0, sub_lastCharge = None, sub_idem = sbd_idem dto\<rparr>)"

definition first_cycle_done :: "SubscriptionPlan \<Rightarrow> string \<Rightarrow> Subscription \<Rightarrow> Subscription" where
  "first_cycle_done plan chargeId r =
     (let next = addPeriod (sub_cycleStart r) (pl_period plan) (pl_intervalCount plan);
          end = sub_cycleEnd r
      in r\<lparr>sub_completedCycles := 1, sub_lastCharge := Some chargeId, sub_nextChargeAt := Some next,
           sub_cycleStart := end, sub_cycleEnd := addPeriod end (pl_period plan) (pl_intervalCount plan),
           sub_status := (if truthy_int (pl_totalCycles plan) \<and> the (pl_totalCycles plan) \<le> 1
             then SubscriptionStatus.EXPIRED else SubscriptionStatus.ACTIVE)\<rparr>)"

definition subscribe_new :: "env \<Rightarrow> string \<Rightarrow> SubscriptionPlan \<Rightarrow> SubscribeDto \<Rightarrow> db \<Rightarrow> exn + (Subscription \<times> db)" where
  "subscribe_new e subscriberId plan dto d =
     throw_if (list_ex (\<lambda>s. sub_subscriber s = subscriberId \<and> sub_plan s = pl_id plan \<and>
         sub_status s \<in> {SubscriptionStatus.ACTIVE, SubscriptionStatus.SUSPENDED}) (subscriptions d))
       (BadRequest SUBSCRIPTION_ALREADY_EXISTS)
    (throw_if (MAX_SUBSCRIPTIONS_PER_USER \<le> length (filter (\<lambda>s. sub_subscriber s = subscriberId) (subscriptions d)))
       (BadRequest BATCH_TRANSFER_TOO_MANY)
    (bindE (checkAndIncrementDailyLimit (uuid e 0) subscriberId ''SUBSCRIPTION'' (utc_day (now e)) (pl_amount plan)
              (config_limit ''subscription_daily_limit'' DEFAULT_SUBSCRIPTION_DAILY_LIMIT_CENTS d) d) (\<lambda>d1.
       let s = new_sub e subscriberId plan dto
       in bindE (insert_sub s d1) (\<lambda>d2.
            if 0 < pl_trialDays plan then Inr (s, d2)
            else bindE (executeCharge e 0 (sub_id s) subscriberId (pl_owner plan) (pl_amount plan)
                         (sub_cycleStart s) (sub_cycleEnd s) d2) (\<lambda>(charge, d3).
              update_sub (sub_id s) (first_cycle_done plan (chg_id charge)) d3)))))"

definition subscribe_body :: "env \<Rightarrow> string \<Rightarrow> SubscriptionPlan \<Rightarrow> SubscribeDto \<Rightarrow> db \<Rightarrow> exn + (Subscription \<times> db)" where
  "subscribe_body e subscriberId plan dto d =
     (case (if truthy (sbd_idem dto) then find_sub_idem (the (sbd_idem dto)) d else None) of
        Some existing \<Rightarrow>
          throw_if (sub_subscriber existing \<noteq> subscriberId) (BadRequest IDEMPOTENCY_KEY_CONFLICT) (Inr (existing, d))
      | None \<Rightarrow> subscribe_new e subscriberId plan dto d)"

definition subscribe ::
  "(string \<Rightarrow> string \<Rightarrow> bool) \<Rightarrow> env \<Rightarrow> string \<Rightarrow> string \<Rightarrow> SubscribeDto \<Rightarrow> world \<Rightarrow> (exn + Subscription) \<times> world" where
  "subscribe pw_ok e subscriberId planNo dto w =
     (case find_plan_no planNo (wdb w) of
        None \<Rightarrow> (Inl (NotFound SUBSCRIPTION_PLAN_NOT_FOUND), w)
      | Some plan \<Rightarrow>
          if pl_status plan \<noteq> SubscriptionPlanStatus.ACTIVE then (Inl (BadRequest SUBSCRIPTION_PLAN_DISABLED), w)
          else if pl_owner plan = subscriberId then (Inl (BadRequest SUBSCRIPTION_CANNOT_SELF_SUBSCRIBE), w)
          else (case find_user subscriberId (wdb w) of
            None \<Rightarrow> (Inl (NotFound USER_NOT_FOUND), w)
          | Some subscriber \<Rightarrow>
              if \<not> verified subscriber then (Inl (Forbidden REAL_NAME_REQUIRED), w)
              else if \<not> may_spend subscriber then (Inl (Forbidden FORBIDDEN), w)
              else if usr_risk subscriber = HIGH then (Inl (Forbidden FORBIDDEN), w)
              else (case find_user (pl_owner plan) (wdb w) of
                None \<Rightarrow> (Inl (NotFound USER_NOT_FOUND), w)
              | Some owner \<Rightarrow>
                  if \<not> verified owner then (Inl (Forbidden PAYEE_NOT_VERIFIED), w)
                  else if \<not> may_receive owner then (Inl (Forbidden FORBIDDEN), w)
                  else andThen (if truthy (sbd_payPassword dto)
                      then verifyPayPassword pw_ok (now e) subscriberId (the (sbd_payPassword dto)) w else (Inr (), w)) (\<lambda>_ w.
                    andThen (risk_guard (now e) \<lparr>ctx_user = subscriberId, ctx_type = TransactionType.TRANSFER,
                        ctx_amount = pl_amount plan, ctx_ip = None\<rparr> w) (\<lambda>_ w.
                      withLock (key_or ''subscribe:idem:'' (sbd_idem dto)
                          (''subscribe:user:'' @ subscriberId @ '':'' @ pl_id plan))
                        (transaction (subscribe_body e subscriberId plan dto)) w)))))"

subsection \<open>Changing the status\<close>

text \<open>The conditional update that the three status changes share, and the row after it.\<close>

definition change_sub ::
  "Subscription \<Rightarrow> SubscriptionStatus set \<Rightarrow> (Subscription \<Rightarrow> Subscription) \<Rightarrow> db \<Rightarrow> exn + (Subscription \<times> db)" where
  "change_sub s from f d =
     bindE (updateMany IntOutOfRange (\<lambda>_. True) (\<lambda>r. sub_id r = sub_id s \<and> sub_status r \<in> from) f (subscriptions d)) (\<lambda>(count, t).
       throw_if (count = 0) (BadRequest SUBSCRIPTION_STATUS_INVALID)
         (or_throw (find_sub (sub_id s) (d\<lparr>subscriptions := t\<rparr>)) TypeError (\<lambda>r. Inr (r, d\<lparr>subscriptions := t\<rparr>))))"

definition cancel_sub_body :: "env \<Rightarrow> string \<Rightarrow> string \<Rightarrow> db \<Rightarrow> exn + (Subscription \<times> db)" where
  "cancel_sub_body e subscriberId subscriptionNo d =
     or_throw (find_sub_no subscriptionNo d) (NotFound SUBSCRIPTION_NOT_FOUND) (\<lambda>s.
       throw_if (sub_subscriber s \<noteq> subscriberId) (Forbidden FORBIDDEN)
      (throw_if (sub_status s = SubscriptionStatus.CANCELLED) (BadRequest SUBSCRIPTION_STATUS_INVALID)
        (change_sub s {SubscriptionStatus.ACTIVE, SubscriptionStatus.SUSPENDED}
           (\<lambda>r. r\<lparr>sub_status := SubscriptionStatus.CANCELLED, sub_cancelledAt := Some (now e), sub_nextChargeAt := None\<rparr>) d)))"

definition suspend_body :: "string \<Rightarrow> string \<Rightarrow> db \<Rightarrow> exn + (Subscription \<times> db)" where
  "suspend_body subscriberId subscriptionNo d =
     or_throw (find_sub_no subscriptionNo d) (NotFound SUBSCRIPTION_NOT_FOUND) (\<lambda>s.
       throw_if (sub_subscriber s \<noteq> subscriberId) (Forbidden FORBIDDEN)
      (throw_if (sub_status s \<noteq> SubscriptionStatus.ACTIVE) (BadRequest SUBSCRIPTION_STATUS_INVALID)
        (change_sub s {SubscriptionStatus.ACTIVE} (\<lambda>r. r\<lparr>sub_status := SubscriptionStatus.SUSPENDED\<rparr>) d)))"

definition resume_body :: "env \<Rightarrow> string \<Rightarrow> string \<Rightarrow> db \<Rightarrow> exn + (Subscription \<times> db)" where
  "resume_body e subscriberId subscriptionNo d =
     or_throw (find_sub_no subscriptionNo d) (NotFound SUBSCRIPTION_NOT_FOUND) (\<lambda>s.
       throw_if (sub_subscriber s \<noteq> subscriberId) (Forbidden FORBIDDEN)
      (throw_if (sub_status s \<noteq> SubscriptionStatus.SUSPENDED) (BadRequest SUBSCRIPTION_STATUS_INVALID)
        (let nextChargeAt = (case sub_nextChargeAt s of Some t \<Rightarrow> if now e < t then t else now e | None \<Rightarrow> now e)
         in change_sub s {SubscriptionStatus.SUSPENDED}
              (\<lambda>r. r\<lparr>sub_status := SubscriptionStatus.ACTIVE, sub_nextChargeAt := Some nextChargeAt\<rparr>) d)))"

definition cancel_sub :: "env \<Rightarrow> string \<Rightarrow> string \<Rightarrow> world \<Rightarrow> (exn + Subscription) \<times> world" where
  "cancel_sub e subscriberId subscriptionNo = transaction (cancel_sub_body e subscriberId subscriptionNo)"

definition suspend :: "string \<Rightarrow> string \<Rightarrow> world \<Rightarrow> (exn + Subscription) \<times> world" where
  "suspend subscriberId subscriptionNo = transaction (suspend_body subscriberId subscriptionNo)"

definition resume :: "env \<Rightarrow> string \<Rightarrow> string \<Rightarrow> world \<Rightarrow> (exn + Subscription) \<times> world" where
  "resume e subscriberId subscriptionNo = transaction (resume_body e subscriberId subscriptionNo)"

definition findBySubscriptionNo :: "string \<Rightarrow> string \<Rightarrow> db \<Rightarrow> exn + (Subscription \<times> SubscriptionPlan)" where
  "findBySubscriptionNo userId subscriptionNo d =
     or_throw (find_sub_no subscriptionNo d) (NotFound SUBSCRIPTION_NOT_FOUND) (\<lambda>s.
     or_throw (find_plan (sub_plan s) d) TypeError (\<lambda>plan.
       throw_if (sub_subscriber s \<noteq> userId \<and> pl_owner plan \<noteq> userId) (Forbidden FORBIDDEN) (Inr (s, plan))))"

subsection \<open>The job\<close>

text \<open>The charges of a subscription, the latest first (they are appended in the order of their creation).\<close>

definition recent_charges :: "string \<Rightarrow> db \<Rightarrow> SubscriptionCharge list" where
  "recent_charges i d = take SUBSCRIPTION_MAX_FAILURES (rev (charges_of i d))"

definition all_failed :: "SubscriptionCharge list \<Rightarrow> bool" where
  "all_failed t = (SUBSCRIPTION_MAX_FAILURES \<le> length t \<and>
     list_all (\<lambda>c. chg_status c = SubscriptionChargeStatus.FAILED) t)"

definition next_cycle :: "env \<Rightarrow> Subscription \<Rightarrow> SubscriptionPlan \<Rightarrow> string \<Rightarrow> bool \<Rightarrow> Subscription \<Rightarrow> Subscription" where
  "next_cycle e s plan chargeId failed r =
     (let nextCycleStart = sub_cycleEnd s;
          nextCycleEnd = addPeriod nextCycleStart (pl_period plan) (pl_intervalCount plan);
          newCompletedCycles = sub_completedCycles s + 1;
          isExpired = (truthy_int (pl_totalCycles plan) \<and> the (pl_totalCycles plan) \<le> newCompletedCycles)
      in r\<lparr>sub_completedCycles := newCompletedCycles, sub_lastCharge := Some chargeId,
           sub_cycleStart := nextCycleStart, sub_cycleEnd := nextCycleEnd,
           sub_nextChargeAt := (if isExpired then None else Some nextCycleStart),
           sub_status := (if isExpired then SubscriptionStatus.EXPIRED
             else if failed then SubscriptionStatus.SUSPENDED else SubscriptionStatus.ACTIVE),
           sub_endAt := (if isExpired then Some (now e) else sub_endAt s)\<rparr>)"

definition charge_body :: "env \<Rightarrow> nat \<Rightarrow> string \<Rightarrow> db \<Rightarrow> exn + (unit \<times> db)" where
  "charge_body e j subscriptionId d =
     or_throw (find_sub subscriptionId d) (ErrorText ''subscription missing'') (\<lambda>s.
     or_throw (find_plan (sub_plan s) d) TypeError (\<lambda>plan.
       throw_if (sub_status s \<noteq> SubscriptionStatus.ACTIVE) (ErrorText ''subscription not active'')
      (if truthy_int (pl_totalCycles plan) \<and> the (pl_totalCycles plan) \<le> sub_completedCycles s
       then bindE (update_sub (sub_id s) (\<lambda>r. r\<lparr>sub_status := SubscriptionStatus.EXPIRED, sub_nextChargeAt := None,
                    sub_endAt := Some (now e)\<rparr>) d) (\<lambda>(_, d'). Inr ((), d'))
       else bindE (executeCharge e j (sub_id s) (sub_subscriber s) (pl_owner plan) (pl_amount plan)
                    (sub_cycleStart s) (sub_cycleEnd s) d) (\<lambda>(charge, d1).
            bindE (update_sub (sub_id s)
                    (next_cycle e s plan (chg_id charge) (all_failed (recent_charges (sub_id s) d1))) d1) (\<lambda>(_, d2).
              Inr ((), d2))))))"

definition chargeOnce :: "env \<Rightarrow> nat \<Rightarrow> string \<Rightarrow> world \<Rightarrow> (exn + unit) \<times> world" where
  "chargeOnce e j subscriptionId =
     withLock (''subscription:charge:'' @ subscriptionId) (transaction (charge_body e j subscriptionId))"

fun charge_all :: "env \<Rightarrow> nat \<Rightarrow> Subscription list \<Rightarrow> nat \<times> nat \<Rightarrow> world \<Rightarrow> (nat \<times> nat) \<times> world" where
  "charge_all e j [] acc w = (acc, w)"
| "charge_all e j (s # ss) (successCount, failCount) w =
     (case chargeOnce e j (sub_id s) w of
        (Inr _, w') \<Rightarrow> charge_all e (Suc j) ss (Suc successCount, failCount) w'
      | (Inl _, w') \<Rightarrow> charge_all e (Suc j) ss (successCount, Suc failCount) w')"

definition due :: "int \<Rightarrow> Subscription \<Rightarrow> bool" where
  "due t s = (sub_status s = SubscriptionStatus.ACTIVE \<and>
     (case sub_nextChargeAt s of Some n \<Rightarrow> n < t | None \<Rightarrow> False))"

definition autoCharge :: "env \<Rightarrow> world \<Rightarrow> (nat \<times> nat) \<times> world" where
  "autoCharge e w = charge_all e 0 (take 50 (filter (due (now e)) (subscriptions (wdb w)))) (0, 0) w"

end
