(* ===== verification/SubscriptionSafety.thy ===== *)
theory SubscriptionSafety
  imports Subscriptions
begin

text \<open>
  What subscriptions do to balances and rows: one charge, one cycle, subscribing, and the invariant
  that ties the charges of a subscription to its cycles.
\<close>

subsection \<open>One charge\<close>

text \<open>The subscription tables except the charges are left alone.\<close>

definition same_subs :: "db \<Rightarrow> db \<Rightarrow> bool" where
  "same_subs d d' = (subscriptions d' = subscriptions d \<and> subscriptionPlans d' = subscriptionPlans d)"

definition charge_row :: "string \<Rightarrow> (SubscriptionCharge \<Rightarrow> SubscriptionCharge) \<Rightarrow> db \<Rightarrow> db \<Rightarrow> bool" where
  "charge_row i g d d' = (subscriptionCharges d' = updateRows (\<lambda>r. chg_id r = i) g (subscriptionCharges d))"

lemma fail_charge_Inr:
  assumes "fail_charge c d = Inr (r, d')"
  shows "r = c" and "books_kept d d'" and "same_subs d d'" and "charge_row (chg_id c) charge_failed d d'"
  using assms
  by (auto simp: fail_charge_def same_subs_def charge_row_def books_kept_def same_holdings_def ledgers_ok_def)

lemma charge_rows_Inr:
  assumes run: "charge_rows e j c sa oa sb ob d = Inr (r, d')" and n: "0 \<le> chg_amount c"
  shows "chg_id r = chg_id c" and "books_kept d d'" and "same_subs d d'"
    and "charge_row (chg_id c) (charge_done (uuid e (3 + 2 * j)) (now e)) d d'"
  using run n
  by (auto simp: charge_rows_def Let_def createOrder_Inr same_subs_def charge_row_def books_kept_def same_holdings_def
      ledgers_ok_def ledger_ok_def orders_ok_def add_ledger_def add_bill_def add_event_def charge_done_def
      dest: findUnique_SomeD)

definition charge_shift :: "SubscriptionCharge \<Rightarrow> bool \<Rightarrow> db \<Rightarrow> db \<Rightarrow> bool" where
  "charge_shift c p d d' =
     shifts (\<lambda>v. if p then (if v = chg_owner c then chg_amount c else 0) - (if v = chg_subscriber c then chg_amount c else 0) else 0)
       (\<lambda>_. 0) 0 0 d d'"

lemma charge_not_paid: "books_kept d d' \<Longrightarrow> accounts_ok (accounts d) \<Longrightarrow> charge_shift c False d d'"
  by (simp add: charge_shift_def shifts_kept)

text \<open>A charge is paid, or marked as failed and moves nothing; short of money it fails.\<close>

lemma make_charge_Inr:
  assumes run: "make_charge e j c d = Inr (r, d')" and ok: "accounts_ok (accounts d)" and n: "0 \<le> chg_amount c"
  obtains p where "chg_id r = chg_id c" and "same_subs d d'"
    and "charge_row (chg_id c) (if p then charge_done (uuid e (3 + 2 * j)) (now e) else charge_failed) d d'"
    and "charge_shift c p d d'" and "p \<Longrightarrow> chg_amount c \<le> available_of (chg_subscriber c) (accounts d)"
proof -
  consider (failed) "fail_charge c d = Inr (r, d')"
    | (paid) sa oa us k t where "account_of (chg_subscriber c) (accounts d) = Some sa"
      "account_of (chg_owner c) (accounts d) = Some oa" "acc_spend (acc_id sa) (chg_amount c) (accounts d) = Inr (k, t)" "k \<noteq> 0"
      "credit_account (acc_id oa) (chg_amount c) (d\<lparr>accounts := t\<rparr>)
         (\<lambda>uo d2. charge_rows e j c sa oa us (availableBalance uo) d2) = Inr (r, d')"
    using run by (auto simp: make_charge_def split: option.splits if_splits)
  then show thesis
  proof cases
    case failed
    note f = fail_charge_Inr [OF failed]
    show ?thesis by (rule that [of False]) (use f charge_not_paid [OF f(2) ok] in auto)
  next
    case paid
    note sp = spend.stmt_shifts [OF ok paid(1,3,4) n]
    have ok1: "accounts_ok (accounts (d\<lparr>accounts := t\<rparr>))" using sp(1) by (simp add: shifts_def)
    have acc: "accounts (d\<lparr>accounts := t\<rparr>) = move_funds (acc_id sa) (- chg_amount c) 0 (accounts d)"
      unfolding sp(2) by simp
    obtain b' :: Account where rows: "charge_rows e j c sa oa us (availableBalance b')
        (moved (acc_id oa) (chg_amount c) 0 (d\<lparr>accounts := t\<rparr>)) = Inr (r, d')"
      and cr: "shifts (\<lambda>u. if u = chg_owner c then chg_amount c else 0) (\<lambda>_. 0) (chg_amount c) 0
        (d\<lparr>accounts := t\<rparr>) (moved (acc_id oa) (chg_amount c) 0 (d\<lparr>accounts := t\<rparr>))"
      by (rule credit_shifts [OF paid(5,2) ok ok1 n acc])
    note rw = charge_rows_Inr [OF rows n]
    have ok2: "accounts_ok (accounts (moved (acc_id oa) (chg_amount c) 0 (d\<lparr>accounts := t\<rparr>)))"
      using cr by (simp add: shifts_def)
    have "charge_shift c True d d'"
      unfolding charge_shift_def using shifts_trans [OF shifts_trans [OF sp(1) cr] shifts_kept [OF rw(2) ok2]]
      by (auto elim!: shifts_cong)
    moreover have "chg_amount c \<le> available_of (chg_subscriber c) (accounts d)"
      using sp(3) account_of_SomeD [OF paid(1)] available_of_account [OF ok, of sa] by auto
    ultimately show ?thesis using rw by (intro that [of True]) (auto simp: same_subs_def charge_row_def)
  qed
qed

text \<open>With its record: one row is added, of the cycle and amount asked for, paid or failed.\<close>

lemma executeCharge_Inr:
  assumes run: "executeCharge e j i u v n s t d = Inr (r, d')" and ok: "accounts_ok (accounts d)" and n: "0 \<le> n"
  obtains c where "subscriptionCharges d' = subscriptionCharges d @ [c]" and "chg_id r = chg_id c"
    and "chg_id c \<notin> chg_id ` set (subscriptionCharges d)" and "same_subs d d'"
    and "chg_subscription c = i" and "chg_subscriber c = u" and "chg_owner c = v" and "chg_amount c = n"
    and "chg_cycleStart c = s" and "chg_cycleEnd c = t"
    and "chg_status c \<in> {SubscriptionChargeStatus.SUCCESS, SubscriptionChargeStatus.FAILED}"
    and "charge_shift c (chg_status c = SubscriptionChargeStatus.SUCCESS) d d'"
    and "n > available_of u (accounts d) \<Longrightarrow> chg_status c = SubscriptionChargeStatus.FAILED"
proof -
  define c where "c = \<lparr>chg_id = uuid e (2 + 2 * j), chg_no = generateOrderNo e (1 + 2 * j) ''SC'',
            chg_subscription = i, chg_subscriber = u, chg_owner = v, chg_amount = n, chg_cycleStart = s, chg_cycleEnd = t,
            chg_status = SubscriptionChargeStatus.PENDING, chg_transaction = None, chg_chargedAt = None, chg_createdAt = now e\<rparr>"
  let ?d = "d\<lparr>subscriptionCharges := subscriptionCharges d @ [c]\<rparr>"
  have f: "chg_subscription c = i" "chg_subscriber c = u" "chg_owner c = v" "chg_amount c = n"
    "chg_cycleStart c = s" "chg_cycleEnd c = t" by (simp_all add: c_def)
  have fresh: "\<forall>x \<in> set (subscriptionCharges d). \<not> chg_conflict c x" and mk: "make_charge e j c ?d = Inr (r, d')"
    using run by (auto simp: executeCharge_def Let_def c_def)
  then have new: "chg_id c \<notin> chg_id ` set (subscriptionCharges d)" by (auto simp: chg_conflict_def)
  have acc: "accounts ?d = accounts d" by simp
  have "0 \<le> chg_amount c" using n f by simp
  from make_charge_Inr [OF mk ok [folded acc] this] obtain p where p: "chg_id r = chg_id c" "same_subs ?d d'"
    "charge_row (chg_id c) (if p then charge_done (uuid e (3 + 2 * j)) (now e) else charge_failed) ?d d'"
    "charge_shift c p ?d d'" "p \<Longrightarrow> chg_amount c \<le> available_of (chg_subscriber c) (accounts ?d)" by blast
  define c' where "c' = (if p then charge_done (uuid e (3 + 2 * j)) (now e) else charge_failed) c"
  have st: "chg_status c' = (if p then SubscriptionChargeStatus.SUCCESS else SubscriptionChargeStatus.FAILED)"
    "chg_id c' = chg_id c" "chg_subscription c' = i" "chg_subscriber c' = u" "chg_owner c' = v" "chg_amount c' = n"
    "chg_cycleStart c' = s" "chg_cycleEnd c' = t"
    by (simp_all add: c'_def charge_done_def charge_failed_def f)
  have rows: "subscriptionCharges d' = subscriptionCharges d @ [c']"
  proof -
    have "updateRows (\<lambda>r. chg_id r = chg_id c) g (subscriptionCharges d) = subscriptionCharges d" for g
      using new by (intro updateRows_none) (auto simp: filter_empty_conv intro: rev_image_eqI)
    then show ?thesis using p(3) by (simp add: charge_row_def updateRows_def c'_def)
  qed
  have keep: "books_kept d ?d" by (simp add: books_kept_def same_holdings_def ledgers_ok_def)
  have shift: "charge_shift c' p d d'"
    using shifts_trans [OF shifts_kept [OF keep ok] p(4) [unfolded charge_shift_def]] st f
    by (auto simp: charge_shift_def elim!: shifts_cong)
  show thesis
  proof (rule that [of c', OF rows])
    show "charge_shift c' (chg_status c' = SubscriptionChargeStatus.SUCCESS) d d'" using shift by (cases p) (simp_all add: st)
    show "n > available_of u (accounts d) \<Longrightarrow> chg_status c' = SubscriptionChargeStatus.FAILED" using p(5) f by (auto simp: st)
  qed (use p(1,2) new st in \<open>auto simp: same_subs_def\<close>)
qed

subsection \<open>The tables of the subscriptions\<close>

text \<open>The limit of a plan; a limit that is not positive counts as none.\<close>

definition within_limit :: "int \<Rightarrow> SubscriptionPlan \<Rightarrow> bool" where
  "within_limit n plan = (case pl_totalCycles plan of Some k \<Rightarrow> k \<le> 0 \<or> n \<le> k | None \<Rightarrow> True)"

text \<open>
  Every subscription has its plan, has had exactly one charge, made or failed, for every completed cycle,
  and no more cycles than the plan allows; no charge is left open.
\<close>

definition sub_counted :: "db \<Rightarrow> Subscription \<Rightarrow> bool" where
  "sub_counted d s = (sub_completedCycles s = int (length (charges_of (sub_id s) d)) \<and>
     (\<exists>plan \<in> set (subscriptionPlans d). pl_id plan = sub_plan s \<and> within_limit (sub_completedCycles s) plan))"

lemma sub_counted_cong:
  "charges_of (sub_id s') d' = charges_of (sub_id s) d \<Longrightarrow> subscriptionPlans d' = subscriptionPlans d \<Longrightarrow>
     sub_plan s' = sub_plan s \<Longrightarrow> sub_completedCycles s' = sub_completedCycles s \<Longrightarrow> sub_counted d' s' = sub_counted d s"
  by (simp add: sub_counted_def)

definition subs_ok :: "db \<Rightarrow> bool" where
  "subs_ok d = (distinct (map sub_id (subscriptions d)) \<and> distinct (map pl_id (subscriptionPlans d)) \<and>
     (\<forall>p \<in> set (subscriptionPlans d). 0 \<le> pl_amount p) \<and>
     (\<forall>c \<in> set (subscriptionCharges d). chg_subscription c \<in> sub_id ` set (subscriptions d) \<and>
       chg_status c \<noteq> SubscriptionChargeStatus.PENDING) \<and>
     (\<forall>s \<in> set (subscriptions d). sub_counted d s))"

lemma subs_okD:
  assumes "subs_ok d"
  shows "distinct (map sub_id (subscriptions d))" and "distinct (map pl_id (subscriptionPlans d))"
    and "p \<in> set (subscriptionPlans d) \<Longrightarrow> 0 \<le> pl_amount p"
    and "c \<in> set (subscriptionCharges d) \<Longrightarrow> chg_subscription c \<in> sub_id ` set (subscriptions d)"
    and "c \<in> set (subscriptionCharges d) \<Longrightarrow> chg_status c \<noteq> SubscriptionChargeStatus.PENDING"
    and "s \<in> set (subscriptions d) \<Longrightarrow> sub_counted d s"
  using assms unfolding subs_ok_def by blast+

lemma subs_ok_frame:
  "same_subs d d' \<Longrightarrow> subscriptionCharges d' = subscriptionCharges d \<Longrightarrow> subs_ok d \<Longrightarrow> subs_ok d'"
proof -
  assume same: "same_subs d d'" "subscriptionCharges d' = subscriptionCharges d" and ok: "subs_ok d"
  then have "sub_counted d' s = sub_counted d s" for s
    by (intro sub_counted_cong) (simp_all add: charges_of_def same_subs_def)
  with same ok show ?thesis by (simp add: subs_ok_def same_subs_def)
qed

lemma subs_ok_events [keep]: "ignores_events subs_ok"
  unfolding ignores_events_def by (intro allI impI) (erule subs_ok_frame [rotated 2], simp_all add: same_subs_def)

text \<open>Changes of plans and subscriptions that leave the counted columns alone.\<close>

lemma subs_ok_plans:
  assumes "subs_ok d" and "\<And>p. pl_id (f p) = pl_id p \<and> pl_amount (f p) = pl_amount p \<and> pl_totalCycles (f p) = pl_totalCycles p"
  shows "subs_ok (d\<lparr>subscriptionPlans := updateRows P f (subscriptionPlans d)\<rparr>)"
proof -
  let ?d = "d\<lparr>subscriptionPlans := updateRows P f (subscriptionPlans d)\<rparr>"
  have "sub_counted ?d s" if s: "s \<in> set (subscriptions d)" for s
  proof -
    obtain p where p: "p \<in> set (subscriptionPlans d)" "pl_id p = sub_plan s" "within_limit (sub_completedCycles s) p"
      and n: "sub_completedCycles s = int (length (charges_of (sub_id s) d))"
      using subs_okD(6) [OF assms(1) s] by (auto simp: sub_counted_def)
    have "(if P p then f p else p) \<in> set (subscriptionPlans ?d)" using p(1) by (simp add: set_updateRows)
    moreover have "pl_id (if P p then f p else p) = sub_plan s" "within_limit (sub_completedCycles s) (if P p then f p else p)"
      using p assms(2) by (auto simp: within_limit_def)
    ultimately show ?thesis using n unfolding sub_counted_def charges_of_def by auto
  qed
  moreover have "distinct (map pl_id (subscriptionPlans ?d))"
    using subs_okD(2) [OF assms(1)] assms(2) by (simp add: map_updateRows_frame)
  moreover have "0 \<le> pl_amount p" if "p \<in> set (subscriptionPlans ?d)" for p
    using that subs_okD(3) [OF assms(1)] assms(2) by (auto simp: set_updateRows split: if_splits)
  ultimately show ?thesis using subs_okD(1,4,5) [OF assms(1)] by (simp add: subs_ok_def)
qed

lemma subs_ok_new_plan:
  assumes "subs_ok d" and "pl_id p \<notin> pl_id ` set (subscriptionPlans d)" and "0 \<le> pl_amount p"
  shows "subs_ok (d\<lparr>subscriptionPlans := subscriptionPlans d @ [p]\<rparr>)"
proof -
  have "sub_counted (d\<lparr>subscriptionPlans := subscriptionPlans d @ [p]\<rparr>) s" if "s \<in> set (subscriptions d)" for s
    using subs_okD(6) [OF assms(1) that] by (auto simp: sub_counted_def charges_of_def)
  then show ?thesis using subs_okD [OF assms(1)] assms(2,3) by (auto simp: subs_ok_def)
qed

lemma subs_ok_subs:
  assumes "subs_ok d" and "\<And>r. sub_id (f r) = sub_id r \<and> sub_plan (f r) = sub_plan r \<and> sub_completedCycles (f r) = sub_completedCycles r"
  shows "subs_ok (d\<lparr>subscriptions := updateRows P f (subscriptions d)\<rparr>)"
proof -
  have ids: "map sub_id (updateRows P f (subscriptions d)) = map sub_id (subscriptions d)"
    using assms(2) by (simp add: map_updateRows_frame)
  then have "sub_id ` set (updateRows P f (subscriptions d)) = sub_id ` set (subscriptions d)" by (metis list.set_map)
  moreover have "sub_counted (d\<lparr>subscriptions := updateRows P f (subscriptions d)\<rparr>) s"
    if "s \<in> set (updateRows P f (subscriptions d))" for s
  proof -
    note m = that
    obtain r where r: "r \<in> set (subscriptions d)" "s = (if P r then f r else r)"
      using m unfolding set_updateRows by blast
    have "sub_counted (d\<lparr>subscriptions := updateRows P f (subscriptions d)\<rparr>) s = sub_counted d r"
      using assms(2) by (intro sub_counted_cong) (auto simp: r(2) charges_of_def)
    with subs_okD(6) [OF assms(1) r(1)] show ?thesis by simp
  qed
  ultimately show ?thesis using subs_okD [OF assms(1)] ids by (simp add: subs_ok_def)
qed

text \<open>A new subscription has no charges yet.\<close>

lemma subs_ok_insert:
  assumes "subs_ok d" and "insert_sub s d = Inr d'" and "sub_completedCycles s = 0"
    and "plan \<in> set (subscriptionPlans d)" and "pl_id plan = sub_plan s"
  shows "subs_ok d'"
proof -
  have d': "d' = d\<lparr>subscriptions := subscriptions d @ [s]\<rparr>" and "\<forall>r \<in> set (subscriptions d). \<not> sub_conflict s r"
    using assms(2) by (auto simp: insert_sub_def)
  then have new: "sub_id s \<notin> sub_id ` set (subscriptions d)" by (auto simp: sub_conflict_def)
  then have "charges_of (sub_id s) d = []"
    unfolding charges_of_def filter_empty_conv using subs_okD(4) [OF assms(1)] by metis
  then have "sub_counted d' s"
    using assms(3-5) by (auto simp: sub_counted_def charges_of_def d' within_limit_def split: option.split)
  moreover have "sub_counted d' r" if "r \<in> set (subscriptions d)" for r
    using subs_okD(6) [OF assms(1) that] sub_counted_cong [of r d' r d] by (simp add: charges_of_def d')
  ultimately show ?thesis using subs_okD [OF assms(1)] new by (auto simp: subs_ok_def d')
qed

lemma update_sub_Inr:
  "update_sub i f d = Inr (r, d') \<longleftrightarrow> (\<exists>s. find_sub i d = Some s \<and> int32 (sub_completedCycles (f s)) \<and> r = f s \<and>
     d' = d\<lparr>subscriptions := updateRows (\<lambda>r. sub_id r = i) f (subscriptions d)\<rparr>)"
  by (auto simp: update_sub_def find_sub_def)

text \<open>A charge and the count of its cycle.\<close>

lemma subs_ok_charge:
  assumes ok: "subs_ok d" and s: "s \<in> set (subscriptions d)"
    and c: "subscriptionCharges d1 = subscriptionCharges d @ [c]" "same_subs d d1" "chg_subscription c = sub_id s"
      "chg_status c \<noteq> SubscriptionChargeStatus.PENDING"
    and upd: "update_sub (sub_id s) f d1 = Inr (r, d2)"
    and f: "\<And>x. sub_id (f x) = sub_id x \<and> sub_plan (f x) = sub_plan x" "sub_completedCycles (f s) = sub_completedCycles s + 1"
    and plan: "plan \<in> set (subscriptionPlans d)" "pl_id plan = sub_plan s" "within_limit (sub_completedCycles s + 1) plan"
  shows "subs_ok d2"
proof -
  have d2: "d2 = d1\<lparr>subscriptions := updateRows (\<lambda>r. sub_id r = sub_id s) f (subscriptions d)\<rparr>"
    using upd c(2) by (auto simp: update_sub_Inr same_subs_def)
  let ?t = "updateRows (\<lambda>r. sub_id r = sub_id s) f (subscriptions d)"
  have ids: "map sub_id ?t = map sub_id (subscriptions d)" using f(1) by (simp add: map_updateRows_frame)
  then have idset: "sub_id ` set ?t = sub_id ` set (subscriptions d)" by (metis list.set_map)
  have plans: "subscriptionPlans d1 = subscriptionPlans d" using c(2) by (simp add: same_subs_def)
  have "sub_counted d2 x" if "x \<in> set ?t" for x
    using that
  proof (cases rule: in_updateRowsE)
    case (changed y)
    then have "y = s" using distinct_key_unique [OF subs_okD(1) [OF ok] changed(1) s] by simp
    then show ?thesis
      using changed(3) subs_okD(6) [OF ok s] f plan c(1,3) plans
      by (auto simp: sub_counted_def charges_of_def d2)
  next
    case same
    then show ?thesis using subs_okD(6) [OF ok, of x] c(1,3) plans
      by (auto simp: sub_counted_def charges_of_def d2)
  qed
  moreover have "chg_subscription x \<in> sub_id ` set ?t \<and> chg_status x \<noteq> SubscriptionChargeStatus.PENDING"
    if "x \<in> set (subscriptionCharges d2)" for x
    using that subs_okD(4,5) [OF ok, of x] c s unfolding idset by (auto simp: d2)
  ultimately show ?thesis using subs_okD(1-3) [OF ok] ids plans by (simp add: subs_ok_def d2)
qed

subsection \<open>Subscribing and the cycles\<close>

definition sub_books :: "db \<Rightarrow> bool" where
  "sub_books d = (money_ok d \<and> subs_ok d)"

lemma sub_books_events [keep]: "ignores_events sub_books"
  unfolding ignores_events_def sub_books_def
  by (intro allI impI conjI) (auto intro: ignores_eventsD [OF money_ok_events] ignores_eventsD [OF subs_ok_events])

lemma charge_money:
  assumes "charge_shift c p d d'" and "money_ok d"
  shows "money_ok d'"
proof -
  have "money_ok_but (chg_subscriber c) 0 d" using assms(2) by (simp add: money_ok_but_none)
  from money_ok_but_shift [OF this assms(1) [unfolded charge_shift_def]] show ?thesis by (simp add: money_ok_but_none)
qed

lemma update_sub_kept: "update_sub i f d = Inr (r, d') \<Longrightarrow> books_kept d d'"
  by (auto simp: update_sub_Inr books_kept_def same_holdings_def ledgers_ok_def)

text \<open>Charging and counting one cycle, for the first charge as for the later ones.\<close>

lemma cycle_effect:
  assumes inv: "sub_books d" and s: "s \<in> set (subscriptions d)"
    and plan: "plan \<in> set (subscriptionPlans d)" "pl_id plan = sub_plan s" "within_limit (sub_completedCycles s + 1) plan"
    and run: "executeCharge e j (sub_id s) u v (pl_amount plan) a b d = Inr (ch, d1)"
    and upd: "update_sub (sub_id s) f d1 = Inr (r, d2)"
    and f: "\<And>x. sub_id (f x) = sub_id x \<and> sub_plan (f x) = sub_plan x" "sub_completedCycles (f s) = sub_completedCycles s + 1"
  obtains c where "subscriptionCharges d2 = subscriptionCharges d @ [c]" and "chg_subscription c = sub_id s"
    and "chg_subscriber c = u" and "chg_owner c = v" and "chg_amount c = pl_amount plan"
    and "chg_cycleStart c = a" and "chg_cycleEnd c = b" and "r = f s"
    and "chg_status c = SubscriptionChargeStatus.SUCCESS \<or> chg_status c = SubscriptionChargeStatus.FAILED"
    and "charge_shift c (chg_status c = SubscriptionChargeStatus.SUCCESS) d d2"
    and "pl_amount plan > available_of u (accounts d) \<Longrightarrow> chg_status c = SubscriptionChargeStatus.FAILED"
    and "sub_books d2"
proof -
  have m: "money_ok d" and t: "subs_ok d" using inv by (auto simp: sub_books_def)
  note ok = money_okD(1) [OF m]
  have n: "0 \<le> pl_amount plan" by (rule subs_okD(3) [OF t plan(1)])
  obtain c where c: "subscriptionCharges d1 = subscriptionCharges d @ [c]" "same_subs d d1" "chg_subscription c = sub_id s"
    "chg_subscriber c = u" "chg_owner c = v" "chg_amount c = pl_amount plan" "chg_cycleStart c = a" "chg_cycleEnd c = b"
    "chg_status c \<in> {SubscriptionChargeStatus.SUCCESS, SubscriptionChargeStatus.FAILED}"
    "charge_shift c (chg_status c = SubscriptionChargeStatus.SUCCESS) d d1"
    "pl_amount plan > available_of u (accounts d) \<longrightarrow> chg_status c = SubscriptionChargeStatus.FAILED"
    using executeCharge_Inr [OF run ok n] by metis
  have pend: "chg_status c \<noteq> SubscriptionChargeStatus.PENDING" using c(9) by auto
  have kept: "books_kept d1 d2" by (rule update_sub_kept [OF upd])
  have "accounts_ok (accounts d1)" using c(10) by (simp add: charge_shift_def shifts_def)
  from shifts_trans [OF c(10) [unfolded charge_shift_def] shifts_kept [OF kept this]]
  have sh: "charge_shift c (chg_status c = SubscriptionChargeStatus.SUCCESS) d d2" by (simp add: charge_shift_def)
  have "subs_ok d2" by (rule subs_ok_charge [OF t s c(1-3) pend upd f plan])
  moreover have "find_sub (sub_id s) d1 = Some s"
    using findUnique_key_eq [OF subs_okD(1) [OF t] s] c(2) by (simp add: find_sub_def same_subs_def)
  ultimately show thesis
    using c sh charge_money [OF sh m] upd by (intro that [of c]) (auto simp: sub_books_def update_sub_Inr)
qed

lemma first_cycle_done_simps [simp]:
  "sub_id (first_cycle_done plan i r) = sub_id r" "sub_plan (first_cycle_done plan i r) = sub_plan r"
  "sub_completedCycles (first_cycle_done plan i r) = 1"
  by (simp_all add: first_cycle_done_def Let_def)

lemma next_cycle_simps [simp]:
  "sub_id (next_cycle e s plan i b r) = sub_id r" "sub_plan (next_cycle e s plan i b r) = sub_plan r"
  "sub_completedCycles (next_cycle e s plan i b r) = sub_completedCycles s + 1"
  by (simp_all add: next_cycle_def Let_def)

lemma new_sub_simps [simp]:
  "sub_id (new_sub e u plan dto) = uuid e 1" "sub_plan (new_sub e u plan dto) = pl_id plan"
  "sub_completedCycles (new_sub e u plan dto) = 0" "sub_cycleStart (new_sub e u plan dto) = now e"
  by (simp_all add: new_sub_def Let_def)

text \<open>A subscription that is not a repeated request.\<close>

lemma subscribe_new_Inr:
  assumes run: "subscribe_new e u plan dto d = Inr (r, d')" and inv: "sub_books d"
    and plan: "plan \<in> set (subscriptionPlans d)"
  shows "sub_books d'"
    and "pl_trialDays plan \<le> 0 \<Longrightarrow> sub_completedCycles r = 1 \<and>
      (\<exists>c. charges_of (sub_id r) d' = [c] \<and> chg_amount c = pl_amount plan \<and>
        charge_shift c (chg_status c = SubscriptionChargeStatus.SUCCESS) d d' \<and>
        (pl_amount plan > available_of u (accounts d) \<longrightarrow> chg_status c = SubscriptionChargeStatus.FAILED))"
proof -
  let ?s = "new_sub e u plan dto"
  obtain d1 d2 where lim: "checkAndIncrementDailyLimit (uuid e 0) u ''SUBSCRIPTION'' (utc_day (now e)) (pl_amount plan)
        (config_limit ''subscription_daily_limit'' DEFAULT_SUBSCRIPTION_DAILY_LIMIT_CENTS d) d = Inr d1"
    and ins: "insert_sub ?s d1 = Inr d2"
    and rest: "(if 0 < pl_trialDays plan then Inr (?s, d2)
      else bindE (executeCharge e 0 (sub_id ?s) u (pl_owner plan) (pl_amount plan)
                   (sub_cycleStart ?s) (sub_cycleEnd ?s) d2) (\<lambda>(charge, d3).
        update_sub (sub_id ?s) (first_cycle_done plan (chg_id charge)) d3)) = Inr (r, d')"
    using run by (auto simp: subscribe_new_def Let_def simp del: new_sub_simps)
  have m: "money_ok d" and t: "subs_ok d" using inv by (auto simp: sub_books_def)
  have k1: "books_kept d d1" by (rule daily_limit_kept [OF lim])
  have same: "same_subs d d1" "subscriptionCharges d1 = subscriptionCharges d"
    using checkAndIncrementDailyLimit_frame [OF lim] by (auto simp: same_subs_def)
  have t1: "subs_ok d1" by (rule subs_ok_frame [OF same t])
  have plan1: "plan \<in> set (subscriptionPlans d1)" using plan same by (simp add: same_subs_def)
  have d2: "d2 = d1\<lparr>subscriptions := subscriptions d1 @ [?s]\<rparr>"
    and new: "\<forall>x \<in> set (subscriptions d1). \<not> sub_conflict ?s x" using ins by (auto simp: insert_sub_def)
  have t2: "subs_ok d2" by (rule subs_ok_insert [OF t1 ins _ plan1]) simp_all
  have k2: "books_kept d d2"
    using k1 by (auto simp: d2 books_kept_def same_holdings_def ledgers_ok_def)
  have inv2: "sub_books d2" using books_kept_money_ok [OF k2 m] t2 by (simp add: sub_books_def)
  have none: "charges_of (uuid e 1) d1 = []"
    using subs_okD(4) [OF t1] new unfolding charges_of_def filter_empty_conv by (fastforce simp: sub_conflict_def)
  have "sub_books d' \<and> (pl_trialDays plan \<le> 0 \<longrightarrow> sub_completedCycles r = 1 \<and>
      (\<exists>c. charges_of (sub_id r) d' = [c] \<and> chg_amount c = pl_amount plan \<and>
        charge_shift c (chg_status c = SubscriptionChargeStatus.SUCCESS) d d' \<and>
        (pl_amount plan > available_of u (accounts d) \<longrightarrow> chg_status c = SubscriptionChargeStatus.FAILED)))"
  proof (cases "0 < pl_trialDays plan")
    case True
    with rest inv2 show ?thesis by simp
  next
    case False
    then obtain ch d3 where ex: "executeCharge e 0 (sub_id ?s) u (pl_owner plan) (pl_amount plan)
                   (sub_cycleStart ?s) (sub_cycleEnd ?s) d2 = Inr (ch, d3)"
      and upd: "update_sub (sub_id ?s) (first_cycle_done plan (chg_id ch)) d3 = Inr (r, d')"
      using rest by (auto simp del: new_sub_simps)
    have s2: "?s \<in> set (subscriptions d2)" and plan2: "plan \<in> set (subscriptionPlans d2)" using plan1 by (simp_all add: d2)
    have lim1: "within_limit (sub_completedCycles ?s + 1) plan" by (auto simp: within_limit_def split: option.split)
    obtain c where c: "subscriptionCharges d' = subscriptionCharges d2 @ [c]" "chg_subscription c = sub_id ?s"
      "chg_amount c = pl_amount plan" "r = first_cycle_done plan (chg_id ch) ?s"
      "charge_shift c (chg_status c = SubscriptionChargeStatus.SUCCESS) d2 d'"
      "pl_amount plan > available_of u (accounts d2) \<longrightarrow> chg_status c = SubscriptionChargeStatus.FAILED" "sub_books d'"
      using cycle_effect [OF inv2 s2 plan2 _ lim1 ex upd] by (auto simp del: One_nat_def)
    have acc: "accounts d2 = accounts d" using k2 by (simp add: books_kept_def)
    have "charge_shift c (chg_status c = SubscriptionChargeStatus.SUCCESS) d d'"
      using shifts_trans [OF shifts_kept [OF k2 money_okD(1) [OF m]] c(5) [unfolded charge_shift_def]]
      by (simp add: charge_shift_def)
    moreover have "charges_of (sub_id r) d' = [c]" using c(1,2,4) none by (simp add: charges_of_def d2 del: One_nat_def)
    ultimately show ?thesis using c(3,4,6,7) acc by auto
  qed
  then show "sub_books d'"
    and "pl_trialDays plan \<le> 0 \<Longrightarrow> sub_completedCycles r = 1 \<and>
      (\<exists>c. charges_of (sub_id r) d' = [c] \<and> chg_amount c = pl_amount plan \<and>
        charge_shift c (chg_status c = SubscriptionChargeStatus.SUCCESS) d d' \<and>
        (pl_amount plan > available_of u (accounts d) \<longrightarrow> chg_status c = SubscriptionChargeStatus.FAILED))" by auto
qed

lemma plan_of_sub:
  assumes "subs_ok d" and "s \<in> set (subscriptions d)" and "find_plan (sub_plan s) d = Some plan"
  shows "plan \<in> set (subscriptionPlans d)" and "pl_id plan = sub_plan s" and "within_limit (sub_completedCycles s) plan"
proof -
  show p: "plan \<in> set (subscriptionPlans d)" "pl_id plan = sub_plan s"
    using assms(3) by (auto simp: find_plan_def dest: findUnique_SomeD)
  obtain q where "q \<in> set (subscriptionPlans d)" "pl_id q = sub_plan s" "within_limit (sub_completedCycles s) q"
    using subs_okD(6) [OF assms(1,2)] by (auto simp: sub_counted_def)
  moreover from this have "q = plan" using distinct_key_unique [OF subs_okD(2) [OF assms(1)], of q plan] p by simp
  ultimately show "within_limit (sub_completedCycles s) plan" by simp
qed

text \<open>A run of the charge: the subscription has ended, or one cycle is charged and counted.\<close>

text \<open>A plan that limits its cycles (neither absent nor 0) has none left.\<close>

definition no_cycle_left :: "int \<Rightarrow> SubscriptionPlan \<Rightarrow> bool" where
  "no_cycle_left completed plan = (case pl_totalCycles plan of None \<Rightarrow> False | Some k \<Rightarrow> k \<noteq> 0 \<and> k \<le> completed)"

lemma no_cycle_left_def': "no_cycle_left n plan = (truthy_int (pl_totalCycles plan) \<and> the (pl_totalCycles plan) \<le> n)"
  by (auto simp: no_cycle_left_def truthy_int_def split: option.splits)

lemma charge_body_Inr:
  assumes run: "charge_body e j i d = Inr (x, d')" and inv: "sub_books d"
  obtains (ended) s plan where "find_sub i d = Some s" and "find_plan (sub_plan s) d = Some plan"
      and "sub_status s = SubscriptionStatus.ACTIVE" and "books_kept d d'"
      and "subscriptionCharges d' = subscriptionCharges d" and "sub_books d'"
      and "map_option sub_status (find_sub i d') = Some SubscriptionStatus.EXPIRED" and "no_cycle_left (sub_completedCycles s) plan"
    | (charged) s plan c where "find_sub i d = Some s" and "find_plan (sub_plan s) d = Some plan"
      and "sub_status s = SubscriptionStatus.ACTIVE" and "sub_books d'"
      and "subscriptionCharges d' = subscriptionCharges d @ [c]" and "chg_subscription c = i"
      and "chg_subscriber c = sub_subscriber s" and "chg_owner c = pl_owner plan" and "chg_amount c = pl_amount plan"
      and "chg_cycleStart c = sub_cycleStart s" and "chg_cycleEnd c = sub_cycleEnd s"
      and "chg_status c = SubscriptionChargeStatus.SUCCESS \<or> chg_status c = SubscriptionChargeStatus.FAILED"
      and "charge_shift c (chg_status c = SubscriptionChargeStatus.SUCCESS) d d'"
      and "\<exists>ch b. find_sub i d' = Some (next_cycle e s plan ch b s)" and "\<not> no_cycle_left (sub_completedCycles s) plan"
proof -
  have m: "money_ok d" and t: "subs_ok d" using inv by (auto simp: sub_books_def)
  obtain s plan where s: "find_sub i d = Some s" and plan: "find_plan (sub_plan s) d = Some plan"
    and act: "sub_status s = SubscriptionStatus.ACTIVE"
    and rest: "(if truthy_int (pl_totalCycles plan) \<and> the (pl_totalCycles plan) \<le> sub_completedCycles s
       then bindE (update_sub (sub_id s) (\<lambda>r. r\<lparr>sub_status := SubscriptionStatus.EXPIRED, sub_nextChargeAt := None,
                    sub_endAt := Some (now e)\<rparr>) d) (\<lambda>(_, d'). Inr ((), d'))
       else bindE (executeCharge e j (sub_id s) (sub_subscriber s) (pl_owner plan) (pl_amount plan)
                    (sub_cycleStart s) (sub_cycleEnd s) d) (\<lambda>(charge, d1).
            bindE (update_sub (sub_id s)
                    (next_cycle e s plan (chg_id charge) (all_failed (recent_charges (sub_id s) d1))) d1) (\<lambda>(_, d2).
              Inr ((), d2)))) = Inr (x, d')"
    using run by (auto simp: charge_body_def)
  have si: "s \<in> set (subscriptions d)" "sub_id s = i" using s by (auto simp: find_sub_def dest: findUnique_SomeD)
  note p = plan_of_sub [OF t si(1) plan]
  show thesis
  proof (cases "truthy_int (pl_totalCycles plan) \<and> the (pl_totalCycles plan) \<le> sub_completedCycles s")
    case True
    then obtain r where u: "update_sub i (\<lambda>r. r\<lparr>sub_status := SubscriptionStatus.EXPIRED, sub_nextChargeAt := None,
                    sub_endAt := Some (now e)\<rparr>) d = Inr (r, d')"
      using rest by (auto simp: si)
    have d': "d' = d\<lparr>subscriptions := updateRows (\<lambda>r. sub_id r = i) (\<lambda>r. r\<lparr>sub_status := SubscriptionStatus.EXPIRED,
        sub_nextChargeAt := None, sub_endAt := Some (now e)\<rparr>) (subscriptions d)\<rparr>" using u by (auto simp: update_sub_Inr)
    have kept: "books_kept d d'" by (rule update_sub_kept [OF u])
    moreover have "subs_ok d'" unfolding d' by (rule subs_ok_subs [OF t]) simp
    ultimately show thesis
      using s si(2) plan act books_kept_money_ok [OF kept m]
      True by (intro ended) (auto simp: no_cycle_left_def' sub_books_def d' find_sub_def findUnique_updateRows)
  next
    case False
    then obtain ch d1 r where ex: "executeCharge e j (sub_id s) (sub_subscriber s) (pl_owner plan) (pl_amount plan)
                    (sub_cycleStart s) (sub_cycleEnd s) d = Inr (ch, d1)"
      and u: "update_sub (sub_id s) (next_cycle e s plan (chg_id ch) (all_failed (recent_charges (sub_id s) d1))) d1 = Inr (r, d')"
      using rest by auto
    have lim: "within_limit (sub_completedCycles s + 1) plan"
      using False by (auto simp: within_limit_def truthy_int_def split: option.splits)
    obtain c where c: "subscriptionCharges d' = subscriptionCharges d @ [c]" "chg_subscription c = sub_id s"
      "chg_subscriber c = sub_subscriber s" "chg_owner c = pl_owner plan" "chg_amount c = pl_amount plan"
      "chg_cycleStart c = sub_cycleStart s" "chg_cycleEnd c = sub_cycleEnd s"
      "chg_status c = SubscriptionChargeStatus.SUCCESS \<or> chg_status c = SubscriptionChargeStatus.FAILED"
      "charge_shift c (chg_status c = SubscriptionChargeStatus.SUCCESS) d d'" "sub_books d'"
      using cycle_effect [OF inv si(1) p(1,2) lim ex u] by auto
    have "find_sub i d1 = find_sub i d"
      using executeCharge_Inr [OF ex money_okD(1) [OF m] subs_okD(3) [OF t p(1)]]
      by (metis find_sub_def same_subs_def)
    then have "\<exists>ch b. find_sub i d' = Some (next_cycle e s plan ch b s)"
      using u s si(2) by (auto simp: update_sub_Inr find_sub_def findUnique_updateRows)
    with c s plan act si False show thesis by (intro charged) (auto simp: no_cycle_left_def')
  qed
qed

lemma chargeOnce_books: "sub_books (wdb w) \<Longrightarrow> keeps sub_books (chargeOnce e j i w)"
  unfolding chargeOnce_def by (intro keep) (auto elim: charge_body_Inr)

lemma charge_all_books: "sub_books (wdb w) \<Longrightarrow> sub_books (wdb (snd (charge_all e j ss acc w)))"
proof (induction ss arbitrary: j acc w)
  case (Cons s ss)
  obtain r w' where run: "chargeOnce e j (sub_id s) w = (r, w')" by fastforce
  have "sub_books (wdb w')" using chargeOnce_books [OF Cons.prems, of e j "sub_id s"] by (simp add: run keeps_def)
  with Cons.IH show ?case by (cases acc; cases r) (auto simp: run)
qed (cases acc; simp)

lemma change_sub_books:
  assumes "change_sub s from f d = Inr (r, d')" and "sub_books d"
    and "\<And>r. sub_id (f r) = sub_id r \<and> sub_plan (f r) = sub_plan r \<and> sub_completedCycles (f r) = sub_completedCycles r"
  shows "sub_books d'"
proof -
  obtain P where d': "d' = d\<lparr>subscriptions := updateRows P f (subscriptions d)\<rparr>"
    using assms(1) by (auto simp: change_sub_def)
  have "books_kept d d'" by (simp add: d' books_kept_def same_holdings_def ledgers_ok_def)
  with assms(2) show ?thesis
    by (auto simp: sub_books_def d' intro: books_kept_money_ok subs_ok_subs [OF _ assms(3)])
qed

lemma status_books:
  "sub_books (wdb w) \<Longrightarrow> keeps sub_books (cancel_sub e u no w)"
  "sub_books (wdb w) \<Longrightarrow> keeps sub_books (suspend u no w)"
  "sub_books (wdb w) \<Longrightarrow> keeps sub_books (resume e u no w)"
  unfolding cancel_sub_def suspend_def resume_def
  by (intro keeps_transaction; auto simp: cancel_sub_body_def suspend_body_def resume_body_def Let_def elim!: change_sub_books)+

lemma plan_books:
  "sub_books (wdb w) \<Longrightarrow> keeps sub_books (transaction (createPlan e u pdto) w)"
  "sub_books (wdb w) \<Longrightarrow> keeps sub_books (transaction (setPlanStatus u no st) w)"
proof -
  assume inv: "sub_books (wdb w)"
  have kept: "money_ok (d\<lparr>subscriptionPlans := t\<rparr>)" if "money_ok d" for d t
    by (rule books_kept_money_ok [OF _ that]) (simp add: books_kept_def same_holdings_def ledgers_ok_def)
  show "keeps sub_books (transaction (createPlan e u pdto) w)"
    using inv kept
    by (intro keeps_transaction)
      (auto simp: createPlan_def Let_def sub_books_def pl_conflict_def fen_Inr intro!: subs_ok_new_plan dest: yuanToFen_nonneg)
  show "keeps sub_books (transaction (setPlanStatus u no st) w)"
    using inv kept
    by (intro keeps_transaction) (auto simp: setPlanStatus_def sub_books_def intro!: subs_ok_plans)
qed

lemma subscribe_body_books:
  "subscribe_body e u plan dto d = Inr (r, d') \<Longrightarrow> sub_books d \<Longrightarrow> plan \<in> set (subscriptionPlans d) \<Longrightarrow> sub_books d'"
  using subscribe_new_Inr(1) by (auto simp: subscribe_body_def split: option.splits if_splits)

text \<open>The request, with what the transaction found.\<close>

lemma subscribe_transaction:
  assumes "subscribe pw_ok e u no dto w = (Inr r, w')"
  obtains plan evs d' where "find_plan_no no (wdb w) = Some plan" and "wdb w' = d'"
    and "subscribe_body e u plan dto (wdb w\<lparr>riskEvents := evs\<rparr>) = Inr (r, d')"
proof -
  obtain plan w1 w2 where plan: "find_plan_no no (wdb w) = Some plan" and w1: "wdb w1 = wdb w"
    and rg: "risk_guard (now e) \<lparr>ctx_user = u, ctx_type = TransactionType.TRANSFER, ctx_amount = pl_amount plan, ctx_ip = None\<rparr> w1 = (Inr (), w2)"
    and lk: "withLock (key_or ''subscribe:idem:'' (sbd_idem dto) (''subscribe:user:'' @ u @ '':'' @ pl_id plan))
        (transaction (subscribe_body e u plan dto)) w2 = (Inr r, w')"
    using assms by (auto simp: subscribe_def split: option.splits if_splits dest: verifyPayPassword_Inr)
  obtain evs where "wdb w2 = wdb w1\<lparr>riskEvents := evs\<rparr>" using risk_guard_Inr [OF rg] by auto
  moreover obtain w3 w4 where "wdb w3 = wdb w2" "transaction (subscribe_body e u plan dto) w3 = (Inr r, w4)" "wdb w' = wdb w4"
    by (rule withLock_InrE [OF lk])
  ultimately show thesis using plan w1 by (intro that) auto
qed

lemma subscribe_books:
  assumes "sub_books (wdb w)"
  shows "keeps sub_books (subscribe pw_ok e u no dto w)"
proof (cases "subscribe pw_ok e u no dto w")
  case (Pair x w')
  show ?thesis
  proof (cases x)
    case (Inl err)
    have "fails sub_books (subscribe pw_ok e u no dto w)"
      unfolding subscribe_def using assms
      by (intro failing sub_books_events)
        (auto dest!: verifyPayPassword_Inr risk_guard_Inr intro: ignores_eventsD [OF sub_books_events] split: if_splits)
    with Pair Inl show ?thesis by (simp add: fails_def keeps_def)
  next
    case (Inr r)
    obtain plan evs d' where "find_plan_no no (wdb w) = Some plan" and d': "wdb w' = d'"
      and "subscribe_body e u plan dto (wdb w\<lparr>riskEvents := evs\<rparr>) = Inr (r, d')"
      by (rule subscribe_transaction [OF Pair [unfolded Inr]])
    with ignores_eventsD [OF sub_books_events assms, of evs] have "sub_books d'"
      by (intro subscribe_body_books [of e u plan dto "wdb w\<lparr>riskEvents := evs\<rparr>" r d'])
        (auto simp: find_plan_no_def dest: findUnique_in)
    with Pair d' show ?thesis by (simp add: keeps_def)
  qed
qed

subsection \<open>Properties\<close>

text \<open>The requests and the job of the service.\<close>

inductive sub_request :: "world \<Rightarrow> world \<Rightarrow> bool" where
  "sub_request w (snd (transaction (createPlan e u pdto) w))"
| "sub_request w (snd (transaction (setPlanStatus u no st) w))"
| "sub_request w (snd (subscribe pw_ok e u no dto w))"
| "sub_request w (snd (cancel_sub e u no w))"
| "sub_request w (snd (suspend u no w))"
| "sub_request w (snd (resume e u no w))"
| "sub_request w (snd (autoCharge e w))"

lemma sub_request_books: "sub_request w w' \<Longrightarrow> sub_books (wdb w) \<Longrightarrow> sub_books (wdb w')"
  by (induction rule: sub_request.induct)
    (simp_all add: plan_books [unfolded keeps_def] subscribe_books [unfolded keeps_def] status_books [unfolded keeps_def]
      autoCharge_def charge_all_books)

lemma sub_requests_books: "sub_request\<^sup>*\<^sup>* w w' \<Longrightarrow> sub_books (wdb w) \<Longrightarrow> sub_books (wdb w')"
  by (induction rule: rtranclp_induct) (auto intro: sub_request_books)

definition sample_plan :: "int \<Rightarrow> SubscriptionPlan" where
  "sample_plan n = \<lparr>pl_id = ''PL1'', pl_planNo = ''SP1'', pl_owner = ''bob'', pl_amount = n, pl_period = MONTHLY,
     pl_intervalCount = 1, pl_trialDays = 0, pl_totalCycles = Some 2, pl_status = SubscriptionPlanStatus.ACTIVE\<rparr>"

definition sample_sub :: Subscription where
  "sample_sub = \<lparr>sub_id = ''SB1'', sub_no = ''SUB1'', sub_subscriber = ''alice'', sub_plan = ''PL1'',
     sub_status = SubscriptionStatus.ACTIVE, sub_startAt = 0, sub_cycleStart = 100, sub_cycleEnd = 400,
     sub_nextChargeAt = Some 100, sub_endAt = None, sub_cancelledAt = None, sub_completedCycles = 0,
     sub_lastCharge = None, sub_idem = None\<rparr>"

definition sub_world :: "int \<Rightarrow> Subscription list \<Rightarrow> world" where
  "sub_world n t = sample_world\<lparr>wdb := sample_db\<lparr>subscriptionPlans := [sample_plan n], subscriptions := t\<rparr>\<rparr>"

lemma sub_world_books:
  assumes "0 \<le> n" and "t = [] \<or> t = [sample_sub]"
  shows "sub_books (wdb (sub_world n t))"
proof -
  have "money_ok (wdb (sub_world n t))"
    by (rule books_kept_money_ok [OF _ sample_money_ok])
      (simp add: sub_world_def books_kept_def same_holdings_def ledgers_ok_def)
  moreover have "subs_ok (wdb (sub_world n t))"
    using assms by (auto simp: subs_ok_def sub_world_def sub_counted_def charges_of_def sample_plan_def sample_sub_def
        sample_db_def within_limit_def)
  ultimately show ?thesis by (simp add: sub_books_def)
qed

lemma sample_charge_runs: "isl (fst (chargeOnce sample_env 0 ''SB1'' (sub_world 3000 [sample_sub]))) = False"
  by code_simp

text \<open>
  C21. A run of the charge that succeeds found an active subscription. If the plan limits its cycles and all of them are
  completed, the subscription ends without a charge and no balance moves. Otherwise exactly one charge of the plan's amount is
  recorded for the current cycle: marked as paid, and the amount went from subscriber to owner, or
  marked as failed, and no balance moved. In both cases the code counts the cycle as completed and the next one, of at
  least a day, begins where it ended; the subscription ends if that was the last cycle, and is otherwise
  active or, after failures, suspended. (The merchants' guide describes failed charges differently.)
\<close>

theorem cycle_charged_once:
  assumes "chargeOnce e j i w = (Inr (), w')" and "sub_books (wdb w)"
  shows "\<exists>s plan. find_sub i (wdb w) = Some s \<and> find_plan (sub_plan s) (wdb w) = Some plan \<and>
    sub_status s = SubscriptionStatus.ACTIVE \<and>
    (if no_cycle_left (sub_completedCycles s) plan
     then subscriptionCharges (wdb w') = subscriptionCharges (wdb w) \<and> accounts (wdb w') = accounts (wdb w) \<and>
       map_option sub_status (find_sub i (wdb w')) = Some SubscriptionStatus.EXPIRED
     else \<exists>c s'. subscriptionCharges (wdb w') = subscriptionCharges (wdb w) @ [c] \<and> chg_subscription c = i \<and>
        chg_cycleStart c = sub_cycleStart s \<and> chg_cycleEnd c = sub_cycleEnd s \<and> chg_amount c = pl_amount plan \<and>
        (chg_status c = SubscriptionChargeStatus.SUCCESS \<or> chg_status c = SubscriptionChargeStatus.FAILED) \<and>
        (\<forall>v. available_of v (accounts (wdb w')) = available_of v (accounts (wdb w)) +
           (if chg_status c = SubscriptionChargeStatus.SUCCESS
            then (if v = pl_owner plan then pl_amount plan else 0) - (if v = sub_subscriber s then pl_amount plan else 0) else 0)) \<and>
        (\<forall>v. frozen_of v (accounts (wdb w')) = frozen_of v (accounts (wdb w))) \<and>
        find_sub i (wdb w') = Some s' \<and> sub_completedCycles s' = sub_completedCycles s + 1 \<and>
        sub_cycleStart s' = sub_cycleEnd s \<and> sub_cycleStart s' + DAY_MS \<le> sub_cycleEnd s' \<and>
        (if no_cycle_left (sub_completedCycles s + 1) plan then sub_status s' = SubscriptionStatus.EXPIRED
         else sub_status s' \<in> {SubscriptionStatus.ACTIVE, SubscriptionStatus.SUSPENDED}))"
proof -
  obtain w1 w2 where w1: "wdb w1 = wdb w" and run: "transaction (charge_body e j i) w1 = (Inr (), w2)" and w2: "wdb w' = wdb w2"
    by (rule withLock_InrE [OF assms(1) [unfolded chargeOnce_def]])
  then have body: "charge_body e j i (wdb w) = Inr ((), wdb w')" by auto
  show ?thesis
  proof (cases rule: charge_body_Inr [OF body assms(2), case_names ended charged])
    case (ended s plan)
    then show ?thesis by (auto simp: books_kept_def)
  next
    case (charged s plan c)
    then obtain ch b where s': "find_sub i (wdb w') = Some (next_cycle e s plan ch b s)" by blast
    have next_one: "sub_cycleStart (next_cycle e s plan ch b s) = sub_cycleEnd s"
      "sub_cycleEnd s + DAY_MS \<le> sub_cycleEnd (next_cycle e s plan ch b s)"
      "sub_completedCycles (next_cycle e s plan ch b s) = sub_completedCycles s + 1"
      "if no_cycle_left (sub_completedCycles s + 1) plan then sub_status (next_cycle e s plan ch b s) = SubscriptionStatus.EXPIRED
         else sub_status (next_cycle e s plan ch b s) \<in> {SubscriptionStatus.ACTIVE, SubscriptionStatus.SUSPENDED}"
      by (simp_all add: next_cycle_def Let_def addPeriod_later no_cycle_left_def')
    with charged s' show ?thesis
      by (intro exI [of _ s] exI [of _ plan] conjI, simp_all only: if_False)
        (rule exI [of _ c], rule exI [of _ "next_cycle e s plan ch b s"], auto simp: charge_shift_def shifts_def)
  qed
qed

theorem cycle_charged_once_witness:
  "\<exists>w' c. chargeOnce sample_env 0 ''SB1'' (sub_world 3000 [sample_sub]) = (Inr (), w') \<and>
     subscriptionCharges (wdb w') = subscriptionCharges (wdb (sub_world 3000 [sample_sub])) @ [c] \<and>
     chg_amount c = 3000 \<and> chg_cycleStart c = sub_cycleStart sample_sub"
proof -
  obtain w' where run: "chargeOnce sample_env 0 ''SB1'' (sub_world 3000 [sample_sub]) = (Inr (), w')"
    using not_isl_fst [OF sample_charge_runs] by auto
  have at: "find_sub ''SB1'' (wdb (sub_world 3000 [sample_sub])) = Some sample_sub"
    "find_plan (sub_plan sample_sub) (wdb (sub_world 3000 [sample_sub])) = Some (sample_plan 3000)"
    "no_cycle_left (sub_completedCycles sample_sub) (sample_plan 3000) = False" "pl_amount (sample_plan 3000) = 3000"
    by (simp_all add: sub_world_def sample_sub_def sample_plan_def find_sub_def find_plan_def no_cycle_left_def)
  from cycle_charged_once [OF run sub_world_books, unfolded at option.inject] run show ?thesis by (auto simp: at)
qed

text \<open>
  C22. Whatever subscription requests and jobs run, a subscription has exactly one charge for every
  cycle it counts, and never more charges than its plan has cycles.
\<close>

theorem charges_within_plan:
  assumes "sub_request\<^sup>*\<^sup>* w w'" and "sub_books (wdb w)" and "s \<in> set (subscriptions (wdb w'))"
    and "plan \<in> set (subscriptionPlans (wdb w'))" and "pl_id plan = sub_plan s"
    and "pl_totalCycles plan = Some k" and "0 < k"
  shows "int (length (charges_of (sub_id s) (wdb w'))) = sub_completedCycles s \<and> sub_completedCycles s \<le> k"
proof -
  have t: "subs_ok (wdb w')" using sub_requests_books [OF assms(1,2)] by (simp add: sub_books_def)
  obtain p where p: "p \<in> set (subscriptionPlans (wdb w'))" "pl_id p = sub_plan s" "within_limit (sub_completedCycles s) p"
    and n: "sub_completedCycles s = int (length (charges_of (sub_id s) (wdb w')))"
    using subs_okD(6) [OF t assms(3)] by (auto simp: sub_counted_def)
  have "p = plan" using distinct_key_unique [OF subs_okD(2) [OF t] p(1) assms(4)] p(2) assms(5) by simp
  with p(3) n assms(6,7) show ?thesis by (simp add: within_limit_def)
qed

lemma sample_auto:
  "list_all (\<lambda>s. sub_plan s = ''PL1'') (subscriptions (wdb (snd (autoCharge sample_env (sub_world 3000 [sample_sub])))))"
  "subscriptionPlans (wdb (snd (autoCharge sample_env (sub_world 3000 [sample_sub])))) = [sample_plan 3000]"
  by code_simp+

theorem charges_within_plan_witness:
  "list_all (\<lambda>s. int (length (charges_of (sub_id s) (wdb (snd (autoCharge sample_env (sub_world 3000 [sample_sub])))))) \<le> 2)
     (subscriptions (wdb (snd (autoCharge sample_env (sub_world 3000 [sample_sub])))))"
proof -
  let ?w = "snd (autoCharge sample_env (sub_world 3000 [sample_sub]))"
  have step: "sub_request\<^sup>*\<^sup>* (sub_world 3000 [sample_sub]) ?w"
    by (intro r_into_rtranclp sub_request.intros)
  have plan: "sample_plan 3000 \<in> set (subscriptionPlans (wdb ?w))" by (simp add: sample_auto(2))
  have id: "pl_id (sample_plan 3000) = ''PL1''" "pl_totalCycles (sample_plan 3000) = Some 2" by (simp_all add: sample_plan_def)
  have "sub_plan s = ''PL1''" if "s \<in> set (subscriptions (wdb ?w))" for s
    using that sample_auto(1) by (simp add: list_all_iff)
  with charges_within_plan [OF step sub_world_books _ plan _ id(2)] show ?thesis
    unfolding list_all_iff by (auto simp: id(1))
qed

text \<open>
  A subscription without a trial, taken by a user who cannot pay, succeeds all the same: the first
  charge is recorded as failed, no balance moves, and the first cycle counts as completed.
\<close>

theorem unpaid_first_cycle_counts:
  assumes "subscribe pw_ok e u no dto w = (Inr r, w')" and "find_plan_no no (wdb w) = Some plan"
    and "pl_trialDays plan \<le> 0" and "sbd_idem dto = None" and "available_of u (accounts (wdb w)) < pl_amount plan"
    and "sub_books (wdb w)"
  shows "sub_completedCycles r = 1 \<and>
    map chg_status (charges_of (sub_id r) (wdb w')) = [SubscriptionChargeStatus.FAILED] \<and>
    (\<forall>v. available_of v (accounts (wdb w')) = available_of v (accounts (wdb w)))"
proof -
  obtain plan' evs d' where p: "find_plan_no no (wdb w) = Some plan'" and d': "wdb w' = d'"
    and run: "subscribe_body e u plan' dto (wdb w\<lparr>riskEvents := evs\<rparr>) = Inr (r, d')"
    by (rule subscribe_transaction [OF assms(1)])
  let ?d = "wdb w\<lparr>riskEvents := evs\<rparr>"
  have new: "subscribe_new e u plan dto ?d = Inr (r, d')"
    using run p assms(2,4) by (simp add: subscribe_body_def truthy_def)
  have inv: "sub_books ?d" by (rule ignores_eventsD [OF sub_books_events assms(6)])
  have "plan \<in> set (subscriptionPlans ?d)" using assms(2) by (auto simp: find_plan_no_def dest: findUnique_in)
  from subscribe_new_Inr(2) [OF new inv this assms(3)] assms(5) obtain c where c: "sub_completedCycles r = 1"
    "charges_of (sub_id r) d' = [c]" "charge_shift c (chg_status c = SubscriptionChargeStatus.SUCCESS) ?d d'"
    "chg_status c = SubscriptionChargeStatus.FAILED" by auto
  then show ?thesis by (simp add: d' charge_shift_def shifts_def)
qed

definition no_password :: SubscribeDto where
  "no_password = \<lparr>sbd_idem = None, sbd_payPassword = None\<rparr>"

lemma sample_subscribe_runs:
  "isl (fst (subscribe (\<lambda>_ _. False) sample_env ''alice'' ''SP1'' no_password (sub_world 20000 []))) = False"
  by code_simp

theorem unpaid_first_cycle_counts_witness:
  "\<exists>r w'. subscribe (\<lambda>_ _. False) sample_env ''alice'' ''SP1'' no_password (sub_world 20000 []) = (Inr r, w') \<and>
     sub_completedCycles r = 1"
proof -
  obtain r w' where run: "subscribe (\<lambda>_ _. False) sample_env ''alice'' ''SP1'' no_password (sub_world 20000 []) = (Inr r, w')"
    using not_isl_fst [OF sample_subscribe_runs] by blast
  have "find_plan_no ''SP1'' (wdb (sub_world 20000 [])) = Some (sample_plan 20000)"
    by (simp add: find_plan_no_def sub_world_def sample_plan_def)
  from unpaid_first_cycle_counts [OF run this] sub_world_books run show ?thesis
    by (auto simp: sample_plan_def no_password_def sub_world_def sample_db_def sample_account_def available_of_def)
qed

end
