(* ===== verification/Coupons.thy ===== *)
theory Coupons
  imports Shifts
begin

text \<open>
  Coupons (coupons/coupons.service.ts): templates, claiming within the quotas, use with the discount, and the
  job that expires claimed coupons. Coupons move no money: the discount is only reported.

  The lemmas: the discount is the exact percentage rounded down, the quotas hold when claims run one
  after the other, and what two claims that run at the same time do to the quota.
\<close>

record CouponDto =
  cpd_type :: CouponType
  cpd_value :: jsnum
  cpd_minAmountYuan :: "jsnum option"
  cpd_totalQuota :: "int option"
  cpd_perUserLimit :: "int option"
  cpd_expiresAt :: "int option"

record UseCouponDto =
  ucd_orderNo :: string
  ucd_orderAmount :: jsnum

record Discount =
  disc_userCouponNo :: string
  disc_discountAmount :: int
  disc_finalAmount :: int

definition find_coupon :: "string \<Rightarrow> db \<Rightarrow> Coupon option" where
  "find_coupon i d = findUnique (\<lambda>r. cp_id r = i) (coupons d)"

definition find_coupon_no :: "string \<Rightarrow> db \<Rightarrow> Coupon option" where
  "find_coupon_no no d = findUnique (\<lambda>r. cp_no r = no) (coupons d)"

definition find_user_coupon :: "string \<Rightarrow> db \<Rightarrow> UserCoupon option" where
  "find_user_coupon no d = findUnique (\<lambda>r. uc_no r = no) (userCoupons d)"

definition cp_conflict :: "Coupon \<Rightarrow> Coupon \<Rightarrow> bool" where
  "cp_conflict r s = (cp_id r = cp_id s \<or> cp_no r = cp_no s)"

definition uc_conflict :: "UserCoupon \<Rightarrow> UserCoupon \<Rightarrow> bool" where
  "uc_conflict r s = (uc_id r = uc_id s \<or> uc_no r = uc_no s)"

subsection \<open>Templates\<close>

text \<open>\<open>value < 1 || value > 99\<close>, false for a number that is not one.\<close>

fun percent_invalid :: "jsnum \<Rightarrow> bool" where
  "percent_invalid (Num x) = (x < 1 \<or> 99 < x)"
| "percent_invalid NaN = False"
| "percent_invalid PosInf = True"
| "percent_invalid NegInf = True"

text \<open>What the integer column makes of a percentage: Prisma refuses a fraction.\<close>

fun percent_column :: "jsnum \<Rightarrow> exn + int" where
  "percent_column (Num x) = (if x = of_int \<lfloor>x\<rfloor> then Inr \<lfloor>x\<rfloor> else Inl PrismaValidation)"
| "percent_column _ = Inl PrismaValidation"

text \<open>\<open>dto.minAmountYuan ? yuanToFen(dto.minAmountYuan) : 0\<close>; zero and not-a-number are falsy.\<close>

fun min_amount :: "jsnum option \<Rightarrow> exn + int" where
  "min_amount None = Inr 0"
| "min_amount (Some NaN) = Inr 0"
| "min_amount (Some (Num x)) = (if x = 0 then Inr 0 else fen (Num x))"
| "min_amount (Some a) = fen a"

definition createCoupon :: "env \<Rightarrow> string \<Rightarrow> CouponDto \<Rightarrow> db \<Rightarrow> exn + (Coupon \<times> db)" where
  "createCoupon e ownerId dto d =
     or_throw (find_user ownerId d) (NotFound USER_NOT_FOUND) (\<lambda>owner.
       throw_if (\<not> verified owner) (Forbidden REAL_NAME_REQUIRED)
      (throw_if (cpd_type dto = CouponType.FIXED \<and> amount_le0 (cpd_value dto)) (BadRequest COUPON_VALUE_INVALID)
      (throw_if (cpd_type dto = CouponType.PERCENT \<and> percent_invalid (cpd_value dto)) (BadRequest COUPON_VALUE_INVALID)
      (throw_if (case cpd_expiresAt dto of Some t \<Rightarrow> t \<le> now e | None \<Rightarrow> False) (BadRequest COUPON_EXPIRED)
      (bindE (case cpd_type dto of CouponType.FIXED \<Rightarrow> fen (cpd_value dto) | CouponType.PERCENT \<Rightarrow> percent_column (cpd_value dto)) (\<lambda>valueStore.
       bindE (min_amount (cpd_minAmountYuan dto)) (\<lambda>minAmount.
         let coupon = \<lparr>cp_id = uuid e 0, cp_no = generateOrderNo e 0 ''CP'', cp_owner = ownerId, cp_type = cpd_type dto,
               cp_value = valueStore, cp_minAmount = minAmount,
               cp_totalQuota = (case cpd_totalQuota dto of Some n \<Rightarrow> n | None \<Rightarrow> 0), cp_issuedCount = 0,
               cp_perUserLimit = (case cpd_perUserLimit dto of Some n \<Rightarrow> n | None \<Rightarrow> 1),
               cp_status = CouponStatus.ACTIVE, cp_expiresAt = cpd_expiresAt dto\<rparr>
         in throw_if (\<not> int32 valueStore \<or> \<not> int32 minAmount) IntOutOfRange
           (bindE (create P2002 cp_conflict coupon (coupons d)) (\<lambda>t. Inr (coupon, d\<lparr>coupons := t\<rparr>))))))))))"

definition findByCouponNo :: "string \<Rightarrow> db \<Rightarrow> exn + Coupon" where
  "findByCouponNo no d = or_throw (find_coupon_no no d) (NotFound COUPON_NOT_FOUND) Inr"

definition setCouponStatus :: "string \<Rightarrow> string \<Rightarrow> CouponStatus \<Rightarrow> db \<Rightarrow> exn + (Coupon \<times> db)" where
  "setCouponStatus ownerId no status d =
     or_throw (find_coupon_no no d) (NotFound COUPON_NOT_FOUND) (\<lambda>coupon.
       throw_if (cp_owner coupon \<noteq> ownerId) (Forbidden FORBIDDEN)
      (throw_if (cp_status coupon = status) (BadRequest COUPON_STATUS_INVALID)
      (bindE (updateOne P2025 IntOutOfRange (\<lambda>_. True) (\<lambda>r. cp_id r = cp_id coupon) (\<lambda>r. r\<lparr>cp_status := status\<rparr>) (coupons d))
        (\<lambda>(r, t). Inr (r, d\<lparr>coupons := t\<rparr>)))))"

subsection \<open>Claiming\<close>

text \<open>
  The transaction of a claim reads and then writes. Two claims of one coupon by different users hold different locks, and
  the reads do not block, so the two halves are definitions of their own.
\<close>

definition claim_check :: "int \<Rightarrow> string \<Rightarrow> string \<Rightarrow> db \<Rightarrow> exn + Coupon" where
  "claim_check t userId no d =
     or_throw (find_coupon_no no d) (NotFound COUPON_NOT_FOUND) (\<lambda>coupon.
       throw_if (cp_status coupon \<noteq> CouponStatus.ACTIVE) (BadRequest COUPON_DISABLED)
      (throw_if (case cp_expiresAt coupon of Some x \<Rightarrow> x \<le> t | None \<Rightarrow> False) (BadRequest COUPON_EXPIRED)
      (throw_if (0 < cp_totalQuota coupon \<and> cp_totalQuota coupon \<le> cp_issuedCount coupon) (BadRequest COUPON_QUOTA_EXHAUSTED)
      (throw_if (cp_perUserLimit coupon \<le>
           int (length (filter (\<lambda>r. uc_coupon r = cp_id coupon \<and> uc_user r = userId) (userCoupons d))))
         (BadRequest COUPON_ALREADY_CLAIMED)
         (Inr coupon)))))"

definition claim_write :: "env \<Rightarrow> string \<Rightarrow> Coupon \<Rightarrow> db \<Rightarrow> exn + (UserCoupon \<times> db)" where
  "claim_write e userId coupon d =
     (let r = \<lparr>uc_id = uuid e 0, uc_no = generateOrderNo e 0 ''UC'', uc_coupon = cp_id coupon, uc_user = userId,
            uc_status = UserCouponStatus.AVAILABLE, uc_usedAt = None, uc_usedOrder = None\<rparr>
      in bindE (create P2002 uc_conflict r (userCoupons d)) (\<lambda>t.
         bindE (updateOne P2025 IntOutOfRange (\<lambda>c. int32 (cp_issuedCount c)) (\<lambda>c. cp_id c = cp_id coupon)
                  (\<lambda>c. c\<lparr>cp_issuedCount := cp_issuedCount c + 1\<rparr>) (coupons d)) (\<lambda>(_, cs).
           Inr (r, d\<lparr>userCoupons := t, coupons := cs\<rparr>))))"

definition claim_coupon_body :: "env \<Rightarrow> string \<Rightarrow> string \<Rightarrow> db \<Rightarrow> exn + (UserCoupon \<times> db)" where
  "claim_coupon_body e userId no d = bindE (claim_check (now e) userId no d) (\<lambda>coupon. claim_write e userId coupon d)"

definition claim_coupon :: "env \<Rightarrow> string \<Rightarrow> string \<Rightarrow> world \<Rightarrow> (exn + UserCoupon) \<times> world" where
  "claim_coupon e userId no =
     withLock (''coupon:claim:'' @ no @ '':'' @ userId) (transaction (claim_coupon_body e userId no))"

subsection \<open>Use and expiry\<close>

text \<open>\<open>Math.floor((amount * value) / 100)\<close> in doubles, and at most the amount.\<close>

definition discount :: "Coupon \<Rightarrow> int \<Rightarrow> int" where
  "discount c orderAmount =
     (let d = (case cp_type c of
                 CouponType.FIXED \<Rightarrow> cp_value c
               | CouponType.PERCENT \<Rightarrow> \<lfloor>js_div (js_mul (of_int orderAmount) (of_int (cp_value c))) 100\<rfloor>)
      in if orderAmount < d then orderAmount else d)"

definition useUserCoupon :: "env \<Rightarrow> string \<Rightarrow> string \<Rightarrow> UseCouponDto \<Rightarrow> db \<Rightarrow> exn + (Discount \<times> db)" where
  "useUserCoupon e userId no dto d =
     or_throw (find_user_coupon no d) (NotFound USER_COUPON_NOT_FOUND) (\<lambda>uc.
     or_throw (find_coupon (uc_coupon uc) d) TypeError (\<lambda>coupon.
       throw_if (uc_user uc \<noteq> userId) (Forbidden FORBIDDEN)
      (throw_if (uc_status uc = UserCouponStatus.USED) (BadRequest USER_COUPON_USED)
      (throw_if (uc_status uc = UserCouponStatus.EXPIRED) (BadRequest COUPON_EXPIRED)
      (throw_if (cp_status coupon \<noteq> CouponStatus.ACTIVE) (BadRequest COUPON_DISABLED)
      (throw_if (case cp_expiresAt coupon of Some t \<Rightarrow> t \<le> now e | None \<Rightarrow> False) (BadRequest COUPON_EXPIRED)
      (bindE (fen (ucd_orderAmount dto)) (\<lambda>orderAmountFen.
         throw_if (orderAmountFen < cp_minAmount coupon) (BadRequest COUPON_VALUE_INVALID)
        (bindE (updateOne P2025 IntOutOfRange (\<lambda>_. True) (\<lambda>r. uc_id r = uc_id uc)
                  (\<lambda>r. r\<lparr>uc_status := UserCouponStatus.USED, uc_usedAt := Some (now e), uc_usedOrder := Some (ucd_orderNo dto)\<rparr>)
                  (userCoupons d)) (\<lambda>(_, t).
           let discountFen = discount coupon orderAmountFen
           in Inr (\<lparr>disc_userCouponNo = uc_no uc, disc_discountAmount = discountFen,
                    disc_finalAmount = orderAmountFen - discountFen\<rparr>, d\<lparr>userCoupons := t\<rparr>)))))))))))"

definition findUserCoupon :: "string \<Rightarrow> string \<Rightarrow> db \<Rightarrow> exn + (UserCoupon \<times> Coupon)" where
  "findUserCoupon userId no d =
     or_throw (find_user_coupon no d) (NotFound USER_COUPON_NOT_FOUND) (\<lambda>uc.
     or_throw (find_coupon (uc_coupon uc) d) TypeError (\<lambda>coupon.
       throw_if (uc_user uc \<noteq> userId) (Forbidden FORBIDDEN) (Inr (uc, coupon))))"

definition autoExpireCoupons :: "int \<Rightarrow> db \<Rightarrow> nat \<times> db" where
  "autoExpireCoupons t d =
     (let stale = (\<lambda>r. uc_status r = UserCouponStatus.AVAILABLE \<and>
            (case find_coupon (uc_coupon r) d of
               Some c \<Rightarrow> (case cp_expiresAt c of Some x \<Rightarrow> x < t | None \<Rightarrow> False) | None \<Rightarrow> False))
      in (length (filter stale (userCoupons d)),
          d\<lparr>userCoupons := updateRows stale (\<lambda>r. r\<lparr>uc_status := UserCouponStatus.EXPIRED\<rparr>) (userCoupons d)\<rparr>))"

subsection \<open>The discount\<close>

text \<open>Rounding to 53 bits does not disturb the floor of a quotient of integers below \<open>2^52\<close>.\<close>

lemma floor_quotient:
  assumes k: "0 \<le> k" "k < 2 ^ 52" and m: "0 < m"
  shows "\<lfloor>fl (of_int k / of_int m)\<rfloor> = k div m"
proof -
  define q where "q = k div m"
  define x :: rat where "x = of_int k / of_int m"
  have m0: "(0 :: rat) < of_int m" using m by simp
  have kx: "of_int k = x * of_int m" using m by (simp add: x_def)
  have x0: "0 \<le> x" using k m by (simp add: x_def)
  have q: "m * q \<le> k" "k < m * q + m"
    using mult_div_mod_eq [of m k] pos_mod_sign [OF m, of k] pos_mod_bound [OF m, of k] unfolding q_def by linarith+
  have "of_int k < (2 ^ 52 :: rat)" using k(2) by (metis of_int_less_iff of_int_numeral of_int_power)
  then have "\<bar>x\<bar> / 2 ^ 53 < 1 / (2 * of_int m)" using x0 m0 by (simp add: kx field_simps)
  with fl_err [of x] have err: "\<bar>fl x - x\<bar> < 1 / (2 * of_int m)" by (rule le_less_trans)
  have half: "1 / (2 * of_int m) \<le> (1 / of_int m :: rat)" using m0 by (simp add: field_simps)
  have "of_int (k + 1) \<le> (of_int (m * q + m) :: rat)" using q(2) by (simp only: of_int_le_iff)
  then have hi: "x + 1 / of_int m \<le> of_int q + 1" using m0 by (simp add: kx field_simps)
  have "of_int q \<le> fl x"
  proof (cases "k = m * q")
    case True
    then have x: "x = of_int q" using m by (simp add: x_def)
    have q0: "0 \<le> q" using k(1) m by (simp add: q_def pos_imp_zdiv_nonneg_iff)
    then have "1 * q \<le> m * q" using m by (intro mult_right_mono) auto
    with q0 q(1) have "0 \<le> q" "q \<le> k" by auto
    with k(2) show ?thesis unfolding x by (subst fl_of_int) auto
  next
    case False
    then have "of_int (m * q + 1) \<le> (of_int k :: rat)" using q(1) by (simp only: of_int_le_iff)
    then have "of_int q + 1 / of_int m \<le> x" using m0 by (simp add: kx field_simps)
    with err half show ?thesis by linarith
  qed
  moreover have "fl x < of_int q + 1" using hi err half by linarith
  ultimately show ?thesis unfolding q_def [symmetric] x_def [symmetric] by (intro floor_unique) simp_all
qed

lemma discount_exact:
  assumes "0 \<le> n" and "n \<le> 100000000000" and "cp_type c = CouponType.PERCENT" and "1 \<le> cp_value c" and "cp_value c \<le> 99"
  shows "discount c n = n * cp_value c div 100"
proof -
  have "n * cp_value c \<le> 100000000000 * 99" using assms by (intro mult_mono) auto
  then have k: "0 \<le> n * cp_value c" "n * cp_value c < 2 ^ 52" using assms by auto
  have "js_mul (of_int n) (of_int (cp_value c)) = of_int (n * cp_value c)"
    unfolding js_mul_def of_int_mult [symmetric] using k by (intro fl_of_int) auto
  then have "\<lfloor>js_div (js_mul (of_int n) (of_int (cp_value c))) 100\<rfloor> = n * cp_value c div 100"
    using floor_quotient [OF k, of 100] by (simp add: js_div_def)
  moreover have "n * cp_value c div 100 \<le> n"
  proof -
    have "n * cp_value c \<le> n * 100" using assms by (intro mult_left_mono) auto
    then have "n * cp_value c div 100 \<le> n * 100 div 100" by (rule zdiv_mono1) simp
    then show ?thesis by simp
  qed
  ultimately show ?thesis using assms(3) by (simp add: discount_def Let_def)
qed

subsection \<open>The quotas\<close>

definition claims_of :: "string \<Rightarrow> db \<Rightarrow> UserCoupon list" where
  "claims_of i d = filter (\<lambda>r. uc_coupon r = i) (userCoupons d)"

definition user_claims :: "string \<Rightarrow> string \<Rightarrow> db \<Rightarrow> UserCoupon list" where
  "user_claims i u d = filter (\<lambda>r. uc_coupon r = i \<and> uc_user r = u) (userCoupons d)"

text \<open>A coupon counts its claims and stays within both quotas; a quota of zero or less is none.\<close>

definition within_quota :: "db \<Rightarrow> Coupon \<Rightarrow> bool" where
  "within_quota d c = (cp_issuedCount c = int (length (claims_of (cp_id c) d)) \<and>
     (cp_totalQuota c \<le> 0 \<or> cp_issuedCount c \<le> cp_totalQuota c) \<and>
     (\<forall>u. user_claims (cp_id c) u d = [] \<or> int (length (user_claims (cp_id c) u d)) \<le> cp_perUserLimit c))"

definition coupons_ok :: "db \<Rightarrow> bool" where
  "coupons_ok d = (distinct (map cp_id (coupons d)) \<and>
     (\<forall>r \<in> set (userCoupons d). uc_coupon r \<in> cp_id ` set (coupons d)) \<and>
     (\<forall>c \<in> set (coupons d). within_quota d c))"

lemma coupons_okD:
  assumes "coupons_ok d"
  shows "distinct (map cp_id (coupons d))" and "r \<in> set (userCoupons d) \<Longrightarrow> uc_coupon r \<in> cp_id ` set (coupons d)"
    and "c \<in> set (coupons d) \<Longrightarrow> within_quota d c"
  using assms unfolding coupons_ok_def by blast+

lemma within_quota_cong:
  assumes "claims_of (cp_id c) d' = claims_of (cp_id c) d" and "\<And>u. user_claims (cp_id c) u d' = user_claims (cp_id c) u d"
    and "cp_id c' = cp_id c" and "cp_issuedCount c' = cp_issuedCount c" and "cp_totalQuota c' = cp_totalQuota c"
    and "cp_perUserLimit c' = cp_perUserLimit c"
  shows "within_quota d' c' = within_quota d c"
  using assms by (simp add: within_quota_def)

text \<open>A claimed coupon changes its status only.\<close>

lemma coupons_ok_status:
  assumes "coupons_ok d" and "\<And>r. uc_coupon (f r) = uc_coupon r \<and> uc_user (f r) = uc_user r"
  shows "coupons_ok (d\<lparr>userCoupons := updateRows P f (userCoupons d)\<rparr>)"
proof -
  let ?d = "d\<lparr>userCoupons := updateRows P f (userCoupons d)\<rparr>"
  have len: "length (filter Q (updateRows P f t)) = length (filter Q t)" if "\<And>r. Q (f r) = Q r" for Q :: "UserCoupon \<Rightarrow> bool" and t
    using that by (induction t) auto
  have "length (claims_of i ?d) = length (claims_of i d)" "length (user_claims i u ?d) = length (user_claims i u d)" for i u
    unfolding claims_of_def user_claims_def using assms(2) by (simp_all add: len)
  then have "within_quota ?d c = within_quota d c" for c
    unfolding within_quota_def by (metis length_0_conv)
  moreover have "uc_coupon r \<in> cp_id ` set (coupons d)" if "r \<in> set (userCoupons ?d)" for r
    using that coupons_okD(2) [OF assms(1)] assms(2) by (auto simp: set_updateRows split: if_splits)
  ultimately show ?thesis using coupons_okD(1,3) [OF assms(1)] by (simp add: coupons_ok_def)
qed

lemma coupons_ok_template:
  assumes "coupons_ok d" and "\<And>c. cp_id (f c) = cp_id c \<and> cp_issuedCount (f c) = cp_issuedCount c \<and>
      cp_totalQuota (f c) = cp_totalQuota c \<and> cp_perUserLimit (f c) = cp_perUserLimit c"
  shows "coupons_ok (d\<lparr>coupons := updateRows P f (coupons d)\<rparr>)"
proof -
  let ?d = "d\<lparr>coupons := updateRows P f (coupons d)\<rparr>"
  have ids: "map cp_id (updateRows P f (coupons d)) = map cp_id (coupons d)" using assms(2) by (simp add: map_updateRows_frame)
  then have "cp_id ` set (updateRows P f (coupons d)) = cp_id ` set (coupons d)" by (metis list.set_map)
  moreover have "within_quota ?d c" if "c \<in> set (updateRows P f (coupons d))" for c
  proof -
    note m = that
    obtain r where r: "r \<in> set (coupons d)" "c = (if P r then f r else r)" using m unfolding set_updateRows by blast
    have "within_quota ?d c = within_quota d r"
      using assms(2) by (intro within_quota_cong) (auto simp: r(2) claims_of_def user_claims_def)
    with coupons_okD(3) [OF assms(1) r(1)] show ?thesis by simp
  qed
  ultimately show ?thesis using coupons_okD(1,2) [OF assms(1)] ids by (simp add: coupons_ok_def)
qed

lemma coupons_ok_new:
  assumes "coupons_ok d" and "cp_id c \<notin> cp_id ` set (coupons d)" and "cp_issuedCount c = 0"
  shows "coupons_ok (d\<lparr>coupons := coupons d @ [c]\<rparr>)"
proof -
  let ?d = "d\<lparr>coupons := coupons d @ [c]\<rparr>"
  have none: "claims_of (cp_id c) d = []" "user_claims (cp_id c) u d = []" for u
    unfolding claims_of_def user_claims_def filter_empty_conv using coupons_okD(2) [OF assms(1)] assms(2) by metis+
  then have "within_quota ?d c" using assms(3) by (auto simp: within_quota_def claims_of_def user_claims_def)
  moreover have "within_quota ?d r" if "r \<in> set (coupons d)" for r
    using coupons_okD(3) [OF assms(1) that] within_quota_cong [of r ?d d r] by (simp add: claims_of_def user_claims_def)
  ultimately show ?thesis using coupons_okD(1,2) [OF assms(1)] assms(2) by (auto simp: coupons_ok_def)
qed

text \<open>The check of a claim, and the two rows it writes.\<close>

lemma claim_check_Inr:
  "claim_check t u no d = Inr c \<longleftrightarrow> find_coupon_no no d = Some c \<and> cp_status c = CouponStatus.ACTIVE \<and>
     (case cp_expiresAt c of Some x \<Rightarrow> t < x | None \<Rightarrow> True) \<and>
     (cp_totalQuota c \<le> 0 \<or> cp_issuedCount c < cp_totalQuota c) \<and>
     int (length (user_claims (cp_id c) u d)) < cp_perUserLimit c"
  by (auto simp: claim_check_def user_claims_def not_less not_le split: option.splits)

lemma claim_write_Inr:
  "claim_write e u c d = Inr (r, d') \<Longrightarrow>
     uc_coupon r = cp_id c \<and> uc_user r = u \<and> uc_status r = UserCouponStatus.AVAILABLE \<and>
     d' = d\<lparr>userCoupons := userCoupons d @ [r],
            coupons := updateRows (\<lambda>x. cp_id x = cp_id c) (\<lambda>x. x\<lparr>cp_issuedCount := cp_issuedCount x + 1\<rparr>) (coupons d)\<rparr>"
  by (auto simp: claim_write_def Let_def)

lemma claim_body_coupons_ok:
  assumes run: "claim_coupon_body e u no d = Inr (r, d')" and ok: "coupons_ok d"
  shows "coupons_ok d'"
proof -
  obtain c where chk: "claim_check (now e) u no d = Inr c" and wr: "claim_write e u c d = Inr (r, d')"
    using run by (auto simp: claim_coupon_body_def)
  note c = chk [unfolded claim_check_Inr] and w = claim_write_Inr [OF wr]
  have cin: "c \<in> set (coupons d)" using c by (auto simp: find_coupon_no_def dest: findUnique_in)
  let ?up = "\<lambda>x. x\<lparr>cp_issuedCount := cp_issuedCount x + 1\<rparr>"
  let ?t = "updateRows (\<lambda>x. cp_id x = cp_id c) ?up (coupons d)"
  have ids: "map cp_id ?t = map cp_id (coupons d)" by (simp add: map_updateRows_frame)
  then have idset: "cp_id ` set ?t = cp_id ` set (coupons d)" by (metis list.set_map)
  have cl: "claims_of i d' = claims_of i d @ (if i = cp_id c then [r] else [])"
    "user_claims i v d' = user_claims i v d @ (if i = cp_id c \<and> v = u then [r] else [])" for i v
    using w by (auto simp: claims_of_def user_claims_def)
  have "within_quota d' x" if "x \<in> set ?t" for x
    using that
  proof (cases rule: in_updateRowsE)
    case (changed y)
    then have "y = c" using distinct_key_unique [OF coupons_okD(1) [OF ok] changed(1) cin] by simp
    then show ?thesis
      using changed(3) coupons_okD(3) [OF ok cin] c by (auto simp: within_quota_def cl)
  next
    case same
    then show ?thesis using coupons_okD(3) [OF ok, of x] by (auto simp: within_quota_def cl)
  qed
  moreover have "uc_coupon x \<in> cp_id ` set ?t" if "x \<in> set (userCoupons d')" for x
    using that coupons_okD(2) [OF ok, of x] w cin unfolding idset by auto
  ultimately show ?thesis using coupons_okD(1) [OF ok] w ids by (simp add: coupons_ok_def)
qed

text \<open>The requests and the job of the service.\<close>

inductive coupon_request :: "world \<Rightarrow> world \<Rightarrow> bool" where
  "coupon_request w (snd (transaction (createCoupon e u cdto) w))"
| "coupon_request w (snd (transaction (setCouponStatus u no st) w))"
| "coupon_request w (snd (claim_coupon e u no w))"
| "coupon_request w (snd (transaction (useUserCoupon e u no udto) w))"
| "coupon_request w (w\<lparr>wdb := snd (autoExpireCoupons t (wdb w))\<rparr>)"

lemma template_coupons_ok:
  "createCoupon e u dto d = Inr (r, d') \<Longrightarrow> coupons_ok d \<Longrightarrow> coupons_ok d'"
  "setCouponStatus u no st d = Inr (r, d') \<Longrightarrow> coupons_ok d \<Longrightarrow> coupons_ok d'"
  "useUserCoupon e u no udto d = Inr (x, d') \<Longrightarrow> coupons_ok d \<Longrightarrow> coupons_ok d'"
  by (auto simp: createCoupon_def setCouponStatus_def useUserCoupon_def Let_def cp_conflict_def
      intro!: coupons_ok_new coupons_ok_template coupons_ok_status)

text \<open>A claimed coupon that was used stays used, whatever requests follow.\<close>

definition used_by :: "string \<Rightarrow> string \<Rightarrow> db \<Rightarrow> bool" where
  "used_by no u d = (case find_user_coupon no d of
     Some uc \<Rightarrow> uc_status uc = UserCouponStatus.USED \<and> uc_user uc = u \<and> find_coupon (uc_coupon uc) d \<noteq> None
   | None \<Rightarrow> False)"

lemma used_by_templates:
  "used_by no u d \<Longrightarrow> used_by no u (d\<lparr>coupons := coupons d @ [c]\<rparr>)"
  "(\<And>r. cp_id (f r) = cp_id r) \<Longrightarrow> used_by no u d \<Longrightarrow> used_by no u (d\<lparr>coupons := updateRows P f (coupons d)\<rparr>)"
  by (auto simp: used_by_def find_user_coupon_def find_coupon_def findUnique_append findUnique_updateRows split: option.splits)

lemma used_by_claims:
  "used_by no u d \<Longrightarrow> used_by no u (d\<lparr>userCoupons := userCoupons d @ [r]\<rparr>)"
  by (auto simp: used_by_def find_user_coupon_def find_coupon_def findUnique_append split: option.splits)

lemma used_by_update:
  assumes "used_by no u d" and f: "\<And>r. uc_no (f r) = uc_no r \<and> uc_user (f r) = uc_user r \<and> uc_coupon (f r) = uc_coupon r"
    and "\<And>r. P r \<Longrightarrow> uc_status r = UserCouponStatus.USED \<Longrightarrow> uc_status (f r) = UserCouponStatus.USED"
  shows "used_by no u (d\<lparr>userCoupons := updateRows P f (userCoupons d)\<rparr>)"
  using assms by (auto simp: used_by_def find_user_coupon_def find_coupon_def findUnique_updateRows split: option.splits)

lemma use_marks:
  assumes "useUserCoupon e u no dto d = Inr (x, d')"
  shows "used_by no u d'"
proof -
  obtain uc c where uc: "find_user_coupon no d = Some uc" "uc_user uc = u" "find_coupon (uc_coupon uc) d = Some c"
    and d': "d' = d\<lparr>userCoupons := updateRows (\<lambda>r. uc_id r = uc_id uc)
      (\<lambda>r. r\<lparr>uc_status := UserCouponStatus.USED, uc_usedAt := Some (now e), uc_usedOrder := Some (ucd_orderNo dto)\<rparr>) (userCoupons d)\<rparr>"
    using assms by (auto simp: useUserCoupon_def Let_def)
  then show ?thesis by (simp add: used_by_def find_user_coupon_def find_coupon_def findUnique_updateRows)
qed

lemma claim_write_used: "claim_write e v c d = Inr (r, d') \<Longrightarrow> used_by no u d \<Longrightarrow> used_by no u d'"
  using used_by_templates(2) [where f = "\<lambda>x. x\<lparr>cp_issuedCount := cp_issuedCount x + 1\<rparr>", OF _ used_by_claims]
  by (auto dest!: claim_write_Inr)

lemma template_used_by:
  "createCoupon e v dto d = Inr (r, d') \<Longrightarrow> used_by no u d \<Longrightarrow> used_by no u d'"
  "setCouponStatus v k st d = Inr (r, d') \<Longrightarrow> used_by no u d \<Longrightarrow> used_by no u d'"
  "useUserCoupon e v k udto d = Inr (x, d') \<Longrightarrow> used_by no u d \<Longrightarrow> used_by no u d'"
  by (auto simp: createCoupon_def setCouponStatus_def useUserCoupon_def Let_def
      intro!: used_by_templates used_by_update)

text \<open>
  The four request handlers run in transactions; a property that each body keeps is kept by the request.
\<close>

lemma coupon_request_keeps:
  assumes "coupon_request w w'" and P: "P (wdb w)"
    and create: "\<And>e u dto r d'. createCoupon e u dto (wdb w) = Inr (r, d') \<Longrightarrow> P d'"
    and status: "\<And>u no st r d'. setCouponStatus u no st (wdb w) = Inr (r, d') \<Longrightarrow> P d'"
    and claim: "\<And>e u no r d'. claim_coupon_body e u no (wdb w) = Inr (r, d') \<Longrightarrow> P d'"
    and "use": "\<And>e u no dto x d'. useUserCoupon e u no dto (wdb w) = Inr (x, d') \<Longrightarrow> P d'"
    and expire: "\<And>t. P (snd (autoExpireCoupons t (wdb w)))"
  shows "P (wdb w')"
proof -
  have tr: "P (wdb (snd (transaction f w)))" if "\<And>r d. f (wdb w) = Inr (r, d) \<Longrightarrow> P d" for f :: "db \<Rightarrow> exn + ('a \<times> db)"
    using that P by (auto simp: transaction_def split: sum.splits)
  have "keeps P (claim_coupon e u no w)" for e u no
    unfolding claim_coupon_def by (intro keep) (auto intro: claim simp: P)
  then have cl: "P (wdb (snd (claim_coupon e u no w)))" for e u no by (simp add: keeps_def)
  show ?thesis using assms(1)
  proof cases
    case (1 e u cdto)
    then show ?thesis using tr create by metis
  next
    case (2 u no st)
    then show ?thesis using tr status by metis
  next
    case (3 e u no)
    then show ?thesis using cl by simp
  next
    case (4 e u no udto)
    then show ?thesis using tr "use" by metis
  next
    case (5 t)
    then show ?thesis using expire by simp
  qed
qed

lemma coupon_request_ok:
  assumes "coupon_request w w'" and ok: "coupons_ok (wdb w)"
  shows "coupons_ok (wdb w')"
  using assms(1) ok
proof (rule coupon_request_keeps)
  show "coupons_ok (snd (autoExpireCoupons t (wdb w)))" for t
    using ok by (simp add: autoExpireCoupons_def Let_def coupons_ok_status)
qed (use ok in \<open>metis template_coupons_ok claim_body_coupons_ok\<close>)+

lemma coupon_requests_ok: "coupon_request\<^sup>*\<^sup>* w w' \<Longrightarrow> coupons_ok (wdb w) \<Longrightarrow> coupons_ok (wdb w')"
  by (induction rule: rtranclp_induct) (auto intro: coupon_request_ok)

lemma coupon_request_used:
  assumes "coupon_request w w'" and used: "used_by no u (wdb w)"
  shows "used_by no u (wdb w')"
  using assms(1) used
proof (rule coupon_request_keeps)
  show "used_by no u (snd (autoExpireCoupons t (wdb w)))" for t
    using used by (auto simp: autoExpireCoupons_def Let_def intro!: used_by_update)
  show "claim_coupon_body e v k (wdb w) = Inr (r, d') \<Longrightarrow> used_by no u d'" for e v k r d'
    using used by (auto simp: claim_coupon_body_def dest: claim_write_used)
qed (use used in \<open>metis template_used_by\<close>)+

lemma coupon_requests_used: "coupon_request\<^sup>*\<^sup>* w w' \<Longrightarrow> used_by no u (wdb w) \<Longrightarrow> used_by no u (wdb w')"
  by (induction rule: rtranclp_induct) (auto intro: coupon_request_used)

lemma coupon_request_kept:
  assumes "coupon_request w w'"
  shows "books_kept (wdb w) (wdb w')"
  using assms
  by (rule coupon_request_keeps [where P = "books_kept (wdb w)"])
    (auto simp: books_kept_def same_holdings_def createCoupon_def setCouponStatus_def claim_coupon_body_def claim_write_def
      useUserCoupon_def autoExpireCoupons_def Let_def ledgers_ok_def)

subsection \<open>The properties\<close>

text \<open>
  C23. On a platform that started without coupons, whatever requests of the service ran: a coupon counts exactly the claims
  there are for it, stays within its total quota when it has one, and no user holds more of it than its limit per user.
\<close>

theorem coupon_quotas_hold:
  assumes "coupon_request\<^sup>*\<^sup>* w w'" and "coupons (wdb w) = []" and "userCoupons (wdb w) = []"
    and "c \<in> set (coupons (wdb w'))"
  shows "cp_issuedCount c = int (length (claims_of (cp_id c) (wdb w'))) \<and>
    (0 < cp_totalQuota c \<longrightarrow> cp_issuedCount c \<le> cp_totalQuota c) \<and>
    (user_claims (cp_id c) u (wdb w') \<noteq> [] \<longrightarrow> int (length (user_claims (cp_id c) u (wdb w'))) \<le> cp_perUserLimit c)"
proof -
  have "coupons_ok (wdb w)" using assms(2,3) by (simp add: coupons_ok_def)
  from coupons_okD(3) [OF coupon_requests_ok [OF assms(1) this] assms(4), unfolded within_quota_def]
  show ?thesis by auto
qed

text \<open>A template for one coupon, created and claimed.\<close>

definition sample_dto :: CouponDto where
  "sample_dto = \<lparr>cpd_type = CouponType.PERCENT, cpd_value = Num 10, cpd_minAmountYuan = None, cpd_totalQuota = Some 1,
     cpd_perUserLimit = None, cpd_expiresAt = None\<rparr>"

definition coupon_world :: world where
  "coupon_world = snd (transaction (createCoupon sample_env ''alice'' sample_dto) sample_world)"

definition sample_coupon :: Coupon where
  "sample_coupon = hd (coupons (wdb coupon_world))"

definition claimed_world :: world where
  "claimed_world = snd (claim_coupon sample_env ''bob'' (cp_no sample_coupon) coupon_world)"

lemma coupon_world_reached: "coupon_request\<^sup>*\<^sup>* sample_world coupon_world"
  unfolding coupon_world_def by (intro r_into_rtranclp coupon_request.intros)

lemma claimed_world_reached: "coupon_request\<^sup>*\<^sup>* sample_world claimed_world"
  unfolding claimed_world_def by (intro rtranclp.rtrancl_into_rtrancl [OF coupon_world_reached] coupon_request.intros)

lemma sample_no_coupons: "coupons (wdb sample_world) = []" "userCoupons (wdb sample_world) = []"
  by (simp_all add: sample_defs)

lemma claimed_world_coupon:
  "length (coupons (wdb claimed_world)) = 1" "cp_totalQuota (hd (coupons (wdb claimed_world))) = 1"
  "length (user_claims (cp_id (hd (coupons (wdb claimed_world)))) ''bob'' (wdb claimed_world)) = 1"
  by code_simp+

corollary coupon_quotas_hold_witness:
  "cp_issuedCount (hd (coupons (wdb claimed_world))) \<le> 1 \<and>
   1 \<le> cp_perUserLimit (hd (coupons (wdb claimed_world)))"
proof -
  have m: "hd (coupons (wdb claimed_world)) \<in> set (coupons (wdb claimed_world))"
    using claimed_world_coupon(1) by (intro hd_in_set) auto
  note q = coupon_quotas_hold [OF claimed_world_reached sample_no_coupons m]
  have "user_claims (cp_id (hd (coupons (wdb claimed_world)))) ''bob'' (wdb claimed_world) \<noteq> []"
    using claimed_world_coupon(3) by auto
  with q [of "''bob''"] show ?thesis by (simp add: claimed_world_coupon)
qed

text \<open>
  A coupon that a user used cannot be used again by that user, whatever requests of the service came after.
\<close>

theorem coupon_used_once:
  assumes "useUserCoupon e u no dto d = Inr (x, wdb w)" and "coupon_request\<^sup>*\<^sup>* w w'"
  shows "useUserCoupon e' u no dto' (wdb w') = Inl (BadRequest USER_COUPON_USED)"
  using coupon_requests_used [OF assms(2) use_marks [OF assms(1)]]
  by (auto simp: used_by_def useUserCoupon_def split: option.splits)

definition use_dto :: UseCouponDto where
  "use_dto = \<lparr>ucd_orderNo = ''O1'', ucd_orderAmount = Num 5\<rparr>"

definition used_world :: world where
  "used_world = snd (transaction (useUserCoupon sample_env ''bob'' (uc_no (hd (userCoupons (wdb claimed_world)))) use_dto)
     claimed_world)"

lemma used_world_use:
  "useUserCoupon sample_env ''bob'' (uc_no (hd (userCoupons (wdb claimed_world)))) use_dto (wdb claimed_world) =
     Inr (\<lparr>disc_userCouponNo = uc_no (hd (userCoupons (wdb claimed_world))), disc_discountAmount = 50, disc_finalAmount = 450\<rparr>,
       wdb used_world)"
  by code_simp

corollary coupon_used_once_witness:
  "useUserCoupon sample_env ''bob'' (uc_no (hd (userCoupons (wdb claimed_world)))) use_dto (wdb used_world) =
     Inl (BadRequest USER_COUPON_USED)"
  by (rule coupon_used_once [OF used_world_use rtranclp.rtrancl_refl])

text \<open>
  The lock of a claim is per user and the quota is checked before it is counted: when two users'
  claims of the last coupon both pass the check before either writes, both get one, and the coupon has issued more than its quota.
\<close>

theorem parallel_claims_exceed_quota:
  assumes "claim_check (now e) u no d = Inr c" and "claim_check (now e') v no d = Inr c"
    and "0 < cp_totalQuota c" and "cp_issuedCount c + 1 = cp_totalQuota c" and "distinct (map cp_id (coupons d))"
    and "claim_write e u c d = Inr (r, d1)" and "claim_write e' v c d1 = Inr (s, d2)"
  shows "find_coupon (cp_id c) d2 = Some (c\<lparr>cp_issuedCount := cp_totalQuota c + 1\<rparr>)"
proof -
  have "c \<in> set (coupons d)" using assms(1) by (auto simp: claim_check_Inr find_coupon_no_def dest: findUnique_in)
  then have "find_coupon (cp_id c) d = Some c"
    unfolding find_coupon_def using assms(5) by (intro findUnique_key_eq) auto
  then show ?thesis
    using claim_write_Inr [OF assms(6)] claim_write_Inr [OF assms(7)] assms(4) [symmetric]
    by (simp add: find_coupon_def findUnique_updateRows)
qed

definition other_env :: env where
  "other_env = sample_env\<lparr>uuid := (\<lambda>i. ''v'' @ show_nat i), nano := (\<lambda>i. ''m'' @ show_nat i)\<rparr>"

definition raced_db :: db where
  "raced_db = (case claim_write sample_env ''bob'' sample_coupon (wdb coupon_world) of
     Inr (_, d) \<Rightarrow> d | Inl _ \<Rightarrow> wdb coupon_world)"

corollary parallel_claims_exceed_quota_witness:
  "find_coupon (cp_id sample_coupon) (snd (projr (claim_write other_env ''alice'' sample_coupon raced_db))) =
     Some (sample_coupon\<lparr>cp_issuedCount := 2\<rparr>)"
proof -
  have c: "claim_check (now sample_env) ''bob'' (cp_no sample_coupon) (wdb coupon_world) = Inr sample_coupon"
    "claim_check (now other_env) ''alice'' (cp_no sample_coupon) (wdb coupon_world) = Inr sample_coupon"
    and q: "0 < cp_totalQuota sample_coupon" "cp_issuedCount sample_coupon + 1 = cp_totalQuota sample_coupon"
    "distinct (map cp_id (coupons (wdb coupon_world)))" "cp_totalQuota sample_coupon + 1 = 2"
    by code_simp+
  have w: "claim_write sample_env ''bob'' sample_coupon (wdb coupon_world) =
      Inr (fst (projr (claim_write sample_env ''bob'' sample_coupon (wdb coupon_world))), raced_db)"
    "claim_write other_env ''alice'' sample_coupon raced_db =
      Inr (fst (projr (claim_write other_env ''alice'' sample_coupon raced_db)), snd (projr (claim_write other_env ''alice'' sample_coupon raced_db)))"
    by code_simp+
  show ?thesis using parallel_claims_exceed_quota [OF c q(1-3) w] by (simp only: q(4))
qed

end
