(* ===== verification/QrCodes.thy ===== *)
theory QrCodes
  imports Shifts
begin

text \<open>
  Payment codes (qr-codes/qr-codes.service.ts): a user's personal code, codes over a fixed amount, and
  paying by a code.

  The lemmas: a payment by code refines the payment specification, so it keeps the money invariant and
  moves exactly one amount; a code over a fixed amount charges that amount whatever the payer sends.
\<close>

record FixedCodeDto =
  fcd_amount :: jsnum
  fcd_remark :: "string option"

record PayCodeDto =
  pcd_code :: string
  pcd_amount :: "jsnum option"
  pcd_remark :: "string option"
  pcd_payPassword :: string
  pcd_idem :: "string option"

definition generateQrCode :: "env \<Rightarrow> string" where
  "generateQrCode e = ''KB-'' @ show36 (nat (now e)) @ nano e 0"

definition qr_conflict :: "QrCode \<Rightarrow> QrCode \<Rightarrow> bool" where
  "qr_conflict r s = (qr_id r = qr_id s \<or> qr_code r = qr_code s)"

definition find_personal_code :: "string \<Rightarrow> db \<Rightarrow> QrCode option" where
  "find_personal_code userId d =
     findUnique (\<lambda>q. qr_user q = userId \<and> qr_type q = QrCodeType.PERSONAL \<and> qr_status q = QrCodeStatus.ACTIVE) (qrCodes d)"

definition find_qr_code :: "string \<Rightarrow> db \<Rightarrow> QrCode option" where
  "find_qr_code code d = findUnique (\<lambda>q. qr_code q = code) (qrCodes d)"

subsection \<open>Codes\<close>

definition getPersonalCode :: "env \<Rightarrow> string \<Rightarrow> db \<Rightarrow> exn + (QrCode \<times> db)" where
  "getPersonalCode e userId d =
     (case find_personal_code userId d of
        Some code \<Rightarrow> Inr (code, d)
      | None \<Rightarrow>
          (let r = \<lparr>qr_id = uuid e 0, qr_code = generateQrCode e, qr_user = userId, qr_merchant = None, qr_type = QrCodeType.PERSONAL,
                 qr_amount = None, qr_remark = None, qr_status = QrCodeStatus.ACTIVE\<rparr>
           in case create P2002 qr_conflict r (qrCodes d) of
                Inr t \<Rightarrow> Inr (r, d\<lparr>qrCodes := t\<rparr>)
              | Inl err \<Rightarrow> (case find_personal_code userId d of Some existing \<Rightarrow> Inr (existing, d) | None \<Rightarrow> Inl err)))"

definition createFixedCode :: "env \<Rightarrow> string \<Rightarrow> FixedCodeDto \<Rightarrow> db \<Rightarrow> exn + (QrCode \<times> db)" where
  "createFixedCode e userId dto d =
     throw_if (amount_le0 (fcd_amount dto)) (BadRequest INVALID_PARAMETER)
      (bindE (fen (fcd_amount dto)) (\<lambda>amount.
         let r = \<lparr>qr_id = uuid e 0, qr_code = generateQrCode e, qr_user = userId, qr_merchant = None, qr_type = QrCodeType.FIXED_AMOUNT,
               qr_amount = Some amount, qr_remark = fcd_remark dto, qr_status = QrCodeStatus.ACTIVE\<rparr>
         in throw_if (\<not> int32 amount) PrismaValidation
           (bindE (create P2002 qr_conflict r (qrCodes d)) (\<lambda>t. Inr (r, d\<lparr>qrCodes := t\<rparr>)))))"

subsection \<open>Paying by a code\<close>

text \<open>\<open>dto.amount || 0\<close>: an absent amount and one that is not a number count as zero.\<close>

definition amount_or_zero :: "jsnum option \<Rightarrow> jsnum" where
  "amount_or_zero a = (case a of None \<Rightarrow> Num 0 | Some NaN \<Rightarrow> Num 0 | Some x \<Rightarrow> x)"

text \<open>The amount of the code, or the payer's; no amount, zero and negative amounts are refused.\<close>

definition code_amount :: "QrCode \<Rightarrow> PayCodeDto \<Rightarrow> exn + int" where
  "code_amount q dto =
     bindE (if qr_type q = QrCodeType.FIXED_AMOUNT then Inr (qr_amount q)
            else bindE (fen (amount_or_zero (pcd_amount dto))) (\<lambda>n. Inr (Some n))) (\<lambda>amount.
       case amount of
         None \<Rightarrow> Inl (BadRequest INVALID_PARAMETER)
       | Some n \<Rightarrow> throw_if (n \<le> 0) (BadRequest INVALID_PARAMETER) (Inr n))"

definition code_order :: "env \<Rightarrow> User \<Rightarrow> QrCode \<Rightarrow> PayCodeDto \<Rightarrow> int \<Rightarrow> TransactionOrder" where
  "code_order e payer q dto amount =
     \<lparr>tx_id = uuid e 1, tx_orderNo = generateOrderNo e 0 ''Q'', tx_type = TransactionType.PAYMENT,
      tx_status = TransactionStatus.SUCCESS, tx_amount = amount, tx_fee = 0, tx_from = Some (usr_id payer),
      tx_to = Some (qr_user q),
      tx_remark = (if truthy (pcd_remark dto) then UserRemark (the (pcd_remark dto)) else remark_or_default (qr_remark q)),
      tx_related = None, tx_idem = pcd_idem dto, tx_channel = None, tx_channelOrderNo = None,
      tx_createdAt = now e, tx_completedAt = Some (now e)\<rparr>"

definition code_rows ::
  "TransactionOrder \<Rightarrow> User \<Rightarrow> User \<Rightarrow> Account \<Rightarrow> Account \<Rightarrow> int \<Rightarrow> int \<Rightarrow> db \<Rightarrow> db" where
  "code_rows order payer receiver payerAccount receiverAccount payerAfter receiverAfter d =
     (let n = tx_amount order;
          d1 = add_ledger \<lparr>led_account = acc_id payerAccount, led_transaction = tx_id order, led_type = LedgerType.PAYMENT,
                 led_amount = n, led_before = payerAfter + n, led_after = payerAfter, led_direction = CREDIT\<rparr> d;
          d2 = add_ledger \<lparr>led_account = acc_id receiverAccount, led_transaction = tx_id order, led_type = LedgerType.PAYMENT,
                 led_amount = n, led_before = receiverAfter - n, led_after = receiverAfter, led_direction = DEBIT\<rparr> d1;
          d3 = add_bill \<lparr>bill_user = usr_id payer, bill_transaction = tx_id order, bill_type = BillType.PAYMENT,
                 bill_direction = EXPENSE, bill_amount = n, bill_counterparty = Some (usr_nickname receiver)\<rparr> d2
      in add_bill \<lparr>bill_user = usr_id receiver, bill_transaction = tx_id order, bill_type = BillType.RECEIPT,
           bill_direction = INCOME, bill_amount = n, bill_counterparty = Some (usr_nickname payer)\<rparr> d3)"

definition code_pay_new ::
  "env \<Rightarrow> User \<Rightarrow> User \<Rightarrow> QrCode \<Rightarrow> PayCodeDto \<Rightarrow> int \<Rightarrow> db \<Rightarrow> exn + ((TransactionOrder \<times> bool) \<times> db)" where
  "code_pay_new e payer receiver q dto amount d0 =
     bindE (checkAndIncrementDailyLimit (uuid e 0) (usr_id payer) ''PAYMENT'' (utc_day (now e)) amount
              (config_limit ''payment_daily_limit'' DEFAULT_PAYMENT_DAILY_LIMIT_CENTS d0) d0) (\<lambda>d.
       or_throw (account_of (usr_id payer) (accounts d)) (NotFound ACCOUNT_NOT_FOUND) (\<lambda>payerAccount.
       or_throw (account_of (qr_user q) (accounts d)) (NotFound ACCOUNT_NOT_FOUND) (\<lambda>receiverAccount.
         throw_if (acc_status payerAccount \<noteq> AccountStatus.ACTIVE) (Forbidden FORBIDDEN)
        (throw_if (acc_status receiverAccount \<noteq> AccountStatus.ACTIVE) (Forbidden FORBIDDEN)
        (let order = code_order e payer q dto amount
         in throw_if (\<not> int32 amount) PrismaValidation
           (bindE (createOrder order d) (\<lambda>d1.
              guarded acc_spend (BadRequest INSUFFICIENT_BALANCE) (acc_id payerAccount) amount d1 (\<lambda>d2.
                credit_account (acc_id receiverAccount) amount d2 (\<lambda>updatedReceiver d3.
                  or_throw (account_by_id (acc_id payerAccount) (accounts d3)) TypeError (\<lambda>updatedPayer.
                    Inr ((order, True), code_rows order payer receiver payerAccount receiverAccount
                           (availableBalance updatedPayer) (availableBalance updatedReceiver) d3)))))))))))"

definition code_pay_body ::
  "env \<Rightarrow> User \<Rightarrow> User \<Rightarrow> QrCode \<Rightarrow> PayCodeDto \<Rightarrow> int \<Rightarrow> db \<Rightarrow> exn + ((TransactionOrder \<times> bool) \<times> db)" where
  "code_pay_body e payer receiver q dto amount d =
     (case (if truthy (pcd_idem dto) then find_tx_idem (the (pcd_idem dto)) d else None) of
        Some existing \<Rightarrow>
          throw_if (tx_from existing \<noteq> Some (usr_id payer)) (BadRequest IDEMPOTENCY_KEY_CONFLICT)
            (Inr ((existing, False), d))
      | None \<Rightarrow> code_pay_new e payer receiver q dto amount d)"

text \<open>The catch of P2002 around the transaction: the order with the key, if there is one by now.\<close>

definition on_conflict ::
  "string option \<Rightarrow> (exn + TransactionOrder \<times> bool) \<times> world \<Rightarrow> (exn + TransactionOrder) \<times> world" where
  "on_conflict key m =
     (case m of
        (Inr (order, _), w) \<Rightarrow> (Inr order, w)
      | (Inl err, w) \<Rightarrow>
          (case (if err = P2002 \<and> truthy key then find_tx_idem (the key) (wdb w) else None) of
             Some existing \<Rightarrow> (Inr existing, w)
           | None \<Rightarrow> (Inl err, w)))"

definition code_pay_checked ::
  "env \<Rightarrow> User \<Rightarrow> User \<Rightarrow> QrCode \<Rightarrow> PayCodeDto \<Rightarrow> int \<Rightarrow> world \<Rightarrow> (exn + TransactionOrder) \<times> world" where
  "code_pay_checked e payer receiver q dto amount w =
     andThen (risk_guard (now e)
         \<lparr>ctx_user = usr_id payer, ctx_type = TransactionType.PAYMENT, ctx_amount = amount, ctx_ip = None\<rparr> w) (\<lambda>_ w.
       let runTransaction = (\<lambda>w. on_conflict (pcd_idem dto) (transaction (code_pay_body e payer receiver q dto amount) w))
       in if truthy (pcd_idem dto) then withLock (''qrpay:idem:'' @ the (pcd_idem dto)) runTransaction w
          else runTransaction w)"

text \<open>After the password: the code, its owner, the amount.\<close>

definition code_pay_found :: "env \<Rightarrow> User \<Rightarrow> PayCodeDto \<Rightarrow> world \<Rightarrow> (exn + TransactionOrder) \<times> world" where
  "code_pay_found e payer dto w =
     (case find_qr_code (pcd_code dto) (wdb w) of
        None \<Rightarrow> (Inl (NotFound QR_CODE_INVALID), w)
      | Some q \<Rightarrow>
          if qr_status q \<noteq> QrCodeStatus.ACTIVE then (Inl (NotFound QR_CODE_INVALID), w)
          else if qr_type q = QrCodeType.MERCHANT then (Inl (BadRequest QR_CODE_USE_CASHIER), w)
          else if qr_user q = usr_id payer then (Inl (BadRequest QR_CODE_PAY_SELF), w)
          else (case find_user (qr_user q) (wdb w) of
              None \<Rightarrow> (Inl TypeError, w)
            | Some receiver \<Rightarrow>
                if \<not> may_receive receiver then (Inl (Forbidden FORBIDDEN), w)
                else andThen (code_amount q dto, w) (\<lambda>amount w. code_pay_checked e payer receiver q dto amount w)))"

definition code_pay ::
  "(string \<Rightarrow> string \<Rightarrow> bool) \<Rightarrow> env \<Rightarrow> string \<Rightarrow> PayCodeDto \<Rightarrow> world \<Rightarrow> (exn + TransactionOrder) \<times> world" where
  "code_pay pw_ok e payerId dto w =
     (case find_user payerId (wdb w) of
        None \<Rightarrow> (Inl (NotFound USER_NOT_FOUND), w)
      | Some payer \<Rightarrow>
          if \<not> verified payer then (Inl (Forbidden REAL_NAME_REQUIRED), w)
          else if \<not> may_spend payer then (Inl (Forbidden FORBIDDEN), w)
          else if usr_risk payer = HIGH then (Inl (Forbidden FORBIDDEN), w)
          else andThen (verifyPayPassword pw_ok (now e) payerId (pcd_payPassword dto) w) (\<lambda>_ w.
            code_pay_found e payer dto w))"

subsection \<open>A payment by a code refines a payment\<close>

lemma code_rows_kept: "books_kept d (code_rows order p r pa ra x y d)"
  by (simp add: code_rows_def Let_def books_kept_def add_ledger_def add_bill_def same_holdings_def ledgers_ok_def ledger_ok_def)

lemma code_rows_orders [simp]: "transactionOrders (code_rows order p r pa ra x y d) = transactionOrders d"
  by (simp add: code_rows_def Let_def)

lemma code_pay_new_Inr:
  assumes run: "code_pay_new e p rc q dto n d = Inr ((order, new), d')" and inv: "money_ok d" and n: "0 \<le> n"
  shows "paid (usr_id p) (qr_user q) n n d d'" and new and "order = code_order e p q dto n"
    and "transactionOrders d' = transactionOrders d @ [order]"
proof -
  let ?o = "code_order e p q dto n"
  obtain d1 pa ra d2 where lim: "checkAndIncrementDailyLimit (uuid e 0) (usr_id p) ''PAYMENT'' (utc_day (now e)) n
        (config_limit ''payment_daily_limit'' DEFAULT_PAYMENT_DAILY_LIMIT_CENTS d) d = Inr d1"
    and acc: "account_of (usr_id p) (accounts d1) = Some pa" "account_of (qr_user q) (accounts d1) = Some ra"
    and tx: "createOrder ?o d1 = Inr d2"
    and rest: "guarded acc_spend (BadRequest INSUFFICIENT_BALANCE) (acc_id pa) n d2 (\<lambda>d2.
        bindE (Inr d2) (\<lambda>d2. credit_account (acc_id ra) n d2 (\<lambda>ur d3.
          or_throw (account_by_id (acc_id pa) (accounts d3)) TypeError (\<lambda>up.
            Inr ((?o, True), code_rows ?o p rc pa ra (availableBalance up) (availableBalance ur) d3)))))
      = Inr ((order, new), d')"
    using run by (auto simp: code_pay_new_def Let_def)
  have k2: "books_kept d d2"
    by (rule books_kept_trans [OF daily_limit_kept [OF lim] createOrder_kept [OF tx]]) (simp add: code_order_def n)
  have txs: "transactionOrders d2 = transactionOrders d @ [?o]"
    using tx lim by (auto simp: createOrder_Inr dest!: checkAndIncrementDailyLimit_frame)
  have acc2: "account_of (usr_id p) (accounts d2) = Some pa" "account_of (qr_user q) (accounts d2) = Some ra"
    using acc tx by (auto simp: createOrder_Inr)
  obtain d3 and b' :: Account where d3: "Inr (moved (acc_id pa) (- n) 0 d2) = (Inr d3 :: exn + db)"
    and k: "or_throw (account_by_id (acc_id pa) (accounts (moved (acc_id ra) n 0 d3))) TypeError (\<lambda>up.
        Inr ((?o, True), code_rows ?o p rc pa ra (availableBalance up) (availableBalance b') (moved (acc_id ra) n 0 d3)))
      = Inr ((order, new), d')"
    and "distinct (map pa_code (platformAccounts (moved (acc_id ra) n 0 d3)))"
    and fin: "\<forall>d'. posted (n - n) (moved (acc_id ra) n 0 d3) d' \<longrightarrow> paid (usr_id p) (qr_user q) n n d2 d'"
    and "n \<le> available_of (usr_id p) (accounts d2)"
    by (rule debit_then_credit [OF rest books_kept_money_ok [OF k2 inv] acc2 n n]) auto
  from k obtain x y where d': "order = ?o" new "d' = code_rows ?o p rc pa ra x y (moved (acc_id ra) n 0 d3)" by auto
  show "paid (usr_id p) (qr_user q) n n d d'"
    using fin paid_before [OF k2] posted_none [OF code_rows_kept] by (simp add: d'(3))
  show new "order = ?o" by (rule d')+
  show "transactionOrders d' = transactionOrders d @ [order]" using d3 txs by (auto simp: d'(1,3))
qed

interpretation code_payments: payment_service
  "\<lambda>(e :: env, p :: User, r :: User, q :: QrCode, dto, n). 0 \<le> n"
  "\<lambda>(e, p, r, q, dto, n). code_pay_body e p r q dto n" "\<lambda>p r. snd r"
  "\<lambda>(e, p, r, q, dto, n). usr_id p" "\<lambda>(e, p, r, q, dto, n). qr_user q"
  "\<lambda>(e, p, r, q, dto, n). n" "\<lambda>(e, p, r, q, dto, n). n"
proof unfold_locales
  fix x d d' and res :: "TransactionOrder \<times> bool"
  assume v: "case x of (e, p, r, q, dto, n) \<Rightarrow> 0 \<le> n"
    and run: "(case x of (e, p, r, q, dto, n) \<Rightarrow> code_pay_body e p r q dto n) d = Inr (res, d')" and inv: "money_ok d"
  obtain e p r q dto n where x: "x = (e, p, r, q, dto, n)" by (cases x)
  obtain order new where res: "res = (order, new)" by force
  show "snd res \<Longrightarrow> paid (case x of (e, p, r, q, dto, n) \<Rightarrow> usr_id p) (case x of (e, p, r, q, dto, n) \<Rightarrow> qr_user q)
      (case x of (e, p, r, q, dto, n) \<Rightarrow> n) (case x of (e, p, r, q, dto, n) \<Rightarrow> n) d d'"
    and "\<not> snd res \<Longrightarrow> books_kept d d'"
    using run v code_pay_new_Inr [OF _ inv, of e p r q dto n order new d']
    by (auto simp: x res code_pay_body_def split: option.splits if_splits)
qed

lemma code_amount_Inr: "code_amount q dto = Inr n \<Longrightarrow> 0 < n \<and>
    (if qr_type q = QrCodeType.FIXED_AMOUNT then qr_amount q = Some n else yuanToFen (amount_or_zero (pcd_amount dto)) = Inr n)"
  unfolding code_amount_def by (cases "qr_type q = QrCodeType.FIXED_AMOUNT"; cases "qr_amount q") (fastforce simp: fen_Inr split: if_splits)+

lemma keeps_on_conflict: "keeps P m \<Longrightarrow> keeps P (on_conflict key m)"
  by (auto simp: on_conflict_def keeps_def split: prod.splits sum.splits option.splits)

lemma keeps_code_pay:
  assumes inv: "P (wdb w)" and ev: "ignores_events P"
    and body: "\<And>p r q n d x d'. code_pay_body e p r q dto n d = Inr (x, d') \<Longrightarrow> P d \<Longrightarrow> 0 \<le> n \<Longrightarrow> P d'"
  shows "keeps P (code_pay pw_ok e payerId dto w)"
  unfolding code_pay_def code_pay_found_def code_pay_checked_def Let_def
  apply (intro keep ev keeps_on_conflict)
  apply (simp_all add: inv)
  apply (erule body, assumption, drule code_amount_Inr, simp)+
  done

lemma code_pay_money_ok: "money_ok (wdb w) \<Longrightarrow> keeps money_ok (code_pay pw_ok e payerId dto w)"
  by (rule keeps_code_pay)
    (auto intro: keep code_payments.keeps_money [where p = "(e, p, r, q, dto, n)" for p r q n, simplified])

subsection \<open>What a payment by a code does\<close>

lemma on_conflict_Inr:
  assumes "on_conflict key (transaction f w) = (Inr order, w')"
  shows "(\<exists>new. f (wdb w) = Inr ((order, new), wdb w')) \<or>
    (order \<in> set (transactionOrders (wdb w)) \<and> wdb w' = wdb w)"
  using assms
  by (auto simp: on_conflict_def transaction_def find_tx_idem_def split: sum.splits option.splits if_splits dest: findUnique_in)

lemma code_pay_InrE:
  assumes "code_pay pw_ok e u dto w = (Inr order, w')"
  obtains p r q n evs new where "find_qr_code (pcd_code dto) (wdb w) = Some q" and "qr_status q = QrCodeStatus.ACTIVE"
    and "qr_user q \<noteq> u" and "usr_id p = u" and "code_amount q dto = Inr n"
    and "code_pay_body e p r q dto n (wdb w\<lparr>riskEvents := evs\<rparr>) = Inr ((order, new), wdb w') \<or>
      order \<in> set (transactionOrders (wdb w)) \<and> accounts (wdb w') = accounts (wdb w)"
proof -
  obtain p w1 where p: "find_user u (wdb w) = Some p" and pw: "verifyPayPassword pw_ok (now e) u (pcd_payPassword dto) w = (Inr (), w1)"
    and found: "code_pay_found e p dto w1 = (Inr order, w')"
    using assms by (auto simp: code_pay_def split: option.splits if_splits)
  have w1: "wdb w1 = wdb w" using verifyPayPassword_Inr [OF pw] by simp
  have pu: "usr_id p = u" using p by (auto simp: find_user_def dest: findUnique_SomeD)
  obtain q r n where q: "find_qr_code (pcd_code dto) (wdb w1) = Some q" "qr_status q = QrCodeStatus.ACTIVE" "qr_user q \<noteq> u"
    and n: "code_amount q dto = Inr n" and rest: "code_pay_checked e p r q dto n w1 = (Inr order, w')"
    using found pu by (auto simp: code_pay_found_def split: option.splits if_splits)
  let ?run = "\<lambda>w. on_conflict (pcd_idem dto) (transaction (code_pay_body e p r q dto n) w)"
  obtain w2 where rg: "risk_guard (now e) \<lparr>ctx_user = usr_id p, ctx_type = TransactionType.PAYMENT, ctx_amount = n, ctx_ip = None\<rparr> w1 = (Inr (), w2)"
    and k: "(if truthy (pcd_idem dto) then withLock (''qrpay:idem:'' @ the (pcd_idem dto)) ?run w2 else ?run w2) = (Inr order, w')"
    using rest unfolding code_pay_checked_def Let_def andThen_Inr by auto
  obtain evs where evs: "wdb w2 = wdb w\<lparr>riskEvents := evs\<rparr>" using risk_guard_Inr [OF rg] w1 by auto
  have "\<exists>w3 w4. wdb w3 = wdb w2 \<and> ?run w3 = (Inr order, w4) \<and> wdb w' = wdb w4"
    using k by (auto split: if_splits elim!: withLock_InrE)
  then obtain w3 w4 where w3: "wdb w3 = wdb w2" and run: "?run w3 = (Inr order, w4)" and w4: "wdb w' = wdb w4" by blast
  have fin: "code_pay_body e p r q dto n (wdb w\<lparr>riskEvents := evs\<rparr>) = Inr ((order, new), wdb w') \<or>
      order \<in> set (transactionOrders (wdb w)) \<and> accounts (wdb w') = accounts (wdb w)"
    if "code_pay_body e p r q dto n (wdb w3) = Inr ((order, new), wdb w4) \<or>
      order \<in> set (transactionOrders (wdb w3)) \<and> wdb w4 = wdb w3" for new
    using that by (simp add: w3 w4 evs) auto
  from on_conflict_Inr [OF run] obtain new where "code_pay_body e p r q dto n (wdb w3) = Inr ((order, new), wdb w4) \<or>
      order \<in> set (transactionOrders (wdb w3)) \<and> wdb w4 = wdb w3" by blast
  from that [OF _ q(2,3) pu n fin [OF this]] q(1) show thesis by (simp add: w1)
qed

text \<open>
  A payment by a code that succeeds was for an active code of somebody else; its amount is the code's if the code has one, and
  the payer's otherwise. Either it repeats an earlier request and moves nothing, or it creates one completed order over the amount,
  takes it from the payer, gives it to the owner of the code and leaves every other balance alone.
\<close>

theorem code_payment_moves_money:
  assumes "code_pay pw_ok e u dto w = (Inr order, w')" and "money_ok (wdb w)"
  shows "\<exists>q n. find_qr_code (pcd_code dto) (wdb w) = Some q \<and> qr_status q = QrCodeStatus.ACTIVE \<and> qr_user q \<noteq> u \<and> 0 < n \<and>
    (if qr_type q = QrCodeType.FIXED_AMOUNT then qr_amount q = Some n else yuanToFen (amount_or_zero (pcd_amount dto)) = Inr n) \<and>
    (order \<in> set (transactionOrders (wdb w)) \<and> accounts (wdb w') = accounts (wdb w) \<or>
     transactionOrders (wdb w') = transactionOrders (wdb w) @ [order] \<and> tx_amount order = n \<and> tx_from order = Some u \<and>
     (\<forall>v. available_of v (accounts (wdb w')) = available_of v (accounts (wdb w)) +
        (if v = qr_user q then n else 0) - (if v = u then n else 0)) \<and>
     (\<forall>v. frozen_of v (accounts (wdb w')) = frozen_of v (accounts (wdb w))))"
proof -
  obtain p r q n evs new where q: "find_qr_code (pcd_code dto) (wdb w) = Some q" "qr_status q = QrCodeStatus.ACTIVE" "qr_user q \<noteq> u"
    and p: "usr_id p = u" and n: "code_amount q dto = Inr n"
    and run: "code_pay_body e p r q dto n (wdb w\<lparr>riskEvents := evs\<rparr>) = Inr ((order, new), wdb w') \<or>
      order \<in> set (transactionOrders (wdb w)) \<and> accounts (wdb w') = accounts (wdb w)"
    by (rule code_pay_InrE [OF assms(1)])
  let ?d = "wdb w\<lparr>riskEvents := evs\<rparr>"
  note na = code_amount_Inr [OF n]
  have "order \<in> set (transactionOrders (wdb w)) \<and> accounts (wdb w') = accounts (wdb w) \<or>
     transactionOrders (wdb w') = transactionOrders (wdb w) @ [order] \<and> tx_amount order = n \<and> tx_from order = Some u \<and>
     (\<forall>v. available_of v (accounts (wdb w')) = available_of v (accounts (wdb w)) +
        (if v = qr_user q then n else 0) - (if v = u then n else 0)) \<and>
     (\<forall>v. frozen_of v (accounts (wdb w')) = frozen_of v (accounts (wdb w)))"
    using run
  proof (elim disjE)
    assume run: "code_pay_body e p r q dto n ?d = Inr ((order, new), wdb w')"
    show ?thesis
    proof (cases "if truthy (pcd_idem dto) then find_tx_idem (the (pcd_idem dto)) ?d else None")
      case (Some x)
      with run have "x = order" "wdb w' = ?d" by (auto simp: code_pay_body_def)
      moreover have "x \<in> set (transactionOrders ?d)"
        using Some by (auto simp: find_tx_idem_def split: if_splits dest: findUnique_in)
      ultimately show ?thesis by simp
    next
      case None
      with run have new: "code_pay_new e p r q dto n ?d = Inr ((order, new), wdb w')" by (simp add: code_pay_body_def)
      have inv: "money_ok ?d" using assms(2) money_ok_events by (auto simp: ignores_events_def)
      have "0 \<le> n" using na by simp
      note c = code_pay_new_Inr [OF new inv this]
      show ?thesis using c(3,4) paid_balances [OF c(1) money_okD(1) [OF inv]] p by (simp add: code_order_def)
    qed
  qed blast
  with q na show ?thesis by blast
qed

text \<open>A code of Bob over twelve yuan.\<close>

definition qr_world :: world where
  "qr_world = sample_world\<lparr>wdb := sample_db\<lparr>qrCodes := [\<lparr>qr_id = ''Q1'', qr_code = ''KB-1'', qr_user = ''bob'', qr_merchant = None,
     qr_type = QrCodeType.FIXED_AMOUNT, qr_amount = Some 1200, qr_remark = None, qr_status = QrCodeStatus.ACTIVE\<rparr>]\<rparr>\<rparr>"

definition sample_pay_code :: PayCodeDto where
  "sample_pay_code = \<lparr>pcd_code = ''KB-1'', pcd_amount = Some (Num 1), pcd_remark = None, pcd_payPassword = ''pw'', pcd_idem = None\<rparr>"

lemma qr_world_money_ok: "money_ok (wdb qr_world)"
  by (rule books_kept_money_ok [OF _ sample_money_ok]) (simp add: qr_world_def books_kept_def same_holdings_def ledgers_ok_def)

lemma qr_world_runs: "isl (fst (code_pay (\<lambda>_ _. True) sample_env ''alice'' sample_pay_code qr_world)) = False"
  by code_simp

lemma qr_world_code: "map_option qr_amount (find_qr_code (pcd_code sample_pay_code) (wdb qr_world)) = Some (Some 1200)"
  "map_option qr_type (find_qr_code (pcd_code sample_pay_code) (wdb qr_world)) = Some QrCodeType.FIXED_AMOUNT"
  by code_simp+

corollary code_payment_moves_money_witness:
  "\<exists>order w'. code_pay (\<lambda>_ _. True) sample_env ''alice'' sample_pay_code qr_world = (Inr order, w') \<and>
     (order \<in> set (transactionOrders (wdb qr_world)) \<or> tx_amount order = 1200)"
proof -
  obtain order w' where run: "code_pay (\<lambda>_ _. True) sample_env ''alice'' sample_pay_code qr_world = (Inr order, w')"
    using not_isl_fst [OF qr_world_runs] by blast
  from code_payment_moves_money [OF run qr_world_money_ok] run qr_world_code show ?thesis by auto
qed

end
