(* ===== verification/Referrals.thy ===== *)
theory Referrals
  imports Shifts
begin

text \<open>
  Referrals (referrals/referrals.service.ts): invitation codes, binding an invitee to a referrer, the
  reward of the referrer for a transaction of the invitee, cancelling, statistics.

  The lemmas: a generated code is new, has the length and the letters it should have; an invitee is bound once; a reward
  is paid once, for the configured amount; and what the reward does to the platform's books, which
  no other operation does: it creates money no platform account pays for.
\<close>

definition CODE_ALPHABET :: string where
  "CODE_ALPHABET = ''ABCDEFGHJKMNPQRSTUVWXYZ23456789''"

definition to_upper :: "char \<Rightarrow> char" where
  "to_upper c = (if 97 \<le> (of_char c :: nat) \<and> (of_char c :: nat) \<le> 122 then char_of (of_char c - 32 :: nat) else c)"

record TriggerDto =
  tr_transactionNo :: string
  tr_amount :: "int option"

record ReferralStats =
  rs_total :: nat
  rs_pending :: nat
  rs_completed :: nat
  rs_cancelled :: nat
  rs_totalRewardAmount :: int

definition rc_conflict :: "ReferralCode \<Rightarrow> ReferralCode \<Rightarrow> bool" where
  "rc_conflict r s = (rc_code r = rc_code s \<or> rc_user r = rc_user s)"

definition ref_conflict :: "Referral \<Rightarrow> Referral \<Rightarrow> bool" where
  "ref_conflict r s = (ref_id r = ref_id s \<or> ref_no r = ref_no s \<or> ref_invitee r = ref_invitee s)"

definition find_code :: "string \<Rightarrow> db \<Rightarrow> ReferralCode option" where
  "find_code code d = findUnique (\<lambda>r. rc_code r = code) (referralCodes d)"

definition findMyCode :: "string \<Rightarrow> db \<Rightarrow> ReferralCode option" where
  "findMyCode userId d = findUnique (\<lambda>r. rc_user r = userId) (referralCodes d)"

definition findCodeByCode :: "string \<Rightarrow> db \<Rightarrow> ReferralCode option" where
  "findCodeByCode code d = find_code (map to_upper code) d"

definition referral_of :: "string \<Rightarrow> db \<Rightarrow> Referral option" where
  "referral_of inviteeId d = findUnique (\<lambda>r. ref_invitee r = inviteeId) (referrals d)"

definition find_referral_no :: "string \<Rightarrow> db \<Rightarrow> Referral option" where
  "find_referral_no no d = findUnique (\<lambda>r. ref_no r = no) (referrals d)"

subsection \<open>Codes\<close>

text \<open>\<open>bytes\<close> are the random bytes of one attempt; an index past their end is undefined in the source and cannot occur.\<close>

definition generateCode :: "nat list \<Rightarrow> string" where
  "generateCode bytes =
     map (\<lambda>i. CODE_ALPHABET ! ((bytes ! i) mod length CODE_ALPHABET)) [0 ..< REFERRAL_CODE_LENGTH]"

text \<open>\<open>rnd i\<close> are the bytes of attempt \<open>i\<close>; ten attempts.\<close>

primrec generateUniqueCode :: "(nat \<Rightarrow> nat list) \<Rightarrow> nat \<Rightarrow> nat \<Rightarrow> db \<Rightarrow> exn + string" where
  "generateUniqueCode rnd i 0 d = Inl (ErrorText ''referral code'')"
| "generateUniqueCode rnd i (Suc n) d =
     (let code = generateCode (rnd i)
      in if find_code code d = None then Inr code else generateUniqueCode rnd (Suc i) n d)"

definition create_code :: "(nat \<Rightarrow> nat list) \<Rightarrow> string \<Rightarrow> db \<Rightarrow> exn + (ReferralCode \<times> db)" where
  "create_code rnd userId d =
     (case findMyCode userId d of
        Some again \<Rightarrow> Inr (again, d)
      | None \<Rightarrow>
          bindE (generateUniqueCode rnd 0 10 d) (\<lambda>code.
            let r = \<lparr>rc_code = code, rc_user = userId\<rparr>
            in bindE (create P2002 rc_conflict r (referralCodes d)) (\<lambda>t. Inr (r, d\<lparr>referralCodes := t\<rparr>))))"

definition getOrCreateMyCode :: "(nat \<Rightarrow> nat list) \<Rightarrow> string \<Rightarrow> world \<Rightarrow> (exn + ReferralCode) \<times> world" where
  "getOrCreateMyCode rnd userId w =
     (case findMyCode userId (wdb w) of
        Some existing \<Rightarrow> (Inr existing, w)
      | None \<Rightarrow> withLock (''referral:code:create:'' @ userId) (transaction (create_code rnd userId)) w)"

subsection \<open>Binding and cancelling\<close>

definition bind_body :: "env \<Rightarrow> string \<Rightarrow> string \<Rightarrow> db \<Rightarrow> exn + (Referral \<times> db)" where
  "bind_body e referrerId inviteeId d =
     throw_if (referral_of inviteeId d \<noteq> None) (BadRequest REFERRAL_ALREADY_BOUND)
      (let r = \<lparr>ref_id = uuid e 0, ref_no = generateOrderNo e 0 ''REF'', ref_referrer = referrerId,
             ref_invitee = inviteeId, ref_status = ReferralStatus.PENDING, ref_rewardAmount = 0, ref_triggerTx = None,
             ref_completedAt = None, ref_cancelledAt = None\<rparr>
       in bindE (create P2002 ref_conflict r (referrals d)) (\<lambda>t. Inr (r, d\<lparr>referrals := t\<rparr>)))"

definition bindInvitee :: "env \<Rightarrow> string \<Rightarrow> string \<Rightarrow> world \<Rightarrow> (exn + Referral) \<times> world" where
  "bindInvitee e inviteeId code w =
     (case findCodeByCode code (wdb w) of
        None \<Rightarrow> (Inl (NotFound REFERRAL_CODE_NOT_FOUND), w)
      | Some referrerCode \<Rightarrow>
          if rc_user referrerCode = inviteeId then (Inl (BadRequest REFERRAL_CANNOT_SELF), w)
          else if 0 < MAX_REFERRALS_PER_USER \<and>
              MAX_REFERRALS_PER_USER \<le> int (length (filter (\<lambda>r. ref_referrer r = rc_user referrerCode) (referrals (wdb w))))
          then (Inl (BadRequest FORBIDDEN), w)
          else withLock (''referral:bind:'' @ inviteeId) (transaction (bind_body e (rc_user referrerCode) inviteeId)) w)"

definition update_referral :: "string \<Rightarrow> (Referral \<Rightarrow> Referral) \<Rightarrow> db \<Rightarrow> exn + (Referral \<times> db)" where
  "update_referral i f d =
     bindE (updateOne P2025 IntOutOfRange (\<lambda>r. int32 (ref_rewardAmount r)) (\<lambda>r. ref_id r = i) f (referrals d))
       (\<lambda>(r, t). Inr (r, d\<lparr>referrals := t\<rparr>))"

definition cancel_referral :: "env \<Rightarrow> string \<Rightarrow> string \<Rightarrow> db \<Rightarrow> exn + (Referral \<times> db)" where
  "cancel_referral e referrerId no d =
     or_throw (find_referral_no no d) (NotFound REFERRAL_NOT_FOUND) (\<lambda>referral.
       throw_if (ref_referrer referral \<noteq> referrerId) (Forbidden FORBIDDEN)
      (throw_if (ref_status referral \<noteq> ReferralStatus.PENDING) (BadRequest REFERRAL_STATUS_INVALID)
        (update_referral (ref_id referral)
          (\<lambda>r. r\<lparr>ref_status := ReferralStatus.CANCELLED, ref_cancelledAt := Some (now e)\<rparr>) d)))"

subsection \<open>The reward\<close>

definition find_order :: "string \<Rightarrow> db \<Rightarrow> TransactionOrder option" where
  "find_order no d = findUnique (\<lambda>r. tx_orderNo r = no \<or> tx_id r = no) (transactionOrders d)"

text \<open>The checks on the transaction that triggers the reward; its amount is the request's, if it states one.\<close>

definition trigger_check :: "string \<Rightarrow> TriggerDto \<Rightarrow> db \<Rightarrow> exn + unit" where
  "trigger_check inviteeId dto d =
     or_throw (find_order (tr_transactionNo dto) d) (BadRequest REFERRAL_TRIGGER_INVALID) (\<lambda>order.
       throw_if (tx_status order \<noteq> TransactionStatus.SUCCESS) (BadRequest REFERRAL_TRIGGER_INVALID)
      (throw_if (tx_type order \<notin> {TransactionType.RECHARGE, TransactionType.PAYMENT, TransactionType.TRANSFER,
                   TransactionType.RED_PACKET}) (BadRequest REFERRAL_TRIGGER_INVALID)
      (throw_if (\<not> (tx_from order = Some inviteeId \<or> tx_to order = Some inviteeId)) (Forbidden FORBIDDEN)
      (let txAmount = (case tr_amount dto of Some n \<Rightarrow> n | None \<Rightarrow> tx_amount order)
       in throw_if (txAmount < REFERRAL_TRIGGER_MIN_AMOUNT_CENTS) (BadRequest REFERRAL_TRIGGER_INVALID) (Inr ())))))"

definition reward_amount :: "db \<Rightarrow> int" where
  "reward_amount d =
     (case findUnique (\<lambda>c. cfg_key c = ''referral_reward_amount'') (systemConfigs d) of
        None \<Rightarrow> DEFAULT_REFERRAL_REWARD_CENTS
      | Some c \<Rightarrow> (case js_number (cfg_value c) of
            Num x \<Rightarrow> (let parsed = js_round (js_mul x 100)
                      in if 0 < parsed then min parsed MAX_REFERRAL_REWARD_CENTS else DEFAULT_REFERRAL_REWARD_CENTS)
          | _ \<Rightarrow> DEFAULT_REFERRAL_REWARD_CENTS))"

text \<open>The rows of a reward. The ledger row carries the direction \<open>CREDIT\<close>, as the source writes it.\<close>

definition reward_rows :: "env \<Rightarrow> Referral \<Rightarrow> int \<Rightarrow> Account \<Rightarrow> int \<Rightarrow> db \<Rightarrow> exn + db" where
  "reward_rows e referral n acc after d =
     (let order = \<lparr>tx_id = uuid e 0, tx_orderNo = generateOrderNo e 0 ''RWD'', tx_type = TransactionType.RECHARGE,
            tx_status = TransactionStatus.SUCCESS, tx_amount = n, tx_fee = 0, tx_from = None,
            tx_to = Some (ref_referrer referral), tx_remark = RewardRemark (ref_no referral),
            tx_related = Some (ref_no referral), tx_idem = None, tx_channel = None, tx_channelOrderNo = None,
            tx_createdAt = now e, tx_completedAt = Some (now e)\<rparr>
      in bindE (createOrder order d) (\<lambda>d1.
         Inr (add_bill \<lparr>bill_user = ref_referrer referral, bill_transaction = tx_id order,
                bill_type = BillType.REFERRAL_REWARD, bill_direction = INCOME, bill_amount = n, bill_counterparty = None\<rparr>
           (add_ledger \<lparr>led_account = acc_id acc, led_transaction = tx_id order, led_type = LedgerType.REFERRAL_REWARD,
                led_amount = n, led_before = after - n, led_after = after, led_direction = CREDIT\<rparr> d1))))"

definition reward_body :: "env \<Rightarrow> string \<Rightarrow> TriggerDto \<Rightarrow> db \<Rightarrow> exn + (Referral \<times> db)" where
  "reward_body e inviteeId dto d =
     or_throw (referral_of inviteeId d) (NotFound REFERRAL_NOT_FOUND) (\<lambda>referral.
       throw_if (ref_status referral \<noteq> ReferralStatus.PENDING) (BadRequest REFERRAL_NOT_PENDING)
      (bindE (trigger_check inviteeId dto d) (\<lambda>_.
         let n = reward_amount d
         in or_throw (account_of (ref_referrer referral) (accounts d)) (NotFound ACCOUNT_NOT_FOUND) (\<lambda>acc.
              throw_if (acc_status acc \<noteq> AccountStatus.ACTIVE) (Forbidden FORBIDDEN)
             (or_throw (find_user (ref_referrer referral) d) (NotFound USER_NOT_FOUND) (\<lambda>referrer.
                throw_if (\<not> verified referrer) (Forbidden REAL_NAME_REQUIRED)
               (throw_if (\<not> may_receive referrer) (Forbidden FORBIDDEN)
               (credit_account (acc_id acc) n d (\<lambda>updated d1.
                  bindE (reward_rows e referral n acc (availableBalance updated) d1) (\<lambda>d2.
                    update_referral (ref_id referral)
                      (\<lambda>r. r\<lparr>ref_status := ReferralStatus.COMPLETED, ref_rewardAmount := n,
                             ref_triggerTx := Some (tr_transactionNo dto), ref_completedAt := Some (now e)\<rparr>) d2))))))))))"

definition triggerReward :: "env \<Rightarrow> string \<Rightarrow> TriggerDto \<Rightarrow> world \<Rightarrow> (exn + Referral) \<times> world" where
  "triggerReward e inviteeId dto = withLock (''referral:reward:'' @ inviteeId) (transaction (reward_body e inviteeId dto))"

subsection \<open>Queries\<close>

definition findByReferralNo :: "string \<Rightarrow> db \<Rightarrow> exn + Referral" where
  "findByReferralNo no d = or_throw (find_referral_no no d) (NotFound REFERRAL_NOT_FOUND) Inr"

definition getStats :: "string \<Rightarrow> db \<Rightarrow> ReferralStats" where
  "getStats referrerId d =
     (let mine = filter (\<lambda>r. ref_referrer r = referrerId) (referrals d);
          count = (\<lambda>st. length (filter (\<lambda>r. ref_status r = st) mine))
      in \<lparr>rs_total = length mine, rs_pending = count ReferralStatus.PENDING, rs_completed = count ReferralStatus.COMPLETED,
          rs_cancelled = count ReferralStatus.CANCELLED,
          rs_totalRewardAmount = sum_list (map ref_rewardAmount (filter (\<lambda>r. ref_status r = ReferralStatus.COMPLETED) mine))\<rparr>)"

subsection \<open>Codes are fresh\<close>

text \<open>Whatever the random bytes, there are enough of them and every index is inside the alphabet.\<close>

lemma generateCode_shape: "length (generateCode bytes) = REFERRAL_CODE_LENGTH" "set (generateCode bytes) \<subseteq> set CODE_ALPHABET"
proof -
  have "CODE_ALPHABET ! (k mod length CODE_ALPHABET) \<in> set CODE_ALPHABET" for k
    by (intro nth_mem mod_less_divisor) (simp add: CODE_ALPHABET_def)
  then show "set (generateCode bytes) \<subseteq> set CODE_ALPHABET" unfolding generateCode_def by auto
qed (simp add: generateCode_def)

lemma generateUniqueCode_fresh:
  "generateUniqueCode rnd i n d = Inr code \<Longrightarrow>
     find_code code d = None \<and> length code = REFERRAL_CODE_LENGTH \<and> set code \<subseteq> set CODE_ALPHABET"
  by (induction n arbitrary: i) (auto simp: Let_def generateCode_shape split: if_splits dest: subsetD [OF generateCode_shape(2)])

text \<open>Ten attempts all fail only when each of the ten codes is taken.\<close>

lemma generateUniqueCode_fails:
  "generateUniqueCode rnd i n d = Inl err \<Longrightarrow> k < n \<Longrightarrow> find_code (generateCode (rnd (i + k))) d \<noteq> None"
proof (induction n arbitrary: i k)
  case (Suc n)
  then have f: "find_code (generateCode (rnd i)) d \<noteq> None" "generateUniqueCode rnd (Suc i) n d = Inl err"
    by (auto simp: Let_def split: if_splits)
  show ?case
  proof (cases k)
    case 0
    with f(1) show ?thesis by simp
  next
    case (Suc k')
    with Suc.IH [OF f(2), of k'] Suc.prems(2) show ?thesis by simp
  qed
qed simp

subsection \<open>The requests that move no money\<close>

inductive referral_request :: "world \<Rightarrow> world \<Rightarrow> bool" where
  "referral_request w (snd (getOrCreateMyCode rnd u w))"
| "referral_request w (snd (bindInvitee e u code w))"
| "referral_request w (snd (transaction (cancel_referral e u no) w))"

lemma referral_bodies_kept:
  "create_code rnd u d = Inr (x, d') \<Longrightarrow> books_kept d d'"
  "bind_body e i u d = Inr (y, d') \<Longrightarrow> books_kept d d'"
  "cancel_referral e u no d = Inr (y, d') \<Longrightarrow> books_kept d d'"
  by (auto simp: create_code_def bind_body_def cancel_referral_def update_referral_def Let_def books_kept_def
      same_holdings_def ledgers_ok_def split: option.splits)

lemma referral_request_kept:
  assumes "referral_request w w'"
  shows "books_kept (wdb w) (wdb w')"
proof -
  have "keeps (books_kept (wdb w)) (getOrCreateMyCode rnd u w)" for rnd u
    unfolding getOrCreateMyCode_def by (intro keep) (auto dest: referral_bodies_kept intro: books_kept_trans)
  moreover have "keeps (books_kept (wdb w)) (bindInvitee e u code w)" for e u code
    unfolding bindInvitee_def by (intro keep) (auto dest: referral_bodies_kept intro: books_kept_trans)
  moreover have "keeps (books_kept (wdb w)) (transaction (cancel_referral e u no) w)" for e u no
    by (intro keep) (auto dest: referral_bodies_kept intro: books_kept_trans)
  ultimately show ?thesis using assms by (auto simp: keeps_def elim: referral_request.cases)
qed

subsection \<open>The reward\<close>

lemma reward_amount_bounds: "0 < reward_amount d \<and> reward_amount d \<le> MAX_REFERRAL_REWARD_CENTS"
  by (auto simp: reward_amount_def Let_def DEFAULT_REFERRAL_REWARD_CENTS_def MAX_REFERRAL_REWARD_CENTS_def
      split: option.splits jsnum.splits)

lemma reward_rows_Inr:
  assumes "reward_rows e r n a after d = Inr d'"
  shows "accounts d' = accounts d" and "referrals d' = referrals d" and "platformAccounts d' = platformAccounts d"
    and "withdrawalOrders d' = withdrawalOrders d" and "n \<noteq> 0 \<Longrightarrow> \<not> ledgers_ok d'"
  using assms
  by (auto simp: reward_rows_def Let_def createOrder_Inr add_ledger_def add_bill_def ledgers_ok_def ledger_ok_def)

lemma reward_body_Inr:
  assumes run: "reward_body e u dto d = Inr (r, d')" and ok: "accounts_ok (accounts d)"
  obtains a s where "referral_of u d = Some s" and "ref_status s = ReferralStatus.PENDING" and "trigger_check u dto d = Inr ()"
    and "account_of (ref_referrer s) (accounts d) = Some a"
    and "accounts d' = move_funds (acc_id a) (reward_amount d) 0 (accounts d)" and "accounts_ok (accounts d')"
    and "ref_status r = ReferralStatus.COMPLETED" and "ref_rewardAmount r = reward_amount d"
    and "\<exists>x. referral_of u d' = Some x \<and> ref_status x = ReferralStatus.COMPLETED" and "platformAccounts d' = platformAccounts d"
    and "withdrawalOrders d' = withdrawalOrders d" and "\<not> ledgers_ok d'"
proof -
  let ?n = "reward_amount d"
  let ?f = "\<lambda>r. r\<lparr>ref_status := ReferralStatus.COMPLETED, ref_rewardAmount := ?n,
    ref_triggerTx := Some (tr_transactionNo dto), ref_completedAt := Some (now e)\<rparr>"
  obtain s a where s: "referral_of u d = Some s" "ref_status s = ReferralStatus.PENDING" "trigger_check u dto d = Inr ()"
    and a: "account_of (ref_referrer s) (accounts d) = Some a"
    and k: "credit_account (acc_id a) ?n d (\<lambda>up d1. bindE (reward_rows e s ?n a (availableBalance up) d1)
      (\<lambda>d2. update_referral (ref_id s) ?f d2)) = Inr (r, d')"
    using run by (auto simp: reward_body_def Let_def)
  have n: "0 \<le> ?n" "?n \<noteq> 0" using reward_amount_bounds [of d] by auto
  note cr = credit_account_Inr [OF ok account_of_by_id [OF ok a] n(1) k]
  let ?d1 = "moved (acc_id a) ?n 0 d"
  obtain d2 where rows: "reward_rows e s ?n a (availableBalance (move ?n 0 a)) ?d1 = Inr d2"
    and up: "update_referral (ref_id s) ?f d2 = Inr (r, d')"
    using cr(1) by auto
  note rw = reward_rows_Inr [OF rows]
  obtain r0 where r0: "findUnique (\<lambda>x. ref_id x = ref_id s) (referrals d) = Some r0" "r = ?f r0"
    and d': "d' = d2\<lparr>referrals := updateRows (\<lambda>x. ref_id x = ref_id s) ?f (referrals d)\<rparr>"
    using up rw(2) by (auto simp: update_referral_def)
  have f: "referral_of u d' = Some (?f s)"
    using s(1) rw(2) unfolding referral_of_def d' by (simp add: findUnique_updateRows)
  show thesis
  proof (rule that [of s a])
    show "\<exists>x. referral_of u d' = Some x \<and> ref_status x = ReferralStatus.COMPLETED" using f by simp
    show "\<not> ledgers_ok d'" using rw(5) n by (simp add: d' ledgers_ok_def)
  qed (use s a rw cr(2) r0(2) in \<open>simp_all add: d'\<close>)
qed

text \<open>
  A reward that succeeds was for a pending referral and credits its referrer, and nobody else, with exactly the configured amount,
  at least one fen and at most the maximum; afterwards no request for the same invitee is rewarded again.
\<close>

theorem referral_rewarded_once:
  assumes "reward_body e u dto d = Inr (r, d')" and "accounts_ok (accounts d)"
  shows "\<exists>s. referral_of u d = Some s \<and> ref_status s = ReferralStatus.PENDING \<and>
    0 < reward_amount d \<and> reward_amount d \<le> MAX_REFERRAL_REWARD_CENTS \<and>
    (\<forall>v. available_of v (accounts d') = available_of v (accounts d) + (if v = ref_referrer s then reward_amount d else 0)) \<and>
    (\<forall>v. frozen_of v (accounts d') = frozen_of v (accounts d)) \<and>
    reward_body e' u dto' d' = Inl (BadRequest REFERRAL_NOT_PENDING)"
proof -
  obtain a s where s: "referral_of u d = Some s" "ref_status s = ReferralStatus.PENDING"
    and a: "account_of (ref_referrer s) (accounts d) = Some a"
    and acc: "accounts d' = move_funds (acc_id a) (reward_amount d) 0 (accounts d)"
    and fin: "\<exists>x. referral_of u d' = Some x \<and> ref_status x = ReferralStatus.COMPLETED"
    by (rule reward_body_Inr [OF assms]) blast
  have "acc_user a = ref_referrer s" using account_of_SomeD [OF a] by simp
  with s reward_amount_bounds [of d] fin move_funds_by_id [OF assms(2) account_of_by_id [OF assms(2) a]] show ?thesis
    by (auto simp: acc reward_body_def)
qed

text \<open>
  The reward comes from nowhere: on consistent books it leaves the platform accounts short of what the users hold, by the
  reward, and adds a ledger row whose direction contradicts its balances.
\<close>

theorem referral_reward_unbacked:
  assumes "reward_body e u dto d = Inr (r, d')" and "money_ok d"
  shows "total_assets (accounts d') + in_transit (withdrawalOrders d') = platform_total d' + reward_amount d \<and>
    \<not> solvent d' \<and> \<not> ledgers_ok d'"
proof -
  have ok: "accounts_ok (accounts d)" and sol: "solvent d" using assms(2) by (auto simp: money_ok_def books_ok_def)
  obtain a and s :: Referral where a: "account_of (ref_referrer s) (accounts d) = Some a"
    and acc: "accounts d' = move_funds (acc_id a) (reward_amount d) 0 (accounts d)"
    and pl: "platformAccounts d' = platformAccounts d" "withdrawalOrders d' = withdrawalOrders d" "\<not> ledgers_ok d'"
    by (rule reward_body_Inr [OF assms(1) ok]) blast
  have "total_assets (accounts d') = total_assets (accounts d) + reward_amount d"
    using move_funds_by_id [OF ok account_of_by_id [OF ok a]] by (simp add: acc)
  with sol pl reward_amount_bounds [of d] show ?thesis by (simp add: solvent_def platform_total_def)
qed

text \<open>
  The amount the invitee states replaces the amount of the transaction in the threshold, however small the transaction was.
\<close>

lemma stated_amount_counts:
  assumes "find_order (tr_transactionNo dto) d = Some order" and "tx_status order = TransactionStatus.SUCCESS"
    and "tx_type order = TransactionType.TRANSFER" and "tx_from order = Some u" and "tr_amount dto = Some n"
    and "REFERRAL_TRIGGER_MIN_AMOUNT_CENTS \<le> n"
  shows "trigger_check u dto d = Inr ()"
  using assms by (simp add: trigger_check_def)

text \<open>Alice invited Bob, who has recharged his account.\<close>

definition sample_trigger :: TriggerDto where
  "sample_trigger = \<lparr>tr_transactionNo = ''R1'', tr_amount = None\<rparr>"

definition referral_db :: db where
  "referral_db = sample_db\<lparr>transactionOrders := [sample_recharge\<lparr>tx_status := TransactionStatus.SUCCESS\<rparr>],
     referrals := [\<lparr>ref_id = ''F1'', ref_no = ''REF1'', ref_referrer = ''alice'', ref_invitee = ''bob'',
       ref_status = ReferralStatus.PENDING, ref_rewardAmount = 0, ref_triggerTx = None, ref_completedAt = None,
       ref_cancelledAt = None\<rparr>]\<rparr>"

lemma referral_db_money_ok: "money_ok referral_db"
  by (rule books_kept_money_ok [OF _ sample_money_ok])
    (simp add: referral_db_def sample_defs books_kept_def same_holdings_def ledgers_ok_def orders_ok_def)

lemma referral_db_runs: "isl (reward_body sample_env ''bob'' sample_trigger referral_db) = False"
  by code_simp

lemma referral_db_amount: "reward_amount referral_db = 1000"
  by code_simp

corollary referral_rewarded_once_witness:
  "\<exists>r d'. reward_body sample_env ''bob'' sample_trigger referral_db = Inr (r, d') \<and>
     reward_body sample_env ''bob'' sample_trigger d' = Inl (BadRequest REFERRAL_NOT_PENDING)"
proof -
  obtain r d' where run: "reward_body sample_env ''bob'' sample_trigger referral_db = Inr (r, d')"
    using not_isl_pair [OF referral_db_runs] by blast
  from referral_rewarded_once [OF run money_okD(1) [OF referral_db_money_ok], of sample_env sample_trigger] run
  show ?thesis by auto
qed

corollary referral_reward_unbacked_witness:
  "\<exists>r d'. reward_body sample_env ''bob'' sample_trigger referral_db = Inr (r, d') \<and>
     total_assets (accounts d') + in_transit (withdrawalOrders d') = platform_total d' + 1000 \<and> \<not> solvent d'"
proof -
  obtain r d' where run: "reward_body sample_env ''bob'' sample_trigger referral_db = Inr (r, d')"
    using not_isl_pair [OF referral_db_runs] by blast
  from referral_reward_unbacked [OF run referral_db_money_ok] run show ?thesis
    by (auto simp: referral_db_amount)
qed

end
