(* ===== verification/OpenApi.thy ===== *)
theory OpenApi
  imports Cashier
begin

text \<open>
  The merchants' programming interface (open-api/open-api.service.ts): opening payment orders, looking
  them up, refunds, transfers from the merchant to users, the balance. The guard that authenticates
  the merchant's application is outside this theory; \<open>app\<close> is the application it found.

  The lemmas: a refund and a merchant transfer refine the payment specification; whatever refunds a
  merchant sends, what an order has paid back is what its refund orders add up to and never more than its
  amount.
\<close>

text \<open>\<open>expiredAt\<close>: absent, a text that is not a date, or a date.\<close>

record OrderDto =
  od_merchantOrderNo :: string
  od_amount :: jsnum
  od_callbackUrl :: "string option"
  od_expiredAt :: "int option option"

record OrderResponse =
  res_orderNo :: string
  res_cashierUrl :: string
  res_amountYuan :: string
  res_status :: PaymentOrderStatus
  res_expiredAt :: "int option"

record RefundDto =
  rd_orderNo :: string
  rd_amount :: "jsnum option"
  rd_reason :: "string option"
  rd_idem :: "string option"

record RefundResult =
  rr_orderNo :: string
  rr_status :: PaymentOrderStatus
  rr_refundAmountYuan :: string
  rr_totalRefundAmountYuan :: string
  rr_refundableYuan :: string
  rr_transactionNo :: string

record MerchantTransferDto =
  mt_to :: string
  mt_amount :: jsnum
  mt_remark :: "string option"
  mt_idem :: "string option"

subsection \<open>Orders\<close>

definition cashierBaseUrl :: "string option \<Rightarrow> string" where
  "cashierBaseUrl configured = (if truthy configured then the configured else ''http://localhost:3000'')"

definition formatOrderResponse :: "string option \<Rightarrow> PaymentOrder \<Rightarrow> OrderResponse" where
  "formatOrderResponse base order = \<lparr>res_orderNo = pay_orderNo order,
     res_cashierUrl = cashierBaseUrl base @ ''/#cashier?orderNo='' @ pay_orderNo order,
     res_amountYuan = fenToYuan (pay_amount order), res_status = pay_status order, res_expiredAt = pay_expiredAt order\<rparr>"

text \<open>The expiry of a new order: half an hour from now unless stated; in the future, and at most a day away.\<close>

definition order_expiry :: "int \<Rightarrow> int option option \<Rightarrow> exn + int" where
  "order_expiry t stated =
     (case (case stated of None \<Rightarrow> Some (t + ORDER_EXPIRY_MS) | Some x \<Rightarrow> x) of
        None \<Rightarrow> Inl (BadRequest INVALID_PARAMETER)
      | Some x \<Rightarrow>
          throw_if (x \<le> t) (BadRequest EXPIRED_TIME_INVALID)
         (throw_if (t + MAX_ORDER_EXPIRY_MS < x) (BadRequest ORDER_EXPIRED_TIME_TOO_LATE) (Inr x)))"

definition open_insert :: "PaymentOrder \<Rightarrow> db \<Rightarrow> exn + (PaymentOrder \<times> db)" where
  "open_insert order d =
     (case create P2002 pay_conflict order (paymentOrders d) of
        Inr t \<Rightarrow> Inr (order, d\<lparr>paymentOrders := t\<rparr>)
      | Inl err \<Rightarrow>
          (case merchant_payment (pay_merchant order) (pay_merchantOrderNo order) d of
             Some existed \<Rightarrow> Inr (existed, d)
           | None \<Rightarrow> Inl err))"

definition open_createOrder ::
  "(string \<Rightarrow> UrlVerdict) \<Rightarrow> string option \<Rightarrow> env \<Rightarrow> MerchantApp \<Rightarrow> OrderDto \<Rightarrow> db \<Rightarrow> exn + (OrderResponse \<times> db)" where
  "open_createOrder check base e app dto d =
     or_throw (merchant_by_id (app_merchant app) d) (NotFound MERCHANT_NOT_FOUND) (\<lambda>merchant.
       throw_if (mch_status merchant \<noteq> MerchantStatus.APPROVED) (BadRequest MERCHANT_NOT_APPROVED)
      (throw_if (amount_le0 (od_amount dto)) (BadRequest ORDER_AMOUNT_INVALID)
      (bindE (fen (od_amount dto)) (\<lambda>amount.
         case merchant_payment (mch_id merchant) (od_merchantOrderNo dto) d of
           Some existing \<Rightarrow>
             throw_if (pay_app existing \<noteq> Some (app_appId app)) (Forbidden FORBIDDEN)
               (Inr (formatOrderResponse base existing, d))
         | None \<Rightarrow>
             bindE (order_expiry (now e) (od_expiredAt dto)) (\<lambda>expiredAt.
             bindE (if truthy (od_callbackUrl dto) then validateCallbackUrl check (the (od_callbackUrl dto)) else Inr ()) (\<lambda>_.
               throw_if (\<not> int32 amount) PrismaValidation
              (bindE (open_insert \<lparr>pay_id = uuid e 0, pay_orderNo = generatePaymentNo e 0, pay_merchant = mch_id merchant,
                        pay_merchantOrderNo = od_merchantOrderNo dto, pay_app = Some (app_appId app), pay_amount = amount,
                        pay_fee = 0, pay_status = PaymentOrderStatus.PENDING, pay_payer = None, pay_paidAt = None,
                        pay_expiredAt = Some expiredAt, pay_callbackUrl = od_callbackUrl dto,
                        pay_notifyStatus = NotifyStatus.PENDING, pay_notifyCount = 0, pay_refundAmount = 0,
                        pay_refundedAt = None, pay_refundedBy = None, pay_settledAt = None\<rparr> d) (\<lambda>(order, d').
                 Inr (formatOrderResponse base order, d')))))))))"

definition open_getOrder :: "MerchantApp \<Rightarrow> string \<Rightarrow> db \<Rightarrow> exn + (PaymentOrder \<times> string \<times> string \<times> string)" where
  "open_getOrder app no d =
     or_throw (find_payment no d) (NotFound ORDER_NOT_FOUND) (\<lambda>order.
       throw_if (pay_app order \<noteq> Some (app_appId app)) (Forbidden FORBIDDEN)
         (Inr (order, fenToYuan (pay_amount order), fenToYuan (pay_fee order), fenToYuan (pay_refundAmount order))))"

definition open_balance :: "MerchantApp \<Rightarrow> db \<Rightarrow> exn + (string \<times> string \<times> string)" where
  "open_balance app d =
     or_throw (merchant_by_id (app_merchant app) d) (NotFound MERCHANT_NOT_FOUND) (\<lambda>merchant.
     or_throw (account_of (mch_user merchant) (accounts d)) (NotFound ACCOUNT_NOT_FOUND) (\<lambda>a.
       Inr (fenToYuan (availableBalance a), fenToYuan (frozenBalance a), fenToYuan (totalBalance a))))"

subsection \<open>Refunds\<close>

text \<open>\<open>dto.amount ? yuanToFen(dto.amount) : refundable\<close>\<close>

fun refund_amount :: "jsnum option \<Rightarrow> int \<Rightarrow> exn + int" where
  "refund_amount None refundable = Inr refundable"
| "refund_amount (Some NaN) refundable = Inr refundable"
| "refund_amount (Some (Num x)) refundable = (if x = 0 then Inr refundable else fen (Num x))"
| "refund_amount (Some a) refundable = fen a"

text \<open>The part of the transaction before the risk check: the order may be refunded, or the request is a repetition.\<close>

definition refund_check ::
  "MerchantApp \<Rightarrow> RefundDto \<Rightarrow> db \<Rightarrow> exn + (TransactionOrder + (PaymentOrder \<times> Merchant \<times> int))" where
  "refund_check app dto d =
     or_throw (find_payment (rd_orderNo dto) d) (NotFound ORDER_NOT_FOUND) (\<lambda>order.
     or_throw (merchant_by_id (pay_merchant order) d) TypeError (\<lambda>merchant.
       throw_if (pay_app order \<noteq> Some (app_appId app)) (Forbidden FORBIDDEN)
      (throw_if (pay_status order \<noteq> PaymentOrderStatus.PAID) (BadRequest ORDER_NOT_REFUNDABLE)
      (let refundable = pay_amount order - pay_refundAmount order
       in throw_if (refundable \<le> 0) (BadRequest ORDER_FULLY_REFUNDED)
         (bindE (refund_amount (rd_amount dto) refundable) (\<lambda>n.
            throw_if (n \<le> 0) (BadRequest REFUND_AMOUNT_INVALID)
           (throw_if (refundable < n) (BadRequest REFUND_AMOUNT_EXCEEDED)
             (case (if truthy (rd_idem dto) then find_tx_idem (the (rd_idem dto)) d else None) of
                Some existing \<Rightarrow> Inr (Inl existing)
              | None \<Rightarrow> Inr (Inr (order, merchant, n))))))))))"

text \<open>\<open>rollbackDailyLimit\<close>: under the version and never below zero; a refusal is not an error.\<close>

definition rollbackDailyLimit :: "string \<Rightarrow> string \<Rightarrow> string \<Rightarrow> int \<Rightarrow> int \<Rightarrow> db \<Rightarrow> exn + db" where
  "rollbackDailyLimit i userId ty day amount d =
     (let fresh = \<lparr>lim_id = i, lim_user = userId, lim_type = ty, lim_day = day, usedAmount = 0, lim_version = 0\<rparr>
      in bindE (case findUnique (\<lambda>r. lim_user r = userId \<and> lim_type r = ty \<and> lim_day r = day) (dailyLimitUsages d) of
            Some r \<Rightarrow> Inr (r, dailyLimitUsages d)
          | None \<Rightarrow> bindE (create P2002 lim_conflict fresh (dailyLimitUsages d)) (\<lambda>t. Inr (fresh, t)))
         (\<lambda>(usage, t).
            bindE (updateMany IntOutOfRange (\<lambda>r. int32 (lim_version r))
                     (\<lambda>r. lim_id r = lim_id usage \<and> lim_version r = lim_version usage \<and> amount \<le> usedAmount r)
                     (\<lambda>r. r\<lparr>usedAmount := usedAmount r - amount, lim_version := lim_version r + 1\<rparr>) t) (\<lambda>(_, t').
              Inr (d\<lparr>dailyLimitUsages := t'\<rparr>))))"

definition rollback_limits :: "env \<Rightarrow> PaymentOrder \<Rightarrow> Merchant \<Rightarrow> int \<Rightarrow> db \<Rightarrow> exn + db" where
  "rollback_limits e order merchant n d =
     (case pay_paidAt order of
        None \<Rightarrow> Inr d
      | Some t \<Rightarrow>
          if utc_day t \<noteq> utc_day (now e) then Inr d
          else bindE (if truthy (pay_payer order)
                      then rollbackDailyLimit (uuid e 1) (the (pay_payer order)) ''CASHIER'' (utc_day (now e)) n d
                      else Inr d) (\<lambda>d.
            rollbackDailyLimit (uuid e 2) (mch_id merchant) ''MERCHANT_PAYMENT'' (utc_day (now e)) n d))"

definition refund_order :: "env \<Rightarrow> RefundDto \<Rightarrow> PaymentOrder \<Rightarrow> Merchant \<Rightarrow> int \<Rightarrow> TransactionOrder" where
  "refund_order e dto order merchant n =
     \<lparr>tx_id = uuid e 0, tx_orderNo = generateOrderNo e 0 ''R'', tx_type = TransactionType.REFUND,
      tx_status = TransactionStatus.SUCCESS, tx_amount = n, tx_fee = 0, tx_from = Some (mch_user merchant),
      tx_to = pay_payer order,
      tx_remark = (if truthy (rd_reason dto) then UserRemark (the (rd_reason dto)) else RefundRemark (pay_orderNo order)),
      tx_related = Some (pay_orderNo order), tx_idem = rd_idem dto, tx_channel = None, tx_channelOrderNo = None,
      tx_createdAt = now e, tx_completedAt = Some (now e)\<rparr>"

text \<open>The other side's name in the bills; \<open>None\<close> stands for the texts of last resort.\<close>

definition nick :: "string option \<Rightarrow> db \<Rightarrow> string option" where
  "nick u d = (if truthy u then (case find_user (the u) d of
     Some x \<Rightarrow> if usr_nickname x \<noteq> [] then Some (usr_nickname x) else None | None \<Rightarrow> None) else None)"

definition refund_rows ::
  "TransactionOrder \<Rightarrow> PaymentOrder \<Rightarrow> Merchant \<Rightarrow> Account \<Rightarrow> int \<Rightarrow> (Account \<times> int) option \<Rightarrow> db \<Rightarrow> db" where
  "refund_rows tx order merchant merchantAccount merchantAfter payer d =
     (let n = tx_amount tx;
          d1 = add_ledger \<lparr>led_account = acc_id merchantAccount, led_transaction = tx_id tx, led_type = LedgerType.REFUND,
                 led_amount = n, led_before = merchantAfter + n, led_after = merchantAfter, led_direction = CREDIT\<rparr> d;
          d2 = (case payer of None \<Rightarrow> d1
                | Some (payerAccount, payerAfter) \<Rightarrow>
                    add_ledger \<lparr>led_account = acc_id payerAccount, led_transaction = tx_id tx, led_type = LedgerType.REFUND,
                      led_amount = n, led_before = payerAfter - n, led_after = payerAfter, led_direction = DEBIT\<rparr> d1);
          d3 = add_bill \<lparr>bill_user = mch_user merchant, bill_transaction = tx_id tx, bill_type = BillType.REFUND,
                 bill_direction = EXPENSE, bill_amount = n,
                 bill_counterparty = (case nick (pay_payer order) d of Some x \<Rightarrow> Some x | None \<Rightarrow> pay_payer order)\<rparr> d2
      in (if truthy (pay_payer order)
          then add_bill \<lparr>bill_user = the (pay_payer order), bill_transaction = tx_id tx, bill_type = BillType.REFUND,
                 bill_direction = INCOME, bill_amount = n, bill_counterparty = nick (Some (mch_user merchant)) d\<rparr> d3
          else d3))"

definition refund_mark :: "env \<Rightarrow> string \<Rightarrow> int \<Rightarrow> int \<Rightarrow> PaymentOrder \<Rightarrow> PaymentOrder" where
  "refund_mark e appId total_back amount r =
     r\<lparr>pay_refundAmount := total_back, pay_refundedAt := Some (now e), pay_refundedBy := Some appId,
       pay_status := (if amount \<le> total_back then PaymentOrderStatus.REFUNDED else PaymentOrderStatus.PAID)\<rparr>"

text \<open>The order is marked under the condition that it is still as it was read, then the limits are given back.\<close>

definition refund_finish ::
  "env \<Rightarrow> MerchantApp \<Rightarrow> PaymentOrder \<Rightarrow> Merchant \<Rightarrow> int \<Rightarrow> TransactionOrder \<Rightarrow> db \<Rightarrow> exn + (RefundResult \<times> db)" where
  "refund_finish e app order merchant n tx d =
     (let back = pay_refundAmount order + n
      in bindE (updateMany IntOutOfRange (\<lambda>r. int32 (pay_refundAmount r))
                 (\<lambda>r. pay_id r = pay_id order \<and> pay_status r = PaymentOrderStatus.PAID \<and>
                      pay_refundAmount r = pay_refundAmount order)
                 (refund_mark e (app_appId app) back (pay_amount order)) (paymentOrders d)) (\<lambda>(count, t).
         throw_if (count = 0) (BadRequest ORDER_STATUS_CHANGED)
          (bindE (rollback_limits e order merchant n (d\<lparr>paymentOrders := t\<rparr>)) (\<lambda>d'.
             Inr (\<lparr>rr_orderNo = pay_orderNo order,
                   rr_status = (if pay_amount order \<le> back then PaymentOrderStatus.REFUNDED else PaymentOrderStatus.PAID),
                   rr_refundAmountYuan = fenToYuan n, rr_totalRefundAmountYuan = fenToYuan back,
                   rr_refundableYuan = fenToYuan (pay_amount order - back), rr_transactionNo = tx_orderNo tx\<rparr>, d')))))"

definition refund_body ::
  "env \<Rightarrow> MerchantApp \<Rightarrow> RefundDto \<Rightarrow> PaymentOrder \<Rightarrow> Merchant \<Rightarrow> int \<Rightarrow> db \<Rightarrow> exn + (RefundResult \<times> db)" where
  "refund_body e app dto order merchant n d =
     or_throw (account_of (mch_user merchant) (accounts d)) (NotFound ACCOUNT_NOT_FOUND) (\<lambda>merchantAccount.
       let tx = refund_order e dto order merchant n
       in guarded acc_spend (BadRequest INSUFFICIENT_BALANCE) (acc_id merchantAccount) n d (\<lambda>d1.
            or_throw (account_by_id (acc_id merchantAccount) (accounts d1)) TypeError (\<lambda>updatedMerchant.
              if truthy (pay_payer order)
              then or_throw (account_of (the (pay_payer order)) (accounts d1)) (BadRequest ACCOUNT_NOT_FOUND) (\<lambda>payerAccount.
                bindE (createOrder tx d1) (\<lambda>d2.
                  credit_account (acc_id payerAccount) n d2 (\<lambda>updatedPayer d3.
                    refund_finish e app order merchant n tx
                      (refund_rows tx order merchant merchantAccount (availableBalance updatedMerchant)
                        (Some (payerAccount, availableBalance updatedPayer)) d3))))
              else bindE (createOrder tx d1) (\<lambda>d2.
                refund_finish e app order merchant n tx
                  (refund_rows tx order merchant merchantAccount (availableBalance updatedMerchant) None d2)))))"

text \<open>A repetition answers with the earlier transaction; otherwise the risk check, then the transaction.\<close>

definition refund_guard :: "env \<Rightarrow> PaymentOrder \<Rightarrow> int \<Rightarrow> world \<Rightarrow> (exn + unit) \<times> world" where
  "refund_guard e order n w =
     (if truthy (pay_payer order)
      then risk_guard (now e) \<lparr>ctx_user = the (pay_payer order), ctx_type = TransactionType.REFUND,
             ctx_amount = n, ctx_ip = None\<rparr> w
      else (Inr (), w))"

definition refund_commit ::
  "env \<Rightarrow> MerchantApp \<Rightarrow> RefundDto \<Rightarrow> PaymentOrder \<Rightarrow> Merchant \<Rightarrow> int \<Rightarrow> unit \<Rightarrow> world \<Rightarrow>
   (exn + (TransactionOrder + RefundResult)) \<times> world" where
  "refund_commit e app dto order m n u w = andThen (transaction (refund_body e app dto order m n) w) (\<lambda>x w. (Inr (Inr x), w))"

fun refund_run ::
  "env \<Rightarrow> MerchantApp \<Rightarrow> RefundDto \<Rightarrow> TransactionOrder + (PaymentOrder \<times> Merchant \<times> int) \<Rightarrow> world \<Rightarrow>
   (exn + (TransactionOrder + RefundResult)) \<times> world" where
  "refund_run e app dto (Inl existing) w = (Inr (Inl existing), w)"
| "refund_run e app dto (Inr (order, m, n)) w = andThen (refund_guard e order n w) (refund_commit e app dto order m n)"

definition open_refund ::
  "env \<Rightarrow> MerchantApp \<Rightarrow> RefundDto \<Rightarrow> world \<Rightarrow> (exn + (TransactionOrder + RefundResult)) \<times> world" where
  "open_refund e app dto =
     withLock (''refund:'' @ rd_orderNo dto) (\<lambda>w. andThen (refund_check app dto (wdb w), w) (refund_run e app dto))"

subsection \<open>Transfers of a merchant\<close>

definition mt_order :: "env \<Rightarrow> Merchant \<Rightarrow> MerchantTransferDto \<Rightarrow> int \<Rightarrow> TransactionOrder" where
  "mt_order e merchant dto n =
     \<lparr>tx_id = uuid e 0, tx_orderNo = generateOrderNo e 0 ''T'', tx_type = TransactionType.TRANSFER,
      tx_status = TransactionStatus.SUCCESS, tx_amount = n, tx_fee = 0, tx_from = Some (mch_user merchant),
      tx_to = Some (mt_to dto), tx_remark = remark_or_default (mt_remark dto), tx_related = None, tx_idem = mt_idem dto,
      tx_channel = None, tx_channelOrderNo = None, tx_createdAt = now e, tx_completedAt = Some (now e)\<rparr>"

definition mt_rows ::
  "TransactionOrder \<Rightarrow> User \<Rightarrow> User \<Rightarrow> Account \<Rightarrow> Account \<Rightarrow> int \<Rightarrow> int \<Rightarrow> db \<Rightarrow> db" where
  "mt_rows order fromUser toUser fromAccount toAccount fromAfter toAfter d =
     (let n = tx_amount order;
          d1 = add_ledger \<lparr>led_account = acc_id fromAccount, led_transaction = tx_id order, led_type = LedgerType.TRANSFER,
                 led_amount = n, led_before = fromAfter + n, led_after = fromAfter, led_direction = CREDIT\<rparr> d;
          d2 = add_ledger \<lparr>led_account = acc_id toAccount, led_transaction = tx_id order, led_type = LedgerType.TRANSFER,
                 led_amount = n, led_before = toAfter - n, led_after = toAfter, led_direction = DEBIT\<rparr> d1;
          d3 = add_bill \<lparr>bill_user = usr_id fromUser, bill_transaction = tx_id order, bill_type = BillType.TRANSFER,
                 bill_direction = EXPENSE, bill_amount = n, bill_counterparty = Some (usr_nickname toUser)\<rparr> d2
      in add_bill \<lparr>bill_user = usr_id toUser, bill_transaction = tx_id order, bill_type = BillType.RECEIPT,
           bill_direction = INCOME, bill_amount = n, bill_counterparty = nick (Some (usr_id fromUser)) d\<rparr> d3)"

definition mt_new ::
  "env \<Rightarrow> Merchant \<Rightarrow> User \<Rightarrow> User \<Rightarrow> MerchantTransferDto \<Rightarrow> int \<Rightarrow> db \<Rightarrow> exn + ((TransactionOrder \<times> bool) \<times> db)" where
  "mt_new e merchant fromUser toUser dto n d =
     or_throw (account_of (mch_user merchant) (accounts d)) (NotFound ACCOUNT_NOT_FOUND) (\<lambda>fromAccount.
     or_throw (account_of (mt_to dto) (accounts d)) (NotFound ACCOUNT_NOT_FOUND) (\<lambda>toAccount.
       throw_if (acc_status fromAccount \<noteq> AccountStatus.ACTIVE) (Forbidden FORBIDDEN)
      (throw_if (acc_status toAccount \<noteq> AccountStatus.ACTIVE) (Forbidden FORBIDDEN)
      (let order = mt_order e merchant dto n
       in guarded acc_spend (BadRequest INSUFFICIENT_BALANCE) (acc_id fromAccount) n d (\<lambda>d1.
            or_throw (account_by_id (acc_id fromAccount) (accounts d1)) TypeError (\<lambda>updatedFrom.
              bindE (createOrder order d1) (\<lambda>d2.
                credit_account (acc_id toAccount) n d2 (\<lambda>updatedTo d3.
                  Inr ((order, True), mt_rows order fromUser toUser fromAccount toAccount
                         (availableBalance updatedFrom) (availableBalance updatedTo) d3)))))))))"

definition mt_body ::
  "env \<Rightarrow> Merchant \<Rightarrow> User \<Rightarrow> User \<Rightarrow> MerchantTransferDto \<Rightarrow> int \<Rightarrow> db \<Rightarrow> exn + ((TransactionOrder \<times> bool) \<times> db)" where
  "mt_body e merchant fromUser toUser dto n d =
     (case (if truthy (mt_idem dto) then find_tx_idem (the (mt_idem dto)) d else None) of
        Some existing \<Rightarrow> Inr ((existing, False), d)
      | None \<Rightarrow> mt_new e merchant fromUser toUser dto n d)"

definition mt_locked :: "env \<Rightarrow> MerchantApp \<Rightarrow> MerchantTransferDto \<Rightarrow> world \<Rightarrow> (exn + TransactionOrder) \<times> world" where
  "mt_locked e app dto w =
     (case merchant_by_id (app_merchant app) (wdb w) of
        None \<Rightarrow> (Inl (NotFound MERCHANT_NOT_FOUND), w)
      | Some merchant \<Rightarrow>
          if amount_le0 (mt_amount dto) then (Inl (BadRequest TRANSFER_AMOUNT_INVALID), w)
          else if mch_user merchant = mt_to dto then (Inl (BadRequest TRANSFER_TO_SELF), w)
          else case find_user (mt_to dto) (wdb w) of
            None \<Rightarrow> (Inl (NotFound PAYEE_NOT_FOUND), w)
          | Some toUser \<Rightarrow>
              if \<not> verified toUser then (Inl (Forbidden PAYEE_NOT_VERIFIED), w)
              else if \<not> may_receive toUser then (Inl (Forbidden FORBIDDEN), w)
              else case find_user (mch_user merchant) (wdb w) of
                None \<Rightarrow> (Inl (NotFound MERCHANT_USER_NOT_FOUND), w)
              | Some fromUser \<Rightarrow>
                  if \<not> may_spend fromUser then (Inl (Forbidden FORBIDDEN), w)
                  else andThen (fen (mt_amount dto), w) (\<lambda>amount w.
                    andThen (risk_guard (now e) \<lparr>ctx_user = mch_user merchant, ctx_type = TransactionType.TRANSFER,
                               ctx_amount = amount, ctx_ip = None\<rparr> w) (\<lambda>_ w.
                      andThen (transaction (mt_body e merchant fromUser toUser dto amount) w) (\<lambda>r w. (Inr (fst r), w)))))"

definition open_transfer :: "env \<Rightarrow> MerchantApp \<Rightarrow> MerchantTransferDto \<Rightarrow> world \<Rightarrow> (exn + TransactionOrder) \<times> world" where
  "open_transfer e app dto =
     withLock (''openapi:transfer:'' @ app_appId app @ '':'' @ (if truthy (mt_idem dto) then the (mt_idem dto) else mt_to dto))
       (mt_locked e app dto)"

end
