(* ===== verification/OpenApiSafety.thy ===== *)
theory OpenApiSafety
  imports OpenApi
begin

text \<open>
  What the merchants' interface does to balances and orders: a refund and a merchant transfer refine a payment, and the
  invariant that ties what an order has paid back to the refunds that were made for it.
\<close>

subsection \<open>The statements of a refund\<close>

lemma guarded_spend_moved:
  assumes run: "guarded acc_spend err (acc_id a) n d k = Inr r" and ok: "accounts_ok (accounts d)"
    and a: "account_of u (accounts d) = Some a" and n: "0 \<le> n"
  shows "k (moved (acc_id a) (- n) 0 d) = Inr r"
    and "k' (moved (acc_id a) (- n) 0 d) = Inr s \<Longrightarrow> guarded acc_spend err (acc_id a) n d k' = Inr s"
proof -
  show "k (moved (acc_id a) (- n) 0 d) = Inr r" by (rule spend.guarded_Inr(1) [OF ok account_of_by_id [OF ok a] n run])
  obtain c t where st: "acc_spend (acc_id a) n (accounts d) = Inr (c, t)" "c \<noteq> 0"
    using run by (auto simp: guarded_def)
  have "a \<in> set (accounts d)" using account_of_SomeD [OF a] by simp
  from spend.moves(1) [OF ok this st n] st
  show "k' (moved (acc_id a) (- n) 0 d) = Inr s \<Longrightarrow> guarded acc_spend err (acc_id a) n d k' = Inr s"
    by (simp add: guarded_def moved_def)
qed

lemma refund_rows_kept:
  "books_kept d (refund_rows tx order m ma x p d)" "transactionOrders (refund_rows tx order m ma x p d) = transactionOrders d"
  "paymentOrders (refund_rows tx order m ma x p d) = paymentOrders d"
  by (auto simp: refund_rows_def Let_def books_kept_def add_ledger_def add_bill_def same_holdings_def ledgers_ok_def
      ledger_ok_def split: option.split)

lemma rollbackDailyLimit_frame: "rollbackDailyLimit i u ty day n d = Inr d' \<Longrightarrow> \<exists>t. d' = d\<lparr>dailyLimitUsages := t\<rparr>"
  by (auto simp: rollbackDailyLimit_def Let_def split: option.splits)

lemma rollback_limits_frame: "rollback_limits e order m n d = Inr d' \<Longrightarrow> \<exists>t. d' = d\<lparr>dailyLimitUsages := t\<rparr>"
  by (auto simp: rollback_limits_def intro: exI [of _ "dailyLimitUsages d"] dest!: rollbackDailyLimit_frame
      split: option.splits if_splits)

definition refundable_row :: "PaymentOrder \<Rightarrow> PaymentOrder \<Rightarrow> bool" where
  "refundable_row order r = (pay_id r = pay_id order \<and> pay_status r = PaymentOrderStatus.PAID \<and>
     pay_refundAmount r = pay_refundAmount order)"

lemma refund_finish_Inr:
  assumes "refund_finish e app order m n tx d = Inr (x, d')"
  shows "books_kept d d'" and "transactionOrders d' = transactionOrders d"
    and "paymentOrders d' = updateRows (refundable_row order)
      (refund_mark e (app_appId app) (pay_refundAmount order + n) (pay_amount order)) (paymentOrders d)"
    and "\<exists>r \<in> set (paymentOrders d). refundable_row order r"
proof -
  let ?f = "refund_mark e (app_appId app) (pay_refundAmount order + n) (pay_amount order)"
  let ?d = "d\<lparr>paymentOrders := updateRows (refundable_row order) ?f (paymentOrders d)\<rparr>"
  have hit: "filter (refundable_row order) (paymentOrders d) \<noteq> []" and rb: "rollback_limits e order m n ?d = Inr d'"
    using assms by (auto simp: refund_finish_def Let_def refundable_row_def [abs_def])
  obtain t where d': "d' = ?d\<lparr>dailyLimitUsages := t\<rparr>" using rollback_limits_frame [OF rb] by blast
  then show "books_kept d d'" "transactionOrders d' = transactionOrders d"
    "paymentOrders d' = updateRows (refundable_row order) ?f (paymentOrders d)"
    by (simp_all add: books_kept_def same_holdings_def ledgers_ok_def)
  show "\<exists>r \<in> set (paymentOrders d). refundable_row order r" using hit by (auto simp: filter_empty_conv)
qed

subsection \<open>A refund refines a payment\<close>

lemma refund_body_Inr:
  assumes run: "refund_body e app dto order m n d = Inr (x, d')" and inv: "money_ok d" and n: "0 \<le> n"
    and payer: "truthy (pay_payer order)"
  shows "paid (mch_user m) (the (pay_payer order)) n n d d'"
    and "transactionOrders d' = transactionOrders d @ [refund_order e dto order m n]"
    and "paymentOrders d' = updateRows (refundable_row order)
      (refund_mark e (app_appId app) (pay_refundAmount order + n) (pay_amount order)) (paymentOrders d)"
    and "\<exists>r \<in> set (paymentOrders d). refundable_row order r"
proof -
  note ok = money_okD(1) [OF inv]
  let ?tx = "refund_order e dto order m n" and ?u = "mch_user m" and ?v = "the (pay_payer order)"
  obtain a where a: "account_of ?u (accounts d) = Some a"
    and g: "guarded acc_spend (BadRequest INSUFFICIENT_BALANCE) (acc_id a) n d (\<lambda>d1.
        or_throw (account_by_id (acc_id a) (accounts d1)) TypeError (\<lambda>up.
          or_throw (account_of ?v (accounts d1)) (BadRequest ACCOUNT_NOT_FOUND) (\<lambda>pa.
            bindE (createOrder ?tx d1) (\<lambda>d2. credit_account (acc_id pa) n d2 (\<lambda>ub d3.
              refund_finish e app order m n ?tx (refund_rows ?tx order m a (availableBalance up)
                (Some (pa, availableBalance ub)) d3)))))) = Inr (x, d')"
    using run payer by (auto simp: refund_body_def Let_def)
  let ?d1 = "moved (acc_id a) (- n) 0 d"
  obtain up :: Account and pa where pa: "account_of ?v (accounts ?d1) = Some pa"
    and k: "bindE (createOrder ?tx ?d1) (\<lambda>d2. credit_account (acc_id pa) n d2 (\<lambda>ub d3.
        refund_finish e app order m n ?tx (refund_rows ?tx order m a (availableBalance up)
          (Some (pa, availableBalance ub)) d3))) = Inr (x, d')"
    using guarded_spend_moved(1) [OF g ok a n] by auto
  obtain b where b: "account_of ?v (accounts d) = Some b" "acc_id b = acc_id pa"
    using pa by (auto simp: account_of_move split: if_splits)
  have g': "guarded acc_spend (BadRequest INSUFFICIENT_BALANCE) (acc_id a) n d (\<lambda>d1.
      bindE (createOrder ?tx d1) (\<lambda>d2. credit_account (acc_id b) n d2 (\<lambda>ub d3.
        refund_finish e app order m n ?tx (refund_rows ?tx order m a (availableBalance up)
          (Some (pa, availableBalance ub)) d3)))) = Inr (x, d')"
    by (rule guarded_spend_moved(2) [OF g ok a n]) (simp only: b(2) k)
  have kept: "books_kept d1 d2" if "createOrder ?tx d1 = Inr d2" for d1 d2
    by (rule createOrder_kept [OF that]) (simp add: refund_order_def n)
  obtain d2 and b' :: Account where tx: "createOrder ?tx ?d1 = Inr d2"
    and fin: "refund_finish e app order m n ?tx (refund_rows ?tx order m a (availableBalance up)
        (Some (pa, availableBalance b')) (moved (acc_id b) n 0 d2)) = Inr (x, d')"
    and "distinct (map pa_code (platformAccounts (moved (acc_id b) n 0 d2)))"
    and pays: "\<forall>d'. posted (n - n) (moved (acc_id b) n 0 d2) d' \<longrightarrow> paid ?u ?v n n d d'"
    and "n \<le> available_of ?u (accounts d)"
    by (rule debit_then_credit [OF g' inv a b(1) n n kept])
  note rf = refund_finish_Inr [OF fin]
  have "books_kept (moved (acc_id b) n 0 d2) d'"
    using books_kept_trans [OF refund_rows_kept(1) rf(1)] .
  with pays show "paid ?u ?v n n d d'" by (simp add: posted_none)
  show "transactionOrders d' = transactionOrders d @ [?tx]"
    using rf(2) tx by (simp add: refund_rows_kept createOrder_Inr)
  show "paymentOrders d' = updateRows (refundable_row order)
      (refund_mark e (app_appId app) (pay_refundAmount order + n) (pay_amount order)) (paymentOrders d)"
    and "\<exists>r \<in> set (paymentOrders d). refundable_row order r"
    using rf(3,4) tx by (simp_all add: refund_rows_kept createOrder_Inr)
qed

interpretation refunds: payment_service
  "\<lambda>(e :: env, app, dto, order, m :: Merchant, n). 0 \<le> n \<and> truthy (pay_payer order)"
  "\<lambda>(e, app, dto, order, m, n). refund_body e app dto order m n" "\<lambda>p r. True"
  "\<lambda>(e, app, dto, order, m, n). mch_user m" "\<lambda>(e, app, dto, order, m, n). the (pay_payer order)"
  "\<lambda>(e, app, dto, order, m, n). n" "\<lambda>(e, app, dto, order, m, n). n"
  by unfold_locales (auto intro: refund_body_Inr(1))

subsection \<open>A merchant transfer refines a payment\<close>

lemma mt_rows_kept:
  "books_kept d (mt_rows tx fu tu fa ta x y d)" "transactionOrders (mt_rows tx fu tu fa ta x y d) = transactionOrders d"
  "paymentOrders (mt_rows tx fu tu fa ta x y d) = paymentOrders d"
  by (auto simp: mt_rows_def Let_def books_kept_def add_ledger_def add_bill_def same_holdings_def ledgers_ok_def ledger_ok_def)

lemma mt_new_Inr:
  assumes run: "mt_new e m fu tu dto n d = Inr (x, d')" and inv: "money_ok d" and n: "0 \<le> n"
  shows "paid (mch_user m) (mt_to dto) n n d d'" and "x = (mt_order e m dto n, True)"
    and "transactionOrders d' = transactionOrders d @ [mt_order e m dto n]" and "paymentOrders d' = paymentOrders d"
proof -
  note ok = money_okD(1) [OF inv]
  let ?tx = "mt_order e m dto n"
  obtain a b where a: "account_of (mch_user m) (accounts d) = Some a" and b: "account_of (mt_to dto) (accounts d) = Some b"
    and g: "guarded acc_spend (BadRequest INSUFFICIENT_BALANCE) (acc_id a) n d (\<lambda>d1.
        or_throw (account_by_id (acc_id a) (accounts d1)) TypeError (\<lambda>up.
          bindE (createOrder ?tx d1) (\<lambda>d2. credit_account (acc_id b) n d2 (\<lambda>ub d3.
            Inr ((?tx, True), mt_rows ?tx fu tu a b (availableBalance up) (availableBalance ub) d3))))) = Inr (x, d')"
    using run by (auto simp: mt_new_def Let_def)
  let ?d1 = "moved (acc_id a) (- n) 0 d"
  obtain up :: Account where k: "bindE (createOrder ?tx ?d1) (\<lambda>d2. credit_account (acc_id b) n d2 (\<lambda>ub d3.
        Inr ((?tx, True), mt_rows ?tx fu tu a b (availableBalance up) (availableBalance ub) d3))) = Inr (x, d')"
    using guarded_spend_moved(1) [OF g ok a n] by auto
  have g': "guarded acc_spend (BadRequest INSUFFICIENT_BALANCE) (acc_id a) n d (\<lambda>d1.
      bindE (createOrder ?tx d1) (\<lambda>d2. credit_account (acc_id b) n d2 (\<lambda>ub d3.
        Inr ((?tx, True), mt_rows ?tx fu tu a b (availableBalance up) (availableBalance ub) d3)))) = Inr (x, d')"
    by (rule guarded_spend_moved(2) [OF g ok a n]) (rule k)
  have kept: "books_kept d1 d2" if "createOrder ?tx d1 = Inr d2" for d1 d2
    by (rule createOrder_kept [OF that]) (simp add: mt_order_def n)
  obtain d2 and b' :: Account where tx: "createOrder ?tx ?d1 = Inr d2"
    and fin: "Inr ((?tx, True), mt_rows ?tx fu tu a b (availableBalance up) (availableBalance b') (moved (acc_id b) n 0 d2)) =
      (Inr (x, d') :: exn + ((TransactionOrder \<times> bool) \<times> db))"
    and "distinct (map pa_code (platformAccounts (moved (acc_id b) n 0 d2)))"
    and pays: "\<forall>d'. posted (n - n) (moved (acc_id b) n 0 d2) d' \<longrightarrow> paid (mch_user m) (mt_to dto) n n d d'"
    and "n \<le> available_of (mch_user m) (accounts d)"
    by (rule debit_then_credit [OF g' inv a b n n kept])
  have d': "x = (?tx, True)"
    "d' = mt_rows ?tx fu tu a b (availableBalance up) (availableBalance b') (moved (acc_id b) n 0 d2)"
    using fin by auto
  show "paid (mch_user m) (mt_to dto) n n d d'" using pays posted_none [OF mt_rows_kept(1)] by (simp add: d'(2))
  show "x = (?tx, True)" by (rule d')
  show "transactionOrders d' = transactionOrders d @ [?tx]" "paymentOrders d' = paymentOrders d"
    using tx by (simp_all add: d'(2) mt_rows_kept createOrder_Inr)
qed

interpretation merchant_transfers: payment_service
  "\<lambda>(e :: env, m :: Merchant, fu :: User, tu :: User, dto, n). 0 \<le> n"
  "\<lambda>(e, m, fu, tu, dto, n). mt_body e m fu tu dto n" "\<lambda>p r. snd r"
  "\<lambda>(e, m, fu, tu, dto, n). mch_user m" "\<lambda>(e, m, fu, tu, dto, n). mt_to dto"
  "\<lambda>(e, m, fu, tu, dto, n). n" "\<lambda>(e, m, fu, tu, dto, n). n"
proof unfold_locales
  fix x d d' and res :: "TransactionOrder \<times> bool"
  assume v: "case x of (e, m, fu, tu, dto, n) \<Rightarrow> 0 \<le> n"
    and run: "(case x of (e, m, fu, tu, dto, n) \<Rightarrow> mt_body e m fu tu dto n) d = Inr (res, d')" and inv: "money_ok d"
  obtain e m fu tu dto n where x: "x = (e, m, fu, tu, dto, n)" by (cases x)
  obtain order new where res: "res = (order, new)" by force
  show "snd res \<Longrightarrow> paid (case x of (e, m, fu, tu, dto, n) \<Rightarrow> mch_user m) (case x of (e, m, fu, tu, dto, n) \<Rightarrow> mt_to dto)
      (case x of (e, m, fu, tu, dto, n) \<Rightarrow> n) (case x of (e, m, fu, tu, dto, n) \<Rightarrow> n) d d'"
    and "\<not> snd res \<Longrightarrow> books_kept d d'"
    using run v mt_new_Inr(1,2) [OF _ inv, of e m fu tu dto n "(order, new)" d']
    by (auto simp: x res mt_body_def split: option.splits if_splits)
qed

subsection \<open>What an order has paid back\<close>

definition is_refund_of :: "string \<Rightarrow> TransactionOrder \<Rightarrow> bool" where
  "is_refund_of no tx = (tx_type tx = TransactionType.REFUND \<and> tx_related tx = Some no)"

definition refunded :: "string \<Rightarrow> TransactionOrder list \<Rightarrow> int" where
  "refunded no t = sum_list (map tx_amount (filter (is_refund_of no) t))"

definition order_refunds_ok :: "TransactionOrder list \<Rightarrow> PaymentOrder \<Rightarrow> bool" where
  "order_refunds_ok t r = (0 \<le> pay_refundAmount r \<and> pay_refundAmount r \<le> pay_amount r \<and>
     pay_refundAmount r = refunded (pay_orderNo r) t \<and>
     (pay_status r = PaymentOrderStatus.PAID \<longrightarrow> truthy (pay_payer r)) \<and>
     (pay_status r = PaymentOrderStatus.REFUNDED \<longrightarrow> pay_refundAmount r = pay_amount r))"

definition refunds_ok :: "db \<Rightarrow> bool" where
  "refunds_ok d = (distinct (map pay_id (paymentOrders d)) \<and> distinct (map pay_orderNo (paymentOrders d)) \<and>
     (\<forall>r \<in> set (paymentOrders d). order_refunds_ok (transactionOrders d) r) \<and>
     (\<forall>tx \<in> set (transactionOrders d). tx_type tx = TransactionType.REFUND \<longrightarrow>
        tx_related tx \<in> Some ` pay_orderNo ` set (paymentOrders d)))"

lemma refunds_okD:
  assumes "refunds_ok d"
  shows "distinct (map pay_id (paymentOrders d))" and "distinct (map pay_orderNo (paymentOrders d))"
    and "r \<in> set (paymentOrders d) \<Longrightarrow> order_refunds_ok (transactionOrders d) r"
    and "tx \<in> set (transactionOrders d) \<Longrightarrow> tx_type tx = TransactionType.REFUND \<Longrightarrow>
      tx_related tx \<in> Some ` pay_orderNo ` set (paymentOrders d)"
  using assms unfolding refunds_ok_def by blast+

lemma refunded_append: "refunded no (t @ [tx]) = refunded no t + (if is_refund_of no tx then tx_amount tx else 0)"
  by (simp add: refunded_def)

lemma refunds_ok_cong:
  "paymentOrders d' = paymentOrders d \<Longrightarrow> transactionOrders d' = transactionOrders d \<Longrightarrow> refunds_ok d \<Longrightarrow> refunds_ok d'"
  by (simp add: refunds_ok_def)

text \<open>An order of another kind.\<close>

lemma refunds_ok_order:
  assumes "refunds_ok d" and "transactionOrders d' = transactionOrders d @ [tx]" and "tx_type tx \<noteq> TransactionType.REFUND"
    and "paymentOrders d' = paymentOrders d"
  shows "refunds_ok d'"
  using assms by (auto simp: refunds_ok_def order_refunds_ok_def refunded_append is_refund_of_def)

text \<open>A change of payment orders that leaves what was paid back alone.\<close>

lemma refunds_ok_update:
  assumes ok: "refunds_ok d" and d': "paymentOrders d' = updateRows P f (paymentOrders d)" "transactionOrders d' = transactionOrders d"
    and key: "\<And>r. pay_id (f r) = pay_id r \<and> pay_orderNo (f r) = pay_orderNo r"
    and row: "\<And>r. r \<in> set (paymentOrders d) \<Longrightarrow> P r \<Longrightarrow> order_refunds_ok (transactionOrders d) r \<Longrightarrow>
      order_refunds_ok (transactionOrders d) (f r)"
  shows "refunds_ok d'"
proof -
  have ids: "map pay_id (paymentOrders d') = map pay_id (paymentOrders d)"
    "map pay_orderNo (paymentOrders d') = map pay_orderNo (paymentOrders d)"
    unfolding d'(1) using key by (simp_all add: map_updateRows_frame)
  then have "pay_orderNo ` set (paymentOrders d') = pay_orderNo ` set (paymentOrders d)" by (metis list.set_map)
  moreover have "order_refunds_ok (transactionOrders d) r" if "r \<in> set (paymentOrders d')" for r
    using that refunds_okD(3) [OF ok] row unfolding d'(1) by (auto elim!: in_updateRowsE)
  ultimately show ?thesis using ok ids by (simp add: refunds_ok_def d'(2))
qed

lemma refunds_ok_new:
  assumes ok: "refunds_ok d" and d': "paymentOrders d' = paymentOrders d @ [r]" "transactionOrders d' = transactionOrders d"
    and new: "\<forall>s \<in> set (paymentOrders d). \<not> pay_conflict r s" and r: "pay_refundAmount r = 0" "0 \<le> pay_amount r"
    and st: "pay_status r = PaymentOrderStatus.PENDING"
  shows "refunds_ok d'"
proof -
  have fresh: "pay_id r \<notin> pay_id ` set (paymentOrders d)" "pay_orderNo r \<notin> pay_orderNo ` set (paymentOrders d)"
    using new by (auto simp: pay_conflict_def)
  have "\<not> is_refund_of (pay_orderNo r) tx" if "tx \<in> set (transactionOrders d)" for tx
    using refunds_okD(4) [OF ok that] fresh(2) by (auto simp: is_refund_of_def)
  then have "filter (is_refund_of (pay_orderNo r)) (transactionOrders d) = []" by (simp add: filter_empty_conv)
  then have "order_refunds_ok (transactionOrders d) r" using r st by (simp add: order_refunds_ok_def refunded_def)
  then show ?thesis using ok fresh by (auto simp: refunds_ok_def d')
qed

text \<open>The refund itself: its order and the mark in the row go together.\<close>

lemma refunds_ok_refund:
  assumes ok: "refunds_ok d" and tx: "transactionOrders d' = transactionOrders d @ [tx]"
    and rf: "is_refund_of (pay_orderNo order) tx" "0 \<le> tx_amount tx"
    and po: "paymentOrders d' = updateRows (refundable_row order)
      (refund_mark e i (pay_refundAmount order + tx_amount tx) (pay_amount order)) (paymentOrders d)"
    and order: "order \<in> set (paymentOrders d)" "pay_status order = PaymentOrderStatus.PAID"
    and le: "pay_refundAmount order + tx_amount tx \<le> pay_amount order"
  shows "refunds_ok d'"
proof -
  let ?f = "refund_mark e i (pay_refundAmount order + tx_amount tx) (pay_amount order)"
  have ids: "map pay_id (paymentOrders d') = map pay_id (paymentOrders d)"
    "map pay_orderNo (paymentOrders d') = map pay_orderNo (paymentOrders d)"
    unfolding po by (simp_all add: map_updateRows_frame refund_mark_def)
  then have nos: "pay_orderNo ` set (paymentOrders d') = pay_orderNo ` set (paymentOrders d)" by (metis list.set_map)
  note o = refunds_okD(3) [OF ok order(1), unfolded order_refunds_ok_def]
  have "order_refunds_ok (transactionOrders d') r" if "r \<in> set (paymentOrders d')" for r
    using that unfolding po
  proof (cases rule: in_updateRowsE)
    case (changed s)
    then have "s = order"
      using distinct_key_unique [OF refunds_okD(1) [OF ok] changed(1) order(1)] by (simp add: refundable_row_def)
    then show ?thesis using changed(3) o order(2) rf le by (auto simp: order_refunds_ok_def refund_mark_def tx refunded_append)
  next
    case same
    then have "r \<noteq> order" using order(2) by (auto simp: refundable_row_def)
    then have "pay_orderNo r \<noteq> pay_orderNo order"
      using distinct_key_unique [OF refunds_okD(2) [OF ok] same(1) order(1)] by auto
    then show ?thesis using refunds_okD(3) [OF ok same(1)] rf(1)
      by (auto simp: order_refunds_ok_def tx refunded_append is_refund_of_def)
  qed
  then show ?thesis using ok ids nos rf(1) order(1) by (auto simp: refunds_ok_def tx is_refund_of_def)
qed

subsection \<open>The requests about merchant orders\<close>

lemma refund_check_new:
  assumes "refund_check app dto d = Inr (Inr (order, m, n))"
  shows "find_payment (rd_orderNo dto) d = Some order" and "pay_status order = PaymentOrderStatus.PAID" and "0 < n"
    and "pay_refundAmount order + n \<le> pay_amount order" and "pay_app order = Some (app_appId app)"
    and "merchant_by_id (pay_merchant order) d = Some m"
  using assms by (auto simp: refund_check_def Let_def split: option.splits if_splits)

lemma refund_guard_frame: "refund_guard e order n w = (r, w') \<Longrightarrow> \<exists>evs. wdb w' = wdb w\<lparr>riskEvents := evs\<rparr>"
  using risk_guard_Inr by (cases "truthy (pay_payer order)")
    (auto simp: refund_guard_def intro: exI [of _ "riskEvents (wdb w)"])

lemma keeps_open_refund:
  assumes inv: "P (wdb w)" and ev: "ignores_events P"
    and body: "\<And>order m n evs x d'. refund_check app dto (wdb w) = Inr (Inr (order, m, n)) \<Longrightarrow>
      refund_body e app dto order m n (wdb w\<lparr>riskEvents := evs\<rparr>) = Inr (x, d') \<Longrightarrow> P d'"
  shows "keeps P (open_refund e app dto w)"
  unfolding open_refund_def
proof (rule keeps_withLock, rule inv, rule keeps_andThen)
  fix w1 :: world assume w1: "wdb w1 = wdb w"
  show "keeps P (refund_check app dto (wdb w1), w1)" using inv w1 by (intro keep) simp
  fix r and w2 :: world assume "(refund_check app dto (wdb w1), w1) = (Inr r, w2)"
  then have chk: "refund_check app dto (wdb w) = Inr r" and w2: "wdb w2 = wdb w" using w1 by auto
  show "keeps P (refund_run e app dto r w2)"
  proof (cases r)
    case (Inl existing)
    then show ?thesis using inv w2 by (auto intro: keep)
  next
    case (Inr y)
    then obtain order m n where r: "r = Inr (order, m, n)" by (cases y) auto
    have k: "keeps P (refund_commit e app dto order m n u w3)"
      if g: "refund_guard e order n w2 = (Inr u, w3)" and P3: "P (wdb w3)" for u w3
    proof -
      obtain evs where "wdb w3 = wdb w\<lparr>riskEvents := evs\<rparr>" using refund_guard_frame [OF g] w2 by auto
      with P3 body [OF chk [unfolded r]] show ?thesis unfolding refund_commit_def by (intro keep) auto
    qed
    have "keeps P (refund_guard e order n w2)" using inv w2 ev unfolding refund_guard_def by (intro keep) auto
    then show ?thesis unfolding r refund_run.simps by (rule keeps_andThen) (rule k)
  qed
qed

lemma keeps_open_transfer:
  assumes inv: "P (wdb w)" and ev: "ignores_events P"
    and body: "\<And>m fu tu n d x d'. mt_body e m fu tu dto n d = Inr (x, d') \<Longrightarrow> P d \<Longrightarrow> 0 \<le> n \<Longrightarrow> P d'"
  shows "keeps P (open_transfer e app dto w)"
  unfolding open_transfer_def mt_locked_def
  apply (intro keep ev)
  apply (simp_all add: inv)
  apply (erule body, assumption, simp add: fen_Inr yuanToFen_nonneg)
  done

lemma open_transfer_money_ok: "money_ok (wdb w) \<Longrightarrow> keeps money_ok (open_transfer e app dto w)"
  by (rule keeps_open_transfer)
    (auto intro: keep merchant_transfers.keeps_money [where p = "(e, m, fu, tu, dto, n)" for m fu tu n, simplified])

lemma open_refund_money_ok:
  assumes "money_ok (wdb w)" and "refunds_ok (wdb w)"
  shows "keeps money_ok (open_refund e app dto w)"
proof (rule keeps_open_refund)
  fix order m n evs x d'
  assume chk: "refund_check app dto (wdb w) = Inr (Inr (order, m, n))"
    and run: "refund_body e app dto order m n (wdb w\<lparr>riskEvents := evs\<rparr>) = Inr (x, d')"
  note c = refund_check_new [OF chk]
  have "order \<in> set (paymentOrders (wdb w))" using c(1) by (auto simp: find_payment_def dest: findUnique_in)
  then have "truthy (pay_payer order)" using refunds_okD(3) [OF assms(2)] c(2) by (simp add: order_refunds_ok_def)
  moreover have "money_ok (wdb w\<lparr>riskEvents := evs\<rparr>)" by (rule ignores_eventsD [OF money_ok_events assms(1)])
  ultimately show "money_ok d'"
    using refunds.keeps_money [where p = "(e, app, dto, order, m, n)", simplified] run c(3) by auto
qed (auto intro: keep assms)

text \<open>The requests and jobs that touch merchant orders; a payer's identifier is not the empty text.\<close>

inductive merchant_request :: "world \<Rightarrow> world \<Rightarrow> bool" where
  "merchant_request w (snd (transaction (open_createOrder check base e app odto) w))"
| "merchant_request w (snd (open_refund e app rdto w))"
| "merchant_request w (snd (open_transfer e app mdto w))"
| "merchant_request w (snd (transaction (cashier_createOrder check e u cdto) w))"
| "u \<noteq> [] \<Longrightarrow> merchant_request w (snd (cashier_pay pw_ok e u no pw w))"
| "merchant_request w (snd (retryNotify check hmac post u no w))"
| "merchant_request w (closeExpiredOrders check hmac post t w)"

definition shop_ok :: "db \<Rightarrow> bool" where
  "shop_ok d = (money_ok d \<and> payments_ok d \<and> refunds_ok d)"

lemma shop_ok_events [keep]: "ignores_events shop_ok"
  using money_ok_events by (auto simp: ignores_events_def shop_ok_def payments_ok_def refunds_ok_def)

lemma payments_ok_update:
  assumes "payments_ok d" and "paymentOrders d' = updateRows P f (paymentOrders d)" and "merchants d' = merchants d"
    and "\<And>r. pay_id (f r) = pay_id r \<and> pay_amount (f r) = pay_amount r"
  shows "payments_ok d'"
  using assms by (auto simp: payments_ok_def list_all_iff map_updateRows_frame set_updateRows)

text \<open>A new order, however it was opened.\<close>

definition opened :: "db \<Rightarrow> db \<Rightarrow> bool" where
  "opened d d' = (d' = d \<or> (\<exists>r. d' = d\<lparr>paymentOrders := paymentOrders d @ [r]\<rparr> \<and>
     (\<forall>s \<in> set (paymentOrders d). \<not> pay_conflict r s) \<and> pay_refundAmount r = 0 \<and> 0 \<le> pay_amount r \<and>
     pay_amount r \<le> 2147483647 \<and> pay_status r = PaymentOrderStatus.PENDING))"

lemma opened_money_ok: "opened d d' \<Longrightarrow> money_ok d \<Longrightarrow> money_ok d'"
  unfolding opened_def by (erule disjE, simp)
    (elim exE conjE, rule books_kept_money_ok [of d], simp_all add: books_kept_def same_holdings_def ledgers_ok_def)

lemma opened_shop_ok:
  assumes "opened d d'" and ok: "shop_ok d"
  shows "shop_ok d'"
  using assms(1) unfolding opened_def
proof (elim disjE exE conjE)
  fix r
  assume d': "d' = d\<lparr>paymentOrders := paymentOrders d @ [r]\<rparr>" and new: "\<forall>s \<in> set (paymentOrders d). \<not> pay_conflict r s"
    and r: "pay_refundAmount r = 0" "0 \<le> pay_amount r" "pay_amount r \<le> 2147483647" "pay_status r = PaymentOrderStatus.PENDING"
  have "money_ok d'" using opened_money_ok [OF assms(1)] ok by (simp add: shop_ok_def)
  moreover have "payments_ok d'" using ok new r by (auto simp: d' shop_ok_def payments_ok_def pay_conflict_def)
  moreover have "refunds_ok d'" by (rule refunds_ok_new [of d _ r]) (use ok new r in \<open>simp_all add: d' shop_ok_def\<close>)
  ultimately show "shop_ok d'" by (simp add: shop_ok_def)
qed (use ok in simp)

definition new_order :: "PaymentOrder \<Rightarrow> bool" where
  "new_order r = (pay_refundAmount r = 0 \<and> 0 \<le> pay_amount r \<and> pay_amount r \<le> 2147483647 \<and> pay_status r = PaymentOrderStatus.PENDING)"

lemma insert_opened: "insert_payment order d = Inr (r, d') \<Longrightarrow> new_order order \<Longrightarrow> opened d d'"
  by (cases rule: insert_payment_Inr) (auto simp: opened_def new_order_def)

lemma open_insert_opened:
  assumes "open_insert order d = Inr (r, d')" and "new_order order"
  shows "opened d d'"
proof (cases "create P2002 pay_conflict order (paymentOrders d)")
  case (Inl err)
  then have "d' = d" using assms(1) by (simp add: open_insert_def split: option.splits)
  then show ?thesis by (simp add: opened_def)
next
  case (Inr t)
  then have "d' = d\<lparr>paymentOrders := t\<rparr>" using assms(1) by (auto simp only: open_insert_def sum.case)
  with Inr assms(2) show ?thesis by (auto simp: opened_def new_order_def)
qed

lemma cashier_createOrder_opened:
  assumes "cashier_createOrder check e u dto d = Inr (x, d')"
  shows "opened d d'"
proof -
  have "\<exists>order. insert_payment order d = Inr (x, d') \<and> new_order order"
    using assms unfolding cashier_createOrder_def Let_def
    by (clarsimp simp: fen_Inr int32_def) (rule exI, rule conjI, assumption, simp add: yuanToFen_nonneg new_order_def)
  with insert_opened show ?thesis by blast
qed

lemma open_createOrder_opened:
  assumes "open_createOrder check base e app dto d = Inr (x, d')"
  shows "opened d d'"
proof -
  obtain m where m: "merchant_by_id (app_merchant app) d = Some m" using assms by (auto simp: open_createOrder_def)
  show ?thesis
  proof (cases "merchant_payment (mch_id m) (od_merchantOrderNo dto) d")
    case None
    have "\<exists>order y. open_insert order d = Inr (y, d') \<and> new_order order"
      using assms None m unfolding open_createOrder_def
      by (clarsimp simp: fen_Inr int32_def) (rule exI, rule conjI, rule exI, assumption, simp add: yuanToFen_nonneg new_order_def)
    with open_insert_opened show ?thesis by blast
  next
    case (Some existing)
    with assms m show ?thesis by (auto simp: open_createOrder_def opened_def)
  qed
qed

text \<open>A payment at the cashier.\<close>

lemma createEntries_tables: "createEntries es d = Inr d' \<Longrightarrow>
    transactionOrders d' = transactionOrders d \<and> merchants d' = merchants d"
  by (auto simp: createEntries_def Let_def)

lemma cashier_body_tables:
  assumes "cashier_body e p m mu order d = Inr (r, d')"
  shows "\<exists>tx. transactionOrders d' = transactionOrders d @ [tx] \<and> tx_type tx = TransactionType.PAYMENT" and "merchants d' = merchants d"
  using assms
  by (auto simp: cashier_body_def cashier_move_def cashier_rows_def guarded_def credit_account_def createOrder_Inr Let_def
      add_ledger_def add_bill_def dest!: createEntries_tables checkMerchantDailyLimit_frame checkAndIncrementDailyLimit_frame)

lemma cashier_body_shop_ok:
  assumes run: "cashier_body e p m mu order d = Inr (r, d')" and ok: "shop_ok d" and u: "usr_id p \<noteq> []"
    and fee: "fee_inputs (pay_amount order) (mch_payRate m)"
  shows "shop_ok d'"
proof -
  have inv: "money_ok d" and pays: "payments_ok d" and refs: "refunds_ok d" using ok by (simp_all add: shop_ok_def)
  note b = cashier_body_Inr [OF run inv fee] and tb = cashier_body_tables [OF run]
  let ?d = "d\<lparr>transactionOrders := transactionOrders d'\<rparr>"
  have "refunds_ok ?d" using tb(1) refunds_ok_order [OF refs, of ?d] by auto
  then have "refunds_ok d'"
    by (rule refunds_ok_update [where P = "payable e (pay_id order)" and
          f = "mark_paid e (usr_id p) (payment_fee (pay_amount order) (mch_payRate m))"])
      (use b(3) u in \<open>auto simp: mark_paid_def order_refunds_ok_def truthy_def\<close>)
  moreover have "payments_ok d'" by (rule payments_ok_update [OF pays b(3) tb(2)]) simp
  ultimately show ?thesis using paid_money_ok [OF b(1) inv] by (simp add: shop_ok_def)
qed

text \<open>A refund and a transfer of a merchant.\<close>

lemma rows_merchants [simp]:
  "merchants (add_ledger l d) = merchants d" "merchants (add_bill b d) = merchants d"
  "merchants (refund_rows tx order m ma x p d) = merchants d" "merchants (mt_rows tx fu tu fa ta y z d) = merchants d"
  by (auto simp: refund_rows_def mt_rows_def Let_def add_ledger_def add_bill_def split: option.split)

lemma refund_finish_merchants: "refund_finish e app order m n tx d = Inr (x, d') \<Longrightarrow> merchants d' = merchants d"
  by (auto simp: refund_finish_def Let_def dest!: rollback_limits_frame)

lemma refund_body_merchants: "refund_body e app dto order m n d = Inr (x, d') \<Longrightarrow> merchants d' = merchants d"
  by (auto simp: refund_body_def Let_def guarded_def credit_account_def createOrder_Inr dest!: refund_finish_merchants
      split: if_splits)

lemma mt_body_shop_ok:
  assumes run: "mt_body e m fu tu dto n d = Inr (x, d')" and ok: "shop_ok d" and n: "0 \<le> n"
  shows "shop_ok d'"
proof (cases "if truthy (mt_idem dto) then find_tx_idem (the (mt_idem dto)) d else None")
  case (Some y)
  with run ok show ?thesis by (simp add: mt_body_def)
next
  case None
  then have new: "mt_new e m fu tu dto n d = Inr (x, d')" using run by (simp add: mt_body_def)
  have inv: "money_ok d" and pays: "payments_ok d" and refs: "refunds_ok d" using ok by (simp_all add: shop_ok_def)
  note b = mt_new_Inr [OF new inv n]
  have "merchants d' = merchants d"
    using new by (auto simp: mt_new_def Let_def guarded_def credit_account_def createOrder_Inr)
  then have "payments_ok d'" using pays b(4) by (simp add: payments_ok_def)
  moreover have "refunds_ok d'" by (rule refunds_ok_order [OF refs b(3) _ b(4)]) (simp add: mt_order_def)
  ultimately show ?thesis using paid_money_ok [OF b(1) inv] by (simp add: shop_ok_def)
qed

lemma refund_body_shop_ok:
  assumes run: "refund_body e app dto order m n d = Inr (x, d')" and ok: "shop_ok d" and n: "0 < n"
    and order: "order \<in> set (paymentOrders d)" "pay_status order = PaymentOrderStatus.PAID"
    and le: "pay_refundAmount order + n \<le> pay_amount order"
  shows "shop_ok d'"
proof -
  have inv: "money_ok d" and pays: "payments_ok d" and refs: "refunds_ok d" using ok by (simp_all add: shop_ok_def)
  have payer: "truthy (pay_payer order)"
    using refunds_okD(3) [OF refs order(1)] order(2) by (simp add: order_refunds_ok_def)
  have n0: "0 \<le> n" using n by simp
  note b = refund_body_Inr [OF run inv n0 payer]
  have "merchants d' = merchants d" by (rule refund_body_merchants [OF run])
  then have "payments_ok d'" by (rule payments_ok_update [OF pays b(3)]) (simp add: refund_mark_def)
  moreover have "refunds_ok d'"
    by (rule refunds_ok_refund [OF refs b(2) _ _ _ order]) (use b(3) le n in \<open>simp_all add: refund_order_def is_refund_of_def\<close>)
  ultimately show ?thesis using paid_money_ok [OF b(1) inv] by (simp add: shop_ok_def)
qed

text \<open>Notifications and the closing of expired orders.\<close>

lemma shop_ok_rows:
  assumes ok: "shop_ok d" and f: "\<And>r. pay_id (f r) = pay_id r \<and> pay_orderNo (f r) = pay_orderNo r \<and> pay_amount (f r) = pay_amount r \<and>
      pay_refundAmount (f r) = pay_refundAmount r \<and> pay_payer (f r) = pay_payer r"
    and st: "\<And>r. P r \<Longrightarrow> pay_status (f r) = pay_status r \<or> pay_status (f r) = PaymentOrderStatus.CLOSED"
  shows "shop_ok (d\<lparr>paymentOrders := updateRows P f (paymentOrders d)\<rparr>)"
proof -
  let ?d = "d\<lparr>paymentOrders := updateRows P f (paymentOrders d)\<rparr>"
  have "refunds_ok ?d"
  proof (rule refunds_ok_update [where P = P and f = f])
    show "order_refunds_ok (transactionOrders d) (f r)"
      if "r \<in> set (paymentOrders d)" "P r" "order_refunds_ok (transactionOrders d) r" for r
      using that f [of r] st [OF that(2)] by (auto simp: order_refunds_ok_def)
  qed (use ok f in \<open>auto simp: shop_ok_def\<close>)
  moreover have "payments_ok ?d"
    by (rule payments_ok_update [where P = P and f = f]) (use ok f in \<open>auto simp: shop_ok_def\<close>)
  moreover have "money_ok ?d" using books_kept_money_ok [OF payment_table_kept] ok by (simp add: shop_ok_def)
  ultimately show ?thesis by (simp add: shop_ok_def)
qed

lemma set_notify_shop_ok: "set_notify i st n d = Inr (x, d') \<Longrightarrow> shop_ok d \<Longrightarrow> shop_ok d'"
  by (auto simp: set_notify_def intro!: shop_ok_rows)

lemma keeps_notify_shop_ok: "shop_ok (wdb w) \<Longrightarrow> keeps shop_ok (notifyMerchant check hmac post order w)"
  unfolding notifyMerchant_def by (intro keep) (auto intro!: keep dest: set_notify_shop_ok split: prod.split)

lemma notify_all_shop_ok: "shop_ok (wdb w) \<Longrightarrow> shop_ok (wdb (notify_all check hmac post rs w))"
proof (induction rs arbitrary: w)
  case (Cons r rs)
  from keeps_notify_shop_ok [OF Cons.prems, of check hmac post r] show ?case
    by (intro Cons.IH [of "snd (notifyMerchant check hmac post r w)", folded notify_all.simps(2)])
      (simp add: keeps_def)
qed simp

lemma closeExpiredOrders_shop_ok:
  "shop_ok (wdb w) \<Longrightarrow> shop_ok (wdb (closeExpiredOrders check hmac post t w))"
  unfolding closeExpiredOrders_def retryStaleNotifications_def close_expired_def
  by (intro notify_all_shop_ok) (auto intro!: shop_ok_rows)

lemma merchant_request_ok:
  assumes "merchant_request w w'" and ok: "shop_ok (wdb w)"
  shows "shop_ok (wdb w')"
  using assms(1)
proof cases
  case (1 check base e app odto)
  have "keeps shop_ok (transaction (open_createOrder check base e app odto) w)"
    using ok by (intro keep) (auto dest: open_createOrder_opened intro: opened_shop_ok)
  with 1 show ?thesis by (simp add: keeps_def)
next
  case (2 e app rdto)
  have "keeps shop_ok (open_refund e app rdto w)"
  proof (rule keeps_open_refund [where P = shop_ok, OF ok shop_ok_events])
    fix order m n evs x d'
    assume chk: "refund_check app rdto (wdb w) = Inr (Inr (order, m, n))"
      and run: "refund_body e app rdto order m n (wdb w\<lparr>riskEvents := evs\<rparr>) = Inr (x, d')"
    note c = refund_check_new [OF chk]
    have "order \<in> set (paymentOrders (wdb w))" using c(1) by (auto simp: find_payment_def dest: findUnique_in)
    then show "shop_ok d'"
      using refund_body_shop_ok [OF run ignores_eventsD [OF shop_ok_events ok] c(3) _ c(2,4)] by simp
  qed
  with 2 show ?thesis by (simp add: keeps_def)
next
  case (3 e app mdto)
  with keeps_open_transfer [where P = shop_ok, OF ok shop_ok_events mt_body_shop_ok] show ?thesis by (simp add: keeps_def)
next
  case (4 check e u cdto)
  have "keeps shop_ok (transaction (cashier_createOrder check e u cdto) w)"
    using ok by (intro keep) (auto dest: cashier_createOrder_opened intro: opened_shop_ok)
  with 4 show ?thesis by (simp add: keeps_def)
next
  case (5 u pw_ok e no pw)
  have pays: "payments_ok (wdb w)" using ok by (simp add: shop_ok_def)
  have "keeps shop_ok (cashier_pay pw_ok e u no pw w)"
  proof (rule keeps_cashier_pay [where P = shop_ok, OF ok shop_ok_events])
    fix p m mu order d r d'
    assume "find_payment no (wdb w) = Some order" "merchant_by_id (pay_merchant order) (wdb w) = Some m"
      and "cashier_body e p m mu order d = Inr (r, d')" "shop_ok d" "usr_id p = u"
    then show "shop_ok d'" using cashier_body_shop_ok payments_ok_fee [OF pays] 5(2) by blast
  qed
  with 5 show ?thesis by (simp add: keeps_def)
next
  case (6 check hmac post u no)
  have "keeps shop_ok (retryNotify check hmac post u no w)"
    unfolding retryNotify_def using ok by (intro keep keeps_notify_shop_ok) simp_all
  with 6 show ?thesis by (simp add: keeps_def)
next
  case (7 check hmac post t)
  with closeExpiredOrders_shop_ok [OF ok] show ?thesis by simp
qed

lemma merchant_requests_ok: "merchant_request\<^sup>*\<^sup>* w w' \<Longrightarrow> shop_ok (wdb w) \<Longrightarrow> shop_ok (wdb w')"
  by (induction rule: rtranclp_induct) (auto intro: merchant_request_ok)

subsection \<open>Properties\<close>

text \<open>
  C24. Whatever the merchants and the payers ask for, from a shop in order, what a payment order says it has paid back is
  what the refunds made for it add up to, and never more than was paid.
\<close>

theorem refunds_add_up:
  assumes "merchant_request\<^sup>*\<^sup>* w w'" and "shop_ok (wdb w)" and "r \<in> set (paymentOrders (wdb w'))"
  shows "pay_refundAmount r = refunded (pay_orderNo r) (transactionOrders (wdb w')) \<and>
    refunded (pay_orderNo r) (transactionOrders (wdb w')) \<le> pay_amount r"
proof -
  have "refunds_ok (wdb w')" using merchant_requests_ok [OF assms(1,2)] by (simp add: shop_ok_def)
  from refunds_okD(3) [OF this assms(3)] show ?thesis by (simp add: order_refunds_ok_def)
qed

text \<open>A payment of twenty yuan of which three go back.\<close>

definition sample_app :: MerchantApp where
  "sample_app = \<lparr>app_id = ''A'', app_appId = ''app-1'', app_merchant = ''M1'', app_secret = ''secret'', app_name = ''shop'',
     app_callbackUrl = None, app_status = AppStatus.ACTIVE, app_createdAt = 0\<rparr>"

definition app_world :: world where
  "app_world = sample_world\<lparr>wdb := sample_db\<lparr>merchants := [sample_merchant], merchantApps := [sample_app],
     paymentOrders := [(sample_payment PaymentOrderStatus.PAID)\<lparr>pay_app := Some ''app-1'', pay_payer := Some ''alice'',
       pay_paidAt := Some 100\<rparr>]\<rparr>\<rparr>"

definition sample_refund :: RefundDto where
  "sample_refund = \<lparr>rd_orderNo = ''P-1'', rd_amount = Some (Num 3), rd_reason = None, rd_idem = None\<rparr>"

lemma app_world_ok: "shop_ok (wdb app_world)"
proof -
  have "money_ok (wdb app_world)"
    by (rule books_kept_money_ok [OF _ sample_money_ok])
      (simp add: app_world_def books_kept_def same_holdings_def ledgers_ok_def)
  moreover have "payments_ok (wdb app_world)"
    by (simp add: app_world_def payments_ok_def sample_merchant_def sample_payment_def)
  moreover have "refunds_ok (wdb app_world)"
    by (simp add: app_world_def refunds_ok_def order_refunds_ok_def refunded_def is_refund_of_def sample_payment_def
        sample_defs truthy_def)
  ultimately show ?thesis by (simp add: shop_ok_def)
qed

lemma sample_refund_orders:
  "map pay_refundAmount (paymentOrders (wdb (snd (open_refund sample_env sample_app sample_refund app_world)))) = [300]"
  by code_simp

corollary refunds_add_up_witness:
  "\<exists>r \<in> set (paymentOrders (wdb (snd (open_refund sample_env sample_app sample_refund app_world)))).
     refunded (pay_orderNo r) (transactionOrders (wdb (snd (open_refund sample_env sample_app sample_refund app_world)))) = 300"
proof -
  let ?w = "snd (open_refund sample_env sample_app sample_refund app_world)"
  have reach: "merchant_request\<^sup>*\<^sup>* app_world ?w"
    using merchant_request.intros(2) [of app_world sample_env sample_app sample_refund] by (rule r_into_rtranclp)
  obtain r where r: "paymentOrders (wdb ?w) = [r]" "pay_refundAmount r = 300" using sample_refund_orders by auto
  from refunds_add_up [OF reach app_world_ok, of r] r show ?thesis by simp
qed

lemma open_refund_InrE:
  assumes "open_refund e app dto w = (Inr (Inr res), w')"
  obtains order m n evs x where "find_payment (rd_orderNo dto) (wdb w) = Some order \<and> pay_app order = Some (app_appId app) \<and>
      merchant_by_id (pay_merchant order) (wdb w) = Some m \<and> 0 < n \<and> pay_refundAmount order + n \<le> pay_amount order"
    and "pay_status order = PaymentOrderStatus.PAID"
    and "refund_body e app dto order m n (wdb w\<lparr>riskEvents := evs\<rparr>) = Inr (x, wdb w')"
proof -
  obtain w1 r w2 where w1: "wdb w1 = wdb w" and chk: "refund_check app dto (wdb w1) = Inr r" and w': "wdb w' = wdb w2"
    and k: "refund_run e app dto r w1 = (Inr (Inr res), w2)"
    using assms unfolding open_refund_def by (elim withLock_InrE) auto
  obtain order m n where r: "r = Inr (order, m, n)" using k by (cases r) auto
  then obtain w3 x where g: "refund_guard e order n w1 = (Inr (), w3)" and t: "refund_body e app dto order m n (wdb w3) = Inr (x, wdb w2)"
    using k by (auto simp: refund_commit_def)
  obtain evs where "wdb w3 = wdb w\<lparr>riskEvents := evs\<rparr>" using refund_guard_frame [OF g] w1 by auto
  with that refund_check_new [OF chk [unfolded r w1]] t w' show thesis by metis
qed

text \<open>
  A refund that goes through pays the payer of the order out of the merchant's balance, by an amount that is
  positive and still owed; nobody else's balance changes.
\<close>

theorem refund_pays_payer:
  assumes "open_refund e app dto w = (Inr (Inr res), w')" and "shop_ok (wdb w)"
  shows "\<exists>order m n. find_payment (rd_orderNo dto) (wdb w) = Some order \<and> pay_app order = Some (app_appId app) \<and>
    merchant_by_id (pay_merchant order) (wdb w) = Some m \<and> 0 < n \<and> pay_refundAmount order + n \<le> pay_amount order \<and>
    (\<forall>v. available_of v (accounts (wdb w')) = available_of v (accounts (wdb w)) +
       (if v = the (pay_payer order) then n else 0) - (if v = mch_user m then n else 0))"
proof -
  let ?R = "\<lambda>order m n. find_payment (rd_orderNo dto) (wdb w) = Some order \<and> pay_app order = Some (app_appId app) \<and>
    merchant_by_id (pay_merchant order) (wdb w) = Some m \<and> 0 < n \<and> pay_refundAmount order + n \<le> pay_amount order"
  obtain order m n evs x where R: "?R order m n" "pay_status order = PaymentOrderStatus.PAID"
    and run: "refund_body e app dto order m n (wdb w\<lparr>riskEvents := evs\<rparr>) = Inr (x, wdb w')"
    by (rule open_refund_InrE [OF assms(1)])
  let ?d = "wdb w\<lparr>riskEvents := evs\<rparr>"
  have inv: "money_ok ?d" and refs: "refunds_ok (wdb w)"
    using assms(2) ignores_eventsD [OF money_ok_events] by (simp_all add: shop_ok_def)
  have "order \<in> set (paymentOrders (wdb w))" using R(1) by (auto simp: find_payment_def dest: findUnique_in)
  then have payer: "truthy (pay_payer order)" using refunds_okD(3) [OF refs] R(2) by (simp add: order_refunds_ok_def)
  have n0: "0 \<le> n" using R(1) by simp
  from paid_balances [OF refund_body_Inr(1) [OF run inv n0 payer] money_okD(1) [OF inv]] R(1) show ?thesis by auto
qed

lemma sample_refund_runs:
  "(case fst (open_refund sample_env sample_app sample_refund app_world) of Inr (Inr res) \<Rightarrow> True | _ \<Rightarrow> False) = True"
  by code_simp

lemma app_world_rows:
  "map_option (\<lambda>r. (pay_merchant r, the (pay_payer r))) (find_payment (rd_orderNo sample_refund) (wdb app_world)) =
     Some (''M1'', ''alice'')"
  "map_option mch_user (merchant_by_id ''M1'' (wdb app_world)) = Some ''bob''"
  by code_simp+

corollary refund_pays_payer_witness:
  "\<exists>res w' n. open_refund sample_env sample_app sample_refund app_world = (Inr (Inr res), w') \<and> 0 < n \<and>
     available_of ''alice'' (accounts (wdb w')) = available_of ''alice'' (accounts (wdb app_world)) + n"
proof -
  obtain res w' where run: "open_refund sample_env sample_app sample_refund app_world = (Inr (Inr res), w')"
    using sample_refund_runs by (cases "open_refund sample_env sample_app sample_refund app_world") (auto split: sum.splits)
  from refund_pays_payer [OF run app_world_ok] run app_world_rows show ?thesis by fastforce
qed

end
