(* ===== verification/OpenApiGuard.thy ===== *)
theory OpenApiGuard
  imports OpenApiSafety
begin

text \<open>
  The authentication of a merchant's application (open-api/open-api.guard.ts): the time window of a request,
  its signature, and the memory of the nonces that were used. Both memories of the source, the keys with
  an expiry in Redis and the map in the process, are one map from nonces to the moment they expire.

  The guard reads the clock twice: \<open>t\<close> for the window, and \<open>u\<close>, after it has waited for the database, when it asks
  for the nonce (in Redis the moment of \<open>SET NX\<close>). Requests that overlap are taken in the order in which they ask for their
  nonces, which is one atomic operation; their windows may have been checked at any time before.

  The lemmas: the signed text determines the request; a request is accepted once as long as no replay waits longer
  between its two readings than the stamp was old when the nonce was noted, in particular not at all if
  it was stamped in the past and nobody waits; otherwise it can be replayed when its nonce is forgotten.
\<close>

definition TIMESTAMP_WINDOW_MS :: int where "TIMESTAMP_WINDOW_MS = 2 * 60 * 1000"
definition TIMESTAMP_FUTURE_MS :: int where "TIMESTAMP_FUTURE_MS = 30 * 1000"
definition NONCE_TTL_MS :: int where "NONCE_TTL_MS = 2 * 60 * 1000"

text \<open>The headers may be absent; the body is the raw text, empty when there is none.\<close>

record OpenApiRequest =
  hdr_appId :: "string option"
  hdr_timestamp :: "string option"
  hdr_nonce :: "string option"
  hdr_signature :: "string option"
  rq_method :: string
  rq_path :: string
  rq_rawBody :: string

type_synonym nonces = "string \<Rightarrow> int option"

definition filled :: "string option \<Rightarrow> bool" where
  "filled x = (case x of None \<Rightarrow> False | Some s \<Rightarrow> s \<noteq> [])"

text \<open>\<open>ts < now - window || ts > now + future\<close> on the number of the header.\<close>

fun out_of_window :: "int \<Rightarrow> jsnum \<Rightarrow> bool" where
  "out_of_window t (Num x) = (x < of_int (t - TIMESTAMP_WINDOW_MS) \<or> of_int (t + TIMESTAMP_FUTURE_MS) < x)"
| "out_of_window t NaN = False"
| "out_of_window t PosInf = True"
| "out_of_window t NegInf = True"

definition LF :: char where "LF = CHR 0x0A"

definition sign_string :: "string \<Rightarrow> string \<Rightarrow> string \<Rightarrow> string \<Rightarrow> string \<Rightarrow> string \<Rightarrow> string" where
  "sign_string method path rawBody timestamp nonce appId =
     method @ [LF] @ path @ [LF] @ rawBody @ [LF] @ timestamp @ [LF] @ nonce @ [LF] @ appId"

definition checkAndMarkNonce :: "int \<Rightarrow> string \<Rightarrow> nonces \<Rightarrow> bool \<times> nonces" where
  "checkAndMarkNonce t nonce m =
     (case m nonce of
        Some expiry \<Rightarrow> if t < expiry then (False, m) else (True, m(nonce \<mapsto> t + NONCE_TTL_MS))
      | None \<Rightarrow> (True, m(nonce \<mapsto> t + NONCE_TTL_MS)))"

text \<open>\<open>hmac secret text\<close> is the hexadecimal HMAC-SHA256, \<open>upper\<close> the upper-case form of the method.\<close>

definition canActivate ::
  "(string \<Rightarrow> string \<Rightarrow> string) \<Rightarrow> (string \<Rightarrow> string) \<Rightarrow> int \<Rightarrow> int \<Rightarrow> OpenApiRequest \<Rightarrow> db \<Rightarrow> nonces \<Rightarrow>
   (exn + MerchantApp) \<times> nonces" where
  "canActivate hmac upper t u r d m =
     (if \<not> filled (hdr_appId r) \<or> \<not> filled (hdr_timestamp r) \<or> \<not> filled (hdr_nonce r) \<or> \<not> filled (hdr_signature r)
      then (Inl (Unauthorized AUTHENTICATION_FAILED), m)
      else if js_number (the (hdr_timestamp r)) = NaN then (Inl (Unauthorized AUTHENTICATION_FAILED), m)
      else if out_of_window t (js_number (the (hdr_timestamp r))) then (Inl (Unauthorized AUTHENTICATION_FAILED), m)
      else case findUnique (\<lambda>a. app_appId a = the (hdr_appId r)) (merchantApps d) of
        None \<Rightarrow> (Inl (Forbidden MERCHANT_APP_NOT_FOUND), m)
      | Some app \<Rightarrow>
          if app_status app \<noteq> AppStatus.ACTIVE then (Inl (Forbidden MERCHANT_APP_DISABLED), m)
          else if the (hdr_signature r) \<noteq> hmac (app_secret app)
              (sign_string (upper (rq_method r)) (rq_path r) (rq_rawBody r) (the (hdr_timestamp r)) (the (hdr_nonce r))
                (the (hdr_appId r)))
          then (Inl (Unauthorized AUTHENTICATION_FAILED), m)
          else case checkAndMarkNonce u (the (hdr_nonce r)) m of
            (isNew, m') \<Rightarrow> (if isNew then Inr app else Inl (Unauthorized AUTHENTICATION_FAILED), m'))"

subsection \<open>The signed text determines the request\<close>

lemma split_line:
  "LF \<notin> set a \<Longrightarrow> LF \<notin> set b \<Longrightarrow> a @ LF # x = b @ LF # y \<Longrightarrow> a = b \<and> x = y"
proof (induction a arbitrary: b)
  case Nil
  then show ?case by (cases b) auto
next
  case (Cons c a)
  then show ?case by (cases b) auto
qed

text \<open>The same from the right end.\<close>

lemma split_last_line:
  assumes "LF \<notin> set a" and "LF \<notin> set b" and "x @ LF # a = y @ LF # b"
  shows "a = b \<and> x = y"
proof -
  have "rev a @ LF # rev x = rev b @ LF # rev y" using arg_cong [OF assms(3), of rev] by simp
  with split_line [of "rev a" "rev b" "rev x" "rev y"] assms(1,2) show ?thesis by simp
qed

text \<open>
  C0. Whatever the body contains, line breaks included, two requests with the same signed text are the same request: the other
  parts, which cannot contain a line break in HTTP, and the body are determined by it.
\<close>

theorem sign_string_determines:
  assumes "sign_string m p b t n a = sign_string m' p' b' t' n' a'"
    and "LF \<notin> set m \<union> set p \<union> set t \<union> set n \<union> set a" and "LF \<notin> set m' \<union> set p' \<union> set t' \<union> set n' \<union> set a'"
  shows "m = m' \<and> p = p' \<and> b = b' \<and> t = t' \<and> n = n' \<and> a = a'"
proof -
  have "m @ LF # (p @ LF # b @ LF # t @ LF # n @ LF # a) = m' @ LF # (p' @ LF # b' @ LF # t' @ LF # n' @ LF # a')"
    using assms(1) by (simp add: sign_string_def)
  then have m: "m = m'" and "p @ LF # (b @ LF # t @ LF # n @ LF # a) = p' @ LF # (b' @ LF # t' @ LF # n' @ LF # a')"
    using split_line assms(2,3) by blast+
  then have p: "p = p'" and "b @ LF # t @ LF # n @ LF # a = b' @ LF # t' @ LF # n' @ LF # a'"
    using split_line assms(2,3) by blast+
  then have "(b @ LF # t @ LF # n) @ LF # a = (b' @ LF # t' @ LF # n') @ LF # a'" by simp
  then have a: "a = a'" and "(b @ LF # t) @ LF # n = (b' @ LF # t') @ LF # n'"
    using split_last_line [of a a' "b @ LF # t @ LF # n" "b' @ LF # t' @ LF # n'"] assms(2,3) by auto
  then have n: "n = n'" and "b @ LF # t = b' @ LF # t'"
    using split_last_line [of n n' "b @ LF # t" "b' @ LF # t'"] assms(2,3) by auto
  then show ?thesis using m p a split_last_line [of t t' b b'] assms(2,3) by auto
qed

corollary sign_string_determines_witness:
  "''POST'' = ''POST'' \<and> ''/open/refund'' = ''/open/refund'' \<and> ''a'' @ [LF] @ ''b'' = ''a'' @ [LF] @ ''b'' \<and>
   ''500'' = ''500'' \<and> ''n'' = ''n'' \<and> ''app-1'' = ''app-1''"
  by (rule sign_string_determines [OF refl]) (simp_all add: LF_def)

subsection \<open>Replays\<close>

lemma canActivate_Inr:
  assumes "canActivate hmac upper t u r d m = (Inr app, m')"
  shows "m' = m(the (hdr_nonce r) \<mapsto> u + NONCE_TTL_MS)"
    and "\<And>e. m (the (hdr_nonce r)) = Some e \<Longrightarrow> e \<le> u" and "\<not> out_of_window t (js_number (the (hdr_timestamp r)))"
  using assms by (auto simp: canActivate_def checkAndMarkNonce_def split: if_splits option.splits prod.splits)

text \<open>What a run does to the memory: nothing, or one nonce that was not remembered is noted.\<close>

lemma canActivate_frame:
  "snd (canActivate hmac upper t u r d m) = m \<or>
   (\<exists>n. snd (canActivate hmac upper t u r d m) = m(n \<mapsto> u + NONCE_TTL_MS) \<and> (\<forall>e. m n = Some e \<longrightarrow> e \<le> u))"
  by (auto simp: canActivate_def checkAndMarkNonce_def split: option.split prod.split)

text \<open>Requests in the order of their second reading, which does not go back; the first came at any time.\<close>

inductive guard_runs ::
  "(string \<Rightarrow> string \<Rightarrow> string) \<Rightarrow> (string \<Rightarrow> string) \<Rightarrow> int \<Rightarrow> nonces \<Rightarrow> int \<Rightarrow> nonces \<Rightarrow> bool"
  for hmac upper where
  none: "u \<le> u' \<Longrightarrow> guard_runs hmac upper u m u' m"
| more: "guard_runs hmac upper u m u' m' \<Longrightarrow> u' \<le> u'' \<Longrightarrow>
    guard_runs hmac upper u m u'' (snd (canActivate hmac upper t u'' r d m'))"

lemma guard_runs_time: "guard_runs hmac upper u m u' m' \<Longrightarrow> u \<le> u'"
  by (induction rule: guard_runs.induct) auto

lemma nonce_remembered:
  assumes "guard_runs hmac upper u m u' m'" and "m n = Some e" and "u' < e"
  shows "m' n = Some e"
  using assms
proof (induction rule: guard_runs.induct)
  case (more u m u' m' u'' t r d)
  then have "m' n = Some e" by simp
  with more.prems(2) show ?case
    using canActivate_frame [of hmac upper t u'' r d m'] by (auto split: if_splits)
qed simp

lemma not_accepted: "(\<And>app m'. canActivate hmac upper t u r d m \<noteq> (Inr app, m')) \<Longrightarrow> \<exists>e. fst (canActivate hmac upper t u r d m) = Inl e"
  by (cases "canActivate hmac upper t u r d m"; cases "fst (canActivate hmac upper t u r d m)") auto

text \<open>
  C25. A request is accepted once: however many requests come after and however they overlap, a request with its nonce and its
  stamp is refused at every later time, provided this later request waits less between its two readings of the clock
  than the stamp was old when the nonce was noted. (For a request stamped in the past, every replay
  that does not wait is refused. Without the proviso: \<open>replay_after_nonce_expiry\<close>.)
\<close>

theorem accepted_once:
  assumes "canActivate hmac upper t u r d m = (Inr app, m1)" and "js_number (the (hdr_timestamp r)) = Num x"
    and "guard_runs hmac upper u m1 u' m2" and "u' \<le> u''" and "of_int (u'' - t'') < of_int u - x"
    and "hdr_nonce r' = hdr_nonce r" and "hdr_timestamp r' = hdr_timestamp r"
  shows "\<exists>e. fst (canActivate hmac upper t'' u'' r' d' m2) = Inl e"
proof (cases "u'' < u + NONCE_TTL_MS")
  case True
  have "m1 (the (hdr_nonce r)) = Some (u + NONCE_TTL_MS)" using canActivate_Inr(1) [OF assms(1)] by simp
  with nonce_remembered [OF assms(3)] True assms(4) have "m2 (the (hdr_nonce r')) = Some (u + NONCE_TTL_MS)"
    by (simp add: assms(6))
  with True show ?thesis using canActivate_Inr(2) [of hmac upper t'' u'' r' d' m2] by (intro not_accepted) fastforce
next
  case False
  then have "(of_int (u + TIMESTAMP_WINDOW_MS) :: rat) \<le> of_int u''"
    by (simp only: of_int_le_iff) (simp add: NONCE_TTL_MS_def TIMESTAMP_WINDOW_MS_def)
  then have "x < of_int (t'' - TIMESTAMP_WINDOW_MS)" using assms(5) by simp
  then have "out_of_window t'' (js_number (the (hdr_timestamp r')))" using assms(2) by (simp add: assms(7))
  with canActivate_Inr(3) [of hmac upper t'' u'' r' d' m2] show ?thesis by (intro not_accepted) blast
qed

text \<open>A request of the application of the example, whatever the signature function.\<close>

definition stamped :: "string \<Rightarrow> OpenApiRequest" where
  "stamped ts = \<lparr>hdr_appId = Some ''app-1'', hdr_timestamp = Some ts, hdr_nonce = Some ''n'', hdr_signature = Some ''sig'',
     rq_method = ''POST'', rq_path = ''/open/refund'', rq_rawBody = ''{}''\<rparr>"

lemma stamped_numbers: "js_number ''500'' = Num 500" "js_number ''30500'' = Num 30500"
  using fl_of_int [of 500] fl_of_int [of 30500]
  by (simp_all add: js_number_def js_unsigned_def split_dot_def parse_digits_def is_digit_def digit_val_def)

lemma stamped_accepted:
  "isl (fst (canActivate (\<lambda>_ _. ''sig'') (\<lambda>s. s) 600 640 (stamped ''500'') (wdb app_world) (\<lambda>_. None))) = False"
  "isl (fst (canActivate (\<lambda>_ _. ''sig'') (\<lambda>s. s) 500 500 (stamped ''30500'') (wdb app_world) (\<lambda>_. None))) = False"
  by (simp_all add: canActivate_def stamped_def filled_def stamped_numbers checkAndMarkNonce_def app_world_def sample_app_def
      TIMESTAMP_WINDOW_MS_def TIMESTAMP_FUTURE_MS_def)

lemma stamped_stamp: "js_number (the (hdr_timestamp (stamped ''500''))) = Num 500"
  "js_number (the (hdr_timestamp (stamped ''30500''))) = Num 30500"
  by (simp_all add: stamped_def stamped_numbers)

corollary accepted_once_witness:
  "\<exists>app m. canActivate (\<lambda>_ _. ''sig'') (\<lambda>s. s) 600 640 (stamped ''500'') (wdb app_world) (\<lambda>_. None) = (Inr app, m) \<and>
     (\<exists>err. fst (canActivate (\<lambda>_ _. ''sig'') (\<lambda>s. s) 700 720 (stamped ''500'') (wdb app_world) m) = Inl err)"
proof -
  obtain app m where run: "canActivate (\<lambda>_ _. ''sig'') (\<lambda>s. s) 600 640 (stamped ''500'') (wdb app_world) (\<lambda>_. None) = (Inr app, m)"
    using not_isl_fst [OF stamped_accepted(1)] by blast
  have none: "guard_runs (\<lambda>_ _. ''sig'') (\<lambda>s. s) 640 m 720 m" by (rule guard_runs.none) simp
  from accepted_once [OF run stamped_stamp(1) none, of 720 700] run show ?thesis by auto
qed

text \<open>
  C26. The nonce is remembered for two minutes after it was noted, the stamp stays valid for two minutes after itself: a request
  stamped up to half a minute ahead is accepted again in the time between, and so is any request whose window is
  checked in time and whose nonce is asked for after the earlier one was forgotten.
\<close>

theorem replay_after_nonce_expiry:
  assumes "canActivate hmac upper t u r d m = (Inr app, m1)" and "js_number (the (hdr_timestamp r)) = Num x"
    and "t \<le> t'" and "u + NONCE_TTL_MS \<le> u'" and "of_int t' \<le> x + of_int TIMESTAMP_WINDOW_MS"
  shows "canActivate hmac upper t' u' r d m1 = (Inr app, m1(the (hdr_nonce r) \<mapsto> u' + NONCE_TTL_MS))"
proof -
  have m1: "m1 = m(the (hdr_nonce r) \<mapsto> u + NONCE_TTL_MS)" by (rule canActivate_Inr(1) [OF assms(1)])
  have "\<not> out_of_window t (Num x)" using canActivate_Inr(3) [OF assms(1)] by (simp add: assms(2))
  then have "x \<le> of_int (t + TIMESTAMP_FUTURE_MS)" by simp
  also have "(of_int (t + TIMESTAMP_FUTURE_MS) :: rat) \<le> of_int (t' + TIMESTAMP_FUTURE_MS)"
    using assms(3) by simp
  finally have "\<not> out_of_window t' (Num x)" using assms(5) by simp
  moreover have "checkAndMarkNonce u' (the (hdr_nonce r)) m1 = (True, m1(the (hdr_nonce r) \<mapsto> u' + NONCE_TTL_MS))"
    using assms(4) by (simp add: checkAndMarkNonce_def m1)
  ultimately show ?thesis
    using assms(1) by (auto simp: canActivate_def assms(2) split: if_splits option.splits prod.splits)
qed

corollary replay_after_nonce_expiry_witness:
  "\<exists>app m m'. canActivate (\<lambda>_ _. ''sig'') (\<lambda>s. s) 500 500 (stamped ''30500'') (wdb app_world) (\<lambda>_. None) = (Inr app, m) \<and>
     canActivate (\<lambda>_ _. ''sig'') (\<lambda>s. s) 130500 130500 (stamped ''30500'') (wdb app_world) m = (Inr app, m')"
proof -
  obtain app m where run: "canActivate (\<lambda>_ _. ''sig'') (\<lambda>s. s) 500 500 (stamped ''30500'') (wdb app_world) (\<lambda>_. None) = (Inr app, m)"
    using not_isl_fst [OF stamped_accepted(2)] by blast
  from replay_after_nonce_expiry [OF run stamped_stamp(2), of 130500 130500] run show ?thesis
    by (simp add: NONCE_TTL_MS_def TIMESTAMP_WINDOW_MS_def)
qed

end
