(* ===== verification/ChannelRefunds.thy ===== *)
theory ChannelRefunds
  imports Recharge Cashier
begin

text \<open>
  Refunds through the payment channel (payment-channels/refund.service.ts): a refund order is opened for a completed
  order, the channel is asked, and its answer, a later query or its callback settles the refund and takes the
  amount from the account the order was paid into.

  The channel is a parameter: \<open>call\<close> answers a refund request, or nothing for an exception; \<open>query\<close> answers
  a query of its state; \<open>parse\<close> gives the content of a verified callback. The message texts are left out.

  The lemmas: of all callbacks only the first settles a refund, and for its amount; but a callback that comes while the
  request still waits for the channel's own answer is not seen by it, and the money is taken twice; a refund the
  channel has taken on but not finished is never asked for again; a second refund of the same order is
  not compared with the first.
\<close>

datatype ChannelRefundStatus = REFUND_PENDING | REFUND_SUCCESS | REFUND_FAILED

record RefundResponse =
  rsp_channelRefundNo :: string
  rsp_status :: ChannelRefundStatus

record RefundCallbackResult =
  rcb_refundNo :: string
  rcb_channelRefundNo :: string
  rcb_status :: ChannelRefundStatus

record RefundTicket =
  tk_refundNo :: string
  tk_channelRefundNo :: string
  tk_status :: TransactionStatus

definition channel_or_mock :: "TransactionOrder \<Rightarrow> string" where
  "channel_or_mock order = (if truthy (tx_channel order) then the (tx_channel order) else ''mock'')"

definition order_by_no :: "string \<Rightarrow> db \<Rightarrow> TransactionOrder option" where
  "order_by_no no d = findUnique (\<lambda>r. tx_orderNo r = no) (transactionOrders d)"

fun refund_status :: "ChannelRefundStatus \<Rightarrow> TransactionStatus" where
  "refund_status REFUND_SUCCESS = TransactionStatus.SUCCESS"
| "refund_status REFUND_FAILED = TransactionStatus.FAILED"
| "refund_status REFUND_PENDING = TransactionStatus.PENDING"

subsection \<open>Taking the money back\<close>

text \<open>The merchant order behind the original one learns what was paid back.\<close>

definition sync_payment :: "env \<Rightarrow> TransactionOrder \<Rightarrow> int \<Rightarrow> db \<Rightarrow> exn + db" where
  "sync_payment e original n d =
     (if \<not> truthy (tx_related original) then Inr d
      else case find_payment (the (tx_related original)) d of
        None \<Rightarrow> Inr d
      | Some p \<Rightarrow>
          let back = pay_refundAmount p + n
          in bindE (updateOne P2025 IntOutOfRange (\<lambda>r. int32 (pay_refundAmount r)) (\<lambda>r. pay_id r = pay_id p)
                 (\<lambda>r. r\<lparr>pay_refundAmount := back, pay_refundedAt := Some (now e),
                        pay_status := (if pay_amount p \<le> back then PaymentOrderStatus.REFUNDED else PaymentOrderStatus.PAID)\<rparr>)
                 (paymentOrders d)) (\<lambda>(_, t). Inr (d\<lparr>paymentOrders := t\<rparr>)))"

text \<open>The decrement has no condition; the ledger row carries what \<open>ref\<close> names the refund by.\<close>

definition take_back :: "string \<Rightarrow> string \<Rightarrow> int \<Rightarrow> db \<Rightarrow> (db \<Rightarrow> exn + 'a) \<Rightarrow> exn + 'a" where
  "take_back account ref n d k =
     credit_account account (- n) d (\<lambda>updated d1.
       k (add_ledger \<lparr>led_account = account, led_transaction = ref, led_type = LedgerType.REFUND, led_amount = n,
            led_before = availableBalance updated + n, led_after = availableBalance updated, led_direction = CREDIT\<rparr> d1))"

definition settle_status :: "env \<Rightarrow> TransactionStatus \<Rightarrow> TransactionOrder \<Rightarrow> TransactionOrder" where
  "settle_status e st r = r\<lparr>tx_status := st,
     tx_completedAt := (if st \<in> {TransactionStatus.SUCCESS, TransactionStatus.FAILED} then Some (now e) else tx_completedAt r)\<rparr>"

text \<open>The transaction of \<open>processRefundSuccess\<close>; the order row was read before it.\<close>

definition process_sync :: "env \<Rightarrow> TransactionOrder \<Rightarrow> int \<Rightarrow> db \<Rightarrow> exn + (unit \<times> db)" where
  "process_sync e refundOrder n d =
     bindE (if truthy (tx_related refundOrder)
            then (case order_by_no (the (tx_related refundOrder)) d of
                    None \<Rightarrow> Inr d | Some original \<Rightarrow> sync_payment e original n d)
            else Inr d) (\<lambda>d. Inr ((), d))"

definition process_body :: "env \<Rightarrow> TransactionOrder \<Rightarrow> string \<Rightarrow> int \<Rightarrow> string \<Rightarrow> db \<Rightarrow> exn + (unit \<times> db)" where
  "process_body e refundOrder refundNo n account d =
     (let d1 = (if tx_status refundOrder = TransactionStatus.PROCESSING
                then d\<lparr>transactionOrders := updateRows (\<lambda>r. tx_id r = tx_id refundOrder \<and> tx_status r = TransactionStatus.PROCESSING)
                       (settle_status e TransactionStatus.SUCCESS) (transactionOrders d)\<rparr>
                else d)
      in take_back account refundNo n d1 (process_sync e refundOrder n))"

definition process_record :: "env \<Rightarrow> string \<Rightarrow> int \<Rightarrow> unit \<Rightarrow> world \<Rightarrow> (exn + unit) \<times> world" where
  "process_record e u n r w =
     record_quietly (now e) (uuid e 1) \<lparr>ctx_user = u, ctx_type = TransactionType.REFUND, ctx_amount = n, ctx_ip = None\<rparr> () w"

definition process_locked ::
  "env \<Rightarrow> string \<Rightarrow> int \<Rightarrow> string option \<Rightarrow> world \<Rightarrow> (exn + unit) \<times> world" where
  "process_locked e refundNo n userId w =
     (case order_by_no refundNo (wdb w) of
        None \<Rightarrow> (Inr (), w)
      | Some refundOrder \<Rightarrow>
          if list_ex (\<lambda>l. led_transaction l = refundNo) (accountLedgers (wdb w)) then (Inr (), w)
          else case userId of
            None \<Rightarrow> (Inl PrismaValidation, w)
          | Some u \<Rightarrow> (case account_of u (accounts (wdb w)) of
              None \<Rightarrow> (Inr (), w)
            | Some a \<Rightarrow>
                andThen (transaction (process_body e refundOrder refundNo n (acc_id a)) w) (process_record e u n)))"

definition processRefundSuccess :: "env \<Rightarrow> string \<Rightarrow> int \<Rightarrow> string option \<Rightarrow> world \<Rightarrow> (exn + unit) \<times> world" where
  "processRefundSuccess e refundNo n userId = withLock (''refund:process:'' @ refundNo) (process_locked e refundNo n userId)"

subsection \<open>Opening a refund\<close>

text \<open>\<open>Inl\<close> is the ticket of an earlier request with the same key.\<close>

definition refund_ticket :: "TransactionOrder \<Rightarrow> RefundTicket" where
  "refund_ticket x = \<lparr>tk_refundNo = tx_orderNo x,
     tk_channelRefundNo = (if truthy (tx_channelOrderNo x) then the (tx_channelOrderNo x) else []), tk_status = tx_status x\<rparr>"

definition refund_allowed ::
  "int \<Rightarrow> string option \<Rightarrow> db \<Rightarrow> TransactionOrder \<Rightarrow> exn + (RefundTicket + TransactionOrder)" where
  "refund_allowed n key d order =
     throw_if (tx_status order \<noteq> TransactionStatus.SUCCESS) (BadRequest ORDER_NOT_REFUNDABLE)
    (throw_if (tx_amount order - tx_fee order < n) (BadRequest REFUND_AMOUNT_EXCEEDED)
    (case (if truthy key
           then findUnique (\<lambda>r. tx_idem r = key \<and> tx_type r = TransactionType.REFUND) (transactionOrders d) else None) of
       Some x \<Rightarrow> Inr (Inl (refund_ticket x))
     | None \<Rightarrow> bindE (getEnabledConfig (channel_or_mock order) d) (\<lambda>_. Inr (Inr order))))"

definition create_refund_check ::
  "string \<Rightarrow> int \<Rightarrow> string option \<Rightarrow> db \<Rightarrow> exn + (RefundTicket + TransactionOrder)" where
  "create_refund_check orderNo n key d =
     or_throw (order_by_no orderNo d) (NotFound ORDER_NOT_FOUND) (refund_allowed n key d)"

definition channel_refund_order :: "env \<Rightarrow> TransactionOrder \<Rightarrow> int \<Rightarrow> string option \<Rightarrow> string option \<Rightarrow> TransactionOrder" where
  "channel_refund_order e order n reason key =
     \<lparr>tx_id = uuid e 0, tx_orderNo = generateOrderNo e 0 ''RF'', tx_type = TransactionType.REFUND,
      tx_status = TransactionStatus.PENDING, tx_amount = n, tx_fee = 0, tx_from = tx_from order, tx_to = tx_to order,
      tx_remark = remark_or_default reason, tx_related = Some (tx_orderNo order), tx_idem = key, tx_channel = tx_channel order,
      tx_channelOrderNo = None, tx_createdAt = now e, tx_completedAt = None\<rparr>"

definition save_order :: "string \<Rightarrow> (TransactionOrder \<Rightarrow> TransactionOrder) \<Rightarrow> db \<Rightarrow> exn + (unit \<times> db)" where
  "save_order i f d = bindE (update_order i f d) (\<lambda>(_, d'). Inr ((), d'))"

definition answered :: "env \<Rightarrow> RefundResponse \<Rightarrow> TransactionOrder \<Rightarrow> TransactionOrder" where
  "answered e rsp r = settle_status e (refund_status (rsp_status rsp)) (r\<lparr>tx_channelOrderNo := Some (rsp_channelRefundNo rsp)\<rparr>)"

text \<open>What follows the answer of the channel.\<close>

definition refund_settled ::
  "env \<Rightarrow> TransactionOrder \<Rightarrow> TransactionOrder \<Rightarrow> RefundResponse \<Rightarrow> unit \<Rightarrow> world \<Rightarrow> (exn + RefundTicket) \<times> world" where
  "refund_settled e order r rsp u w =
     andThen (if rsp_status rsp = REFUND_SUCCESS
              then processRefundSuccess e (tx_orderNo r) (tx_amount r) (tx_to order) w else (Inr (), w)) (\<lambda>_ w.
       (Inr \<lparr>tk_refundNo = tx_orderNo r, tk_channelRefundNo = rsp_channelRefundNo rsp,
             tk_status = refund_status (rsp_status rsp)\<rparr>, w))"

definition refund_answered ::
  "env \<Rightarrow> TransactionOrder \<Rightarrow> TransactionOrder \<Rightarrow> RefundResponse option \<Rightarrow> world \<Rightarrow> (exn + RefundTicket) \<times> world" where
  "refund_answered e order r answer w =
     (case answer of
        None \<Rightarrow>
          andThen (transaction (save_order (tx_id r) (settle_status e TransactionStatus.FAILED)) w)
            (\<lambda>_ w. (Inl (BadRequest RECHARGE_CHANNEL_FAILED), w))
      | Some rsp \<Rightarrow> andThen (transaction (save_order (tx_id r) (answered e rsp)) w) (refund_settled e order r rsp))"

definition refund_ask ::
  "(string \<Rightarrow> TransactionOrder \<Rightarrow> RefundResponse option) \<Rightarrow> env \<Rightarrow> TransactionOrder \<Rightarrow> TransactionOrder \<Rightarrow> unit \<Rightarrow> world \<Rightarrow>
   (exn + RefundTicket) \<times> world" where
  "refund_ask call e order r u w =
     refund_answered e order r
       (case getChannel (production w) (channel_or_mock order) of Inl _ \<Rightarrow> None | Inr code \<Rightarrow> call code r) w"

definition refund_open :: "TransactionOrder \<Rightarrow> db \<Rightarrow> exn + (unit \<times> db)" where
  "refund_open r d = bindE (createOrder r d) (\<lambda>d'. Inr ((), d'))"

text \<open>The order is created, then marked as being processed, then the channel is asked.\<close>

definition refund_begin ::
  "(string \<Rightarrow> TransactionOrder \<Rightarrow> RefundResponse option) \<Rightarrow> env \<Rightarrow> TransactionOrder \<Rightarrow> TransactionOrder \<Rightarrow> unit \<Rightarrow> world \<Rightarrow>
   (exn + RefundTicket) \<times> world" where
  "refund_begin call e order r u w =
     andThen (transaction (save_order (tx_id r) (\<lambda>r. r\<lparr>tx_status := TransactionStatus.PROCESSING\<rparr>)) w)
       (refund_ask call e order r)"

definition refund_request ::
  "(string \<Rightarrow> TransactionOrder \<Rightarrow> RefundResponse option) \<Rightarrow> env \<Rightarrow> TransactionOrder \<Rightarrow> TransactionOrder \<Rightarrow> world \<Rightarrow>
   (exn + RefundTicket) \<times> world" where
  "refund_request call e order r w = andThen (transaction (refund_open r) w) (refund_begin call e order r)"

fun create_refund_run ::
  "(string \<Rightarrow> TransactionOrder \<Rightarrow> RefundResponse option) \<Rightarrow> env \<Rightarrow> int \<Rightarrow> string option \<Rightarrow> string option \<Rightarrow>
   RefundTicket + TransactionOrder \<Rightarrow> world \<Rightarrow> (exn + RefundTicket) \<times> world" where
  "create_refund_run call e n reason key (Inl ticket) w = (Inr ticket, w)"
| "create_refund_run call e n reason key (Inr order) w = refund_request call e order (channel_refund_order e order n reason key) w"

definition createRefund ::
  "(string \<Rightarrow> TransactionOrder \<Rightarrow> RefundResponse option) \<Rightarrow> env \<Rightarrow> string \<Rightarrow> int \<Rightarrow> string option \<Rightarrow> string option \<Rightarrow>
   world \<Rightarrow> (exn + RefundTicket) \<times> world" where
  "createRefund call e orderNo n reason key w =
     (if n \<le> 0 then (Inl (BadRequest REFUND_AMOUNT_INVALID), w)
      else withLock (''refund:create:'' @ orderNo) (\<lambda>w.
        andThen (create_refund_check orderNo n key (wdb w), w) (create_refund_run call e n reason key)) w)"

subsection \<open>Asking for the state of a refund\<close>

definition query_answered ::
  "env \<Rightarrow> TransactionOrder \<Rightarrow> ChannelRefundStatus \<Rightarrow> world \<Rightarrow> (exn + TransactionStatus) \<times> world" where
  "query_answered e refundOrder st w =
     (let new = refund_status st
      in if new = tx_status refundOrder then (Inr new, w)
         else andThen (transaction (save_order (tx_id refundOrder) (settle_status e new)) w) (\<lambda>_ w.
           andThen (if new = TransactionStatus.SUCCESS \<and> truthy (tx_related refundOrder)
                    then (case order_by_no (the (tx_related refundOrder)) (wdb w) of
                            None \<Rightarrow> (Inr (), w)
                          | Some original \<Rightarrow>
                              processRefundSuccess e (tx_orderNo refundOrder) (tx_amount refundOrder) (tx_to original) w)
                    else (Inr (), w)) (\<lambda>_ w. (Inr new, w))))"

text \<open>Only an order that is being processed is asked for.\<close>

definition queryRefund ::
  "(string \<Rightarrow> string \<Rightarrow> exn + ChannelRefundStatus) \<Rightarrow> env \<Rightarrow> string \<Rightarrow> world \<Rightarrow> (exn + TransactionStatus) \<times> world" where
  "queryRefund query e refundNo w =
     (case order_by_no refundNo (wdb w) of
        None \<Rightarrow> (Inl (NotFound ORDER_NOT_FOUND), w)
      | Some r \<Rightarrow>
          if tx_status r \<in> {TransactionStatus.SUCCESS, TransactionStatus.FAILED, TransactionStatus.PENDING}
          then (Inr (tx_status r), w)
          else andThen (getEnabledConfig (channel_or_mock r) (wdb w), w) (\<lambda>_ w.
            andThen (getChannel (production w) (channel_or_mock r), w) (\<lambda>code w.
              andThen (query code (if truthy (tx_channelOrderNo r) then the (tx_channelOrderNo r) else refundNo), w)
                (query_answered e r))))"

subsection \<open>Callback\<close>

definition callback_sync :: "env \<Rightarrow> TransactionOrder \<Rightarrow> int \<Rightarrow> db \<Rightarrow> exn + (unit \<times> db)" where
  "callback_sync e original n d = bindE (sync_payment e original n d) (\<lambda>d. Inr ((), d))"

definition refund_callback_money :: "env \<Rightarrow> TransactionOrder \<Rightarrow> db \<Rightarrow> exn + (unit \<times> db)" where
  "refund_callback_money e refundOrder d =
     (case (if truthy (tx_related refundOrder) then order_by_no (the (tx_related refundOrder)) d else None) of
        None \<Rightarrow> Inr ((), d)
      | Some original \<Rightarrow>
          if \<not> truthy (tx_to original) then Inr ((), d)
          else bindE (case account_of (the (tx_to original)) (accounts d) of
                 None \<Rightarrow> Inr d
               | Some a \<Rightarrow> take_back (acc_id a) (tx_id refundOrder) (tx_amount refundOrder) d Inr)
                 (callback_sync e original (tx_amount refundOrder)))"

definition callback_settle :: "env \<Rightarrow> RefundCallbackResult \<Rightarrow> TransactionOrder \<Rightarrow> TransactionOrder" where
  "callback_settle e result r = r\<lparr>
     tx_status := (if rcb_status result = REFUND_SUCCESS then TransactionStatus.SUCCESS else TransactionStatus.FAILED),
     tx_channelOrderNo := (if truthy (tx_channelOrderNo r) then tx_channelOrderNo r else Some (rcb_channelRefundNo result)),
     tx_completedAt := Some (now e)\<rparr>"

fun callback_settled :: "env \<Rightarrow> RefundCallbackResult \<Rightarrow> TransactionOrder \<Rightarrow> unit \<times> db \<Rightarrow> exn + (unit \<times> db)" where
  "callback_settled e result r (_, d) = (if rcb_status result = REFUND_SUCCESS then refund_callback_money e r d else Inr ((), d))"

definition callback_open :: "env \<Rightarrow> string \<Rightarrow> RefundCallbackResult \<Rightarrow> db \<Rightarrow> TransactionOrder \<Rightarrow> exn + (unit \<times> db)" where
  "callback_open e channelCode result d r =
     (if tx_status r \<in> {TransactionStatus.SUCCESS, TransactionStatus.FAILED} then Inr ((), d)
      else throw_if (tx_channel r \<noteq> Some channelCode) (BadRequest CALLBACK_CHANNEL_MISMATCH)
        (bindE (save_order (tx_id r) (callback_settle e result) d) (callback_settled e result r)))"

definition refund_callback_body :: "env \<Rightarrow> string \<Rightarrow> RefundCallbackResult \<Rightarrow> db \<Rightarrow> exn + (unit \<times> db)" where
  "refund_callback_body e channelCode result d =
     or_throw (order_by_no (rcb_refundNo result) d) (NotFound ORDER_NOT_FOUND) (callback_open e channelCode result d)"

definition handleRefundCallback ::
  "(string \<Rightarrow> 'b \<Rightarrow> exn + RefundCallbackResult) \<Rightarrow> env \<Rightarrow> string \<Rightarrow> 'b \<Rightarrow> world \<Rightarrow> (exn + unit) \<times> world" where
  "handleRefundCallback parse e channelCode body w =
     andThen (getChannel (production w) channelCode, w) (\<lambda>_ w.
       andThen (getEnabledConfig channelCode (wdb w), w) (\<lambda>_ w.
         andThen (parse channelCode body, w) (\<lambda>result w.
           withLock (''refund:callback:'' @ rcb_refundNo result) (transaction (refund_callback_body e channelCode result)) w)))"

subsection \<open>Statistics\<close>

definition getRefundStats :: "string \<Rightarrow> db \<Rightarrow> nat \<times> int \<times> nat" where
  "getRefundStats u d =
     (let rs = filter (\<lambda>r. tx_type r = TransactionType.REFUND \<and> tx_to r = Some u) (transactionOrders d)
      in (length rs, sum_list (map tx_amount (filter (\<lambda>r. tx_status r = TransactionStatus.SUCCESS) rs)),
          length (filter (\<lambda>r. tx_status r = TransactionStatus.PENDING) rs)))"

subsection \<open>Once and for its amount\<close>

lemma acc_credit_moves: "acc_credit i n t = Inr (b, t') \<Longrightarrow> t' = move_funds i n 0 t"
  by (auto simp: acc_credit_def move_funds_def move_def [abs_def])

lemma take_back_InrE:
  assumes "take_back i ref n d k = Inr r"
  obtains l where "k (add_ledger l (moved i (- n) 0 d)) = Inr r" and "led_amount l = n" and "ledger_ok l"
  using assms by (fastforce simp: take_back_def credit_account_def moved_def ledger_ok_def dest!: acc_credit_moves)

lemma sync_payment_frame: "sync_payment e original n d = Inr d' \<Longrightarrow> \<exists>t. d' = d\<lparr>paymentOrders := t\<rparr>"
  by (auto simp: sync_payment_def Let_def intro: exI [of _ "paymentOrders d"] split: if_splits option.splits)

lemma save_order_Inr [simp]:
  "save_order i f d = Inr (u, d') \<longleftrightarrow> (\<exists>r. findUnique (\<lambda>r. tx_id r = i) (transactionOrders d) = Some r) \<and>
     d' = d\<lparr>transactionOrders := updateRows (\<lambda>r. tx_id r = i) f (transactionOrders d)\<rparr>"
  by (auto simp: save_order_def update_order_def)

lemma order_by_no_rows:
  assumes "\<And>r. P r \<Longrightarrow> tx_orderNo (f r) = tx_orderNo r"
  shows "order_by_no no (d\<lparr>transactionOrders := updateRows P f (transactionOrders d)\<rparr>) =
    map_option (\<lambda>r. if P r then f r else r) (order_by_no no d)"
  using findUnique_updateRows [where key = tx_orderNo and P = P and f = f] assms by (simp add: order_by_no_def)

text \<open>The money of a callback is the account of the user the original order was paid to.\<close>

lemma refund_callback_money_Inr:
  assumes run: "refund_callback_money e r d = Inr (u, d')" and ok: "accounts_ok (accounts d)"
    and rel: "truthy (tx_related r)" "order_by_no (the (tx_related r)) d = Some original"
    and payee: "truthy (tx_to original)" "account_of (the (tx_to original)) (accounts d) = Some a"
  shows "\<forall>v. available_of v (accounts d') = available_of v (accounts d) - (if v = the (tx_to original) then tx_amount r else 0)"
    and "transactionOrders d' = transactionOrders d"
proof -
  obtain d1 where t: "take_back (acc_id a) (tx_id r) (tx_amount r) d Inr = Inr d1"
    and s: "sync_payment e original (tx_amount r) d1 = Inr d'"
    using run rel payee by (auto simp: refund_callback_money_def callback_sync_def)
  obtain l where d1: "d1 = add_ledger l (moved (acc_id a) (- tx_amount r) 0 d)"
    using t by (auto elim!: take_back_InrE)
  obtain p where d': "d' = d1\<lparr>paymentOrders := p\<rparr>" using sync_payment_frame [OF s] by blast
  have "a \<in> set (accounts d)" "acc_user a = the (tx_to original)" using account_of_SomeD [OF payee(2)] by auto
  then show "\<forall>v. available_of v (accounts d') = available_of v (accounts d) - (if v = the (tx_to original) then tx_amount r else 0)"
    using available_of_move [OF ok] by (auto simp: d' d1)
  show "transactionOrders d' = transactionOrders d" by (simp add: d' d1)
qed

text \<open>
  C27. A callback that reports an open refund, sent or accepted, as paid takes exactly its amount from the account the
  original order was paid into and from no other; whatever callbacks report of it afterwards, from whichever channel,
  changes nothing. (This is about callbacks: the answer the request itself still waits for can
  take the amount again, \<open>refund_taken_twice\<close>.)
\<close>

theorem channel_refund_settles_once:
  assumes "refund_callback_body e code res d = Inr ((), d')" and "accounts_ok (accounts d)"
    and "order_by_no (rcb_refundNo res) d = Some r"
    and "tx_status r \<in> {TransactionStatus.PENDING, TransactionStatus.PROCESSING}"
    and "rcb_status res = REFUND_SUCCESS" and "truthy (tx_related r)"
    and "order_by_no (the (tx_related r)) d = Some original" and "truthy (tx_to original)"
    and "account_of (the (tx_to original)) (accounts d) = Some a" and "rcb_refundNo res' = rcb_refundNo res"
  shows "(\<forall>v. available_of v (accounts d') =
      available_of v (accounts d) - (if v = the (tx_to original) then tx_amount r else 0)) \<and>
    refund_callback_body e' code' res' d' = Inr ((), d')"
proof -
  let ?t = "updateRows (\<lambda>s. tx_id s = tx_id r) (callback_settle e res) (transactionOrders d)"
  let ?d = "d\<lparr>transactionOrders := ?t\<rparr>"
  have run: "refund_callback_money e r ?d = Inr ((), d')" using assms(1,3-5) by (auto simp: refund_callback_body_def callback_open_def)
  have rows: "order_by_no no ?d = map_option (\<lambda>s. if tx_id s = tx_id r then callback_settle e res s else s) (order_by_no no d)" for no
    by (rule order_by_no_rows) (simp add: callback_settle_def)
  define o' where "o' = (if tx_id original = tx_id r then callback_settle e res original else original)"
  have o': "order_by_no (the (tx_related r)) ?d = Some o'" "tx_to o' = tx_to original"
    by (simp_all add: rows assms(7) o'_def callback_settle_def)
  note m = refund_callback_money_Inr [OF run _ assms(6) o'(1), unfolded o'(2)]
  have "available_of v (accounts d') = available_of v (accounts d) - (if v = the (tx_to original) then tx_amount r else 0)" for v
    using m(1) [where a = a] assms(2,8,9) by simp
  moreover have "transactionOrders d' = ?t" using m(2) [where a = a] assms(2,8,9) by simp
  then have "order_by_no (rcb_refundNo res) d' = order_by_no (rcb_refundNo res) ?d" by (simp add: order_by_no_def)
  then have "order_by_no (rcb_refundNo res) d' = Some (callback_settle e res r)" by (simp add: rows assms(3))
  then have "refund_callback_body e' code' res' d' = Inr ((), d')"
    by (simp add: refund_callback_body_def callback_open_def assms(5,10) callback_settle_def)
  ultimately show ?thesis by blast
qed

text \<open>The mark that would stop a second deduction, a ledger row under the number of the refund, is not what the callback writes.\<close>

lemma process_locked_InrE:
  assumes "process_locked e no n (Some u) w = (Inr x, w')" and "order_by_no no (wdb w) = Some r"
    and "account_of u (accounts (wdb w)) = Some a" and "\<not> list_ex (\<lambda>l. led_transaction l = no) (accountLedgers (wdb w))"
  shows "accounts (wdb w') = move_funds (acc_id a) (- n) 0 (accounts (wdb w))"
proof -
  obtain d' where body: "process_body e r no n (acc_id a) (wdb w) = Inr ((), d')" and w': "wdb w' = d'"
    using assms by (auto simp: process_locked_def process_record_def record_quietly_def)
  let ?d = "if tx_status r = TransactionStatus.PROCESSING
    then wdb w\<lparr>transactionOrders := updateRows (\<lambda>s. tx_id s = tx_id r \<and> tx_status s = TransactionStatus.PROCESSING)
      (settle_status e TransactionStatus.SUCCESS) (transactionOrders (wdb w))\<rparr> else wdb w"
  obtain l d2 where d2: "d2 = add_ledger l (moved (acc_id a) (- n) 0 ?d)" and rest: "process_sync e r n d2 = Inr ((), d')"
    using body unfolding process_body_def Let_def by (elim take_back_InrE) blast
  have "accounts d' = accounts d2"
    using rest by (auto simp: process_sync_def dest!: sync_payment_frame split: if_splits option.splits)
  then show ?thesis by (simp add: w' d2 add_ledger_def)
qed

lemma refund_callback_money_accounts:
  assumes run: "refund_callback_money e r d = Inr (u, d')"
    and rel: "truthy (tx_related r)" "order_by_no (the (tx_related r)) d = Some original"
    and payee: "truthy (tx_to original)" "account_of (the (tx_to original)) (accounts d) = Some a"
  shows "accounts d' = move_funds (acc_id a) (- tx_amount r) 0 (accounts d)"
    and "\<exists>l. accountLedgers d' = accountLedgers d @ [l] \<and> led_transaction l = tx_id r"
proof -
  obtain d1 where t: "take_back (acc_id a) (tx_id r) (tx_amount r) d Inr = Inr d1"
    and s: "sync_payment e original (tx_amount r) d1 = Inr d'"
    using run rel payee by (auto simp: refund_callback_money_def callback_sync_def)
  obtain p where d': "d' = d1\<lparr>paymentOrders := p\<rparr>" using sync_payment_frame [OF s] by blast
  from t obtain l b t' where "acc_credit (acc_id a) (- tx_amount r) (accounts d) = Inr (b, t')"
    and d1: "d1 = add_ledger l (d\<lparr>accounts := t'\<rparr>)" "led_transaction l = tx_id r"
    by (fastforce simp: take_back_def credit_account_def)
  then show "accounts d' = move_funds (acc_id a) (- tx_amount r) 0 (accounts d)"
    and "\<exists>l. accountLedgers d' = accountLedgers d @ [l] \<and> led_transaction l = tx_id r"
    by (simp_all add: d' acc_credit_moves add_ledger_def)
qed

lemma available_of_moves:
  assumes "accounts_ok t" and "account_of u t = Some a"
  shows "available_of v (move_funds (acc_id a) y 0 (move_funds (acc_id a) x 0 t)) = available_of v t + (if v = u then x + y else 0)"
proof -
  have "move_funds (acc_id a) y 0 (move_funds (acc_id a) x 0 t) = move_funds (acc_id a) (x + y) 0 t"
    by (simp add: move_funds_def updateRows_def move_def)
  moreover have "a \<in> set t" "acc_user a = u" using account_of_SomeD [OF assms(2)] by auto
  ultimately show ?thesis using available_of_move [OF assms(1)] by auto
qed

text \<open>
  While a request waits for the answer of the channel, the channel may already report the refund as paid. The callback
  deducts the amount; then the answer arrives, the request looks for a ledger row under the number of the refund, finds
  none, because the callback writes the row under the identifier of the order, and deducts the amount again.
\<close>

theorem refund_taken_twice:
  assumes "refund_callback_body e code res d = Inr ((), d')" and "accounts_ok (accounts d)"
    and "order_by_no (rcb_refundNo res) d = Some row"
    and "tx_status row \<in> {TransactionStatus.PENDING, TransactionStatus.PROCESSING}"
    and "rcb_status res = REFUND_SUCCESS" and "truthy (tx_related row)"
    and "order_by_no (the (tx_related row)) d = Some original" and "tx_to original = Some payee" and "payee \<noteq> []"
    and "account_of payee (accounts d) = Some a"
    and "\<not> list_ex (\<lambda>l. led_transaction l = rcb_refundNo res) (accountLedgers d)" and "tx_id row \<noteq> rcb_refundNo res"
    and "tx_id r = tx_id row" and "tx_orderNo r = rcb_refundNo res" and "tx_amount r = tx_amount row" and "tx_to order = Some payee"
    and "rsp_status rsp = REFUND_SUCCESS"
    and "refund_answered e' order r (Some rsp) (w\<lparr>wdb := d'\<rparr>) = (Inr tk, w')"
  shows "available_of v (accounts (wdb w')) = available_of v (accounts d) - (if v = payee then 2 * tx_amount row else 0)"
proof -
  let ?t = "updateRows (\<lambda>s. tx_id s = tx_id row) (callback_settle e res) (transactionOrders d)"
  let ?d = "d\<lparr>transactionOrders := ?t\<rparr>"
  have run: "refund_callback_money e row ?d = Inr ((), d')" using assms(1,3-5) by (auto simp: refund_callback_body_def callback_open_def)
  have rows: "order_by_no no ?d = map_option (\<lambda>s. if tx_id s = tx_id row then callback_settle e res s else s) (order_by_no no d)" for no
    by (rule order_by_no_rows) (simp add: callback_settle_def)
  define o' where "o' = (if tx_id original = tx_id row then callback_settle e res original else original)"
  have o': "order_by_no (the (tx_related row)) ?d = Some o'" "tx_to o' = Some payee"
    using assms(8) by (simp_all add: rows assms(7) o'_def callback_settle_def)
  have acc: "account_of (the (tx_to o')) (accounts ?d) = Some a" and tr: "truthy (tx_to o')"
    using assms(9,10) o'(2) by (simp_all add: truthy_def)
  note m = refund_callback_money_accounts [OF run assms(6) o'(1) tr acc]
  have m2: "transactionOrders d' = ?t" using refund_callback_money_Inr(2) [OF run _ assms(6) o'(1) tr acc] assms(2) by simp
  let ?r = "updateRows (\<lambda>s. tx_id s = tx_id r) (answered e' rsp) (transactionOrders d')"
  let ?w = "w\<lparr>wdb := d'\<lparr>transactionOrders := ?r\<rparr>\<rparr>"
  obtain w2 where prs: "processRefundSuccess e' (tx_orderNo r) (tx_amount r) (tx_to order) ?w = (Inr (), w2)" and w2: "wdb w' = wdb w2"
    using assms(17,18) by (auto simp: refund_answered_def refund_settled_def)
  obtain w3 w4 where w3: "wdb w3 = wdb ?w" and pl: "process_locked e' (rcb_refundNo res) (tx_amount row) (Some payee) w3 = (Inr (), w4)"
    and w4: "wdb w2 = wdb w4"
    by (rule withLock_InrE [OF prs [unfolded processRefundSuccess_def assms(14-16)]])
  have "\<exists>s. order_by_no (rcb_refundNo res) (wdb w3) = Some s"
    using assms(3) by (simp add: w3 order_by_no_def m2 findUnique_updateRows callback_settle_def answered_def settle_status_def)
  then obtain s where s: "order_by_no (rcb_refundNo res) (wdb w3) = Some s" ..
  let ?b = "move (- tx_amount row) 0 a"
  have b: "account_of payee (accounts (wdb w3)) = Some ?b" using assms(10) m(1) by (simp add: w3 account_of_move)
  have led: "\<not> list_ex (\<lambda>l. led_transaction l = rcb_refundNo res) (accountLedgers (wdb w3))"
    using m(2) assms(11,12) by (auto simp: w3)
  have "accounts (wdb w') = move_funds (acc_id a) (- tx_amount row) 0 (move_funds (acc_id a) (- tx_amount row) 0 (accounts d))"
    using process_locked_InrE [OF pl s b led] m(1) by (simp add: w2 w4 w3)
  then show ?thesis using available_of_moves [OF assms(2,10)] by simp
qed

text \<open>A refund of three yuan out of a recharge of Alice.\<close>

definition refund_row :: TransactionOrder where
  "refund_row = sample_recharge\<lparr>tx_id := ''T2'', tx_orderNo := ''RF1'', tx_type := TransactionType.REFUND,
     tx_status := TransactionStatus.PROCESSING, tx_amount := 300, tx_related := Some ''R1'', tx_idem := None\<rparr>"

definition refund_db :: db where
  "refund_db = sample_db\<lparr>transactionOrders := [sample_recharge\<lparr>tx_status := TransactionStatus.SUCCESS\<rparr>, refund_row]\<rparr>"

definition refund_report :: RefundCallbackResult where
  "refund_report = \<lparr>rcb_refundNo = ''RF1'', rcb_channelRefundNo = ''X1'', rcb_status = REFUND_SUCCESS\<rparr>"

lemma refund_report_runs: "isl (refund_callback_body sample_env ''wechat'' refund_report refund_db) = False"
  by code_simp

definition refund_answer :: RefundResponse where
  "refund_answer = \<lparr>rsp_channelRefundNo = ''X1'', rsp_status = REFUND_SUCCESS\<rparr>"

definition reported_world :: world where
  "reported_world = sample_world\<lparr>wdb := snd (projr (refund_callback_body sample_env ''wechat'' refund_report refund_db))\<rparr>"

lemma refund_answer_runs:
  "isl (fst (refund_answered sample_env sample_recharge refund_row (Some refund_answer) reported_world)) = False"
  by code_simp

corollary refund_taken_twice_witness:
  "\<exists>tk w'. refund_answered sample_env sample_recharge refund_row (Some refund_answer) reported_world = (Inr tk, w') \<and>
     available_of ''bob'' (accounts (wdb w')) = available_of ''bob'' (accounts sample_db) - 600"
proof -
  obtain d' where run: "refund_callback_body sample_env ''wechat'' refund_report refund_db = Inr ((), d')"
    using not_isl_pair [OF refund_report_runs] by auto
  obtain tk w' where ans: "refund_answered sample_env sample_recharge refund_row (Some refund_answer) (sample_world\<lparr>wdb := d'\<rparr>) = (Inr tk, w')"
    using not_isl_fst [OF refund_answer_runs] by (auto simp: reported_world_def run)
  have ok: "accounts_ok (accounts refund_db)" using sample_books_ok by (simp add: refund_db_def books_ok_def)
  have r: "order_by_no (rcb_refundNo refund_report) refund_db = Some refund_row"
    by (simp add: order_by_no_def refund_report_def refund_db_def refund_row_def sample_recharge_def)
  have o': "order_by_no (the (tx_related refund_row)) refund_db = Some (sample_recharge\<lparr>tx_status := TransactionStatus.SUCCESS\<rparr>)"
    by (simp add: order_by_no_def refund_db_def refund_row_def sample_recharge_def)
  have "available_of ''bob'' (accounts (wdb w')) = available_of ''bob'' (accounts refund_db) - (if ''bob'' = ''bob'' then 2 * tx_amount refund_row else 0)"
    by (rule refund_taken_twice [OF run ok r _ _ _ o' _ _ _ _ _ _ _ _ _ _ ans, where a = "sample_account ''A2'' ''bob'' 500 0"])
      (simp_all add: refund_row_def refund_report_def refund_answer_def refund_db_def account_of_def truthy_def sample_defs)
  then have "available_of ''bob'' (accounts (wdb w')) = available_of ''bob'' (accounts sample_db) - 600"
    by (simp add: refund_db_def refund_row_def)
  moreover have "reported_world = sample_world\<lparr>wdb := d'\<rparr>" by (simp add: reported_world_def run)
  ultimately show ?thesis using ans by metis
qed

corollary channel_refund_settles_once_witness:
  "\<exists>d'. refund_callback_body sample_env ''wechat'' refund_report refund_db = Inr ((), d') \<and>
     available_of ''bob'' (accounts d') = available_of ''bob'' (accounts sample_db) - 300 \<and>
     refund_callback_body sample_env ''alipay'' refund_report d' = Inr ((), d')"
proof -
  obtain d' where run: "refund_callback_body sample_env ''wechat'' refund_report refund_db = Inr ((), d')"
    using not_isl_pair [OF refund_report_runs] by auto
  have ok: "accounts_ok (accounts refund_db)" using sample_books_ok by (simp add: refund_db_def books_ok_def)
  have r: "order_by_no (rcb_refundNo refund_report) refund_db = Some refund_row"
    by (simp add: order_by_no_def refund_report_def refund_db_def refund_row_def sample_recharge_def)
  have o': "order_by_no (the (tx_related refund_row)) refund_db = Some (sample_recharge\<lparr>tx_status := TransactionStatus.SUCCESS\<rparr>)"
    by (simp add: order_by_no_def refund_db_def refund_row_def sample_recharge_def)
  from channel_refund_settles_once [OF run ok r _ _ _ o' _ _ refl, of "sample_account ''A2'' ''bob'' 500 0" sample_env "''alipay''"] run
  show ?thesis
    by (simp add: refund_row_def refund_report_def refund_db_def account_of_def truthy_def sample_defs)
qed

subsection \<open>What the service does not promise\<close>

lemma getEnabledConfig_cong: "channelConfigs d' = channelConfigs d \<Longrightarrow> getEnabledConfig code d' = getEnabledConfig code d"
  by (simp add: getEnabledConfig_def)

text \<open>The row of a refund under way, by its number and its identifier.\<close>

definition refund_is :: "string \<Rightarrow> string \<Rightarrow> TransactionStatus \<Rightarrow> db \<Rightarrow> bool" where
  "refund_is no i st d = (\<exists>r. order_by_no no d = Some r \<and> tx_id r = i \<and> tx_status r = st)"

lemma refund_open_is:
  assumes "refund_open r d = Inr (u, d')"
  shows "refund_is (tx_orderNo r) (tx_id r) (tx_status r) d'"
proof -
  have "findUnique (\<lambda>s. tx_orderNo s = tx_orderNo r) (transactionOrders d) = None"
    using assms by (auto simp: refund_open_def createOrder_Inr tx_conflict_def findUnique_None)
  then show ?thesis using assms
    by (auto simp: refund_open_def createOrder_Inr refund_is_def order_by_no_def findUnique_append)
qed

lemma save_order_is:
  assumes "save_order i f d = Inr (u, d')" and "refund_is no i st d" and "\<And>r. tx_orderNo (f r) = tx_orderNo r \<and> tx_id (f r) = tx_id r"
    and "\<And>r. tx_status (f r) = st'"
  shows "refund_is no i st' d'"
  using assms by (auto simp: refund_is_def order_by_no_rows)

lemma refund_request_pending:
  assumes run: "refund_request call e order r w = (Inr tk, w')" and st: "tk_status tk = TransactionStatus.PENDING"
  shows "refund_is (tk_refundNo tk) (tx_id r) TransactionStatus.PENDING (wdb w')"
proof -
  obtain d1 d2 where o1: "refund_open r (wdb w) = Inr ((), d1)"
    and s1: "save_order (tx_id r) (\<lambda>r. r\<lparr>tx_status := TransactionStatus.PROCESSING\<rparr>) d1 = Inr ((), d2)"
    and ask: "refund_ask call e order r () (w\<lparr>wdb := d2\<rparr>) = (Inr tk, w')"
    using run unfolding refund_request_def refund_begin_def by auto
  have p: "refund_is (tx_orderNo r) (tx_id r) TransactionStatus.PROCESSING d2"
    using save_order_is [OF s1 refund_open_is [OF o1]] by simp
  obtain rsp where rsp: "refund_answered e order r (Some rsp) (w\<lparr>wdb := d2\<rparr>) = (Inr tk, w')"
    using ask unfolding refund_ask_def
    by (cases "case getChannel (production (w\<lparr>wdb := d2\<rparr>)) (channel_or_mock order) of Inl x \<Rightarrow> None | Inr code \<Rightarrow> call code r")
      (auto simp: refund_answered_def simp del: save_order_Inr)
  then have no: "tk_refundNo tk = tx_orderNo r" and rs: "refund_status (rsp_status rsp) = TransactionStatus.PENDING"
    using st by (auto simp: refund_answered_def refund_settled_def split: if_splits)
  then have "rsp_status rsp = REFUND_PENDING" by (cases "rsp_status rsp") auto
  then have "save_order (tx_id r) (answered e rsp) d2 = Inr ((), wdb w')"
    using rsp by (auto simp: refund_answered_def refund_settled_def simp del: save_order_Inr)
  then show ?thesis unfolding no by (rule save_order_is [OF _ p]) (simp_all add: answered_def settle_status_def rs)
qed

lemma createRefund_InrE:
  assumes "createRefund call e orderNo n reason None w = (Inr tk, w')"
  obtains w1 w2 order where "create_refund_check orderNo n None (wdb w1) = Inr (Inr order)" and "wdb w' = wdb w2"
    and "refund_request call e order (channel_refund_order e order n reason None) w1 = (Inr tk, w2)"
proof -
  have "withLock (''refund:create:'' @ orderNo) (\<lambda>w.
      andThen (create_refund_check orderNo n None (wdb w), w) (create_refund_run call e n reason None)) w = (Inr tk, w')"
    using assms by (auto simp: createRefund_def split: if_splits)
  then obtain w1 w2 where w': "wdb w' = wdb w2"
    and run: "andThen (create_refund_check orderNo n None (wdb w1), w1) (create_refund_run call e n reason None) = (Inr tk, w2)"
    by (rule withLock_InrE)
  obtain x where x: "create_refund_check orderNo n None (wdb w1) = Inr x" and k: "create_refund_run call e n reason None x w1 = (Inr tk, w2)"
    using run by auto
  obtain order where "x = Inr order" using x by (auto simp: create_refund_check_def refund_allowed_def truthy_def)
  with x k show thesis by (intro that [OF _ w']) auto
qed

text \<open>
  A refund that the channel has accepted without finishing it is left in the status of one that was never sent: however often its
  state is queried, and whatever the channel would answer, the channel is not asked and the refund stays open.
\<close>

theorem accepted_refund_never_queried:
  assumes "createRefund call e orderNo n reason None w = (Inr tk, w')" and "tk_status tk = TransactionStatus.PENDING"
  shows "queryRefund query e' (tk_refundNo tk) w' = (Inr TransactionStatus.PENDING, w')"
proof -
  obtain w1 w2 order where w': "wdb w' = wdb w2"
    and run: "refund_request call e order (channel_refund_order e order n reason None) w1 = (Inr tk, w2)"
    by (rule createRefund_InrE [OF assms(1)])
  from refund_request_pending [OF run assms(2)] show ?thesis
    by (auto simp: refund_is_def queryRefund_def w' split: option.splits)
qed

text \<open>A small platform: Bob recharged seven yuan.\<close>

definition refunded_world :: world where
  "refunded_world = sample_world\<lparr>wdb := empty_db\<lparr>accounts := [sample_account ''A2'' ''bob'' 500 0],
     transactionOrders := [sample_recharge\<lparr>tx_status := TransactionStatus.SUCCESS\<rparr>],
     channelConfigs := [\<lparr>pc_code = ''wechat'', pc_type = ''BOTH'', pc_enabled = True, pc_priority = 1\<rparr>]\<rparr>\<rparr>"

definition answers :: "ChannelRefundStatus \<Rightarrow> string \<Rightarrow> TransactionOrder \<Rightarrow> RefundResponse option" where
  "answers st code r = Some \<lparr>rsp_channelRefundNo = ''X1'', rsp_status = st\<rparr>"

lemma accepted_refund_runs:
  "(case fst (createRefund (answers REFUND_PENDING) sample_env ''R1'' 300 None None refunded_world) of
      Inl x \<Rightarrow> False | Inr tk \<Rightarrow> tk_status tk = TransactionStatus.PENDING) = True"
  by code_simp

corollary accepted_refund_never_queried_witness:
  "\<exists>tk w'. createRefund (answers REFUND_PENDING) sample_env ''R1'' 300 None None refunded_world = (Inr tk, w') \<and>
     queryRefund (\<lambda>_ _. Inr REFUND_SUCCESS) sample_env (tk_refundNo tk) w' = (Inr TransactionStatus.PENDING, w')"
proof -
  obtain tk w' where run: "createRefund (answers REFUND_PENDING) sample_env ''R1'' 300 None None refunded_world = (Inr tk, w')"
    and "tk_status tk = TransactionStatus.PENDING"
    using accepted_refund_runs
    by (cases "createRefund (answers REFUND_PENDING) sample_env ''R1'' 300 None None refunded_world") (auto split: sum.splits)
  from accepted_refund_never_queried [OF this] this(1) show ?thesis by blast
qed

text \<open>An order that may be refunded by \<open>n\<close>, other than the row \<open>i\<close>.\<close>

definition refundable :: "string \<Rightarrow> int \<Rightarrow> string \<Rightarrow> db \<Rightarrow> bool" where
  "refundable no n i d = (\<exists>order. create_refund_check no n None d = Inr (Inr order) \<and> tx_id order \<noteq> i)"

lemma refundable_iff:
  "refundable no n i d \<longleftrightarrow> (\<exists>order c. order_by_no no d = Some order \<and> tx_status order = TransactionStatus.SUCCESS \<and>
     n \<le> tx_amount order - tx_fee order \<and> getEnabledConfig (channel_or_mock order) d = Inr c \<and> tx_id order \<noteq> i)"
  by (auto simp: refundable_def create_refund_check_def refund_allowed_def truthy_def)

lemma refundable_cong:
  "transactionOrders d' = transactionOrders d \<Longrightarrow> channelConfigs d' = channelConfigs d \<Longrightarrow> refundable no n i d' = refundable no n i d"
  by (simp add: refundable_iff order_by_no_def getEnabledConfig_def)

text \<open>A change of rows that leaves completed orders other than \<open>i\<close> alone.\<close>

lemma refundable_rows:
  assumes "refundable no n i d" and "\<And>r. P r \<Longrightarrow> tx_orderNo (f r) = tx_orderNo r"
    and "\<And>r. P r \<Longrightarrow> tx_id r = i \<or> tx_status r \<noteq> TransactionStatus.SUCCESS"
  shows "refundable no n i (d\<lparr>transactionOrders := updateRows P f (transactionOrders d)\<rparr>)"
proof -
  obtain order c where o1: "order_by_no no d = Some order" "tx_status order = TransactionStatus.SUCCESS" "tx_id order \<noteq> i"
    and o2: "n \<le> tx_amount order - tx_fee order" "getEnabledConfig (channel_or_mock order) d = Inr c"
    using assms(1) by (auto simp: refundable_iff)
  have "\<not> P order" using assms(3) o1 by blast
  then have "order_by_no no (d\<lparr>transactionOrders := updateRows P f (transactionOrders d)\<rparr>) = Some order"
    using o1(1) by (simp add: order_by_no_rows [OF assms(2)])
  with o1 o2 show ?thesis by (auto simp: refundable_iff getEnabledConfig_def)
qed

lemma process_body_refundable:
  assumes "process_body e r refundNo m a d = Inr (u, d')" and "refundable no n i d"
  shows "refundable no n i d'"
proof -
  let ?P = "\<lambda>s. tx_id s = tx_id r \<and> tx_status s = TransactionStatus.PROCESSING"
  let ?d = "if tx_status r = TransactionStatus.PROCESSING
    then d\<lparr>transactionOrders := updateRows ?P (settle_status e TransactionStatus.SUCCESS) (transactionOrders d)\<rparr> else d"
  obtain l d2 where d2: "d2 = add_ledger l (moved a (- m) 0 ?d)"
    and rest: "process_sync e r m d2 = Inr (u, d')"
    using assms(1) unfolding process_body_def Let_def by (elim take_back_InrE) blast
  then have d': "\<exists>t. d' = d2\<lparr>paymentOrders := t\<rparr>"
    by (auto simp: process_sync_def intro: exI [of _ "paymentOrders d2"] dest!: sync_payment_frame split: if_splits option.splits)
  have "refundable no n i ?d" using assms(2) by (auto intro!: refundable_rows simp: settle_status_def)
  moreover have "transactionOrders d' = transactionOrders ?d" "channelConfigs d' = channelConfigs ?d"
    using d' by (auto simp: d2 add_ledger_def moved_def)
  ultimately show ?thesis using refundable_cong by blast
qed

lemma keeps_process: "refundable no n i (wdb w) \<Longrightarrow> keeps (refundable no n i) (processRefundSuccess e refundNo m u w)"
  unfolding processRefundSuccess_def process_locked_def process_record_def
  by (intro keep) (simp_all, blast intro: process_body_refundable)

lemma keeps_refund_answered:
  "refundable no n (tx_id r) (wdb w) \<Longrightarrow> keeps (refundable no n (tx_id r)) (refund_answered e order r answer w)"
  unfolding refund_answered_def refund_settled_def
  by (intro keep keeps_process)
    (auto intro!: refundable_rows keeps_process simp: settle_status_def answered_def)

text \<open>
  C28. Nothing limits what is paid back for an order in all: after any refund of it that was answered, a refund of the same amount passes
  every check of the service again.
\<close>

theorem refunds_add_up_unchecked:
  assumes "createRefund call e orderNo n reason None w = (Inr tk, w')"
  shows "\<exists>order. create_refund_check orderNo n None (wdb w') = Inr (Inr order)"
proof -
  obtain w1 w2 order where chk: "create_refund_check orderNo n None (wdb w1) = Inr (Inr order)" and w': "wdb w' = wdb w2"
    and run: "refund_request call e order (channel_refund_order e order n reason None) w1 = (Inr tk, w2)"
    by (rule createRefund_InrE [OF assms])
  define r where "r = channel_refund_order e order n reason None"
  obtain d1 d2 where o1: "refund_open r (wdb w1) = Inr ((), d1)"
    and s1: "save_order (tx_id r) (\<lambda>r. r\<lparr>tx_status := TransactionStatus.PROCESSING\<rparr>) d1 = Inr ((), d2)"
    and ask: "refund_ask call e order r () (w1\<lparr>wdb := d2\<rparr>) = (Inr tk, w2)"
    using run unfolding refund_request_def refund_begin_def r_def [symmetric] by auto
  have o: "order_by_no orderNo (wdb w1) = Some order" using chk by (auto simp: create_refund_check_def refund_allowed_def truthy_def)
  then have "order \<in> set (transactionOrders (wdb w1))" by (auto simp: order_by_no_def dest: findUnique_in)
  then have "tx_id order \<noteq> tx_id r" using o1 by (auto simp: refund_open_def createOrder_Inr tx_conflict_def)
  then have "refundable orderNo n (tx_id r) (wdb w1)" using chk by (auto simp: refundable_def)
  then have "refundable orderNo n (tx_id r) d1"
    using o1 by (auto simp: refund_open_def createOrder_Inr refundable_iff order_by_no_def findUnique_append getEnabledConfig_def)
  then have "refundable orderNo n (tx_id r) d2" using s1 by (auto intro: refundable_rows)
  then have "keeps (refundable orderNo n (tx_id r)) (refund_ask call e order r () (w1\<lparr>wdb := d2\<rparr>))"
    unfolding refund_ask_def by (intro keeps_refund_answered) simp
  then show ?thesis using ask by (auto simp: keeps_def w' refundable_def)
qed

lemma second_refund_runs: "isl (fst (createRefund (answers REFUND_SUCCESS) sample_env ''R1'' 400 None None refunded_world)) = False"
  by code_simp

corollary refunds_add_up_unchecked_witness:
  "\<exists>tk w' order. createRefund (answers REFUND_SUCCESS) sample_env ''R1'' 400 None None refunded_world = (Inr tk, w') \<and>
     create_refund_check ''R1'' 400 None (wdb w') = Inr (Inr order)"
proof -
  obtain tk w' where run: "createRefund (answers REFUND_SUCCESS) sample_env ''R1'' 400 None None refunded_world = (Inr tk, w')"
    using not_isl_fst [OF second_refund_runs] by blast
  from refunds_add_up_unchecked [OF run] run show ?thesis by blast
qed

end
