(* ===== verification/Settlement.thy ===== *)
theory Settlement
  imports Cashier Shifts
begin

text \<open>
  The daily settlement of merchants (notifications/settlement.service.ts and its schedule): the paid
  orders of the day before that no settlement has marked yet are grouped by merchant; each group is
  marked, its amounts less fees are credited to the merchant's account, and the merchant is
  told by mail. Sending mail never throws and touches no table, so it is left out; the ledger row
  has the literal direction \<open>IN\<close> and type \<open>SETTLEMENT\<close>.

  The lemmas: what a run credits is the sum over the orders it found, and because the cashier has credited
  the merchant at the payment already, the money of an order is paid out twice.
\<close>

subsection \<open>The orders of a run\<close>

datatype SettlementStatus = SUCCESS | SKIPPED | ERROR

record SettlementResult =
  sr_merchant :: string
  sr_orderCount :: nat
  sr_totalAmount :: int
  sr_totalFee :: int
  sr_settleAmount :: int
  sr_status :: SettlementStatus

text \<open>Paid on the UTC day before \<open>t\<close> and not settled.\<close>

definition due :: "int \<Rightarrow> PaymentOrder \<Rightarrow> bool" where
  "due t r = (pay_status r = PaymentOrderStatus.PAID \<and>
     (case pay_paidAt r of Some p \<Rightarrow> utc_day p = utc_day t - 1 | None \<Rightarrow> False) \<and> pay_settledAt r = None)"

text \<open>The JavaScript \<open>Map\<close> of groups, in the order the merchants are first seen.\<close>

fun add_to_group :: "PaymentOrder \<Rightarrow> (string \<times> PaymentOrder list) list \<Rightarrow> (string \<times> PaymentOrder list) list" where
  "add_to_group r [] = [(pay_merchant r, [r])]"
| "add_to_group r ((m, rs) # gs) =
     (if m = pay_merchant r then (m, rs @ [r]) # gs else (m, rs) # add_to_group r gs)"

definition merchantGroups :: "PaymentOrder list \<Rightarrow> (string \<times> PaymentOrder list) list" where
  "merchantGroups rs = foldl (\<lambda>gs r. add_to_group r gs) [] rs"

definition total_amount :: "PaymentOrder list \<Rightarrow> int" where "total_amount rs = sum_list (map pay_amount rs)"

definition total_fee :: "PaymentOrder list \<Rightarrow> int" where "total_fee rs = sum_list (map pay_fee rs)"

subsection \<open>Settling\<close>

definition mark_settled :: "int \<Rightarrow> string list \<Rightarrow> db \<Rightarrow> db" where
  "mark_settled t ids d =
     d\<lparr>paymentOrders := updateRows (\<lambda>r. pay_id r \<in> set ids) (\<lambda>r. r\<lparr>pay_settledAt := Some t\<rparr>) (paymentOrders d)\<rparr>"

definition settle_payable :: "int \<Rightarrow> db \<Rightarrow> exn + (unit \<times> db)" where
  "settle_payable amount d =
     (case findUnique (\<lambda>p. pa_code p = ''MERCHANT_PAYABLE'') (platformAccounts d) of
        None \<Rightarrow> Inr ((), d)
      | Some _ \<Rightarrow>
          bindE (updateOne P2025 IntOutOfRange (\<lambda>p. int32 (pa_balance p)) (\<lambda>p. pa_code p = ''MERCHANT_PAYABLE'')
                   (\<lambda>p. p\<lparr>pa_balance := pa_balance p - amount\<rparr>) (platformAccounts d))
            (\<lambda>(_, t). Inr ((), d\<lparr>platformAccounts := t\<rparr>)))"

definition settle_row :: "env \<Rightarrow> string \<Rightarrow> Account \<Rightarrow> int \<Rightarrow> AccountLedger" where
  "settle_row e merchantId account amount =
     \<lparr>led_account = acc_id account, led_transaction = ''SETTLE_'' @ merchantId @ ''_'' @ show_nat (nat (now e)),
      led_type = LedgerType.SETTLEMENT, led_amount = amount, led_before = availableBalance account,
      led_after = availableBalance account + amount, led_direction = IN\<rparr>"

definition settle_credited :: "env \<Rightarrow> string \<Rightarrow> Account \<Rightarrow> int \<Rightarrow> Account \<Rightarrow> db \<Rightarrow> exn + (unit \<times> db)" where
  "settle_credited e merchantId account amount updated d =
     settle_payable amount (add_ledger (settle_row e merchantId account amount) d)"

definition recordSettlementLedger :: "env \<Rightarrow> string \<Rightarrow> int \<Rightarrow> db \<Rightarrow> exn + (unit \<times> db)" where
  "recordSettlementLedger e merchantId amount d =
     (case merchant_by_id merchantId d of
        None \<Rightarrow> Inr ((), d)
      | Some merchant \<Rightarrow>
          (case account_of (mch_user merchant) (accounts d) of
             None \<Rightarrow> Inr ((), d)
           | Some account \<Rightarrow>
               credit_account (acc_id account) amount d (settle_credited e merchantId account amount)))"

definition settle_result :: "string \<times> PaymentOrder list \<Rightarrow> int \<Rightarrow> SettlementStatus \<Rightarrow> SettlementResult" where
  "settle_result g n st = \<lparr>sr_merchant = fst g, sr_orderCount = length (snd g), sr_totalAmount = total_amount (snd g),
     sr_totalFee = total_fee (snd g), sr_settleAmount = n, sr_status = st\<rparr>"

text \<open>
  One merchant: the orders are marked by a statement of its own before the money moves, so a failure
  of the transaction leaves them marked.
\<close>

definition settle_group :: "env \<Rightarrow> string \<times> PaymentOrder list \<Rightarrow> world \<Rightarrow> SettlementResult \<times> world" where
  "settle_group e g w =
     (let orders = snd g; amount = total_amount orders; fee = total_fee orders;
          w1 = w\<lparr>wdb := mark_settled (now e) (map pay_id orders) (wdb w)\<rparr>
      in case transaction (recordSettlementLedger e (fst g) (amount - fee)) w1 of
           (Inr _, w2) \<Rightarrow> (settle_result g (amount - fee) SettlementStatus.SUCCESS, w2)
         | (Inl _, w2) \<Rightarrow> (settle_result g 0 SettlementStatus.ERROR, w2))"

fun settle_groups ::
  "env \<Rightarrow> (string \<times> PaymentOrder list) list \<Rightarrow> world \<Rightarrow> SettlementResult list \<times> world" where
  "settle_groups e [] w = ([], w)"
| "settle_groups e (g # gs) w =
     (case settle_group e g w of (r, w1) \<Rightarrow>
        case settle_groups e gs w1 of (rs, w2) \<Rightarrow> (r # rs, w2))"

definition due_orders :: "int \<Rightarrow> db \<Rightarrow> PaymentOrder list" where
  "due_orders t d = filter (due t) (paymentOrders d)"

definition runDailySettlement :: "env \<Rightarrow> world \<Rightarrow> SettlementResult list \<times> world" where
  "runDailySettlement e w =
     (if due_orders (now e) (wdb w) = [] then ([], w)
      else settle_groups e (merchantGroups (due_orders (now e) (wdb w))) w)"

definition handleSettlement :: "env \<Rightarrow> world \<Rightarrow> (exn + SettlementResult list) \<times> world" where
  "handleSettlement e = withLock ''settlement:daily''
     (\<lambda>w. (Inr (fst (runDailySettlement e w)), snd (runDailySettlement e w)))"

subsection \<open>What is waiting\<close>

record UnsettledMerchant =
  um_merchant :: string
  um_count :: nat
  um_amount :: int
  um_fee :: int
  um_settleAmount :: int

definition unsettled :: "PaymentOrder \<Rightarrow> bool" where
  "unsettled r = (pay_status r = PaymentOrderStatus.PAID \<and> pay_settledAt r = None)"

definition getUnsettledSummary :: "db \<Rightarrow> nat \<times> int \<times> UnsettledMerchant list" where
  "getUnsettledSummary d =
     (let grouped = merchantGroups (filter unsettled (paymentOrders d))
      in (sum_list (map (\<lambda>g. length (snd g)) grouped), sum_list (map (\<lambda>g. total_amount (snd g)) grouped),
          map (\<lambda>g. \<lparr>um_merchant = fst g, um_count = length (snd g), um_amount = total_amount (snd g),
                     um_fee = total_fee (snd g),
                     um_settleAmount = total_amount (snd g) - total_fee (snd g)\<rparr>) grouped))"

subsection \<open>Sums over groups\<close>

definition group_sum :: "(string \<Rightarrow> PaymentOrder \<Rightarrow> int) \<Rightarrow> (string \<times> PaymentOrder list) list \<Rightarrow> int" where
  "group_sum f gs = sum_list (map (\<lambda>g. sum_list (map (f (fst g)) (snd g))) gs)"

lemma group_sum_add: "group_sum f (add_to_group r gs) = group_sum f gs + f (pay_merchant r) r"
  by (induction r gs rule: add_to_group.induct) (auto simp: group_sum_def)

lemma group_sum_foldl:
  "group_sum f (foldl (\<lambda>gs r. add_to_group r gs) gs rs) = group_sum f gs + sum_list (map (\<lambda>r. f (pay_merchant r) r) rs)"
  by (induction rs arbitrary: gs) (simp_all add: group_sum_add)

lemma group_sum_merchantGroups [simp]:
  "group_sum f (merchantGroups rs) = sum_list (map (\<lambda>r. f (pay_merchant r) r) rs)"
  by (simp add: merchantGroups_def group_sum_foldl) (simp add: group_sum_def)

definition all_grouped :: "(string \<times> PaymentOrder list) list \<Rightarrow> PaymentOrder set" where
  "all_grouped gs = (\<Union>g \<in> set gs. set (snd g))"

lemma all_grouped_add: "all_grouped (add_to_group r gs) = insert r (all_grouped gs)"
  by (induction r gs rule: add_to_group.induct) (auto simp: all_grouped_def)

lemma all_grouped_merchantGroups [simp]: "all_grouped (merchantGroups rs) = set rs"
proof -
  have "all_grouped (foldl (\<lambda>gs r. add_to_group r gs) gs rs) = all_grouped gs \<union> set rs" for gs
    by (induction rs arbitrary: gs) (auto simp: all_grouped_add)
  then show ?thesis by (simp add: merchantGroups_def) (simp add: all_grouped_def)
qed

lemma group_keys_add: "fst ` set (add_to_group r gs) = insert (pay_merchant r) (fst ` set gs)"
  by (induction r gs rule: add_to_group.induct) auto

lemma group_keys [simp]: "fst ` set (merchantGroups rs) = pay_merchant ` set rs"
proof -
  have "fst ` set (foldl (\<lambda>gs r. add_to_group r gs) gs rs) = fst ` set gs \<union> pay_merchant ` set rs" for gs
    by (induction rs arbitrary: gs) (auto simp: group_keys_add)
  then show ?thesis by (simp add: merchantGroups_def)
qed

subsection \<open>What a run credits\<close>

definition has_payable :: "db \<Rightarrow> bool" where
  "has_payable d = (distinct (map pa_code (platformAccounts d)) \<and>
     ''MERCHANT_PAYABLE'' \<in> set (map pa_code (platformAccounts d)))"

lemma settle_payable_shifts:
  assumes run: "settle_payable n d = Inr (x, d')" and ok: "accounts_ok (accounts d)" and code: "has_payable d"
  shows "shifts (\<lambda>_. 0) (\<lambda>_. 0) 0 (- n) d d'" and "merchants d' = merchants d \<and> paymentOrders d' = paymentOrders d"
proof -
  let ?P = "\<lambda>p. pa_code p = ''MERCHANT_PAYABLE''"
  obtain p where p: "findUnique ?P (platformAccounts d) = Some p"
    using code by (cases "findUnique ?P (platformAccounts d)") (auto simp: has_payable_def findUnique_None)
  then have d': "d' = d\<lparr>platformAccounts := updateRows ?P (\<lambda>p. p\<lparr>pa_balance := pa_balance p - n\<rparr>) (platformAccounts d)\<rparr>"
    using run by (auto simp: settle_payable_def)
  note sum = sum_updateRows_key' [of pa_code "platformAccounts d" p "''MERCHANT_PAYABLE''" pa_balance
    "\<lambda>p. p\<lparr>pa_balance := pa_balance p - n\<rparr>"]
  have "platform_total d' = platform_total d - n"
    using sum findUnique_SomeD [OF p] code by (simp add: platform_total_def d' has_payable_def)
  then show "shifts (\<lambda>_. 0) (\<lambda>_. 0) 0 (- n) d d'"
    using ok by (simp add: shifts_def d' same_holdings_def map_updateRows_frame journal_balance_def ledgers_ok_def)
  show "merchants d' = merchants d \<and> paymentOrders d' = paymentOrders d" by (simp add: d')
qed

lemma recordSettlementLedger_shifts:
  assumes run: "recordSettlementLedger e m n d = Inr (x, d')" and ok: "accounts_ok (accounts d)" and code: "has_payable d"
    and mm: "merchant_by_id m d = Some mm" and a: "account_of (mch_user mm) (accounts d) = Some a" and n: "0 \<le> n"
  shows "shifts (\<lambda>v. if v = mch_user mm then n else 0) (\<lambda>_. 0) n (- n) d d'"
    and "merchants d' = merchants d" and "paymentOrders d' = paymentOrders d"
proof -
  have cr: "credit_account (acc_id a) n d (settle_credited e m a n) = Inr (x, d')"
    using run mm a by (simp add: recordSettlementLedger_def)
  note c = credit_account_Inr [OF ok account_of_by_id [OF ok a] n cr, unfolded settle_credited_def]
  let ?d1 = "moved (acc_id a) n 0 d" and ?d2 = "add_ledger (settle_row e m a n) (moved (acc_id a) n 0 d)"
  have row: "ledger_ok (settle_row e m a n)" by (simp add: ledger_ok_def settle_row_def)
  have s1: "shifts (\<lambda>v. if v = mch_user mm then n else 0) (\<lambda>_. 0) n 0 d ?d1"
    using shifts_moved [OF ok a c(2)] by simp
  have s2: "shifts (\<lambda>_. 0) (\<lambda>_. 0) 0 0 ?d1 ?d2"
    by (rule shifts_kept) (use c(2) row in simp_all)
  have pa: "platformAccounts ?d2 = platformAccounts d" by (simp add: add_ledger_def)
  have ok2: "accounts_ok (accounts ?d2)" using c(2) by simp
  have code2: "has_payable ?d2" using code by (simp add: has_payable_def pa)
  note p = settle_payable_shifts [OF c(1) ok2 code2]
  show "shifts (\<lambda>v. if v = mch_user mm then n else 0) (\<lambda>_. 0) n (- n) d d'"
    using shifts_trans [OF shifts_trans [OF s1 s2] p(1)] by simp
  show "merchants d' = merchants d" "paymentOrders d' = paymentOrders d" using p(2) by (simp_all add: add_ledger_def)
qed

definition settles :: "PaymentOrder \<Rightarrow> int" where "settles r = pay_amount r - pay_fee r"

definition paid_in :: "db \<Rightarrow> string \<Rightarrow> string \<Rightarrow> PaymentOrder \<Rightarrow> int" where
  "paid_in d u m r = (if map_option mch_user (merchant_by_id m d) = Some u then settles r else 0)"

definition marked :: "int \<Rightarrow> PaymentOrder set \<Rightarrow> PaymentOrder list \<Rightarrow> PaymentOrder list" where
  "marked t rs = updateRows (\<lambda>r. pay_id r \<in> pay_id ` rs) (\<lambda>r. r\<lparr>pay_settledAt := Some t\<rparr>)"

lemma marked_marked: "marked t rs (marked t qs os) = marked t (rs \<union> qs) os"
  by (induction os) (auto simp: marked_def)

lemma marked_none [simp]: "marked t {} os = os"
  by (simp add: marked_def updateRows_none)

lemma mark_settled_marked: "paymentOrders (mark_settled t (map pay_id rs) d) = marked t (set rs) (paymentOrders d)"
  by (simp add: mark_settled_def marked_def)

lemma mark_settled_frame [simp]:
  "accounts (mark_settled t ids d) = accounts d" "merchants (mark_settled t ids d) = merchants d"
  "platformAccounts (mark_settled t ids d) = platformAccounts d" "books_kept d (mark_settled t ids d)"
  by (simp_all add: mark_settled_def books_kept_def same_holdings_def ledgers_ok_def)

text \<open>What a run needs to know of its groups: merchants with an account, and fees within the amounts.\<close>

definition settleable :: "db \<Rightarrow> string \<times> PaymentOrder list \<Rightarrow> bool" where
  "settleable d g = (\<exists>mm a. merchant_by_id (fst g) d = Some mm \<and> account_of (mch_user mm) (accounts d) = Some a \<and>
     (\<forall>r \<in> set (snd g). 0 \<le> settles r))"

lemma settle_group_shifts:
  assumes run: "settle_group e g w = (r, w')" and succ: "sr_status r = SettlementStatus.SUCCESS"
    and ok: "accounts_ok (accounts (wdb w))" and code: "has_payable (wdb w)" and g: "settleable (wdb w) g"
  defines "n \<equiv> sum_list (map settles (snd g))"
  shows "shifts (\<lambda>v. sum_list (map (paid_in (wdb w) v (fst g)) (snd g))) (\<lambda>_. 0) n (- n) (wdb w) (wdb w')"
    and "merchants (wdb w') = merchants (wdb w)"
    and "paymentOrders (wdb w') = marked (now e) (set (snd g)) (paymentOrders (wdb w))"
proof -
  obtain mm a where mm: "merchant_by_id (fst g) (wdb w) = Some mm"
    and a: "account_of (mch_user mm) (accounts (wdb w)) = Some a" and pos: "\<forall>r \<in> set (snd g). 0 \<le> settles r"
    using g by (auto simp: settleable_def)
  let ?d = "mark_settled (now e) (map pay_id (snd g)) (wdb w)"
  have n: "total_amount (snd g) - total_fee (snd g) = n"
    by (simp add: n_def total_amount_def total_fee_def settles_def [abs_def] sum_list_subtractf)
  have n0: "0 \<le> n" using pos by (auto simp: n_def intro!: sum_list_nonneg)
  obtain x d' where rec: "recordSettlementLedger e (fst g) n ?d = Inr (x, d')" and w': "wdb w' = d'"
    using run succ by (auto simp: settle_group_def settle_result_def n Let_def transaction_def split: sum.splits prod.splits)
  have mm': "merchant_by_id (fst g) ?d = Some mm" using mm by (simp add: merchant_by_id_def)
  have code': "has_payable ?d" using code by (simp add: has_payable_def)
  note s = recordSettlementLedger_shifts [OF rec _ code' mm' _ n0]
  have pin: "sum_list (map (paid_in (wdb w) v (fst g)) rs) = (if v = mch_user mm then sum_list (map settles rs) else 0)" for v rs
    by (induction rs) (auto simp: paid_in_def mm)
  have pin': "sum_list (map (paid_in (wdb w) v (fst g)) (snd g)) = (if v = mch_user mm then n else 0)" for v
    by (simp add: pin n_def)
  have s0: "shifts (\<lambda>_. 0) (\<lambda>_. 0) 0 0 (wdb w) ?d" by (rule shifts_kept) (use ok in simp_all)
  show "shifts (\<lambda>v. sum_list (map (paid_in (wdb w) v (fst g)) (snd g))) (\<lambda>_. 0) n (- n) (wdb w) (wdb w')"
    using shifts_trans [OF s0 s(1)] ok a by (simp add: w' pin')
  show "merchants (wdb w') = merchants (wdb w)" using s(2) ok a by (simp add: w')
  show "paymentOrders (wdb w') = marked (now e) (set (snd g)) (paymentOrders (wdb w))"
    using s(3) ok a by (simp add: w' mark_settled_marked)
qed

lemma settleable_after:
  assumes "shifts da df q p d d'" and "merchants d' = merchants d" and "settleable d g"
  shows "settleable d' g"
proof -
  have "map acc_user (accounts d') = map acc_user (accounts d)" using assms(1) by (simp add: shifts_def)
  note ex = account_exists [OF this]
  obtain mm a where mm: "merchant_by_id (fst g) d = Some mm" "account_of (mch_user mm) (accounts d) = Some a"
    and pos: "\<forall>r \<in> set (snd g). 0 \<le> settles r"
    using assms(3) by (auto simp: settleable_def)
  then obtain a' where "account_of (mch_user mm) (accounts d') = Some a'"
    using ex [of "mch_user mm"] by (cases "account_of (mch_user mm) (accounts d')") auto
  with mm pos assms(2) show ?thesis by (auto simp: settleable_def merchant_by_id_def)
qed

lemma settle_groups_shifts:
  assumes "settle_groups e gs w = (rs, w')" and "\<forall>r \<in> set rs. sr_status r = SettlementStatus.SUCCESS"
    and "accounts_ok (accounts (wdb w))" and "has_payable (wdb w)" and "\<forall>g \<in> set gs. settleable (wdb w) g"
  shows "shifts (\<lambda>v. group_sum (paid_in (wdb w) v) gs) (\<lambda>_. 0) (group_sum (\<lambda>_. settles) gs)
      (- group_sum (\<lambda>_. settles) gs) (wdb w) (wdb w') \<and>
    paymentOrders (wdb w') = marked (now e) (all_grouped gs) (paymentOrders (wdb w))"
  using assms
proof (induction gs arbitrary: w rs)
  case Nil
  then show ?case by (simp add: group_sum_def all_grouped_def shifts_kept)
next
  case (Cons g gs)
  obtain r w1 rs' where g: "settle_group e g w = (r, w1)" and gs: "settle_groups e gs w1 = (rs', w')" and rs: "rs = r # rs'"
    using Cons.prems(1) by (auto split: prod.splits)
  note s = settle_group_shifts [OF g _ Cons.prems(3,4)]
  have s1: "sr_status r = SettlementStatus.SUCCESS" "settleable (wdb w) g" using Cons.prems(2,5) rs by simp_all
  note s = s [OF s1]
  have ok: "accounts_ok (accounts (wdb w1))" "map pa_code (platformAccounts (wdb w1)) = map pa_code (platformAccounts (wdb w))"
    using s(1) by (simp_all add: shifts_def)
  then have code: "has_payable (wdb w1)" using Cons.prems(4) by (simp add: has_payable_def)
  have "\<forall>g \<in> set gs. settleable (wdb w1) g" using settleable_after [OF s(1,2)] Cons.prems(5) by simp
  from Cons.IH [OF gs _ ok(1) code this] Cons.prems(2) rs
  have ih: "shifts (\<lambda>v. group_sum (paid_in (wdb w1) v) gs) (\<lambda>_. 0) (group_sum (\<lambda>_. settles) gs)
      (- group_sum (\<lambda>_. settles) gs) (wdb w1) (wdb w')"
    "paymentOrders (wdb w') = marked (now e) (all_grouped gs) (paymentOrders (wdb w1))" by simp_all
  have same: "paid_in (wdb w1) = paid_in (wdb w)" using s(2) by (intro ext) (simp add: paid_in_def merchant_by_id_def)
  have "shifts (\<lambda>v. group_sum (paid_in (wdb w) v) (g # gs)) (\<lambda>_. 0) (group_sum (\<lambda>_. settles) (g # gs))
      (- group_sum (\<lambda>_. settles) (g # gs)) (wdb w) (wdb w')"
    by (rule shifts_cong [OF shifts_trans [OF s(1) ih(1)]]) (simp_all add: group_sum_def same)
  then show ?case using ih(2) s(3) by (simp add: marked_marked all_grouped_def Un_commute)
qed

lemma settlement_credits:
  assumes run: "runDailySettlement e w = (rs, w')" and succ: "\<forall>r \<in> set rs. sr_status r = SettlementStatus.SUCCESS"
    and ok: "accounts_ok (accounts (wdb w))" and code: "has_payable (wdb w)"
    and rows: "\<forall>r \<in> set (due_orders (now e) (wdb w)). settles r \<ge> 0 \<and>
      (\<exists>mm a. merchant_by_id (pay_merchant r) (wdb w) = Some mm \<and> account_of (mch_user mm) (accounts (wdb w)) = Some a)"
  defines "os \<equiv> due_orders (now e) (wdb w)"
  shows "shifts (\<lambda>v. sum_list (map (\<lambda>r. paid_in (wdb w) v (pay_merchant r) r) os)) (\<lambda>_. 0) (sum_list (map settles os))
      (- sum_list (map settles os)) (wdb w) (wdb w')"
    and "paymentOrders (wdb w') = marked (now e) (set os) (paymentOrders (wdb w))"
proof -
  have "settleable (wdb w) g" if "g \<in> set (merchantGroups os)" for g
  proof -
    have "fst g \<in> fst ` set (merchantGroups os)" using that by (rule imageI)
    then have "fst g \<in> pay_merchant ` set os" by (simp only: group_keys)
    moreover have "set (snd g) \<subseteq> all_grouped (merchantGroups os)" using that by (auto simp: all_grouped_def)
    then have "set (snd g) \<subseteq> set os" by simp
    ultimately obtain r where r: "r \<in> set os" "fst g = pay_merchant r" and sub: "set (snd g) \<subseteq> set os" by auto
    obtain mm a where "merchant_by_id (fst g) (wdb w) = Some mm" "account_of (mch_user mm) (accounts (wdb w)) = Some a"
      using rows r by (auto simp: os_def)
    moreover have "\<forall>s \<in> set (snd g). 0 \<le> settles s" using rows sub by (auto simp: os_def)
    ultimately show ?thesis by (auto simp: settleable_def)
  qed
  then have g: "\<forall>g \<in> set (merchantGroups os). settleable (wdb w) g" by blast
  have "shifts (\<lambda>v. sum_list (map (\<lambda>r. paid_in (wdb w) v (pay_merchant r) r) os)) (\<lambda>_. 0) (sum_list (map settles os))
      (- sum_list (map settles os)) (wdb w) (wdb w') \<and>
    paymentOrders (wdb w') = marked (now e) (set os) (paymentOrders (wdb w))"
  proof (cases "os = []")
    case True
    then show ?thesis using run ok by (simp add: runDailySettlement_def os_def [symmetric] shifts_kept)
  next
    case False
    then have "settle_groups e (merchantGroups os) w = (rs, w')"
      using run by (simp add: runDailySettlement_def os_def [symmetric])
    from settle_groups_shifts [OF this succ ok code g] show ?thesis by simp
  qed
  then show "shifts (\<lambda>v. sum_list (map (\<lambda>r. paid_in (wdb w) v (pay_merchant r) r) os)) (\<lambda>_. 0) (sum_list (map settles os))
      (- sum_list (map settles os)) (wdb w) (wdb w')"
    and "paymentOrders (wdb w') = marked (now e) (set os) (paymentOrders (wdb w))" by simp_all
qed

subsection \<open>Paid twice\<close>

lemma cashier_body_merchants: "cashier_body e p m mu order d = Inr (r, d') \<Longrightarrow> merchants d' = merchants d"
  by (auto simp: cashier_body_def cashier_move_def cashier_rows_def createEntries_def guarded_def credit_account_def
      createOrder_Inr Let_def add_ledger_def add_bill_def
      dest!: checkMerchantDailyLimit_frame checkAndIncrementDailyLimit_frame)

text \<open>
  C29. A merchant gets the money of a payment twice. The cashier credits the merchant with the amount
  less the fee when the payer pays; the settlement of the next day, when the order is the one
  it finds and its run succeeds, credits the same sum again, while the payer has paid once. The order is
  marked as settled, and the platform's accounts fall short of the users' balances by twice the sum.
\<close>

theorem settlement_pays_again:
  assumes pay: "cashier_body e p m mu order (wdb w0) = Inr (r, wdb w)" and inv: "money_ok (wdb w0)"
    and rows: "payments_ok (wdb w0)" "merchant_by_id (pay_merchant order) (wdb w0) = Some m"
      "order \<in> set (paymentOrders (wdb w0))" and code: "has_payable (wdb w0)"
    and only: "due_orders (now e2) (wdb w) = [r]" and run: "runDailySettlement e2 w = ([x], w')"
    and succ: "sr_status x = SettlementStatus.SUCCESS" and other: "usr_id p \<noteq> mch_user m"
  shows "available_of (mch_user m) (accounts (wdb w')) =
      available_of (mch_user m) (accounts (wdb w0)) + 2 * (pay_amount order - pay_fee r) \<and>
    available_of (usr_id p) (accounts (wdb w')) = available_of (usr_id p) (accounts (wdb w0)) - pay_amount order \<and>
    platform_total (wdb w') = total_assets (accounts (wdb w')) + in_transit (withdrawalOrders (wdb w')) -
      2 * (pay_amount order - pay_fee r) \<and>
    due_orders (now e2) (wdb w') = []"
proof -
  have fee: "fee_inputs (pay_amount order) (mch_payRate m)"
    using rows by (auto simp: payments_ok_def list_all_iff merchant_by_id_def fee_inputs_def dest!: findUnique_in)
  note c = cashier_body_Inr [OF pay inv fee]
  note ok = money_okD [OF inv]
  note pb = paid_balances [OF c(1) ok(1)]
  note inv1 = paid_money_ok [OF c(1) inv]
  have ok1: "accounts_ok (accounts (wdb w))" by (rule pb)
  have r: "pay_merchant r = pay_merchant order" "settles r = pay_amount order - pay_fee r"
      "pay_fee r = payment_fee (pay_amount order) (mch_payRate m)"
    by (simp_all add: c(2) settles_def)
  have pos: "0 \<le> settles r" using payment_fee_bounds [OF fee] by (simp add: r)
  have codes: "has_payable (wdb w)"
    using c(1) code unfolding has_payable_def paid_def by metis
  have mch: "merchant_by_id (pay_merchant r) (wdb w) = Some m \<and>
      (\<exists>a. account_of (mch_user m) (accounts (wdb w)) = Some a)"
  proof -
    have "account_of (mch_user m) (accounts (wdb w)) \<noteq> None"
      using c(1) account_exists [OF pb(4)] unfolding paid_def by auto
    then show ?thesis using rows(2) cashier_body_merchants [OF pay] by (simp add: merchant_by_id_def r)
  qed
  have due: "\<forall>r \<in> set (due_orders (now e2) (wdb w)). settles r \<ge> 0 \<and>
      (\<exists>mm a. merchant_by_id (pay_merchant r) (wdb w) = Some mm \<and> account_of (mch_user mm) (accounts (wdb w)) = Some a)"
    using only mch pos by simp
  have all: "\<forall>y \<in> set [x]. sr_status y = SettlementStatus.SUCCESS" using succ by simp
  note s = settlement_credits [OF run all ok1 codes due, unfolded only]
  have pin: "paid_in (wdb w) v (pay_merchant order) r = (if v = mch_user m then settles r else 0)" for v
    using mch by (simp add: paid_in_def r(1))
  note sh = s(1) [unfolded shifts_def]
  have none: "due_orders (now e2) (wdb w') = []"
  proof -
    have "set (filter (due (now e2)) (paymentOrders (wdb w))) = {r}" using only by (simp add: due_orders_def)
    then have "\<forall>x \<in> set (paymentOrders (wdb w)). due (now e2) x \<longrightarrow> x = r" by auto
    then show ?thesis using s(2) succ
      by (auto simp: due_orders_def marked_def filter_empty_conv set_updateRows due_def)
  qed
  have solv: "platform_total (wdb w) = total_assets (accounts (wdb w)) + in_transit (withdrawalOrders (wdb w))"
    using inv1 by (simp add: money_ok_def solvent_def)
  from sh have "\<forall>v. available_of v (accounts (wdb w')) = available_of v (accounts (wdb w)) +
        (if v = mch_user m then settles r else 0)"
    and "total_assets (accounts (wdb w')) = total_assets (accounts (wdb w)) + settles r"
    and "platform_total (wdb w') = platform_total (wdb w) - settles r"
    and "withdrawalOrders (wdb w') = withdrawalOrders (wdb w)"
    by (simp_all add: r(1) pin same_holdings_def)
  with pb(1) none other solv show ?thesis by (simp add: r(2,3))
qed

text \<open>A payment in the last millisecond of a day, and the settlement in the first of the next.\<close>

definition last_ms :: env where "last_ms = sample_env\<lparr>now := - 1\<rparr>"

definition next_day :: env where "next_day = sample_env\<lparr>now := 0\<rparr>"

definition paid_shop :: "PaymentOrder \<times> db" where
  "paid_shop = projr (cashier_body last_ms (sample_user ''alice'') sample_merchant (sample_user ''bob'')
     (sample_payment PaymentOrderStatus.PENDING) (wdb (shop_world PaymentOrderStatus.PENDING)))"

definition paid_world :: world where "paid_world = sample_world\<lparr>wdb := snd paid_shop\<rparr>"

lemma paid_shop_runs:
  "isl (cashier_body last_ms (sample_user ''alice'') sample_merchant (sample_user ''bob'')
     (sample_payment PaymentOrderStatus.PENDING) (wdb (shop_world PaymentOrderStatus.PENDING))) = False"
  "due_orders (now next_day) (wdb paid_world) = [fst paid_shop]"
  "map sr_status (fst (runDailySettlement next_day paid_world)) = [SettlementStatus.SUCCESS]"
  "pay_fee (fst paid_shop) = 12"
  by code_simp+

theorem settlement_pays_again_witness:
  "available_of ''bob'' (accounts (wdb (snd (runDailySettlement next_day paid_world)))) =
     available_of ''bob'' (accounts (wdb (shop_world PaymentOrderStatus.PENDING))) + 2 * (2000 - 12)"
proof -
  have body: "cashier_body last_ms (sample_user ''alice'') sample_merchant (sample_user ''bob'')
     (sample_payment PaymentOrderStatus.PENDING) (wdb (shop_world PaymentOrderStatus.PENDING)) =
     Inr (fst paid_shop, wdb paid_world)"
    using paid_shop_runs(1) by (auto simp: paid_shop_def paid_world_def isl_def split: sum.splits)
  obtain x w' where run: "runDailySettlement next_day paid_world = ([x], w')" and x: "sr_status x = SettlementStatus.SUCCESS"
    using paid_shop_runs(3) by (cases "runDailySettlement next_day paid_world") auto
  from settlement_pays_again [OF body shop_money_ok shop_payments_ok _ _ _ paid_shop_runs(2) run x] run show ?thesis
    by (simp add: shop_world_def has_payable_def sample_defs merchant_by_id_def sample_merchant_def sample_payment_def
        paid_shop_runs(4))
qed

end
