(* ===== verification/AuditTrail.thy ===== *)
theory AuditTrail
  imports Orders "HOL-Library.Option_ord" "HOL-Library.Multiset"
begin

text \<open>
  The audit log of the administrators' operations (audit/audit-log.service.ts): every entry stores
  the SHA-256 of its content and of the hash of the entry before it, and \<open>verifyChain\<close> walks the
  table page by page and names the first entry that does not fit. The content is the text of
  \<open>JSON.stringify\<close>, modelled down to the escapes, because the guarantee rests on two contents never
  having the same text; the hash function is a parameter.

  An entry has a position (\<open>seq\<close>, \<open>createdAt\<close>), ordered with missing numbers first. Nothing in the code sets
  \<open>seq\<close>, so each new entry has the default 0, and \<open>createdAt\<close> counts milliseconds. SQL leaves the order of rows with
  the same position open: every query takes a parameter \<open>place\<close> that says where the database puts a row (by its identifier) among
  its equals. Two queries may have different ones; the pages of one check share one.

  The lemmas: the paged walk is a walk over the whole table; the texts determine the contents; writing keeps the
  chain intact while the clock advances from entry to entry; two entries of one millisecond, or a clock that goes
  back, make the check report an untouched log; a change that keeps the last hash needs two of the
  entries to collide.
\<close>

subsection \<open>JSON texts\<close>

definition hex_digit :: "nat \<Rightarrow> char" where
  "hex_digit n = (if n < 10 then char_of (48 + n) else char_of (87 + n))"

definition hex_val :: "char \<Rightarrow> nat" where
  "hex_val c = (if of_char c < (58 :: nat) then of_char c - 48 else of_char c - 87)"

definition json_escape :: "char \<Rightarrow> string" where
  "json_escape c =
     (let n = of_char c :: nat in
      if n = 34 then [CHR 0x5C, CHR 0x22] else if n = 92 then [CHR 0x5C, CHR 0x5C] else
      if n = 8 then [CHR 0x5C, CHR ''b''] else if n = 9 then [CHR 0x5C, CHR ''t''] else
      if n = 10 then [CHR 0x5C, CHR ''n''] else if n = 12 then [CHR 0x5C, CHR ''f''] else
      if n = 13 then [CHR 0x5C, CHR ''r''] else
      if n < 32 then [CHR 0x5C, CHR ''u'', CHR ''0'', CHR ''0'', hex_digit (n div 16), hex_digit (n mod 16)]
      else [c])"

definition json_string :: "string \<Rightarrow> string" where
  "json_string s = CHR 0x22 # concat (map json_escape s) @ [CHR 0x22]"

definition json_nullable :: "string option \<Rightarrow> string" where
  "json_nullable x = (case x of None \<Rightarrow> ''null'' | Some s \<Rightarrow> json_string s)"

fun json_members :: "(string \<times> string) list \<Rightarrow> string" where
  "json_members [] = []"
| "json_members [(k, v)] = json_string k @ '':'' @ v"
| "json_members ((k, v) # m # ms) = json_string k @ '':'' @ v @ '','' @ json_members (m # ms)"

definition json_object :: "(string \<times> string) list \<Rightarrow> string" where
  "json_object ms = ''{'' @ json_members ms @ ''}''"

text \<open>Reading back the first character of a string body.\<close>

definition json_unescape :: "string \<Rightarrow> (char \<times> string) option" where
  "json_unescape s =
     (case s of [] \<Rightarrow> None | a # r \<Rightarrow>
        if of_char a = (34 :: nat) then None
        else if of_char a \<noteq> (92 :: nat) then Some (a, r)
        else case r of [] \<Rightarrow> None | b # r' \<Rightarrow>
          (let n = of_char b :: nat in
           if n = 34 then Some (CHR 0x22, r') else if n = 92 then Some (CHR 0x5C, r') else
           if n = 98 then Some (CHR 0x08, r') else if n = 116 then Some (CHR 0x09, r') else
           if n = 110 then Some (CHR 0x0A, r') else if n = 102 then Some (CHR 0x0C, r') else
           if n = 114 then Some (CHR 0x0D, r') else
           (case r' of _ # _ # h # l # rest \<Rightarrow> Some (char_of (16 * hex_val h + hex_val l), rest) | _ \<Rightarrow> None)))"

lemma hex_roundtrip: "n < 16 \<Longrightarrow> hex_val (hex_digit n) = n"
  by (auto simp: hex_val_def hex_digit_def)

lemma char_codes:
  "char_of (34 :: nat) = CHR 0x22" "char_of (92 :: nat) = CHR 0x5C" "char_of (8 :: nat) = CHR 0x08"
  "char_of (9 :: nat) = CHR 0x09" "char_of (10 :: nat) = CHR 0x0A" "char_of (12 :: nat) = CHR 0x0C"
  "char_of (13 :: nat) = CHR 0x0D"
  by code_simp+

lemma unescape_escape: "json_unescape (json_escape c @ u) = Some (c, u)"
proof -
  let ?n = "of_char c :: nat"
  have c: "c = char_of ?n" by simp
  have whole: "char_of (16 * (?n div 16) + ?n mod 16) = c" by simp
  show ?thesis
  proof (cases "?n \<in> {34, 92, 8, 9, 10, 12, 13}")
    case True
    then show ?thesis
      by (elim insertE emptyE; subst (1 2) c; simp only:; simp add: json_escape_def json_unescape_def Let_def char_codes)
  next
    case False
    then show ?thesis
    proof (cases "?n < 32")
      case True
      then have d: "?n div 16 < 16" and m: "?n mod 16 < 16" by simp_all
      have "json_escape c = [CHR 0x5C, CHR ''u'', CHR ''0'', CHR ''0'', hex_digit (?n div 16), hex_digit (?n mod 16)]"
        using False True by (simp add: json_escape_def Let_def)
      then show ?thesis by (simp add: json_unescape_def Let_def hex_roundtrip [OF d] hex_roundtrip [OF m] whole)
    next
      case big: False
      have "json_escape c = [c]" using False big by (simp add: json_escape_def Let_def)
      then show ?thesis using False by (simp add: json_unescape_def)
    qed
  qed
qed

lemma escape_prefix: "json_escape c @ u = json_escape d @ v \<Longrightarrow> c = d \<and> u = v"
  by (metis unescape_escape option.inject prod.inject)

lemma escape_not_quote: "json_escape c @ u \<noteq> CHR 0x22 # v"
proof
  assume "json_escape c @ u = CHR 0x22 # v"
  then have "json_unescape (CHR 0x22 # v) = Some (c, u)" using unescape_escape [of c u] by simp
  then show False by (simp add: json_unescape_def)
qed

lemma body_prefix:
  "concat (map json_escape s) @ CHR 0x22 # u = concat (map json_escape t) @ CHR 0x22 # v \<Longrightarrow> s = t \<and> u = v"
proof (induction s arbitrary: t)
  case Nil
  then show ?case using escape_not_quote by (cases t) (auto, metis)
next
  case (Cons c s)
  show ?case
  proof (cases t)
    case Nil
    with Cons.prems show ?thesis using escape_not_quote by simp
  next
    case (Cons d t')
    with Cons.prems have "json_escape c @ (concat (map json_escape s) @ CHR 0x22 # u) =
        json_escape d @ (concat (map json_escape t') @ CHR 0x22 # v)" by simp
    from escape_prefix [OF this] Cons.IH [of t'] Cons show ?thesis by simp
  qed
qed

text \<open>No JSON string, and no nullable string, is the beginning of another.\<close>

lemma json_string_prefix: "json_string s @ u = json_string t @ v \<Longrightarrow> s = t \<and> u = v"
  by (rule body_prefix) (simp add: json_string_def)

lemma json_nullable_prefix:
  assumes "json_nullable x @ u = json_nullable y @ v"
  shows "x = y \<and> u = v"
proof (cases x)
  case None
  then show ?thesis using assms by (cases y) (simp_all add: json_nullable_def json_string_def)
next
  case (Some s)
  then show ?thesis
  proof (cases y)
    case None
    with Some assms show ?thesis by (simp add: json_nullable_def json_string_def)
  next
    case (Some t)
    with \<open>x = Some s\<close> assms show ?thesis using json_string_prefix [of s u t v] by (simp add: json_nullable_def)
  qed
qed

subsection \<open>Entries\<close>

record AdminOperationLog =
  log_id :: string
  log_admin :: string
  log_action :: string
  log_target :: "string option"
  log_detail :: "string option"
  log_ip :: "string option"
  log_userAgent :: "string option"
  log_hash :: "string option"
  log_previous :: "string option"
  log_seq :: "int option"
  log_createdAt :: int

text \<open>What a caller passes; the detail is the text \<open>JSON.stringify\<close> makes of it.\<close>

record AuditParams =
  ap_admin :: string
  ap_action :: string
  ap_target :: "string option"
  ap_detail :: "string option"
  ap_ip :: "string option"
  ap_userAgent :: "string option"

definition GENESIS_HASH :: string where "GENESIS_HASH = replicate 64 CHR ''0''"

definition audit_text :: "AuditParams \<Rightarrow> string option \<Rightarrow> string" where
  "audit_text p previous = json_object
     [(''adminId'', json_string (ap_admin p)), (''action'', json_string (ap_action p)),
      (''target'', json_nullable (ap_target p)), (''detail'', json_nullable (ap_detail p)),
      (''ip'', json_nullable (ap_ip p)), (''userAgent'', json_nullable (ap_userAgent p)),
      (''previousHash'', json_nullable previous)]"

definition params_of :: "AdminOperationLog \<Rightarrow> AuditParams" where
  "params_of r = \<lparr>ap_admin = log_admin r, ap_action = log_action r, ap_target = log_target r,
     ap_detail = log_detail r, ap_ip = log_ip r, ap_userAgent = log_userAgent r\<rparr>"

definition entry_text :: "AdminOperationLog \<Rightarrow> string" where
  "entry_text r = audit_text (params_of r) (log_previous r)"

text \<open>The order of the table: missing sequence numbers first, then by number, then by time.\<close>

datatype position = Position "int option" int

instantiation position :: linorder
begin

fun less_eq_position :: "position \<Rightarrow> position \<Rightarrow> bool" where
  "less_eq_position (Position s t) (Position s' t') \<longleftrightarrow> s < s' \<or> s = s' \<and> t \<le> t'"

definition less_position :: "position \<Rightarrow> position \<Rightarrow> bool" where
  "less_position p q \<longleftrightarrow> p \<le> q \<and> \<not> q \<le> p"

instance
proof
  fix p q r :: position
  show "p < q \<longleftrightarrow> p \<le> q \<and> \<not> q \<le> p" by (rule less_position_def)
  show "p \<le> p" by (cases p) simp
  show "p \<le> q \<Longrightarrow> q \<le> r \<Longrightarrow> p \<le> r" by (cases p; cases q; cases r) auto
  show "p \<le> q \<Longrightarrow> q \<le> p \<Longrightarrow> p = q" by (cases p; cases q) auto
  show "p \<le> q \<or> q \<le> p" by (cases p; cases q) auto
qed

end

definition position_of :: "AdminOperationLog \<Rightarrow> position" where
  "position_of r = Position (log_seq r) (log_createdAt r)"

text \<open>\<open>ORDER BY seq, createdAt\<close>: the sort by position keeps the order by \<open>place\<close> among rows of one position.\<close>

definition in_order :: "(string \<Rightarrow> int) \<Rightarrow> AdminOperationLog list \<Rightarrow> AdminOperationLog list" where
  "in_order place logs = sort_key position_of (sort_key (\<lambda>r. place (log_id r)) logs)"

definition last_log :: "(string \<Rightarrow> int) \<Rightarrow> AdminOperationLog list \<Rightarrow> AdminOperationLog option" where
  "last_log place logs = (if logs = [] then None else Some (last (in_order place logs)))"

lemma in_order_set [simp]: "set (in_order place logs) = set logs"
  by (simp add: in_order_def)

lemma in_order_Nil [simp]: "in_order place logs = [] \<longleftrightarrow> logs = []"
  by (metis in_order_set set_empty)

lemma in_order_sorted: "sorted (map position_of (in_order place logs))"
  by (simp add: in_order_def)

lemma in_order_filter: "in_order place (filter P logs) = filter P (in_order place logs)"
  by (simp add: in_order_def filter_sort)

subsection \<open>Writing\<close>

definition previous_hash :: "(string \<Rightarrow> int) \<Rightarrow> AdminOperationLog list \<Rightarrow> string" where
  "previous_hash place logs =
     (case last_log place logs of
        None \<Rightarrow> GENESIS_HASH
      | Some r \<Rightarrow> if truthy (log_hash r) then the (log_hash r) else GENESIS_HASH)"

definition new_entry ::
  "(string \<Rightarrow> string) \<Rightarrow> (string \<Rightarrow> int) \<Rightarrow> string \<Rightarrow> int \<Rightarrow> AuditParams \<Rightarrow> AdminOperationLog list \<Rightarrow> AdminOperationLog" where
  "new_entry sha place i t p logs =
     \<lparr>log_id = i, log_admin = ap_admin p, log_action = ap_action p, log_target = ap_target p,
      log_detail = ap_detail p, log_ip = ap_ip p, log_userAgent = ap_userAgent p,
      log_hash = Some (sha (audit_text p (Some (previous_hash place logs)))),
      log_previous = Some (previous_hash place logs), log_seq = Some 0, log_createdAt = t\<rparr>"

definition log_conflict :: "AdminOperationLog \<Rightarrow> AdminOperationLog \<Rightarrow> bool" where
  "log_conflict r s = (log_id r = log_id s \<or> (log_hash r \<noteq> None \<and> log_hash r = log_hash s))"

definition audit_log ::
  "(string \<Rightarrow> string) \<Rightarrow> (string \<Rightarrow> int) \<Rightarrow> string \<Rightarrow> int \<Rightarrow> AuditParams \<Rightarrow> AdminOperationLog list \<Rightarrow>
   exn + AdminOperationLog list" where
  "audit_log sha place i t p logs = create P2002 log_conflict (new_entry sha place i t p logs) logs"

subsection \<open>Checking\<close>

text \<open>One page: the first entry that does not fit, or the hash the next page must start from.\<close>

fun check_page :: "(string \<Rightarrow> string) \<Rightarrow> string \<Rightarrow> AdminOperationLog list \<Rightarrow> string + string" where
  "check_page sha expected [] = Inr expected"
| "check_page sha expected (r # rs) =
     (if log_previous r \<noteq> Some expected then Inl (log_id r)
      else if log_hash r \<noteq> Some (sha (entry_text r)) then Inl (log_id r)
      else check_page sha (case log_hash r of Some h \<Rightarrow> h | None \<Rightarrow> GENESIS_HASH) rs)"

function verify_from ::
  "(string \<Rightarrow> string) \<Rightarrow> nat \<Rightarrow> AdminOperationLog list \<Rightarrow> string \<Rightarrow> nat \<Rightarrow> string option" where
  "verify_from sha batchSize logs expected offset =
     (let page = take batchSize (drop offset logs)
      in if page = [] then None
         else case check_page sha expected page of
           Inl i \<Rightarrow> Some i
         | Inr expected' \<Rightarrow> verify_from sha batchSize logs expected' (offset + length page))"
  by pat_completeness auto

termination by (relation "measure (\<lambda>(_, _, logs, _, offset). length logs - offset)") auto

declare verify_from.simps [simp del]

definition verifyChain :: "(string \<Rightarrow> string) \<Rightarrow> (string \<Rightarrow> int) \<Rightarrow> nat \<Rightarrow> AdminOperationLog list \<Rightarrow> string option" where
  "verifyChain sha place batchSize logs = verify_from sha batchSize (in_order place logs) GENESIS_HASH 0"

text \<open>
  The daily check (audit/audit.schedule.ts): a broken chain becomes a risk event, hung on the user
  created first because an event needs one; without users there is none.
\<close>

definition createAuditAlert :: "db \<Rightarrow> db" where
  "createAuditAlert d = (case users d of [] \<Rightarrow> d | u # _ \<Rightarrow> add_event (usr_id u) SUSPICIOUS_DEVICE HIGH d)"

definition audit_check :: "(string \<Rightarrow> string) \<Rightarrow> (string \<Rightarrow> int) \<Rightarrow> AdminOperationLog list \<Rightarrow> db \<Rightarrow> db" where
  "audit_check sha place logs d = (if truthy (verifyChain sha place 500 logs) then createAuditAlert d else d)"

subsection \<open>The walk\<close>

lemma check_page_append:
  "check_page sha p (rs @ ss) = (case check_page sha p rs of Inl i \<Rightarrow> Inl i | Inr q \<Rightarrow> check_page sha q ss)"
  by (induction sha p rs rule: check_page.induct) auto

lemma drop_take_length: "drop (length (take n xs)) xs = drop n xs"
  by (cases "n \<le> length xs") simp_all

lemma verify_from_one_pass:
  assumes "0 < n"
  shows "verify_from sha n logs p k =
    (case check_page sha p (drop k logs) of Inl i \<Rightarrow> Some i | Inr _ \<Rightarrow> None)"
  using assms
proof (induction sha n logs p k rule: verify_from.induct)
  case (1 sha n logs p k)
  let ?page = "take n (drop k logs)"
  show ?case
  proof (cases "?page = []")
    case True
    then have "drop k logs = []" using 1(2) by simp
    then show ?thesis by (subst verify_from.simps) simp
  next
    case False
    have "drop (k + length ?page) logs = drop n (drop k logs)"
      using drop_take_length [of n "drop k logs"] by (simp add: add.commute del: length_take)
    then have "drop k logs = ?page @ drop (k + length ?page) logs" by (simp only: append_take_drop_id)
    then have split: "check_page sha p (drop k logs) = check_page sha p (?page @ drop (k + length ?page) logs)"
      by (rule arg_cong)
    show ?thesis
      by (subst verify_from.simps) (use False 1 split in \<open>auto simp: Let_def check_page_append split: sum.split\<close>)
  qed
qed

definition intact :: "(string \<Rightarrow> string) \<Rightarrow> AdminOperationLog list \<Rightarrow> bool" where
  "intact sha rs = (\<exists>q. check_page sha GENESIS_HASH rs = Inr q)"

lemma verifyChain_intact: "0 < n \<Longrightarrow> verifyChain sha place n logs = None \<longleftrightarrow> intact sha (in_order place logs)"
  by (auto simp: verifyChain_def intact_def verify_from_one_pass split: sum.split)

definition end_hash :: "string \<Rightarrow> AdminOperationLog list \<Rightarrow> string" where
  "end_hash p rs = (if rs = [] then p else the (log_hash (last rs)))"

lemma check_page_Inr:
  "check_page sha p rs = Inr q \<Longrightarrow> q = end_hash p rs \<and> (\<forall>r \<in> set rs. log_hash r = Some (sha (entry_text r)))"
  by (induction sha p rs rule: check_page.induct) (auto simp: end_hash_def split: if_splits)

text \<open>The texts of two entries agree only if their contents and their links do.\<close>

lemma json_nullable_inj: "json_nullable x = json_nullable y \<longleftrightarrow> x = y"
  using json_nullable_prefix [of x "[]" y "[]"] by auto

lemma audit_text_inj: "audit_text p x = audit_text q y \<Longrightarrow> p = q \<and> x = y"
  by (auto simp: audit_text_def json_object_def json_nullable_inj
      dest!: json_string_prefix json_nullable_prefix intro: AuditParams.equality)

subsection \<open>Writing keeps the chain\<close>

text \<open>A run of the service: the operations with their identifiers, the readings of the clock and the answers of the database.\<close>

fun log_run ::
  "(string \<Rightarrow> string) \<Rightarrow> (string \<times> int \<times> (string \<Rightarrow> int) \<times> AuditParams) list \<Rightarrow> AdminOperationLog list \<Rightarrow>
   exn + AdminOperationLog list" where
  "log_run sha [] logs = Inr logs"
| "log_run sha ((i, t, place, p) # ops) logs = bindE (audit_log sha place i t p logs) (log_run sha ops)"

definition digests :: "(string \<Rightarrow> string) \<Rightarrow> bool" where
  "digests sha = (\<forall>x. sha x \<noteq> [] \<and> sha x \<noteq> GENESIS_HASH)"

lemma previous_hash_end:
  assumes "check_page sha GENESIS_HASH (in_order place logs) = Inr q" and "\<forall>x. sha x \<noteq> []"
  shows "previous_hash place logs = q"
proof -
  note c = check_page_Inr [OF assms(1)]
  show ?thesis
  proof (cases "logs = []")
    case True
    then show ?thesis using c by (simp add: previous_hash_def last_log_def end_hash_def)
  next
    case False
    then have l: "last (in_order place logs) \<in> set (in_order place logs)" by (intro last_in_set) simp
    then have "log_hash (last (in_order place logs)) = Some (sha (entry_text (last (in_order place logs))))" using c by blast
    with False c assms(2) show ?thesis by (simp add: previous_hash_def last_log_def end_hash_def truthy_def)
  qed
qed

lemma new_entry_text: "entry_text (new_entry sha place i t p logs) = audit_text p (Some (previous_hash place logs))"
  by (cases p) (simp add: entry_text_def new_entry_def params_of_def)

text \<open>A table without two rows of one position has one order only.\<close>

definition orderly :: "int \<Rightarrow> AdminOperationLog list \<Rightarrow> bool" where
  "orderly t logs = (sorted_wrt (<) (map log_createdAt logs) \<and> (\<forall>r \<in> set logs. log_seq r = Some 0 \<and> log_createdAt r < t))"

lemma in_order_orderly:
  assumes "orderly t logs"
  shows "in_order place logs = logs"
  unfolding in_order_def
proof (rule sort_key_inj_key_eq)
  have d: "distinct (map log_createdAt logs)" and st: "sorted (map log_createdAt logs)"
    using assms by (simp_all add: orderly_def strict_sorted_iff)
  have seq: "\<forall>r \<in> set logs. position_of r = Position (Some 0) (log_createdAt r)"
    using assms by (simp add: orderly_def position_of_def)
  show "inj_on position_of (set (sort_key (\<lambda>r. place (log_id r)) logs))"
    using d seq by (auto simp: inj_on_def distinct_map)
  have "map position_of logs = map (Position (Some 0)) (map log_createdAt logs)" using seq by simp
  also have "sorted \<dots>" unfolding sorted_map by (rule sorted_wrt_mono_rel [OF _ st]) simp
  finally show "sorted (map position_of logs)" .
qed simp

lemma audit_log_grows:
  assumes "audit_log sha place i t p logs = Inr logs'" and "orderly t logs" and "t < u" and "intact sha logs"
    and "\<forall>x. sha x \<noteq> []"
  shows "orderly u logs'" and "intact sha logs'"
proof -
  let ?r = "new_entry sha place i t p logs"
  have l': "logs' = logs @ [?r]" using assms(1) by (auto simp: audit_log_def)
  show "orderly u logs'" using assms(2,3)
    by (auto simp: l' orderly_def sorted_wrt_append new_entry_def)
  obtain q where q: "check_page sha GENESIS_HASH logs = Inr q" using assms(4) by (auto simp: intact_def)
  have "previous_hash place logs = q"
    by (rule previous_hash_end [OF _ assms(5)]) (simp add: in_order_orderly [OF assms(2)] q)
  then have "check_page sha GENESIS_HASH logs' = Inr (sha (entry_text ?r))"
    by (simp add: l' check_page_append q new_entry_text) (simp add: new_entry_def)
  then show "intact sha logs'" by (auto simp: intact_def)
qed

lemma orderly_mono: "orderly t logs \<Longrightarrow> t \<le> u \<Longrightarrow> orderly u logs"
  by (auto simp: orderly_def)

text \<open>
  C31. As long as the clock advances from entry to entry, a log written by the service verifies, whatever the operations,
  whatever the size of the pages and however the database would order equal rows. (Entries of one
  millisecond are not covered: \<open>same_millisecond_breaks_chain\<close>.)
\<close>

theorem written_log_verifies:
  assumes "log_run sha ops [] = Inr logs" and "sorted_wrt (<) (map (fst \<circ> snd) ops)" and "\<forall>x. sha x \<noteq> []" and "0 < n"
  shows "verifyChain sha place n logs = None"
proof -
  have run: "\<exists>t. orderly t logs' \<and> intact sha logs'"
    if "log_run sha ops logs0 = Inr logs'" "sorted_wrt (<) (map (fst \<circ> snd) ops)" "orderly s logs0" "intact sha logs0"
      "\<forall>op \<in> set ops. s \<le> fst (snd op)" for s logs0 logs'
    using that
  proof (induction ops arbitrary: s logs0)
    case (Cons op ops)
    obtain i t pl p where op: "op = (i, t, pl, p)" by (cases op)
    then obtain l1 where l1: "audit_log sha pl i t p logs0 = Inr l1" "log_run sha ops l1 = Inr logs'"
      using Cons.prems(1) by auto
    have "s \<le> t" using Cons.prems(5) by (simp add: op)
    note g = audit_log_grows [OF l1(1) orderly_mono [OF Cons.prems(3) this] _ Cons.prems(4) assms(3), of "t + 1"]
    show ?case using Cons.IH [OF l1(2) _ g] Cons.prems(2) by (force simp: op)
  qed auto
  have start: "orderly s []" "intact sha []" for s by (simp_all add: orderly_def intact_def)
  have "\<exists>s. \<forall>op \<in> set ops. s \<le> fst (snd op)"
    using assms(2) by (cases ops) (auto intro: less_imp_le)
  then obtain s where "\<forall>op \<in> set ops. s \<le> fst (snd op)" ..
  from run [OF assms(1,2) start this] show ?thesis
    using verifyChain_intact [OF assms(4)] in_order_orderly by auto
qed

definition sample_params :: "string \<Rightarrow> AuditParams" where
  "sample_params a = \<lparr>ap_admin = ''root'', ap_action = a, ap_target = Some ''u1'', ap_detail = None, ap_ip = None,
     ap_userAgent = None\<rparr>"

text \<open>A stand-in for the hash function that keeps its input apart from everything else, and one for the order of equal rows.\<close>

definition sample_sha :: "string \<Rightarrow> string" where "sample_sha x = CHR ''h'' # x"

definition sample_place :: "string \<Rightarrow> int" where "sample_place i = 0"

definition sample_ops :: "(string \<times> int \<times> (string \<Rightarrow> int) \<times> AuditParams) list" where
  "sample_ops = [(''l1'', 10, sample_place, sample_params ''A''), (''l2'', 11, sample_place, sample_params ''B''),
     (''l3'', 12, sample_place, sample_params ''C'')]"

lemma sample_ops_run: "isl (log_run sample_sha sample_ops []) = False"
  by code_simp

theorem written_log_verifies_witness:
  "\<exists>logs. log_run sample_sha sample_ops [] = Inr logs \<and> verifyChain sample_sha sample_place 2 logs = None"
proof -
  obtain logs where "log_run sample_sha sample_ops [] = Inr logs"
    using sample_ops_run by (cases "log_run sample_sha sample_ops []") auto
  moreover from written_log_verifies [OF this, of 2 sample_place] have "verifyChain sample_sha sample_place 2 logs = None"
    by (simp add: sample_ops_def sample_sha_def)
  ultimately show ?thesis by blast
qed

text \<open>
  Two operations of one millisecond: nothing was tampered with, and whether the log verifies depends on which of
  the two rows the database names first.
\<close>

definition twin_log :: "AdminOperationLog list" where
  "twin_log = projr (log_run sample_sha
     [(''l1'', 10, sample_place, sample_params ''A''), (''l2'', 10, sample_place, sample_params ''B'')] [])"

definition swapped_place :: "string \<Rightarrow> int" where "swapped_place i = (if i = ''l1'' then 1 else 0)"

theorem same_millisecond_breaks_chain:
  "map log_id twin_log = [''l1'', ''l2''] \<and> verifyChain sample_sha sample_place 500 twin_log = None \<and>
   verifyChain sample_sha swapped_place 500 twin_log = Some ''l2''"
proof (intro conjI)
  show "map log_id twin_log = [''l1'', ''l2'']" by code_simp
  show "verifyChain sample_sha sample_place 500 twin_log = None" by code_simp
  show "verifyChain sample_sha swapped_place 500 twin_log = Some ''l2''" by code_simp
qed

subsection \<open>What a verified chain excludes\<close>

text \<open>Two of the entries with different contents and the same hash, or one that hashes to the starting value.\<close>

definition entries_collide :: "(string \<Rightarrow> string) \<Rightarrow> AdminOperationLog list \<Rightarrow> AdminOperationLog list \<Rightarrow> bool" where
  "entries_collide sha rs ss =
     ((\<exists>r \<in> set rs. \<exists>s \<in> set ss. entry_text r \<noteq> entry_text s \<and> sha (entry_text r) = sha (entry_text s)) \<or>
      (\<exists>r \<in> set rs \<union> set ss. sha (entry_text r) = GENESIS_HASH))"

lemma entries_collide_mono:
  "entries_collide sha rs ss \<Longrightarrow> set rs \<subseteq> set rs' \<Longrightarrow> set ss \<subseteq> set ss' \<Longrightarrow> entries_collide sha rs' ss'"
  unfolding entries_collide_def by blast

lemma same_end:
  assumes "check_page sha GENESIS_HASH rs = Inr q" and "check_page sha GENESIS_HASH ss = Inr q"
  shows "entries_collide sha rs ss \<or> map params_of rs = map params_of ss"
  using assms
proof (induction rs arbitrary: ss q rule: rev_induct)
  case Nil
  then show ?case
    by (cases ss rule: rev_cases) (auto simp: check_page_append entries_collide_def split: sum.splits if_splits)
next
  case (snoc r rs)
  note ih = snoc.IH
  from snoc.prems obtain q1 where r: "check_page sha GENESIS_HASH rs = Inr q1" "log_previous r = Some q1" "q = sha (entry_text r)"
    by (auto simp: check_page_append split: sum.splits if_splits)
  show ?case
  proof (cases ss rule: rev_cases)
    case Nil
    with snoc.prems(2) r(3) show ?thesis by (auto simp: entries_collide_def)
  next
    case (snoc ss' s)
    with \<open>check_page sha GENESIS_HASH ss = Inr q\<close> obtain q2 where
      s: "check_page sha GENESIS_HASH ss' = Inr q2" "log_previous s = Some q2" "q = sha (entry_text s)"
      by (auto simp: check_page_append split: sum.splits if_splits)
    show ?thesis
    proof (cases "entry_text r = entry_text s")
      case True
      then have eq: "params_of r = params_of s" "q1 = q2" using r(2) s(2) audit_text_inj by (auto simp: entry_text_def)
      from ih [OF r(1), of ss'] s(1) eq(2)
      have "entries_collide sha rs ss' \<or> map params_of rs = map params_of ss'" by simp
      then show ?thesis using eq(1) snoc entries_collide_mono [of sha rs ss' "rs @ [r]" ss] by auto
    next
      case False
      then show ?thesis using r(3) s(3) snoc by (auto simp: entries_collide_def)
    qed
  qed
qed

text \<open>
  C30. Two verified logs that end in the same hash record the same operations in the same order, or two of their own entries
  with different contents have the same hash, or one of their entries hashes to the sixty-four zeros the chain
  starts from. So an entry inside the chain can be neither changed, removed nor reordered while the last hash
  stays, unless whoever does it has found such a collision among the texts of the entries.
\<close>

theorem last_hash_fixes_the_log:
  assumes "verifyChain sha place n logs = None" and "verifyChain sha place' m logs' = None" and "0 < n" and "0 < m"
    and "map_option log_hash (last_log place logs) = map_option log_hash (last_log place' logs')"
  shows "(\<exists>r \<in> set logs. \<exists>r' \<in> set logs'. entry_text r \<noteq> entry_text r' \<and> sha (entry_text r) = sha (entry_text r')) \<or>
    (\<exists>r \<in> set logs \<union> set logs'. sha (entry_text r) = GENESIS_HASH) \<or>
    map params_of (in_order place logs) = map params_of (in_order place' logs')"
proof -
  obtain q q' where c: "check_page sha GENESIS_HASH (in_order place logs) = Inr q"
    "check_page sha GENESIS_HASH (in_order place' logs') = Inr q'"
    using assms(1-4) by (auto simp: verifyChain_intact intact_def)
  have "q = q'" using check_page_Inr [OF c(1)] check_page_Inr [OF c(2)] assms(5)
    by (auto simp: end_hash_def last_log_def split: if_splits)
  then show ?thesis using same_end [OF c(1), of "in_order place' logs'"] c(2) by (simp add: entries_collide_def)
qed

text \<open>The same operations, written by another run at other times under other identifiers.\<close>

definition other_ops :: "(string \<times> int \<times> (string \<Rightarrow> int) \<times> AuditParams) list" where
  "other_ops = [(''m1'', 20, sample_place, sample_params ''A''), (''m2'', 30, sample_place, sample_params ''B''),
     (''m3'', 40, sample_place, sample_params ''C'')]"

definition sample_logs :: "AdminOperationLog list" where "sample_logs = projr (log_run sample_sha sample_ops [])"

definition other_logs :: "AdminOperationLog list" where "other_logs = projr (log_run sample_sha other_ops [])"

theorem last_hash_fixes_the_log_witness:
  "map log_id sample_logs = [''l1'', ''l2'', ''l3''] \<and> map log_id other_logs = [''m1'', ''m2'', ''m3''] \<and>
   map params_of (in_order sample_place sample_logs) = map params_of (in_order sample_place other_logs)"
proof (intro conjI)
  show "map log_id sample_logs = [''l1'', ''l2'', ''l3'']" "map log_id other_logs = [''m1'', ''m2'', ''m3'']" by code_simp+
  have v: "verifyChain sample_sha sample_place 2 sample_logs = None" "verifyChain sample_sha sample_place 500 other_logs = None"
    by code_simp+
  have h: "map_option log_hash (last_log sample_place sample_logs) = map_option log_hash (last_log sample_place other_logs)"
    by code_simp
  have "sample_sha x \<noteq> GENESIS_HASH" for x by (simp add: sample_sha_def GENESIS_HASH_def numeral_eq_Suc)
  then show "map params_of (in_order sample_place sample_logs) = map params_of (in_order sample_place other_logs)"
    using last_hash_fixes_the_log [OF v _ _ h] by (auto simp: sample_sha_def)
qed

subsection \<open>What it does not see\<close>

lemma filter_below:
  "sorted (map f xs) \<Longrightarrow> filter (\<lambda>x. f x < p) xs = takeWhile (\<lambda>x. f x < (p :: 'a :: linorder)) xs"
proof (induction xs)
  case (Cons a xs)
  show ?case
  proof (cases "f a < p")
    case False
    then have "\<forall>x \<in> set xs. \<not> f x < p" using Cons.prems by (auto dest: le_less_trans)
    with False show ?thesis by simp
  qed (use Cons in simp)
qed simp

text \<open>
  The chain does not protect its end: whoever deletes every entry from some position on leaves a
  log that verifies.
\<close>

theorem deleted_tail_verifies:
  assumes "verifyChain sha place n logs = None" and "0 < n"
  shows "verifyChain sha place n (filter (\<lambda>r. position_of r < p) logs) = None"
proof -
  obtain q where q: "check_page sha GENESIS_HASH (in_order place logs) = Inr q"
    using assms by (auto simp: verifyChain_intact intact_def)
  have "in_order place (filter (\<lambda>r. position_of r < p) logs) = filter (\<lambda>r. position_of r < p) (in_order place logs)"
    by (rule in_order_filter)
  also have "\<dots> = takeWhile (\<lambda>r. position_of r < p) (in_order place logs)"
    by (rule filter_below [OF in_order_sorted])
  finally have "in_order place (filter (\<lambda>r. position_of r < p) logs) =
      takeWhile (\<lambda>r. position_of r < p) (in_order place logs)" .
  moreover have "intact sha (takeWhile P (in_order place logs))" for P
    using q takeWhile_dropWhile_id [of P "in_order place logs"]
      check_page_append [of sha GENESIS_HASH "takeWhile P (in_order place logs)" "dropWhile P (in_order place logs)"]
    by (auto simp: intact_def split: sum.splits)
  ultimately show ?thesis using assms(2) by (simp add: verifyChain_intact)
qed

theorem deleted_tail_verifies_witness:
  "map log_id (filter (\<lambda>r. position_of r < Position (Some 0) 12) (projr (log_run sample_sha sample_ops []))) = [''l1'', ''l2''] \<and>
   verifyChain sample_sha sample_place 2 (filter (\<lambda>r. position_of r < Position (Some 0) 12)
     (projr (log_run sample_sha sample_ops []))) = None"
proof -
  have "verifyChain sample_sha sample_place 2 (projr (log_run sample_sha sample_ops [])) = None" by code_simp
  from deleted_tail_verifies [OF this] have
    "verifyChain sample_sha sample_place 2 (filter (\<lambda>r. position_of r < Position (Some 0) 12)
     (projr (log_run sample_sha sample_ops []))) = None" by simp
  moreover have "map log_id (filter (\<lambda>r. position_of r < Position (Some 0) 12)
     (projr (log_run sample_sha sample_ops []))) = [''l1'', ''l2'']" by code_simp
  ultimately show ?thesis by blast
qed

text \<open>
  An honest entry breaks the chain when the clock has gone back: because no code numbers the entries, it is
  sorted before the entry whose hash it names, and from then on the check reports the log as
  tampered with.
\<close>

theorem clock_back_breaks_chain:
  assumes "verifyChain sha place n logs = None" and "0 < n" and "audit_log sha place i t p logs = Inr logs'"
    and "last_log place logs = Some l" and "log_seq l = Some 0" and "t < log_createdAt l"
    and "distinct (map log_hash logs)" and "digests sha"
  shows "verifyChain sha place n logs' \<noteq> None"
proof
  assume "verifyChain sha place n logs' = None"
  then obtain q' where q': "check_page sha GENESIS_HASH (in_order place logs') = Inr q'"
    using assms(2) by (auto simp: verifyChain_intact intact_def)
  obtain q where q: "check_page sha GENESIS_HASH (in_order place logs) = Inr q"
    using assms(1,2) by (auto simp: verifyChain_intact intact_def)
  let ?r = "new_entry sha place i t p logs"
  have l': "logs' = logs @ [?r]" and fresh: "\<forall>s \<in> set logs. log_hash s \<noteq> log_hash ?r"
    using assms(3) by (auto simp: audit_log_def log_conflict_def new_entry_def)
  have ne: "logs \<noteq> []" and l: "l = last (in_order place logs)" using assms(4) by (auto simp: last_log_def split: if_splits)
  have set: "set (in_order place ls) = set ls" for ls by simp
  have lin: "l \<in> set logs" using ne l set by (metis last_in_set set_empty)
  have hl: "log_hash l = Some (sha (entry_text l))" using check_page_Inr [OF q] lin set by auto
  have prev: "previous_hash place logs = the (log_hash l)"
    using previous_hash_end [OF q] check_page_Inr [OF q] assms(8) ne l set
    by (auto simp: end_hash_def digests_def)
  obtain A B where AB: "in_order place logs' = A @ ?r # B" using set [of logs'] l' by (metis in_set_conv_decomp list.set_intros(1) set_append Un_iff)
  have lt: "position_of ?r < position_of l"
    using assms(5,6) by (simp add: position_of_def new_entry_def less_position_def)
  have "sorted (map position_of (A @ ?r # B))" unfolding AB [symmetric] by (rule in_order_sorted)
  then have "\<forall>a \<in> set A. position_of a \<le> position_of ?r" by (simp add: sorted_append)
  then have lA: "l \<notin> set A" using lt by auto
  obtain qa where qa: "check_page sha GENESIS_HASH A = Inr qa" and link: "log_previous ?r = Some qa"
    using q' by (auto simp: AB check_page_append split: sum.splits if_splits)
  have "qa = sha (entry_text l)" using link prev hl by (simp add: new_entry_def)
  show False
  proof (cases "A = []")
    case True
    then show False using qa \<open>qa = sha (entry_text l)\<close> assms(8) by (simp add: digests_def) metis
  next
    case False
    then have la: "last A \<in> set A" by simp
    then have "log_hash (last A) = log_hash l"
      using check_page_Inr [OF qa] False hl \<open>qa = sha (entry_text l)\<close> by (auto simp: end_hash_def)
    moreover have "last A \<in> set logs'" using la AB set [of logs'] by auto
    ultimately show False using fresh lin lA la assms(7)
      by (auto simp: l' dest: distinct_key_unique)
  qed
qed

definition breaking :: "AdminOperationLog list" where
  "breaking = projr (log_run sample_sha [(''l1'', 10, sample_place, sample_params ''A''), (''l2'', 12, sample_place, sample_params ''B'')] [])"

theorem clock_back_breaks_chain_witness:
  "\<exists>logs'. audit_log sample_sha sample_place ''l3'' 11 (sample_params ''C'') breaking = Inr logs' \<and>
     verifyChain sample_sha sample_place 500 logs' \<noteq> None"
proof -
  have v: "verifyChain sample_sha sample_place 500 breaking = None" by code_simp
  have l: "map_option (\<lambda>l. (log_seq l, log_createdAt l)) (last_log sample_place breaking) = Some (Some 0, 12)" by code_simp
  have d: "distinct (map log_hash breaking)" by code_simp
  have "isl (audit_log sample_sha sample_place ''l3'' 11 (sample_params ''C'') breaking) = False" by code_simp
  then obtain logs' where run: "audit_log sample_sha sample_place ''l3'' 11 (sample_params ''C'') breaking = Inr logs'"
    by (cases "audit_log sample_sha sample_place ''l3'' 11 (sample_params ''C'') breaking") auto
  have "digests sample_sha" by (simp add: digests_def sample_sha_def GENESIS_HASH_def numeral_eq_Suc)
  with clock_back_breaks_chain [OF v _ run _ _ _ d] l run show ?thesis by auto
qed

end
