(* ===== verification/Backoffice.thy ===== *)
theory Backoffice
  imports AuditTrail
begin

text \<open>
  What the services of the back office share: the tables only they use beside the platform's world
  (\<open>office\<close>), transactions over both, the audit entry inside a transaction, the roles and
  permissions of administrators (admin/permissions.decorator.ts, admin/permissions.guard.ts) and the paging of
  list queries (common/pagination.ts).

  The lemmas: a transaction that throws leaves the office as it was; the pages of a list are the list.
\<close>

subsection \<open>Administrators\<close>

datatype AdminRole = SUPER_ADMIN | FINANCE | CUSTOMER_SERVICE | RISK_OFFICER

datatype AdminStatus = ACTIVE | DISABLED

record AdminUser =
  adm_id :: string
  adm_username :: string
  adm_password :: string
  adm_nickname :: "string option"
  adm_role :: AdminRole
  adm_status :: AdminStatus

record IdentityVerification =
  iv_id :: string
  iv_user :: string
  iv_realName :: string
  iv_idCard :: string
  iv_idCardHash :: "string option"
  iv_status :: RealNameStatus
  iv_pending :: "string option"

record office =
  front :: world
  identities :: "IdentityVerification list"
  adminUsers :: "AdminUser list"
  operationLogs :: "AdminOperationLog list"

datatype Permission =
    AccountAdjust | WithdrawalAudit | ReconciliationRun | ReconciliationDiffHandle | FinanceView
  | IdentityAudit | MerchantAudit | UserStatusChange | RiskConfig | RiskEventHandle | AdminView

text \<open>\<open>None\<close> is the \<open>'*'\<close> of the table.\<close>

fun ROLE_PERMISSIONS :: "AdminRole \<Rightarrow> Permission list option" where
  "ROLE_PERMISSIONS SUPER_ADMIN = None"
| "ROLE_PERMISSIONS FINANCE = Some [AccountAdjust, WithdrawalAudit, ReconciliationRun, ReconciliationDiffHandle,
     FinanceView, AdminView]"
| "ROLE_PERMISSIONS CUSTOMER_SERVICE = Some [IdentityAudit, MerchantAudit, UserStatusChange, AdminView]"
| "ROLE_PERMISSIONS RISK_OFFICER = Some [RiskConfig, RiskEventHandle, AdminView]"

definition hasPermission :: "AdminRole \<Rightarrow> Permission \<Rightarrow> bool" where
  "hasPermission role permission =
     (case ROLE_PERMISSIONS role of None \<Rightarrow> True | Some ps \<Rightarrow> permission \<in> set ps)"

text \<open>The guard in front of an endpoint; \<open>None\<close> is a request without an authenticated administrator.\<close>

definition permissions_guard :: "Permission list \<Rightarrow> AdminRole option \<Rightarrow> exn + bool" where
  "permissions_guard required user =
     (if required = [] then Inr True
      else or_throw user (Forbidden AUTHENTICATION_FAILED) (\<lambda>role.
        throw_if (\<not> list_ex (hasPermission role) required) (Forbidden FORBIDDEN) (Inr True)))"

subsection \<open>Transactions\<close>

definition office_tx :: "(office \<Rightarrow> exn + ('a \<times> office)) \<Rightarrow> office \<Rightarrow> (exn + 'a) \<times> office" where
  "office_tx f s = (case f s of Inl e \<Rightarrow> (Inl e, s) | Inr (a, s') \<Rightarrow> (Inr a, s'))"

lemma office_tx_Inr [simp, kb_simps]: "office_tx f s = (Inr a, s') \<longleftrightarrow> f s = Inr (a, s')"
  by (auto simp: office_tx_def split: sum.splits)

lemma office_tx_Inl: "office_tx f s = (Inl e, s') \<Longrightarrow> s' = s \<and> f s = Inl e"
  by (auto simp: office_tx_def split: sum.splits)

definition odb :: "office \<Rightarrow> db" where "odb s = wdb (front s)"

definition with_db :: "db \<Rightarrow> office \<Rightarrow> office" where
  "with_db d s = s\<lparr>front := (front s)\<lparr>wdb := d\<rparr>\<rparr>"

lemma with_db_simps [simp]:
  "odb (with_db d s) = d" "identities (with_db d s) = identities s" "adminUsers (with_db d s) = adminUsers s"
  "operationLogs (with_db d s) = operationLogs s"
  "odb (s\<lparr>identities := xi\<rparr>) = odb s" "odb (s\<lparr>adminUsers := xa\<rparr>) = odb s" "odb (s\<lparr>operationLogs := xl\<rparr>) = odb s"
  by (simp_all add: odb_def with_db_def)

record AuditMeta =
  meta_ip :: "string option"
  meta_userAgent :: "string option"

definition no_meta :: AuditMeta where "no_meta = \<lparr>meta_ip = None, meta_userAgent = None\<rparr>"

text \<open>\<open>auditLog.log(\<dots>, tx)\<close>: the last statement of a transaction, with the transaction's result.\<close>

definition audited ::
  "(string \<Rightarrow> string) \<Rightarrow> env \<Rightarrow> nat \<Rightarrow> string \<Rightarrow> string \<Rightarrow> string option \<Rightarrow> string option \<Rightarrow> AuditMeta \<Rightarrow> 'a \<Rightarrow>
   office \<Rightarrow> exn + ('a \<times> office)" where
  "audited sha e i admin action target detail meta result s =
     bindE (audit_log sha (row_place e) (uuid e i) (now e)
              \<lparr>ap_admin = admin, ap_action = action, ap_target = target, ap_detail = detail,
               ap_ip = meta_ip meta, ap_userAgent = meta_userAgent meta\<rparr> (operationLogs s))
       (\<lambda>logs. Inr (result, s\<lparr>operationLogs := logs\<rparr>))"

lemma audited_Inr:
  "audited sha e i admin action target detail meta result s = Inr (a, s') \<longleftrightarrow>
   (\<exists>logs. audit_log sha (row_place e) (uuid e i) (now e)
      \<lparr>ap_admin = admin, ap_action = action, ap_target = target, ap_detail = detail,
       ap_ip = meta_ip meta, ap_userAgent = meta_userAgent meta\<rparr> (operationLogs s) = Inr logs \<and>
     a = result \<and> s' = s\<lparr>operationLogs := logs\<rparr>)"
  by (auto simp: audited_def)

lemma audit_log_length: "audit_log sha pl i t p logs = Inr logs' \<Longrightarrow> length logs' = Suc (length logs)"
  by (auto simp: audit_log_def)

text \<open>What \<open>logAction\<close> does: an entry in a transaction of its own.\<close>

definition logAction ::
  "(string \<Rightarrow> string) \<Rightarrow> env \<Rightarrow> string \<Rightarrow> string \<Rightarrow> string option \<Rightarrow> string option \<Rightarrow> AuditMeta \<Rightarrow>
   office \<Rightarrow> (exn + unit) \<times> office" where
  "logAction sha e admin action target detail meta = office_tx (audited sha e 0 admin action target detail meta ())"

subsection \<open>Paging\<close>

definition DEFAULT_PAGE_SIZE :: int where "DEFAULT_PAGE_SIZE = 10"

definition MAX_PAGE_SIZE :: int where "MAX_PAGE_SIZE = 100"

record Pagination =
  pg_page :: int
  pg_limit :: int
  pg_skip :: int
  pg_take :: int

text \<open>\<open>query.page || 1\<close>: a missing value and zero are replaced.\<close>

definition or_default :: "int option \<Rightarrow> int \<Rightarrow> int" where
  "or_default x d = (case x of None \<Rightarrow> d | Some n \<Rightarrow> if n = 0 then d else n)"

definition computePagination :: "int option \<Rightarrow> int option \<Rightarrow> int \<Rightarrow> Pagination" where
  "computePagination qpage qlimit maxPageSize =
     (let page = max 1 (or_default qpage 1);
          limit = max 1 (min maxPageSize (or_default qlimit DEFAULT_PAGE_SIZE))
      in \<lparr>pg_page = page, pg_limit = limit, pg_skip = (page - 1) * limit, pg_take = limit\<rparr>)"

record 'a PaginatedData =
  pd_data :: "'a list"
  pd_total :: nat
  pd_page :: int
  pd_limit :: int

text \<open>
  A list query: the rows that satisfy the filter, in the order of the query, one page of them and their number.
\<close>

definition listed ::
  "('r \<Rightarrow> bool) \<Rightarrow> ('r list \<Rightarrow> 'r list) \<Rightarrow> int option \<Rightarrow> int option \<Rightarrow> int \<Rightarrow> 'r list \<Rightarrow> 'r PaginatedData" where
  "listed P order qpage qlimit maxSize rows =
     (let p = computePagination qpage qlimit maxSize; found = filter P rows
      in \<lparr>pd_data = take (nat (pg_take p)) (drop (nat (pg_skip p)) (order found)), pd_total = length found,
          pd_page = pg_page p, pd_limit = pg_limit p\<rparr>)"

lemma take_drop_pages:
  "concat (map (\<lambda>k. take n (drop (k * n) xs)) [0..<m]) = take (m * n) xs"
proof (induction m)
  case (Suc m)
  have "take (m * n) xs @ take n (drop (m * n) xs) = take (m * n + n) xs" by (simp add: take_add)
  with Suc show ?case by (simp add: add.commute)
qed simp

text \<open>Reading the pages 1 to \<open>m\<close> of any size between one and the maximum gives the first rows, each once.\<close>

lemma pages_in_sequence:
  assumes "0 < n" and "n \<le> maxSize"
  shows "concat (map (\<lambda>k. pd_data (listed P order (Some (int k + 1)) (Some n) maxSize rows)) [0..<m]) =
    take (m * nat n) (order (filter P rows))"
proof -
  have "pd_data (listed P order (Some (int k + 1)) (Some n) maxSize rows) =
      take (nat n) (drop (k * nat n) (order (filter P rows)))" for k
  proof -
    have "nat (int k * n) = k * nat n" using assms(1) by (simp add: nat_mult_distrib)
    then show ?thesis using assms by (simp add: listed_def computePagination_def or_default_def Let_def max_def min_def)
  qed
  then show ?thesis by (simp add: take_drop_pages)
qed

lemma page_bounds:
  assumes "1 \<le> maxSize"
  shows "1 \<le> pd_page (listed P order qp ql maxSize rows)" and "1 \<le> pd_limit (listed P order qp ql maxSize rows)"
    and "pd_limit (listed P order qp ql maxSize rows) \<le> maxSize"
    and "length (pd_data (listed P order qp ql maxSize rows)) \<le> nat maxSize"
proof -
  have lim: "pg_take (computePagination qp ql maxSize) \<le> maxSize" "1 \<le> pg_take (computePagination qp ql maxSize)"
    using assms by (simp_all add: computePagination_def Let_def)
  show "1 \<le> pd_page (listed P order qp ql maxSize rows)" "1 \<le> pd_limit (listed P order qp ql maxSize rows)"
    "pd_limit (listed P order qp ql maxSize rows) \<le> maxSize"
    using assms by (simp_all add: listed_def computePagination_def Let_def)
  have "length (pd_data (listed P order qp ql maxSize rows)) \<le> nat (pg_take (computePagination qp ql maxSize))"
    by (simp add: listed_def Let_def)
  then show "length (pd_data (listed P order qp ql maxSize rows)) \<le> nat maxSize" using lim by linarith
qed

end
