(* ===== verification/Identity.thy ===== *)
theory Identity
  imports Backoffice
begin

text \<open>
  Real-name verification: the application and the reset of the payment password
  (users/users.service.ts), its review by an administrator and the changes of a user's status and risk level
  (admin/admin.service.ts). The payment password a user applies with waits in the application until the
  review accepts it. Encryption of the identity number, bcrypt and SHA-256 are parameters.

  The lemmas: a user's status is that of the application, through any sequence of these operations,
  and only an accepted user has a payment password.
\<close>

subsection \<open>Texts of the audit details\<close>

fun user_status_text :: "UserStatus \<Rightarrow> string" where
  "user_status_text UserStatus.ACTIVE = ''ACTIVE''"
| "user_status_text EXPENSE_RESTRICTED = ''EXPENSE_RESTRICTED''"
| "user_status_text INCOME_RESTRICTED = ''INCOME_RESTRICTED''"
| "user_status_text UserStatus.FROZEN = ''FROZEN''"

fun risk_level_text :: "RiskLevel \<Rightarrow> string" where
  "risk_level_text LOW = ''LOW''"
| "risk_level_text MEDIUM = ''MEDIUM''"
| "risk_level_text HIGH = ''HIGH''"

text \<open>A member that \<open>JSON.stringify\<close> leaves out when it is undefined.\<close>

definition optional_member :: "string \<Rightarrow> string option \<Rightarrow> (string \<times> string) list" where
  "optional_member k x = (case x of None \<Rightarrow> [] | Some s \<Rightarrow> [(k, json_string s)])"

subsection \<open>Status and risk level of a user\<close>

definition update_user :: "string \<Rightarrow> (User \<Rightarrow> User) \<Rightarrow> office \<Rightarrow> exn + (User \<times> office)" where
  "update_user u f s =
     bindE (updateOne P2025 IntOutOfRange (\<lambda>_. True) (\<lambda>x. usr_id x = u) f (users (odb s)))
       (\<lambda>(x, t). Inr (x, with_db ((odb s)\<lparr>users := t\<rparr>) s))"

definition admin_or_system :: "string option \<Rightarrow> string" where
  "admin_or_system a = (case a of None \<Rightarrow> ''system'' | Some x \<Rightarrow> x)"

definition updateUserStatus ::
  "(string \<Rightarrow> string) \<Rightarrow> env \<Rightarrow> string \<Rightarrow> UserStatus \<Rightarrow> string option \<Rightarrow> string option \<Rightarrow> AuditMeta \<Rightarrow>
   office \<Rightarrow> (exn + User) \<times> office" where
  "updateUserStatus sha e userId status reason adminId meta s =
     (case find_user userId (odb s) of
        None \<Rightarrow> (Inl (NotFound USER_NOT_FOUND), s)
      | Some _ \<Rightarrow> office_tx (\<lambda>s.
          bindE (update_user userId (\<lambda>x. x\<lparr>usr_status := status\<rparr>) s) (\<lambda>(updated, s1).
            audited sha e 0 (admin_or_system adminId) ''USER_STATUS_UPDATE'' (Some userId)
              (Some (json_object ((''status'', json_string (user_status_text status)) # optional_member ''reason'' reason)))
              meta updated (with_db (add_event userId STATUS_CHANGED MEDIUM (odb s1)) s1))) s)"

definition updateUserRiskLevel ::
  "(string \<Rightarrow> string) \<Rightarrow> env \<Rightarrow> string \<Rightarrow> RiskLevel \<Rightarrow> string option \<Rightarrow> AuditMeta \<Rightarrow>
   office \<Rightarrow> (exn + User) \<times> office" where
  "updateUserRiskLevel sha e userId level adminId meta s =
     (case find_user userId (odb s) of
        None \<Rightarrow> (Inl (NotFound USER_NOT_FOUND), s)
      | Some _ \<Rightarrow> office_tx (\<lambda>s.
          bindE (update_user userId (\<lambda>x. x\<lparr>usr_risk := level\<rparr>) s) (\<lambda>(updated, s1).
            audited sha e 0 (admin_or_system adminId) ''USER_RISK_LEVEL_UPDATE'' (Some userId)
              (Some (json_object [(''level'', json_string (risk_level_text level))])) meta updated s1)) s)"

subsection \<open>Applying\<close>

record IdentityDto =
  idt_realName :: string
  idt_idCard :: string
  idt_payPassword :: string

definition iv_conflict :: "IdentityVerification \<Rightarrow> IdentityVerification \<Rightarrow> bool" where
  "iv_conflict r s = (iv_id r = iv_id s \<or> iv_user r = iv_user s \<or> iv_idCard r = iv_idCard s \<or>
     (iv_idCardHash r \<noteq> None \<and> iv_idCardHash r = iv_idCardHash s))"

definition identity_of :: "string \<Rightarrow> office \<Rightarrow> IdentityVerification option" where
  "identity_of u s = findUnique (\<lambda>r. iv_user r = u) (identities s)"

text \<open>\<open>upsert\<close> on the user; a unique column of another row refuses the update as it refuses the insert.\<close>

definition upsert_identity :: "IdentityVerification \<Rightarrow> office \<Rightarrow> exn + (IdentityVerification \<times> office)" where
  "upsert_identity new s =
     (case identity_of (iv_user new) s of
        None \<Rightarrow> bindE (create P2002 iv_conflict new (identities s)) (\<lambda>t. Inr (new, s\<lparr>identities := t\<rparr>))
      | Some old \<Rightarrow>
          throw_if (list_ex (\<lambda>r. iv_user r \<noteq> iv_user new \<and>
              (iv_idCard r = iv_idCard new \<or> iv_idCardHash r = iv_idCardHash new)) (identities s)) P2002
            (Inr (new\<lparr>iv_id := iv_id old\<rparr>,
                  s\<lparr>identities := updateRows (\<lambda>r. iv_user r = iv_user new) (\<lambda>r. new\<lparr>iv_id := iv_id r\<rparr>) (identities s)\<rparr>)))"

definition verifyIdentity ::
  "(string \<Rightarrow> string) \<Rightarrow> (string \<Rightarrow> string) \<Rightarrow> (string \<Rightarrow> string) \<Rightarrow> env \<Rightarrow> string \<Rightarrow> IdentityDto \<Rightarrow>
   office \<Rightarrow> (exn + IdentityVerification) \<times> office" where
  "verifyIdentity sha hash_pw encrypt e userId dto s =
     (case find_user userId (odb s) of
        None \<Rightarrow> (Inl (NotFound USER_NOT_FOUND), s)
      | Some user \<Rightarrow>
          if usr_realName user = RealNameStatus.VERIFIED then (Inl (BadRequest ALREADY_VERIFIED), s)
          else if usr_realName user = RealNameStatus.PENDING then (Inl (BadRequest VERIFICATION_PENDING), s)
          else if list_ex (\<lambda>r. iv_idCardHash r = Some (sha (idt_idCard dto)) \<and> iv_user r \<noteq> userId) (identities s)
          then (Inl (BadRequest IDENTITY_IDCARD_USED), s)
          else office_tx (\<lambda>s.
            bindE (upsert_identity \<lparr>iv_id = uuid e 0, iv_user = userId, iv_realName = idt_realName dto,
                     iv_idCard = encrypt (idt_idCard dto), iv_idCardHash = Some (sha (idt_idCard dto)),
                     iv_status = RealNameStatus.PENDING, iv_pending = Some (hash_pw (idt_payPassword dto))\<rparr> s)
              (\<lambda>(identity, s1). bindE (update_user userId (\<lambda>x. x\<lparr>usr_realName := RealNameStatus.PENDING\<rparr>) s1)
                 (\<lambda>(_, s2). Inr (identity, s2)))) s)"

subsection \<open>The review\<close>

text \<open>
  Both decisions: the guarded change of the application, that of the user, and the audit entry.
\<close>

definition decide ::
  "(IdentityVerification \<Rightarrow> IdentityVerification) \<Rightarrow> (User \<Rightarrow> User) \<Rightarrow> IdentityVerification \<Rightarrow>
   (office \<Rightarrow> exn + ('a \<times> office)) \<Rightarrow> office \<Rightarrow> exn + ('a \<times> office)" where
  "decide f g identity k s =
     bindE (updateMany IntOutOfRange (\<lambda>_. True)
              (\<lambda>r. iv_id r = iv_id identity \<and> iv_status r = RealNameStatus.PENDING) f (identities s))
       (\<lambda>(count, t). throw_if (count = 0) (BadRequest IDENTITY_NOT_PENDING)
          (bindE (update_user (iv_user identity) g (s\<lparr>identities := t\<rparr>)) (\<lambda>(_, s1). k s1)))"

definition approveIdentity ::
  "(string \<Rightarrow> string) \<Rightarrow> env \<Rightarrow> string \<Rightarrow> string \<Rightarrow> AuditMeta \<Rightarrow> office \<Rightarrow>
   (exn + IdentityVerification) \<times> office" where
  "approveIdentity sha e i adminId meta s =
     (case findUnique (\<lambda>r. iv_id r = i) (identities s) of
        None \<Rightarrow> (Inl (NotFound IDENTITY_RECORD_NOT_FOUND), s)
      | Some identity \<Rightarrow>
          if iv_status identity \<noteq> RealNameStatus.PENDING then (Inl (BadRequest IDENTITY_NOT_PENDING), s)
          else office_tx (decide (\<lambda>r. r\<lparr>iv_status := RealNameStatus.VERIFIED\<rparr>)
            (\<lambda>x. if truthy (iv_pending identity)
                 then x\<lparr>usr_realName := RealNameStatus.VERIFIED, usr_payPassword := iv_pending identity\<rparr>
                 else x\<lparr>usr_realName := RealNameStatus.VERIFIED\<rparr>) identity
            (audited sha e 0 adminId ''IDENTITY_AUDIT'' (Some i)
               (Some (json_object [(''action'', json_string ''APPROVE''), (''userId'', json_string (iv_user identity))]))
               meta (identity\<lparr>iv_status := RealNameStatus.VERIFIED\<rparr>))) s)"

definition rejectIdentity ::
  "(string \<Rightarrow> string) \<Rightarrow> env \<Rightarrow> string \<Rightarrow> string \<Rightarrow> string \<Rightarrow> AuditMeta \<Rightarrow> office \<Rightarrow>
   (exn + IdentityVerification) \<times> office" where
  "rejectIdentity sha e i reason adminId meta s =
     (case findUnique (\<lambda>r. iv_id r = i) (identities s) of
        None \<Rightarrow> (Inl (NotFound IDENTITY_RECORD_NOT_FOUND), s)
      | Some identity \<Rightarrow>
          if iv_status identity \<noteq> RealNameStatus.PENDING then (Inl (BadRequest IDENTITY_NOT_PENDING), s)
          else office_tx (decide (\<lambda>r. r\<lparr>iv_status := RealNameStatus.REJECTED, iv_pending := None\<rparr>)
            (\<lambda>x. x\<lparr>usr_realName := RealNameStatus.REJECTED\<rparr>) identity
            (audited sha e 0 adminId ''IDENTITY_AUDIT'' (Some i)
               (Some (json_object [(''action'', json_string ''REJECT''), (''userId'', json_string (iv_user identity)),
                  (''reason'', json_string reason)]))
               meta (identity\<lparr>iv_status := RealNameStatus.REJECTED\<rparr>))) s)"

subsection \<open>Resetting the payment password\<close>

text \<open>\<open>decrypt\<close> is \<open>None\<close> where the crypto library throws.\<close>

definition resetPayPassword ::
  "(string \<Rightarrow> string option) \<Rightarrow> (string \<Rightarrow> string) \<Rightarrow> string \<Rightarrow> IdentityDto \<Rightarrow> office \<Rightarrow> (exn + User) \<times> office" where
  "resetPayPassword decrypt hash_pw userId dto s =
     (case identity_of userId s of
        None \<Rightarrow> (Inl (BadRequest IDENTITY_NOT_FOUND), s)
      | Some identity \<Rightarrow>
          if iv_status identity \<noteq> RealNameStatus.VERIFIED then (Inl (BadRequest REAL_NAME_REQUIRED), s)
          else case decrypt (iv_idCard identity) of
            None \<Rightarrow> (Inl (PlainError UNKNOWN_ERROR), s)
          | Some idCard \<Rightarrow>
              if iv_realName identity \<noteq> idt_realName dto \<or> idCard \<noteq> idt_idCard dto
              then (Inl (BadRequest IDENTITY_MISMATCH), s)
              else andThen (office_tx (update_user userId
                     (\<lambda>x. x\<lparr>usr_payPassword := Some (hash_pw (idt_payPassword dto))\<rparr>)) s)
                   (\<lambda>result s. (Inr result, s\<lparr>front := clearAttempts userId (front s)\<rparr>)))"

subsection \<open>Any sequence of these operations\<close>

inductive identity_step :: "office \<Rightarrow> office \<Rightarrow> bool" where
  i_apply: "identity_step s (snd (verifyIdentity sha hash_pw encrypt e u dto s))"
| i_approve: "identity_step s (snd (approveIdentity sha e i admin meta s))"
| i_reject: "identity_step s (snd (rejectIdentity sha e i reason admin meta s))"
| i_reset: "identity_step s (snd (resetPayPassword decrypt hash_pw u dto s))"
| i_status: "identity_step s (snd (updateUserStatus sha e u status reason adm meta s))"
| i_risk: "identity_step s (snd (updateUserRiskLevel sha e u level adm meta s))"

definition status_of :: "string \<Rightarrow> IdentityVerification list \<Rightarrow> RealNameStatus" where
  "status_of u t = (case findUnique (\<lambda>r. iv_user r = u) t of None \<Rightarrow> RealNameStatus.UNVERIFIED | Some r \<Rightarrow> iv_status r)"

definition user_ok :: "IdentityVerification list \<Rightarrow> User \<Rightarrow> bool" where
  "user_ok t x = (usr_realName x = status_of (usr_id x) t \<and>
     (usr_payPassword x \<noteq> None \<longrightarrow> usr_realName x = RealNameStatus.VERIFIED))"

definition identity_ok :: "office \<Rightarrow> bool" where
  "identity_ok s = (distinct (map usr_id (users (odb s))) \<and> distinct (map iv_user (identities s)) \<and>
     distinct (map iv_id (identities s)) \<and> list_all (user_ok (identities s)) (users (odb s)))"

lemma identity_ok_update:
  assumes inv: "identity_ok s" and users: "users (odb s') = updateRows (\<lambda>x. usr_id x = u) f (users (odb s))"
    and keep: "\<And>x. usr_id (f x) = usr_id x"
    and ids: "distinct (map iv_user (identities s'))" "distinct (map iv_id (identities s'))"
    and other: "\<And>v. v \<noteq> u \<Longrightarrow> status_of v (identities s') = status_of v (identities s)"
    and own: "\<And>x. x \<in> set (users (odb s)) \<Longrightarrow> usr_id x = u \<Longrightarrow> user_ok (identities s) x \<Longrightarrow> user_ok (identities s') (f x)"
  shows "identity_ok s'"
proof -
  have "user_ok (identities s') y" if "y \<in> set (users (odb s'))" for y
    using that unfolding users
  proof (cases rule: in_updateRowsE)
    case (changed x)
    then show ?thesis using own [of x] inv by (auto simp: identity_ok_def list_all_iff)
  next
    case same
    then have "user_ok (identities s) y" using inv by (auto simp: identity_ok_def list_all_iff)
    then show ?thesis using other [of "usr_id y"] same(2) by (auto simp: user_ok_def)
  qed
  moreover have "map usr_id (users (odb s')) = map usr_id (users (odb s))"
    unfolding users by (rule map_updateRows_frame) (simp add: keep)
  ultimately show ?thesis using ids inv by (simp add: identity_ok_def list_all_iff)
qed

lemma identity_ok_same:
  "identity_ok s \<Longrightarrow> users (odb s') = users (odb s) \<Longrightarrow> identities s' = identities s \<Longrightarrow> identity_ok s'"
  by (simp add: identity_ok_def)

lemma update_user_Inr:
  "update_user u f s = Inr (x, s') \<Longrightarrow>
     users (odb s') = updateRows (\<lambda>x. usr_id x = u) f (users (odb s)) \<and> identities s' = identities s"
  by (auto simp: update_user_def)

lemma add_event_users [simp]: "users (add_event u ty l d) = users d"
  by (simp add: add_event_def)

lemma status_of_update:
  assumes "\<And>r. P r \<Longrightarrow> iv_user (f r) = iv_user r"
  shows "status_of v (updateRows P f t) = (case findUnique (\<lambda>r. iv_user r = v) t of
    None \<Rightarrow> RealNameStatus.UNVERIFIED | Some r \<Rightarrow> iv_status (if P r then f r else r))"
  using assms by (simp add: status_of_def findUnique_updateRows split: option.split)

lemma apply_identity_ok:
  assumes "identity_ok s"
  shows "identity_ok (snd (verifyIdentity sha hash_pw encrypt e u dto s))"
proof (cases "verifyIdentity sha hash_pw encrypt e u dto s")
  case (Pair r s')
  show ?thesis
  proof (cases r)
    case (Inl x)
    then show ?thesis using Pair assms
      by (auto simp: verifyIdentity_def split: option.splits if_splits dest: office_tx_Inl)
  next
    case (Inr a)
    let ?new = "\<lparr>iv_id = uuid e 0, iv_user = u, iv_realName = idt_realName dto, iv_idCard = encrypt (idt_idCard dto),
      iv_idCardHash = Some (sha (idt_idCard dto)), iv_status = RealNameStatus.PENDING,
      iv_pending = Some (hash_pw (idt_payPassword dto))\<rparr>"
    obtain user s1 x where user: "find_user u (odb s) = Some user"
      and st: "usr_realName user \<noteq> RealNameStatus.VERIFIED"
      and up: "upsert_identity ?new s = Inr (a, s1)"
      and us: "update_user u (\<lambda>x. x\<lparr>usr_realName := RealNameStatus.PENDING\<rparr>) s1 = Inr (x, s')"
      using Pair Inr by (auto simp: verifyIdentity_def split: option.splits if_splits)
    note uu = update_user_Inr [OF us]
    have same: "odb s1 = odb s" using up by (auto simp: upsert_identity_def split: option.splits)
    have d: "distinct (map iv_user (identities s))" "distinct (map iv_id (identities s))"
      using assms by (simp_all add: identity_ok_def)
    have ids: "distinct (map iv_user (identities s1)) \<and> distinct (map iv_id (identities s1)) \<and>
        status_of u (identities s1) = RealNameStatus.PENDING \<and>
        (\<forall>v. v \<noteq> u \<longrightarrow> status_of v (identities s1) = status_of v (identities s))"
    proof (cases "identity_of u s")
      case None
      then have i: "identities s1 = identities s @ [?new]" and c: "\<forall>r \<in> set (identities s). \<not> iv_conflict ?new r"
        using up by (auto simp: upsert_identity_def)
      then have "u \<notin> iv_user ` set (identities s)" "uuid e 0 \<notin> iv_id ` set (identities s)"
        by (auto simp: iv_conflict_def)
      then show ?thesis using None d
        by (auto simp: i status_of_def identity_of_def findUnique_append split: option.split)
    next
      case (Some old)
      then have i: "identities s1 = updateRows (\<lambda>r. iv_user r = u) (\<lambda>r. ?new\<lparr>iv_id := iv_id r\<rparr>) (identities s)"
        using up by (auto simp: upsert_identity_def)
      have m: "map iv_user (identities s1) = map iv_user (identities s)" "map iv_id (identities s1) = map iv_id (identities s)"
        unfolding i by (rule map_updateRows_frame, simp)+
      have st: "status_of v (identities s1) = (case findUnique (\<lambda>r. iv_user r = v) (identities s) of
          None \<Rightarrow> RealNameStatus.UNVERIFIED
        | Some r \<Rightarrow> iv_status (if iv_user r = u then ?new\<lparr>iv_id := iv_id r\<rparr> else r))" for v
        unfolding i by (rule status_of_update) simp
      have a: "status_of u (identities s1) = RealNameStatus.PENDING"
      proof -
        have "findUnique (\<lambda>r. iv_user r = u) (identities s) = Some old" "iv_user old = u"
          using Some findUnique_SomeD [of _ "identities s" old] by (auto simp: identity_of_def)
        then show ?thesis by (simp add: st)
      qed
      have b: "status_of v (identities s1) = status_of v (identities s)" if "v \<noteq> u" for v
      proof (cases "findUnique (\<lambda>r. iv_user r = v) (identities s)")
        case (Some r)
        then have "iv_user r \<noteq> u" using findUnique_SomeD [OF Some] that by simp
        with Some show ?thesis by (simp add: st) (simp add: status_of_def)
      qed (simp add: st, simp add: status_of_def)
      show ?thesis using m a b d by simp
    qed
    have "identity_ok s'"
    proof (rule identity_ok_update [OF assms])
      show "users (odb s') = updateRows (\<lambda>x. usr_id x = u) (\<lambda>x. x\<lparr>usr_realName := RealNameStatus.PENDING\<rparr>) (users (odb s))"
        using uu by (simp add: same)
      fix x assume x: "x \<in> set (users (odb s))" "usr_id x = u" "user_ok (identities s) x"
      have "user \<in> set (users (odb s))" "usr_id user = u"
        using findUnique_SomeD [OF user [unfolded find_user_def]] by simp_all
      then have "x = user" using distinct_key_unique [of usr_id "users (odb s)" x user] x(1,2) assms
        by (simp add: identity_ok_def)
      then show "user_ok (identities s') (x\<lparr>usr_realName := RealNameStatus.PENDING\<rparr>)"
        using x st ids uu by (auto simp: user_ok_def)
    qed (use ids uu in simp_all)
    then show ?thesis using Pair by simp
  qed
qed

lemma decide_identity_ok:
  assumes inv: "identity_ok s" and found: "findUnique (\<lambda>r. iv_id r = i) (identities s) = Some identity"
    and run: "decide f g identity k s = Inr (a, s')"
    and k: "\<And>s1. k s1 = Inr (a, s') \<Longrightarrow> odb s' = odb s1 \<and> identities s' = identities s1"
    and f: "\<And>r. iv_user (f r) = iv_user r \<and> iv_id (f r) = iv_id r \<and> iv_status (f r) = st"
    and g: "\<And>x. usr_id (g x) = usr_id x \<and> usr_realName (g x) = st"
    and pw: "st \<noteq> RealNameStatus.VERIFIED \<Longrightarrow> \<forall>x. usr_payPassword (g x) = usr_payPassword x"
  shows "identity_ok s'"
proof -
  let ?P = "\<lambda>r. iv_id r = i \<and> iv_status r = RealNameStatus.PENDING"
  have i: "iv_id identity = i" "identity \<in> set (identities s)" using findUnique_SomeD [OF found] by auto
  obtain x s1 where hit: "filter ?P (identities s) \<noteq> []"
    and us: "update_user (iv_user identity) g (s\<lparr>identities := updateRows ?P f (identities s)\<rparr>) = Inr (x, s1)"
    and ks: "k s1 = Inr (a, s')"
    using run i by (auto simp: decide_def)
  note uu = update_user_Inr [OF us] and kk = k [OF ks]
  have d: "distinct (map iv_user (identities s))" "distinct (map iv_id (identities s))"
    using inv by (simp_all add: identity_ok_def)
  obtain r where r: "r \<in> set (identities s)" "iv_id r = i" "iv_status r = RealNameStatus.PENDING"
    using hit by (auto simp: filter_empty_conv)
  have pend: "iv_status identity = RealNameStatus.PENDING"
    using distinct_key_unique [OF d(2) r(1) i(2)] r i by simp
  have t: "identities s' = updateRows ?P f (identities s)" using uu kk by simp
  have st: "status_of v (identities s') = (case findUnique (\<lambda>r. iv_user r = v) (identities s) of
      None \<Rightarrow> RealNameStatus.UNVERIFIED | Some r \<Rightarrow> iv_status (if ?P r then f r else r))" for v
    unfolding t by (rule status_of_update) (simp add: f)
  have own: "findUnique (\<lambda>r. iv_user r = iv_user identity) (identities s) = Some identity"
    by (rule findUnique_key_eq [OF d(1) i(2)]) simp
  have there: "status_of (iv_user identity) (identities s') = st" using own i pend f by (simp add: st)
  show ?thesis
  proof (rule identity_ok_update [OF inv])
    show "users (odb s') = updateRows (\<lambda>x. usr_id x = iv_user identity) g (users (odb s))"
      using uu kk by simp
    show "usr_id (g x) = usr_id x" for x using g by simp
    show "distinct (map iv_user (identities s'))" "distinct (map iv_id (identities s'))"
      using d unfolding t by (simp_all add: map_updateRows_frame f)
    show "status_of v (identities s') = status_of v (identities s)" if "v \<noteq> iv_user identity" for v
    proof (cases "findUnique (\<lambda>r. iv_user r = v) (identities s)")
      case (Some r)
      then have "\<not> ?P r" using findUnique_SomeD [OF Some] that distinct_key_unique [OF d(2) _ i(2), of r] i(1) by auto
      with Some show ?thesis by (simp only: st) (auto simp: status_of_def)
    qed (simp only: st, simp add: status_of_def)
    fix x assume "usr_id x = iv_user identity" "user_ok (identities s) x"
    then have none: "usr_payPassword x = None" and i: "usr_id x = iv_user identity"
      using own pend by (auto simp: user_ok_def status_of_def)
    have "usr_payPassword (g x) \<noteq> None \<longrightarrow> st = RealNameStatus.VERIFIED"
      using pw none by (cases "st = RealNameStatus.VERIFIED") auto
    then show "user_ok (identities s') (g x)" unfolding user_ok_def by (simp add: g i there)
  qed
qed

lemma review_identity_ok:
  assumes "identity_ok s"
  shows "identity_ok (snd (approveIdentity sha e i admin meta s))"
    and "identity_ok (snd (rejectIdentity sha e i reason admin meta s))"
proof -
  have tx: "identity_ok (snd (office_tx h s))"
    if "\<And>a s'. h s = Inr (a, s') \<Longrightarrow> identity_ok s'" for h :: "office \<Rightarrow> exn + (IdentityVerification \<times> office)"
    using that assms by (cases "h s") (auto simp: office_tx_def split: prod.split)
  show "identity_ok (snd (approveIdentity sha e i admin meta s))"
  proof (cases "findUnique (\<lambda>r. iv_id r = i) (identities s)")
    case (Some identity)
    then show ?thesis using assms
      by (auto simp: approveIdentity_def intro!: tx elim!: decide_identity_ok [OF assms Some, where st = RealNameStatus.VERIFIED]
          simp: audited_Inr)
  qed (use assms in \<open>simp add: approveIdentity_def\<close>)
  show "identity_ok (snd (rejectIdentity sha e i reason admin meta s))"
  proof (cases "findUnique (\<lambda>r. iv_id r = i) (identities s)")
    case (Some identity)
    then show ?thesis using assms
      by (auto simp: rejectIdentity_def intro!: tx elim!: decide_identity_ok [OF assms Some, where st = RealNameStatus.REJECTED]
          simp: audited_Inr)
  qed (use assms in \<open>simp add: rejectIdentity_def\<close>)
qed

lemma other_columns_ok:
  assumes "identity_ok s" and "update_user u f s = Inr (x, s1)" and "identities s' = identities s1"
    and "users (odb s') = users (odb s1)"
    and f: "\<And>x. usr_id (f x) = usr_id x \<and> usr_realName (f x) = usr_realName x \<and> usr_payPassword (f x) = usr_payPassword x"
  shows "identity_ok s'"
proof -
  note uu = update_user_Inr [OF assms(2)]
  show ?thesis
    by (rule identity_ok_update [OF assms(1), of _ u f])
      (use assms(1,3,4) uu f in \<open>auto simp: identity_ok_def user_ok_def\<close>)
qed

lemma identity_step_ok: "identity_step s s' \<Longrightarrow> identity_ok s \<Longrightarrow> identity_ok s'"
proof (induction rule: identity_step.induct)
  case (i_reset s decrypt hash_pw u dto)
  show ?case
  proof (cases "resetPayPassword decrypt hash_pw u dto s")
    case (Pair r s')
    show ?thesis
    proof (cases r)
      case (Inl x)
      then show ?thesis using Pair i_reset
        by (auto simp: resetPayPassword_def andThen_def split: option.splits if_splits sum.splits prod.splits
            dest: office_tx_Inl)
    next
      case (Inr a)
      then obtain iv s1 where iv: "identity_of u s = Some iv" "iv_status iv = RealNameStatus.VERIFIED"
        and us: "update_user u (\<lambda>x. x\<lparr>usr_payPassword := Some (hash_pw (idt_payPassword dto))\<rparr>) s = Inr (a, s1)"
        and s': "s' = s1\<lparr>front := clearAttempts u (front s1)\<rparr>"
        using Pair by (auto simp: resetPayPassword_def split: option.splits if_splits)
      note uu = update_user_Inr [OF us]
      have o: "odb s' = odb s1" "identities s' = identities s" using uu by (simp_all add: s' odb_def)
      have "identity_ok s'"
      proof (rule identity_ok_update [OF i_reset])
        show "users (odb s') = updateRows (\<lambda>x. usr_id x = u)
            (\<lambda>x. x\<lparr>usr_payPassword := Some (hash_pw (idt_payPassword dto))\<rparr>) (users (odb s))"
          using uu by (simp add: o)
      qed (use i_reset iv in \<open>simp_all add: o identity_ok_def user_ok_def status_of_def identity_of_def\<close>)
      then show ?thesis using Pair by simp
    qed
  qed
next
  case (i_status s sha e u status reason adm meta)
  then show ?case
    by (auto simp: updateUserStatus_def office_tx_def audited_Inr split: option.splits sum.split
        intro: other_columns_ok [where u = u and f = "\<lambda>x. x\<lparr>usr_status := status\<rparr>"])
next
  case (i_risk s sha e u level adm meta)
  then show ?case
    by (auto simp: updateUserRiskLevel_def office_tx_def audited_Inr split: option.splits sum.split
        intro: other_columns_ok [where u = u and f = "\<lambda>x. x\<lparr>usr_risk := level\<rparr>"])
qed (simp_all add: apply_identity_ok review_identity_ok)

lemma identity_steps_ok: "identity_step\<^sup>*\<^sup>* s s' \<Longrightarrow> identity_ok s \<Longrightarrow> identity_ok s'"
  by (induction rule: rtranclp_induct) (auto intro: identity_step_ok)

text \<open>
  C32. Whatever applications, reviews, resets and changes of status follow one another, a user has a payment password
  only while an accepted application of this user exists, and the user's real-name status is that of the
  application: a rejected or waiting applicant cannot have one.
\<close>

theorem pay_password_needs_approval:
  assumes "identity_step\<^sup>*\<^sup>* s s'" and "identity_ok s" and "x \<in> set (users (odb s'))" and "usr_payPassword x \<noteq> None"
  shows "usr_realName x = RealNameStatus.VERIFIED \<and>
    map_option iv_status (identity_of (usr_id x) s') = Some RealNameStatus.VERIFIED"
proof -
  have "user_ok (identities s') x"
    using identity_steps_ok [OF assms(1,2)] assms(3) by (simp add: identity_ok_def list_all_iff)
  then show ?thesis using assms(4)
    by (auto simp: user_ok_def status_of_def identity_of_def split: option.splits)
qed

definition applicant :: User where
  "applicant = \<lparr>usr_id = ''carol'', usr_nickname = ''carol'', usr_payPassword = None, usr_status = UserStatus.ACTIVE,
     usr_realName = RealNameStatus.UNVERIFIED, usr_risk = LOW\<rparr>"

definition new_office :: office where
  "new_office = \<lparr>front = empty_world\<lparr>wdb := empty_db\<lparr>users := [applicant]\<rparr>\<rparr>, identities = [], adminUsers = [],
     operationLogs = []\<rparr>"

definition office_env :: env where
  "office_env = \<lparr>now = 5, uuid = (\<lambda>i. if i = 0 then ''a'' else ''b''), nano = (\<lambda>_. ''n''), randomInt = (\<lambda>lo hi. lo),
     row_place = (\<lambda>_. 0)\<rparr>"

definition accepted_office :: office where
  "accepted_office = snd (approveIdentity sample_sha office_env ''a'' ''root'' no_meta
     (snd (verifyIdentity sample_sha (\<lambda>p. ''h'' @ p) (\<lambda>x. ''e'' @ x) office_env ''carol''
       \<lparr>idt_realName = ''Carol'', idt_idCard = ''1'', idt_payPassword = ''pw''\<rparr> new_office)))"

theorem pay_password_needs_approval_witness:
  "map usr_payPassword (users (odb accepted_office)) = [Some ''hpw''] \<and>
   map_option iv_status (identity_of ''carol'' accepted_office) = Some RealNameStatus.VERIFIED"
proof -
  have pw: "map usr_payPassword (users (odb accepted_office)) = [Some ''hpw'']"
    and us: "map usr_id (users (odb accepted_office)) = [''carol'']" by code_simp+
  then obtain x where x: "users (odb accepted_office) = [x]" "usr_id x = ''carol''" "usr_payPassword x = Some ''hpw''"
    by (auto simp: map_eq_Cons_conv)
  have start: "identity_ok new_office"
    by (simp add: identity_ok_def new_office_def odb_def user_ok_def status_of_def applicant_def empty_world_def)
  have "identity_step\<^sup>*\<^sup>* new_office accepted_office"
    unfolding accepted_office_def by (rule converse_rtranclp_into_rtranclp, rule i_apply, rule r_into_rtranclp, rule i_approve)
  from pay_password_needs_approval [OF this start, of x] x pw show ?thesis by simp
qed

end
