(* ===== verification/Admin.thy ===== *)
theory Admin
  imports Identity Shifts Samples
begin

text \<open>
  What administrators do to accounts, to the configuration and to each other (admin/admin.service.ts):
  the adjustment of a user's balance, the system configuration with the rules of the risk engine, and the
  administrator accounts. Every change and its audit entry are one transaction. bcrypt, SHA-256 and
  \<open>JSON.parse\<close> are parameters, as is the text of a number in JSON.

  The lemmas: an adjustment moves one balance by its amount and nothing else; a changed risk rule is in
  force at once; the permission a customer-service agent has suffices to take over any administrator.
\<close>

subsection \<open>Adjusting a balance\<close>

definition office_lock :: "string \<Rightarrow> (office \<Rightarrow> (exn + 'a) \<times> office) \<Rightarrow> office \<Rightarrow> (exn + 'a) \<times> office" where
  "office_lock key f s =
     (let w = front s in
      if \<not> redisEnabled w then
        (if production w then (Inl RedisMissing, s) else f s)
      else if key \<in> set (locks w) then (Inl LockNotAcquired, s)
      else (case f (s\<lparr>front := w\<lparr>locks := key # locks w\<rparr>\<rparr>) of
              (r, s') \<Rightarrow> (r, s'\<lparr>front := (front s')\<lparr>locks := removeAll key (locks (front s'))\<rparr>\<rparr>)))"

text \<open>\<open>!amount\<close>, \<open>amount > 0\<close> and \<open>Math.abs\<close>.\<close>

fun js_falsy :: "jsnum \<Rightarrow> bool" where
  "js_falsy (Num x) = (x = 0)"
| "js_falsy NaN = True"
| "js_falsy PosInf = False"
| "js_falsy NegInf = False"

fun js_positive :: "jsnum \<Rightarrow> bool" where
  "js_positive (Num x) = (0 < x)"
| "js_positive NaN = False"
| "js_positive PosInf = True"
| "js_positive NegInf = False"

fun js_abs :: "jsnum \<Rightarrow> jsnum" where
  "js_abs (Num x) = Num \<bar>x\<bar>"
| "js_abs NaN = NaN"
| "js_abs PosInf = PosInf"
| "js_abs NegInf = PosInf"

record Adjustment =
  ad_user :: string
  ad_amount :: jsnum
  ad_debit :: bool
  ad_fen :: int
  ad_reason :: string
  ad_admin :: string

definition adjust_row :: "env \<Rightarrow> Adjustment \<Rightarrow> Account \<Rightarrow> Account \<Rightarrow> AccountLedger" where
  "adjust_row e p account updated =
     (let balanceAfter = availableBalance updated in
      \<lparr>led_account = acc_id account, led_transaction = generateOrderNo e 1 ''ADJ'', led_type = LedgerType.ADJUSTMENT,
       led_amount = ad_fen p, led_before = (if ad_debit p then balanceAfter - ad_fen p else balanceAfter + ad_fen p),
       led_after = balanceAfter, led_direction = (if ad_debit p then DEBIT else CREDIT)\<rparr>)"

definition adjust_bill :: "env \<Rightarrow> Adjustment \<Rightarrow> Bill" where
  "adjust_bill e p =
     \<lparr>bill_user = ad_user p, bill_transaction = generateOrderNo e 1 ''ADJ'',
      bill_type = (if ad_debit p then BillType.RECEIPT else BillType.PAYMENT),
      bill_direction = (if ad_debit p then INCOME else EXPENSE), bill_amount = ad_fen p, bill_counterparty = None\<rparr>"

text \<open>The rows and the audit entry after the balance has changed; \<open>number_text\<close> is a number in JSON.\<close>

definition adjusted ::
  "(jsnum \<Rightarrow> string) \<Rightarrow> (string \<Rightarrow> string) \<Rightarrow> env \<Rightarrow> Adjustment \<Rightarrow> AuditMeta \<Rightarrow> office \<Rightarrow> Account \<Rightarrow> Account \<Rightarrow> db \<Rightarrow>
   exn + (Account \<times> office)" where
  "adjusted number_text sha e p meta s account updated d =
     audited sha e 0 (ad_admin p) ''ACCOUNT_ADJUST'' (Some (ad_user p))
       (Some (json_object [(''amountYuan'', number_text (ad_amount p)), (''reason'', json_string (ad_reason p))]))
       meta updated (with_db (add_bill (adjust_bill e p) (add_ledger (adjust_row e p account updated) d)) s)"

definition adjust_read ::
  "string \<Rightarrow> (Account \<Rightarrow> db \<Rightarrow> exn + 'a) \<Rightarrow> db \<Rightarrow> exn + 'a" where
  "adjust_read aid k d = or_throw (account_by_id aid (accounts d)) TypeError (\<lambda>updated. k updated d)"

definition adjust_body ::
  "(jsnum \<Rightarrow> string) \<Rightarrow> (string \<Rightarrow> string) \<Rightarrow> env \<Rightarrow> Adjustment \<Rightarrow> AuditMeta \<Rightarrow> office \<Rightarrow>
   exn + (Account \<times> office)" where
  "adjust_body number_text sha e p meta s =
     (case account_of (ad_user p) (accounts (odb s)) of
        None \<Rightarrow> Inl (NotFound ACCOUNT_NOT_FOUND)
      | Some account \<Rightarrow>
          if ad_debit p then
            credit_account (acc_id account) (ad_fen p) (odb s) (adjusted number_text sha e p meta s account)
          else
            guarded acc_spend (BadRequest INSUFFICIENT_BALANCE) (acc_id account) (ad_fen p) (odb s)
              (adjust_read (acc_id account) (adjusted number_text sha e p meta s account)))"

text \<open>The answer is the account with its balances in yuan.\<close>

definition adjust_answer :: "Account \<Rightarrow> Account \<times> string \<times> string \<times> string" where
  "adjust_answer a = (a, fenToYuan (availableBalance a), fenToYuan (frozenBalance a), fenToYuan (totalBalance a))"

definition adjustAccount ::
  "(jsnum \<Rightarrow> string) \<Rightarrow> (string \<Rightarrow> string) \<Rightarrow> env \<Rightarrow> string \<Rightarrow> jsnum \<Rightarrow> string \<Rightarrow> string \<Rightarrow> AuditMeta \<Rightarrow>
   office \<Rightarrow> (exn + Account \<times> string \<times> string \<times> string) \<times> office" where
  "adjustAccount number_text sha e userId amount reason adminId meta s =
     (if js_falsy amount then (Inl (BadRequest ADJUSTMENT_AMOUNT_INVALID), s)
      else if reason = [] then (Inl (BadRequest ADJUSTMENT_REASON_REQUIRED), s)
      else case fen (js_abs amount) of
        Inl x \<Rightarrow> (Inl x, s)
      | Inr n \<Rightarrow> andThen
          (office_lock (''admin:adjust:'' @ userId)
            (office_tx (adjust_body number_text sha e
               \<lparr>ad_user = userId, ad_amount = amount, ad_debit = js_positive amount, ad_fen = n, ad_reason = reason,
                ad_admin = adminId\<rparr> meta)) s)
          (\<lambda>a s. (Inr (adjust_answer a), s)))"

subsection \<open>System configuration\<close>

definition config_of :: "string \<Rightarrow> office \<Rightarrow> SystemConfig option" where
  "config_of key s = findUnique (\<lambda>c. cfg_key c = key) (systemConfigs (odb s))"

definition with_configs :: "SystemConfig list \<Rightarrow> office \<Rightarrow> office" where
  "with_configs t s = with_db ((odb s)\<lparr>systemConfigs := t\<rparr>) s"

datatype config_mode = Upsert | Create | Update

text \<open>\<open>parse\<close> is what the readers of a value make of its text.\<close>

definition write_config ::
  "(string \<Rightarrow> ConfigJson) \<Rightarrow> config_mode \<Rightarrow> string \<Rightarrow> string \<Rightarrow> office \<Rightarrow> exn + (SystemConfig \<times> office)" where
  "write_config parse mode key val s =
     (let row = \<lparr>cfg_key = key, cfg_value = val, cfg_json = parse val\<rparr>;
          insert = bindE (create P2002 (\<lambda>r c. cfg_key r = cfg_key c) row (systemConfigs (odb s)))
                     (\<lambda>t. Inr (row, with_configs t s));
          update = bindE (updateOne P2025 IntOutOfRange (\<lambda>_. True) (\<lambda>c. cfg_key c = key)
                            (\<lambda>c. c\<lparr>cfg_value := val, cfg_json := parse val\<rparr>) (systemConfigs (odb s)))
                     (\<lambda>(c, t). Inr (c, with_configs t s))
      in case mode of
           Upsert \<Rightarrow> (if config_of key s = None then insert else update)
         | Create \<Rightarrow> insert
         | Update \<Rightarrow> update)"

definition config_detail :: "config_mode \<Rightarrow> string \<Rightarrow> string option \<Rightarrow> string" where
  "config_detail mode val oldValue =
     json_object (if mode = Create then [(''value'', json_string val)]
                  else [(''old'', json_nullable oldValue), (''new'', json_string val)])"

definition clear_for :: "string \<Rightarrow> office \<Rightarrow> office" where
  "clear_for key s = (if is_risk_key key then s\<lparr>front := clearCache (front s)\<rparr> else s)"

definition persistConfigWithAudit ::
  "(string \<Rightarrow> string) \<Rightarrow> (string \<Rightarrow> ConfigJson) \<Rightarrow> env \<Rightarrow> string \<Rightarrow> string \<Rightarrow> string option \<Rightarrow> string \<Rightarrow>
   string option \<Rightarrow> AuditMeta \<Rightarrow> config_mode \<Rightarrow> office \<Rightarrow> (exn + SystemConfig) \<times> office" where
  "persistConfigWithAudit sha parse e key val oldValue action adminId meta mode s =
     andThen (office_tx (\<lambda>s. bindE (write_config parse mode key val s) (\<lambda>(c, s1).
                audited sha e 0 (admin_or_system adminId) action (Some key)
                  (Some (config_detail mode val oldValue)) meta c s1)) s)
       (\<lambda>c s. (Inr c, clear_for key s))"

definition setSystemConfig ::
  "(string \<Rightarrow> string) \<Rightarrow> (string \<Rightarrow> ConfigJson) \<Rightarrow> env \<Rightarrow> string \<Rightarrow> string \<Rightarrow> string option \<Rightarrow> AuditMeta \<Rightarrow>
   office \<Rightarrow> (exn + SystemConfig) \<times> office" where
  "setSystemConfig sha parse e key val adminId meta s =
     andThen (persistConfigWithAudit sha parse e key val (map_option cfg_value (config_of key s))
                ''SYSTEM_CONFIG_SET'' adminId meta Upsert s)
       (\<lambda>c s. (Inr c, clear_for key s))"

definition createSystemConfig ::
  "(string \<Rightarrow> string) \<Rightarrow> (string \<Rightarrow> ConfigJson) \<Rightarrow> env \<Rightarrow> string \<Rightarrow> string \<Rightarrow> string option \<Rightarrow> AuditMeta \<Rightarrow>
   office \<Rightarrow> (exn + SystemConfig) \<times> office" where
  "createSystemConfig sha parse e key val adminId meta s =
     (case config_of key s of
        Some _ \<Rightarrow> (Inl (Conflict ADMIN_CONFIG_KEY_EXISTS), s)
      | None \<Rightarrow> persistConfigWithAudit sha parse e key val None ''SYSTEM_CONFIG_CREATE'' adminId meta Create s)"

definition updateSystemConfig ::
  "(string \<Rightarrow> string) \<Rightarrow> (string \<Rightarrow> ConfigJson) \<Rightarrow> env \<Rightarrow> string \<Rightarrow> string \<Rightarrow> string option \<Rightarrow> AuditMeta \<Rightarrow>
   office \<Rightarrow> (exn + SystemConfig) \<times> office" where
  "updateSystemConfig sha parse e key val adminId meta s =
     (case config_of key s of
        None \<Rightarrow> (Inl (NotFound ADMIN_CONFIG_KEY_NOT_FOUND), s)
      | Some existing \<Rightarrow> persistConfigWithAudit sha parse e key val (Some (cfg_value existing))
          ''SYSTEM_CONFIG_UPDATE'' adminId meta Update s)"

definition getSystemConfigByKey :: "string \<Rightarrow> office \<Rightarrow> exn + SystemConfig" where
  "getSystemConfigByKey key s = or_throw (config_of key s) (NotFound ADMIN_CONFIG_KEY_NOT_FOUND) Inr"

text \<open>\<open>dto_text\<close> is \<open>JSON.stringify\<close> of the request's body.\<close>

definition updateRiskRule ::
  "(string \<Rightarrow> string) \<Rightarrow> (string \<Rightarrow> ConfigJson) \<Rightarrow> env \<Rightarrow> string \<Rightarrow> string \<Rightarrow> string option \<Rightarrow> AuditMeta \<Rightarrow>
   office \<Rightarrow> (exn + SystemConfig) \<times> office" where
  "updateRiskRule sha parse e code dto_text = setSystemConfig sha parse e (''risk_rule:'' @ code) dto_text"

definition getRiskRules :: "int \<Rightarrow> office \<Rightarrow> RiskRule list \<times> office" where
  "getRiskRules t s = (case loadAllRules t (front s) of (rs, w) \<Rightarrow> (rs, s\<lparr>front := w\<rparr>))"

subsection \<open>What an adjustment does\<close>

lemma office_lock_InrE:
  assumes "office_lock key f s = (Inr r, s')"
  obtains w s2 where "wdb w = wdb (front s)" "f (s\<lparr>front := w\<rparr>) = (Inr r, s2)" "odb s' = odb s2"
    and "operationLogs s' = operationLogs s2" and "adminUsers s' = adminUsers s2" and "identities s' = identities s2"
proof (cases "redisEnabled (front s)")
  case True
  with assms obtain s2 where "f (s\<lparr>front := (front s)\<lparr>locks := key # locks (front s)\<rparr>\<rparr>) = (Inr r, s2)"
      and "s' = s2\<lparr>front := (front s2)\<lparr>locks := removeAll key (locks (front s2))\<rparr>\<rparr>"
    by (auto simp: office_lock_def Let_def split: if_splits prod.splits)
  then show ?thesis by (intro that [of "(front s)\<lparr>locks := key # locks (front s)\<rparr>" s2]) (simp_all add: odb_def)
next
  case False
  with assms have "f s = (Inr r, s')" by (auto simp: office_lock_def Let_def split: if_splits)
  then show ?thesis by (intro that [of "front s" s']) simp_all
qed

lemma adjusted_shifts:
  assumes run: "adjusted number_text sha e p meta s a b d = Inr (x, s')" and ok: "accounts_ok (accounts d)"
  shows "shifts (\<lambda>_. 0) (\<lambda>_. 0) 0 0 d (odb s')"
    and "\<exists>l. operationLogs s' = operationLogs s @ [l] \<and> log_target l = Some (ad_user p) \<and> log_admin l = ad_admin p"
    and "accountLedgers (odb s') = accountLedgers d @ [adjust_row e p a b]"
proof -
  from run obtain logs where l: "audit_log sha (row_place e) (uuid e 0) (now e)
      \<lparr>ap_admin = ad_admin p, ap_action = ''ACCOUNT_ADJUST'', ap_target = Some (ad_user p),
       ap_detail = Some (json_object [(''amountYuan'', number_text (ad_amount p)), (''reason'', json_string (ad_reason p))]),
       ap_ip = meta_ip meta, ap_userAgent = meta_userAgent meta\<rparr> (operationLogs s) = Inr logs"
    and s': "s' = (with_db (add_bill (adjust_bill e p) (add_ledger (adjust_row e p a b) d)) s)\<lparr>operationLogs := logs\<rparr>"
    by (auto simp: adjusted_def audited_Inr)
  have row: "ledger_ok (adjust_row e p a b)" by (simp add: ledger_ok_def adjust_row_def Let_def)
  have o: "odb s' = add_bill (adjust_bill e p) (add_ledger (adjust_row e p a b) d)" by (simp add: s')
  show "shifts (\<lambda>_. 0) (\<lambda>_. 0) 0 0 d (odb s')" unfolding o
    by (rule shifts_kept) (use ok row in \<open>auto simp: books_kept_def add_bill_def add_ledger_def same_holdings_def ledgers_ok_def\<close>)
  show "accountLedgers (odb s') = accountLedgers d @ [adjust_row e p a b]" by (simp add: o add_bill_def add_ledger_def)
  show "\<exists>l. operationLogs s' = operationLogs s @ [l] \<and> log_target l = Some (ad_user p) \<and> log_admin l = ad_admin p"
    using l by (auto simp: s' audit_log_def new_entry_def)
qed

lemma adjust_body_shifts:
  assumes run: "adjust_body number_text sha e p meta s = Inr (x, s')" and ok: "accounts_ok (accounts (odb s))"
    and n: "0 \<le> ad_fen p"
  shows "shifts (\<lambda>v. if v = ad_user p then (if ad_debit p then ad_fen p else - ad_fen p) else 0) (\<lambda>_. 0)
      (if ad_debit p then ad_fen p else - ad_fen p) 0 (odb s) (odb s')"
    and "\<exists>l. operationLogs s' = operationLogs s @ [l] \<and> log_target l = Some (ad_user p) \<and> log_admin l = ad_admin p"
proof -
  from run obtain a where a: "account_of (ad_user p) (accounts (odb s)) = Some a"
    by (auto simp: adjust_body_def split: option.splits)
  have "shifts (\<lambda>v. if v = ad_user p then (if ad_debit p then ad_fen p else - ad_fen p) else 0) (\<lambda>_. 0)
      (if ad_debit p then ad_fen p else - ad_fen p) 0 (odb s) (odb s') \<and>
    (\<exists>l. operationLogs s' = operationLogs s @ [l] \<and> log_target l = Some (ad_user p) \<and> log_admin l = ad_admin p)"
  proof (cases "ad_debit p")
    case True
    then have cr: "credit_account (acc_id a) (ad_fen p) (odb s) (adjusted number_text sha e p meta s a) = Inr (x, s')"
      using run a by (simp add: adjust_body_def)
    note c = credit_account_Inr [OF ok account_of_by_id [OF ok a] n cr]
    have ok1: "accounts_ok (accounts (moved (acc_id a) (ad_fen p) 0 (odb s)))" using c(2) by simp
    note d = adjusted_shifts [OF c(1) ok1]
    show ?thesis using shifts_trans [OF shifts_moved [OF ok a ok1] d(1)] d(2) True by (simp cong: if_cong)
  next
    case False
    then have "guarded acc_spend (BadRequest INSUFFICIENT_BALANCE) (acc_id a) (ad_fen p) (odb s)
        (adjust_read (acc_id a) (adjusted number_text sha e p meta s a)) = Inr (x, s')"
      using run a by (simp add: adjust_body_def)
    then obtain c t where st: "acc_spend (acc_id a) (ad_fen p) (accounts (odb s)) = Inr (c, t)" "c \<noteq> 0"
      and k: "adjust_read (acc_id a) (adjusted number_text sha e p meta s a) ((odb s)\<lparr>accounts := t\<rparr>) = Inr (x, s')"
      by (auto simp: guarded_def)
    note sp = spend.stmt_shifts [OF ok a st n]
    from k obtain b where b: "adjusted number_text sha e p meta s a b ((odb s)\<lparr>accounts := t\<rparr>) = Inr (x, s')"
      by (auto simp: adjust_read_def)
    have "accounts_ok (accounts ((odb s)\<lparr>accounts := t\<rparr>))" using sp(1) by (simp add: shifts_def)
    note d = adjusted_shifts [OF b this]
    show ?thesis using shifts_trans [OF sp(1) d(1)] d(2) False by (simp cong: if_cong)
  qed
  then show "shifts (\<lambda>v. if v = ad_user p then (if ad_debit p then ad_fen p else - ad_fen p) else 0) (\<lambda>_. 0)
      (if ad_debit p then ad_fen p else - ad_fen p) 0 (odb s) (odb s')"
    and "\<exists>l. operationLogs s' = operationLogs s @ [l] \<and> log_target l = Some (ad_user p) \<and> log_admin l = ad_admin p"
    by simp_all
qed

text \<open>Everything but the accounts, one ledger row and one bill stays.\<close>

definition adjusts_only :: "int \<Rightarrow> string \<Rightarrow> db \<Rightarrow> db \<Rightarrow> bool" where
  "adjusts_only n u d d' = (\<exists>t l b. d' = d\<lparr>accounts := t, accountLedgers := accountLedgers d @ [l], bills := bills d @ [b]\<rparr> \<and>
     ledger_ok l \<and> led_amount l = n \<and> bill_user b = u \<and> bill_amount b = n)"

lemma adjusted_only:
  assumes "adjusted number_text sha e p meta s a b (d\<lparr>accounts := t\<rparr>) = Inr (x, s')"
  shows "adjusts_only (ad_fen p) (ad_user p) d (odb s')"
proof -
  have "odb s' = add_bill (adjust_bill e p) (add_ledger (adjust_row e p a b) (d\<lparr>accounts := t\<rparr>))"
    using assms by (auto simp: adjusted_def audited_Inr)
  then have "odb s' = d\<lparr>accounts := t, accountLedgers := accountLedgers d @ [adjust_row e p a b],
      bills := bills d @ [adjust_bill e p]\<rparr>"
    by (simp add: add_bill_def add_ledger_def)
  moreover have "ledger_ok (adjust_row e p a b)" by (simp add: ledger_ok_def adjust_row_def Let_def)
  moreover have "led_amount (adjust_row e p a b) = ad_fen p" by (simp add: adjust_row_def Let_def)
  moreover have "bill_user (adjust_bill e p) = ad_user p" "bill_amount (adjust_bill e p) = ad_fen p"
    by (simp_all add: adjust_bill_def)
  ultimately show ?thesis unfolding adjusts_only_def by blast
qed

lemma adjust_body_only:
  assumes run: "adjust_body number_text sha e p meta s = Inr (x, s')" and ok: "accounts_ok (accounts (odb s))"
  shows "adjusts_only (ad_fen p) (ad_user p) (odb s) (odb s')"
proof -
  from run obtain a where a: "account_of (ad_user p) (accounts (odb s)) = Some a"
    by (auto simp: adjust_body_def split: option.splits)
  show ?thesis
  proof (cases "ad_debit p")
    case True
    then obtain b t where "adjusted number_text sha e p meta s a b ((odb s)\<lparr>accounts := t\<rparr>) = Inr (x, s')"
      using run a by (auto simp: adjust_body_def credit_account_def)
    then show ?thesis by (rule adjusted_only)
  next
    case False
    then obtain b t where "adjusted number_text sha e p meta s a b ((odb s)\<lparr>accounts := t\<rparr>) = Inr (x, s')"
      using run a by (auto simp: adjust_body_def guarded_def adjust_read_def)
    then show ?thesis by (rule adjusted_only)
  qed
qed

text \<open>
  C33. An adjustment that succeeds changes the available balance of the user by exactly its amount in fen, up or down,
  and nobody else's, and no frozen balance. Apart from the balances it adds one well-formed ledger row and one bill of the
  user over the amount and leaves every other table of the database as it was, the platform accounts and the journal among
  them, so the sum of the users' money changes by the amount without a counterpart. One audit entry
  names the user and the administrator.
\<close>

theorem adjustment_moves_balance:
  assumes "adjustAccount number_text sha e u amount reason admin meta s = (Inr r, s')"
    and "accounts_ok (accounts (odb s))" and "fen (js_abs amount) = Inr n" and "delta = (if js_positive amount then n else - n)"
  shows "shifts (\<lambda>v. if v = u then delta else 0) (\<lambda>_. 0) delta 0 (odb s) (odb s') \<and>
    (\<exists>t l b. odb s' = (odb s)\<lparr>accounts := t, accountLedgers := accountLedgers (odb s) @ [l], bills := bills (odb s) @ [b]\<rparr> \<and>
       ledger_ok l \<and> led_amount l = n \<and> bill_user b = u \<and> bill_amount b = n) \<and>
    (\<exists>l. operationLogs s' = operationLogs s @ [l] \<and> log_target l = Some u \<and> log_admin l = admin)"
proof -
  let ?p = "\<lparr>ad_user = u, ad_amount = amount, ad_debit = js_positive amount, ad_fen = n, ad_reason = reason, ad_admin = admin\<rparr>"
  from assms(1,3) obtain a s1 where lock: "office_lock (''admin:adjust:'' @ u)
      (office_tx (adjust_body number_text sha e ?p meta)) s = (Inr a, s1)" and s1: "s' = s1"
    by (auto simp: adjustAccount_def split: if_splits)
  have n: "0 \<le> ad_fen ?p" using assms(3) yuanToFen_nonneg [of "js_abs amount" n] by (auto simp: fen_def split: sum.splits)
  from lock obtain w s2 where w: "wdb w = wdb (front s)" and tx: "office_tx (adjust_body number_text sha e ?p meta) (s\<lparr>front := w\<rparr>) = (Inr a, s2)"
    and s2: "odb s1 = odb s2" "operationLogs s1 = operationLogs s2" by (elim office_lock_InrE)
  have o: "odb (s\<lparr>front := w\<rparr>) = odb s" using w by (simp add: odb_def)
  note b = adjust_body_shifts [OF tx [simplified], unfolded o, OF assms(2) n]
  have "adjusts_only n u (odb s) (odb s2)"
    using adjust_body_only [OF tx [simplified], unfolded o, OF assms(2)] by simp
  then show ?thesis using b assms(4) by (simp add: s1 s2 adjusts_only_def cong: if_cong)
qed

subsection \<open>A changed rule is in force at once\<close>

lemma clear_for_idem [simp]: "clear_for key (clear_for key s) = clear_for key s"
  by (simp add: clear_for_def clearCache_def)

lemma other_config_kept:
  "k \<noteq> key \<Longrightarrow> map_option (\<lambda>c. if cfg_key c = key then f c else c) (findUnique (\<lambda>c. cfg_key c = k) t) =
     findUnique (\<lambda>c. cfg_key c = k) t"
  by (cases "findUnique (\<lambda>c. cfg_key c = k) t") (auto dest: findUnique_SomeD)

lemma write_config_Inr:
  assumes "write_config parse mode key val s = Inr (c, s')" and "distinct (map cfg_key (systemConfigs (odb s)))"
  shows "config_of key s' = Some \<lparr>cfg_key = key, cfg_value = val, cfg_json = parse val\<rparr>"
    and "distinct (map cfg_key (systemConfigs (odb s')))"
    and "\<And>k. k \<noteq> key \<Longrightarrow> config_of k s' = config_of k s" and "front s' = (front s)\<lparr>wdb := odb s'\<rparr>"
    and "operationLogs s' = operationLogs s"
proof -
  show "config_of key s' = Some \<lparr>cfg_key = key, cfg_value = val, cfg_json = parse val\<rparr>"
    using assms by (auto simp: write_config_def config_of_def with_configs_def Let_def findUnique_updateRows
        findUnique_append split: config_mode.splits if_splits option.splits)
      (auto dest!: findUnique_SomeD)
  show "distinct (map cfg_key (systemConfigs (odb s')))"
    using assms by (auto simp: write_config_def config_of_def with_configs_def Let_def map_updateRows_frame
        split: config_mode.splits if_splits)
  show "config_of k s' = config_of k s" if "k \<noteq> key" for k
    using assms that by (auto simp: write_config_def config_of_def with_configs_def Let_def findUnique_updateRows
        findUnique_append other_config_kept split: config_mode.splits if_splits option.splits)
  show "front s' = (front s)\<lparr>wdb := odb s'\<rparr>" "operationLogs s' = operationLogs s"
    using assms by (auto simp: write_config_def with_configs_def with_db_def Let_def odb_def
        split: config_mode.splits if_splits)
qed

lemma persist_Inr:
  assumes run: "persistConfigWithAudit sha parse e key val old action adm meta mode s = (Inr c, s')"
    and ids: "distinct (map cfg_key (systemConfigs (odb s)))"
  shows "config_of key s' = Some \<lparr>cfg_key = key, cfg_value = val, cfg_json = parse val\<rparr>"
    and "\<And>k. k \<noteq> key \<Longrightarrow> config_of k s' = config_of k s"
    and "distinct (map cfg_key (systemConfigs (odb s')))"
    and "is_risk_key key \<Longrightarrow> \<not> cacheLoaded (front s')"
    and "length (operationLogs s') = Suc (length (operationLogs s))"
proof -
  from run obtain s1 where tx: "office_tx (\<lambda>s. bindE (write_config parse mode key val s) (\<lambda>(c, s1).
      audited sha e 0 (admin_or_system adm) action (Some key) (Some (config_detail mode val old)) meta c s1)) s = (Inr c, s1)"
    and s': "s' = clear_for key s1" by (auto simp: persistConfigWithAudit_def)
  from tx obtain c2 s2 logs where wr: "write_config parse mode key val s = Inr (c2, s2)"
    and lg: "audit_log sha (row_place e) (uuid e 0) (now e) \<lparr>ap_admin = admin_or_system adm, ap_action = action, ap_target = Some key,
       ap_detail = Some (config_detail mode val old), ap_ip = meta_ip meta, ap_userAgent = meta_userAgent meta\<rparr>
       (operationLogs s2) = Inr logs" and s1: "s1 = s2\<lparr>operationLogs := logs\<rparr>"
    by (auto simp: audited_Inr)
  note w = write_config_Inr [OF wr ids]
  have o: "odb s' = odb s2" "operationLogs s' = logs"
    by (simp_all add: s' s1 clear_for_def odb_def clearCache_def)
  show "config_of key s' = Some \<lparr>cfg_key = key, cfg_value = val, cfg_json = parse val\<rparr>"
    and "\<And>k. k \<noteq> key \<Longrightarrow> config_of k s' = config_of k s"
    and "distinct (map cfg_key (systemConfigs (odb s')))"
    using w(1-3) by (simp_all add: config_of_def o)
  show "is_risk_key key \<Longrightarrow> \<not> cacheLoaded (front s')" by (simp add: s' clear_for_def clearCache_def)
  show "length (operationLogs s') = Suc (length (operationLogs s))" using audit_log_length [OF lg] w(5) by (simp add: o)
qed

lemma map_of_set_rule: "map_of (set_rule c r m) = (map_of m)(c \<mapsto> r)"
  by (induction c r m rule: set_rule.induct) auto

text \<open>What the loaded rules say of one code, when the keys of the configuration are distinct.\<close>

definition rule_under :: "ConfigJson option \<Rightarrow> RiskRule option \<Rightarrow> RiskRule option" where
  "rule_under j r = (case j of Some (JsonRule p) \<Rightarrow>
     Some (case r of Some x \<Rightarrow> merge_rule x p | None \<Rightarrow> custom_rule p) | _ \<Rightarrow> r)"

definition json_for :: "string \<Rightarrow> SystemConfig list \<Rightarrow> ConfigJson option" where
  "json_for code cs = map_option cfg_json (findUnique (\<lambda>c. drop 10 (cfg_key c) = code) cs)"

lemma map_of_merge_configs:
  "distinct (map (\<lambda>c. drop 10 (cfg_key c)) cs) \<Longrightarrow>
   map_of (merge_configs cs m) code = rule_under (json_for code cs) (map_of m code)"
proof (induction cs m rule: merge_configs.induct)
  case (2 c cs m)
  have none: "json_for (drop 10 (cfg_key c)) cs = None"
    using 2(2) by (auto simp: json_for_def findUnique_None) (metis image_eqI)
  show ?case
    using 2 none by (cases "drop 10 (cfg_key c) = code")
      (auto simp: json_for_def rule_under_def map_of_set_rule Let_def split: ConfigJson.splits option.splits)
qed (simp add: json_for_def rule_under_def)

lemma risk_key: "is_risk_key k \<longleftrightarrow> k = ''risk_rule:'' @ drop 10 k"
  unfolding is_risk_key_def by (metis append_take_drop_id append_same_eq)

lemma risk_codes_distinct:
  assumes "distinct (map cfg_key cs)"
  shows "distinct (map (\<lambda>c. drop 10 (cfg_key c)) (filter (\<lambda>c. is_risk_key (cfg_key c)) cs))"
proof -
  have "inj_on (\<lambda>k. drop 10 k) (set (map cfg_key (filter (\<lambda>c. is_risk_key (cfg_key c)) cs)))"
  proof (rule inj_onI)
    fix x y assume "x \<in> set (map cfg_key (filter (\<lambda>c. is_risk_key (cfg_key c)) cs))"
      and "y \<in> set (map cfg_key (filter (\<lambda>c. is_risk_key (cfg_key c)) cs))" and eq: "drop 10 x = drop 10 y"
    then have "x = ''risk_rule:'' @ drop 10 x" "y = ''risk_rule:'' @ drop 10 y"
      unfolding risk_key [symmetric] by auto
    then show "x = y" using eq by metis
  qed
  moreover have "distinct (map cfg_key (filter (\<lambda>c. is_risk_key (cfg_key c)) cs))"
    using assms by (rule distinct_map_filter)
  ultimately have "distinct (map (\<lambda>k. drop 10 k) (map cfg_key (filter (\<lambda>c. is_risk_key (cfg_key c)) cs)))"
    by (simp only: distinct_map)
  then show ?thesis by (simp add: comp_def)
qed

lemma set_config_Inr:
  assumes run: "setSystemConfig sha parse e key val adm meta s = (Inr c, s')"
    and ids: "distinct (map cfg_key (systemConfigs (odb s)))"
  shows "config_of key s' = Some \<lparr>cfg_key = key, cfg_value = val, cfg_json = parse val\<rparr>"
    and "distinct (map cfg_key (systemConfigs (odb s')))" and "is_risk_key key \<Longrightarrow> \<not> cacheLoaded (front s')"
    and "\<And>k. k \<noteq> key \<Longrightarrow> config_of k s' = config_of k s"
proof -
  from run obtain s1 where p: "persistConfigWithAudit sha parse e key val (map_option cfg_value (config_of key s))
      ''SYSTEM_CONFIG_SET'' adm meta Upsert s = (Inr c, s1)" and s': "s' = clear_for key s1"
    by (auto simp: setSystemConfig_def)
  have o: "odb s' = odb s1" by (simp add: s' clear_for_def odb_def clearCache_def)
  note r = persist_Inr [OF p ids]
  show "config_of key s' = Some \<lparr>cfg_key = key, cfg_value = val, cfg_json = parse val\<rparr>"
    and "distinct (map cfg_key (systemConfigs (odb s')))" using r(1,3) by (simp_all add: config_of_def o)
  show "is_risk_key key \<Longrightarrow> \<not> cacheLoaded (front s')" by (simp add: s' clear_for_def clearCache_def)
  show "config_of k s' = config_of k s" if "k \<noteq> key" for k
    using r(2) [OF that] by (simp add: config_of_def o)
qed

text \<open>The loaded rules have no second rule of one code, unless a configuration under another key claims the code.\<close>

definition names_code :: "string \<Rightarrow> SystemConfig \<Rightarrow> bool" where
  "names_code code c = (case cfg_json c of JsonRule q \<Rightarrow> patch_code q = Some code | _ \<Rightarrow> False)"

definition one_rule :: "string \<Rightarrow> (string \<times> RiskRule) list \<Rightarrow> bool" where
  "one_rule code m = (distinct (map fst m) \<and> list_all (\<lambda>(k, r). k = code \<or> rule_code r \<noteq> code) m)"

lemma set_rule_keys: "fst ` set (set_rule c r m) = insert c (fst ` set m)"
  by (induction c r m rule: set_rule.induct) auto

lemma one_rule_set: "one_rule code m \<Longrightarrow> c = code \<or> rule_code r \<noteq> code \<Longrightarrow> one_rule code (set_rule c r m)"
proof (induction c r m rule: set_rule.induct)
  case (2 c r k v m)
  then show ?case using set_rule_keys [of c r m] by (auto simp: one_rule_def)
qed (simp add: one_rule_def)

lemma one_rule_member: "one_rule code m \<Longrightarrow> map_of m c = Some r \<Longrightarrow> c = code \<or> rule_code r \<noteq> code"
  by (auto simp: one_rule_def list_all_iff dest: map_of_SomeD)

lemma one_rule_merge:
  assumes "one_rule code m" and "code \<noteq> []" and "list_all (\<lambda>c. drop 10 (cfg_key c) = code \<or> \<not> names_code code c) cs"
  shows "one_rule code (merge_configs cs m)"
  using assms
proof (induction cs m rule: merge_configs.induct)
  case (2 c cs m)
  let ?c = "drop 10 (cfg_key c)"
  have "one_rule code (set_rule ?c (merge_rule x p) m)" if "cfg_json c = JsonRule p" "map_of m ?c = Some x" for p x
    using one_rule_member [OF 2(2) that(2)] 2(4) that(1)
    by (intro one_rule_set [OF 2(2)]) (auto simp: merge_rule_def names_code_def split: option.split)
  moreover have "one_rule code (set_rule ?c (custom_rule p) m)" if "cfg_json c = JsonRule p" for p
    using 2(3,4) that
    by (intro one_rule_set [OF 2(2)]) (auto simp: custom_rule_def merge_rule_def default_rule_def names_code_def split: option.split)
  ultimately show ?case using 2 by (auto simp: Let_def split: ConfigJson.split option.split)
qed simp

lemma one_rule_filter:
  "one_rule code m \<Longrightarrow> map_of m code = Some r \<Longrightarrow> rule_code r = code \<Longrightarrow> filter (\<lambda>r. rule_code r = code) (map snd m) = [r]"
proof (induction m)
  case (Cons x m)
  obtain k v where x: "x = (k, v)" by force
  show ?case
  proof (cases "k = code")
    case True
    then have "\<forall>y \<in> set m. rule_code (snd y) \<noteq> code" using Cons.prems(1) by (force simp: x one_rule_def list_all_iff)
    then show ?thesis using Cons.prems(2,3) True by (auto simp: x filter_empty_conv)
  next
    case False
    then show ?thesis using Cons by (auto simp: x one_rule_def)
  qed
qed simp

lemma other_configs_kept:
  assumes "distinct (map cfg_key (systemConfigs (odb s')))" and "\<And>k. k \<noteq> key \<Longrightarrow> config_of k s' = config_of k s"
    and "list_all (\<lambda>c. cfg_key c = key \<or> Q c) (systemConfigs (odb s))"
  shows "list_all (\<lambda>c. cfg_key c = key \<or> Q c) (systemConfigs (odb s'))"
  unfolding list_all_iff
proof (intro ballI disjCI)
  fix c assume c: "c \<in> set (systemConfigs (odb s'))" and "\<not> Q c"
  show "cfg_key c = key"
  proof (rule ccontr)
    assume k: "cfg_key c \<noteq> key"
    have "config_of (cfg_key c) s' = Some c" unfolding config_of_def by (rule findUnique_key_eq [OF assms(1) c refl])
    then have "config_of (cfg_key c) s = Some c" using assms(2) [OF k] by simp
    then have "c \<in> set (systemConfigs (odb s))" unfolding config_of_def by (rule findUnique_in)
    then show False using assms(3) \<open>\<not> Q c\<close> k by (auto simp: list_all_iff)
  qed
qed

text \<open>
  C34. Once an administrator has changed a built-in rule of the risk engine, the very next check of the process that served the
  change uses it, whatever that process had cached: among the rules it loads, exactly one has the code of the rule, namely
  the built-in rule overridden by the given members, and a check applies it when it is enabled and no rule of that code
  otherwise. (Provided no configuration under another key claims the same code. Other processes
  keep the rules they cached for up to a minute, \<open>stale_rules_elsewhere\<close>.)
\<close>

theorem risk_rule_in_force:
  assumes "updateRiskRule sha parse e (rule_code d) val adm meta s = (Inr c, s')"
    and "distinct (map cfg_key (systemConfigs (odb s)))" and "parse val = JsonRule p" and "d \<in> set DEFAULT_RULES"
    and "rule_code (merge_rule d p) = rule_code d"
    and "list_all (\<lambda>c. cfg_key c = ''risk_rule:'' @ rule_code d \<or> \<not> names_code (rule_code d) c) (systemConfigs (odb s))"
  shows "filter (\<lambda>r. rule_code r = rule_code d) (fst (loadAllRules t (front s'))) = [merge_rule d p] \<and>
    filter (\<lambda>r. rule_code r = rule_code d) (fst (loadRules t (front s'))) =
      (if rule_enabled (merge_rule d p) then [merge_rule d p] else [])"
proof -
  let ?key = "''risk_rule:'' @ rule_code d" and ?cs = "filter (\<lambda>c. is_risk_key (cfg_key c)) (systemConfigs (odb s'))"
  let ?m = "map (\<lambda>r. (rule_code r, r)) DEFAULT_RULES"
  have key: "is_risk_key ?key" by (simp add: is_risk_key_def)
  note r = set_config_Inr [OF assms(1) [unfolded updateRiskRule_def] assms(2)]
  have dist: "distinct (map (\<lambda>c. drop 10 (cfg_key c)) ?cs)" by (rule risk_codes_distinct [OF r(2)])
  have row: "\<lparr>cfg_key = ?key, cfg_value = val, cfg_json = parse val\<rparr> \<in> set ?cs"
    using findUnique_SomeD [OF r(1) [unfolded config_of_def]] key by simp
  have "findUnique (\<lambda>c. drop 10 (cfg_key c) = rule_code d) ?cs = Some \<lparr>cfg_key = ?key, cfg_value = val, cfg_json = parse val\<rparr>"
    by (rule findUnique_key_eq [OF dist row]) simp
  then have json: "json_for (rule_code d) ?cs = Some (JsonRule p)" by (simp add: json_for_def assms(3))
  have keys: "distinct (map fst ?m)" by (simp add: DEFAULT_RULES_def default_rule_def)
  then have d: "map_of ?m (rule_code d) = Some d" by (rule map_of_is_SomeI) (use assms(4) in auto)
  have found: "map_of (merge_configs ?cs ?m) (rule_code d) = Some (merge_rule d p)"
    by (simp only: map_of_merge_configs [OF dist] json d) (simp add: rule_under_def)
  have "one_rule (rule_code d) ?m" using keys by (auto simp: one_rule_def list_all_iff)
  moreover have "rule_code d \<noteq> []" using assms(4) by (auto simp: DEFAULT_RULES_def default_rule_def)
  moreover have "list_all (\<lambda>c. drop 10 (cfg_key c) = rule_code d \<or> \<not> names_code (rule_code d) c) ?cs"
    using other_configs_kept [OF r(2,4) assms(6)] by (auto simp: list_all_iff)
  ultimately have one: "one_rule (rule_code d) (merge_configs ?cs ?m)" by (rule one_rule_merge)
  have "fst (loadAllRules t (front s')) = map snd (merge_configs ?cs ?m)"
    using r(3) [OF key] by (simp add: loadAllRules_def odb_def Let_def)
  then have all: "filter (\<lambda>r. rule_code r = rule_code d) (fst (loadAllRules t (front s'))) = [merge_rule d p]"
    using one_rule_filter [OF one found assms(5)] by simp
  have "filter (\<lambda>r. rule_code r = rule_code d) (fst (loadRules t (front s'))) =
      filter rule_enabled (filter (\<lambda>r. rule_code r = rule_code d) (fst (loadAllRules t (front s'))))"
    by (simp add: loadRules_def split: prod.split) (auto intro: filter_cong)
  then show ?thesis by (simp add: all)
qed

text \<open>A process that loaded its rules before the change goes on with them until its cache expires, whatever the table holds.\<close>

lemma stale_rules_elsewhere:
  assumes "\<not> (cacheLoaded w \<and> t < cacheExpiry w)" and "t' < t + CACHE_TTL_MS"
  shows "fst (loadAllRules t' ((snd (loadAllRules t w))\<lparr>wdb := d\<rparr>)) = fst (loadAllRules t w)"
  using assms by (auto simp: loadAllRules_def Let_def)

subsection \<open>Concrete runs\<close>

lemma succeeded: "isl (fst p) = False \<Longrightarrow> \<exists>r. p = (Inr r, snd p)"
  by (cases p; cases "fst p") auto

definition books_office :: office where
  "books_office = \<lparr>front = empty_world\<lparr>wdb := empty_db\<lparr>accounts := [sample_account ''A1'' ''carol'' 1000 0]\<rparr>\<rparr>,
     identities = [], adminUsers = [], operationLogs = []\<rparr>"

definition dock :: Adjustment where
  "dock = \<lparr>ad_user = ''carol'', ad_amount = Num (- 5), ad_debit = False, ad_fen = 500, ad_reason = ''error'', ad_admin = ''root''\<rparr>"

definition docked_office :: office where
  "docked_office = snd (office_lock ''admin:adjust:carol''
     (office_tx (adjust_body (\<lambda>_. ''-5'') sample_sha office_env dock no_meta)) books_office)"

theorem adjustment_moves_balance_witness:
  "available_of ''carol'' (accounts (odb docked_office)) = 500 \<and> length (operationLogs docked_office) = 1"
proof -
  let ?p = "office_lock ''admin:adjust:carol''
     (office_tx (adjust_body (\<lambda>_. ''-5'') sample_sha office_env dock no_meta)) books_office"
  have "isl (fst ?p) = False" by code_simp
  then obtain a where a: "?p = (Inr a, docked_office)" using succeeded [of ?p] unfolding docked_office_def by blast
  have n: "fen (js_abs (Num (- 5))) = Inr 500" by code_simp
  have run: "adjustAccount (\<lambda>_. ''-5'') sample_sha office_env ''carol'' (Num (- 5)) ''error'' ''root'' no_meta books_office =
      (Inr (adjust_answer a), docked_office)"
    using a n by (simp add: adjustAccount_def dock_def)
  have ok: "accounts_ok (accounts (odb books_office))"
    by (simp add: books_office_def odb_def empty_world_def accounts_ok_def wf_account_def acc_ok_def int32_def sample_account_def)
  have start: "available_of ''carol'' (accounts (odb books_office)) = 1000" "operationLogs books_office = []" by code_simp+
  from adjustment_moves_balance [OF run ok n refl] start show ?thesis by (auto simp: shifts_def)
qed

definition quiet_rule :: RulePatch where
  "quiet_rule = \<lparr>patch_code = None, patch_name = None, patch_enabled = Some False, patch_action = None, patch_maxAmount = None,
     patch_maxDailyCount = None, patch_maxDailyAmount = None, patch_windowSeconds = None, patch_windowMaxCount = None\<rparr>"

definition frequency_rule :: RiskRule where "frequency_rule = DEFAULT_RULES ! 3"

theorem risk_rule_in_force_witness:
  "filter (\<lambda>r. rule_code r = rule_code frequency_rule) (fst (loadRules 7 (front (snd
     (updateRiskRule sample_sha (\<lambda>_. JsonRule quiet_rule) office_env (rule_code frequency_rule) ''{}'' (Some ''root'') no_meta
       books_office))))) = []"
proof -
  let ?run = "updateRiskRule sample_sha (\<lambda>_. JsonRule quiet_rule) office_env (rule_code frequency_rule) ''{}'' (Some ''root'')
     no_meta books_office"
  have "isl (fst ?run) = False" by code_simp
  then obtain c where run: "?run = (Inr c, snd ?run)" using succeeded by blast
  have d: "frequency_rule \<in> set DEFAULT_RULES" by (simp add: frequency_rule_def DEFAULT_RULES_def)
  have off: "\<not> rule_enabled (merge_rule frequency_rule quiet_rule)" by code_simp
  have keys: "distinct (map cfg_key (systemConfigs (odb books_office)))"
    by (simp add: books_office_def odb_def empty_world_def empty_db_def)
  have code: "rule_code (merge_rule frequency_rule quiet_rule) = rule_code frequency_rule" by code_simp
  have others: "list_all (\<lambda>c. cfg_key c = ''risk_rule:'' @ rule_code frequency_rule \<or> \<not> names_code (rule_code frequency_rule) c)
      (systemConfigs (odb books_office))"
    by (simp add: books_office_def odb_def empty_world_def empty_db_def)
  from risk_rule_in_force [OF run keys refl d code others, of 7] off show ?thesis by simp
qed

end
