(* ===== verification/AdminUsers.thy ===== *)
theory AdminUsers
  imports Admin
begin

text \<open>
  The administrators' own accounts (admin/admin.service.ts, admin-user.controller.ts): listing, creating,
  changing, disabling, and the two ways to a new password. An answer never holds the password. Every
  endpoint of the controller asks for the permission \<open>user:status\<close>.

  The lemmas: what each operation does to the table, and that each writes one audit entry.
\<close>

record AdminUserView =
  view_id :: string
  view_username :: string
  view_nickname :: "string option"
  view_role :: AdminRole
  view_status :: AdminStatus

definition admin_view :: "AdminUser \<Rightarrow> AdminUserView" where
  "admin_view a = \<lparr>view_id = adm_id a, view_username = adm_username a, view_nickname = adm_nickname a,
     view_role = adm_role a, view_status = adm_status a\<rparr>"

fun role_text :: "AdminRole \<Rightarrow> string" where
  "role_text SUPER_ADMIN = ''SUPER_ADMIN''"
| "role_text FINANCE = ''FINANCE''"
| "role_text CUSTOMER_SERVICE = ''CUSTOMER_SERVICE''"
| "role_text RISK_OFFICER = ''RISK_OFFICER''"

fun admin_status_text :: "AdminStatus \<Rightarrow> string" where
  "admin_status_text AdminStatus.ACTIVE = ''ACTIVE''"
| "admin_status_text DISABLED = ''DISABLED''"

definition find_admin :: "string \<Rightarrow> office \<Rightarrow> AdminUser option" where
  "find_admin i s = findUnique (\<lambda>a. adm_id a = i) (adminUsers s)"

definition admin_conflict :: "AdminUser \<Rightarrow> AdminUser \<Rightarrow> bool" where
  "admin_conflict r a = (adm_id r = adm_id a \<or> adm_username r = adm_username a)"

text \<open>\<open>contains\<close> of a query.\<close>

definition contains :: "string \<Rightarrow> string \<Rightarrow> bool" where
  "contains part s = list_ex (\<lambda>i. take (length part) (drop i s) = part) [0..<Suc (length s)]"

record AdminQuery =
  aq_keyword :: "string option"
  aq_role :: "AdminRole option"
  aq_status :: "AdminStatus option"
  aq_page :: "int option"
  aq_limit :: "int option"

definition admin_matches :: "AdminQuery \<Rightarrow> AdminUser \<Rightarrow> bool" where
  "admin_matches q a =
     ((case aq_role q of None \<Rightarrow> True | Some r \<Rightarrow> adm_role a = r) \<and>
      (case aq_status q of None \<Rightarrow> True | Some st \<Rightarrow> adm_status a = st) \<and>
      (truthy (aq_keyword q) \<longrightarrow> contains (the (aq_keyword q)) (adm_username a)))"

definition getAdminUsers :: "AdminQuery \<Rightarrow> office \<Rightarrow> AdminUserView PaginatedData" where
  "getAdminUsers q s =
     (let p = listed (admin_matches q) rev (aq_page q) (aq_limit q) MAX_PAGE_SIZE (adminUsers s)
      in \<lparr>pd_data = map admin_view (pd_data p), pd_total = pd_total p, pd_page = pd_page p, pd_limit = pd_limit p\<rparr>)"

record CreateAdminDto =
  cad_username :: string
  cad_password :: string
  cad_role :: AdminRole
  cad_nickname :: "string option"

definition createAdminUser ::
  "(string \<Rightarrow> string) \<Rightarrow> (string \<Rightarrow> string) \<Rightarrow> env \<Rightarrow> CreateAdminDto \<Rightarrow> string option \<Rightarrow>
   office \<Rightarrow> (exn + AdminUserView) \<times> office" where
  "createAdminUser sha hash_pw e dto currentAdminId s =
     (case findUnique (\<lambda>a. adm_username a = cad_username dto) (adminUsers s) of
        Some _ \<Rightarrow> (Inl (Conflict ADMIN_USERNAME_EXISTS), s)
      | None \<Rightarrow>
          let row = \<lparr>adm_id = uuid e 0, adm_username = cad_username dto, adm_password = hash_pw (cad_password dto),
                     adm_nickname = cad_nickname dto, adm_role = cad_role dto, adm_status = AdminStatus.ACTIVE\<rparr>
          in office_tx (\<lambda>s. bindE (create P2002 admin_conflict row (adminUsers s)) (\<lambda>t.
               audited sha e 1 (admin_or_system currentAdminId) ''ADMIN_USER_CREATE'' (Some (adm_id row))
                 (Some (json_object [(''username'', json_string (cad_username dto)), (''role'', json_string (role_text (cad_role dto)))]))
                 no_meta (admin_view row) (s\<lparr>adminUsers := t\<rparr>))) s)"

text \<open>One row changed and one audit entry, the shape of the other operations.\<close>

definition change_admin ::
  "(string \<Rightarrow> string) \<Rightarrow> env \<Rightarrow> string \<Rightarrow> (AdminUser \<Rightarrow> AdminUser) \<Rightarrow> string \<Rightarrow> string \<Rightarrow> string \<Rightarrow> AuditMeta \<Rightarrow>
   office \<Rightarrow> (exn + AdminUserView) \<times> office" where
  "change_admin sha e i f adminId action detail meta =
     office_tx (\<lambda>s. bindE (updateOne P2025 IntOutOfRange (\<lambda>_. True) (\<lambda>a. adm_id a = i) f (adminUsers s)) (\<lambda>(a, t).
       audited sha e 0 adminId action (Some i) (Some detail) meta (admin_view a) (s\<lparr>adminUsers := t\<rparr>)))"

record UpdateAdminDto =
  uad_nickname :: "string option"
  uad_role :: "AdminRole option"
  uad_status :: "AdminStatus option"

definition apply_update :: "UpdateAdminDto \<Rightarrow> AdminUser \<Rightarrow> AdminUser" where
  "apply_update d a = a\<lparr>adm_nickname := over (uad_nickname d) (adm_nickname a),
     adm_role := (case uad_role d of None \<Rightarrow> adm_role a | Some r \<Rightarrow> r),
     adm_status := (case uad_status d of None \<Rightarrow> adm_status a | Some st \<Rightarrow> st)\<rparr>"

definition update_detail :: "UpdateAdminDto \<Rightarrow> string" where
  "update_detail d = json_object [(''changes'', json_object
     (optional_member ''nickname'' (uad_nickname d) @ optional_member ''role'' (map_option role_text (uad_role d)) @
      optional_member ''status'' (map_option admin_status_text (uad_status d))))]"

text \<open>The second check looks at the role of the administrator to be changed, as the code does.\<close>

definition updateAdminUser ::
  "(string \<Rightarrow> string) \<Rightarrow> env \<Rightarrow> string \<Rightarrow> UpdateAdminDto \<Rightarrow> string \<Rightarrow> AuditMeta \<Rightarrow>
   office \<Rightarrow> (exn + AdminUserView) \<times> office" where
  "updateAdminUser sha e i dto currentAdminId meta s =
     (case find_admin i s of
        None \<Rightarrow> (Inl (NotFound ADMIN_USER_NOT_FOUND), s)
      | Some admin \<Rightarrow>
          if adm_role admin \<noteq> SUPER_ADMIN \<and> uad_role dto \<noteq> None
          then (Inl (Forbidden ADMIN_INSUFFICIENT_PERMISSIONS), s)
          else if i = currentAdminId \<and> uad_status dto = Some DISABLED
          then (Inl (BadRequest ADMIN_CANNOT_DELETE_SELF), s)
          else change_admin sha e i (apply_update dto) currentAdminId ''ADMIN_USER_UPDATE'' (update_detail dto) meta s)"

definition username_detail :: "AdminUser \<Rightarrow> string" where
  "username_detail a = json_object [(''username'', json_string (adm_username a))]"

definition deleteAdminUser ::
  "(string \<Rightarrow> string) \<Rightarrow> env \<Rightarrow> string \<Rightarrow> string \<Rightarrow> AuditMeta \<Rightarrow> office \<Rightarrow> (exn + AdminUserView) \<times> office" where
  "deleteAdminUser sha e i currentAdminId meta s =
     (case find_admin i s of
        None \<Rightarrow> (Inl (NotFound ADMIN_USER_NOT_FOUND), s)
      | Some admin \<Rightarrow>
          if i = currentAdminId then (Inl (BadRequest ADMIN_CANNOT_DELETE_SELF), s)
          else change_admin sha e i (\<lambda>a. a\<lparr>adm_status := DISABLED\<rparr>) currentAdminId ''ADMIN_USER_DELETE''
                 (username_detail admin) meta s)"

definition set_password ::
  "(string \<Rightarrow> string) \<Rightarrow> env \<Rightarrow> string \<Rightarrow> string \<Rightarrow> string \<Rightarrow> string \<Rightarrow> string \<Rightarrow> AuditMeta \<Rightarrow>
   office \<Rightarrow> (exn + unit) \<times> office" where
  "set_password sha e i hashed adminId action detail meta s =
     andThen (change_admin sha e i (\<lambda>a. a\<lparr>adm_password := hashed\<rparr>) adminId action detail meta s)
       (\<lambda>_ s. (Inr (), s))"

definition resetAdminPassword ::
  "(string \<Rightarrow> string) \<Rightarrow> (string \<Rightarrow> string) \<Rightarrow> env \<Rightarrow> string \<Rightarrow> string \<Rightarrow> string \<Rightarrow> AuditMeta \<Rightarrow>
   office \<Rightarrow> (exn + unit) \<times> office" where
  "resetAdminPassword sha hash_pw e i newPassword currentAdminId meta s =
     (case find_admin i s of
        None \<Rightarrow> (Inl (NotFound ADMIN_USER_NOT_FOUND), s)
      | Some admin \<Rightarrow> set_password sha e i (hash_pw newPassword) currentAdminId ''ADMIN_PASSWORD_RESET''
          (username_detail admin) meta s)"

definition changeAdminPassword ::
  "(string \<Rightarrow> string) \<Rightarrow> (string \<Rightarrow> string \<Rightarrow> bool) \<Rightarrow> (string \<Rightarrow> string) \<Rightarrow> env \<Rightarrow> string \<Rightarrow> string \<Rightarrow> string \<Rightarrow>
   AuditMeta \<Rightarrow> office \<Rightarrow> (exn + unit) \<times> office" where
  "changeAdminPassword sha pw_ok hash_pw e adminId oldPassword newPassword meta s =
     (case find_admin adminId s of
        None \<Rightarrow> (Inl (NotFound ADMIN_USER_NOT_FOUND), s)
      | Some admin \<Rightarrow>
          if \<not> pw_ok oldPassword (adm_password admin) then (Inl (BadRequest ADMIN_OLD_PASSWORD_INCORRECT), s)
          else set_password sha e adminId (hash_pw newPassword) adminId ''ADMIN_PASSWORD_CHANGE''
                 (username_detail admin) meta s)"

subsection \<open>The endpoints\<close>

text \<open>An authenticated administrator: the role the guard read from the table.\<close>

record AdminCurrentUser =
  cur_sub :: string
  cur_role :: AdminRole

definition endpoint ::
  "Permission list \<Rightarrow> AdminCurrentUser \<Rightarrow> (office \<Rightarrow> (exn + 'a) \<times> office) \<Rightarrow> office \<Rightarrow> (exn + 'a) \<times> office" where
  "endpoint required admin f s =
     (case permissions_guard required (Some (cur_role admin)) of Inl x \<Rightarrow> (Inl x, s) | Inr _ \<Rightarrow> f s)"

definition create_endpoint ::
  "(string \<Rightarrow> string) \<Rightarrow> (string \<Rightarrow> string) \<Rightarrow> env \<Rightarrow> AdminCurrentUser \<Rightarrow> CreateAdminDto \<Rightarrow>
   office \<Rightarrow> (exn + AdminUserView) \<times> office" where
  "create_endpoint sha hash_pw e admin dto =
     endpoint [UserStatusChange] admin (createAdminUser sha hash_pw e dto (Some (cur_sub admin)))"

definition update_endpoint ::
  "(string \<Rightarrow> string) \<Rightarrow> env \<Rightarrow> AdminCurrentUser \<Rightarrow> string \<Rightarrow> UpdateAdminDto \<Rightarrow> AuditMeta \<Rightarrow>
   office \<Rightarrow> (exn + AdminUserView) \<times> office" where
  "update_endpoint sha e admin i dto meta =
     endpoint [UserStatusChange] admin (updateAdminUser sha e i dto (cur_sub admin) meta)"

definition delete_endpoint ::
  "(string \<Rightarrow> string) \<Rightarrow> env \<Rightarrow> AdminCurrentUser \<Rightarrow> string \<Rightarrow> AuditMeta \<Rightarrow>
   office \<Rightarrow> (exn + AdminUserView) \<times> office" where
  "delete_endpoint sha e admin i meta =
     endpoint [UserStatusChange] admin (deleteAdminUser sha e i (cur_sub admin) meta)"

definition reset_endpoint ::
  "(string \<Rightarrow> string) \<Rightarrow> (string \<Rightarrow> string) \<Rightarrow> env \<Rightarrow> AdminCurrentUser \<Rightarrow> string \<Rightarrow> string \<Rightarrow> AuditMeta \<Rightarrow>
   office \<Rightarrow> (exn + unit) \<times> office" where
  "reset_endpoint sha hash_pw e admin i newPassword meta =
     endpoint [UserStatusChange] admin (resetAdminPassword sha hash_pw e i newPassword (cur_sub admin) meta)"

subsection \<open>What the operations do\<close>

lemma change_admin_Inr:
  assumes "change_admin sha e i f adminId action detail meta s = (Inr v, s')"
  obtains a where "find_admin i s = Some a" and "v = admin_view (f a)"
    and "adminUsers s' = updateRows (\<lambda>a. adm_id a = i) f (adminUsers s)"
    and "front s' = front s" and "length (operationLogs s') = Suc (length (operationLogs s))"
  using assms by (auto simp: change_admin_def audited_Inr find_admin_def audit_log_length split: option.splits)

lemma set_password_Inr:
  assumes "set_password sha e i hashed adminId action detail meta s = (Inr v, s')"
  shows "adminUsers s' = updateRows (\<lambda>a. adm_id a = i) (\<lambda>a. a\<lparr>adm_password := hashed\<rparr>) (adminUsers s)"
    and "front s' = front s" and "length (operationLogs s') = Suc (length (operationLogs s))"
  using assms by (auto simp: set_password_def elim!: change_admin_Inr)

lemma endpoint_allowed:
  "list_ex (hasPermission (cur_role admin)) required \<Longrightarrow> endpoint required admin f s = f s"
  by (auto simp: endpoint_def permissions_guard_def or_throw_def throw_if_def)

lemma endpoint_refused:
  assumes "required \<noteq> []" and "\<not> list_ex (hasPermission (cur_role admin)) required"
  shows "endpoint required admin f s = (Inl (Forbidden FORBIDDEN), s)"
  using assms by (simp add: endpoint_def permissions_guard_def or_throw_def throw_if_def)

lemma who_may_manage: "list_ex (hasPermission r) [UserStatusChange] \<longleftrightarrow> r = SUPER_ADMIN \<or> r = CUSTOMER_SERVICE"
  by (cases r) (simp_all add: hasPermission_def)

text \<open>What others may do: the finance and risk roles are refused by every endpoint.\<close>

lemma others_refused:
  assumes "cur_role admin = FINANCE \<or> cur_role admin = RISK_OFFICER"
  shows "create_endpoint sha hash_pw e admin dto s = (Inl (Forbidden FORBIDDEN), s)"
    and "update_endpoint sha e admin i dto' meta s = (Inl (Forbidden FORBIDDEN), s)"
    and "delete_endpoint sha e admin i meta s = (Inl (Forbidden FORBIDDEN), s)"
    and "reset_endpoint sha hash_pw e admin i pw meta s = (Inl (Forbidden FORBIDDEN), s)"
  using assms who_may_manage [of "cur_role admin"]
  by (auto simp: create_endpoint_def update_endpoint_def delete_endpoint_def reset_endpoint_def endpoint_refused)

text \<open>The role of an administrator who is not a super administrator never changes by an update.\<close>

lemma update_keeps_low_roles:
  assumes "updateAdminUser sha e i dto cur meta s = (Inr v, s')" and "find_admin i s = Some a" and "adm_role a \<noteq> SUPER_ADMIN"
  shows "view_role v = adm_role a"
  using assms
  by (auto simp: updateAdminUser_def admin_view_def apply_update_def split: if_splits elim!: change_admin_Inr)

end
