(* ===== verification/Auth.thy ===== *)
theory Auth
  imports AdminUsers
begin

text \<open>
  Registration and login (auth/auth.service.ts, auth/jwt.strategy.ts, the creation of a user in
  users/users.service.ts) and their counterpart for administrators (admin/admin-auth.service.ts,
  admin/admin-jwt-auth.guard.ts). Both services count failed logins per identifier, in Redis or in
  the process, and refuse further attempts after five; the two stores are interpretations of one
  interface. The credentials are the columns of the user table that nothing else reads. bcrypt
  and the signing of tokens are parameters; the keys of the two services have different prefixes, so each has a
  store of its own here.

  The lemmas: five attempts per period and identifier; a registered user can log in; a
  token of one kind does not open the other side.
\<close>

subsection \<open>Counting failures\<close>

definition LOGIN_MAX_FAILS :: nat where "LOGIN_MAX_FAILS = 5"

definition LOGIN_LOCK_TTL_MS :: int where "LOGIN_LOCK_TTL_MS = 15 * 60 * 1000"

text \<open>A count and the time it ends, per key.\<close>

type_synonym fail_map = "string \<Rightarrow> (nat \<times> int) option"

text \<open>Redis: \<open>get\<close>, the script that increments and sets the expiry of a new key, \<open>del\<close>.\<close>

definition redis_count :: "int \<Rightarrow> string \<Rightarrow> fail_map \<Rightarrow> nat" where
  "redis_count t key m = (case m key of Some (n, expiry) \<Rightarrow> if t < expiry then n else 0 | None \<Rightarrow> 0)"

definition redis_incr :: "int \<Rightarrow> string \<Rightarrow> fail_map \<Rightarrow> fail_map" where
  "redis_incr t key m =
     (case m key of
        Some (n, expiry) \<Rightarrow> if t < expiry then m(key \<mapsto> (n + 1, if n + 1 = 1 then t + LOGIN_LOCK_TTL_MS else expiry))
                          else m(key \<mapsto> (1, t + LOGIN_LOCK_TTL_MS))
      | None \<Rightarrow> m(key \<mapsto> (1, t + LOGIN_LOCK_TTL_MS)))"

text \<open>The map of the process: an entry that is over is deleted when it is read.\<close>

definition memory_count :: "int \<Rightarrow> string \<Rightarrow> fail_map \<Rightarrow> nat \<times> fail_map" where
  "memory_count t key m =
     (case m key of
        None \<Rightarrow> (0, m)
      | Some (n, expiresAt) \<Rightarrow> if expiresAt < t then (0, m(key := None)) else (n, m))"

definition memory_record :: "int \<Rightarrow> string \<Rightarrow> fail_map \<Rightarrow> fail_map" where
  "memory_record t key m =
     (case m key of
        None \<Rightarrow> m(key \<mapsto> (1, t + LOGIN_LOCK_TTL_MS))
      | Some (n, expiresAt) \<Rightarrow> if expiresAt < t then m(key \<mapsto> (1, t + LOGIN_LOCK_TTL_MS))
                              else m(key \<mapsto> (n + 1, expiresAt)))"

record fail_store =
  fs_enabled :: bool
  fs_redis :: fail_map
  fs_memory :: fail_map

definition getFailCount :: "int \<Rightarrow> string \<Rightarrow> fail_store \<Rightarrow> nat \<times> fail_store" where
  "getFailCount t key f =
     (if fs_enabled f then (redis_count t key (fs_redis f), f)
      else case memory_count t key (fs_memory f) of (n, m) \<Rightarrow> (n, f\<lparr>fs_memory := m\<rparr>))"

definition recordFailure :: "int \<Rightarrow> string \<Rightarrow> fail_store \<Rightarrow> fail_store" where
  "recordFailure t key f =
     (if fs_enabled f then f\<lparr>fs_redis := redis_incr t key (fs_redis f)\<rparr>
      else f\<lparr>fs_memory := memory_record t key (fs_memory f)\<rparr>)"

definition clearFailCount :: "string \<Rightarrow> fail_store \<Rightarrow> fail_store" where
  "clearFailCount key f =
     (if fs_enabled f then f\<lparr>fs_redis := (fs_redis f)(key := None)\<rparr>
      else f\<lparr>fs_memory := (fs_memory f)(key := None)\<rparr>)"

text \<open>
  What the login relies on: a failure adds one; a period begins with its first failure and lasts for the
  lock time; within it nothing but a success resets the count; the keys do not disturb each other.
\<close>

locale failure_counter =
  fixes count :: "int \<Rightarrow> string \<Rightarrow> 's \<Rightarrow> nat" and look :: "int \<Rightarrow> string \<Rightarrow> 's \<Rightarrow> 's"
    and fail :: "int \<Rightarrow> string \<Rightarrow> 's \<Rightarrow> 's" and forget :: "string \<Rightarrow> 's \<Rightarrow> 's"
    and until :: "string \<Rightarrow> 's \<Rightarrow> int" and ok :: "'s \<Rightarrow> bool"
  assumes counts: "ok s \<Longrightarrow> count t k (fail t k s) = Suc (count t k s)"
    and begins: "ok s \<Longrightarrow> count t k s = 0 \<Longrightarrow> until k (fail t k s) = t + LOGIN_LOCK_TTL_MS"
    and goes_on: "ok s \<Longrightarrow> count t k s \<noteq> 0 \<Longrightarrow> until k (fail t k s) = until k s"
    and lasts: "ok s \<Longrightarrow> t \<le> u \<Longrightarrow> u < until k s \<Longrightarrow> count u k s = count t k s"
    and stays_empty: "ok s \<Longrightarrow> count t k s = 0 \<Longrightarrow> t \<le> u \<Longrightarrow> count u k s = 0"
    and looked: "t \<le> u \<Longrightarrow> count u k' (look t k s) = count u k' s" "t \<le> u \<Longrightarrow> count t k s \<noteq> 0 \<Longrightarrow> until k (look t k s) = until k s"
    and other: "k' \<noteq> k \<Longrightarrow> count u k' (fail t k s) = count u k' s" "k' \<noteq> k \<Longrightarrow> until k' (fail t k s) = until k' s"
      "k' \<noteq> k \<Longrightarrow> count u k' (forget k s) = count u k' s" "k' \<noteq> k \<Longrightarrow> until k' (forget k s) = until k' s"
      "k' \<noteq> k \<Longrightarrow> until k' (look t k s) = until k' s"
    and kept: "ok s \<Longrightarrow> ok (fail t k s)" "ok s \<Longrightarrow> ok (forget k s)" "ok s \<Longrightarrow> ok (look t k s)"
begin

text \<open>What is known of a key in a period that started no earlier than \<open>b\<close>, after \<open>n\<close> failures in it.\<close>

definition in_period :: "int \<Rightarrow> int \<Rightarrow> string \<Rightarrow> nat \<Rightarrow> 's \<Rightarrow> bool" where
  "in_period b t k n s = (ok s \<and> count t k s = n \<and> (n = 0 \<or> b + LOGIN_LOCK_TTL_MS \<le> until k s))"

lemma in_period_later: "in_period b t k n s \<Longrightarrow> t \<le> u \<Longrightarrow> u < b + LOGIN_LOCK_TTL_MS \<Longrightarrow> in_period b u k n s"
  using lasts [of s t u k] stays_empty [of s t k u] by (auto simp: in_period_def)

lemma in_period_look: "in_period b t k n s \<Longrightarrow> in_period b t k n (look t k' s)"
  using looked(2) [of t t k s] by (cases "k' = k"; cases "count t k s = 0") (simp_all add: in_period_def looked(1) other kept)

lemma in_period_fail: "in_period b t k n s \<Longrightarrow> b \<le> t \<Longrightarrow> in_period b t k (Suc n) (fail t k s)"
  using begins [of s t k] goes_on [of s t k] by (cases "n = 0") (auto simp: in_period_def counts kept)

lemma in_period_other:
  "in_period b t k n s \<Longrightarrow> k' \<noteq> k \<Longrightarrow> in_period b t k n (fail t k' s)"
  "in_period b t k n s \<Longrightarrow> k' \<noteq> k \<Longrightarrow> in_period b t k n (forget k' s)"
  by (auto simp: in_period_def other kept)

end

definition fail_until :: "string \<Rightarrow> fail_store \<Rightarrow> int" where
  "fail_until key f = (case (if fs_enabled f then fs_redis f else fs_memory f) key of None \<Rightarrow> 0 | Some (n, x) \<Rightarrow> x)"

definition positive_counts :: "fail_store \<Rightarrow> bool" where
  "positive_counts f = (\<forall>k. (case fs_redis f k of None \<Rightarrow> True | Some (n, x) \<Rightarrow> 0 < n) \<and>
     (case fs_memory f k of None \<Rightarrow> True | Some (n, x) \<Rightarrow> 0 < n))"

lemmas fail_defs = getFailCount_def recordFailure_def clearFailCount_def fail_until_def redis_count_def redis_incr_def
  memory_count_def memory_record_def

interpretation logins: failure_counter "\<lambda>t k f. fst (getFailCount t k f)" "\<lambda>t k f. snd (getFailCount t k f)"
  recordFailure clearFailCount fail_until positive_counts
proof unfold_locales
  fix s :: fail_store and t u :: int and k k' :: string
  assume ok: "positive_counts s"
  have r: "fs_redis s k = Some (n, x) \<Longrightarrow> 0 < n" and m: "fs_memory s k = Some (n, x) \<Longrightarrow> 0 < n" for n x
    using ok [unfolded positive_counts_def, THEN spec, of k] by auto
  show "fst (getFailCount t k (recordFailure t k s)) = Suc (fst (getFailCount t k s))"
    by (auto simp: fail_defs LOGIN_LOCK_TTL_MS_def split: option.splits)
  show "fst (getFailCount t k s) = 0 \<Longrightarrow> fail_until k (recordFailure t k s) = t + LOGIN_LOCK_TTL_MS"
    using r m by (auto simp: fail_defs split: option.splits if_splits)
  show "fst (getFailCount t k s) \<noteq> 0 \<Longrightarrow> fail_until k (recordFailure t k s) = fail_until k s"
    by (auto simp: fail_defs split: option.splits if_splits)
  show "t \<le> u \<Longrightarrow> u < fail_until k s \<Longrightarrow> fst (getFailCount u k s) = fst (getFailCount t k s)"
    by (auto simp: fail_defs split: option.splits if_splits)
  show "fst (getFailCount t k s) = 0 \<Longrightarrow> t \<le> u \<Longrightarrow> fst (getFailCount u k s) = 0"
    using r m by (auto simp: fail_defs split: option.splits if_splits)
  show "positive_counts (recordFailure t k s)" "positive_counts (clearFailCount k s)"
    "positive_counts (snd (getFailCount t k s))"
    using ok by (auto simp: positive_counts_def fail_defs split: option.splits)
qed (auto simp: fail_defs split: option.splits)

subsection \<open>State\<close>

record UserLogin =
  lgn_user :: string
  lgn_phone :: "string option"
  lgn_email :: "string option"
  lgn_password :: string

datatype LoginReason =
    AdminLocked | AdminUnknown | AdminWrong | AdminIn | UserLocked | UserUnknown | UserWrong | NoReason

record LoginLog =
  ll_user :: "string option"
  ll_ip :: "string option"
  ll_userAgent :: "string option"
  ll_success :: bool
  ll_reason :: LoginReason

record auth =
  auth_office :: office
  userLogins :: "UserLogin list"
  loginLogs :: "LoginLog list"
  userFails :: fail_store
  adminFails :: fail_store

text \<open>The claims of a token; \<open>sign\<close> and \<open>verify\<close> are those of the JWT library.\<close>

record claims =
  tok_sub :: string
  tok_typ :: "string option"
  tok_role :: "string option"

definition JWT_TOKEN_TYPE_USER :: string where "JWT_TOKEN_TYPE_USER = ''user''"

definition JWT_TOKEN_TYPE_ADMIN :: string where "JWT_TOKEN_TYPE_ADMIN = ''admin''"

definition logged :: "string option \<Rightarrow> AuditMeta \<Rightarrow> bool \<Rightarrow> LoginReason \<Rightarrow> auth \<Rightarrow> auth" where
  "logged u meta success reason s = s\<lparr>loginLogs := loginLogs s @
     [\<lparr>ll_user = u, ll_ip = meta_ip meta, ll_userAgent = meta_userAgent meta, ll_success = success, ll_reason = reason\<rparr>]\<rparr>"

subsection \<open>Users\<close>

record RegisterDto =
  rgd_nickname :: string
  rgd_phone :: "string option"
  rgd_email :: "string option"
  rgd_password :: string

definition login_conflict :: "UserLogin \<Rightarrow> UserLogin \<Rightarrow> bool" where
  "login_conflict r l = (lgn_user r = lgn_user l \<or> (lgn_phone r \<noteq> None \<and> lgn_phone r = lgn_phone l) \<or>
     (lgn_email r \<noteq> None \<and> lgn_email r = lgn_email l))"

definition new_user :: "string \<Rightarrow> string \<Rightarrow> User" where
  "new_user i nickname = \<lparr>usr_id = i, usr_nickname = nickname, usr_payPassword = None, usr_status = UserStatus.ACTIVE,
     usr_realName = RealNameStatus.UNVERIFIED, usr_risk = LOW\<rparr>"

definition new_account :: "string \<Rightarrow> string \<Rightarrow> Account" where
  "new_account i u = \<lparr>acc_id = i, acc_user = u, availableBalance = 0, frozenBalance = 0, totalBalance = 0,
     acc_status = AccountStatus.ACTIVE\<rparr>"

definition with_office_db :: "db \<Rightarrow> auth \<Rightarrow> auth" where
  "with_office_db d s = s\<lparr>auth_office := with_db d (auth_office s)\<rparr>"

text \<open>The user and its account in one nested insert; the columns of the login are part of the user's row.\<close>

definition create_user :: "env \<Rightarrow> RegisterDto \<Rightarrow> string \<Rightarrow> auth \<Rightarrow> exn + (User \<times> auth)" where
  "create_user e dto hashed s =
     (let u = new_user (uuid e 0) (rgd_nickname dto); d = odb (auth_office s);
          l = \<lparr>lgn_user = usr_id u, lgn_phone = rgd_phone dto, lgn_email = rgd_email dto, lgn_password = hashed\<rparr>
      in bindE (create P2002 login_conflict l (userLogins s)) (\<lambda>ls.
         bindE (create P2002 (\<lambda>r x. usr_id r = usr_id x) u (users d)) (\<lambda>us.
         bindE (create P2002 (\<lambda>r x. acc_id r = acc_id x \<or> acc_user r = acc_user x)
                  (new_account (uuid e 1) (usr_id u)) (accounts d)) (\<lambda>as.
         Inr (u, with_office_db (d\<lparr>users := us, accounts := as\<rparr>) s\<lparr>userLogins := ls\<rparr>)))))"

record AuthResult =
  ar_id :: string
  ar_token :: string

definition signToken :: "(claims \<Rightarrow> string) \<Rightarrow> string \<Rightarrow> string" where
  "signToken sign u = sign \<lparr>tok_sub = u, tok_typ = Some JWT_TOKEN_TYPE_USER, tok_role = None\<rparr>"

definition register ::
  "(claims \<Rightarrow> string) \<Rightarrow> (string \<Rightarrow> string) \<Rightarrow> env \<Rightarrow> RegisterDto \<Rightarrow> auth \<Rightarrow> (exn + AuthResult) \<times> auth" where
  "register sign hash_pw e dto s =
     (if \<not> truthy (rgd_phone dto) \<and> \<not> truthy (rgd_email dto) then (Inl (BadRequest MISSING_PHONE_OR_EMAIL), s)
      else case create_user e dto (hash_pw (rgd_password dto)) s of
        Inl x \<Rightarrow> (Inl x, s)
      | Inr (u, s') \<Rightarrow> (Inr \<lparr>ar_id = usr_id u, ar_token = signToken sign (usr_id u)\<rparr>, s'))"

record LoginDto =
  lgd_phone :: "string option"
  lgd_email :: "string option"
  lgd_password :: string

definition findByCredential :: "string option \<Rightarrow> string option \<Rightarrow> auth \<Rightarrow> UserLogin option" where
  "findByCredential phone email s =
     (if truthy phone then findUnique (\<lambda>l. lgn_phone l = phone) (userLogins s)
      else if truthy email then findUnique (\<lambda>l. lgn_email l = email) (userLogins s)
      else None)"

text \<open>\<open>dto.phone || dto.email\<close>.\<close>

definition login_identifier :: "LoginDto \<Rightarrow> string" where
  "login_identifier dto = (if truthy (lgd_phone dto) then the (lgd_phone dto) else the (lgd_email dto))"

definition user_lock_key :: "LoginDto \<Rightarrow> string" where "user_lock_key dto = ''login:fail:'' @ login_identifier dto"

definition user_failed :: "int \<Rightarrow> string \<Rightarrow> string option \<Rightarrow> AuditMeta \<Rightarrow> LoginReason \<Rightarrow> auth \<Rightarrow> (exn + AuthResult) \<times> auth" where
  "user_failed t key u meta reason s =
     (Inl (Unauthorized INVALID_CREDENTIALS), logged u meta False reason (s\<lparr>userFails := recordFailure t key (userFails s)\<rparr>))"

definition login ::
  "(claims \<Rightarrow> string) \<Rightarrow> (string \<Rightarrow> string \<Rightarrow> bool) \<Rightarrow> int \<Rightarrow> LoginDto \<Rightarrow> AuditMeta \<Rightarrow>
   auth \<Rightarrow> (exn + AuthResult) \<times> auth" where
  "login sign pw_ok t dto meta s =
     (if \<not> truthy (lgd_phone dto) \<and> \<not> truthy (lgd_email dto) then (Inl (BadRequest MISSING_PHONE_OR_EMAIL), s)
      else case getFailCount t (user_lock_key dto) (userFails s) of (failCount, f) \<Rightarrow>
        let s1 = s\<lparr>userFails := f\<rparr> in
        if LOGIN_MAX_FAILS \<le> failCount then
          (Inl (Unauthorized INVALID_CREDENTIALS), logged None meta False UserLocked s1)
        else case findByCredential (lgd_phone dto) (lgd_email dto) s1 of
          None \<Rightarrow> user_failed t (user_lock_key dto) None meta UserUnknown s1
        | Some u \<Rightarrow>
            if \<not> pw_ok (lgd_password dto) (lgn_password u)
            then user_failed t (user_lock_key dto) (Some (lgn_user u)) meta UserWrong s1
            else (Inr \<lparr>ar_id = lgn_user u, ar_token = signToken sign (lgn_user u)\<rparr>,
                  logged (Some (lgn_user u)) meta True NoReason
                    (s1\<lparr>userFails := clearFailCount (user_lock_key dto) (userFails s1)\<rparr>)))"

text \<open>\<open>JwtStrategy.validate\<close>, on the claims of a token the library has verified.\<close>

definition jwt_validate :: "claims \<Rightarrow> auth \<Rightarrow> exn + User" where
  "jwt_validate payload s =
     (if tok_typ payload \<noteq> Some JWT_TOKEN_TYPE_USER then Inl (Unauthorized AUTH_FAILED)
      else case find_user (tok_sub payload) (odb (auth_office s)) of
        None \<Rightarrow> Inl (Unauthorized AUTH_FAILED)
      | Some user \<Rightarrow> if usr_status user = UserStatus.FROZEN then Inl (Unauthorized Schema.ACCOUNT_FROZEN) else Inr user)"

subsection \<open>Administrators\<close>

text \<open>\<open>defaultPassword\<close> is the environment's variable; the error is a plain one and stops the start of the service.\<close>

definition seedAdmin :: "(string \<Rightarrow> string) \<Rightarrow> env \<Rightarrow> string option \<Rightarrow> auth \<Rightarrow> (exn + unit) \<times> auth" where
  "seedAdmin hash_pw e defaultPassword s =
     (if adminUsers (auth_office s) \<noteq> [] then (Inr (), s)
      else if \<not> truthy defaultPassword then (Inl (PlainError UNKNOWN_ERROR), s)
      else (Inr (), s\<lparr>auth_office := (auth_office s)\<lparr>adminUsers :=
        [\<lparr>adm_id = uuid e 0, adm_username = ''admin'', adm_password = hash_pw (the defaultPassword), adm_nickname = None,
          adm_role = SUPER_ADMIN, adm_status = AdminStatus.ACTIVE\<rparr>]\<rparr>\<rparr>))"

definition admin_lock_key :: "string \<Rightarrow> string" where "admin_lock_key username = ''admin:login:fail:'' @ username"

definition admin_failed :: "int \<Rightarrow> string \<Rightarrow> AuditMeta \<Rightarrow> LoginReason \<Rightarrow> auth \<Rightarrow> (exn + AuthResult) \<times> auth" where
  "admin_failed t key meta reason s =
     (Inl (Unauthorized INVALID_CREDENTIALS), logged None meta False reason (s\<lparr>adminFails := recordFailure t key (adminFails s)\<rparr>))"

definition admin_token :: "(claims \<Rightarrow> string) \<Rightarrow> AdminUser \<Rightarrow> string" where
  "admin_token sign a =
     sign \<lparr>tok_sub = adm_id a, tok_typ = Some JWT_TOKEN_TYPE_ADMIN, tok_role = Some (role_text (adm_role a))\<rparr>"

definition admin_login ::
  "(claims \<Rightarrow> string) \<Rightarrow> (string \<Rightarrow> string \<Rightarrow> bool) \<Rightarrow> int \<Rightarrow> string \<Rightarrow> string \<Rightarrow> AuditMeta \<Rightarrow>
   auth \<Rightarrow> (exn + AuthResult) \<times> auth" where
  "admin_login sign pw_ok t username password meta s =
     (case getFailCount t (admin_lock_key username) (adminFails s) of (failCount, f) \<Rightarrow>
        let s1 = s\<lparr>adminFails := f\<rparr> in
        if LOGIN_MAX_FAILS \<le> failCount then
          (Inl (Unauthorized INVALID_CREDENTIALS), logged None meta False AdminLocked s1)
        else case findUnique (\<lambda>a. adm_username a = username) (adminUsers (auth_office s1)) of
          None \<Rightarrow> admin_failed t (admin_lock_key username) meta AdminUnknown s1
        | Some admin \<Rightarrow>
            if \<not> pw_ok password (adm_password admin)
            then admin_failed t (admin_lock_key username) meta AdminWrong s1
            else (Inr \<lparr>ar_id = adm_id admin, ar_token = admin_token sign admin\<rparr>,
                  logged None meta True AdminIn
                    (s1\<lparr>adminFails := clearFailCount (admin_lock_key username) (adminFails s1)\<rparr>)))"

definition VALID_ROLES :: "string list" where
  "VALID_ROLES = map role_text [SUPER_ADMIN, FINANCE, CUSTOMER_SERVICE, RISK_OFFICER]"

definition admin_jwt_guard :: "(string \<Rightarrow> claims option) \<Rightarrow> string option \<Rightarrow> auth \<Rightarrow> exn + AdminCurrentUser" where
  "admin_jwt_guard verify header s =
     (case header of
        None \<Rightarrow> Inl (Unauthorized AUTHENTICATION_FAILED)
      | Some h \<Rightarrow>
          if take 7 h \<noteq> ''Bearer '' then Inl (Unauthorized AUTHENTICATION_FAILED)
          else case verify (drop 7 h) of
            None \<Rightarrow> Inl (Unauthorized AUTHENTICATION_FAILED)
          | Some payload \<Rightarrow>
              if tok_typ payload \<noteq> Some JWT_TOKEN_TYPE_ADMIN then Inl (Unauthorized AUTHENTICATION_FAILED)
              else if tok_role payload \<notin> Some ` set VALID_ROLES then Inl (Unauthorized AUTHENTICATION_FAILED)
              else case find_admin (tok_sub payload) (auth_office s) of
                None \<Rightarrow> Inl (Unauthorized AUTHENTICATION_FAILED)
              | Some admin \<Rightarrow>
                  if adm_status admin \<noteq> AdminStatus.ACTIVE then Inl (Unauthorized AUTHENTICATION_FAILED)
                  else Inr \<lparr>cur_sub = tok_sub payload, cur_role = adm_role admin\<rparr>)"

subsection \<open>Five guesses per period\<close>

type_synonym login_request = "int \<times> LoginDto \<times> AuditMeta"

fun logins_run ::
  "(claims \<Rightarrow> string) \<Rightarrow> (string \<Rightarrow> string \<Rightarrow> bool) \<Rightarrow> login_request list \<Rightarrow> auth \<Rightarrow> auth" where
  "logins_run sign pw_ok [] s = s"
| "logins_run sign pw_ok ((t, dto, meta) # rs) s = logins_run sign pw_ok rs (snd (login sign pw_ok t dto meta s))"

definition wrong_rows :: "string \<Rightarrow> auth \<Rightarrow> nat" where
  "wrong_rows u s = length (filter (\<lambda>l. ll_user l = Some u \<and> ll_reason l = UserWrong) (loginLogs s))"

definition guess_key :: "string \<Rightarrow> string" where "guess_key phone = ''login:fail:'' @ phone"

text \<open>A user with a telephone number only, which no other row uses in either column.\<close>

definition phone_user :: "UserLogin \<Rightarrow> string \<Rightarrow> auth \<Rightarrow> bool" where
  "phone_user r phone s = (r \<in> set (userLogins s) \<and> lgn_phone r = Some phone \<and> phone \<noteq> [] \<and> lgn_email r = None \<and>
     distinct (map lgn_user (userLogins s)) \<and> (\<forall>l \<in> set (userLogins s). lgn_phone l = Some phone \<longrightarrow> l = r) \<and>
     (\<forall>l \<in> set (userLogins s). lgn_email l \<noteq> Some phone))"

definition guessing :: "int \<Rightarrow> int \<Rightarrow> UserLogin \<Rightarrow> string \<Rightarrow> nat \<Rightarrow> nat \<Rightarrow> auth \<Rightarrow> bool" where
  "guessing b t r phone w n s = (phone_user r phone s \<and> logins.in_period b t (guess_key phone) n (userFails s) \<and> n \<le> 5 \<and>
     wrong_rows (lgn_user r) s \<le> w + n)"

lemma logged_simps [simp]:
  "userLogins (logged u meta ok reason s) = userLogins s" "userFails (logged u meta ok reason s) = userFails s"
  "wrong_rows v (logged u meta ok reason s) = wrong_rows v s + (if u = Some v \<and> reason = UserWrong then 1 else 0)"
  "wrong_rows v (s\<lparr>userFails := f\<rparr>) = wrong_rows v s"
  by (simp_all add: logged_def wrong_rows_def)

lemma phone_user_kept [simp]:
  "phone_user r p (logged u meta ok reason s) = phone_user r p s" "phone_user r p (s\<lparr>userFails := f\<rparr>) = phone_user r p s"
  by (simp_all add: phone_user_def)

lemma findByCredential_fails [simp]: "findByCredential p m (s\<lparr>userFails := f\<rparr>) = findByCredential p m s"
  by (simp add: findByCredential_def)

lemma foundE:
  assumes "findByCredential p m s = Some l"
  obtains x where "p = Some x" "lgn_phone l = Some x" "x \<noteq> []" "l \<in> set (userLogins s)"
  | x where "\<not> truthy p" "m = Some x" "lgn_email l = Some x" "l \<in> set (userLogins s)"
  using assms by (cases p; cases m) (auto simp: findByCredential_def truthy_def split: if_splits dest: findUnique_SomeD)

lemma found_phone:
  assumes "phone_user r phone s" and "login_identifier dto = phone" and "findByCredential (lgd_phone dto) (lgd_email dto) s = Some l"
  shows "l = r \<and> lgd_phone dto = Some phone"
  using assms(3)
proof (cases rule: foundE)
  case (1 x)
  then have "x = phone" using assms(2) by (simp add: login_identifier_def truthy_def)
  then show ?thesis using 1 assms(1) unfolding phone_user_def by blast
next
  case (2 x)
  then have "lgn_email l = Some phone" using assms(2) by (simp add: login_identifier_def)
  then show ?thesis using 2 assms(1) unfolding phone_user_def by blast
qed

lemma found_other:
  assumes "phone_user r phone s" and "login_identifier dto \<noteq> phone" and "findByCredential (lgd_phone dto) (lgd_email dto) s = Some l"
  shows "lgn_user l \<noteq> lgn_user r"
proof
  assume eq: "lgn_user l = lgn_user r"
  have d: "distinct (map lgn_user (userLogins s))" "r \<in> set (userLogins s)" "lgn_phone r = Some phone" "lgn_email r = None"
    using assms(1) by (simp_all add: phone_user_def)
  from assms(3) show False
  proof (cases rule: foundE)
    case (1 x)
    have "l = r" by (rule distinct_key_unique [OF d(1) 1(4) d(2) eq])
    then show False using 1 d assms(2) by (simp add: login_identifier_def truthy_def)
  next
    case (2 x)
    have "l = r" by (rule distinct_key_unique [OF d(1) 2(4) d(2) eq])
    then show False using 2 d by simp
  qed
qed

lemma guess_step:
  assumes g: "guessing b t r phone w n s" and t: "b \<le> t"
    and wrong: "lgd_phone dto = Some phone \<Longrightarrow> \<not> pw_ok (lgd_password dto) (lgn_password r)"
  shows "\<exists>n'. guessing b t r phone w n' (snd (login sign pw_ok t dto meta s))"
proof (cases "\<not> truthy (lgd_phone dto) \<and> \<not> truthy (lgd_email dto)")
  case True
  then show ?thesis using g by (auto simp: login_def)
next
  case given: False
  obtain c f where look: "getFailCount t (user_lock_key dto) (userFails s) = (c, f)" by force
  let ?s1 = "s\<lparr>userFails := f\<rparr>"
  have pu: "phone_user r phone s" and n: "n \<le> 5" and rows: "wrong_rows (lgn_user r) s \<le> w + n" using g by (simp_all add: guessing_def)
  have f: "logins.in_period b t (guess_key phone) n f"
    using logins.in_period_look [of b t "guess_key phone" n "userFails s" "user_lock_key dto"] g look by (simp add: guessing_def)
  show ?thesis
  proof (cases "login_identifier dto = phone")
    case True
    then have key: "user_lock_key dto = guess_key phone" by (simp add: user_lock_key_def guess_key_def)
    have c: "c = n" using g look key by (simp add: guessing_def logins.in_period_def)
    note once = logins.in_period_fail [OF f t]
    show ?thesis
    proof (cases "5 \<le> n")
      case True
      then have "guessing b t r phone w n (snd (login sign pw_ok t dto meta s))"
        using given look c pu f n rows by (auto simp add: login_def LOGIN_MAX_FAILS_def guessing_def Let_def)
      then show ?thesis by blast
    next
      case False
      have "guessing b t r phone w (Suc n) (snd (login sign pw_ok t dto meta s))"
      proof (cases "findByCredential (lgd_phone dto) (lgd_email dto) s")
        case None
        then show ?thesis using given look c pu once False rows key
          by (auto simp: login_def LOGIN_MAX_FAILS_def guessing_def Let_def user_failed_def)
      next
        case (Some l)
        with found_phone [OF pu True] have l: "l = r" "lgd_phone dto = Some phone" by blast+
        from wrong [OF l(2)] show ?thesis using given look c pu once False rows key Some l
          by (auto simp: login_def LOGIN_MAX_FAILS_def guessing_def Let_def user_failed_def)
      qed
      then show ?thesis by blast
    qed
  next
    case False
    then have key: "user_lock_key dto \<noteq> guess_key phone" by (simp add: user_lock_key_def guess_key_def)
    have "guessing b t r phone w n (snd (login sign pw_ok t dto meta s))"
    proof (cases "findByCredential (lgd_phone dto) (lgd_email dto) s")
      case None
      then show ?thesis using given look pu n rows logins.in_period_other [OF f key] f
        by (auto simp: login_def guessing_def Let_def user_failed_def)
    next
      case (Some l)
      then show ?thesis using given look pu n rows logins.in_period_other [OF f key] f found_other [OF pu False Some]
        by (auto simp: login_def guessing_def Let_def user_failed_def)
    qed
    then show ?thesis by blast
  qed
qed

lemma guesses_run:
  assumes "guessing b t r phone w n s" and "b \<le> t"
    and "sorted_wrt (\<le>) (t # map fst rs)" and "\<forall>(u, dto, meta) \<in> set rs. u < b + LOGIN_LOCK_TTL_MS \<and>
      (lgd_phone dto = Some phone \<longrightarrow> \<not> pw_ok (lgd_password dto) (lgn_password r))"
  shows "\<exists>n t'. guessing b t' r phone w n (logins_run sign pw_ok rs s)"
  using assms
proof (induction rs arbitrary: s t n)
  case (Cons x rs)
  obtain u dto meta where x: "x = (u, dto, meta)" by (cases x)
  have u: "t \<le> u" "u < b + LOGIN_LOCK_TTL_MS" using Cons.prems x by auto
  have "guessing b u r phone w n s"
    using Cons.prems(1) logins.in_period_later [OF _ u] by (simp add: guessing_def)
  from guess_step [OF this, of dto pw_ok sign meta] obtain n' where
    n': "guessing b u r phone w n' (snd (login sign pw_ok u dto meta s))" using Cons.prems u x by auto
  show ?case using Cons.IH [OF n'] Cons.prems u x by auto
qed auto

text \<open>
  C35. Within one lock time of fifteen minutes that begins while the count of a telephone number is at 0, at most five logins
  compare a wrong password with the user's. This is stated for a user known by that number alone (no e-mail address
  of their own), whose number no other user has as telephone number or e-mail address, and for any sequence of logins, of
  whatever users and identifiers, in which no login by that number uses the right password: the owner's own success would
  start the count anew. Spans that reach over the end of a period admit the guesses of both periods.
\<close>

theorem at_most_five_guesses:
  assumes "phone_user r phone s" and "positive_counts (userFails s)"
    and "fst (getFailCount b (guess_key phone) (userFails s)) = 0" and "sorted_wrt (\<le>) (b # map fst rs)"
    and "\<forall>(u, dto, meta) \<in> set rs. u < b + LOGIN_LOCK_TTL_MS \<and>
      (lgd_phone dto = Some phone \<longrightarrow> \<not> pw_ok (lgd_password dto) (lgn_password r))"
  shows "wrong_rows (lgn_user r) (logins_run sign pw_ok rs s) \<le> wrong_rows (lgn_user r) s + 5"
proof -
  have "guessing b b r phone (wrong_rows (lgn_user r) s) 0 s"
    using assms(1-3) by (simp add: guessing_def logins.in_period_def)
  with guesses_run [OF _ order_refl assms(4), of r phone "wrong_rows (lgn_user r) s" 0 s pw_ok sign] assms(5)
  show ?thesis by (auto simp: guessing_def)
qed

subsection \<open>A namesake resets the count\<close>

definition by_phone :: "string \<Rightarrow> string \<Rightarrow> LoginDto" where
  "by_phone phone pw = \<lparr>lgd_phone = Some phone, lgd_email = None, lgd_password = pw\<rparr>"

definition by_email :: "string \<Rightarrow> string \<Rightarrow> LoginDto" where
  "by_email email pw = \<lparr>lgd_phone = None, lgd_email = Some email, lgd_password = pw\<rparr>"

lemma cleared_count [simp]: "fst (getFailCount t k (clearFailCount k f)) = 0"
  by (auto simp: fail_defs)

lemma later_fewer: "t \<le> u \<Longrightarrow> fst (getFailCount u k f) \<le> fst (getFailCount t k f)"
  by (auto simp: fail_defs split: option.splits)

lemma guess_round:
  assumes victim: "findUnique (\<lambda>l. lgn_phone l = Some phone) (userLogins s) = Some r" and phone: "phone \<noteq> []"
    and namesake: "findUnique (\<lambda>l. lgn_email l = Some phone) (userLogins s) = Some l"
    and wrong: "\<not> pw_ok guess (lgn_password r)" and own: "pw_ok own (lgn_password l)"
    and ok: "positive_counts (userFails s)" and none: "fst (getFailCount t (guess_key phone) (userFails s)) = 0"
    and later: "t \<le> t'" "t' \<le> u"
  shows "\<exists>s1. snd (login sign pw_ok t' (by_email phone own) meta (snd (login sign pw_ok t (by_phone phone guess) meta s))) = s1 \<and>
    userLogins s1 = userLogins s \<and> positive_counts (userFails s1) \<and>
    fst (getFailCount u (guess_key phone) (userFails s1)) = 0 \<and> wrong_rows (lgn_user r) s1 = wrong_rows (lgn_user r) s + 1"
proof -
  let ?k = "guess_key phone"
  obtain f where f: "getFailCount t ?k (userFails s) = (0, f)" using none by (metis prod.collapse)
  have okf: "positive_counts f" and nf: "fst (getFailCount t ?k f) = 0"
    using logins.kept(3) [OF ok, of t ?k] logins.looked(1) [of t t ?k ?k "userFails s"] f by simp_all
  have key: "user_lock_key (by_phone phone guess) = ?k" "user_lock_key (by_email phone own) = ?k"
    by (simp_all add: user_lock_key_def guess_key_def login_identifier_def by_phone_def by_email_def truthy_def phone)
  let ?s1 = "logged (Some (lgn_user r)) meta False UserWrong (s\<lparr>userFails := recordFailure t ?k f\<rparr>)"
  have one: "snd (login sign pw_ok t (by_phone phone guess) meta s) = ?s1"
    using key(1) f victim wrong phone
    by (simp add: login_def Let_def LOGIN_MAX_FAILS_def findByCredential_def by_phone_def truthy_def user_failed_def)
  have c1: "fst (getFailCount t ?k (recordFailure t ?k f)) = 1" using logins.counts [OF okf, of t ?k] nf by simp
  have few: "fst (getFailCount t' ?k (recordFailure t ?k f)) \<le> 1"
    using c1 later_fewer [OF later(1), of ?k "recordFailure t ?k f"] by simp
  obtain n g where g: "getFailCount t' ?k (recordFailure t ?k f) = (n, g)" by force
  have n: "n \<le> 1" using few g by simp
  have okg: "positive_counts g" using logins.kept(3) [OF logins.kept(1) [OF okf, of t ?k], of t' ?k] g by simp
  have two: "snd (login sign pw_ok t' (by_email phone own) meta ?s1) =
      logged (Some (lgn_user l)) meta True NoReason (?s1\<lparr>userFails := clearFailCount ?k g\<rparr>)"
    using key(2) g namesake own phone n
    by (simp add: login_def Let_def LOGIN_MAX_FAILS_def findByCredential_def by_email_def truthy_def)
  show ?thesis unfolding one two using logins.kept(2) [OF okg, of ?k] by simp
qed

text \<open>
  The requests of the attack: a guess by the victim's number, then a login of one's own, one request every quarter
  of a minute, all from one address. The throttle in front of the login admits five requests per address and minute; the
  strictest reading of that is that no sliding minute ending in a request has more than five of them.
\<close>

definition AUTH_THROTTLE_LIMIT :: nat where "AUTH_THROTTLE_LIMIT = 5"

definition AUTH_THROTTLE_TTL_MS :: int where "AUTH_THROTTLE_TTL_MS = 60 * 1000"

definition within_throttle :: "login_request list \<Rightarrow> bool" where
  "within_throttle rs = list_all (\<lambda>(t, dto, meta).
     length (filter (\<lambda>(u, dto', meta'). meta_ip meta' = meta_ip meta \<and> t - AUTH_THROTTLE_TTL_MS < u \<and> u \<le> t) rs)
       \<le> AUTH_THROTTLE_LIMIT) rs"

fun guess_requests :: "int \<Rightarrow> string \<Rightarrow> string \<Rightarrow> AuditMeta \<Rightarrow> string list \<Rightarrow> login_request list" where
  "guess_requests t phone own meta [] = []"
| "guess_requests t phone own meta (guess # gs) =
     (t, by_phone phone guess, meta) # (t + 15000, by_email phone own, meta) # guess_requests (t + 30000) phone own meta gs"

lemma guesses_counted:
  assumes "findUnique (\<lambda>l. lgn_phone l = Some phone) (userLogins s) = Some r" and "phone \<noteq> []"
    and "findUnique (\<lambda>l. lgn_email l = Some phone) (userLogins s) = Some l"
    and "\<forall>guess \<in> set guesses. \<not> pw_ok guess (lgn_password r)" and "pw_ok own (lgn_password l)"
    and "positive_counts (userFails s)" and "fst (getFailCount t (guess_key phone) (userFails s)) = 0"
  shows "wrong_rows (lgn_user r) (logins_run sign pw_ok (guess_requests t phone own meta guesses) s) =
      wrong_rows (lgn_user r) s + length guesses"
  using assms
proof (induction guesses arbitrary: s t)
  case (Cons guess gs)
  have guess: "\<not> pw_ok guess (lgn_password r)" using Cons.prems(4) by simp
  have "t \<le> t + 15000" "t + 15000 \<le> t + 30000" by simp_all
  from guess_round [OF Cons.prems(1-3) guess Cons.prems(5-7) this, of sign meta] obtain s1 where
    s1: "snd (login sign pw_ok (t + 15000) (by_email phone own) meta (snd (login sign pw_ok t (by_phone phone guess) meta s))) = s1"
    and kept: "userLogins s1 = userLogins s" "positive_counts (userFails s1)"
      "fst (getFailCount (t + 30000) (guess_key phone) (userFails s1)) = 0"
    and more: "wrong_rows (lgn_user r) s1 = wrong_rows (lgn_user r) s + 1" by blast
  have "wrong_rows (lgn_user r) (logins_run sign pw_ok (guess_requests (t + 30000) phone own meta gs) s1) =
      wrong_rows (lgn_user r) s1 + length gs"
    by (rule Cons.IH) (use Cons.prems kept in simp_all)
  then show ?case by (simp add: s1 more)
qed simp

lemma guess_requests_paced:
  "map fst (guess_requests t phone own meta gs) = map (\<lambda>i. t + 15000 * int i) [0..<2 * length gs]"
proof (induction gs arbitrary: t)
  case (Cons g gs)
  have "[0..<2 * Suc (length gs)] = 0 # Suc 0 # [2..<2 * length gs + 2]"
    using upt_conv_Cons [of 0 "2 * length gs + 2"] upt_conv_Cons [of "Suc 0" "2 * length gs + 2"]
    by (simp add: numeral_2_eq_2 del: upt_Suc)
  then have two: "[0..<2 * length (g # gs)] = 0 # Suc 0 # map (\<lambda>i. i + 2) [0..<2 * length gs]"
    by (simp only: map_add_upt list.size add_0_right add_Suc_right)
  show ?case unfolding two by (simp add: Cons.IH o_def algebra_simps)
qed simp

lemma guess_requests_meta: "(u, dto, m) \<in> set (guess_requests t phone own meta gs) \<Longrightarrow> m = meta"
  by (induction gs arbitrary: t) auto

lemma few_in_window:
  "length (filter (\<lambda>u. x - 60000 < u \<and> u \<le> x) (map (\<lambda>i. t + 15000 * int i) [0..<n])) \<le> 5"
proof -
  let ?P = "\<lambda>i. x - 60000 < t + 15000 * int i \<and> t + 15000 * int i \<le> x"
  let ?top = "nat ((x - t) div 15000)"
  have "{i. i < n \<and> ?P i} \<subseteq> {?top - 4..?top}" by auto
  then have "card {i. i < n \<and> ?P i} \<le> card {?top - 4..?top}" by (intro card_mono) auto
  also have "\<dots> \<le> 5" by simp
  finally have few: "card {i. i < n \<and> ?P i} \<le> 5" .
  have "{i. i < n \<and> x - 60000 < map (\<lambda>i. t + 15000 * int i) [0..<n] ! i \<and> map (\<lambda>i. t + 15000 * int i) [0..<n] ! i \<le> x}
      = {i. i < n \<and> ?P i}" by auto
  with few show ?thesis by (simp add: length_filter_conv_card)
qed

lemma guess_requests_admitted: "within_throttle (guess_requests t phone own meta gs)"
proof -
  let ?rs = "guess_requests t phone own meta gs"
  have "length (filter (\<lambda>(u, dto', meta'). meta_ip meta' = meta_ip m \<and> x - 60000 < u \<and> u \<le> x) ?rs) \<le> 5" for x and m :: AuditMeta
  proof -
    have "length (filter (\<lambda>(u, dto', meta'). meta_ip meta' = meta_ip m \<and> x - 60000 < u \<and> u \<le> x) ?rs) \<le>
        length (filter (\<lambda>r. x - 60000 < fst r \<and> fst r \<le> x) ?rs)"
      by (induction ?rs arbitrary: gs t) (auto simp: length_filter_conv_card intro!: card_mono)
    also have "\<dots> = length (filter (\<lambda>u. x - 60000 < u \<and> u \<le> x) (map fst ?rs))" by (simp add: filter_map o_def)
    also have "\<dots> \<le> 5" unfolding guess_requests_paced by (rule few_in_window)
    finally show ?thesis .
  qed
  then show ?thesis by (auto simp: within_throttle_def list_all_iff AUTH_THROTTLE_TTL_MS_def AUTH_THROTTLE_LIMIT_def)
qed

text \<open>
  C36. The limit of five guesses does not hold against somebody whose own account has the victim's telephone number as
  e-mail address, which the registration does not check: the two columns share one counter, so a login of one's
  own after every guess resets the victim's count. Every one of any number of wrong guesses is compared with the victim's
  password, at a pace of one guess in half a minute from a single address, which the request throttle of the login endpoint
  (five requests per address and minute) admits: the throttle sets the pace, the lock never comes.
\<close>

theorem namesake_guesses_freely:
  assumes "findUnique (\<lambda>l. lgn_phone l = Some phone) (userLogins s) = Some r" and "phone \<noteq> []"
    and "findUnique (\<lambda>l. lgn_email l = Some phone) (userLogins s) = Some l"
    and "\<forall>guess \<in> set guesses. \<not> pw_ok guess (lgn_password r)" and "pw_ok own (lgn_password l)"
    and "positive_counts (userFails s)" and "fst (getFailCount t (guess_key phone) (userFails s)) = 0"
  shows "within_throttle (guess_requests t phone own meta guesses) \<and>
    wrong_rows (lgn_user r) (logins_run sign pw_ok (guess_requests t phone own meta guesses) s) =
      wrong_rows (lgn_user r) s + length guesses"
  using guess_requests_admitted guesses_counted [OF assms] by blast

subsection \<open>Tokens\<close>

lemma login_token:
  assumes "login sign pw_ok t dto meta s = (Inr a, s')"
  shows "ar_token a = sign \<lparr>tok_sub = ar_id a, tok_typ = Some JWT_TOKEN_TYPE_USER, tok_role = None\<rparr>"
  using assms by (auto simp: login_def Let_def user_failed_def signToken_def split: prod.splits if_splits option.splits)

lemma admin_login_token:
  assumes "admin_login sign pw_ok t name pw meta s = (Inr a, s')"
  obtains admin where "ar_token a = admin_token sign admin" and "ar_id a = adm_id admin"
  using assms by (auto simp: admin_login_def Let_def admin_failed_def split: prod.splits if_splits option.splits)

text \<open>
  Neither kind of token opens the other side, even where both are signed with the same key: the guards look at the kind.
\<close>

lemma user_token_refused:
  assumes "login sign pw_ok t dto meta s = (Inr a, s')" and "\<And>c. verify (sign c) = Some c"
  shows "admin_jwt_guard verify (Some (''Bearer '' @ ar_token a)) s2 = Inl (Unauthorized AUTHENTICATION_FAILED)"
  using login_token [OF assms(1)] assms(2)
  by (simp add: admin_jwt_guard_def JWT_TOKEN_TYPE_USER_def JWT_TOKEN_TYPE_ADMIN_def)

lemma admin_token_refused:
  assumes "admin_login sign pw_ok t name pw meta s = (Inr a, s')" and "\<And>c. verify (sign c) = Some c"
  shows "\<exists>c. verify (ar_token a) = Some c \<and> jwt_validate c s2 = Inl (Unauthorized AUTH_FAILED)"
proof -
  obtain admin where "ar_token a = admin_token sign admin" using admin_login_token [OF assms(1)] .
  then show ?thesis
    by (intro exI conjI, simp add: admin_token_def assms(2))
      (simp add: jwt_validate_def JWT_TOKEN_TYPE_USER_def JWT_TOKEN_TYPE_ADMIN_def)
qed

subsection \<open>Taking over the administration\<close>

definition reset_entry :: "AdminUser \<Rightarrow> AdminCurrentUser \<Rightarrow> AuditMeta \<Rightarrow> AuditParams" where
  "reset_entry a agent meta = \<lparr>ap_admin = cur_sub agent, ap_action = ''ADMIN_PASSWORD_RESET'', ap_target = Some (adm_id a),
     ap_detail = Some (username_detail a), ap_ip = meta_ip meta, ap_userAgent = meta_userAgent meta\<rparr>"

lemma reset_runs:
  assumes "find_admin i s = Some a" and "cur_role agent = CUSTOMER_SERVICE" and "adm_id a = i"
    and "audit_log sha (row_place e) (uuid e 0) (now e) (reset_entry a agent meta) (operationLogs s) = Inr logs"
  shows "reset_endpoint sha hash_pw e agent i pw meta s = (Inr (), s\<lparr>adminUsers :=
    updateRows (\<lambda>a. adm_id a = i) (\<lambda>a. a\<lparr>adm_password := hash_pw pw\<rparr>) (adminUsers s), operationLogs := logs\<rparr>)"
proof -
  have "endpoint [UserStatusChange] agent f s = f s" for f :: "office \<Rightarrow> (exn + unit) \<times> office"
    by (rule endpoint_allowed) (simp only: assms(2) who_may_manage, simp)
  then show ?thesis using assms
    by (simp add: reset_endpoint_def resetAdminPassword_def set_password_def change_admin_def audited_def office_tx_def
        updateOne_def find_admin_def reset_entry_def andThen_def)
qed

text \<open>
  C37. An administrator with the role of customer service, whose permissions are to review identities and merchants and
  to change the status of users, can set the password of a super administrator and log in with it: the endpoint
  accepts the request, the login succeeds and the guard grants the rights of a super administrator.
\<close>

theorem agent_becomes_super_admin:
  assumes "cur_role agent = CUSTOMER_SERVICE" and "find_admin i (auth_office s) = Some boss" and "adm_role boss = SUPER_ADMIN"
    and "adm_status boss = AdminStatus.ACTIVE" and "distinct (map adm_id (adminUsers (auth_office s)))"
    and "distinct (map adm_username (adminUsers (auth_office s)))"
    and "audit_log sha (row_place e) (uuid e 0) (now e) (reset_entry boss agent meta) (operationLogs (auth_office s)) = Inr logs"
    and "fst (getFailCount t (admin_lock_key (adm_username boss)) (adminFails s)) < LOGIN_MAX_FAILS"
    and "pw_ok pw (hash_pw pw)" and "\<And>c. verify (sign c) = Some c"
  shows "\<exists>s1 a s2. reset_endpoint sha hash_pw e agent i pw meta (auth_office s) = (Inr (), s1) \<and>
    admin_login sign pw_ok t (adm_username boss) pw meta' (s\<lparr>auth_office := s1\<rparr>) = (Inr a, s2) \<and>
    admin_jwt_guard verify (Some (''Bearer '' @ ar_token a)) s2 = Inr \<lparr>cur_sub = i, cur_role = SUPER_ADMIN\<rparr>"
proof -
  let ?f = "\<lambda>a. a\<lparr>adm_password := hash_pw pw\<rparr>"
  let ?s1 = "(auth_office s)\<lparr>adminUsers := updateRows (\<lambda>a. adm_id a = i) ?f (adminUsers (auth_office s)), operationLogs := logs\<rparr>"
  have boss: "boss \<in> set (adminUsers (auth_office s))" "adm_id boss = i" using assms(2) by (auto simp: find_admin_def dest: findUnique_SomeD)
  note reset = reset_runs [OF assms(2,1) boss(2) assms(7), of hash_pw pw]
  have own: "findUnique (\<lambda>a. adm_username a = adm_username boss) (adminUsers (auth_office s)) = Some boss"
    by (rule findUnique_key_eq [OF assms(6) boss(1)]) simp
  have name: "findUnique (\<lambda>a. adm_username a = adm_username boss) (adminUsers ?s1) = Some (?f boss)"
    using own boss by (simp add: findUnique_updateRows)
  have found: "find_admin i ?s1 = Some (?f boss)"
    using assms(2) boss by (simp add: find_admin_def findUnique_updateRows)
  obtain n f where look: "getFailCount t (admin_lock_key (adm_username boss)) (adminFails s) = (n, f)" by force
  let ?s2 = "logged None meta' True AdminIn ((s\<lparr>auth_office := ?s1, adminFails :=
     clearFailCount (admin_lock_key (adm_username boss)) f\<rparr>))"
  have login: "admin_login sign pw_ok t (adm_username boss) pw meta' (s\<lparr>auth_office := ?s1\<rparr>) =
      (Inr \<lparr>ar_id = i, ar_token = admin_token sign (?f boss)\<rparr>, ?s2)"
    using look assms(8,9) name boss by (simp add: admin_login_def Let_def)
  have guard: "admin_jwt_guard verify (Some (''Bearer '' @ admin_token sign (?f boss))) ?s2 =
      Inr \<lparr>cur_sub = i, cur_role = SUPER_ADMIN\<rparr>"
    using found assms(3,4,10) boss
    by (simp add: admin_jwt_guard_def admin_token_def VALID_ROLES_def logged_def)
  from reset login guard show ?thesis by force
qed

subsection \<open>A registered user can log in\<close>

lemma registered_can_login:
  assumes reg: "register sign hash_pw e dto s = (Inr a, s')" and phone: "rgd_phone dto = Some phone" "phone \<noteq> []"
    and pw: "pw_ok (rgd_password dto) (hash_pw (rgd_password dto))"
    and few: "fst (getFailCount t (guess_key phone) (userFails s)) < LOGIN_MAX_FAILS"
  shows "\<exists>s2. login sign pw_ok t (by_phone phone (rgd_password dto)) meta s' = (Inr a, s2)"
proof -
  let ?l = "\<lparr>lgn_user = uuid e 0, lgn_phone = Some phone, lgn_email = rgd_email dto, lgn_password = hash_pw (rgd_password dto)\<rparr>"
  from reg have fresh: "\<forall>l \<in> set (userLogins s). \<not> login_conflict ?l l"
    and s': "userLogins s' = userLogins s @ [?l]" "userFails s' = userFails s"
    and a: "a = \<lparr>ar_id = uuid e 0, ar_token = signToken sign (uuid e 0)\<rparr>"
    by (auto simp: register_def create_user_def new_user_def phone with_office_db_def Let_def split: if_splits sum.splits)
  have "findUnique (\<lambda>l. lgn_phone l = Some phone) (userLogins s) = None"
    using fresh by (auto simp: findUnique_None login_conflict_def)
  then have found: "findUnique (\<lambda>l. lgn_phone l = Some phone) (userLogins s') = Some ?l"
    by (simp add: s'(1) findUnique_append)
  obtain n f where look: "getFailCount t (guess_key phone) (userFails s) = (n, f)" by force
  have key: "user_lock_key (by_phone phone pw) = guess_key phone" for pw
    by (simp add: user_lock_key_def guess_key_def login_identifier_def by_phone_def truthy_def phone)
  show ?thesis using found look few pw
    by (simp add: login_def Let_def key s'(2) a) (simp add: findByCredential_def by_phone_def truthy_def phone)
qed

subsection \<open>Concrete runs\<close>

text \<open>Tokens that can be read back: the lengths in unary before the texts.\<close>

definition enc :: "string \<Rightarrow> string" where "enc s = map (\<lambda>_. CHR ''1'') s @ ''0'' @ s"

definition dec :: "string \<Rightarrow> string \<times> string" where
  "dec x = (let n = length (takeWhile (\<lambda>c. c = CHR ''1'') x) in (take n (drop (Suc n) x), drop (n + Suc n) x))"

definition enc_option :: "string option \<Rightarrow> string" where
  "enc_option x = (case x of None \<Rightarrow> ''0'' | Some s \<Rightarrow> CHR ''1'' # enc s)"

definition dec_option :: "string \<Rightarrow> string option \<times> string" where
  "dec_option x = (if take 1 x = ''1'' then (case dec (drop 1 x) of (s, r) \<Rightarrow> (Some s, r)) else (None, drop 1 x))"

definition sample_sign :: "claims \<Rightarrow> string" where
  "sample_sign c = enc (tok_sub c) @ enc_option (tok_typ c) @ enc_option (tok_role c)"

definition sample_verify :: "string \<Rightarrow> claims option" where
  "sample_verify x = (case dec x of (sub, r) \<Rightarrow> case dec_option r of (typ, r') \<Rightarrow>
     Some \<lparr>tok_sub = sub, tok_typ = typ, tok_role = fst (dec_option r')\<rparr>)"

lemma dec_enc [simp]: "dec (enc s @ r) = (s, r)"
proof -
  have "takeWhile (\<lambda>c. c = CHR ''1'') (map (\<lambda>_. CHR ''1'') s @ CHR ''0'' # u) = map (\<lambda>_. CHR ''1'') s" for u
    by (induction s) simp_all
  then have "takeWhile (\<lambda>c. c = CHR ''1'') (enc s @ r) = map (\<lambda>_. CHR ''1'') s" by (simp add: enc_def)
  then show ?thesis by (simp add: dec_def enc_def)
qed

lemma dec_enc_option [simp]: "dec_option (enc_option x @ r) = (x, r)" "dec_option (enc_option x) = (x, [])"
  using dec_enc [of _ "[]"] by (cases x; simp add: dec_option_def enc_option_def)+

lemma sample_tokens: "sample_verify (sample_sign c) = Some c"
  by (simp add: sample_verify_def sample_sign_def)

definition no_fails :: fail_store where
  "no_fails = \<lparr>fs_enabled = True, fs_redis = (\<lambda>_. None), fs_memory = (\<lambda>_. None)\<rparr>"

definition sample_hash :: "string \<Rightarrow> string" where "sample_hash p = CHR ''h'' # p"

definition sample_compare :: "string \<Rightarrow> string \<Rightarrow> bool" where "sample_compare p h = (h = sample_hash p)"

definition sample_victim :: UserLogin where
  "sample_victim = \<lparr>lgn_user = ''v'', lgn_phone = Some ''1'', lgn_email = None, lgn_password = sample_hash ''secret''\<rparr>"

definition sample_admin :: "string \<Rightarrow> AdminRole \<Rightarrow> AdminUser" where
  "sample_admin i r = \<lparr>adm_id = i, adm_username = i, adm_password = sample_hash i, adm_nickname = None, adm_role = r,
     adm_status = AdminStatus.ACTIVE\<rparr>"

definition sample_auth :: auth where
  "sample_auth = \<lparr>auth_office = new_office\<lparr>adminUsers := [sample_admin ''r'' SUPER_ADMIN, sample_admin ''c'' CUSTOMER_SERVICE]\<rparr>,
     userLogins = [sample_victim], loginLogs = [], userFails = no_fails, adminFails = no_fails\<rparr>"

lemma no_fails_ok [simp]: "positive_counts no_fails" "fst (getFailCount t k no_fails) = 0"
  by (simp_all add: positive_counts_def no_fails_def getFailCount_def redis_count_def)

theorem at_most_five_guesses_witness:
  "wrong_rows ''v'' (logins_run sample_sign sample_compare (replicate 6 (7, by_phone ''1'' ''x'', no_meta)) sample_auth) = 5"
proof -
  let ?rs = "[(7, by_phone ''1'' ''x'', no_meta), (7, by_phone ''1'' ''x'', no_meta), (7, by_phone ''1'' ''x'', no_meta),
     (7, by_phone ''1'' ''x'', no_meta), (7, by_phone ''1'' ''x'', no_meta), (7, by_phone ''1'' ''x'', no_meta)]"
  have rs: "replicate 6 (7, by_phone ''1'' ''x'', no_meta) = ?rs" by (simp add: eval_nat_numeral)
  have victim: "phone_user sample_victim ''1'' sample_auth"
    by (simp add: phone_user_def sample_auth_def sample_victim_def)
  have none: "fst (getFailCount 0 (guess_key ''1'') (userFails sample_auth)) = 0" and ok: "positive_counts (userFails sample_auth)"
    by (simp_all add: sample_auth_def)
  have "wrong_rows (lgn_user sample_victim) (logins_run sample_sign sample_compare ?rs sample_auth) \<le>
      wrong_rows (lgn_user sample_victim) sample_auth + 5"
    by (rule at_most_five_guesses [OF victim ok none])
      (simp_all add: LOGIN_LOCK_TTL_MS_def by_phone_def sample_compare_def sample_victim_def sample_hash_def)
  then have "wrong_rows ''v'' (logins_run sample_sign sample_compare ?rs sample_auth) \<le> 5"
    by (simp add: sample_victim_def sample_auth_def wrong_rows_def)
  moreover have "5 \<le> wrong_rows ''v'' (logins_run sample_sign sample_compare ?rs sample_auth)" by code_simp
  ultimately show ?thesis unfolding rs by simp
qed

definition namesake_auth :: auth where
  "namesake_auth = snd (register sample_sign sample_hash office_env
     \<lparr>rgd_nickname = ''n'', rgd_phone = None, rgd_email = Some ''1'', rgd_password = ''mine''\<rparr> sample_auth)"

theorem namesake_guesses_freely_witness:
  "within_throttle (guess_requests 0 ''1'' ''mine'' no_meta (replicate 30 ''x'')) \<and>
    list_all (\<lambda>(t, dto, meta). t < LOGIN_LOCK_TTL_MS) (guess_requests 0 ''1'' ''mine'' no_meta (replicate 30 ''x'')) \<and>
    wrong_rows ''v'' (logins_run sample_sign sample_compare
      (guess_requests 0 ''1'' ''mine'' no_meta (replicate 30 ''x'')) namesake_auth) = 30"
proof -
  have logins: "userLogins namesake_auth = [sample_victim,
      \<lparr>lgn_user = ''a'', lgn_phone = None, lgn_email = Some ''1'', lgn_password = sample_hash ''mine''\<rparr>]" by code_simp
  have fails: "userFails namesake_auth = no_fails" and logs: "loginLogs namesake_auth = []"
    by (simp_all add: namesake_auth_def register_def truthy_def create_user_def Let_def sample_auth_def new_user_def
        office_env_def with_office_db_def login_conflict_def sample_victim_def split: sum.split)
  have victim: "findUnique (\<lambda>l. lgn_phone l = Some ''1'') (userLogins namesake_auth) = Some sample_victim"
    by (simp add: logins sample_victim_def)
  have namesake: "findUnique (\<lambda>l. lgn_email l = Some ''1'') (userLogins namesake_auth) =
      Some \<lparr>lgn_user = ''a'', lgn_phone = None, lgn_email = Some ''1'', lgn_password = sample_hash ''mine''\<rparr>"
    by (simp add: logins sample_victim_def)
  have run: "within_throttle (guess_requests 0 ''1'' ''mine'' no_meta (replicate 30 ''x'')) \<and>
    wrong_rows (lgn_user sample_victim) (logins_run sample_sign sample_compare
      (guess_requests 0 ''1'' ''mine'' no_meta (replicate 30 ''x'')) namesake_auth) =
     wrong_rows (lgn_user sample_victim) namesake_auth + length (replicate 30 ''x'')"
    by (rule namesake_guesses_freely [OF victim _ namesake])
      (simp_all add: fails sample_compare_def sample_victim_def sample_hash_def)
  have "list_all (\<lambda>(t, dto, meta). t < LOGIN_LOCK_TTL_MS) (guess_requests 0 ''1'' ''mine'' no_meta (replicate 30 ''x''))"
    by (simp add: eval_nat_numeral LOGIN_LOCK_TTL_MS_def)
  then show ?thesis using run by (simp add: sample_victim_def wrong_rows_def logs)
qed

definition sample_agent :: AdminCurrentUser where
  "sample_agent = \<lparr>cur_sub = ''c'', cur_role = CUSTOMER_SERVICE\<rparr>"

theorem agent_becomes_super_admin_witness:
  "\<exists>s1 a s2. reset_endpoint sample_sha sample_hash office_env sample_agent ''r'' ''mine'' no_meta (auth_office sample_auth) = (Inr (), s1) \<and>
    admin_login sample_sign sample_compare 7 ''r'' ''mine'' no_meta (sample_auth\<lparr>auth_office := s1\<rparr>) = (Inr a, s2) \<and>
    admin_jwt_guard sample_verify (Some (''Bearer '' @ ar_token a)) s2 = Inr \<lparr>cur_sub = ''r'', cur_role = SUPER_ADMIN\<rparr>"
proof -
  let ?r = "sample_admin ''r'' SUPER_ADMIN"
  obtain logs where log: "audit_log sample_sha (row_place office_env) (uuid office_env 0) (now office_env) (reset_entry ?r sample_agent no_meta)
      (operationLogs (auth_office sample_auth)) = Inr logs"
    by (simp add: audit_log_def create_def sample_auth_def new_office_def)
  have r: "find_admin ''r'' (auth_office sample_auth) = Some ?r" and ids: "distinct (map adm_id (adminUsers (auth_office sample_auth)))"
    and names: "distinct (map adm_username (adminUsers (auth_office sample_auth)))"
    by (simp_all add: find_admin_def sample_auth_def sample_admin_def)
  have one: "cur_role sample_agent = CUSTOMER_SERVICE" "adm_role ?r = SUPER_ADMIN" "adm_status ?r = AdminStatus.ACTIVE"
    "adm_username ?r = ''r''" "sample_compare ''mine'' (sample_hash ''mine'')"
    by (simp_all add: sample_agent_def sample_admin_def sample_compare_def)
  have few: "fst (getFailCount 7 (admin_lock_key (adm_username ?r)) (adminFails sample_auth)) < LOGIN_MAX_FAILS"
    by (simp add: sample_auth_def LOGIN_MAX_FAILS_def)
  have jwt: "\<And>c. sample_verify (sample_sign c) = Some c" by (rule sample_tokens)
  note run = agent_becomes_super_admin [of sample_agent "''r''" sample_auth ?r sample_sha office_env no_meta logs 7 sample_compare
      "''mine''" sample_hash sample_verify sample_sign no_meta]
  show ?thesis using run [OF one(1) r one(2,3) ids names log few one(5) jwt] by (simp only: one(4))
qed

end
