(* ===== verification/Masks.thy ===== *)
theory Masks
  imports Schema
begin

text \<open>
  How sensitive texts are shown (common/mask.ts, the \<open>mask\<close> of crypto/crypto.service.ts, the secrets of
  merchants/merchants.service.ts). An empty text is false in JavaScript.

  The lemmas: what a mask shows depends on the first and last few characters only.
\<close>

text \<open>\<open>s.slice(-n)\<close>; without a width it is the whole text, because \<open>-0\<close> is \<open>0\<close>.\<close>

definition slice_last :: "nat \<Rightarrow> string \<Rightarrow> string" where
  "slice_last n s = (if n = 0 then s else drop (length s - n) s)"

definition maskPhone :: "string \<Rightarrow> string" where
  "maskPhone phone = (if length phone \<le> 7 then ''****'' else take 3 phone @ ''****'' @ slice_last 4 phone)"

definition maskEmail :: "string \<Rightarrow> string" where
  "maskEmail email =
     (if email = [] then []
      else let localPart = takeWhile (\<lambda>c. c \<noteq> CHR ''@'') email
           in if localPart = [] \<or> localPart = email then ''****''
              else take 2 localPart @ ''***'' @ drop (length localPart) email)"

definition maskIdCard :: "string \<Rightarrow> string" where
  "maskIdCard idCard =
     (if length idCard \<le> 7 then ''****''
      else take 3 idCard @ replicate (length idCard - 7) CHR ''*'' @ slice_last 4 idCard)"

definition maskBankCard :: "string \<Rightarrow> string" where
  "maskBankCard bankCard = (if length bankCard \<le> 8 then ''****'' else take 4 bankCard @ ''****'' @ slice_last 4 bankCard)"

definition mask :: "string \<Rightarrow> nat \<Rightarrow> nat \<Rightarrow> string" where
  "mask x headKeep tailKeep =
     (if x = [] then []
      else if length x \<le> headKeep + tailKeep then ''****''
      else if headKeep = 4 \<and> tailKeep = 4 then maskBankCard x
      else take headKeep x @ ''****'' @ slice_last tailKeep x)"

definition maskSecret :: "string \<Rightarrow> string" where
  "maskSecret secret =
     (if secret = [] then [] else if length secret \<le> 8 then ''****'' else take 4 secret @ ''****'' @ slice_last 4 secret)"

text \<open>
  Two texts with the same first and last characters look the same; a mask of the default widths hides everything
  else and does not even show how much it hides.
\<close>

lemma mask_hides:
  assumes "length p = h" and "length q = t" and "m \<noteq> []" and "m' \<noteq> []" and "0 < t"
  shows "mask (p @ m @ q) h t = mask (p @ m' @ q) h t"
  using assms by (auto simp: mask_def maskBankCard_def slice_last_def)

lemma mask_is_default: "mask x 4 4 = (if x = [] then [] else maskBankCard x)"
  by (simp add: mask_def maskBankCard_def)

lemma maskSecret_is_mask: "maskSecret x = mask x 4 4"
  by (simp add: maskSecret_def mask_def maskBankCard_def)

lemma maskIdCard_length: "7 < length x \<Longrightarrow> length (maskIdCard x) = length x"
  by (simp add: maskIdCard_def slice_last_def)

lemma maskIdCard_hides:
  assumes "length p = 3" and "length q = 4" and "m \<noteq> []" and "length m = length m'"
  shows "maskIdCard (p @ m @ q) = maskIdCard (p @ m' @ q)"
  using assms by (simp add: maskIdCard_def slice_last_def)

end
