(* ===== verification/Merchants.thy ===== *)
theory Merchants
  imports AdminUsers QrCodes Cashier Calendar Masks
begin

text \<open>
  Merchants (merchants/merchants.service.ts, and the two endpoints of admin/admin.controller.ts over them):
  applying, changing the application, the review, rates and limits, applications with their
  secrets, and the codes of a merchant. Names and other texts nothing reads are left out; encryption and
  SHA-256 are parameters. An operation returns the row; the service shows it through \<open>formatMerchant\<close>.

  The lemmas: whatever merchants and administrators do, the rates stay in the range the cashier's
  arithmetic needs; a rejected merchant never leaves that status.
\<close>

subsection \<open>The application\<close>

record MerchantView =
  mv_merchant :: Merchant
  mv_dailyLimitYuan :: string

text \<open>\<open>decrypt\<close> is \<open>None\<close> where the crypto library throws.\<close>

definition maskSettleAccount :: "(string \<Rightarrow> string option) \<Rightarrow> string option \<Rightarrow> string option" where
  "maskSettleAccount decrypt a =
     (if \<not> truthy a then None
      else Some (case decrypt (the a) of Some plain \<Rightarrow> mask plain 4 4 | None \<Rightarrow> mask (the a) 4 4))"

definition formatMerchant :: "(string \<Rightarrow> string option) \<Rightarrow> Merchant \<Rightarrow> MerchantView" where
  "formatMerchant decrypt m =
     \<lparr>mv_merchant = m\<lparr>mch_settleAccount := maskSettleAccount decrypt (mch_settleAccount m)\<rparr>,
      mv_dailyLimitYuan = fenToYuan (mch_dailyLimit m)\<rparr>"

definition merchant_of_user :: "string \<Rightarrow> db \<Rightarrow> Merchant option" where
  "merchant_of_user u d = findUnique (\<lambda>m. mch_user m = u) (merchants d)"

definition merchant_conflict :: "Merchant \<Rightarrow> Merchant \<Rightarrow> bool" where
  "merchant_conflict r m = (mch_id r = mch_id m \<or> mch_user r = mch_user m \<or> mch_no r = mch_no m)"

definition generateMerchantNo :: "env \<Rightarrow> string" where
  "generateMerchantNo e = ''M'' @ show_nat (nat (now e)) @ nano e 0"

text \<open>\<open>dto.settleAccount ? encrypt(dto.settleAccount) : dto.settleAccount\<close>.\<close>

definition stored_account :: "(string \<Rightarrow> string) \<Rightarrow> string option \<Rightarrow> string option" where
  "stored_account encrypt a = (if truthy a then map_option encrypt a else a)"

record RegisterMerchantDto =
  rmd_type :: "MerchantType option"
  rmd_settleAccount :: "string option"

definition register_merchant ::
  "(string \<Rightarrow> string) \<Rightarrow> env \<Rightarrow> string \<Rightarrow> RegisterMerchantDto \<Rightarrow> db \<Rightarrow> exn + (Merchant \<times> db)" where
  "register_merchant encrypt e userId dto d =
     or_throw (find_user userId d) (NotFound USER_NOT_FOUND) (\<lambda>user.
       throw_if (usr_realName user \<noteq> RealNameStatus.VERIFIED) (Forbidden REAL_NAME_REQUIRED)
      (throw_if (merchant_of_user userId d \<noteq> None) (BadRequest MERCHANT_ALREADY_APPLIED)
        (let m = \<lparr>mch_id = uuid e 0, mch_user = userId, mch_no = generateMerchantNo e,
                  mch_type = (case rmd_type dto of None \<Rightarrow> MerchantType.PERSONAL | Some t \<Rightarrow> t),
                  mch_settleAccount = stored_account encrypt (rmd_settleAccount dto), mch_rejectReason = None,
                  mch_reviewedBy = None, mch_reviewedAt = None, mch_status = MerchantStatus.PENDING, mch_payRate = 60,
                  mch_withdrawRate = Some 60, mch_dailyLimit = DEFAULT_MERCHANT_DAILY_LIMIT_CENTS\<rparr>
         in bindE (create P2002 merchant_conflict m (merchants d)) (\<lambda>t. Inr (m, d\<lparr>merchants := t\<rparr>)))))"

definition getMyMerchant :: "string \<Rightarrow> db \<Rightarrow> exn + Merchant" where
  "getMyMerchant userId d = or_throw (merchant_of_user userId d) (NotFound MERCHANT_INFO_NOT_FOUND) Inr"

definition listMerchants ::
  "(string \<Rightarrow> string option) \<Rightarrow> MerchantStatus option \<Rightarrow> int option \<Rightarrow> int option \<Rightarrow> db \<Rightarrow> MerchantView PaginatedData" where
  "listMerchants decrypt status qpage qlimit d =
     (let p = listed (\<lambda>m. case status of None \<Rightarrow> True | Some x \<Rightarrow> mch_status m = x) rev qpage qlimit MAX_PAGE_SIZE (merchants d)
      in \<lparr>pd_data = map (formatMerchant decrypt) (pd_data p), pd_total = pd_total p, pd_page = pd_page p, pd_limit = pd_limit p\<rparr>)"

definition update_merchant :: "(Merchant \<Rightarrow> bool) \<Rightarrow> (Merchant \<Rightarrow> Merchant) \<Rightarrow> db \<Rightarrow> exn + (Merchant \<times> db)" where
  "update_merchant P f d =
     bindE (updateOne P2025 IntOutOfRange (\<lambda>_. True) P f (merchants d)) (\<lambda>(m, t).
       Inr (m, d\<lparr>merchants := t\<rparr>))"

definition updateMyMerchant :: "(string \<Rightarrow> string) \<Rightarrow> string \<Rightarrow> string option \<Rightarrow> db \<Rightarrow> exn + (Merchant \<times> db)" where
  "updateMyMerchant encrypt userId settleAccount d =
     or_throw (merchant_of_user userId d) (NotFound MERCHANT_INFO_NOT_FOUND) (\<lambda>m.
       throw_if (mch_status m \<noteq> MerchantStatus.PENDING \<and> mch_status m \<noteq> MerchantStatus.REJECTED)
         (BadRequest MERCHANT_NOT_MODIFIABLE)
         (update_merchant (\<lambda>m. mch_user m = userId)
           (\<lambda>m. m\<lparr>mch_settleAccount := over (stored_account encrypt settleAccount) (mch_settleAccount m)\<rparr>) d))"

subsection \<open>Review and configuration\<close>

definition auditMerchant ::
  "int \<Rightarrow> string \<Rightarrow> MerchantStatus \<Rightarrow> string option \<Rightarrow> string \<Rightarrow> db \<Rightarrow> exn + (Merchant \<times> db)" where
  "auditMerchant t i status rejectReason adminId d =
     or_throw (merchant_by_id i d) (NotFound MERCHANT_NOT_FOUND) (\<lambda>m.
       throw_if (mch_status m \<noteq> MerchantStatus.PENDING) (BadRequest MERCHANT_AUDIT_PENDING_ONLY)
      (throw_if (status = MerchantStatus.REJECTED \<and> \<not> truthy rejectReason) (BadRequest REJECT_REASON_REQUIRED)
        (let f = (\<lambda>m. m\<lparr>mch_rejectReason := (if status = MerchantStatus.REJECTED then rejectReason else None),
                        mch_reviewedBy := Some adminId, mch_reviewedAt := Some t, mch_status := status\<rparr>)
         in bindE (updateMany IntOutOfRange (\<lambda>_. True) (\<lambda>m. mch_id m = i \<and> mch_status m = MerchantStatus.PENDING) f (merchants d))
              (\<lambda>(count, ms). throw_if (count = 0) (BadRequest MERCHANT_AUDIT_PENDING_ONLY)
                 (Inr (f m, d\<lparr>merchants := ms\<rparr>))))))"

record MerchantConfigDto =
  mcd_payRate :: "jsnum option"
  mcd_withdrawRate :: "jsnum option"
  mcd_dailyLimit :: "jsnum option"

text \<open>\<open>rate < 0 || rate > RATE_DENOMINATOR\<close>; both are false for a number that is not one.\<close>

fun rate_invalid :: "jsnum \<Rightarrow> bool" where
  "rate_invalid (Num x) = (x < 0 \<or> of_int RATE_DENOMINATOR < x)"
| "rate_invalid NaN = False"
| "rate_invalid PosInf = True"
| "rate_invalid NegInf = True"

text \<open>What the client accepts for an integer column.\<close>

fun int_column :: "jsnum \<Rightarrow> exn + int" where
  "int_column (Num x) = (if of_int \<lfloor>x\<rfloor> = x \<and> int32 \<lfloor>x\<rfloor> then Inr \<lfloor>x\<rfloor> else Inl PrismaValidation)"
| "int_column _ = Inl PrismaValidation"

text \<open>Checks and conversions of a member that may be missing.\<close>

definition for_given :: "'a option \<Rightarrow> ('a \<Rightarrow> exn + 'b) \<Rightarrow> exn + 'b option" where
  "for_given x f = (case x of None \<Rightarrow> Inr None | Some a \<Rightarrow> bindE (f a) (\<lambda>b. Inr (Some b)))"

definition checked_rate :: "exn \<Rightarrow> jsnum \<Rightarrow> exn + jsnum" where
  "checked_rate err a = throw_if (rate_invalid a) err (Inr a)"

definition checked_limit :: "jsnum \<Rightarrow> exn + int" where
  "checked_limit a = bindE (fen a) (\<lambda>limit. throw_if (limit \<le> 0) (BadRequest MERCHANT_DAILY_LIMIT_INVALID) (Inr limit))"

definition limit_column :: "int \<Rightarrow> exn + int" where
  "limit_column n = throw_if (\<not> int32 n) PrismaValidation (Inr n)"

definition set_config :: "int option \<Rightarrow> int option \<Rightarrow> int option \<Rightarrow> Merchant \<Rightarrow> Merchant" where
  "set_config pr wr dl m =
     m\<lparr>mch_payRate := (case pr of None \<Rightarrow> mch_payRate m | Some x \<Rightarrow> x), mch_withdrawRate := over wr (mch_withdrawRate m),
       mch_dailyLimit := (case dl of None \<Rightarrow> mch_dailyLimit m | Some x \<Rightarrow> x)\<rparr>"

definition updateMerchantConfig :: "string \<Rightarrow> MerchantConfigDto \<Rightarrow> db \<Rightarrow> exn + (Merchant \<times> db)" where
  "updateMerchantConfig i dto d =
     or_throw (merchant_by_id i d) (NotFound MERCHANT_NOT_FOUND) (\<lambda>_.
       bindE (for_given (mcd_payRate dto) (checked_rate (BadRequest MERCHANT_PAY_RATE_INVALID))) (\<lambda>payRate.
       bindE (for_given (mcd_withdrawRate dto) (checked_rate (BadRequest MERCHANT_WITHDRAW_RATE_INVALID))) (\<lambda>withdrawRate.
       bindE (for_given (mcd_dailyLimit dto) checked_limit) (\<lambda>limit.
         throw_if (payRate = None \<and> withdrawRate = None \<and> limit = None) (BadRequest MERCHANT_CONFIG_NO_CHANGE)
        (bindE (for_given payRate int_column) (\<lambda>pr.
         bindE (for_given withdrawRate int_column) (\<lambda>wr.
         bindE (for_given limit limit_column) (\<lambda>dl.
           update_merchant (\<lambda>m. mch_id m = i) (set_config pr wr dl) d))))))))"

subsection \<open>The endpoints of the review\<close>

text \<open>
  The entry of the audit log is written after the service has changed the merchant, in a transaction of its own: when it
  fails, the request fails and the change stays.
\<close>

definition then_logged ::
  "(string \<Rightarrow> string) \<Rightarrow> env \<Rightarrow> AdminCurrentUser \<Rightarrow> string \<Rightarrow> string \<Rightarrow> string \<Rightarrow> AuditMeta \<Rightarrow>
   (db \<Rightarrow> exn + ('a \<times> db)) \<Rightarrow> office \<Rightarrow> (exn + 'a) \<times> office" where
  "then_logged sha e admin action i detail meta f s =
     (case f (odb s) of
        Inl x \<Rightarrow> (Inl x, s)
      | Inr (r, d) \<Rightarrow> andThen (logAction sha e (cur_sub admin) action (Some i) (Some detail) meta (with_db d s))
          (\<lambda>_ s. (Inr r, s)))"

definition audit_merchant_endpoint ::
  "(string \<Rightarrow> string) \<Rightarrow> env \<Rightarrow> AdminCurrentUser \<Rightarrow> string \<Rightarrow> bool \<Rightarrow> string option \<Rightarrow> AuditMeta \<Rightarrow>
   office \<Rightarrow> (exn + Merchant) \<times> office" where
  "audit_merchant_endpoint sha e admin i approve reason meta =
     endpoint [MerchantAudit] admin (\<lambda>s.
       if \<not> approve \<and> \<not> truthy reason then (Inl (BadRequest REJECT_REASON_REQUIRED), s)
       else then_logged sha e admin ''MERCHANT_AUDIT'' i
         (json_object ((''action'', json_string (if approve then ''APPROVE'' else ''REJECT'')) # optional_member ''reason'' reason))
         meta (auditMerchant (now e) i (if approve then MerchantStatus.APPROVED else MerchantStatus.REJECTED) reason (cur_sub admin)) s)"

text \<open>\<open>dto_text\<close> is the body of the request as JSON.\<close>

definition merchant_config_endpoint ::
  "(string \<Rightarrow> string) \<Rightarrow> env \<Rightarrow> AdminCurrentUser \<Rightarrow> string \<Rightarrow> MerchantConfigDto \<Rightarrow> string \<Rightarrow> AuditMeta \<Rightarrow>
   office \<Rightarrow> (exn + Merchant) \<times> office" where
  "merchant_config_endpoint sha e admin i dto dto_text meta =
     endpoint [MerchantAudit] admin
       (then_logged sha e admin ''MERCHANT_CONFIG_UPDATE'' i dto_text meta (updateMerchantConfig i dto))"

subsection \<open>Applications\<close>

definition app_conflict :: "MerchantApp \<Rightarrow> MerchantApp \<Rightarrow> bool" where
  "app_conflict r a = (app_id r = app_id a \<or> app_appId r = app_appId a)"

definition generateAppId :: "env \<Rightarrow> string" where "generateAppId e = ''app_'' @ nano e 0"

definition generateAppSecret :: "env \<Rightarrow> nat \<Rightarrow> string" where "generateAppSecret e i = nano e i"

text \<open>The answer holds the secret once, the table its hash.\<close>

definition createApp ::
  "(string \<Rightarrow> string) \<Rightarrow> env \<Rightarrow> string \<Rightarrow> string \<Rightarrow> string option \<Rightarrow> db \<Rightarrow> exn + (MerchantApp \<times> db)" where
  "createApp sha e userId name callbackUrl d =
     or_throw (merchant_of_user userId d) (NotFound MERCHANT_INFO_NOT_FOUND) (\<lambda>m.
       throw_if (mch_status m \<noteq> MerchantStatus.APPROVED) (Forbidden MERCHANT_NOT_APPROVED)
        (let secret = generateAppSecret e 1;
             a = \<lparr>app_id = uuid e 0, app_appId = generateAppId e, app_merchant = mch_id m, app_secret = sha secret, app_name = name,
                  app_callbackUrl = callbackUrl, app_status = AppStatus.ACTIVE, app_createdAt = now e\<rparr>
         in bindE (create P2002 app_conflict a (merchantApps d)) (\<lambda>t.
              Inr (a\<lparr>app_secret := secret\<rparr>, d\<lparr>merchantApps := t\<rparr>))))"

definition listApps :: "string \<Rightarrow> db \<Rightarrow> exn + MerchantApp list" where
  "listApps userId d =
     or_throw (merchant_of_user userId d) (NotFound MERCHANT_INFO_NOT_FOUND) (\<lambda>m.
       Inr (map (\<lambda>a. a\<lparr>app_secret := maskSecret (app_secret a)\<rparr>)
              (rev (filter (\<lambda>a. app_merchant a = mch_id m) (merchantApps d)))))"

definition app_of :: "string \<Rightarrow> string \<Rightarrow> db \<Rightarrow> exn + MerchantApp" where
  "app_of userId appId d =
     or_throw (merchant_of_user userId d) (NotFound MERCHANT_INFO_NOT_FOUND) (\<lambda>m.
       or_throw (findUnique (\<lambda>a. app_appId a = appId \<and> app_merchant a = mch_id m) (merchantApps d))
         (NotFound MERCHANT_APP_NOT_FOUND) Inr)"

definition update_app :: "string \<Rightarrow> (MerchantApp \<Rightarrow> MerchantApp) \<Rightarrow> db \<Rightarrow> exn + (MerchantApp \<times> db)" where
  "update_app i f d =
     bindE (updateOne P2025 IntOutOfRange (\<lambda>_. True) (\<lambda>a. app_id a = i) f (merchantApps d)) (\<lambda>(a, t).
       Inr (a, d\<lparr>merchantApps := t\<rparr>))"

definition regenerateSecret ::
  "(string \<Rightarrow> string) \<Rightarrow> env \<Rightarrow> string \<Rightarrow> string \<Rightarrow> db \<Rightarrow> exn + (MerchantApp \<times> db)" where
  "regenerateSecret sha e userId appId d =
     bindE (app_of userId appId d) (\<lambda>a.
       bindE (update_app (app_id a) (\<lambda>a. a\<lparr>app_secret := sha (generateAppSecret e 0)\<rparr>) d) (\<lambda>(updated, d').
         Inr (updated\<lparr>app_secret := generateAppSecret e 0\<rparr>, d')))"

text \<open>\<open>trim\<close>: the white space among the characters of one byte.\<close>

definition is_blank :: "char \<Rightarrow> bool" where
  "is_blank c = (of_char c \<in> ({9, 10, 11, 12, 13, 32, 160} :: nat set))"

definition js_trim :: "string \<Rightarrow> string" where
  "js_trim s = rev (dropWhile is_blank (rev (dropWhile is_blank s)))"

definition updateApp ::
  "string \<Rightarrow> string \<Rightarrow> string option \<Rightarrow> string option \<Rightarrow> db \<Rightarrow> exn + (MerchantApp \<times> db)" where
  "updateApp userId appId name callbackUrl d =
     bindE (app_of userId appId d) (\<lambda>a.
       throw_if (name = None \<and> callbackUrl = None) (BadRequest MERCHANT_CONFIG_NO_CHANGE)
      (throw_if (name \<noteq> None \<and> js_trim (the name) = []) (BadRequest MERCHANT_APP_NAME_REQUIRED)
        (update_app (app_id a) (\<lambda>a. a\<lparr>app_name := (case name of None \<Rightarrow> app_name a | Some n \<Rightarrow> js_trim n),
           app_callbackUrl := (case callbackUrl of None \<Rightarrow> app_callbackUrl a | Some u \<Rightarrow> if u = [] then None else Some u)\<rparr>) d)))"

subsection \<open>Codes of a merchant\<close>

fun amount_missing :: "jsnum \<Rightarrow> bool" where
  "amount_missing (Num x) = (x \<le> 0)"
| "amount_missing NaN = True"
| "amount_missing PosInf = False"
| "amount_missing NegInf = True"

definition createMerchantCode ::
  "env \<Rightarrow> string \<Rightarrow> jsnum \<Rightarrow> string option \<Rightarrow> db \<Rightarrow> exn + (QrCode \<times> db)" where
  "createMerchantCode e userId amount remark d =
     or_throw (merchant_of_user userId d) (NotFound MERCHANT_INFO_NOT_FOUND) (\<lambda>m.
       throw_if (mch_status m \<noteq> MerchantStatus.APPROVED) (Forbidden MERCHANT_NOT_APPROVED)
      (throw_if (amount_missing amount) (BadRequest INVALID_PARAMETER)
        (bindE (fen amount) (\<lambda>n.
          let q = \<lparr>qr_id = uuid e 0, qr_code = generateQrCode e, qr_user = userId, qr_merchant = Some (mch_id m),
                   qr_type = QrCodeType.MERCHANT, qr_amount = Some n, qr_remark = remark, qr_status = QrCodeStatus.ACTIVE\<rparr>
          in throw_if (\<not> int32 n) PrismaValidation
            (bindE (create P2002 qr_conflict q (qrCodes d)) (\<lambda>t. Inr (q, d\<lparr>qrCodes := t\<rparr>)))))))"

definition listMyQrCodes :: "string \<Rightarrow> db \<Rightarrow> exn + (QrCode \<times> string option) list" where
  "listMyQrCodes userId d =
     or_throw (merchant_of_user userId d) (NotFound MERCHANT_INFO_NOT_FOUND) (\<lambda>m.
       Inr (map (\<lambda>q. (q, case qr_amount q of None \<Rightarrow> None | Some n \<Rightarrow> if n = 0 then None else Some (fenToYuan n)))
              (rev (filter (\<lambda>q. qr_merchant q = Some (mch_id m) \<and> qr_type q = QrCodeType.MERCHANT) (qrCodes d)))))"

definition deleteQrCode :: "string \<Rightarrow> string \<Rightarrow> db \<Rightarrow> exn + (QrCode \<times> db)" where
  "deleteQrCode userId i d =
     or_throw (merchant_of_user userId d) (NotFound MERCHANT_INFO_NOT_FOUND) (\<lambda>m.
       or_throw (findUnique (\<lambda>q. qr_id q = i) (qrCodes d)) (NotFound QR_CODE_NOT_FOUND) (\<lambda>q.
         throw_if (qr_merchant q \<noteq> Some (mch_id m)) (Forbidden FORBIDDEN)
          (bindE (updateOne P2025 IntOutOfRange (\<lambda>_. True) (\<lambda>q. qr_id q = i) (\<lambda>q. q\<lparr>qr_status := QrCodeStatus.DISABLED\<rparr>) (qrCodes d))
            (\<lambda>(q', t). Inr (q', d\<lparr>qrCodes := t\<rparr>)))))"

subsection \<open>The dashboard\<close>

record OrderStats =
  os_count :: nat
  os_amount :: int
  os_fee :: int

definition paid_since :: "string \<Rightarrow> int \<Rightarrow> db \<Rightarrow> PaymentOrder list" where
  "paid_since m start d = filter (\<lambda>r. pay_merchant r = m \<and> pay_status r = PaymentOrderStatus.PAID \<and>
     (case pay_paidAt r of None \<Rightarrow> False | Some t \<Rightarrow> start \<le> t)) (paymentOrders d)"

definition aggregateStats :: "PaymentOrder list \<Rightarrow> OrderStats" where
  "aggregateStats rs = \<lparr>os_count = length rs, os_amount = sum_list (map pay_amount rs), os_fee = sum_list (map pay_fee rs)\<rparr>"

definition formatStats :: "OrderStats \<Rightarrow> nat \<times> string \<times> string \<times> string" where
  "formatStats x = (os_count x, fenToYuan (os_amount x), fenToYuan (os_fee x), fenToYuan (os_amount x - os_fee x))"

definition getDashboard :: "int \<Rightarrow> string \<Rightarrow> db \<Rightarrow> exn + (nat \<times> string \<times> string \<times> string) list" where
  "getDashboard t userId d =
     or_throw (merchant_of_user userId d) (NotFound MERCHANT_INFO_NOT_FOUND) (\<lambda>m.
       throw_if (mch_status m \<noteq> MerchantStatus.APPROVED) (Forbidden MERCHANT_NOT_APPROVED)
        (Inr (map (\<lambda>start. formatStats (aggregateStats (paid_since (mch_id m) start d)))
          [(t + SERVER_TZ_MS) div DAY_MS * DAY_MS - SERVER_TZ_MS, t - 7 * DAY_MS, t - 30 * DAY_MS])))"

subsection \<open>Whatever merchants and administrators do\<close>

inductive merchant_step :: "db \<Rightarrow> db \<Rightarrow> bool" where
  m_register: "register_merchant encrypt e u dto d = Inr (m, d') \<Longrightarrow> merchant_step d d'"
| m_update: "updateMyMerchant encrypt u a d = Inr (m, d') \<Longrightarrow> merchant_step d d'"
| m_audit: "auditMerchant t i status reason admin d = Inr (m, d') \<Longrightarrow> merchant_step d d'"
| m_config: "updateMerchantConfig i cdto d = Inr (m, d') \<Longrightarrow> merchant_step d d'"
| m_app: "createApp sha e u name url d = Inr (a, d') \<Longrightarrow> merchant_step d d'"
| m_secret: "regenerateSecret sha e u appId d = Inr (a, d') \<Longrightarrow> merchant_step d d'"
| m_rename: "updateApp u appId newName newUrl d = Inr (a, d') \<Longrightarrow> merchant_step d d'"
| m_code: "createMerchantCode e u amount remark d = Inr (q, d') \<Longrightarrow> merchant_step d d'"
| m_delete: "deleteQrCode u i d = Inr (q, d') \<Longrightarrow> merchant_step d d'"

definition rates_ok :: "Merchant \<Rightarrow> bool" where
  "rates_ok m = (0 \<le> mch_payRate m \<and> mch_payRate m \<le> 10000 \<and> 0 < mch_dailyLimit m \<and>
     (case mch_withdrawRate m of None \<Rightarrow> True | Some r \<Rightarrow> 0 \<le> r \<and> r \<le> 10000))"

text \<open>What a change of a merchant's row may do.\<close>

definition harmless :: "(Merchant \<Rightarrow> bool) \<Rightarrow> (Merchant \<Rightarrow> Merchant) \<Rightarrow> bool" where
  "harmless P f = (\<forall>m. (rates_ok m \<longrightarrow> rates_ok (f m)) \<and> mch_id (f m) = mch_id m \<and> mch_user (f m) = mch_user m \<and>
     (P m \<longrightarrow> mch_status m = MerchantStatus.REJECTED \<longrightarrow> mch_status (f m) = MerchantStatus.REJECTED))"

definition merchants_moved :: "db \<Rightarrow> db \<Rightarrow> bool" where
  "merchants_moved d d' = (paymentOrders d' = paymentOrders d \<and>
     (merchants d' = merchants d \<or>
      (\<exists>m. create P2002 merchant_conflict m (merchants d) = Inr (merchants d') \<and> rates_ok m) \<or>
      (\<exists>P f. merchants d' = updateRows P f (merchants d) \<and> harmless P f)))"

lemma merchants_unmoved: "paymentOrders d' = paymentOrders d \<Longrightarrow> merchants d' = merchants d \<Longrightarrow> merchants_moved d d'"
  by (simp add: merchants_moved_def)

lemma update_merchant_moved:
  "update_merchant P f d = Inr (m, d') \<Longrightarrow> harmless P f \<Longrightarrow> merchants_moved d d'"
  by (auto simp: update_merchant_def merchants_moved_def)

lemma for_given_Inr:
  "for_given x f = Inr y \<longleftrightarrow> (case x of None \<Rightarrow> y = None | Some a \<Rightarrow> \<exists>b. f a = Inr b \<and> y = Some b)"
  by (auto simp: for_given_def split: option.split)

lemma rate_column:
  assumes "checked_rate err a = Inr b" and "int_column b = Inr r"
  shows "0 \<le> r \<and> r \<le> 10000"
proof (cases a)
  case (Num x)
  with assms have r: "r = \<lfloor>x\<rfloor>" "0 \<le> x" "x \<le> 10000"
    by (auto simp: checked_rate_def RATE_DENOMINATOR_def split: if_splits)
  show ?thesis using r(2) floor_mono [OF r(3)] by (simp add: r(1))
qed (use assms in \<open>auto simp: checked_rate_def\<close>)

lemma limit_positive: "checked_limit a = Inr n \<Longrightarrow> limit_column n = Inr l \<Longrightarrow> 0 < l"
  by (auto simp: checked_limit_def limit_column_def)

lemma config_harmless:
  assumes "\<And>r. pr = Some r \<Longrightarrow> 0 \<le> r \<and> r \<le> 10000" and "\<And>r. wr = Some r \<Longrightarrow> 0 \<le> r \<and> r \<le> 10000"
    and "\<And>l. dl = Some l \<Longrightarrow> 0 < l"
  shows "harmless P (set_config pr wr dl)"
  using assms by (cases pr; cases wr; cases dl) (simp_all add: harmless_def set_config_def rates_ok_def over_def)

lemma config_moved:
  assumes "updateMerchantConfig i dto d = Inr (m, d')"
  shows "merchants_moved d d'"
proof -
  from assms obtain payRate withdrawRate limit pr wr dl where
    c: "for_given (mcd_payRate dto) (checked_rate (BadRequest MERCHANT_PAY_RATE_INVALID)) = Inr payRate"
      "for_given (mcd_withdrawRate dto) (checked_rate (BadRequest MERCHANT_WITHDRAW_RATE_INVALID)) = Inr withdrawRate"
      "for_given (mcd_dailyLimit dto) checked_limit = Inr limit"
      "for_given payRate int_column = Inr pr" "for_given withdrawRate int_column = Inr wr" "for_given limit limit_column = Inr dl"
    and up: "update_merchant (\<lambda>m. mch_id m = i) (set_config pr wr dl) d = Inr (m, d')"
    by (auto simp: updateMerchantConfig_def)
  have "harmless (\<lambda>m. mch_id m = i) (set_config pr wr dl)"
    using c by (intro config_harmless) (auto simp: for_given_Inr dest: rate_column limit_positive split: option.splits)
  then show ?thesis by (rule update_merchant_moved [OF up])
qed

lemma merchant_step_moved: "merchant_step d d' \<Longrightarrow> merchants_moved d d'"
proof (induction rule: merchant_step.induct)
  case (m_register encrypt e u dto d m d')
  then show ?case by (auto simp: register_merchant_def merchants_moved_def Let_def rates_ok_def DEFAULT_MERCHANT_DAILY_LIMIT_CENTS_def)
next
  case (m_update encrypt u a d m d')
  then show ?case
    by (auto simp: updateMyMerchant_def harmless_def rates_ok_def intro!: update_merchant_moved)
next
  case (m_audit t i status reason admin d m d')
  then show ?case
    by (auto simp: auditMerchant_def merchants_moved_def harmless_def rates_ok_def Let_def intro!: exI)
next
  case (m_config i cdto d m d')
  then show ?case by (rule config_moved)
qed (auto intro!: merchants_unmoved simp: createApp_def regenerateSecret_def update_app_def updateApp_def createMerchantCode_def
    deleteQrCode_def Let_def)

interpretation merchant_ids: unique_index mch_id merchant_conflict
  by unfold_locales (simp add: merchant_conflict_def)

interpretation merchant_users: unique_index mch_user merchant_conflict
  by unfold_locales (simp add: merchant_conflict_def)

definition merchants_ok :: "db \<Rightarrow> bool" where
  "merchants_ok d = (distinct (map mch_id (merchants d)) \<and> distinct (map mch_user (merchants d)) \<and>
     list_all rates_ok (merchants d))"

lemma merchants_moved_ok:
  assumes "merchants_moved d d'" and "merchants_ok d"
  shows "merchants_ok d'"
  using assms(1) unfolding merchants_moved_def
proof (elim conjE disjE exE)
  assume "merchants d' = merchants d"
  then show ?thesis using assms(2) by (simp add: merchants_ok_def)
next
  fix m assume m: "create P2002 merchant_conflict m (merchants d) = Inr (merchants d')" "rates_ok m"
  then show ?thesis using assms(2) merchant_ids.create_distinct [OF m(1)] merchant_users.create_distinct [OF m(1)]
    by (auto simp: merchants_ok_def)
next
  fix P f assume u: "merchants d' = updateRows P f (merchants d)" and h: "harmless P f"
  have "map mch_id (merchants d') = map mch_id (merchants d)" "map mch_user (merchants d') = map mch_user (merchants d)"
    unfolding u using h by (simp_all add: map_updateRows_frame harmless_def)
  moreover have "list_all rates_ok (merchants d')"
    unfolding u using assms(2) h by (auto simp: list_all_iff set_updateRows harmless_def merchants_ok_def)
  ultimately show ?thesis using assms(2) by (simp add: merchants_ok_def)
qed

lemma merchant_steps_ok:
  "merchant_step\<^sup>*\<^sup>* d d' \<Longrightarrow> merchants_ok d \<Longrightarrow> merchants_ok d' \<and> paymentOrders d' = paymentOrders d"
proof (induction rule: rtranclp_induct)
  case (step d' d'')
  then show ?case using merchant_step_moved [OF step(2)] merchants_moved_ok [of d' d''] by (simp add: merchants_moved_def)
qed simp

text \<open>
  C38. Whatever applications, reviews and configurations of merchants follow one another, the rates stay between nothing
  and the whole amount, so that the fee the cashier computes in floating point for any order of any merchant is
  neither negative nor more than the amount paid: the condition the payments rest on is never lost.
\<close>

theorem merchant_fees_within_amount:
  assumes "merchant_step\<^sup>*\<^sup>* d d'" and "merchants_ok d" and "payments_ok d"
    and "r \<in> set (paymentOrders d')" and "m \<in> set (merchants d')"
  shows "payments_ok d' \<and> 0 \<le> payment_fee (pay_amount r) (mch_payRate m) \<and>
    payment_fee (pay_amount r) (mch_payRate m) \<le> pay_amount r"
proof -
  note ok = merchant_steps_ok [OF assms(1,2)]
  have pay: "payments_ok d'"
    using ok assms(3) by (auto simp: payments_ok_def merchants_ok_def rates_ok_def list_all_iff)
  then have "fee_inputs (pay_amount r) (mch_payRate m)"
    using assms(4,5) by (auto simp: payments_ok_def fee_inputs_def list_all_iff)
  then show ?thesis using pay payment_fee_bounds by blast
qed

definition rejected :: "string \<Rightarrow> string \<Rightarrow> db \<Rightarrow> bool" where
  "rejected i u d = (\<exists>m \<in> set (merchants d). mch_id m = i \<and> mch_user m = u \<and> mch_status m = MerchantStatus.REJECTED)"

lemma merchants_moved_rejected: "merchants_moved d d' \<Longrightarrow> rejected i u d \<Longrightarrow> rejected i u d'"
  unfolding merchants_moved_def
proof (elim conjE disjE exE)
  fix P f assume r: "rejected i u d" and u: "merchants d' = updateRows P f (merchants d)" and h: "harmless P f"
  from r obtain m where m: "m \<in> set (merchants d)" "mch_id m = i" "mch_user m = u" "mch_status m = MerchantStatus.REJECTED"
    by (auto simp: rejected_def)
  have "(if P m then f m else m) \<in> set (merchants d')" using m(1) by (auto simp: u set_updateRows)
  moreover have "mch_id (if P m then f m else m) = i \<and> mch_user (if P m then f m else m) = u \<and>
      mch_status (if P m then f m else m) = MerchantStatus.REJECTED"
    using h m by (auto simp: harmless_def)
  ultimately show ?thesis unfolding rejected_def by blast
qed (auto simp: rejected_def)

lemma merchant_steps_rejected: "merchant_step\<^sup>*\<^sup>* d d' \<Longrightarrow> rejected i u d \<Longrightarrow> rejected i u d'"
  by (induction rule: rtranclp_induct) (auto dest: merchant_step_moved merchants_moved_rejected)

text \<open>
  C39. A merchant that was rejected once stays rejected for good: although it may still change its
  application, no sequence of requests by merchants and administrators leads to another status, the review refuses it, a
  new application is refused, and so it can never have an application of its own.
\<close>

theorem rejected_merchant_is_stuck:
  assumes "merchant_step\<^sup>*\<^sup>* d d'" and "merchants_ok d" and "m \<in> set (merchants d)"
    and "mch_status m = MerchantStatus.REJECTED"
  shows "auditMerchant t (mch_id m) status reason admin d' = Inl (BadRequest MERCHANT_AUDIT_PENDING_ONLY) \<and>
    createApp sha e (mch_user m) name url d' = Inl (Forbidden MERCHANT_NOT_APPROVED) \<and>
    isl (register_merchant encrypt e (mch_user m) dto d')"
proof -
  have "rejected (mch_id m) (mch_user m) d" using assms(3,4) by (auto simp: rejected_def)
  from merchant_steps_rejected [OF assms(1) this] obtain m' where
    m': "m' \<in> set (merchants d')" "mch_id m' = mch_id m" "mch_user m' = mch_user m" "mch_status m' = MerchantStatus.REJECTED"
    by (auto simp: rejected_def)
  have ok: "merchants_ok d'" using merchant_steps_ok [OF assms(1,2)] by simp
  have "merchant_by_id (mch_id m) d' = Some m'"
    using findUnique_key_eq [of mch_id "merchants d'" m' "mch_id m"] ok m' by (simp add: merchants_ok_def merchant_by_id_def)
  moreover have "merchant_of_user (mch_user m) d' = Some m'"
    using findUnique_key_eq [of mch_user "merchants d'" m' "mch_user m"] ok m' by (simp add: merchants_ok_def merchant_of_user_def)
  ultimately show ?thesis using m'(4)
    by (simp add: auditMerchant_def createApp_def register_merchant_def or_throw_def throw_if_def split: option.split)
qed

subsection \<open>Concrete runs\<close>

definition shop_db :: db where "shop_db = wdb (shop_world PaymentOrderStatus.PENDING)"

definition full_rate :: MerchantConfigDto where
  "full_rate = \<lparr>mcd_payRate = Some (Num 10000), mcd_withdrawRate = None, mcd_dailyLimit = None\<rparr>"

definition dear_db :: db where "dear_db = snd (projr (updateMerchantConfig ''M1'' full_rate shop_db))"

theorem merchant_fees_within_amount_witness:
  "map mch_payRate (merchants dear_db) = [10000] \<and> 0 \<le> payment_fee 2000 10000 \<and> payment_fee 2000 10000 \<le> 2000"
proof -
  have "isl (updateMerchantConfig ''M1'' full_rate shop_db) = False" by code_simp
  then obtain m where "updateMerchantConfig ''M1'' full_rate shop_db = Inr (m, dear_db)"
    unfolding dear_db_def by (cases "updateMerchantConfig ''M1'' full_rate shop_db") auto
  then have step: "merchant_step\<^sup>*\<^sup>* shop_db dear_db" by (intro r_into_rtranclp m_config)
  have ok: "merchants_ok shop_db" and pay: "payments_ok shop_db"
    by (simp_all add: shop_db_def shop_payments_ok) (simp add: merchants_ok_def rates_ok_def shop_world_def sample_merchant_def sample_defs)
  have rates: "map mch_payRate (merchants dear_db) = [10000]" and rows: "map pay_amount (paymentOrders dear_db) = [2000]"
    by code_simp+
  obtain m where m: "m \<in> set (merchants dear_db)" "mch_payRate m = 10000" using rates by (auto simp: map_eq_Cons_conv)
  obtain r where r: "r \<in> set (paymentOrders dear_db)" "pay_amount r = 2000" using rows by (auto simp: map_eq_Cons_conv)
  from merchant_fees_within_amount [OF step ok pay r(1) m(1)] show ?thesis by (simp only: m r rates simp_thms)
qed

definition refused_merchant :: Merchant where
  "refused_merchant = sample_merchant\<lparr>mch_status := MerchantStatus.REJECTED\<rparr>"

definition refused_db :: db where "refused_db = empty_db\<lparr>merchants := [refused_merchant]\<rparr>"

definition corrected_db :: db where
  "corrected_db = snd (projr (updateMyMerchant (\<lambda>x. x) (mch_user refused_merchant) (Some ''new'') refused_db))"

theorem rejected_merchant_is_stuck_witness:
  "map mch_settleAccount (merchants corrected_db) = [Some ''new''] \<and>
   auditMerchant 5 (mch_id refused_merchant) MerchantStatus.APPROVED None ''r'' corrected_db =
     Inl (BadRequest MERCHANT_AUDIT_PENDING_ONLY)"
proof -
  have "isl (updateMyMerchant (\<lambda>x. x) (mch_user refused_merchant) (Some ''new'') refused_db) = False" by code_simp
  then obtain m where "updateMyMerchant (\<lambda>x. x) (mch_user refused_merchant) (Some ''new'') refused_db = Inr (m, corrected_db)"
    unfolding corrected_db_def by (cases "updateMyMerchant (\<lambda>x. x) (mch_user refused_merchant) (Some ''new'') refused_db") auto
  then have step: "merchant_step\<^sup>*\<^sup>* refused_db corrected_db" by (intro r_into_rtranclp m_update)
  have ok: "merchants_ok refused_db"
    by (simp add: merchants_ok_def refused_db_def refused_merchant_def rates_ok_def sample_merchant_def)
  have m: "refused_merchant \<in> set (merchants refused_db)" "mch_status refused_merchant = MerchantStatus.REJECTED"
    by (simp_all add: refused_db_def refused_merchant_def)
  have new: "map mch_settleAccount (merchants corrected_db) = [Some ''new'']" by code_simp
  from rejected_merchant_is_stuck [OF step ok m, of 5 MerchantStatus.APPROVED None "''r''"] new show ?thesis by simp
qed

end
