(* ===== verification/BankCards.thy ===== *)
theory BankCards
  imports Masks Orders Samples
begin

text \<open>
  The bank cards of the users (bank-cards/bank-cards.service.ts): binding, listing, changing, unbinding, the default
  card. A card is recognised by the SHA-256 of its number; number and telephone are stored encrypted and shown
  masked. Encryption and SHA-256 are parameters; names and branches are only displayed and left out.

  The lemmas: no number is bound twice, a user has at most one default card and ten active ones; a card
  once unbound can never be bound again.
\<close>

datatype CardStatus = ACTIVE | DELETED

record BankCard =
  bc_id :: string
  bc_user :: string
  bc_number :: string
  bc_hash :: string
  bc_phone :: "string option"
  bc_phoneHash :: "string option"
  bc_type :: string
  bc_isDefault :: bool
  bc_status :: CardStatus

record BankCardDto =
  bcd_id :: string
  bcd_masked :: string
  bcd_last4 :: string
  bcd_phoneMasked :: "string option"
  bcd_type :: string
  bcd_isDefault :: bool
  bcd_status :: CardStatus

definition MAX_BANK_CARDS_PER_USER :: nat where "MAX_BANK_CARDS_PER_USER = 10"

text \<open>\<open>decrypt\<close> is \<open>None\<close> where the crypto library throws; only the telephone has a fallback.\<close>

definition card_dto :: "(string \<Rightarrow> string option) \<Rightarrow> BankCard \<Rightarrow> exn + BankCardDto" where
  "card_dto decrypt c =
     or_throw (decrypt (bc_number c)) (PlainError UNKNOWN_ERROR) (\<lambda>number.
       Inr \<lparr>bcd_id = bc_id c, bcd_masked = maskBankCard number, bcd_last4 = slice_last 4 number,
            bcd_phoneMasked = (if \<not> truthy (bc_phone c) then None
              else Some (maskPhone (case decrypt (the (bc_phone c)) of Some p \<Rightarrow> p | None \<Rightarrow> the (bc_phone c)))),
            bcd_type = bc_type c, bcd_isDefault = bc_isDefault c, bcd_status = bc_status c\<rparr>)"

definition card_conflict :: "BankCard \<Rightarrow> BankCard \<Rightarrow> bool" where
  "card_conflict r c = (bc_id r = bc_id c \<or> bc_hash r = bc_hash c)"

definition active_cards :: "string \<Rightarrow> BankCard list \<Rightarrow> BankCard list" where
  "active_cards u t = filter (\<lambda>c. bc_user c = u \<and> bc_status c = ACTIVE) t"

record CreateCardDto =
  ccd_cardNumber :: string
  ccd_phone :: "string option"
  ccd_cardType :: "string option"
  ccd_isDefault :: "bool option"

definition clear_defaults :: "(BankCard \<Rightarrow> bool) \<Rightarrow> string \<Rightarrow> BankCard list \<Rightarrow> BankCard list" where
  "clear_defaults P u t =
     updateRows (\<lambda>c. bc_user c = u \<and> bc_isDefault c \<and> P c) (\<lambda>c. c\<lparr>bc_isDefault := False\<rparr>) t"

definition new_card ::
  "(string \<Rightarrow> string) \<Rightarrow> (string \<Rightarrow> string) \<Rightarrow> string \<Rightarrow> string \<Rightarrow> CreateCardDto \<Rightarrow> nat \<Rightarrow> BankCard" where
  "new_card sha encrypt i userId dto count =
     \<lparr>bc_id = i, bc_user = userId, bc_number = encrypt (ccd_cardNumber dto), bc_hash = sha (ccd_cardNumber dto),
      bc_phone = (if truthy (ccd_phone dto) then map_option encrypt (ccd_phone dto) else None),
      bc_phoneHash = (if truthy (ccd_phone dto) then map_option sha (ccd_phone dto) else None),
      bc_type = (case ccd_cardType dto of None \<Rightarrow> ''DEBIT'' | Some t \<Rightarrow> t),
      bc_isDefault = (case ccd_isDefault dto of None \<Rightarrow> count = 0 | Some b \<Rightarrow> b), bc_status = ACTIVE\<rparr>"

definition bind_card ::
  "(string \<Rightarrow> string) \<Rightarrow> (string \<Rightarrow> string) \<Rightarrow> (string \<Rightarrow> string option) \<Rightarrow> env \<Rightarrow> string \<Rightarrow> CreateCardDto \<Rightarrow>
   BankCard list \<Rightarrow> exn + (BankCardDto \<times> BankCard list)" where
  "bind_card sha encrypt decrypt e userId dto t =
     (let count = length (active_cards userId t); c = new_card sha encrypt (uuid e 0) userId dto count
      in throw_if (MAX_BANK_CARDS_PER_USER \<le> count) (BadRequest BANKCARD_LIMIT_EXCEEDED)
        (throw_if (findUnique (\<lambda>c. bc_hash c = sha (ccd_cardNumber dto)) t \<noteq> None) (Conflict BANKCARD_ALREADY_BOUND)
          (bindE (create P2002 card_conflict c
                    (if ccd_isDefault dto = Some True then clear_defaults (\<lambda>_. True) userId t else t)) (\<lambda>t'.
             bindE (card_dto decrypt c) (\<lambda>r. Inr (r, t'))))))"

fun dtos :: "(string \<Rightarrow> string option) \<Rightarrow> BankCard list \<Rightarrow> exn + BankCardDto list" where
  "dtos decrypt [] = Inr []"
| "dtos decrypt (c # cs) = bindE (card_dto decrypt c) (\<lambda>r. bindE (dtos decrypt cs) (\<lambda>rs. Inr (r # rs)))"

text \<open>The default first, then the newest.\<close>

definition findByUser :: "(string \<Rightarrow> string option) \<Rightarrow> string \<Rightarrow> BankCard list \<Rightarrow> exn + BankCardDto list" where
  "findByUser decrypt u t =
     dtos decrypt (filter bc_isDefault (rev (active_cards u t)) @ filter (\<lambda>c. \<not> bc_isDefault c) (rev (active_cards u t)))"

definition card_by_id :: "string \<Rightarrow> BankCard list \<Rightarrow> BankCard option" where
  "card_by_id i t = findUnique (\<lambda>c. bc_id c = i) t"

definition own_card :: "string \<Rightarrow> string \<Rightarrow> BankCard list \<Rightarrow> exn + BankCard" where
  "own_card u i t =
     or_throw (card_by_id i t) (NotFound BANKCARD_NOT_FOUND) (\<lambda>c.
       throw_if (bc_user c \<noteq> u \<or> bc_status c \<noteq> ACTIVE) (NotFound BANKCARD_NOT_FOUND) (Inr c))"

definition findCard :: "(string \<Rightarrow> string option) \<Rightarrow> string \<Rightarrow> string \<Rightarrow> BankCard list \<Rightarrow> exn + BankCardDto" where
  "findCard decrypt u i t = bindE (own_card u i t) (card_dto decrypt)"

definition update_card ::
  "(string \<Rightarrow> string option) \<Rightarrow> string \<Rightarrow> string \<Rightarrow> string option \<Rightarrow> bool option \<Rightarrow> BankCard list \<Rightarrow>
   exn + (BankCardDto \<times> BankCard list)" where
  "update_card decrypt u i newType isDefault t =
     bindE (own_card u i t) (\<lambda>_.
       bindE (updateOne P2025 IntOutOfRange (\<lambda>_. True) (\<lambda>c. bc_id c = i)
                (\<lambda>c. c\<lparr>bc_type := (case newType of None \<Rightarrow> bc_type c | Some x \<Rightarrow> x),
                       bc_isDefault := (case isDefault of None \<Rightarrow> bc_isDefault c | Some b \<Rightarrow> b)\<rparr>)
                (if isDefault = Some True then clear_defaults (\<lambda>c. bc_id c \<noteq> i) u t else t)) (\<lambda>(c, t').
         bindE (card_dto decrypt c) (\<lambda>r. Inr (r, t'))))"

text \<open>\<open>findFirst\<close> by descending age: the last of the table.\<close>

definition newest_active :: "string \<Rightarrow> BankCard list \<Rightarrow> BankCard option" where
  "newest_active u t = findUnique (\<lambda>c. bc_user c = u \<and> bc_status c = ACTIVE) (rev t)"

definition remove_card :: "string \<Rightarrow> string \<Rightarrow> BankCard list \<Rightarrow> exn + BankCard list" where
  "remove_card u i t =
     or_throw (card_by_id i t) (NotFound BANKCARD_NOT_FOUND) (\<lambda>c.
       throw_if (bc_user c \<noteq> u) (NotFound BANKCARD_NOT_FOUND)
        (let t1 = updateRows (\<lambda>c. bc_id c = i) (\<lambda>c. c\<lparr>bc_isDefault := False, bc_status := DELETED\<rparr>) t
         in Inr (if bc_isDefault c then
                   (case newest_active u t1 of
                      None \<Rightarrow> t1
                    | Some next_card \<Rightarrow> updateRows (\<lambda>c. bc_id c = bc_id next_card) (\<lambda>c. c\<lparr>bc_isDefault := True\<rparr>) t1)
                 else t1)))"

definition findDefault ::
  "(string \<Rightarrow> string option) \<Rightarrow> string \<Rightarrow> BankCard list \<Rightarrow> exn + (BankCardDto \<times> string) option" where
  "findDefault decrypt u t =
     (case findUnique (\<lambda>c. bc_user c = u \<and> bc_status c = ACTIVE \<and> bc_isDefault c) t of
        None \<Rightarrow> Inr None
      | Some c \<Rightarrow> bindE (card_dto decrypt c) (\<lambda>r.
          or_throw (decrypt (bc_number c)) (PlainError UNKNOWN_ERROR) (\<lambda>number. Inr (Some (r, number)))))"

subsection \<open>Any sequence of these operations\<close>

inductive card_step :: "BankCard list \<Rightarrow> BankCard list \<Rightarrow> bool" where
  c_bind: "bind_card sha encrypt decrypt e u dto t = Inr (r, t') \<Longrightarrow> card_step t t'"
| c_update: "update_card decrypt u i newType isDefault t = Inr (r, t') \<Longrightarrow> card_step t t'"
| c_remove: "remove_card u i t = Inr t' \<Longrightarrow> card_step t t'"

definition defaults :: "string \<Rightarrow> BankCard list \<Rightarrow> BankCard list" where
  "defaults u t = filter (\<lambda>c. bc_user c = u \<and> bc_isDefault c) t"

text \<open>No identifier and no number twice; a default card is active, and a user has at most one; the limit of active cards.\<close>

definition cards_ok :: "BankCard list \<Rightarrow> bool" where
  "cards_ok t = (distinct (map bc_id t) \<and> distinct (map bc_hash t) \<and>
     (\<forall>c \<in> set t. bc_isDefault c \<longrightarrow> bc_status c = ACTIVE) \<and> (\<forall>u. length (defaults u t) \<le> 1) \<and>
     (\<forall>u. length (active_cards u t) \<le> MAX_BANK_CARDS_PER_USER))"

lemma cards_okD:
  assumes "cards_ok t"
  shows "distinct (map bc_id t)" and "distinct (map bc_hash t)" and "c \<in> set t \<Longrightarrow> bc_isDefault c \<Longrightarrow> bc_status c = ACTIVE"
    and "length (defaults u t) \<le> 1" and "length (active_cards u t) \<le> MAX_BANK_CARDS_PER_USER"
  using assms by (simp_all add: cards_ok_def)

interpretation card_ids: unique_index bc_id card_conflict
  by unfold_locales (simp add: card_conflict_def)

interpretation card_hashes: unique_index bc_hash card_conflict
  by unfold_locales (simp add: card_conflict_def)

lemma filter_updateRows_le:
  "(\<And>r. r \<in> set t \<Longrightarrow> P r \<Longrightarrow> Q (f r) \<Longrightarrow> Q r) \<Longrightarrow> length (filter Q (updateRows P f t)) \<le> length (filter Q t)"
  by (induction t) (auto simp: le_SucI)

text \<open>An update of rows that keeps keys and owners and makes nothing active.\<close>

definition card_frame :: "(BankCard \<Rightarrow> BankCard) \<Rightarrow> bool" where
  "card_frame f = (\<forall>c. bc_id (f c) = bc_id c \<and> bc_hash (f c) = bc_hash c \<and> bc_user (f c) = bc_user c \<and>
     (bc_status (f c) = ACTIVE \<longrightarrow> bc_status c = ACTIVE))"

lemma update_cards_ok:
  assumes t: "cards_ok t" and f: "card_frame f" and one: "\<And>u. length (defaults u (updateRows P f t)) \<le> 1"
    and act: "\<And>c. c \<in> set t \<Longrightarrow> P c \<Longrightarrow> bc_isDefault (f c) \<Longrightarrow> bc_status (f c) = ACTIVE"
  shows "cards_ok (updateRows P f t)"
proof -
  have keys: "map bc_id (updateRows P f t) = map bc_id t" "map bc_hash (updateRows P f t) = map bc_hash t"
    using f by (simp_all add: card_frame_def map_updateRows_frame)
  have "length (active_cards u (updateRows P f t)) \<le> length (active_cards u t)" for u
    unfolding active_cards_def by (rule filter_updateRows_le) (use f in \<open>auto simp: card_frame_def\<close>)
  then have lim: "length (active_cards u (updateRows P f t)) \<le> MAX_BANK_CARDS_PER_USER" for u
    using cards_okD(5) [OF t] by (rule order_trans)
  have "c \<in> set (updateRows P f t) \<Longrightarrow> bc_isDefault c \<Longrightarrow> bc_status c = ACTIVE" for c
    by (erule in_updateRowsE) (auto dest: act cards_okD(3) [OF t])
  then show ?thesis using cards_okD(1,2) [OF t] one lim by (simp add: cards_ok_def keys)
qed

text \<open>Taking the mark of a default away.\<close>

lemma unmark_ok:
  assumes "cards_ok t" and "card_frame f" and "\<And>c. bc_isDefault (f c) \<Longrightarrow> bc_isDefault c \<and> bc_status (f c) = bc_status c"
  shows "cards_ok (updateRows P f t)"
proof (rule update_cards_ok [OF assms(1,2)])
  fix u
  have "length (defaults u (updateRows P f t)) \<le> length (defaults u t)"
    unfolding defaults_def by (rule filter_updateRows_le) (use assms(2,3) in \<open>auto simp: card_frame_def\<close>)
  then show "length (defaults u (updateRows P f t)) \<le> 1" using cards_okD(4) [OF assms(1)] by (rule order_trans)
qed (use assms(3) in \<open>auto dest: cards_okD(3) [OF assms(1)]\<close>)

lemma one_key:
  assumes "distinct (map bc_id t)" and "\<And>c. c \<in> set t \<Longrightarrow> Q c \<Longrightarrow> bc_id c = i"
  shows "length (filter Q t) \<le> 1"
proof -
  have "distinct (map bc_id (filter Q t))" using assms(1) by (simp add: distinct_map_filter)
  then have "length (filter Q t) = card (set (map bc_id (filter Q t)))" by (metis distinct_card length_map)
  also have "\<dots> \<le> card {i}" by (rule card_mono) (use assms(2) in auto)
  finally show ?thesis by simp
qed

text \<open>Making an active card the default of a user without another one.\<close>

lemma mark_ok:
  assumes t: "cards_ok t" and c: "c \<in> set t" "bc_status c = ACTIVE" and f: "card_frame f"
    and st: "\<And>d. bc_status (f d) = bc_status d"
    and others: "\<And>d. d \<in> set t \<Longrightarrow> bc_user d = bc_user c \<Longrightarrow> bc_id d \<noteq> bc_id c \<Longrightarrow> \<not> bc_isDefault d"
  shows "cards_ok (updateRows (\<lambda>d. bc_id d = bc_id c) f t)"
proof (rule update_cards_ok [OF t f])
  have same: "d \<in> set t \<Longrightarrow> bc_id d = bc_id c \<Longrightarrow> d = c" for d
    using cards_okD(1) [OF t] c(1) by (auto simp: distinct_map inj_on_def)
  then show "d \<in> set t \<Longrightarrow> bc_id d = bc_id c \<Longrightarrow> bc_isDefault (f d) \<Longrightarrow> bc_status (f d) = ACTIVE" for d
    using c(2) st by metis
  fix u
  show "length (defaults u (updateRows (\<lambda>d. bc_id d = bc_id c) f t)) \<le> 1"
  proof (cases "u = bc_user c")
    case True
    have "distinct (map bc_id (updateRows (\<lambda>d. bc_id d = bc_id c) f t))"
      using cards_okD(1) [OF t] f by (simp add: card_frame_def map_updateRows_frame)
    then show ?thesis unfolding defaults_def
      by (rule one_key [where i = "bc_id c"]) (use f True others in \<open>auto simp: card_frame_def elim!: in_updateRowsE\<close>)
  next
    case False
    have "length (defaults u (updateRows (\<lambda>d. bc_id d = bc_id c) f t)) \<le> length (defaults u t)"
      unfolding defaults_def by (rule filter_updateRows_le) (use f False same in \<open>auto simp: card_frame_def\<close>)
    then show ?thesis using cards_okD(4) [OF t] by (rule order_trans)
  qed
qed

lemma clear_defaults_ok: "cards_ok t \<Longrightarrow> cards_ok (clear_defaults P u t)"
  unfolding clear_defaults_def by (erule unmark_ok) (auto simp: card_frame_def)

lemma clear_defaults_in:
  assumes "c \<in> set (clear_defaults P u t)" and "bc_user c = u" and "P c"
  shows "\<not> bc_isDefault c"
  using assms(1) unfolding clear_defaults_def by (rule in_updateRowsE) (use assms(2,3) in auto)

lemma active_clear: "length (active_cards v (clear_defaults P u t)) = length (active_cards v t)"
  by (induction t) (auto simp: active_cards_def clear_defaults_def)

lemma bind_cards_ok:
  assumes "bind_card sha encrypt decrypt e u dto t = Inr (r, t')" and "cards_ok t"
  shows "cards_ok t'"
proof -
  let ?c = "new_card sha encrypt (uuid e 0) u dto (length (active_cards u t))"
  let ?t1 = "if ccd_isDefault dto = Some True then clear_defaults (\<lambda>_. True) u t else t"
  from assms(1) have few: "length (active_cards u t) < MAX_BANK_CARDS_PER_USER"
    and new: "create P2002 card_conflict ?c ?t1 = Inr t'"
    by (auto simp: bind_card_def Let_def not_le)
  have t1: "cards_ok ?t1" using assms(2) by (simp add: clear_defaults_ok)
  have t': "t' = ?t1 @ [?c]" using new by (auto simp: create_def split: if_splits)
  have c: "bc_user ?c = u" "bc_status ?c = ACTIVE" by (simp_all add: new_card_def)
  have nodef: "\<not> bc_isDefault d" if "bc_isDefault ?c" "d \<in> set ?t1" "bc_user d = u" for d
  proof (cases "ccd_isDefault dto")
    case None
    with that(1) have "active_cards u t = []" by (simp add: new_card_def)
    then show ?thesis using that None cards_okD(3) [OF assms(2)] by (auto simp: active_cards_def filter_empty_conv)
  next
    case (Some b)
    with that show ?thesis by (auto simp: new_card_def dest: clear_defaults_in)
  qed
  have "length (defaults v t') \<le> 1" for v
  proof (cases "v = u \<and> bc_isDefault ?c")
    case True
    then have "defaults v ?t1 = []" using nodef by (auto simp: defaults_def filter_empty_conv)
    then show ?thesis unfolding t' by (simp add: defaults_def)
  next
    case False
    then have "defaults v t' = defaults v ?t1" unfolding t' using c(1) by (auto simp: defaults_def)
    then show ?thesis using cards_okD(4) [OF t1] by simp
  qed
  moreover have "length (active_cards v t') \<le> MAX_BANK_CARDS_PER_USER" for v
  proof -
    have "length (active_cards v ?t1) = length (active_cards v t)" by (simp add: active_clear)
    moreover have "length (active_cards v t') = length (active_cards v ?t1) + (if v = u then 1 else 0)"
      unfolding t' using c by (simp add: active_cards_def)
    ultimately show ?thesis using few cards_okD(5) [OF assms(2), of v] by auto
  qed
  moreover have "d \<in> set t' \<Longrightarrow> bc_isDefault d \<Longrightarrow> bc_status d = ACTIVE" for d
    unfolding t' using c(2) cards_okD(3) [OF t1] by (metis Un_iff empty_set list.simps(15) set_append singletonD)
  ultimately show ?thesis
    using card_ids.create_distinct [OF new cards_okD(1) [OF t1]] card_hashes.create_distinct [OF new cards_okD(2) [OF t1]]
    unfolding cards_ok_def by blast
qed

lemma own_cardD:
  "own_card u i t = Inr c \<Longrightarrow> c \<in> set t \<and> bc_id c = i \<and> bc_user c = u \<and> bc_status c = ACTIVE"
  by (auto simp: own_card_def card_by_id_def or_throw_def throw_if_def dest: findUnique_SomeD split: option.splits if_splits)

lemma change_cards_ok:
  assumes "update_card decrypt u i newType isDefault t = Inr (r, t')" and "cards_ok t"
  shows "cards_ok t'"
proof -
  let ?t1 = "if isDefault = Some True then clear_defaults (\<lambda>c. bc_id c \<noteq> i) u t else t"
  let ?f = "\<lambda>c. c\<lparr>bc_type := (case newType of None \<Rightarrow> bc_type c | Some x \<Rightarrow> x),
    bc_isDefault := (case isDefault of None \<Rightarrow> bc_isDefault c | Some b \<Rightarrow> b)\<rparr>"
  from assms(1) obtain c where own: "own_card u i t = Inr c" and t': "t' = updateRows (\<lambda>c. bc_id c = i) ?f ?t1"
    by (auto simp: update_card_def)
  note c = own_cardD [OF own]
  have t1: "cards_ok ?t1" using assms(2) by (simp add: clear_defaults_ok)
  have frame: "card_frame ?f" by (simp add: card_frame_def)
  show ?thesis
  proof (cases "isDefault = Some True")
    case True
    have "c \<in> set ?t1" using c True by (auto simp: clear_defaults_def set_updateRows intro!: rev_image_eqI)
    then have "cards_ok (updateRows (\<lambda>d. bc_id d = bc_id c) ?f ?t1)"
      by (rule mark_ok [OF t1 _ _ frame]) (use c True in \<open>auto dest: clear_defaults_in\<close>)
    then show ?thesis using c by (simp add: t')
  next
    case False
    then show ?thesis unfolding t' by (intro unmark_ok [OF t1 frame]) (auto split: option.splits)
  qed
qed

lemma two_defaults:
  assumes "cards_ok t" and "c \<noteq> d" and "c \<in> set (defaults u t)" and "d \<in> set (defaults u t)"
  shows False
proof -
  have "card {c, d} \<le> card (set (defaults u t))" by (rule card_mono) (use assms(3,4) in auto)
  then show False using assms(2) cards_okD(4) [OF assms(1), of u] card_length [of "defaults u t"] by simp
qed

lemma remove_cards_ok:
  assumes "remove_card u i t = Inr t'" and t: "cards_ok t"
  shows "cards_ok t'"
proof -
  let ?t1 = "updateRows (\<lambda>c. bc_id c = i) (\<lambda>c. c\<lparr>bc_isDefault := False, bc_status := DELETED\<rparr>) t"
  from assms(1) obtain c where found: "card_by_id i t = Some c"
    by (cases "card_by_id i t") (auto simp: remove_card_def)
  with assms(1) have u: "bc_user c = u"
    and t': "t' = (if bc_isDefault c then (case newest_active u ?t1 of None \<Rightarrow> ?t1
      | Some n \<Rightarrow> updateRows (\<lambda>c. bc_id c = bc_id n) (\<lambda>c. c\<lparr>bc_isDefault := True\<rparr>) ?t1) else ?t1)"
    by (simp_all add: remove_card_def Let_def)
  have c: "c \<in> set t" "bc_id c = i" "bc_user c = u"
    using findUnique_SomeD [OF found [unfolded card_by_id_def]] u by simp_all
  have t1: "cards_ok ?t1" by (rule unmark_ok [OF t]) (auto simp: card_frame_def)
  show ?thesis
  proof (cases "if bc_isDefault c then newest_active u ?t1 else None")
    case None
    then show ?thesis using t1 unfolding t' by (auto split: if_splits)
  next
    case (Some n)
    then have def_c: "bc_isDefault c" and new: "newest_active u ?t1 = Some n" by (auto split: if_splits)
    then have n: "n \<in> set ?t1" "bc_user n = u" "bc_status n = ACTIVE"
      by (auto simp: newest_active_def dest!: findUnique_SomeD)
    have "\<not> bc_isDefault d" if "d \<in> set ?t1" "bc_user d = u" for d
    proof
      assume d: "bc_isDefault d"
      have d': "d \<in> set t \<and> bc_id d \<noteq> i" using that(1) by (rule in_updateRowsE) (use d in auto)
      from d' c have "c \<noteq> d" by auto
      moreover have "c \<in> set (defaults u t)" "d \<in> set (defaults u t)"
        using c def_c d d' that(2) by (simp_all add: defaults_def)
      ultimately show False by (rule two_defaults [OF t])
    qed
    then have "cards_ok (updateRows (\<lambda>c. bc_id c = bc_id n) (\<lambda>c. c\<lparr>bc_isDefault := True\<rparr>) ?t1)"
      using n by (intro mark_ok [OF t1 n(1,3)]) (auto simp: card_frame_def)
    then show ?thesis unfolding t' by (simp add: def_c new)
  qed
qed

lemma card_step_ok: "card_step t t' \<Longrightarrow> cards_ok t \<Longrightarrow> cards_ok t'"
  by (induction rule: card_step.induct) (blast intro: bind_cards_ok change_cards_ok remove_cards_ok)+

text \<open>No step forgets the hash of a number.\<close>

lemma hashes_updateRows:
  "(\<And>c. bc_hash (f c) = bc_hash c) \<Longrightarrow> bc_hash ` set (updateRows P f t) = bc_hash ` set t"
  by (metis map_updateRows_frame set_map)

lemma card_step_hashes: "card_step t t' \<Longrightarrow> bc_hash ` set t \<subseteq> bc_hash ` set t'"
proof (induction rule: card_step.induct)
  case (c_bind sha encrypt decrypt e u dto t r t')
  then have "t' = (if ccd_isDefault dto = Some True then clear_defaults (\<lambda>_. True) u t else t) @
      [new_card sha encrypt (uuid e 0) u dto (length (active_cards u t))]"
    by (auto simp: bind_card_def Let_def create_def split: if_split_asm)
  then show ?case by (auto simp: clear_defaults_def image_Un hashes_updateRows)
next
  case (c_update decrypt u i newType isDefault t r t')
  then show ?case by (auto simp: update_card_def clear_defaults_def hashes_updateRows)
next
  case (c_remove u i t t')
  then show ?case
    by (auto simp: remove_card_def or_throw_def throw_if_def Let_def hashes_updateRows split: option.splits if_splits)
qed

lemma card_steps_ok: "card_step\<^sup>*\<^sup>* t t' \<Longrightarrow> cards_ok t \<Longrightarrow> cards_ok t'"
  by (induction rule: rtranclp_induct) (auto intro: card_step_ok)

lemma card_steps_hashes: "card_step\<^sup>*\<^sup>* t t' \<Longrightarrow> bc_hash ` set t \<subseteq> bc_hash ` set t'"
proof (induction rule: rtranclp_induct)
  case (step t' t'')
  show ?case using step(3) card_step_hashes [OF step(2)] by (rule order_trans)
qed simp

text \<open>A user whose default card goes has another one, unless no card is left.\<close>

lemma default_passes_on:
  assumes "remove_card u i t = Inr t'" and "card_by_id i t = Some c" and "bc_isDefault c" and "active_cards u t' \<noteq> []"
  shows "\<exists>d \<in> set t'. bc_user d = u \<and> bc_status d = ACTIVE \<and> bc_isDefault d"
proof -
  let ?t1 = "updateRows (\<lambda>c. bc_id c = i) (\<lambda>c. c\<lparr>bc_isDefault := False, bc_status := DELETED\<rparr>) t"
  have t': "t' = (case newest_active u ?t1 of None \<Rightarrow> ?t1
      | Some n \<Rightarrow> updateRows (\<lambda>c. bc_id c = bc_id n) (\<lambda>c. c\<lparr>bc_isDefault := True\<rparr>) ?t1)"
    using assms(1-3) by (simp add: remove_card_def Let_def throw_if_def split: if_splits)
  show ?thesis
  proof (cases "newest_active u ?t1")
    case None
    then have "t' = ?t1" by (simp add: t')
    with None assms(4) show ?thesis by (auto simp: newest_active_def findUnique_None active_cards_def filter_empty_conv)
  next
    case (Some n)
    then have n: "n \<in> set ?t1" "bc_user n = u" "bc_status n = ACTIVE"
      using findUnique_SomeD [OF Some [unfolded newest_active_def]] by auto
    have "n\<lparr>bc_isDefault := True\<rparr> \<in> set t'"
      unfolding t' Some option.case set_updateRows [of _ _ ?t1] using n(1) by (intro rev_image_eqI [of n]) simp_all
    then show ?thesis using n by (intro bexI [of _ "n\<lparr>bc_isDefault := True\<rparr>"]) simp_all
  qed
qed

text \<open>
  C40. Whatever the users bind, change and unbind in whatever order, no number is bound twice, a user never has more than
  ten active cards, never two default cards, and a default card is always an active one, so that a withdrawal
  to the default card has one target at most and none that was unbound.
\<close>

theorem bank_cards_ok:
  assumes "card_step\<^sup>*\<^sup>* t t'" and "cards_ok t"
  shows "distinct (map bc_hash t') \<and> length (active_cards u t') \<le> 10 \<and> length (defaults u t') \<le> 1 \<and>
    list_all (\<lambda>c. bc_status c = ACTIVE) (defaults u t')"
  using cards_okD [OF card_steps_ok [OF assms]]
  by (simp add: MAX_BANK_CARDS_PER_USER_def list_all_iff) (simp add: defaults_def)

text \<open>
  Unbinding keeps the row, and the check of a new card looks at unbound rows too: the number can never be bound
  again, by its owner or anybody else.
\<close>

theorem unbound_number_stays_taken:
  assumes "remove_card u i t = Inr t1" and "card_by_id i t = Some c" and "card_step\<^sup>*\<^sup>* t1 t'"
    and "sha (ccd_cardNumber dto) = bc_hash c"
  shows "bind_card sha encrypt decrypt e v dto t' \<in>
    {Inl (BadRequest BANKCARD_LIMIT_EXCEEDED), Inl (Conflict BANKCARD_ALREADY_BOUND)}"
proof -
  have "bc_hash c \<in> bc_hash ` set t" using findUnique_SomeD [OF assms(2) [unfolded card_by_id_def]] by simp
  then have "bc_hash c \<in> bc_hash ` set t'"
    using card_step_hashes [OF c_remove [OF assms(1)]] card_steps_hashes [OF assms(3)] by blast
  then have "findUnique (\<lambda>d. bc_hash d = sha (ccd_cardNumber dto)) t' \<noteq> None"
    by (auto simp: findUnique_None assms(4))
  then show ?thesis by (simp add: bind_card_def Let_def throw_if_def)
qed

subsection \<open>A concrete run\<close>

definition card_request :: "string \<Rightarrow> CreateCardDto" where
  "card_request n = \<lparr>ccd_cardNumber = n, ccd_phone = None, ccd_cardType = None, ccd_isDefault = Some True\<rparr>"

definition bind_sample :: "string \<Rightarrow> string \<Rightarrow> BankCard list \<Rightarrow> exn + (BankCardDto \<times> BankCard list)" where
  "bind_sample i n = bind_card (\<lambda>x. x) (\<lambda>x. x) Some (sample_env\<lparr>uuid := \<lambda>_. i\<rparr>) ''alice'' (card_request n)"

definition one_card :: "BankCard list" where "one_card = snd (projr (bind_sample ''B1'' ''6222000011112222'' []))"

definition two_cards :: "BankCard list" where "two_cards = snd (projr (bind_sample ''B2'' ''6222000011113333'' one_card))"

lemma bind_sample_step: "\<not> isl (bind_sample i n t) \<Longrightarrow> card_step t (snd (projr (bind_sample i n t)))"
  by (cases "bind_sample i n t") (auto simp: bind_sample_def intro: c_bind)

theorem bank_cards_ok_witness:
  "map bc_isDefault two_cards = [False, True] \<and> distinct (map bc_hash two_cards) \<and>
   length (active_cards ''alice'' two_cards) \<le> 10 \<and> length (defaults ''alice'' two_cards) \<le> 1 \<and>
   list_all (\<lambda>c. bc_status c = ACTIVE) (defaults ''alice'' two_cards)"
proof -
  have one: "\<not> isl (bind_sample ''B1'' ''6222000011112222'' [])" by code_simp
  have two: "\<not> isl (bind_sample ''B2'' ''6222000011113333'' one_card)" by code_simp
  have "card_step\<^sup>*\<^sup>* [] two_cards"
    using bind_sample_step [OF one] bind_sample_step [OF two]
    unfolding one_card_def [symmetric] two_cards_def [symmetric] by (rule converse_rtranclp_into_rtranclp [OF _ r_into_rtranclp])
  moreover have "cards_ok []" by (simp add: cards_ok_def defaults_def active_cards_def)
  moreover have "map bc_isDefault two_cards = [False, True]" by code_simp
  ultimately show ?thesis using bank_cards_ok [of "[]" two_cards "''alice''"] by blast
qed

end
