(* ===== verification/System.thy ===== *)
theory System
  imports Transfers Escrow RedPackets Withdrawals Recharge Cashier BatchRecovery SplitSafety SubscriptionSafety Coupons QrCodes Referrals
    OpenApiGuard ChannelRefunds Settlement Auth Merchants BankCards
begin

text \<open>
  The services whose operations keep the money invariant, as a transition system: a state is the world, a step is one request
  or one run of a scheduled job, with any parameters, any caller and any behaviour of the payment channels and the
  password hash. Batch transfers, channel refunds, the settlement, adjustments and referral rewards are not
  steps: they can break the invariant, and their own theories say how. A payment at the cashier presumes the rates and amounts the merchant tables admit,
  a refund the sums and payers of the paid orders (\<open>refunds_ok\<close>, kept by the requests about merchant orders),
  a split and a subscription request the sums and keys of their tables (\<open>splits_ok\<close>, \<open>subs_ok\<close>, which
  the requests of the two services keep).
  Requests are taken one at a time, which the locks and the conditional
  updates of the code are there to achieve.
\<close>

inductive step :: "world \<Rightarrow> world \<Rightarrow> bool" where
  s_transfer: "step w (snd (transfer pw_ok e u tdto w))"
| s_escrow_create: "step w (snd (escrow_create e u edto w))"
| s_escrow_pay: "step w (snd (escrow_pay pw_ok e u no pw w))"
| s_escrow_ship: "step w (snd (escrow_ship e u no w))"
| s_escrow_requestRefund: "step w (snd (escrow_requestRefund e u no reason w))"
| s_escrow_cancel: "step w (snd (escrow_cancel e u no w))"
| s_escrow_confirm: "step w (snd (escrow_confirm e u no w))"
| s_escrow_resolve: "step w (snd (escrow_resolveRefund e u no approve why w))"
| s_autoExpire: "step w (snd (autoExpire t w))"
| s_autoConfirm: "step w (snd (autoConfirm e w))"
| s_packet_create: "step w (snd (packet_create pw_ok e u rdto w))"
| s_packet_receive: "random_ok e \<Longrightarrow> step w (snd (packet_receive e u no pwo w))"
| s_packet_expire: "step w (snd (expireRedPackets e w))"
| s_withdrawal_create: "step w (snd (withdrawal_create pw_ok e u wdto w))"
| s_withdrawal_approve: "step w (snd (withdrawal_approve payout e i admin w))"
| s_withdrawal_reject: "step w (snd (withdrawal_reject e i admin w))"
| s_payout_callback: "step w (snd (handlePayoutCallback (parse :: string \<Rightarrow> string \<Rightarrow> exn + PayoutResult) e code body w))"
| s_recharge: "step w (snd (recharge pw_ok charge notifyUrl e u amount pw key w))"
| s_recharge_callback:
    "step w (snd (handleRechargeCallback (parse :: string \<Rightarrow> string \<Rightarrow> exn + RechargeCallbackResult) e code body w))"
| s_cashier_createOrder: "step w (snd (transaction (cashier_createOrder check e u cdto) w))"
| s_cashier_pay: "payments_ok (wdb w) \<Longrightarrow> step w (snd (cashier_pay pw_ok e u no pw w))"
| s_cashier_notify: "step w (snd (retryNotify check hmac post u no w))"
| s_cashier_close: "step w (closeExpiredOrders check hmac post t w)"
| s_split_create: "splits_ok (wdb w) \<Longrightarrow> step w (snd (createSplit e u sdto w))"
| s_split_recover: "splits_ok (wdb w) \<Longrightarrow> step w (snd (recoverStuckSplits e old w))"
| s_split_cancel: "splits_ok (wdb w) \<Longrightarrow> step w (snd (cancel_split e u no w))"
| s_subscription: "sub_request w w' \<Longrightarrow> subs_ok (wdb w) \<Longrightarrow> step w w'"
| s_coupon: "coupon_request w w' \<Longrightarrow> step w w'"
| s_code_pay: "step w (snd (code_pay pw_ok e u pdto w))"
| s_open_refund: "refunds_ok (wdb w) \<Longrightarrow> step w (snd (open_refund e app fdto w))"
| s_open_transfer: "step w (snd (open_transfer e app mdto w))"
| s_open_createOrder: "step w (snd (transaction (open_createOrder check base e app odto) w))"
| s_referral: "referral_request w w' \<Longrightarrow> step w w'"

lemma esc_ok_self: "money_ok d \<Longrightarrow> esc_ok (escrowOrders d) d"
  by (simp add: esc_ok_def)

lemma esc_keeps_money: "keeps (esc_ok t) m \<Longrightarrow> money_ok (wdb (snd m))"
  by (simp add: keeps_def esc_ok_def)

lemma step_money_ok:
  assumes "step w w'" and "money_ok (wdb w)"
  shows "money_ok (wdb w')"
proof -
  note esc = esc_ok_self [OF assms(2)]
  from assms(1) show ?thesis
  proof cases
    case s_transfer
    with transfer_money_ok [OF assms(2)] show ?thesis by (simp add: keeps_def)
  next
    case s_escrow_create
    with esc_keeps_money [OF keeps_escrow_create [OF esc]] show ?thesis by simp
  next
    case s_escrow_pay
    with esc_keeps_money [OF keeps_escrow_pay [OF esc]] show ?thesis by simp
  next
    case s_escrow_ship
    with esc_keeps_money [OF keeps_escrow_status(1) [OF esc]] show ?thesis by simp
  next
    case s_escrow_requestRefund
    with esc_keeps_money [OF keeps_escrow_status(2) [OF esc]] show ?thesis by simp
  next
    case s_escrow_cancel
    with esc_keeps_money [OF keeps_escrow_status(3) [OF esc]] show ?thesis by simp
  next
    case s_escrow_confirm
    with esc_keeps_money [OF keeps_escrow_confirm [OF esc]] show ?thesis by simp
  next
    case s_escrow_resolve
    with esc_keeps_money [OF keeps_escrow_resolve [OF esc]] show ?thesis by simp
  next
    case s_autoExpire
    with autoExpire_ok [OF esc] show ?thesis by (simp add: esc_ok_def)
  next
    case s_autoConfirm
    with autoConfirm_ok [OF esc] show ?thesis by (simp add: esc_ok_def)
  next
    case s_packet_create
    with keeps_packet_create [OF assms(2)] show ?thesis by (simp add: keeps_def)
  next
    case s_packet_receive
    with keeps_packet_receive [OF assms(2)] show ?thesis by (simp add: keeps_def)
  next
    case s_packet_expire
    with expireRedPackets_ok [OF assms(2)] show ?thesis by simp
  next
    case s_withdrawal_create
    with keeps_withdrawal_create [OF assms(2)] show ?thesis by (simp add: keeps_def)
  next
    case s_withdrawal_approve
    with keeps_withdrawal_approve [OF assms(2)] show ?thesis by (simp add: keeps_def)
  next
    case s_withdrawal_reject
    with keeps_withdrawal_reject [OF assms(2)] show ?thesis by (simp add: keeps_def)
  next
    case s_payout_callback
    with keeps_payout_callback [OF assms(2)] show ?thesis by (simp add: keeps_def)
  next
    case s_recharge
    with keeps_recharge [OF assms(2)] show ?thesis by (simp add: keeps_def)
  next
    case s_recharge_callback
    with keeps_recharge_callback [OF assms(2)] show ?thesis by (simp add: keeps_def)
  next
    case (s_cashier_createOrder check e u cdto)
    have "keeps money_ok (transaction (cashier_createOrder check e u cdto) w)"
      by (intro keep) (auto intro: cashier_createOrder_money_ok assms(2))
    with s_cashier_createOrder show ?thesis by (simp add: keeps_def)
  next
    case s_cashier_pay
    with cashier_pay_money_ok [OF assms(2)] show ?thesis by (simp add: keeps_def)
  next
    case s_cashier_notify
    with retryNotify_money_ok [OF assms(2)] show ?thesis by (simp add: keeps_def)
  next
    case s_cashier_close
    with closeExpiredOrders_money_ok [OF assms(2)] show ?thesis by simp
  next
    case s_split_create
    with createSplit_books [of w] assms(2) show ?thesis by (auto simp: keeps_def split_books_def)
  next
    case s_split_recover
    with recover_splits_books [of w] assms(2) show ?thesis by (auto simp: keeps_def split_books_def recoverStuckSplits_def)
  next
    case s_split_cancel
    with cancel_split_books [of w] assms(2) show ?thesis by (auto simp: keeps_def split_books_def)
  next
    case s_subscription
    with sub_request_books assms(2) show ?thesis by (auto simp: sub_books_def)
  next
    case s_coupon
    with books_kept_money_ok [OF coupon_request_kept] assms(2) show ?thesis by blast
  next
    case s_code_pay
    with code_pay_money_ok [OF assms(2)] show ?thesis by (simp add: keeps_def)
  next
    case s_open_refund
    with open_refund_money_ok [OF assms(2)] show ?thesis by (simp add: keeps_def)
  next
    case s_open_transfer
    with open_transfer_money_ok [OF assms(2)] show ?thesis by (simp add: keeps_def)
  next
    case (s_open_createOrder check base e app odto)
    have "keeps money_ok (transaction (open_createOrder check base e app odto) w)"
      by (intro keep) (auto intro: opened_money_ok open_createOrder_opened assms(2))
    with s_open_createOrder show ?thesis by (simp add: keeps_def)
  next
    case s_referral
    with books_kept_money_ok [OF referral_request_kept] assms(2) show ?thesis by blast
  qed
qed

lemma steps_money_ok: "step\<^sup>*\<^sup>* w w' \<Longrightarrow> money_ok (wdb w) \<Longrightarrow> money_ok (wdb w')"
  by (induction rule: rtranclp_induct) (auto intro: step_money_ok)

text \<open>The requests and jobs of the escrow service.\<close>

inductive escrow_request :: "world \<Rightarrow> world \<Rightarrow> bool" where
  "escrow_request w (snd (escrow_create e u edto w))"
| "escrow_request w (snd (escrow_pay pw_ok e u no pw w))"
| "escrow_request w (snd (escrow_ship e u no w))"
| "escrow_request w (snd (escrow_requestRefund e u no reason w))"
| "escrow_request w (snd (escrow_cancel e u no w))"
| "escrow_request w (snd (escrow_confirm e u no w))"
| "escrow_request w (snd (escrow_resolveRefund e u no approve why w))"
| "escrow_request w (snd (autoExpire t w))"
| "escrow_request w (snd (autoConfirm e w))"

lemma escrow_request_ok:
  assumes "escrow_request w w'" and "esc_ok t (wdb w)"
  shows "esc_ok t (wdb w')"
  using assms
  by cases (auto simp: keeps_def [symmetric] intro!: keeps_escrow_create keeps_escrow_pay keeps_escrow_status
      keeps_escrow_confirm keeps_escrow_resolve autoExpire_ok [folded keeps_def]
      autoConfirm_ok [folded keeps_def])

lemma escrow_requests_ok:
  "escrow_request\<^sup>*\<^sup>* w w' \<Longrightarrow> esc_ok t (wdb w) \<Longrightarrow> esc_ok t (wdb w')"
  by (induction rule: rtranclp_induct) (auto intro: escrow_request_ok)

text \<open>From a final status no step leads away.\<close>

definition escrow_final :: "EscrowStatus \<Rightarrow> bool" where
  "escrow_final s = (s \<in> {EscrowStatus.RECEIVED, EscrowStatus.REFUNDED, EscrowStatus.CANCELLED, EscrowStatus.EXPIRED})"

lemma escrow_final_stays: "escrow_next\<^sup>*\<^sup>* s t \<Longrightarrow> escrow_final s \<Longrightarrow> t = s"
  by (induction rule: rtranclp_induct) (auto simp: escrow_final_def escrow_next_iff)

lemma evolves_member:
  assumes "escrow_evolves t t'" and "r \<in> set t"
  shows "\<exists>r' \<in> set t'. row_evolves r r'"
proof -
  obtain u v where t': "t' = u @ v" and all: "list_all2 row_evolves t u"
    using assms(1) by (auto simp: escrow_evolves_def)
  from assms(2) obtain i where "i < length t" "t ! i = r" by (auto simp: in_set_conv_nth)
  with all show ?thesis by (auto simp: t' list_all2_conv_all_nth intro!: bexI [of _ "u ! i"])
qed

text \<open>A platform before its first order: empty accounts, no orders, platform accounts at zero.\<close>

definition fresh :: "db \<Rightarrow> bool" where
  "fresh d = (distinct (map acc_id (accounts d)) \<and> distinct (map acc_user (accounts d)) \<and>
     list_all (\<lambda>a. availableBalance a = 0 \<and> frozenBalance a = 0 \<and> totalBalance a = 0) (accounts d) \<and>
     escrowOrders d = [] \<and> redPackets d = [] \<and> withdrawalOrders d = [] \<and> transactionOrders d = [] \<and>
     journalEntries d = [] \<and> accountLedgers d = [] \<and>
     distinct (map pa_code (platformAccounts d)) \<and> list_all (\<lambda>p. pa_balance p = 0) (platformAccounts d))"

lemma fresh_money_ok:
  assumes "fresh d"
  shows "money_ok d"
proof -
  have zero: "sum_list (map g t) = (0 :: int)" if "list_all (\<lambda>a. g a = 0) t" for g :: "'a \<Rightarrow> int" and t
    using that by (induction t) auto
  have a: "\<forall>a \<in> set (accounts d). availableBalance a = 0 \<and> frozenBalance a = 0 \<and> totalBalance a = 0"
    using assms by (simp add: fresh_def list_all_iff)
  then have "total_assets (accounts d) = 0" and fr: "frozen_of u (accounts d) = 0" for u
    unfolding total_assets_def frozen_of_def by (intro zero; simp add: list_all_iff)+
  moreover have "platform_total d = 0" unfolding platform_total_def
    using assms by (intro zero) (simp add: fresh_def)
  ultimately have "backed d" "solvent d" using assms
    by (simp_all add: backed_def solvent_def fresh_def held_def esc_held_def rp_held_def wd_held_def in_transit_def)
  moreover have "books_ok d" using assms a
    by (auto simp: books_ok_def fresh_def accounts_ok_def list_all_iff wf_account_def acc_ok_def int32_def
        escrows_ok_def packets_ok_def withdrawals_ok_def journal_balance_def ledgers_ok_def orders_ok_def)
  ultimately show ?thesis by (simp add: money_ok_def)
qed

end
