(* ===== verification/Spec2Isabelle.thy ===== *)
theory Spec2Isabelle
  imports System
begin

text \<open>
  A verification library for the KeBaiPay payment platform (a NestJS service over PostgreSQL and Redis,
  \<open>src/src\<close>; table definitions in \<open>src/prisma/schema.prisma\<close>).

  \<^bold>\<open>The program.\<close> A user owns an account with an available and a frozen balance, kept in fen. Every
  movement of money is a database transaction that updates account balances with conditional updates,
  writes ledger lines and bills and, where money changes sides, balanced journal entries.
  Money moves by transfers, escrow orders, red packets, recharges through a payment channel, withdrawals
  paid out by a channel after a review, payments at the merchants' cashier and by QR code, batches of
  transfers, splits of one sum among several receivers, subscriptions, orders, refunds and transfers of
  merchants' applications over the signed open API, refunds of channel payments, rewards for referrals, the daily settlement
  of merchants, and adjustments by administrators. Coupons reduce what is paid.
  Redis locks and rate windows guard the requests, a risk engine decides what is let through, scheduled
  jobs expire, retry, confirm and recover, and administrators, whose operations go to a chained audit
  log, review identities, change users, rules and each other's accounts.

  \<^bold>\<open>Theories and the files they model\<close>, in import order (paths under \<open>src/src\<close>).
  \<^item> \<open>KbPrelude\<close>: the result type \<open>exn + 'a\<close>, requests as state transformers that return an outcome
    beside the new world, transactions that keep the state only on success, list and map lemmas.
  \<^item> \<open>JsNum\<close>: the JavaScript number (a rational rounded to 53 bits by \<open>fl\<close>), \<open>Math.round\<close>,
    \<open>yuanToFen\<close>, \<open>fenToYuan\<close> of \<open>common/helpers.ts\<close>.
  \<^item> \<open>Schema\<close>: the rows, enumerations and constants of \<open>prisma/schema.prisma\<close>, \<open>common/enums.ts\<close>,
    \<open>common/constants.ts\<close>, \<open>common/error-codes.ts\<close>, the record \<open>db\<close> of the tables and the record
    \<open>world\<close> of database, Redis and the caches of one process.
  \<^item> \<open>UrlSafety\<close>: \<open>isInternalIp\<close>, \<open>isCallbackUrlSafe\<close> of \<open>common/helpers.ts\<close>.
  \<^item> \<open>Balance\<close>: the conditional account updates every service uses, their effect on the total of
    all balances, the invariant \<open>accounts_ok\<close>. The locale \<open>balance_statement\<close> states what such an update
    promises; it is interpreted on each of the statements.
  \<^item> \<open>RedisLocks\<close>: \<open>redis/redis.service.ts\<close>, the locks and the sliding window.
  \<^item> \<open>Users\<close>: \<open>users/users.service.ts\<close>, payment passwords and payment limits.
  \<^item> \<open>Journal\<close>: \<open>finance/journal.service.ts\<close>. \<open>Risk\<close>: \<open>risk/risk-engine.service.ts\<close>.
  \<^item> \<open>Orders\<close>: the order helpers the services share. \<open>Holdings\<close>: the frozen money each table
    backs, the invariant \<open>money_ok\<close>. \<open>Samples\<close>: a concrete world for the witnesses.
  \<^item> \<open>Payments\<close>: what a payment from one user to another has in common; the locale \<open>payment_service\<close>,
    interpreted on the transfers and on the cashier.
  \<^item> \<open>Shifts\<close>: the calculus of balance changes (\<open>shifts\<close>) that composes the statements of one request.
  \<^item> \<open>Transfers\<close>, \<open>Escrow\<close>, \<open>RedPackets\<close>, \<open>Withdrawals\<close>, \<open>Recharge\<close> (\<open>transactions/\<close>), \<open>Cashier\<close>:
    the services and their schedules. \<open>Channels\<close>: \<open>payment-channels/payment-channel.registry.ts\<close>.
  \<^item> \<open>BatchTransfers\<close> the definitions of \<open>batch-transfers/\<close>, \<open>BatchSafety\<close> what a batch pays,
    \<open>BatchRecovery\<close> what the recovery job makes of an interrupted one.
  \<^item> \<open>ItemLoop\<close>: the loop over the items of one order as a locale, interpreted on the splits. \<open>Splits\<close>:
    \<open>splits/\<close>; \<open>SplitSafety\<close>: a split pays each receiver exactly once.
  \<^item> \<open>Calendar\<close>: dates, months and years as the runtime computes them. \<open>Subscriptions\<close>: \<open>subscriptions/\<close>;
    \<open>SubscriptionSafety\<close>: each cycle is charged once and no plan beyond its cycles.
  \<^item> \<open>Coupons\<close>, \<open>QrCodes\<close>, \<open>Referrals\<close>: \<open>coupons/\<close>, \<open>qr-codes/\<close>, \<open>referrals/\<close>.
  \<^item> \<open>OpenApi\<close>: \<open>open-api/open-api.service.ts\<close>; \<open>OpenApiSafety\<close>: what its refunds add up to;
    \<open>OpenApiGuard\<close>: \<open>open-api/open-api.guard.ts\<close>, signatures, time stamps and nonces.
  \<^item> \<open>ChannelRefunds\<close>: \<open>payment-channels/refund.service.ts\<close>. \<open>Settlement\<close>: \<open>notifications/settlement.*\<close>.
  \<^item> \<open>AuditTrail\<close>: \<open>audit/\<close>, the chained log with the JSON text of its entries.
  \<^item> \<open>Backoffice\<close>: \<open>admin/permissions.*\<close>, \<open>common/pagination.ts\<close>; the tables only administrators use are in the
    record \<open>office\<close> around a \<open>world\<close>. \<open>Identity\<close>: real-name verification in \<open>users/users.service.ts\<close>
    and \<open>admin/admin.service.ts\<close>, with a step relation of its own. \<open>Admin\<close>, \<open>AdminUsers\<close>: the rest of
    \<open>admin/admin.service.ts\<close> that changes state.
  \<^item> \<open>Auth\<close>: \<open>auth/\<close> and the administrators' login; the locale \<open>failure_counter\<close> is what both logins
    need of the store of failures.
  \<^item> \<open>Masks\<close>: \<open>common/mask.ts\<close>. \<open>Merchants\<close>: \<open>merchants/\<close> and its endpoints of \<open>admin/admin.controller.ts\<close>.
    \<open>BankCards\<close>: \<open>bank-cards/\<close>. Both with a step relation of their own.
  \<^item> \<open>System\<close>: the platform as a transition system, one step per request or job; the invariants by rule
    induction over its steps.

  \<^bold>\<open>What the lemmas show.\<close> For each service: the functional behaviour of its operations (how much each
  account, order row, ledger and journal gets), that every operation keeps the invariants \<open>money_ok\<close> (every
  balance non-negative, total = available + frozen, frozen = what the user's open orders hold) and the
  balance of the books, that a repeated request does not move money twice, and that a rejected
  request changes nothing. Where the code does not promise one of these, the theorem says what happens
  instead: \<open>batch_replay_unfreezes\<close>, \<open>crash_before_settlement_strands_money\<close>, \<open>refunds_add_up_unchecked\<close>,
  \<open>replay_after_nonce_expiry\<close>, \<open>settlement_pays_again\<close>, \<open>referral_reward_unbacked\<close>, \<open>clock_back_breaks_chain\<close>,
  \<open>namesake_guesses_freely\<close>, \<open>agent_becomes_super_admin\<close>, \<open>rejected_merchant_is_stuck\<close>,
  \<open>unbound_number_stays_taken\<close>, \<open>refund_taken_twice\<close>, \<open>same_millisecond_breaks_chain\<close>, \<open>stale_rules_elsewhere\<close>.

  \<^bold>\<open>What \<open>System.step\<close> covers.\<close> Its steps are the requests and jobs of transfers, escrow, red packets, recharges,
  withdrawals, cashier, splits, subscriptions, coupons, QR payments, the open API and the referral requests that pay
  nothing. Not steps, with theorems of their own: batch transfers (a replay releases money that belongs to other orders, a crash strands
  some); channel refunds, the settlement, adjustments and referral rewards, which move users' money without
  a counterpart among the platform's accounts; identities, merchants, bank cards and administrators' accounts,
  which move no money. Four kinds of steps are guarded by the invariants of their services' tables (\<open>payments_ok\<close>,
  \<open>refunds_ok\<close>, \<open>splits_ok\<close>, \<open>subs_ok\<close>), which those services' own requests keep (\<open>refunds_add_up\<close>,
  \<open>merchant_fees_within_amount\<close>, \<open>split_books\<close>, \<open>sub_books\<close>) and channel refunds do not. So \<open>frozen_money_is_backed\<close>, \<open>platform_stays_solvent\<close> and
  \<open>reachable_rows_well_formed\<close> speak of what these services do among themselves, not of every state of the deployed program.

  \<^bold>\<open>Modelling decisions.\<close>
  \<^item> A request is a function \<open>world \<Rightarrow> (exn + 'a) \<times> world\<close>. \<open>transaction\<close> restores the database when its body
    throws; what the code does outside of it (locks, password counters, risk checks, channel calls) survives.
    Requests and jobs run one at a time; the expiry of a lock's time to live is not modelled. Rows are
    kept in the order of their insertion, which is the order of \<open>createdAt\<close>. Where rows of the audit log agree in all
    sort columns the database may return them in any order: \<open>row_place\<close> of \<open>env\<close> is an arbitrary such order.
  \<^item> A \<open>world\<close> is the database, Redis and the caches of one process (rules, IP blacklist, counters kept without
    Redis); several processes share only the first two. \<open>stale_rules_elsewhere\<close> says what another process's cache does.
  \<^item> The open API guard reads the clock twice, for the window and, later, for the nonce; the two readings are two
    parameters of \<open>canActivate\<close>. The request throttle (\<open>@Throttle\<close>) is third-party code and is modelled only as the
    condition \<open>within_throttle\<close> on the requests of \<open>namesake_guesses_freely\<close>.
  \<^item> Prisma's \<open>create\<close> throws \<open>P2002\<close> where a unique column repeats. Foreign keys are not modelled.
  \<^item> Amounts are integers of fen. \<open>number\<close> arithmetic on them goes through \<open>JsNum\<close>; the 32-bit columns are
    integers under the predicate \<open>int32\<close>. \<open>js_number\<close> reads decimal literals only.
  \<^item> Ids, order numbers and idempotency keys are strings. The random parts and the clock come from the
    record \<open>env\<close>; a day is the UTC day number of the clock, except that subscriptions count in the
    server's time zone, a fixed offset of eight hours (\<open>SERVER_TZ_MS\<close>). The column \<open>updatedAt\<close> the recovery
    jobs look at is a parameter.
  \<^item> bcrypt, SHA-256, encryption, the JWT library, the channels' charge, payout and callback parser, the URL parser,
    DNS, HMAC and the HTTP client are parameters: any function, so every theorem holds for whatever they answer.
  \<^item> Text that is only displayed (titles, descriptions, message bodies) is left out; remarks the code later
    reads are templates. The configuration JSON is kept parsed. The class-validator limits of the
    request bodies are not modelled, so the theorems hold without them.
  \<^item> The notification of a merchant and the recording of a risk transaction run after the
    commit with their errors ignored; the cashier's notification is a step of its own.

  \<^bold>\<open>Fuel and bounds.\<close> Every loop of the code is a structural recursion over a list, so no definition
  uses fuel; the retry loops recurse over the list of their waits. The
  53-bit rounding is exact on the amounts the code's own limits admit, which
  \<open>yuan_fen_roundtrip\<close> proves for the conversions and \<open>cashier_payment_settles\<close> for the fee.

  \<^bold>\<open>Not modelled.\<close> The web pages (\<open>public/\<close>), the HTTP layer (controllers but for administrator accounts and merchants, pipes), the
  connectors' calls to third-party services, logging, metrics and tracing (pure I/O); queries that only
  page through a table; the components listed as not modelled in the manifest.
\<close>

section \<open>The platform\<close>

text \<open>
  C1. Wherever the requests and jobs of the relation \<open>step\<close> lead from consistent books, every account has
  non-negative balances that add up, and the frozen part of a user's balance is exactly what the user's
  paid escrow orders, open red packets and withdrawals under review hold.

  The steps are those of transfers, escrow, red packets, recharges, withdrawals, the cashier, splits, subscriptions, coupons,
  QR payments, the merchants' open API and the referral requests that pay nothing, one at a time, where a payment at the
  cashier, an API refund, a split or a subscription request finds the tables of its service in order
  (\<open>payments_ok\<close>, \<open>refunds_ok\<close>, \<open>splits_ok\<close>, \<open>subs_ok\<close>). This is not a claim about every state the program can
  reach: batches, channel refunds, the merchants' settlement, adjustments by administrators and referral rewards are not
  steps, and replayed or interrupted batches do break the conclusion (\<open>batch_replay_unfreezes\<close>).
\<close>

theorem frozen_money_is_backed:
  assumes "step\<^sup>*\<^sup>* w w'" and "money_ok (wdb w)"
  shows "\<forall>a \<in> set (accounts (wdb w')). 0 \<le> availableBalance a \<and> 0 \<le> frozenBalance a \<and>
    totalBalance a = availableBalance a + frozenBalance a \<and> frozenBalance a = held (acc_user a) (wdb w')"
proof
  fix a assume a: "a \<in> set (accounts (wdb w'))"
  have inv: "money_ok (wdb w')" using steps_money_ok [OF assms] .
  note ok = money_okD(1) [OF inv]
  have "frozenBalance a = held (acc_user a) (wdb w')"
    using held_frozen [OF inv account_of_in [OF ok a]] .
  with accounts_okD(3) [OF ok a]
  show "0 \<le> availableBalance a \<and> 0 \<le> frozenBalance a \<and>
    totalBalance a = availableBalance a + frozenBalance a \<and> frozenBalance a = held (acc_user a) (wdb w')"
    by (simp add: wf_account_def)
qed

theorem frozen_money_is_backed_witness:
  "list_all (\<lambda>a. 0 \<le> availableBalance a \<and> 0 \<le> frozenBalance a \<and>
     totalBalance a = availableBalance a + frozenBalance a \<and>
     frozenBalance a = held (acc_user a) (wdb (snd (escrow_confirm sample_env ''alice'' ''E1'' sample_world))))
     (accounts (wdb (snd (escrow_confirm sample_env ''alice'' ''E1'' sample_world))))"
  unfolding list_all_iff
  by (rule frozen_money_is_backed [OF _ sample_world_money_ok]) (intro r_into_rtranclp s_escrow_confirm)

text \<open>
  C2. The steps of \<open>step\<close> (see above) keep the platform solvent and its books balanced: its accounts together carry the
  total of all user balances and of the withdrawals on their way out, debits equal credits in the journal,
  and every account ledger row leads from its balance before to its balance after by its amount. The operations that
  are not steps are not covered, and the settlement, adjustments, channel refunds and referral rewards
  break solvency, because they move users' money without a counterpart (\<open>settlement_pays_again\<close>,
  \<open>adjustment_moves_balance\<close>, \<open>referral_reward_unbacked\<close>).
\<close>

theorem platform_stays_solvent:
  assumes "step\<^sup>*\<^sup>* w w'" and "money_ok (wdb w)"
  shows "platform_total (wdb w') = total_assets (accounts (wdb w')) + in_transit (withdrawalOrders (wdb w')) \<and>
    journal_balance (wdb w') = 0 \<and> list_all ledger_ok (accountLedgers (wdb w'))"
  using steps_money_ok [OF assms]
  by (simp add: money_ok_def solvent_def books_ok_def ledgers_ok_def)

theorem platform_stays_solvent_witness:
  "platform_total (wdb (snd (withdrawal_reject sample_env ''W1'' ''admin'' sample_world))) =
     total_assets (accounts (wdb (snd (withdrawal_reject sample_env ''W1'' ''admin'' sample_world)))) +
     in_transit (withdrawalOrders (wdb (snd (withdrawal_reject sample_env ''W1'' ''admin'' sample_world)))) \<and>
   journal_balance (wdb (snd (withdrawal_reject sample_env ''W1'' ''admin'' sample_world))) = 0 \<and>
   list_all ledger_ok (accountLedgers (wdb (snd (withdrawal_reject sample_env ''W1'' ''admin'' sample_world))))"
  by (rule platform_stays_solvent [OF _ sample_world_money_ok]) (intro r_into_rtranclp s_withdrawal_reject)

text \<open>
  C3. In every state the steps of \<open>step\<close> (the services listed above, not batches, channel refunds, settlement, adjustments and
  referral rewards) reach from consistent books, the rows of the money tables are well formed. Accounts: one per
  user, unique keys, balances within a 32-bit column, non-negative, adding up. Escrow orders: buyer and
  seller differ. Red packets: never gave away more than they hold, and what is left suffices for the
  claims that are open. Withdrawals: amount is payout plus fee. Ledger rows: before and after differ by the amount.
\<close>

theorem reachable_rows_well_formed:
  assumes "step\<^sup>*\<^sup>* w w'" and "money_ok (wdb w)"
  shows "distinct (map acc_id (accounts (wdb w'))) \<and> distinct (map acc_user (accounts (wdb w'))) \<and>
    list_all (\<lambda>a. wf_account a) (accounts (wdb w')) \<and>
    distinct (map esc_id (escrowOrders (wdb w'))) \<and> list_all wf_escrow (escrowOrders (wdb w')) \<and>
    distinct (map rp_id (redPackets (wdb w'))) \<and> list_all wf_packet (redPackets (wdb w')) \<and>
    distinct (map wd_id (withdrawalOrders (wdb w'))) \<and> list_all wf_withdrawal (withdrawalOrders (wdb w')) \<and>
    list_all ledger_ok (accountLedgers (wdb w')) \<and> list_all (\<lambda>r. 0 \<le> tx_amount r) (transactionOrders (wdb w'))"
proof -
  note ok = money_okD [OF steps_money_ok [OF assms]]
  show ?thesis
    using ok(1-4,7,8)
    by (simp add: accounts_ok_def escrows_ok_def packets_ok_def withdrawals_ok_def ledgers_ok_def orders_ok_def list_all_iff)
qed

theorem reachable_rows_well_formed_witness:
  "list_all (\<lambda>a. wf_account a) (accounts (wdb (snd (escrow_confirm sample_env ''alice'' ''E1'' sample_world))))"
  using reachable_rows_well_formed [OF _ sample_world_money_ok, of "snd (escrow_confirm sample_env ''alice'' ''E1'' sample_world)"]
  by (simp add: r_into_rtranclp s_escrow_confirm)

section \<open>Escrow trades\<close>

text \<open>
  C5. On consistent books the buyer's request to confirm a shipped order succeeds once it gets its lock, provided
  that buyer and seller have accounts and the seller's total still fits its 32-bit column: it is never refused for a
  lack of frozen money. It settles the order (status RECEIVED; the guides under \<open>docs\<close> call the final status
  COMPLETED), credits the seller's available balance with exactly the amount, takes it out of what the buyer has frozen,
  and moves nobody else's balances.
\<close>

theorem escrow_confirm_pays:
  assumes "money_ok (wdb w)" and "find_escrow no (wdb w) = Some r" and "esc_status r = EscrowStatus.SHIPPED"
    and "account_of (esc_buyer r) (accounts (wdb w)) = Some a" and "account_of (esc_seller r) (accounts (wdb w)) = Some b"
    and "totalBalance b + esc_amount r \<le> 2147483647" and "lock_free (''escrow:confirm:'' @ no) w"
  shows "\<exists>x d'. escrow_confirm e (esc_buyer r) no w = (Inr x, w\<lparr>wdb := d'\<rparr>) \<and>
    map_option esc_status (escrow_by_id (esc_id r) d') = Some EscrowStatus.RECEIVED \<and>
    (\<forall>u. available_of u (accounts d') = available_of u (accounts (wdb w)) + (if esc_seller r = u then esc_amount r else 0) \<and>
      frozen_of u (accounts d') = frozen_of u (accounts (wdb w)) - (if esc_buyer r = u then esc_amount r else 0)) \<and>
    total_assets (accounts d') = total_assets (accounts (wdb w))"
proof -
  have r: "r \<in> set (escrowOrders (wdb w))" "esc_open r"
    using find_escrow_SomeD [OF assms(2)] assms(3) by (auto simp: esc_open_def)
  obtain x d' where run: "confirm_body e (esc_buyer r) no (wdb w) = Inr (x, d')"
    using release_succeeds [OF assms(1) r(1) assms(3) r(2) assms(4-6)] assms(2,3)
    by (fastforce simp: confirm_body_def)
  have "escrow_confirm e (esc_buyer r) no w = (Inr x, w\<lparr>wdb := d'\<rparr>)"
    unfolding escrow_confirm_def
    by (rule withLock_transaction [where f = "confirm_body e (esc_buyer r) no", OF assms(7) run])
  then show ?thesis using confirm_money_ok(3,4) [OF run assms(1)] assms(2) by auto
qed

theorem escrow_confirm_pays_witness:
  "\<exists>x d'. escrow_confirm sample_env ''alice'' ''E1'' sample_world = (Inr x, sample_world\<lparr>wdb := d'\<rparr>) \<and>
     map_option esc_status (escrow_by_id ''E1'' d') = Some EscrowStatus.RECEIVED \<and>
     (\<forall>u. available_of u (accounts d') = available_of u (accounts sample_db) + (if ''bob'' = u then 300 else 0) \<and>
       frozen_of u (accounts d') = frozen_of u (accounts sample_db) - (if ''alice'' = u then 300 else 0)) \<and>
     total_assets (accounts d') = total_assets (accounts sample_db)"
proof -
  have at: "find_escrow ''E1'' (wdb sample_world) = Some (sample_escrow ''E1'' EscrowStatus.SHIPPED)"
    "account_of ''alice'' (accounts (wdb sample_world)) = Some (sample_account ''A1'' ''alice'' 10000 800)"
    "account_of ''bob'' (accounts (wdb sample_world)) = Some (sample_account ''A2'' ''bob'' 500 0)"
    "lock_free (''escrow:confirm:'' @ ''E1'') sample_world"
    by (simp_all add: find_escrow_def account_of_def lock_free_def sample_defs)
  have fields: "esc_buyer (sample_escrow ''E1'' s) = ''alice''" "esc_seller (sample_escrow ''E1'' s) = ''bob''"
    "esc_status (sample_escrow ''E1'' s) = s" "esc_amount (sample_escrow ''E1'' s) = 300" "esc_id (sample_escrow ''E1'' s) = ''E1''" for s
    by (simp_all add: sample_escrow_def sample_account_def)
  have fits: "totalBalance (sample_account ''A2'' ''bob'' 500 0) + 300 \<le> 2147483647" by (simp add: sample_account_def)
  show ?thesis
    using escrow_confirm_pays [OF sample_world_money_ok at(1), unfolded fields, OF refl at(2,3) fits at(4), of sample_env]
    unfolding sample_world_wdb .
qed

text \<open>
  On consistent books the seller's approval of a requested refund always succeeds when the
  buyer has an account, closes the order as refunded and gives the buyer exactly the amount back.
\<close>

theorem escrow_refund_returns:
  assumes "money_ok d" and "find_escrow no d = Some r" and "esc_status r = EscrowStatus.REFUND_REQUESTED"
    and "account_of (esc_buyer r) (accounts d) = Some a"
  shows "\<exists>x d'. resolve_body e (esc_seller r) no True reason d = Inr (x, d') \<and>
    map_option esc_status (escrow_by_id (esc_id r) d') = Some EscrowStatus.REFUNDED \<and>
    available_of (esc_buyer r) (accounts d') = available_of (esc_buyer r) (accounts d) + esc_amount r \<and>
    total_assets (accounts d') = total_assets (accounts d)"
proof -
  have r: "r \<in> set (escrowOrders d)" using find_escrow_SomeD [OF assms(2)] by simp
  obtain x d' where run: "refund_to_buyer e r reason d = Inr (x, d')"
    using refund_succeeds [OF assms(1) r assms(3,4)] by blast
  then have "resolve_body e (esc_seller r) no True reason d = Inr (x, d')"
    using assms(2,3) by (simp add: resolve_body_def)
  with refund_money_ok(3-5) [OF run assms(1) r assms(3)] show ?thesis by blast
qed

theorem escrow_refund_returns_witness:
  "\<exists>x d'. resolve_body sample_env ''bob'' ''E2'' True None sample_db = Inr (x, d') \<and>
     map_option esc_status (escrow_by_id ''E2'' d') = Some EscrowStatus.REFUNDED \<and>
     available_of ''alice'' (accounts d') = available_of ''alice'' (accounts sample_db) + 300 \<and>
     total_assets (accounts d') = total_assets (accounts sample_db)"
  using escrow_refund_returns [OF sample_money_ok, of "''E2''" "sample_escrow ''E2'' EscrowStatus.REFUND_REQUESTED"
      "sample_account ''A1'' ''alice'' 10000 800" sample_env None]
  by (simp add: find_escrow_def account_of_def sample_db_def sample_escrow_def sample_account_def)

text \<open>
  C6. Whatever escrow requests and jobs run, an order keeps its parties and amount, its status only
  moves along created, paid, shipped, refund requested to a final one, and a final status stays. From a requested refund
  the machine of the code leads to refunded when the seller agrees, and to received, with the seller paid, when the
  seller refuses; the dispute before an administrator that the guides and the enumeration's DISPUTE describe does not exist.
\<close>

theorem escrow_lifecycle:
  assumes "escrow_request\<^sup>*\<^sup>* w w'" and "money_ok (wdb w)" and "r \<in> set (escrowOrders (wdb w))"
  shows "\<exists>r' \<in> set (escrowOrders (wdb w')). esc_id r' = esc_id r \<and> esc_buyer r' = esc_buyer r \<and>
    esc_seller r' = esc_seller r \<and> esc_amount r' = esc_amount r \<and>
    escrow_next\<^sup>*\<^sup>* (esc_status r) (esc_status r') \<and>
    (escrow_final (esc_status r) \<longrightarrow> esc_status r' = esc_status r)"
proof -
  have "esc_ok (escrowOrders (wdb w)) (wdb w')"
    by (rule escrow_requests_ok [OF assms(1) esc_ok_self [OF assms(2)]])
  then have "escrow_evolves (escrowOrders (wdb w)) (escrowOrders (wdb w'))" by (simp add: esc_ok_def)
  from evolves_member [OF this assms(3)] show ?thesis
    by (auto simp: row_evolves_def dest: escrow_final_stays intro!: bexI)
qed

theorem escrow_lifecycle_witness:
  "\<exists>r' \<in> set (escrowOrders (wdb (snd (escrow_confirm sample_env ''alice'' ''E1'' sample_world)))).
     esc_id r' = ''E1'' \<and> esc_buyer r' = ''alice'' \<and> esc_seller r' = ''bob'' \<and> esc_amount r' = 300 \<and>
     escrow_next\<^sup>*\<^sup>* EscrowStatus.SHIPPED (esc_status r')"
proof -
  have "sample_escrow ''E1'' EscrowStatus.SHIPPED \<in> set (escrowOrders (wdb sample_world))"
    by (simp add: sample_defs)
  moreover have "escrow_request\<^sup>*\<^sup>* sample_world (snd (escrow_confirm sample_env ''alice'' ''E1'' sample_world))"
    by (intro r_into_rtranclp escrow_request.intros)
  ultimately show ?thesis
    using escrow_lifecycle [OF _ sample_world_money_ok] by (fastforce simp: sample_escrow_def)
qed

text \<open>
  Paying an order past its deadline fails with ESCROW_EXPIRED and leaves the world as it was: the
  update that marks the order expired is part of the transaction that the exception rolls back, so
  the order stays in status created.
\<close>

theorem late_payment_leaves_order_open:
  assumes "find_escrow no (wdb w) = Some r" and "esc_buyer r = u" and "esc_status r = EscrowStatus.CREATED"
    and "esc_expiredAt r = Some t" and "t < now e" and "redisEnabled w" and "''escrow:pay:'' @ no \<notin> set (locks w)"
  shows "escrow_pay pw_ok e u no pw w = (Inl (BadRequest ESCROW_EXPIRED), w)"
proof -
  have "r \<in> set (escrowOrders (wdb w))" using find_escrow_SomeD [OF assms(1)] by simp
  then have "\<exists>s. findUnique (\<lambda>s. esc_id s = esc_id r) (escrowOrders (wdb w)) = Some s"
    by (cases "findUnique (\<lambda>s. esc_id s = esc_id r) (escrowOrders (wdb w))") (auto simp: findUnique_None)
  then have checks: "pay_checks e u no (wdb w) = Inl (BadRequest ESCROW_EXPIRED)"
    using assms(1-5) by (auto simp: pay_checks_def updateOne_def)
  have "pay_locked pw_ok e u no pw (w\<lparr>locks := (''escrow:pay:'' @ no) # locks w\<rparr>) =
    (Inl (BadRequest ESCROW_EXPIRED), w\<lparr>locks := (''escrow:pay:'' @ no) # locks w\<rparr>)"
    by (simp add: pay_locked_def transaction_def checks)
  then show ?thesis using assms(6,7)
    by (simp add: escrow_pay_def withLock_def removeAll_id)
qed

theorem late_payment_leaves_order_open_witness:
  "escrow_pay (\<lambda>_ _. True) (sample_env\<lparr>now := 2000\<rparr>) ''alice'' ''E0'' ''pw'' sample_world =
     (Inl (BadRequest ESCROW_EXPIRED), sample_world)"
  by (rule late_payment_leaves_order_open [where t = 1000 and r = "sample_escrow ''E0'' EscrowStatus.CREATED"])
    (simp_all add: find_escrow_def sample_defs)


section \<open>Failing requests\<close>

text \<open>
  C11. A transfer, a withdrawal request or a new red packet that fails, for whatever reason and at whatever
  point, leaves every table as it was, except that the risk check may have recorded events.
\<close>

theorem failed_request_changes_nothing:
  "(\<forall>err. fst (transfer pw_ok e u td w) = Inl err \<longrightarrow>
      (\<exists>evs. wdb (snd (transfer pw_ok e u td w)) = wdb w\<lparr>riskEvents := evs\<rparr>)) \<and>
   (\<forall>err. fst (withdrawal_create pw_ok e u wd w) = Inl err \<longrightarrow>
      (\<exists>evs. wdb (snd (withdrawal_create pw_ok e u wd w)) = wdb w\<lparr>riskEvents := evs\<rparr>)) \<and>
   (\<forall>err. fst (packet_create pw_ok e u rd w) = Inl err \<longrightarrow>
      (\<exists>evs. wdb (snd (packet_create pw_ok e u rd w)) = wdb w\<lparr>riskEvents := evs\<rparr>))"
proof -
  let ?P = "\<lambda>d. \<exists>evs. d = wdb w\<lparr>riskEvents := evs\<rparr>"
  have ev: "ignores_events ?P" by (auto simp: ignores_events_def)
  have start: "?P (wdb w)" by (intro exI [of _ "riskEvents (wdb w)"]) simp
  show ?thesis
    using fails_transfer [where P = ?P, OF start ev, of pw_ok e u td]
      fails_withdrawal_create [where P = ?P, OF start ev, of pw_ok e u wd]
      fails_packet_create [where P = ?P, OF start ev, of pw_ok e u rd]
    unfolding fails_def by blast
qed

theorem failed_request_changes_nothing_witness:
  "\<exists>evs. wdb (snd (transfer (\<lambda>_ _. False) sample_env ''alice'' sample_transfer sample_world)) =
     sample_db\<lparr>riskEvents := evs\<rparr>"
  using failed_request_changes_nothing [of "\<lambda>_ _. False" sample_env "''alice''" sample_transfer sample_world undefined undefined]
    sample_transfer_refused by (metis fst_conv sample_world_wdb)

end
